(* ===== verification/Prelude.thy ===== *)
theory Prelude
  imports Main "HOL-Library.AList" "HOL-Library.Char_ord" "HOL-Library.List_Lexorder"
begin

section \<open>Shared vocabulary of the development\<close>

text \<open>
  This theory holds what every component of the model uses: results that may be an error
  (a thrown exception of the source), loops that may throw, the stable sort with a comparator
  that \<open>Array.prototype.sort\<close> is, decimal digits, and the \<open>named_theorems\<close>
  collections the components' proofs draw from.

  Identifiers of the database (\<open>uuid\<close> columns) are natural numbers: the 128-bit value of
  the uuid, whose numeric order is PostgreSQL's order and the order of its canonical text.
  Texts are \<open>string\<close>s (lists of 8-bit characters), dates are the \<open>int\<close> that
  \<open>getTime()\<close> gives, bigints and integral numbers are \<open>int\<close>.
\<close>

type_synonym uuid = nat
type_synonym date = int

named_theorems result_simps "rewriting of results that may be errors"
named_theorems state_simps "fields of states after an operation"

subsection \<open>Results that may be errors\<close>

definition bindR :: "'e + 'a \<Rightarrow> ('a \<Rightarrow> 'e + 'b) \<Rightarrow> 'e + 'b" where
  "bindR r f = (case r of Inl e \<Rightarrow> Inl e | Inr x \<Rightarrow> f x)"

definition ensure :: "bool \<Rightarrow> 'e \<Rightarrow> 'e + unit" where
  "ensure b e = (if b then Inr () else Inl e)"

definition fromSome :: "'e \<Rightarrow> 'a option \<Rightarrow> 'e + 'a" where
  "fromSome e v = (case v of None \<Rightarrow> Inl e | Some x \<Rightarrow> Inr x)"

lemma bindR_simps [simp]:
  "bindR (Inl e) f = Inl e"
  "bindR (Inr x) f = f x"
  by (simp_all add: bindR_def)

lemma bindR_cong [fundef_cong]:
  "r = r' \<Longrightarrow> (\<And>x. r' = Inr x \<Longrightarrow> f x = g x) \<Longrightarrow> bindR r f = bindR r' g"
  by (auto simp: bindR_def split: sum.splits)

lemma bindR_eq_Inr [result_simps]:
  "bindR r f = Inr y \<longleftrightarrow> (\<exists>x. r = Inr x \<and> f x = Inr y)"
  by (auto simp: bindR_def split: sum.splits)

lemma bindR_eq_Inl [result_simps]:
  "bindR r f = Inl e \<longleftrightarrow> r = Inl e \<or> (\<exists>x. r = Inr x \<and> f x = Inl e)"
  by (auto simp: bindR_def split: sum.splits)

lemma ensure_simps [simp]:
  "ensure True e = Inr ()"
  "ensure False e = Inl e"
  by (simp_all add: ensure_def)

lemma ensure_eq [result_simps]:
  "ensure b e = Inr u \<longleftrightarrow> b"
  "ensure b e = Inl e' \<longleftrightarrow> \<not> b \<and> e = e'"
  by (auto simp: ensure_def)

lemma fromSome_simps [simp]:
  "fromSome e None = Inl e"
  "fromSome e (Some x) = Inr x"
  by (simp_all add: fromSome_def)

lemma fromSome_eq [result_simps]:
  "fromSome e v = Inr x \<longleftrightarrow> v = Some x"
  "fromSome e v = Inl e' \<longleftrightarrow> v = None \<and> e = e'"
  by (auto simp: fromSome_def split: option.splits)

text \<open>A loop over a list whose body may throw, and a map whose function may throw.\<close>

fun foldR :: "('s \<Rightarrow> 'a \<Rightarrow> 'e + 's) \<Rightarrow> 's \<Rightarrow> 'a list \<Rightarrow> 'e + 's" where
  "foldR f s [] = Inr s"
| "foldR f s (x # xs) = bindR (f s x) (\<lambda>s'. foldR f s' xs)"

fun mapR :: "('a \<Rightarrow> 'e + 'b) \<Rightarrow> 'a list \<Rightarrow> 'e + 'b list" where
  "mapR f [] = Inr []"
| "mapR f (x # xs) = bindR (f x) (\<lambda>y. bindR (mapR f xs) (\<lambda>ys. Inr (y # ys)))"

lemma foldR_cong [fundef_cong]:
  assumes "s = t" "xs = ys" "\<And>u x. x \<in> set ys \<Longrightarrow> f u x = g u x"
  shows "foldR f s xs = foldR g t ys"
  using assms
proof (induction ys arbitrary: s t xs)
  case Nil
  then show ?case by simp
next
  case (Cons y ys)
  then show ?case by (auto intro!: bindR_cong)
qed

lemma foldR_invariant:
  assumes "foldR f s xs = Inr t" "P s"
    and "\<And>u x v. x \<in> set xs \<Longrightarrow> P u \<Longrightarrow> f u x = Inr v \<Longrightarrow> P v"
  shows "P t"
  using assms
proof (induction xs arbitrary: s)
  case Nil
  then show ?case by simp
next
  case (Cons x xs)
  from Cons.prems(1) obtain u where u: "f s x = Inr u" "foldR f u xs = Inr t"
    by (auto simp: result_simps)
  have "P u" using Cons.prems(3)[OF _ Cons.prems(2) u(1)] by simp
  with u(2) show ?case
    using Cons.IH Cons.prems(3) by (meson list.set_intros(2))
qed

lemma foldR_succeeds:
  assumes "P s xs"
    and "\<And>u x zs. P u (x # zs) \<Longrightarrow> \<exists>v. f u x = Inr v \<and> P v zs"
  shows "\<exists>t. foldR f s xs = Inr t \<and> P t []"
  using assms(1)
proof (induction xs arbitrary: s)
  case Nil
  then show ?case by simp
next
  case (Cons x xs)
  from assms(2)[OF Cons.prems] obtain v where "f s x = Inr v" "P v xs" by blast
  with Cons.IH show ?case by simp
qed

lemma foldR_append: "foldR f s (xs @ ys) = bindR (foldR f s xs) (\<lambda>t. foldR f t ys)"
  by (induction xs arbitrary: s) (auto simp: bindR_def split: sum.splits)

lemma mapR_Inr_iff: "mapR f xs = Inr ys \<longleftrightarrow> list_all2 (\<lambda>x y. f x = Inr y) xs ys"
proof (induction xs arbitrary: ys)
  case Nil
  then show ?case by auto
next
  case (Cons x xs)
  then show ?case by (cases ys) (auto simp: result_simps)
qed

lemma mapR_length: "mapR f xs = Inr ys \<Longrightarrow> length ys = length xs"
  by (auto simp: mapR_Inr_iff dest: list_all2_lengthD)

lemma mapR_nth: "mapR f xs = Inr ys \<Longrightarrow> i < length xs \<Longrightarrow> f (xs ! i) = Inr (ys ! i)"
  by (auto simp: mapR_Inr_iff dest: list_all2_nthD)

lemma mapR_exists: "(\<And>x. x \<in> set xs \<Longrightarrow> \<exists>y. f x = Inr y) \<Longrightarrow> \<exists>ys. mapR f xs = Inr ys"
  by (induction xs) fastforce+

lemma mapR_total: "(\<And>x. x \<in> set xs \<Longrightarrow> f x = Inr (g x)) \<Longrightarrow> mapR f xs = Inr (map g xs)"
  by (induction xs) auto


subsection \<open>Stable sorting with a comparator\<close>

text \<open>
  \<open>xs.sort(cmp)\<close> of the source is stable. For a comparator that is a total preorder
  (the \<open>comparator\<close> contract) the stable result is unique, and insertion from the
  right computes it: an element goes in front of the first one it is not greater than.
\<close>

fun insertBy :: "('a \<Rightarrow> 'a \<Rightarrow> int) \<Rightarrow> 'a \<Rightarrow> 'a list \<Rightarrow> 'a list" where
  "insertBy cmp x [] = [x]"
| "insertBy cmp x (y # ys) = (if cmp x y \<le> 0 then x # y # ys else y # insertBy cmp x ys)"

fun sortBy :: "('a \<Rightarrow> 'a \<Rightarrow> int) \<Rightarrow> 'a list \<Rightarrow> 'a list" where
  "sortBy cmp [] = []"
| "sortBy cmp (x # xs) = insertBy cmp x (sortBy cmp xs)"

lemma set_insertBy [simp]: "set (insertBy cmp x xs) = insert x (set xs)"
  by (induction xs) auto

lemma length_insertBy [simp]: "length (insertBy cmp x xs) = Suc (length xs)"
  by (induction xs) auto

lemma distinct_insertBy [simp]: "distinct (insertBy cmp x xs) \<longleftrightarrow> distinct (x # xs)"
  by (induction xs) auto

lemma set_sortBy [simp]: "set (sortBy cmp xs) = set xs"
  by (induction xs) auto

lemma length_sortBy [simp]: "length (sortBy cmp xs) = length xs"
  by (induction xs) auto

lemma distinct_sortBy [simp]: "distinct (sortBy cmp xs) \<longleftrightarrow> distinct xs"
  by (induction xs) auto

lemma distinct_map_insertBy:
  "distinct (map f (insertBy cmp x xs)) \<longleftrightarrow> f x \<notin> f ` set xs \<and> distinct (map f xs)"
  by (induction xs) auto

lemma distinct_map_sortBy [simp]: "distinct (map f (sortBy cmp xs)) \<longleftrightarrow> distinct (map f xs)"
  by (induction xs) (auto simp: distinct_map_insertBy)

lemma sum_list_insertBy: "sum_list (map f (insertBy cmp x xs)) = f x + sum_list (map f xs)"
  for f :: "'a \<Rightarrow> 'b::comm_monoid_add"
  by (induction xs) (auto simp: ac_simps)

lemma sum_list_sortBy [simp]: "sum_list (map f (sortBy cmp xs)) = sum_list (map f xs)"
  for f :: "'a \<Rightarrow> 'b::comm_monoid_add"
  by (induction xs) (auto simp: sum_list_insertBy)

lemma length_filter_insertBy [simp]:
  "length (filter P (insertBy cmp x xs)) = length (filter P (x # xs))"
  by (induction xs) auto

lemma length_filter_sortBy [simp]: "length (filter P (sortBy cmp xs)) = length (filter P xs)"
  by (induction xs) auto

locale comparator =
  fixes cmp :: "'a \<Rightarrow> 'a \<Rightarrow> int"
  assumes cmp_total: "cmp x y \<le> 0 \<or> cmp y x \<le> 0"
    and cmp_trans: "cmp x y \<le> 0 \<Longrightarrow> cmp y z \<le> 0 \<Longrightarrow> cmp x z \<le> 0"
begin

lemma sorted_insertBy:
  "sorted_wrt (\<lambda>x y. cmp x y \<le> 0) xs \<Longrightarrow> sorted_wrt (\<lambda>x y. cmp x y \<le> 0) (insertBy cmp x xs)"
proof (induction xs)
  case Nil
  then show ?case by simp
next
  case (Cons y ys)
  then show ?case using cmp_total[of x y] by (auto intro: cmp_trans)
qed

lemma sorted_sortBy: "sorted_wrt (\<lambda>x y. cmp x y \<le> 0) (sortBy cmp xs)"
  by (induction xs) (auto intro: sorted_insertBy)

lemma insertBy_front: "\<forall>y \<in> set xs. cmp x y \<le> 0 \<Longrightarrow> insertBy cmp x xs = x # xs"
  by (cases xs) auto

lemma sortBy_sorted: "sorted_wrt (\<lambda>x y. cmp x y \<le> 0) xs \<Longrightarrow> sortBy cmp xs = xs"
  by (induction xs) (auto simp: insertBy_front)

lemma sortBy_idem: "sortBy cmp (sortBy cmp xs) = sortBy cmp xs"
  by (rule sortBy_sorted[OF sorted_sortBy])

end

text \<open>The comparator of a numeric key, \<open>(a, b) => a.k - b.k\<close>.\<close>

definition byKey :: "('a \<Rightarrow> int) \<Rightarrow> 'a \<Rightarrow> 'a \<Rightarrow> int" where
  "byKey k a b = k a - k b"

interpretation key_order: comparator "byKey k" for k
  by unfold_locales (auto simp: byKey_def)

text \<open>
  The comparator of a text key, \<open>(a, b) => a.k < b.k ? -1 : a.k > b.k ? 1 : 0\<close>; the default
  sort of an array of texts is the one with the texts themselves as keys.
\<close>

definition byText :: "('a \<Rightarrow> string) \<Rightarrow> 'a \<Rightarrow> 'a \<Rightarrow> int" where
  "byText k a b = (if k a < k b then -1 else if k b < k a then 1 else 0)"

interpretation text_order: comparator "byText k" for k
  by unfold_locales (auto simp: byText_def split: if_splits)

subsection \<open>Lists\<close>

lemma find_Some_iff2: "find P xs = Some x \<Longrightarrow> x \<in> set xs \<and> P x"
  by (induction xs) (auto split: if_splits)

lemma find_None_iff2: "find P xs = None \<longleftrightarrow> (\<forall>x \<in> set xs. \<not> P x)"
  by (induction xs) auto

lemma find_append: "find P (xs @ ys) = (case find P xs of None \<Rightarrow> find P ys | Some x \<Rightarrow> Some x)"
  by (induction xs) auto

lemma find_key_distinct:
  "distinct (map k xs) \<Longrightarrow> x \<in> set xs \<Longrightarrow> find (\<lambda>y. k y = k x) xs = Some x"
  by (induction xs) (auto split: if_splits)

lemma sum_list_map_nonneg: "(\<And>x. x \<in> set xs \<Longrightarrow> 0 \<le> f x) \<Longrightarrow> 0 \<le> sum_list (map f xs)"
  for f :: "'a \<Rightarrow> int"
  by (induction xs) auto

lemma sum_list_nonneg_int: "\<forall>x \<in> set xs. 0 \<le> x \<Longrightarrow> 0 \<le> sum_list xs"
  for xs :: "int list"
  by (induction xs) auto

lemma sum_list_map_filter_split:
  "sum_list (map f (filter P xs)) + sum_list (map f (filter (\<lambda>x. \<not> P x) xs)) = sum_list (map f xs)"
  for f :: "'a \<Rightarrow> int"
  by (induction xs) auto

lemma foldl_plus: "foldl (+) a xs = a + sum_list xs"
  for xs :: "'a::comm_monoid_add list"
  by (induction xs arbitrary: a) (auto simp: ac_simps)

lemma map_of_update: "map_of (AList.update k v xs) = (map_of xs)(k \<mapsto> v)"
  by (rule update_conv')

lemma length_filter_all: "length (filter P xs) = length xs \<longleftrightarrow> (\<forall>x \<in> set xs. P x)"
proof (induction xs)
  case Nil
  then show ?case by simp
next
  case (Cons x xs)
  moreover have "length (filter P xs) \<noteq> Suc (length xs)"
    using length_filter_le[of P xs] by (metis Suc_n_not_le_n)
  ultimately show ?case by simp
qed

lemma dropWhile_none: "\<forall>x \<in> set xs. \<not> P x \<Longrightarrow> dropWhile P xs = xs"
  by (cases xs) auto

lemma takeWhile_sorted_filter:
  "sorted_wrt (\<lambda>x y. P y \<longrightarrow> P x) xs \<Longrightarrow> take (length (filter P xs)) xs = filter P xs"
proof (induction xs)
  case Nil
  then show ?case by simp
next
  case (Cons x xs)
  show ?case
  proof (cases "P x")
    case True
    with Cons show ?thesis by simp
  next
    case False
    with Cons.prems have "filter P (x # xs) = []" by (auto simp: filter_empty_conv)
    then show ?thesis by simp
  qed
qed

lemma sum_list_list_update:
  "i < length xs \<Longrightarrow> sum_list (xs[i := v]) = sum_list xs + v - xs ! i" for xs :: "int list"
  by (induction xs arbitrary: i) (auto split: nat.splits)

lemma enumerate_map_fst_snd: "map fst (enumerate n xs) = [n..<n + length xs]"
  by simp

lemma member_le_sum_list_int:
  "x \<in> set xs \<Longrightarrow> \<forall>y \<in> set xs. 0 \<le> f y \<Longrightarrow> f x \<le> sum_list (map f xs)" for f :: "'a \<Rightarrow> int"
  by (induction xs) (auto intro: add_increasing add_increasing2 sum_list_map_nonneg)

lemma foldl_plus_0: "foldl (+) 0 xs = sum_list xs" for xs :: "'a::comm_monoid_add list"
  by (simp add: foldl_plus)

subsection \<open>Decimal digits\<close>

definition is_digit :: "char \<Rightarrow> bool" where
  "is_digit c \<longleftrightarrow> 48 \<le> (of_char c :: nat) \<and> (of_char c :: nat) \<le> 57"

definition digit_char :: "nat \<Rightarrow> char" where
  "digit_char n = char_of (48 + n)"

definition digit_val :: "char \<Rightarrow> nat" where
  "digit_val c = of_char c - 48"

fun show_nat :: "nat \<Rightarrow> string" where
  "show_nat n = (if n < 10 then [digit_char n] else show_nat (n div 10) @ [digit_char (n mod 10)])"

definition read_nat :: "string \<Rightarrow> nat" where
  "read_nat s = foldl (\<lambda>n c. 10 * n + digit_val c) 0 s"

definition show_int :: "int \<Rightarrow> string" where
  "show_int i = (if i < 0 then CHR ''-'' # show_nat (nat (- i)) else show_nat (nat i))"

declare show_nat.simps [simp del]

lemma digit_char_val [simp]: "n < 10 \<Longrightarrow> digit_val (digit_char n) = n"
  by (simp add: digit_val_def digit_char_def)

lemma digit_char_is_digit [simp]: "n < 10 \<Longrightarrow> is_digit (digit_char n)"
  by (simp add: is_digit_def digit_char_def)

lemma digit_char_values [simp]:
  "digit_char 0 = CHR ''0''" "digit_char (Suc 0) = CHR ''1''" "digit_char 1 = CHR ''1''"
  "digit_char 2 = CHR ''2''" "digit_char 3 = CHR ''3''" "digit_char 4 = CHR ''4''"
  "digit_char 5 = CHR ''5''" "digit_char 6 = CHR ''6''" "digit_char 7 = CHR ''7''"
  "digit_char 8 = CHR ''8''" "digit_char 9 = CHR ''9''"
  by code_simp+

lemma digit_val_bound: "is_digit c \<Longrightarrow> digit_val c < 10"
  by (auto simp: is_digit_def digit_val_def)

lemma read_nat_Nil [simp]: "read_nat [] = 0"
  by (simp add: read_nat_def)

lemma read_nat_snoc [simp]: "read_nat (s @ [c]) = 10 * read_nat s + digit_val c"
  by (simp add: read_nat_def)

lemma read_nat_append: "read_nat (s @ t) = read_nat s * 10 ^ length t + read_nat t"
proof (induction t rule: rev_induct)
  case Nil
  then show ?case by simp
next
  case (snoc c t)
  then show ?case
    using read_nat_snoc[of "s @ t" c] by (simp add: algebra_simps)
qed

lemma read_nat_bound: "list_all is_digit s \<Longrightarrow> read_nat s < 10 ^ length s"
proof (induction s rule: rev_induct)
  case Nil
  then show ?case by simp
next
  case (snoc c s)
  then have "read_nat s < 10 ^ length s" "digit_val c < 10"
    by (auto dest: digit_val_bound)
  then show ?case by simp
qed

lemma read_show_nat [simp]: "read_nat (show_nat n) = n"
proof (induction n rule: show_nat.induct)
  case (1 n)
  show ?case
  proof (cases "n < 10")
    case True
    then show ?thesis by (subst show_nat.simps) (simp add: read_nat_def)
  next
    case False
    then show ?thesis using 1 by (subst show_nat.simps) simp
  qed
qed

lemma show_nat_digits [simp]: "list_all is_digit (show_nat n)"
proof (induction n rule: show_nat.induct)
  case (1 n)
  then show ?case by (subst show_nat.simps) simp
qed

lemma show_nat_nonempty [simp]: "show_nat n \<noteq> []"
  by (subst show_nat.simps) simp

lemma read_nat_zeros [simp]: "read_nat (replicate k (CHR ''0'')) = 0"
  by (induction k) (auto simp: read_nat_append[of "[_]", simplified] read_nat_def digit_val_def foldl_conv_fold)

lemma is_digit_zero [simp]: "is_digit (CHR ''0'')"
  by (simp add: is_digit_def)

text \<open>\<open>BigInt(text)\<close> for a text that matches \<open>/^-?\d+$/\<close>, which is what the callers test.\<close>

definition int_text :: "string \<Rightarrow> bool" where
  "int_text s = (case s of [] \<Rightarrow> False
     | c # cs \<Rightarrow> if c = CHR ''-'' then cs \<noteq> [] \<and> list_all is_digit cs else list_all is_digit s)"

definition read_int :: "string \<Rightarrow> int" where
  "read_int s = (case s of [] \<Rightarrow> 0
     | c # cs \<Rightarrow> if c = CHR ''-'' then - int (read_nat cs) else int (read_nat s))"

lemma minus_not_digit [simp]: "\<not> is_digit (CHR ''-'')"
  by (simp add: is_digit_def)

lemma show_nat_cases:
  obtains c cs where "show_nat n = c # cs" "is_digit c" "list_all is_digit cs" "c \<noteq> CHR ''-''"
proof -
  obtain c cs where "show_nat n = c # cs"
    using show_nat_nonempty[of n] by (cases "show_nat n") auto
  moreover have "list_all is_digit (show_nat n)" by simp
  ultimately show ?thesis using that by (cases "c = CHR ''-''") auto
qed

lemma int_text_show [simp]: "int_text (show_int i)"
  by (cases rule: show_nat_cases[of "nat i"])
    (auto simp: int_text_def show_int_def)

lemma read_show_int [simp]: "read_int (show_int i) = i"
proof (cases "i < 0")
  case True
  then show ?thesis by (simp add: read_int_def show_int_def)
next
  case False
  then show ?thesis
    using read_show_nat[of "nat i"]
    by (cases rule: show_nat_cases[of "nat i"]) (simp add: read_int_def show_int_def)
qed

lemma show_int_inj: "show_int a = show_int b \<longleftrightarrow> a = b"
  by (metis read_show_int)

text \<open>
  The text of an identifier. The source writes the hexadecimal digits of the uuid; the model
  writes the decimal digits of its value. Both are injective and free of the separators used
  below, which is all that the callers need of it.
\<close>

definition uuid_text :: "uuid \<Rightarrow> string" where
  "uuid_text u = show_nat u"

subsection \<open>Arrays and joined texts\<close>

text \<open>\<open>xs[i] ?? d\<close>.\<close>

definition at_or :: "'a \<Rightarrow> 'a list \<Rightarrow> nat \<Rightarrow> 'a" where
  "at_or d xs i = (if i < length xs then xs ! i else d)"

lemma map_enumerate_at_or:
  assumes "length ys = length xs"
  shows "map (\<lambda>(i, x). f x (at_or d ys i)) (enumerate 0 xs) = map2 f xs ys"
  using assms by (intro nth_equalityI) (auto simp: nth_enumerate_eq at_or_def)

text \<open>\<open>xs.join(sep)\<close>.\<close>

fun joinWith :: "string \<Rightarrow> string list \<Rightarrow> string" where
  "joinWith sep [] = []"
| "joinWith sep [x] = x"
| "joinWith sep (x # y # ys) = x @ sep @ joinWith sep (y # ys)"

lemma append_sep_inj:
  "c \<notin> set x \<Longrightarrow> c \<notin> set y \<Longrightarrow> x @ c # u = y @ c # v \<Longrightarrow> x = y \<and> u = v"
proof (induction x arbitrary: y)
  case Nil
  then show ?case by (cases y) auto
next
  case (Cons a x)
  then show ?case by (cases y) auto
qed

lemma joinWith_Cons: "xs \<noteq> [] \<Longrightarrow> joinWith sep (x # xs) = x @ sep @ joinWith sep xs"
  by (cases xs) auto

lemma joinWith_eq_Nil: "\<forall>x \<in> set xs. x \<noteq> [] \<Longrightarrow> joinWith sep xs = [] \<longleftrightarrow> xs = []"
  by (induction sep xs rule: joinWith.induct) auto

lemma joinWith_inj:
  assumes "\<forall>x \<in> set xs. c \<notin> set x \<and> x \<noteq> []" "\<forall>y \<in> set ys. c \<notin> set y \<and> y \<noteq> []"
    and "joinWith [c] xs = joinWith [c] ys"
  shows "xs = ys"
  using assms
proof (induction xs arbitrary: ys)
  case Nil
  then show ?case using joinWith_eq_Nil[of ys "[c]"] by simp
next
  case (Cons x xs)
  obtain y zs where ys: "ys = y # zs"
    using Cons.prems joinWith_eq_Nil[of "x # xs" "[c]"] by (cases ys) auto
  show ?case
  proof (cases "xs = []"; cases "zs = []")
    assume "xs = []" "zs \<noteq> []"
    then have "x = y @ c # joinWith [c] zs" using Cons.prems(3) by (simp add: ys joinWith_Cons)
    then show ?thesis using Cons.prems(1) by simp
  next
    assume "xs \<noteq> []" "zs = []"
    then have "y = x @ c # joinWith [c] xs" using Cons.prems(3) by (simp add: ys joinWith_Cons)
    then show ?thesis using Cons.prems(2) by (simp add: ys)
  next
    assume *: "xs \<noteq> []" "zs \<noteq> []"
    then have eq: "x @ c # joinWith [c] xs = y @ c # joinWith [c] zs"
      using Cons.prems(3) by (simp add: ys joinWith_Cons)
    have "c \<notin> set x" "c \<notin> set y" using Cons.prems(1,2) by (simp_all add: ys)
    from append_sep_inj[OF this eq] have "x = y" "joinWith [c] xs = joinWith [c] zs" by blast+
    moreover have "xs = zs"
    proof (rule Cons.IH)
      show "\<forall>x \<in> set xs. c \<notin> set x \<and> x \<noteq> []" "\<forall>y \<in> set zs. c \<notin> set y \<and> y \<noteq> []"
        using Cons.prems(1,2) by (simp_all add: ys)
    qed fact
    ultimately show ?thesis by (simp add: ys)
  next
    assume "xs = []" "zs = []"
    then show ?thesis using Cons.prems(3) by (simp add: ys)
  qed
qed

end
