(* ===== verification/Money.thy ===== *)
theory Money
  imports Prelude "HOL-Library.Signed_Division"
begin

section \<open>Money\<close>

text \<open>
  Model of \<open>packages/commerce/src/money.ts\<close>: amounts in integer minor units with their
  currency, exact arithmetic with explicit rounding, the largest-remainder split, and the
  decimal texts that people type and read. An amount argument of the source is a bigint, a
  number or a text (\<open>raw_amount\<close>); of a number only whether it is integral, and then
  its value, is ever looked at. The locale-dependent \<open>format\<close> is not modelled: it only
  passes the text of \<open>toDecimalString\<close> to \<open>Intl.NumberFormat\<close>.
\<close>

subsection \<open>Errors and currencies\<close>

datatype money_code = UNKNOWN_CURRENCY | CURRENCY_MISMATCH | INVALID_AMOUNT | INVALID_INPUT

datatype money_error = MoneyError (error_code: money_code) (error_message: string)

datatype rounding = HalfEven | HalfUp | HalfDown | Floor | Ceil | Trunc

record money_t =
  m_amount :: int
  m_currency :: string

record money_json =
  j_amount :: string
  j_currency :: string

datatype js_number = Integral int | NonIntegral

datatype raw_amount = BigIntV int | NumberV js_number | TextV string

definition ZERO :: "string list" where
  "ZERO =
    [''BIF'', ''CLP'', ''DJF'', ''GNF'', ''ISK'', ''JPY'', ''KMF'', ''KRW'', ''PYG'', ''RWF'',
     ''UGX'', ''UYI'', ''VND'', ''VUV'', ''XAF'', ''XOF'', ''XPF'']"

definition THREE :: "string list" where
  "THREE = [''BHD'', ''IQD'', ''JOD'', ''KWD'', ''LYD'', ''OMR'', ''TND'']"

definition FOUR :: "string list" where
  "FOUR = [''CLF'', ''UYW'']"

definition TWO :: "string list" where
  "TWO =
    [''AED'', ''AFN'', ''ALL'', ''AMD'', ''ANG'', ''AOA'', ''ARS'', ''AUD'', ''AWG'', ''AZN'',
     ''BAM'', ''BBD'', ''BDT'', ''BGN'', ''BMD'', ''BND'', ''BOB'', ''BRL'', ''BSD'', ''BTN'',
     ''BWP'', ''BYN'', ''BZD'', ''CAD'', ''CDF'', ''CHF'', ''CNY'', ''COP'', ''CRC'', ''CUP'',
     ''CVE'', ''CZK'', ''DKK'', ''DOP'', ''DZD'', ''EGP'', ''ERN'', ''ETB'', ''EUR'', ''FJD'',
     ''FKP'', ''GBP'', ''GEL'', ''GHS'', ''GIP'', ''GMD'', ''GTQ'', ''GYD'', ''HKD'', ''HNL'',
     ''HTG'', ''HUF'', ''IDR'', ''ILS'', ''INR'', ''IRR'', ''JMD'', ''KES'', ''KGS'', ''KHR'',
     ''KPW'', ''KYD'', ''KZT'', ''LAK'', ''LBP'', ''LKR'', ''LRD'', ''LSL'', ''MAD'', ''MDL'',
     ''MGA'', ''MKD'', ''MMK'', ''MNT'', ''MOP'', ''MRU'', ''MUR'', ''MVR'', ''MWK'', ''MXN'',
     ''MYR'', ''MZN'', ''NAD'', ''NGN'', ''NIO'', ''NOK'', ''NPR'', ''NZD'', ''PAB'', ''PEN'',
     ''PGK'', ''PHP'', ''PKR'', ''PLN'', ''QAR'', ''RON'', ''RSD'', ''RUB'', ''SAR'', ''SBD'',
     ''SCR'', ''SDG'', ''SEK'', ''SGD'', ''SHP'', ''SLE'', ''SOS'', ''SRD'', ''SSP'', ''STN'',
     ''SVC'', ''SYP'', ''SZL'', ''THB'', ''TJS'', ''TMT'', ''TOP'', ''TRY'', ''TTD'', ''TWD'',
     ''TZS'', ''UAH'', ''USD'', ''UYU'', ''UZS'', ''VES'', ''WST'', ''XCD'', ''YER'', ''ZAR'',
     ''ZMW'', ''ZWG'']"

definition EXPONENTS :: "(string \<times> nat) list" where
  "EXPONENTS = map (\<lambda>c. (c, 0)) ZERO @ map (\<lambda>c. (c, 2)) TWO
     @ map (\<lambda>c. (c, 3)) THREE @ map (\<lambda>c. (c, 4)) FOUR"

definition currencyExponent :: "string \<Rightarrow> money_error + nat" where
  "currencyExponent currency = (case map_of EXPONENTS currency of
     None \<Rightarrow> Inl (MoneyError UNKNOWN_CURRENCY
       (''Unknown currency '' @ [CHR 0x22] @ currency @ [CHR 0x22] @ ''.''))
   | Some e \<Rightarrow> Inr e)"

definition isKnownCurrency :: "string \<Rightarrow> bool" where
  "isKnownCurrency currency \<longleftrightarrow> map_of EXPONENTS currency \<noteq> None"

subsection \<open>Construction and arithmetic\<close>

definition max_safe_integer :: int where
  "max_safe_integer = 2 ^ 53 - 1"

definition not_minor_units :: money_error where
  "not_minor_units = MoneyError INVALID_AMOUNT ''Money amounts must be integer minor units.''"

fun toBigInt :: "raw_amount \<Rightarrow> money_error + int" where
  "toBigInt (BigIntV n) = Inr n"
| "toBigInt (NumberV (Integral n)) =
     (if \<bar>n\<bar> \<le> max_safe_integer then Inr n else Inl not_minor_units)"
| "toBigInt (NumberV NonIntegral) = Inl not_minor_units"
| "toBigInt (TextV s) = (if int_text s then Inr (read_int s) else Inl not_minor_units)"

definition money :: "raw_amount \<Rightarrow> string \<Rightarrow> money_error + money_t" where
  "money amount currency =
     bindR (currencyExponent currency) (\<lambda>_.
     bindR (toBigInt amount) (\<lambda>n.
     Inr \<lparr>m_amount = n, m_currency = currency\<rparr>))"

definition zero_money :: "string \<Rightarrow> money_error + money_t" where
  "zero_money currency = money (BigIntV 0) currency"

definition sameCurrency :: "money_t \<Rightarrow> money_t \<Rightarrow> money_error + unit" where
  "sameCurrency a b = ensure (m_currency a = m_currency b)
     (MoneyError CURRENCY_MISMATCH (''Can't combine '' @ m_currency a @ '' and '' @ m_currency b
       @ ''; there is no implicit conversion.''))"

definition add_money :: "money_t \<Rightarrow> money_t \<Rightarrow> money_error + money_t" where
  "add_money a b = bindR (sameCurrency a b) (\<lambda>_.
     money (BigIntV (m_amount a + m_amount b)) (m_currency a))"

definition subtract_money :: "money_t \<Rightarrow> money_t \<Rightarrow> money_error + money_t" where
  "subtract_money a b = bindR (sameCurrency a b) (\<lambda>_.
     money (BigIntV (m_amount a - m_amount b)) (m_currency a))"

definition sum_money :: "money_t list \<Rightarrow> string \<Rightarrow> money_error + money_t" where
  "sum_money values currency =
     bindR (zero_money currency) (\<lambda>z. foldR add_money z values)"

definition multiply :: "money_t \<Rightarrow> raw_amount \<Rightarrow> money_error + money_t" where
  "multiply value quantity = bindR (toBigInt quantity) (\<lambda>q.
     money (BigIntV (m_amount value * q)) (m_currency value))"

definition negate :: "money_t \<Rightarrow> money_error + money_t" where
  "negate value = money (BigIntV (- m_amount value)) (m_currency value)"

function divideRounded :: "int \<Rightarrow> int \<Rightarrow> rounding \<Rightarrow> money_error + int" where
  "divideRounded numerator denominator rounding =
    (if denominator = 0 then Inl (MoneyError INVALID_INPUT ''Division by zero.'')
     else if denominator < 0 then divideRounded (- numerator) (- denominator) rounding
     else
       let quotient = numerator sdiv denominator;
           remainder = numerator smod denominator
       in if remainder = 0 then Inr quotient
          else
            let negative = numerator < 0;
                floor = (if negative then quotient - 1 else quotient);
                ceil = floor + 1;
                twice = (if negative then - remainder else remainder) * 2;
                aboveFloor = (if negative then denominator * 2 - twice else twice)
            in case rounding of
                 Floor \<Rightarrow> Inr floor
               | Ceil \<Rightarrow> Inr ceil
               | Trunc \<Rightarrow> Inr quotient
               | HalfUp \<Rightarrow> Inr
                   (if aboveFloor = denominator then (if negative then floor else ceil)
                    else if aboveFloor > denominator then ceil else floor)
               | HalfDown \<Rightarrow> Inr
                   (if aboveFloor = denominator then (if negative then ceil else floor)
                    else if aboveFloor > denominator then ceil else floor)
               | HalfEven \<Rightarrow> Inr
                   (if aboveFloor = denominator then (if floor smod 2 = 0 then floor else ceil)
                    else if aboveFloor > denominator then ceil else floor))"
  by pat_completeness auto
termination
  by (relation "measure (\<lambda>(n, d, r). if d < 0 then 1 else 0)") auto

declare divideRounded.simps [simp del]

definition applyBasisPoints :: "money_t \<Rightarrow> raw_amount \<Rightarrow> rounding \<Rightarrow> money_error + money_t" where
  "applyBasisPoints value bps rounding =
     bindR (toBigInt bps) (\<lambda>b.
     bindR (divideRounded (m_amount value * b) 10000 rounding) (\<lambda>n.
     money (BigIntV n) (m_currency value)))"

definition applyPpm :: "money_t \<Rightarrow> raw_amount \<Rightarrow> rounding \<Rightarrow> money_error + money_t" where
  "applyPpm value ppm rounding =
     bindR (toBigInt ppm) (\<lambda>p.
     bindR (divideRounded (m_amount value * p) 1000000 rounding) (\<lambda>n.
     money (BigIntV n) (m_currency value)))"

subsection \<open>Allocation by largest remainder\<close>

definition byRemainder :: "nat \<times> int \<Rightarrow> nat \<times> int \<Rightarrow> int" where
  "byRemainder a b = (if snd b > snd a then 1 else if snd b < snd a then -1
     else int (fst a) - int (fst b))"

text \<open>The loop that hands the left-over units out, one per index in the sorted order.\<close>

fun distribute :: "int list \<Rightarrow> nat list \<Rightarrow> int \<Rightarrow> int list" where
  "distribute shares [] left = shares"
| "distribute shares (i # is) left =
     (if left = 0 then shares
      else distribute (shares[i := shares ! i + 1]) is (left - 1))"

text \<open>
  The computation on the weights once they are accepted: floors of the exact shares, their
  remainders in order, and the left-over units.
\<close>

definition split_shares :: "int \<Rightarrow> int list \<Rightarrow> int list" where
  "split_shares amount weights =
     (let total = foldl (+) 0 weights;
          shares = map (\<lambda>w. (amount * w) sdiv total) weights;
          remainders = map (\<lambda>(i, w). (i, (amount * w) smod total)) (enumerate 0 weights);
          left = amount - foldl (+) 0 shares
      in distribute shares (map fst (sortBy byRemainder remainders)) left)"

definition allocate :: "money_t \<Rightarrow> raw_amount list \<Rightarrow> money_error + money_t list" where
  "allocate value ratios =
     bindR (mapR toBigInt ratios) (\<lambda>weights.
     if weights = [] \<or> list_ex (\<lambda>w. w < 0) weights
     then Inl (MoneyError INVALID_INPUT ''Allocation ratios must be non-negative and not empty.'')
     else
       let total = foldl (+) 0 weights
       in if total = 0
          then Inl (MoneyError INVALID_INPUT ''Allocation ratios can't all be zero.'')
          else
            let sign = (if m_amount value < 0 then -1 else 1);
                amount = m_amount value * sign
            in mapR (\<lambda>share. money (BigIntV (share * sign)) (m_currency value))
                 (split_shares amount weights))"

subsection \<open>Comparison\<close>

definition compare_money :: "money_t \<Rightarrow> money_t \<Rightarrow> money_error + int" where
  "compare_money a b = bindR (sameCurrency a b) (\<lambda>_.
     Inr (if m_amount a < m_amount b then -1 else if m_amount a > m_amount b then 1 else 0))"

definition equals :: "money_t \<Rightarrow> money_t \<Rightarrow> bool" where
  "equals a b \<longleftrightarrow> m_currency a = m_currency b \<and> m_amount a = m_amount b"

definition isZero :: "money_t \<Rightarrow> bool" where
  "isZero value \<longleftrightarrow> m_amount value = 0"

definition isNegative :: "money_t \<Rightarrow> bool" where
  "isNegative value \<longleftrightarrow> m_amount value < 0"

subsection \<open>Texts\<close>

definition padStart :: "nat \<Rightarrow> char \<Rightarrow> string \<Rightarrow> string" where
  "padStart n c s = replicate (n - length s) c @ s"

definition padEnd :: "nat \<Rightarrow> char \<Rightarrow> string \<Rightarrow> string" where
  "padEnd n c s = s @ replicate (n - length s) c"

definition toDecimalString :: "money_t \<Rightarrow> money_error + string" where
  "toDecimalString value =
     bindR (currencyExponent (m_currency value)) (\<lambda>exponent.
     let negative = m_amount value < 0;
         digits = show_int (if negative then - m_amount value else m_amount value);
         sign = (if negative then ''-'' else '''')
     in if exponent = 0 then Inr (sign @ digits)
        else
          let padded = padStart (exponent + 1) (CHR ''0'') digits;
              whole = take (length padded - exponent) padded;
              fraction = drop (length padded - exponent) padded
          in Inr (sign @ whole @ ''.'' @ fraction))"

text \<open>
  White space of JavaScript among the 8-bit characters: tab, line feed, vertical tab, form
  feed, carriage return, space and no-break space.
\<close>

definition js_space :: "char \<Rightarrow> bool" where
  "js_space c \<longleftrightarrow> (of_char c :: nat) \<in> {9, 10, 11, 12, 13, 32, 160}"

definition trim :: "string \<Rightarrow> string" where
  "trim s = rev (dropWhile js_space (rev (dropWhile js_space s)))"

text \<open>Spaces and commas are grouping separators.\<close>

definition clean_text :: "string \<Rightarrow> string" where
  "clean_text input = filter (\<lambda>c. \<not> (js_space c \<or> c = CHR '','')) (trim input)"

text \<open>
  The two patterns of \<open>parseDecimal\<close>: an optional minus, digits, and an optional point
  with digits, where the digits before or after the point may be missing but not both. The
  result is the minus, the whole part and the fraction.
\<close>

definition match_decimal :: "string \<Rightarrow> (bool \<times> string \<times> string) option" where
  "match_decimal s =
     (let neg = (s \<noteq> [] \<and> hd s = CHR ''-'');
          body = (if neg then tl s else s);
          whole = takeWhile is_digit body;
          rest = dropWhile is_digit body
      in case rest of
           [] \<Rightarrow> if whole = [] then None else Some (neg, whole, [])
         | p # fraction \<Rightarrow>
             if p = CHR ''.'' \<and> list_all is_digit fraction \<and> (whole \<noteq> [] \<or> fraction \<noteq> [])
             then Some (neg, whole, fraction) else None)"

definition parseDecimal :: "string \<Rightarrow> string \<Rightarrow> bool \<Rightarrow> money_error + money_t" where
  "parseDecimal input currency allowNegative =
     bindR (currencyExponent currency) (\<lambda>exponent.
     case match_decimal (clean_text input) of
          None \<Rightarrow> Inl (MoneyError INVALID_INPUT ''Enter an amount such as 999.50.'')
        | Some (neg, whole, fraction) \<Rightarrow>
            if neg \<and> \<not> allowNegative
            then Inl (MoneyError INVALID_INPUT ''The amount can't be negative.'')
            else if length fraction > exponent
            then Inl (MoneyError INVALID_INPUT
              (if exponent = 0 then currency @ '' amounts have no decimal places.''
               else currency @ '' amounts have at most '' @ show_int (int exponent)
                 @ '' decimal places.''))
            else
              let minor = int (read_nat ((if whole = [] then ''0'' else whole)
                            @ padEnd exponent (CHR ''0'') fraction))
              in money (BigIntV (if neg then - minor else minor)) currency)"

definition toJSON :: "money_t \<Rightarrow> money_json" where
  "toJSON value = \<lparr>j_amount = show_int (m_amount value), j_currency = m_currency value\<rparr>"

definition fromJSON :: "money_json \<Rightarrow> money_error + money_t" where
  "fromJSON json = money (TextV (j_amount json)) (j_currency json)"

section \<open>Properties of money\<close>

subsection \<open>Rounded division\<close>

text \<open>
  The result in terms of the floor \<open>q\<close> of the quotient and the distance \<open>m\<close> above it,
  for a positive denominator.
\<close>

definition round_qm :: "int \<Rightarrow> int \<Rightarrow> int \<Rightarrow> bool \<Rightarrow> rounding \<Rightarrow> int" where
  "round_qm q m d neg r =
     (if m = 0 then q
      else case r of
        Floor \<Rightarrow> q
      | Ceil \<Rightarrow> q + 1
      | Trunc \<Rightarrow> (if neg then q + 1 else q)
      | HalfUp \<Rightarrow> (if 2 * m = d then (if neg then q else q + 1) else if 2 * m > d then q + 1 else q)
      | HalfDown \<Rightarrow> (if 2 * m = d then (if neg then q + 1 else q) else if 2 * m > d then q + 1 else q)
      | HalfEven \<Rightarrow> (if 2 * m = d then (if even q then q else q + 1) else if 2 * m > d then q + 1 else q))"

definition rounded :: "int \<Rightarrow> int \<Rightarrow> rounding \<Rightarrow> int" where
  "rounded n d r = round_qm (n div d) (n mod d) d (n < 0) r"

lemma smod_eq_0: "n smod d = 0 \<longleftrightarrow> n mod d = 0" if "0 < d" for n d :: int
  using that by (simp add: smod_int_alt_def sgn_if mod_eq_0_iff_dvd)

lemma sdiv_smod_negative:
  fixes n d :: int
  assumes "0 < d" "n < 0" "n mod d \<noteq> 0"
  shows "n sdiv d = n div d + 1" "n smod d = n mod d - d"
proof -
  have "\<not> d dvd n" using assms(3) by (simp add: dvd_eq_mod_eq_0)
  then show "n sdiv d = n div d + 1" "n smod d = n mod d - d"
    using assms by (simp_all add: signed_divide_int_eq_divide_int signed_modulo_int_eq_modulo_int)
qed

lemma sdiv_smod_nonneg:
  fixes n d :: int
  assumes "0 < d" "0 \<le> n"
  shows "n sdiv d = n div d" "n smod d = n mod d"
  using assms by (simp_all add: signed_divide_int_def smod_mod_positive sgn_if)

lemma sdiv_exact: "0 < d \<Longrightarrow> n mod d = 0 \<Longrightarrow> n sdiv d = n div d" for n d :: int
  by (simp add: signed_divide_int_eq_divide_int dvd_eq_mod_eq_0)

lemma smod_2_even: "q smod 2 = 0 \<longleftrightarrow> even q" for q :: int
  using smod_eq_0[of 2 q] by (simp add: even_iff_mod_2_eq_zero)

lemma divideRounded_pos:
  assumes "0 < d"
  shows "divideRounded n d r = Inr (rounded n d r)"
proof (cases "n mod d = 0")
  case True
  then show ?thesis using assms
    by (subst divideRounded.simps) (simp add: rounded_def round_qm_def smod_eq_0 sdiv_exact)
next
  case False
  then show ?thesis
  proof (cases "n < 0")
    case True
    moreover have "n mod d \<noteq> d" using assms pos_mod_bound[of d n] by linarith
    ultimately show ?thesis using False assms
      by (subst divideRounded.simps)
        (cases r; simp add: rounded_def round_qm_def smod_eq_0 sdiv_smod_negative Let_def smod_2_even algebra_simps)
  next
    case nonneg: False
    with False assms show ?thesis
      by (subst divideRounded.simps)
        (cases r; simp add: rounded_def round_qm_def smod_eq_0 sdiv_smod_nonneg Let_def smod_2_even algebra_simps)
  qed
qed

lemma divideRounded_neg: "d < 0 \<Longrightarrow> divideRounded n d r = divideRounded (- n) (- d) r"
  by (subst divideRounded.simps) simp

lemma divideRounded_eq:
  "d \<noteq> 0 \<Longrightarrow> divideRounded n d r = Inr (rounded (n * sgn d) \<bar>d\<bar> r)"
  by (cases "0 < d") (simp_all add: divideRounded_pos divideRounded_neg)

lemma divideRounded_Inr [result_simps]:
  "divideRounded n d r = Inr q \<longleftrightarrow> d \<noteq> 0 \<and> q = rounded (n * sgn d) \<bar>d\<bar> r"
proof (cases "d = 0")
  case True
  then show ?thesis by (subst divideRounded.simps) simp
next
  case False
  then show ?thesis by (auto simp: divideRounded_eq)
qed

lemma above_floor: "q * d + m - (q + 1) * d = m - d" for q d m :: int
  by (simp add: distrib_right)

lemma round_qm_near:
  assumes "0 \<le> m" "m < d"
  shows "\<bar>q * d + m - round_qm q m d neg r * d\<bar> < d"
  using assms above_floor[of q d m] by (cases r) (auto simp: round_qm_def)

lemma round_qm_half:
  assumes "0 \<le> m" "m < d" "r \<in> {HalfUp, HalfDown, HalfEven}"
  shows "\<bar>2 * (q * d + m - round_qm q m d neg r * d)\<bar> \<le> d"
  using assms above_floor[of q d m] by (cases r) (auto simp: round_qm_def)

lemma round_qm_tie:
  assumes "0 \<le> m" "m < d" "\<bar>2 * (q * d + m - round_qm q m d neg r * d)\<bar> = d"
    "r \<in> {HalfUp, HalfDown, HalfEven}"
  shows "2 * m = d"
  using assms above_floor[of q d m] by (cases r) (auto simp: round_qm_def split: if_splits)

lemma round_qm_even: "2 * m = d \<Longrightarrow> m \<noteq> 0 \<Longrightarrow> even (round_qm q m d neg HalfEven)"
  by (simp add: round_qm_def)

lemma rounded_near:
  assumes "0 < d"
  shows "\<bar>n - rounded n d r * d\<bar> < d"
  using round_qm_near[of "n mod d" d "n div d" "n < 0" r] assms by (simp add: rounded_def)

lemma rounded_half:
  assumes "0 < d" "r \<in> {HalfUp, HalfDown, HalfEven}"
  shows "\<bar>2 * (n - rounded n d r * d)\<bar> \<le> d"
  using round_qm_half[of "n mod d" d r "n div d" "n < 0"] assms unfolding rounded_def
  by (simp only: div_mult_mod_eq pos_mod_sign pos_mod_bound)

lemma rounded_tie_iff:
  assumes "0 < d" "r \<in> {HalfUp, HalfDown, HalfEven}" "\<bar>2 * (n - rounded n d r * d)\<bar> = d"
  shows "2 * (n mod d) = d"
  using round_qm_tie[of "n mod d" d "n div d" "n < 0" r] assms unfolding rounded_def
  by (simp only: div_mult_mod_eq pos_mod_sign pos_mod_bound)

lemma rounded_half_even_tie:
  assumes "0 < d" "\<bar>2 * (n - rounded n d HalfEven * d)\<bar> = d"
  shows "even (rounded n d HalfEven)"
  using rounded_tie_iff[OF assms(1) _ assms(2)] assms(1) unfolding rounded_def
  by (intro round_qm_even) auto

lemma rounded_mono_bounds:
  assumes "0 < d"
  shows "n div d \<le> rounded n d r \<and> rounded n d r \<le> n div d + 1"
  using assms by (cases r) (auto simp: rounded_def round_qm_def Let_def)

lemma rounded_nonneg: "0 < d \<Longrightarrow> 0 \<le> n \<Longrightarrow> 0 \<le> rounded n d r"
  using rounded_mono_bounds[of d n r] by (meson order_trans pos_imp_zdiv_nonneg_iff)

lemma rounded_exact: "0 < d \<Longrightarrow> rounded (q * d) d r = q"
  by (simp add: rounded_def round_qm_def)

text \<open>An integer above the exact quotient stays above the rounded one.\<close>

lemma rounded_le:
  assumes "0 < d" "n \<le> q * d"
  shows "rounded n d r \<le> q"
proof (cases "n mod d = 0")
  case True
  then have "rounded n d r = n div d" by (simp add: rounded_def round_qm_def)
  moreover have "n div d \<le> (q * d) div d" using assms by (intro zdiv_mono1) auto
  ultimately show ?thesis using assms by simp
next
  case False
  then have "n mod d > 0" using assms by (simp add: order_less_le)
  then have "(n div d) * d < q * d" using assms by (metis add_less_cancel_left add.right_neutral div_mult_mod_eq le_less_trans less_le_trans)
  then have "n div d < q" using assms by simp
  then show ?thesis using rounded_mono_bounds[OF assms(1), of n r] by simp
qed

lemma scale_sgn: "d \<noteq> 0 \<Longrightarrow> \<bar>2 * (n * sgn d - q * \<bar>d\<bar>)\<bar> = \<bar>2 * (n - q * d)\<bar>" for d :: int
  by (cases "0 < d") (simp_all add: abs_if)

lemma rounded_ceil: "0 < d \<Longrightarrow> rounded n d Ceil = - ((- n) div d)"
  by (auto simp: rounded_def round_qm_def Let_def zdiv_zminus1_eq_if)

lemma rounded_trunc: "0 < d \<Longrightarrow> rounded n d Trunc = n sdiv d"
  using sdiv_smod_negative(1)[of d n] sdiv_smod_nonneg(1)[of d n] sdiv_exact[of d n]
  by (auto simp: rounded_def round_qm_def Let_def)

lemma round_qm_up_tie:
  assumes "0 < d" "2 * m = d" "neg = (q * d + m < 0)" "neg = (q < 0)"
  shows "\<bar>q * d + m\<bar> < \<bar>round_qm q m d neg HalfUp\<bar> * d"
proof (cases "q < 0")
  case True
  then show ?thesis using assms by (simp add: round_qm_def)
next
  case False
  then show ?thesis using assms by (simp add: round_qm_def distrib_right)
qed

lemma round_qm_down_tie:
  assumes "0 < d" "2 * m = d" "neg = (q * d + m < 0)" "neg = (q < 0)"
  shows "\<bar>round_qm q m d neg HalfDown\<bar> * d < \<bar>q * d + m\<bar>"
proof (cases "q < 0")
  case True
  then show ?thesis using assms by (simp add: round_qm_def left_diff_distrib)
next
  case False
  then show ?thesis using assms by (simp add: round_qm_def)
qed

lemma rounded_half_up_tie:
  assumes "0 < d" "\<bar>2 * (n - rounded n d HalfUp * d)\<bar> = d"
  shows "\<bar>n\<bar> < \<bar>rounded n d HalfUp\<bar> * d"
proof -
  have "2 * (n mod d) = d" using rounded_tie_iff[OF assms(1) _ assms(2)] by simp
  moreover have "(n < 0) = (n div d < 0)" using assms(1) by (simp add: pos_imp_zdiv_neg_iff)
  ultimately show ?thesis
    using round_qm_up_tie[of d "n mod d" "n < 0" "n div d"] assms(1)
    unfolding rounded_def by (simp only: div_mult_mod_eq simp_thms)
qed

lemma rounded_half_down_tie:
  assumes "0 < d" "\<bar>2 * (n - rounded n d HalfDown * d)\<bar> = d"
  shows "\<bar>rounded n d HalfDown\<bar> * d < \<bar>n\<bar>"
proof -
  have "2 * (n mod d) = d" using rounded_tie_iff[OF assms(1) _ assms(2)] by simp
  moreover have "(n < 0) = (n div d < 0)" using assms(1) by (simp add: pos_imp_zdiv_neg_iff)
  ultimately show ?thesis
    using round_qm_down_tie[of d "n mod d" "n < 0" "n div d"] assms(1)
    unfolding rounded_def by (simp only: div_mult_mod_eq simp_thms)
qed

text \<open>
  C38: \<open>divideRounded\<close> with \<open>half-even\<close> succeeds for every non-zero denominator, of either
  sign, and gives the nearest integer to the quotient; when two integers are equally near,
  the even one.
\<close>

theorem divideRounded_half_even:
  assumes "d \<noteq> 0"
  shows "\<exists>q. divideRounded n d HalfEven = Inr q \<and> \<bar>2 * (n - q * d)\<bar> \<le> \<bar>d\<bar> \<and>
     (\<bar>2 * (n - q * d)\<bar> = \<bar>d\<bar> \<longrightarrow> even q)"
proof -
  let ?q = "rounded (n * sgn d) \<bar>d\<bar> HalfEven"
  have d: "0 < \<bar>d\<bar>" using assms by simp
  have eq: "\<bar>2 * (n * sgn d - ?q * \<bar>d\<bar>)\<bar> = \<bar>2 * (n - ?q * d)\<bar>"
    by (rule scale_sgn[OF assms])
  show ?thesis
    using rounded_half[OF d, of HalfEven "n * sgn d"] rounded_half_even_tie[OF d, of "n * sgn d"] assms
    unfolding eq by (intro exI[of _ ?q]) (simp add: divideRounded_eq)
qed

theorem divideRounded_half_even_witness:
  "\<exists>q. divideRounded 25 (-10) HalfEven = Inr q \<and> \<bar>2 * (25 - q * (-10))\<bar> \<le> \<bar>-10::int\<bar> \<and>
     (\<bar>2 * (25 - q * (-10))\<bar> = \<bar>-10::int\<bar> \<longrightarrow> even q)"
  by (rule divideRounded_half_even) simp

text \<open>
  Every rounding mode of \<open>divideRounded\<close> is the one its name promises: \<open>floor\<close> and
  \<open>ceil\<close> are the floor and the ceiling of the quotient, \<open>trunc\<close> truncates towards zero,
  \<open>half-up\<close> and \<open>half-down\<close> are nearest with ties away from and towards zero. Only a
  zero denominator is refused.
\<close>

theorem divideRounded_modes:
  assumes "0 < d"
  shows "divideRounded n d Floor = Inr (n div d) \<and>
    divideRounded n d Ceil = Inr (- ((- n) div d)) \<and>
    divideRounded n d Trunc = Inr (n sdiv d) \<and>
    (\<exists>q. divideRounded n d HalfUp = Inr q \<and> \<bar>2 * (n - q * d)\<bar> \<le> d \<and>
      (\<bar>2 * (n - q * d)\<bar> = d \<longrightarrow> \<bar>n\<bar> < \<bar>q\<bar> * d)) \<and>
    (\<exists>q. divideRounded n d HalfDown = Inr q \<and> \<bar>2 * (n - q * d)\<bar> \<le> d \<and>
      (\<bar>2 * (n - q * d)\<bar> = d \<longrightarrow> \<bar>q\<bar> * d < \<bar>n\<bar>)) \<and>
    divideRounded n 0 r = Inl (MoneyError INVALID_INPUT ''Division by zero.'')"
proof (intro conjI)
  show "divideRounded n d Floor = Inr (n div d)"
    using assms by (simp add: divideRounded_pos rounded_def round_qm_def)
  show "divideRounded n d Ceil = Inr (- ((- n) div d))"
    using assms by (simp add: divideRounded_pos rounded_ceil)
  show "divideRounded n d Trunc = Inr (n sdiv d)"
    using assms by (simp add: divideRounded_pos rounded_trunc)
  show "\<exists>q. divideRounded n d HalfUp = Inr q \<and> \<bar>2 * (n - q * d)\<bar> \<le> d \<and>
      (\<bar>2 * (n - q * d)\<bar> = d \<longrightarrow> \<bar>n\<bar> < \<bar>q\<bar> * d)"
    using assms rounded_half[of d HalfUp n] rounded_half_up_tie[of d n]
    by (intro exI[of _ "rounded n d HalfUp"]) (simp add: divideRounded_pos)
  show "\<exists>q. divideRounded n d HalfDown = Inr q \<and> \<bar>2 * (n - q * d)\<bar> \<le> d \<and>
      (\<bar>2 * (n - q * d)\<bar> = d \<longrightarrow> \<bar>q\<bar> * d < \<bar>n\<bar>)"
    using assms rounded_half[of d HalfDown n] rounded_half_down_tie[of d n]
    by (intro exI[of _ "rounded n d HalfDown"]) (simp add: divideRounded_pos)
  show "divideRounded n 0 r = Inl (MoneyError INVALID_INPUT ''Division by zero.'')"
    by (subst divideRounded.simps) simp
qed

theorem divideRounded_modes_witness:
  "divideRounded (-7) 2 Floor = Inr (-4) \<and> divideRounded (-7) 2 Trunc = Inr (-3)"
  using divideRounded_modes[of 2 "-7"] by (simp add: signed_divide_int_def)


subsection \<open>Allocation\<close>

interpretation remainder_order: comparator byRemainder
  by unfold_locales (auto simp: byRemainder_def split: if_splits)

lemma length_distribute [simp]: "length (distribute shares is left) = length shares"
  by (induction shares "is" left rule: distribute.induct) auto

lemma sum_distribute:
  "\<forall>i \<in> set is. i < length shares \<Longrightarrow> 0 \<le> left \<Longrightarrow> left \<le> int (length is) \<Longrightarrow>
   sum_list (distribute shares is left) = sum_list shares + left"
  by (induction shares "is" left rule: distribute.induct) (auto simp: sum_list_list_update)

lemma distribute_nth:
  "distinct is \<Longrightarrow> \<forall>i \<in> set is. i < length shares \<Longrightarrow> 0 \<le> left \<Longrightarrow> j < length shares \<Longrightarrow>
   distribute shares is left ! j = shares ! j + of_bool (j \<in> set (take (nat left) is))"
proof (induction shares "is" left rule: distribute.induct)
  case (1 shares left)
  then show ?case by simp
next
  case (2 shares i "is" left)
  show ?case
  proof (cases "left = 0")
    case True
    then show ?thesis by simp
  next
    case False
    then have n: "nat left = Suc (nat (left - 1))" using 2(4) by simp
    have "distribute (shares[i := shares ! i + 1]) is (left - 1) ! j =
        shares[i := shares ! i + 1] ! j + of_bool (j \<in> set (take (nat (left - 1)) is))"
      using 2 False by simp
    then show ?thesis using False 2(2,3,5)
      by (cases "i = j") (auto simp: n dest: in_set_takeD)
  qed
qed

text \<open>
  The computation of the shares, for a non-negative amount and weights with a positive sum.
  \<open>rems\<close> are the indexed remainders of the source.
\<close>

definition rems :: "int \<Rightarrow> int list \<Rightarrow> (nat \<times> int) list" where
  "rems a ws = map (\<lambda>(i, w). (i, (a * w) mod sum_list ws)) (enumerate 0 ws)"

lemma rems_props:
  "map fst (rems a ws) = [0..<length ws]"
  "length (rems a ws) = length ws"
  "i < length ws \<Longrightarrow> rems a ws ! i = (i, (a * ws ! i) mod sum_list ws)"
  "map snd (rems a ws) = map (\<lambda>w. (a * w) mod sum_list ws) ws"
  by (auto simp: rems_def case_prod_beta comp_def nth_enumerate_eq intro!: nth_equalityI)

lemma split_shares_pos:
  assumes "0 \<le> a" "\<forall>w \<in> set ws. 0 \<le> w" "0 < sum_list ws"
  shows "split_shares a ws = distribute (map (\<lambda>w. (a * w) div sum_list ws) ws)
     (map fst (sortBy byRemainder (rems a ws)))
     (a - sum_list (map (\<lambda>w. (a * w) div sum_list ws) ws))"
proof -
  let ?T = "sum_list ws"
  have e: "(a * w) sdiv ?T = (a * w) div ?T" "(a * w) smod ?T = (a * w) mod ?T" if "w \<in> set ws" for w
    using assms that by (simp_all add: sdiv_smod_nonneg)
  have "map (\<lambda>(i, w). (i, (a * w) smod ?T)) (enumerate 0 ws) = rems a ws"
    unfolding rems_def by (intro map_cong) (auto simp: e in_set_enumerate_eq)
  moreover have "map (\<lambda>w. (a * w) sdiv ?T) ws = map (\<lambda>w. (a * w) div ?T) ws"
    by (intro map_cong) (auto simp: e)
  ultimately show ?thesis unfolding split_shares_def Let_def foldl_plus_0 by (simp only:)
qed

lemma left_over:
  assumes "0 < sum_list ws"
  shows "(a - sum_list (map (\<lambda>w. (a * w) div sum_list ws) ws)) * sum_list ws = sum_list (map snd (rems a ws))"
proof -
  let ?T = "sum_list ws"
  have "sum_list (map (\<lambda>w. (a * w) div t) xs) * t + sum_list (map (\<lambda>w. (a * w) mod t) xs)
      = a * sum_list xs" for t xs
    by (induction xs) (simp_all add: algebra_simps)
  from this[of ?T ws] show ?thesis by (simp add: rems_props left_diff_distrib)
qed

text \<open>No more units are left over than there are weights with a remainder.\<close>

lemma left_over_bounds:
  fixes a :: int
  assumes "0 < sum_list ws"
  defines "left \<equiv> a - sum_list (map (\<lambda>w. (a * w) div sum_list ws) ws)"
  shows "0 \<le> left" "left \<le> int (length (filter (\<lambda>r. 0 < snd r) (rems a ws)))"
proof -
  let ?T = "sum_list ws"
  have r: "\<forall>x \<in> set (map snd (rems a ws)). 0 \<le> x \<and> x < ?T"
    using assms(1) by (auto simp: rems_props(4))
  have eq: "left * ?T = sum_list (map snd (rems a ws))"
    unfolding left_def by (rule left_over[OF assms(1)])
  have "0 \<le> sum_list (map snd (rems a ws))" using r by (intro sum_list_nonneg_int) auto
  then have "0 \<le> left * ?T" by (simp add: eq)
  with assms(1) show "0 \<le> left" by (simp add: zero_le_mult_iff)
  have "sum_list (map snd xs) \<le> int (length (filter (\<lambda>r. 0 < snd r) xs)) * ?T"
    if "\<forall>x \<in> set (map snd xs). 0 \<le> x \<and> x < ?T" for xs :: "(nat \<times> int) list"
    using that by (induction xs) (auto simp: distrib_right)
  from this[OF r] have "left * ?T \<le> int (length (filter (\<lambda>r. 0 < snd r) (rems a ws))) * ?T"
    by (simp add: eq)
  with assms(1) show "left \<le> int (length (filter (\<lambda>r. 0 < snd r) (rems a ws)))" by simp
qed

text \<open>So a unit only goes where there is a remainder.\<close>

lemma extra_unit_remainder:
  assumes "0 < sum_list ws" "i < length ws"
    and "i \<in> set (take (nat (a - sum_list (map (\<lambda>w. (a * w) div sum_list ws) ws)))
           (map fst (sortBy byRemainder (rems a ws))))"
  shows "0 < (a * ws ! i) mod sum_list ws"
proof -
  let ?T = "sum_list ws" and ?s = "sortBy byRemainder (rems a ws)"
  let ?left = "a - sum_list (map (\<lambda>w. (a * w) div sum_list ws) ws)"
  let ?pos = "\<lambda>r::nat \<times> int. 0 < snd r"
  have "sorted_wrt (\<lambda>x y. byRemainder x y \<le> 0) ?s" by (rule remainder_order.sorted_sortBy)
  then have "sorted_wrt (\<lambda>x y. ?pos y \<longrightarrow> ?pos x) ?s"
    by (rule sorted_wrt_mono_rel[rotated]) (auto simp: byRemainder_def split: if_splits)
  then have "take (length (filter ?pos ?s)) ?s = filter ?pos ?s" by (rule takeWhile_sorted_filter)
  moreover have "nat ?left \<le> length (filter ?pos ?s)"
    using left_over_bounds(2)[OF assms(1), of a] by simp
  ultimately have "set (take (nat ?left) ?s) \<subseteq> set (filter ?pos ?s)"
    by (metis set_take_subset_set_take)
  moreover obtain r where r: "r \<in> set (take (nat ?left) ?s)" "fst r = i"
    using assms(3) by (auto simp: take_map)
  ultimately have "r \<in> set (rems a ws)" "0 < snd r" by auto
  moreover from this(1) have "r = (fst r, (a * ws ! fst r) mod ?T)"
    by (auto simp: in_set_conv_nth rems_props)
  ultimately show ?thesis using r(2) by (metis snd_conv)
qed

lemma split_shares_length [simp]: "length (split_shares a ws) = length ws"
  by (simp add: split_shares_def Let_def)

lemma sorted_indices:
  "set (map fst (sortBy byRemainder (rems a ws))) = {..<length ws}"
  "distinct (map fst (sortBy byRemainder (rems a ws)))"
proof -
  have "set (map fst (sortBy byRemainder (rems a ws))) = set (map fst (rems a ws))" by simp
  then show "set (map fst (sortBy byRemainder (rems a ws))) = {..<length ws}"
    by (simp only: rems_props) auto
  show "distinct (map fst (sortBy byRemainder (rems a ws)))"
    by (simp only: distinct_map_sortBy rems_props distinct_upt)
qed

lemma split_shares_sum:
  assumes "0 \<le> a" "\<forall>w \<in> set ws. 0 \<le> w" "0 < sum_list ws"
  shows "sum_list (split_shares a ws) = a"
proof -
  let ?left = "a - sum_list (map (\<lambda>w. (a * w) div sum_list ws) ws)"
  have "?left \<le> int (length ws)"
    using left_over_bounds(2)[OF assms(3), of a] length_filter_le[of "\<lambda>r. 0 < snd r" "rems a ws"]
    by (simp add: rems_props)
  then show ?thesis
    using left_over_bounds(1)[OF assms(3), of a] sorted_indices(1)[of a ws] rems_props(2)[of a ws]
    by (subst split_shares_pos[OF assms], subst sum_distribute) (simp_all del: set_map)
qed

lemma split_shares_near:
  assumes "0 \<le> a" "\<forall>w \<in> set ws. 0 \<le> w" "0 < sum_list ws" "i < length ws"
  shows "\<bar>split_shares a ws ! i * sum_list ws - a * ws ! i\<bar> < sum_list ws"
proof -
  let ?T = "sum_list ws"
  let ?left = "a - sum_list (map (\<lambda>w. (a * w) div ?T) ws)"
  let ?extra = "i \<in> set (take (nat ?left) (map fst (sortBy byRemainder (rems a ws))))"
  define q m where "q = (a * ws ! i) div ?T" and "m = (a * ws ! i) mod ?T"
  have aw: "a * ws ! i = q * ?T + m" and m: "0 \<le> m" "m < ?T"
    using assms(3) by (simp_all add: q_def m_def)
  have "split_shares a ws ! i = q + of_bool ?extra"
    using left_over_bounds(1)[OF assms(3), of a] sorted_indices[of a ws] assms(4)
    by (subst split_shares_pos[OF assms(1-3)], subst distribute_nth)
      (simp_all del: set_map map_map add: q_def)
  moreover have "?extra \<Longrightarrow> 0 < m"
    using extra_unit_remainder[OF assms(3,4)] by (simp add: m_def)
  ultimately show ?thesis using m by (cases ?extra) (simp_all add: aw distrib_right)
qed

lemma money_Inr [result_simps]:
  "money r c = Inr m \<longleftrightarrow>
     isKnownCurrency c \<and> (\<exists>n. toBigInt r = Inr n \<and> m = \<lparr>m_amount = n, m_currency = c\<rparr>)"
  by (auto simp: money_def currencyExponent_def isKnownCurrency_def result_simps split: option.splits)

lemma money_known: "isKnownCurrency c \<Longrightarrow> money (BigIntV n) c = Inr \<lparr>m_amount = n, m_currency = c\<rparr>"
  by (simp add: result_simps)

lemma mapR_money:
  "mapR (\<lambda>x. money (BigIntV (f x)) c) xs = Inr ms \<Longrightarrow>
   ms = map (\<lambda>x. \<lparr>m_amount = f x, m_currency = c\<rparr>) xs"
  by (auto simp: mapR_Inr_iff result_simps list_all2_conv_all_nth intro!: nth_equalityI)

lemma allocate_Inr:
  "allocate value ratios = Inr ms \<longleftrightarrow> (\<exists>ws sign. mapR toBigInt ratios = Inr ws \<and> ws \<noteq> [] \<and>
     (\<forall>w \<in> set ws. 0 \<le> w) \<and> 0 < sum_list ws \<and> isKnownCurrency (m_currency value) \<and>
     sign = (if m_amount value < 0 then -1 else 1) \<and>
     ms = map (\<lambda>s. \<lparr>m_amount = s * sign, m_currency = m_currency value\<rparr>)
            (split_shares (m_amount value * sign) ws))"
  (is "?L \<longleftrightarrow> ?R")
proof
  assume ?L
  then obtain ws where ws: "mapR toBigInt ratios = Inr ws" "ws \<noteq> []" "\<forall>w \<in> set ws. 0 \<le> w"
    and nz: "sum_list ws \<noteq> 0" and m: "mapR (\<lambda>s. money (BigIntV
        (s * (if m_amount value < 0 then -1 else 1))) (m_currency value))
      (split_shares (m_amount value * (if m_amount value < 0 then -1 else 1)) ws) = Inr ms"
    unfolding allocate_def by (auto simp: result_simps Let_def foldl_plus_0 list_ex_iff not_less split: if_splits)
  have "split_shares (m_amount value * (if m_amount value < 0 then -1 else 1)) ws \<noteq> []"
    using ws(2) by (metis length_0_conv split_shares_length)
  then have "isKnownCurrency (m_currency value)"
    using m by (cases "split_shares (m_amount value * (if m_amount value < 0 then -1 else 1)) ws")
      (auto simp: result_simps)
  moreover have "0 < sum_list ws" using sum_list_nonneg_int[OF ws(3)] nz by simp
  ultimately show ?R using ws mapR_money[OF m] by blast
next
  assume ?R
  then show ?L
    by (auto simp: allocate_def Let_def foldl_plus_0 list_ex_iff not_less money_known
        intro!: mapR_total)
qed

text \<open>
  C37: whenever \<open>allocate\<close> succeeds, the parts are as many as the ratios, keep the currency
  and add up to exactly the amount that was split, negative amounts included; and each part
  is less than one minor unit away from its exact proportional share. So a line with ratio
  zero gets nothing, and no part exceeds its own ratio when the amount does not exceed the
  sum of the ratios.
\<close>

theorem allocate_exact:
  assumes "allocate value ratios = Inr ms"
  shows "length ms = length ratios \<and> sum_list (map m_amount ms) = m_amount value \<and>
    (\<forall>m \<in> set ms. m_currency m = m_currency value) \<and>
    (\<exists>ws. mapR toBigInt ratios = Inr ws \<and>
       (\<forall>i < length ratios.
          \<bar>m_amount (ms ! i) * sum_list ws - m_amount value * ws ! i\<bar> < sum_list ws))"
proof -
  obtain ws sign where ws: "mapR toBigInt ratios = Inr ws" "\<forall>w \<in> set ws. 0 \<le> w" "0 < sum_list ws"
    and sign: "sign = (if m_amount value < 0 then -1 else 1)"
    and ms: "ms = map (\<lambda>s. \<lparr>m_amount = s * sign, m_currency = m_currency value\<rparr>)
            (split_shares (m_amount value * sign) ws)"
    using assms unfolding allocate_Inr by auto
  let ?s = "split_shares (m_amount value * sign) ws"
  have len: "length ws = length ratios" using ws(1) by (rule mapR_length)
  have a: "0 \<le> m_amount value * sign" "m_amount value * sign * sign = m_amount value"
    by (auto simp: sign)
  have "sum_list (map (\<lambda>s. s * sign) ?s) = sum_list ?s * sign"
    by (simp add: sum_list_mult_const)
  then have sum: "sum_list (map m_amount ms) = m_amount value"
    by (simp add: ms comp_def split_shares_sum[OF a(1) ws(2,3)] a(2))
  have "\<bar>m_amount (ms ! i) * sum_list ws - m_amount value * ws ! i\<bar> < sum_list ws"
    if "i < length ratios" for i
  proof -
    have "m_amount (ms ! i) * sum_list ws - m_amount value * ws ! i =
        sign * (?s ! i * sum_list ws - m_amount value * sign * ws ! i)"
      using that len by (simp add: ms sign algebra_simps)
    moreover have "\<bar>sign\<bar> = 1" by (simp add: sign)
    ultimately show ?thesis
      using split_shares_near[OF a(1) ws(2,3), of i] that len
      by (simp only: abs_mult mult_1)
  qed
  with ws(1) len sum show ?thesis by (auto simp: ms)
qed

theorem allocate_exact_witness:
  "allocate \<lparr>m_amount = -100, m_currency = ''INR''\<rparr>
      [BigIntV 1, NumberV (Integral 1), TextV ''1'', BigIntV 0] =
     Inr (map (\<lambda>n. \<lparr>m_amount = n, m_currency = ''INR''\<rparr>) [-34, -33, -33, 0]) \<and>
   sum_list (map m_amount (map (\<lambda>n. \<lparr>m_amount = n, m_currency = ''INR''\<rparr>) [-34, -33, -33, 0])) = -100"
proof -
  let ?v = "\<lparr>m_amount = -100, m_currency = ''INR''\<rparr>"
  let ?r = "[BigIntV 1, NumberV (Integral 1), TextV ''1'', BigIntV 0]"
  let ?ms = "map (\<lambda>n. \<lparr>m_amount = n, m_currency = ''INR''\<rparr>) [-34, -33, -33, 0]"
  have "allocate ?v ?r = Inr ?ms" by code_simp
  with allocate_exact[OF this] show ?thesis by simp
qed

text \<open>
  \<open>allocate\<close> refuses exactly the ratios its error messages name: it succeeds for every
  currency of the table and every non-empty list of non-negative integral ratios that are
  not all zero, whatever the amount.
\<close>

theorem allocate_succeeds_iff:
  "(\<exists>ms. allocate value ratios = Inr ms) \<longleftrightarrow>
   (\<exists>ws. mapR toBigInt ratios = Inr ws \<and> ws \<noteq> [] \<and> list_all (\<lambda>w. 0 \<le> w) ws \<and>
      list_ex (\<lambda>w. w \<noteq> 0) ws \<and> isKnownCurrency (m_currency value))"
proof -
  have "0 < sum_list ws \<longleftrightarrow> list_ex (\<lambda>w. w \<noteq> 0) ws" if "list_all (\<lambda>w. 0 \<le> w) ws" for ws :: "int list"
    using that by (induction ws) (auto simp: list_all_iff intro: sum_list_nonneg_int add_pos_nonneg)
  then show ?thesis unfolding allocate_Inr by (auto simp: list_all_iff)
qed

text \<open>Consequences for weights given as bigints, the form the price quote uses.\<close>

lemma mapR_toBigInt_map [simp]: "mapR toBigInt (map (\<lambda>x. BigIntV (f x)) xs) = Inr (map f xs)"
  by (simp add: mapR_Inr_iff list_all2_conv_all_nth)

lemma allocate_sum: "allocate value ratios = Inr ms \<Longrightarrow> sum_list (map m_amount ms) = m_amount value"
  unfolding allocate_Inr
  by (auto simp: comp_def sum_list_mult_const split_shares_sum)

lemma allocate_length: "allocate value ratios = Inr ms \<Longrightarrow> length ms = length ratios"
  unfolding allocate_Inr by (auto simp: mapR_length)

lemma split_shares_bounds:
  assumes "0 \<le> a" "\<forall>w \<in> set ws. 0 \<le> w" "0 < sum_list ws" "i < length ws"
  shows "0 \<le> split_shares a ws ! i" "a \<le> sum_list ws \<Longrightarrow> split_shares a ws ! i \<le> ws ! i"
proof -
  let ?T = "sum_list ws" and ?s = "split_shares a ws ! i"
  have near: "\<bar>?s * ?T - a * ws ! i\<bar> < ?T" by (rule split_shares_near[OF assms])
  have w: "0 \<le> ws ! i" using assms(2,4) by simp
  have aw: "0 \<le> a * ws ! i" using assms(1) w by simp
  have "- 1 * ?T < ?s * ?T" using near aw by simp
  then have "- 1 < ?s" using assms(3) mult_less_cancel_right_pos[of ?T "-1" ?s] by blast
  then show "0 \<le> ?s" by simp
  assume "a \<le> ?T"
  then have "a * ws ! i \<le> ?T * ws ! i" using w by (intro mult_right_mono)
  then have "?s * ?T < (ws ! i + 1) * ?T" using near by (simp add: algebra_simps)
  then have "?s < ws ! i + 1" using assms(3) mult_less_cancel_right_pos[of ?T ?s "ws ! i + 1"] by blast
  then show "?s \<le> ws ! i" by simp
qed

lemma allocate_bounds:
  assumes "allocate value (map BigIntV ws) = Inr ms" "0 \<le> m_amount value" "i < length ws"
  shows "0 \<le> m_amount (ms ! i)" "m_amount value \<le> sum_list ws \<Longrightarrow> m_amount (ms ! i) \<le> ws ! i"
proof -
  have "mapR toBigInt (map BigIntV ws) = Inr ws" using mapR_toBigInt_map[of "\<lambda>x. x" ws] by simp
  then have *: "\<forall>w \<in> set ws. 0 \<le> w" "0 < sum_list ws"
    "ms = map (\<lambda>s. \<lparr>m_amount = s, m_currency = m_currency value\<rparr>) (split_shares (m_amount value) ws)"
    using assms(1,2) unfolding allocate_Inr by auto
  show "0 \<le> m_amount (ms ! i)" "m_amount value \<le> sum_list ws \<Longrightarrow> m_amount (ms ! i) \<le> ws ! i"
    using split_shares_bounds[OF assms(2) *(1,2) assms(3)] assms(3) by (simp_all add: *(3))
qed

subsection \<open>Decimal texts\<close>

text \<open>The definitions that evaluate a concrete text.\<close>

lemmas currency_eval = currencyExponent_def isKnownCurrency_def EXPONENTS_def ZERO_def TWO_def THREE_def FOUR_def

lemmas money_eval = currency_eval money_def toDecimalString_def padStart_def padEnd_def show_int_def
  show_nat.simps parseDecimal_def clean_text_def trim_def match_decimal_def is_digit_def js_space_def
  read_nat_def digit_val_def

lemma digit_not_space: "is_digit c \<Longrightarrow> \<not> js_space c \<and> c \<noteq> CHR '','' \<and> c \<noteq> CHR ''.'' \<and> c \<noteq> CHR ''-''"
  by (auto simp: is_digit_def js_space_def)

definition plain :: "string \<Rightarrow> bool" where
  "plain s \<longleftrightarrow> (\<forall>c \<in> set s. \<not> (js_space c \<or> c = CHR '',''))"

lemma trim_plain: "plain s \<Longrightarrow> trim s = s"
  by (simp add: trim_def plain_def dropWhile_none)

lemma clean_plain: "plain s \<Longrightarrow> clean_text s = s"
  by (simp add: clean_text_def trim_plain) (simp add: plain_def)

lemma plain_digits: "list_all is_digit s \<Longrightarrow> plain s"
  by (auto simp: plain_def list_all_iff dest: digit_not_space)

lemma plain_append [simp]: "plain (s @ t) \<longleftrightarrow> plain s \<and> plain t"
  by (auto simp: plain_def)

lemma plain_signs [simp]:
  "plain []" "plain (CHR ''-'' # s) \<longleftrightarrow> plain s" "plain (CHR ''.'' # s) \<longleftrightarrow> plain s"
  by (auto simp: plain_def js_space_def)

lemma takeWhile_digits:
  "list_all is_digit w \<Longrightarrow> takeWhile is_digit (w @ CHR ''.'' # f) = w"
  "list_all is_digit w \<Longrightarrow> dropWhile is_digit (w @ CHR ''.'' # f) = CHR ''.'' # f"
  "list_all is_digit w \<Longrightarrow> takeWhile is_digit w = w"
  "list_all is_digit w \<Longrightarrow> dropWhile is_digit w = []"
  by (auto simp: list_all_iff is_digit_def takeWhile_append dropWhile_append)

lemma match_decimal_point:
  assumes "list_all is_digit w" "w \<noteq> []" "list_all is_digit f"
  shows "match_decimal ((if neg then ''-'' else []) @ w @ ''.'' @ f) = Some (neg, w, f)"
proof -
  have "hd w \<noteq> CHR ''-''" using assms(1,2) digit_not_space[of "hd w"] by (cases w) auto
  then show ?thesis using assms by (cases neg) (simp_all add: match_decimal_def takeWhile_digits)
qed

lemma match_decimal_whole:
  assumes "list_all is_digit w" "w \<noteq> []"
  shows "match_decimal ((if neg then ''-'' else []) @ w) = Some (neg, w, [])"
proof -
  have "hd w \<noteq> CHR ''-''" using assms(1,2) digit_not_space[of "hd w"] by (cases w) auto
  then show ?thesis using assms by (cases neg) (simp_all add: match_decimal_def takeWhile_digits)
qed

lemma currencyExponent_known: "isKnownCurrency c \<Longrightarrow> \<exists>e. currencyExponent c = Inr e"
  by (auto simp: isKnownCurrency_def currencyExponent_def)

lemma read_nat_padStart [simp]: "read_nat (padStart n (CHR ''0'') s) = read_nat s"
  by (simp add: padStart_def read_nat_append)

lemma digits_padStart: "list_all is_digit s \<Longrightarrow> list_all is_digit (padStart n (CHR ''0'') s)"
  by (auto simp: padStart_def list_all_iff)

lemma length_padStart [simp]: "length (padStart n c s) = max n (length s)"
  by (simp add: padStart_def)

text \<open>
  C39: the decimal text of an amount reads back as the same amount: for every value of a
  known currency, positive or negative, \<open>parseDecimal\<close> of \<open>toDecimalString\<close> (negative
  amounts allowed) is the value, and so is \<open>fromJSON\<close> of \<open>toJSON\<close>.
\<close>

theorem decimal_roundtrip:
  assumes "isKnownCurrency (m_currency v)"
  shows "(\<exists>s. toDecimalString v = Inr s \<and> parseDecimal s (m_currency v) True = Inr v) \<and>
    fromJSON (toJSON v) = Inr v"
proof -
  obtain e where e: "currencyExponent (m_currency v) = Inr e"
    using currencyExponent_known[OF assms] by blast
  let ?a = "m_amount v" and ?D = "show_nat (nat \<bar>m_amount v\<bar>)"
  let ?sgn = "if ?a < 0 then ''-'' else []"
  let ?P = "padStart (e + 1) (CHR ''0'') ?D"
  define w f where "w = take (length ?P - e) ?P" and "f = drop (length ?P - e) ?P"
  have wf: "w @ f = ?P" "w \<noteq> []" "length f = e" by (auto simp: w_def f_def simp flip: length_greater_0_conv)
  have dig: "list_all is_digit w" "list_all is_digit f"
    using digits_padStart[of ?D "e + 1"] wf(1) by (metis list_all_append show_nat_digits)+
  have v: "v = \<lparr>m_amount = ?a, m_currency = m_currency v\<rparr>" by simp
  have D: "show_int (if ?a < 0 then - ?a else ?a) = ?D" by (simp add: show_int_def)
  have n: "(if ?a < 0 then - int (nat \<bar>?a\<bar>) else int (nat \<bar>?a\<bar>)) = ?a" by simp
  have "\<exists>s. toDecimalString v = Inr s \<and> parseDecimal s (m_currency v) True = Inr v"
  proof (cases "e = 0")
    case True
    have "toDecimalString v = Inr (?sgn @ ?D)"
      using True by (simp add: toDecimalString_def e D Let_def del: append.simps)
    moreover have "plain (?sgn @ ?D)" by (simp add: plain_digits)
    moreover have "match_decimal (?sgn @ ?D) = Some (?a < 0, ?D, [])"
      by (rule match_decimal_whole) simp_all
    ultimately show ?thesis
      using True assms v by (auto simp: parseDecimal_def e clean_plain padEnd_def money_known Let_def)
  next
    case False
    have "toDecimalString v = Inr (?sgn @ w @ ''.'' @ f)"
      using False by (simp add: toDecimalString_def e D Let_def w_def f_def del: append.simps)
    moreover have "plain (?sgn @ w @ ''.'' @ f)" using dig by (simp add: plain_digits)
    moreover have "match_decimal (?sgn @ w @ ''.'' @ f) = Some (?a < 0, w, f)"
      by (rule match_decimal_point[OF dig(1) wf(2) dig(2)])
    moreover have "read_nat (w @ f) = nat \<bar>?a\<bar>" by (simp add: wf(1))
    ultimately show ?thesis
      using wf assms v by (auto simp: parseDecimal_def e clean_plain padEnd_def money_known Let_def)
  qed
  moreover have "fromJSON (toJSON v) = Inr v"
    using assms v by (simp add: fromJSON_def toJSON_def result_simps)
  ultimately show ?thesis by blast
qed

theorem decimal_roundtrip_witness:
  "fromJSON (toJSON \<lparr>m_amount = -99950, m_currency = ''INR''\<rparr>) = Inr \<lparr>m_amount = -99950, m_currency = ''INR''\<rparr> \<and>
   toDecimalString \<lparr>m_amount = -99950, m_currency = ''INR''\<rparr> = Inr ''-999.50''"
proof -
  have "isKnownCurrency ''INR''" by code_simp
  then have "fromJSON (toJSON \<lparr>m_amount = -99950, m_currency = ''INR''\<rparr>) = Inr \<lparr>m_amount = -99950, m_currency = ''INR''\<rparr>"
    using decimal_roundtrip[of "\<lparr>m_amount = -99950, m_currency = ''INR''\<rparr>"] by simp
  moreover have "toDecimalString \<lparr>m_amount = -99950, m_currency = ''INR''\<rparr> = Inr ''-999.50''"
    by (simp add: money_eval)
  ultimately show ?thesis by blast
qed

text \<open>
  \<open>parseDecimal\<close> never rounds. Whenever it accepts a text, what is left of the text
  after removing spaces and commas is an optional minus, whole digits and fraction digits,
  the fraction has no more digits than the currency, and the amount in minor units is
  exactly the number the digits denote (\<open>amount * 10^|fraction| = digits * 10^exponent\<close>); a
  minus is accepted only when negative amounts are allowed.
\<close>

theorem parseDecimal_exact:
  assumes "parseDecimal s c allowNegative = Inr m"
  shows "\<exists>neg whole fraction e.
    match_decimal (clean_text s) = Some (neg, whole, fraction) \<and>
    currencyExponent c = Inr e \<and> length fraction \<le> e \<and> m_currency m = c \<and>
    \<bar>m_amount m\<bar> * 10 ^ length fraction = int (read_nat (whole @ fraction)) * 10 ^ e \<and>
    (m_amount m < 0 \<longrightarrow> neg) \<and> (neg \<longrightarrow> allowNegative \<and> m_amount m \<le> 0)"
proof -
  obtain e where e: "currencyExponent c = Inr e"
    using assms by (auto simp: parseDecimal_def result_simps)
  obtain neg w f where wf: "match_decimal (clean_text s) = Some (neg, w, f)"
    using assms by (cases "match_decimal (clean_text s)") (auto simp: parseDecimal_def e)
  let ?minor = "read_nat ((if w = [] then ''0'' else w) @ padEnd e (CHR ''0'') f)"
  have r: "neg \<longrightarrow> allowNegative" "length f \<le> e" "m_currency m = c"
    "m_amount m = (if neg then - int ?minor else int ?minor)"
    using assms unfolding parseDecimal_def e
    by (simp_all add: wf Let_def result_simps del: append.simps split: if_split_asm)
  have "read_nat ((if w = [] then ''0'' else w) @ t) = read_nat (w @ t)" for t
    by (simp add: read_nat_append) (simp add: read_nat_def digit_val_def)
  then have "?minor * 10 ^ length f = read_nat (w @ f) * 10 ^ e"
    using r(2) by (simp add: padEnd_def read_nat_append[of "w @ f" "replicate _ _", simplified] power_add[symmetric])
  then have "int ?minor * 10 ^ length f = int (read_nat (w @ f)) * 10 ^ e"
    by (metis of_nat_mult of_nat_numeral of_nat_power)
  with e wf r show ?thesis by (intro exI[of _ neg] exI[of _ w] exI[of _ f] exI[of _ e]) auto
qed

theorem parseDecimal_exact_witness:
  "parseDecimal '' 1,234.5 '' ''USD'' False = Inr \<lparr>m_amount = 123450, m_currency = ''USD''\<rparr> \<and>
   parseDecimal ''0.001'' ''USD'' False =
     Inl (MoneyError INVALID_INPUT ''USD amounts have at most 2 decimal places.'') \<and>
   (\<exists>neg whole fraction e. length fraction \<le> e \<and> currencyExponent ''USD'' = Inr e \<and>
      (123450::int) * 10 ^ length fraction = int (read_nat (whole @ fraction)) * 10 ^ e \<and> (neg \<longrightarrow> False))"
proof -
  have p: "parseDecimal '' 1,234.5 '' ''USD'' False = Inr \<lparr>m_amount = 123450, m_currency = ''USD''\<rparr>"
    by (simp add: money_eval)
  moreover have "parseDecimal ''0.001'' ''USD'' False =
     Inl (MoneyError INVALID_INPUT ''USD amounts have at most 2 decimal places.'')"
    by (simp add: money_eval)
  ultimately show ?thesis using parseDecimal_exact[OF p] by auto
qed

end
