(* ===== verification/Transitions.thy ===== *)
theory Transitions
  imports Prelude
begin

section \<open>State machines of checkout, payment, order and fulfilment\<close>

text \<open>
  Model of \<open>packages/commerce/src/checkout/state.ts\<close> (the transition tables every service
  asks before it writes a status, and the derived statuses of an order) and of
  \<open>packages/commerce/src/orders/lifecycle.ts\<close> (the fulfilment journey, delivery and
  completion). The contract \<open>guarded_table\<close> says what the services rely on: some statuses
  are final for a purpose, and no guarded history ever leaves them.
\<close>

subsection \<open>Statuses and tables\<close>

datatype checkout_status = CO_OPEN | CO_PAYMENT_PENDING | CO_COMPLETED | CO_EXPIRED

datatype payment_status = PAY_PENDING | PAY_CAPTURED | PAY_FAILED | PAY_CANCELLED

datatype order_status = ORD_OPEN | ORD_CANCELLED

datatype order_payment_status = PAID | PARTIALLY_REFUNDED | REFUNDED

datatype order_fulfilment_status = UNFULFILLED | PARTIALLY_FULFILLED | FULFILLED

fun CHECKOUT :: "checkout_status \<Rightarrow> checkout_status list" where
  "CHECKOUT CO_OPEN = [CO_PAYMENT_PENDING, CO_EXPIRED, CO_COMPLETED]"
| "CHECKOUT CO_PAYMENT_PENDING = [CO_OPEN, CO_COMPLETED, CO_EXPIRED]"
| "CHECKOUT CO_COMPLETED = []"
| "CHECKOUT CO_EXPIRED = [CO_COMPLETED]"

fun PAYMENT :: "payment_status \<Rightarrow> payment_status list" where
  "PAYMENT PAY_PENDING = [PAY_CAPTURED, PAY_FAILED, PAY_CANCELLED]"
| "PAYMENT PAY_FAILED = [PAY_CAPTURED]"
| "PAYMENT PAY_CANCELLED = [PAY_CAPTURED]"
| "PAYMENT PAY_CAPTURED = []"

fun ORDER :: "order_status \<Rightarrow> order_status list" where
  "ORDER ORD_OPEN = [ORD_CANCELLED]"
| "ORDER ORD_CANCELLED = []"

text \<open>The error carries the kind of the machine and the two statuses.\<close>

datatype transition_error =
    CheckoutTransition checkout_status checkout_status
  | PaymentTransition payment_status payment_status
  | OrderTransition order_status order_status

definition canCheckoutTransition :: "checkout_status \<Rightarrow> checkout_status \<Rightarrow> bool" where
  "canCheckoutTransition from_s to_s \<longleftrightarrow> to_s \<in> set (CHECKOUT from_s)"

definition canPaymentTransition :: "payment_status \<Rightarrow> payment_status \<Rightarrow> bool" where
  "canPaymentTransition from_s to_s \<longleftrightarrow> to_s \<in> set (PAYMENT from_s)"

definition canOrderTransition :: "order_status \<Rightarrow> order_status \<Rightarrow> bool" where
  "canOrderTransition from_s to_s \<longleftrightarrow> to_s \<in> set (ORDER from_s)"

definition assertCheckoutTransition ::
  "checkout_status \<Rightarrow> checkout_status \<Rightarrow> transition_error + unit" where
  "assertCheckoutTransition from_s to_s =
     (if \<not> canCheckoutTransition from_s to_s then Inl (CheckoutTransition from_s to_s) else Inr ())"

definition assertPaymentTransition ::
  "payment_status \<Rightarrow> payment_status \<Rightarrow> transition_error + unit" where
  "assertPaymentTransition from_s to_s =
     (if \<not> canPaymentTransition from_s to_s then Inl (PaymentTransition from_s to_s) else Inr ())"

definition assertOrderTransition :: "order_status \<Rightarrow> order_status \<Rightarrow> transition_error + unit" where
  "assertOrderTransition from_s to_s =
     (if \<not> canOrderTransition from_s to_s then Inl (OrderTransition from_s to_s) else Inr ())"

subsection \<open>Derived statuses of an order\<close>

definition orderPaymentStatus :: "int \<Rightarrow> int \<Rightarrow> order_payment_status" where
  "orderPaymentStatus paid refunded =
     (if refunded \<le> 0 then PAID else if refunded \<ge> paid then REFUNDED else PARTIALLY_REFUNDED)"

record fulfilment_line =
  fl_quantity :: int
  fl_fulfilled :: int

definition orderFulfilmentStatus :: "fulfilment_line list \<Rightarrow> order_fulfilment_status" where
  "orderFulfilmentStatus lines =
     (let fulfilled = foldl (\<lambda>n l. n + fl_fulfilled l) 0 lines
      in if fulfilled = 0 then UNFULFILLED
         else if list_all (\<lambda>l. fl_fulfilled l \<ge> fl_quantity l) lines then FULFILLED
         else PARTIALLY_FULFILLED)"

subsection \<open>The fulfilment journey\<close>

datatype fulfilment_method = SHIPPING | LOCAL_DELIVERY

datatype shipment_status = READY | SHIPPED | IN_TRANSIT | OUT_FOR_DELIVERY | DELIVERED

datatype delivery_status =
  D_NOT_STARTED | D_READY | D_IN_TRANSIT | D_PARTIALLY_DELIVERED | D_DELIVERED

datatype order_state = ST_OPEN | ST_COMPLETED | ST_CANCELLED

datatype fulfilment_state = F_PENDING | F_SUCCESS | F_CANCELLED

fun SHIPMENT_FLOW :: "fulfilment_method \<Rightarrow> shipment_status list" where
  "SHIPMENT_FLOW SHIPPING = [READY, SHIPPED, IN_TRANSIT, OUT_FOR_DELIVERY, DELIVERED]"
| "SHIPMENT_FLOW LOCAL_DELIVERY = [READY, OUT_FOR_DELIVERY, DELIVERED]"

fun method_text :: "fulfilment_method \<Rightarrow> string" where
  "method_text SHIPPING = ''SHIPPING''"
| "method_text LOCAL_DELIVERY = ''LOCAL_DELIVERY''"

fun shipment_text :: "shipment_status \<Rightarrow> string" where
  "shipment_text READY = ''READY''"
| "shipment_text SHIPPED = ''SHIPPED''"
| "shipment_text IN_TRANSIT = ''IN_TRANSIT''"
| "shipment_text OUT_FOR_DELIVERY = ''OUT_FOR_DELIVERY''"
| "shipment_text DELIVERED = ''DELIVERED''"

text \<open>The type guards of the source narrow a text; here they return the narrowed value.\<close>

definition isFulfilmentMethod :: "string \<Rightarrow> fulfilment_method option" where
  "isFulfilmentMethod v = (if v = ''SHIPPING'' then Some SHIPPING
     else if v = ''LOCAL_DELIVERY'' then Some LOCAL_DELIVERY else None)"

definition isShipmentStatus :: "string \<Rightarrow> shipment_status option" where
  "isShipmentStatus v = find (\<lambda>s. shipment_text s = v) (SHIPMENT_FLOW SHIPPING)"

definition allowedStatus :: "fulfilment_method \<Rightarrow> shipment_status \<Rightarrow> bool" where
  "allowedStatus method status \<longleftrightarrow> status \<in> set (SHIPMENT_FLOW method)"

definition isDispatched :: "shipment_status \<Rightarrow> bool" where
  "isDispatched status \<longleftrightarrow> status \<noteq> READY"

text \<open>\<open>indexOf\<close>: the first position of an element, -1 when there is none.\<close>

fun indexOf :: "'a list \<Rightarrow> 'a \<Rightarrow> int" where
  "indexOf [] x = -1"
| "indexOf (y # ys) x = (if y = x then 0 else let i = indexOf ys x in if i < 0 then -1 else i + 1)"

definition nextShipmentStatus :: "fulfilment_method \<Rightarrow> shipment_status \<Rightarrow> shipment_status option" where
  "nextShipmentStatus via status =
     (let flow = SHIPMENT_FLOW via; i = indexOf flow status
      in if i \<ge> 0 \<and> i < int (length flow) - 1 then Some (flow ! nat (i + 1)) else None)"

record fulfilment_view =
  fv_state :: fulfilment_state
  fv_status :: shipment_status

definition orderDeliveryStatus :: "order_fulfilment_status \<Rightarrow> fulfilment_view list \<Rightarrow> delivery_status" where
  "orderDeliveryStatus fulfilmentStatus fulfilments =
     (let active = filter (\<lambda>f. fv_state f = F_SUCCESS) fulfilments
      in if active = [] then D_NOT_STARTED
         else
           let delivered = length (filter (\<lambda>f. fv_status f = DELIVERED) active)
           in if delivered = length active \<and> fulfilmentStatus = FULFILLED then D_DELIVERED
              else if delivered > 0 then D_PARTIALLY_DELIVERED
              else if list_ex (\<lambda>f. isDispatched (fv_status f)) active then D_IN_TRANSIT
              else D_READY)"

definition orderState :: "order_status \<Rightarrow> date option \<Rightarrow> order_state" where
  "orderState status completedAt =
     (if status = ORD_CANCELLED then ST_CANCELLED
      else if completedAt \<noteq> None then ST_COMPLETED else ST_OPEN)"

text \<open>Every payment status of the model's type is settled, as in the source's set.\<close>

definition SETTLED :: "order_payment_status list" where
  "SETTLED = [PAID, PARTIALLY_REFUNDED, REFUNDED]"

definition completionBlockers ::
  "order_status \<Rightarrow> date option \<Rightarrow> order_payment_status \<Rightarrow> order_fulfilment_status \<Rightarrow> delivery_status
   \<Rightarrow> string list" where
  "completionBlockers status completedAt paymentStatus fulfilmentStatus deliveryStatus =
     (if status = ORD_CANCELLED then [''The order is cancelled.'']
      else if completedAt \<noteq> None then [''The order is already complete.'']
      else (if paymentStatus \<notin> set SETTLED then [''Payment isn't settled.''] else [])
        @ (if fulfilmentStatus \<noteq> FULFILLED then [''Not every item is fulfilled.'']
           else if deliveryStatus \<noteq> D_DELIVERED then [''Not every fulfilment is delivered.'']
           else []))"

definition completionImpossible :: "order_status \<Rightarrow> date option \<Rightarrow> bool" where
  "completionImpossible status completedAt \<longleftrightarrow> status = ORD_CANCELLED \<or> completedAt \<noteq> None"

section \<open>Properties\<close>

subsection \<open>Guarded histories\<close>

text \<open>
  A service asks the guard before every write. \<open>guarded\<close> is a history of writes in which
  every write was allowed.
\<close>

fun guarded :: "('s \<Rightarrow> 's \<Rightarrow> bool) \<Rightarrow> 's \<Rightarrow> 's list \<Rightarrow> bool" where
  "guarded can s [] = True"
| "guarded can s (t # ts) = (can s t \<and> guarded can t ts)"

text \<open>The status after a history.\<close>

definition final :: "'s \<Rightarrow> 's list \<Rightarrow> 's" where
  "final s ts = last (s # ts)"

locale guarded_table =
  fixes can :: "'s \<Rightarrow> 's \<Rightarrow> bool" and settled :: "'s \<Rightarrow> bool"
  assumes settled_stays: "settled s \<Longrightarrow> can s t \<Longrightarrow> settled t"
begin

lemma settled_history: "guarded can s ts \<Longrightarrow> settled s \<Longrightarrow> \<forall>t \<in> set ts. settled t"
  by (induction ts arbitrary: s) (auto dest: settled_stays)

lemma settled_final: "guarded can s ts \<Longrightarrow> settled s \<Longrightarrow> settled (final s ts)"
  using settled_history[of s ts] by (simp add: final_def)

end

text \<open>A stronger contract: nothing follows a terminal status.\<close>

locale terminal_table =
  fixes can :: "'s \<Rightarrow> 's \<Rightarrow> bool" and terminal :: "'s \<Rightarrow> bool"
  assumes terminal_stuck: "terminal s \<Longrightarrow> \<not> can s t"
begin

sublocale guarded_table can terminal
  by unfold_locales (auto dest: terminal_stuck)

lemma terminal_history: "guarded can s ts \<Longrightarrow> terminal s \<Longrightarrow> ts = []"
  by (cases ts) (auto dest: terminal_stuck)

text \<open>In a history at most one status is terminal, and it is the last.\<close>

lemma terminal_last:
  "guarded can s (ts @ t # us) \<Longrightarrow> terminal t \<Longrightarrow> us = []"
proof (induction ts arbitrary: s)
  case Nil
  then show ?case by (auto dest: terminal_history)
next
  case (Cons x ts)
  then show ?case using Cons.IH[of x] by simp
qed

lemma no_write_after: "terminal t \<Longrightarrow> \<not> guarded can s (ts @ t # u # us)"
  using terminal_last by blast

end

interpretation checkout_table: terminal_table canCheckoutTransition "\<lambda>s. s = CO_COMPLETED"
  by unfold_locales (auto simp: canCheckoutTransition_def)

interpretation payment_table: terminal_table canPaymentTransition "\<lambda>s. s = PAY_CAPTURED"
  by unfold_locales (auto simp: canPaymentTransition_def)

interpretation order_table: terminal_table canOrderTransition "\<lambda>s. s = ORD_CANCELLED"
  by unfold_locales (auto simp: canOrderTransition_def)

text \<open>An expired checkout can only still be completed: it never takes a new payment attempt.\<close>

interpretation checkout_closed: guarded_table canCheckoutTransition "\<lambda>s. s \<in> {CO_EXPIRED, CO_COMPLETED}"
  by unfold_locales (auto simp: canCheckoutTransition_def)

text \<open>
  in every history of allowed status writes, of a checkout, of a payment and of an
  order, nothing is ever written after COMPLETED, CAPTURED or CANCELLED: each can only be
  the last write. So a captured payment is never marked failed or cancelled later, a
  completed checkout never reopens, and an expired checkout never returns to OPEN or
  PAYMENT_PENDING.
\<close>

theorem settled_statuses_are_final:
  "\<not> guarded canCheckoutTransition c (cs @ CO_COMPLETED # c' # cs') \<and>
   \<not> guarded canPaymentTransition p (ps @ PAY_CAPTURED # p' # ps') \<and>
   \<not> guarded canOrderTransition d (ds @ ORD_CANCELLED # d' # ds') \<and>
   \<not> guarded canCheckoutTransition CO_EXPIRED (es @ CO_OPEN # es') \<and>
   \<not> guarded canCheckoutTransition CO_EXPIRED (es @ CO_PAYMENT_PENDING # es')"
  using checkout_table.no_write_after payment_table.no_write_after order_table.no_write_after
    checkout_closed.settled_history[of CO_EXPIRED "es @ CO_OPEN # es'"]
    checkout_closed.settled_history[of CO_EXPIRED "es @ CO_PAYMENT_PENDING # es'"]
  by auto

subsection \<open>Derived statuses\<close>

lemma foldl_fulfilled: "foldl (\<lambda>n l. n + fl_fulfilled l) a ls = a + sum_list (map fl_fulfilled ls)"
  by (induction ls arbitrary: a) auto

text \<open>
  the fulfilment status of an order says exactly what its lines say: for lines whose
  fulfilled quantities are within 0 and the ordered quantity, and that order at least one
  unit, it is UNFULFILLED when no unit is fulfilled, FULFILLED when all are, and
  PARTIALLY_FULFILLED in every other case.
\<close>

theorem orderFulfilmentStatus_spec:
  assumes "\<forall>l \<in> set lines. 0 \<le> fl_fulfilled l \<and> fl_fulfilled l \<le> fl_quantity l"
    and "\<exists>l \<in> set lines. 0 < fl_quantity l"
  shows "(orderFulfilmentStatus lines = UNFULFILLED \<longleftrightarrow> (\<forall>l \<in> set lines. fl_fulfilled l = 0)) \<and>
    (orderFulfilmentStatus lines = FULFILLED \<longleftrightarrow> (\<forall>l \<in> set lines. fl_fulfilled l = fl_quantity l)) \<and>
    (orderFulfilmentStatus lines = PARTIALLY_FULFILLED \<longleftrightarrow>
       (\<exists>l \<in> set lines. 0 < fl_fulfilled l) \<and> (\<exists>l \<in> set lines. fl_fulfilled l < fl_quantity l))"
proof -
  have z: "sum_list (map fl_fulfilled lines) = 0 \<longleftrightarrow> (\<forall>l \<in> set lines. fl_fulfilled l = 0)"
    using assms(1) by (subst sum_list_nonneg_eq_0_iff) auto
  show ?thesis
  proof (cases "\<forall>l \<in> set lines. fl_fulfilled l = 0")
    case True
    moreover obtain l where "l \<in> set lines" "fl_quantity l \<noteq> fl_fulfilled l"
      using assms(2) True by force
    ultimately show ?thesis using z
      by (auto simp: orderFulfilmentStatus_def foldl_fulfilled Let_def)
  next
    case False
    with z have "sum_list (map fl_fulfilled lines) \<noteq> 0" by blast
    moreover have "\<exists>l \<in> set lines. 0 < fl_fulfilled l" using False assms(1) by force
    moreover have "list_all (\<lambda>l. fl_fulfilled l \<ge> fl_quantity l) lines \<longleftrightarrow>
        (\<forall>l \<in> set lines. fl_fulfilled l = fl_quantity l)"
      using assms(1) by (force simp: list_all_iff)
    moreover have "(\<exists>l \<in> set lines. fl_fulfilled l < fl_quantity l) \<longleftrightarrow>
        \<not> (\<forall>l \<in> set lines. fl_fulfilled l = fl_quantity l)"
      using assms(1) by force
    moreover have "orderFulfilmentStatus lines =
        (if list_all (\<lambda>l. fl_fulfilled l \<ge> fl_quantity l) lines then FULFILLED else PARTIALLY_FULFILLED)"
      using \<open>sum_list (map fl_fulfilled lines) \<noteq> 0\<close>
      by (simp add: orderFulfilmentStatus_def foldl_fulfilled)
    ultimately show ?thesis using False by (simp only:) auto
  qed
qed

theorem orderFulfilmentStatus_spec_witness:
  "orderFulfilmentStatus [\<lparr>fl_quantity = 2, fl_fulfilled = 2\<rparr>, \<lparr>fl_quantity = 3, fl_fulfilled = 1\<rparr>]
     = PARTIALLY_FULFILLED"
  using orderFulfilmentStatus_spec[of "[\<lparr>fl_quantity = 2, fl_fulfilled = 2\<rparr>, \<lparr>fl_quantity = 3, fl_fulfilled = 1\<rparr>]"]
  by simp

text \<open>
  an order can be completed without an override exactly when it is open, not complete,
  every unit is fulfilled and every active fulfilment is delivered (and there is one):
  \<open>completionBlockers\<close> over \<open>orderDeliveryStatus\<close> is empty in that case and no other. A
  cancelled or already complete order always has a blocker, the ones that
  \<open>completionImpossible\<close> refuses to override.
\<close>

theorem completion_unblocked_iff:
  "completionBlockers status completedAt pay fulfilment (orderDeliveryStatus fulfilment fs) = [] \<longleftrightarrow>
     \<not> completionImpossible status completedAt \<and> fulfilment = FULFILLED \<and>
     (\<exists>f \<in> set fs. fv_state f = F_SUCCESS) \<and>
     (\<forall>f \<in> set fs. fv_state f = F_SUCCESS \<longrightarrow> fv_status f = DELIVERED)"
proof -
  let ?active = "filter (\<lambda>f. fv_state f = F_SUCCESS) fs"
  have "pay \<in> set SETTLED" by (cases pay) (simp_all add: SETTLED_def)
  moreover have "length (filter (\<lambda>f. fv_status f = DELIVERED) ?active) = length ?active \<longleftrightarrow>
      (\<forall>f \<in> set fs. fv_state f = F_SUCCESS \<longrightarrow> fv_status f = DELIVERED)"
    by (subst length_filter_all) auto
  moreover have "?active = [] \<longleftrightarrow> \<not> (\<exists>f \<in> set fs. fv_state f = F_SUCCESS)"
    by (auto simp: filter_empty_conv)
  ultimately show ?thesis
    by (simp add: completionBlockers_def completionImpossible_def orderDeliveryStatus_def Let_def)
qed

theorem completion_unblocked_iff_witness:
  "completionBlockers ORD_OPEN None PAID FULFILLED
     (orderDeliveryStatus FULFILLED [\<lparr>fv_state = F_SUCCESS, fv_status = DELIVERED\<rparr>,
        \<lparr>fv_state = F_CANCELLED, fv_status = READY\<rparr>]) = [] \<and>
   completionBlockers ORD_OPEN None PAID FULFILLED
     (orderDeliveryStatus FULFILLED [\<lparr>fv_state = F_SUCCESS, fv_status = SHIPPED\<rparr>]) \<noteq> []"
  using completion_unblocked_iff[of ORD_OPEN None PAID FULFILLED] by (simp add: completionImpossible_def)

text \<open>
  The journey of a fulfilment: from READY the offered next steps go through exactly the
  statuses of its method in order and stop at DELIVERED; every offered step is allowed for
  the method, and there is none after DELIVERED.
\<close>

theorem shipment_journey:
  "SHIPMENT_FLOW via ! 0 = READY \<and> last (SHIPMENT_FLOW via) = DELIVERED \<and>
   (\<forall>i < length (SHIPMENT_FLOW via) - 1.
      nextShipmentStatus via (SHIPMENT_FLOW via ! i) = Some (SHIPMENT_FLOW via ! (i + 1))) \<and>
   nextShipmentStatus via DELIVERED = None \<and>
   (nextShipmentStatus via s = Some t \<longrightarrow> allowedStatus via s \<and> allowedStatus via t \<and> isDispatched t)"
  by (cases via; cases s)
    (auto simp: nextShipmentStatus_def allowedStatus_def isDispatched_def Let_def less_Suc_eq
      split: if_splits)

theorem shipment_journey_witness:
  "nextShipmentStatus LOCAL_DELIVERY READY = Some OUT_FOR_DELIVERY \<and>
   allowedStatus LOCAL_DELIVERY OUT_FOR_DELIVERY \<and> \<not> allowedStatus LOCAL_DELIVERY SHIPPED"
proof -
  have n: "nextShipmentStatus LOCAL_DELIVERY READY = Some OUT_FOR_DELIVERY"
    by (simp add: nextShipmentStatus_def)
  with shipment_journey[of LOCAL_DELIVERY READY OUT_FOR_DELIVERY] show ?thesis
    by (simp add: allowedStatus_def)
qed

end
