(* ===== verification/Pricing.thy ===== *)
theory Pricing
  imports Money "HOL-Library.Multiset"
begin

section \<open>Checkout pricing\<close>

text \<open>
  Model of \<open>packages/commerce/src/checkout/pricing.ts\<close>: the server-authoritative price of
  a checkout, a pure function of a snapshot. The quote's amounts are JSON texts of integers
  in the source; the model keeps the integers themselves (\<open>read_show_int\<close> is the
  round trip). Two functions of the platform are parameters: \<open>lc\<close> is
  \<open>String.prototype.localeCompare\<close> (its collation is up to the implementation), which only
  orders shipping options of the same price, and \<open>hash\<close> is \<open>quoteHash\<close>, the SHA-256 of the
  quote's serialisation from \<open>node:crypto\<close>.
\<close>

subsection \<open>The snapshot\<close>

record checkout_address =
  ca_firstName :: string
  ca_lastName :: string
  ca_company :: "string option"
  ca_line1 :: string
  ca_line2 :: "string option"
  ca_city :: string
  ca_region :: "string option"
  ca_regionCode :: "string option"
  ca_postalCode :: "string option"
  ca_countryCode :: string
  ca_phone :: "string option"

record pricing_line =
  pl_variantId :: uuid
  pl_productId :: uuid
  pl_productTitle :: string
  pl_variantTitle :: string
  pl_sku :: "string option"
  pl_unitPrice :: int
  pl_currency :: string
  pl_quantity :: int
  pl_taxable :: bool
  pl_requiresShipping :: bool
  pl_weightGrams :: "int option"
  pl_sellable :: bool
  pl_inStock :: bool
  pl_stockLimit :: "int option"

datatype rate_type = FLAT | PRICE_BASED

record zone_country =
  zc_countryCode :: string
  zc_regionCodes :: "string list"

record shipping_rate =
  sr_id :: uuid
  sr_name :: string
  sr_type :: rate_type
  sr_amount :: int
  sr_currency :: string
  sr_minSubtotal :: "int option"
  sr_maxSubtotal :: "int option"
  sr_countries :: "zone_country list"

record tax_rate =
  tr_id :: uuid
  tr_name :: string
  tr_countryCode :: string
  tr_regionCode :: "string option"
  tr_ratePpm :: int

datatype discount_type = PERCENTAGE | FIXED_AMOUNT

record pricing_discount =
  pd_id :: uuid
  pd_codeId :: uuid
  pd_code :: string
  pd_title :: string
  pd_type :: discount_type
  pd_percentageBps :: "int option"
  pd_amount :: "int option"
  pd_currency :: "string option"
  pd_minSubtotal :: "int option"
  pd_startsAt :: date
  pd_endsAt :: "date option"
  pd_active :: bool
  pd_usageLimit :: "int option"
  pd_usedByOthers :: int

record pricing_input =
  pi_currency :: string
  pi_lines :: "pricing_line list"
  pi_email :: "string option"
  pi_address :: "checkout_address option"
  pi_shippingRates :: "shipping_rate list"
  pi_selectedRateId :: "uuid option"
  pi_pricesIncludeTax :: bool
  pi_chargeTaxOnShipping :: bool
  pi_taxRates :: "tax_rate list"
  pi_discountCode :: "string option"
  pi_discount :: "pricing_discount option"
  pi_now :: date

subsection \<open>The quote\<close>

datatype discount_problem = NOT_FOUND | NOT_STARTED | EXPIRED | USED_UP | MINIMUM

datatype checkout_problem =
    P_EMPTY | P_UNAVAILABLE | P_EMAIL | P_ADDRESS | P_SHIPPING_UNAVAILABLE | P_SHIPPING
  | P_DISCOUNT | P_ZERO_TOTAL

record quote_tax_line =
  qt_rateId :: uuid
  qt_name :: string
  qt_ratePpm :: int
  qt_amount :: int

record quote_line =
  ql_variantId :: uuid
  ql_productId :: uuid
  ql_productTitle :: string
  ql_variantTitle :: string
  ql_sku :: "string option"
  ql_quantity :: int
  ql_unitPrice :: int
  ql_subtotal :: int
  ql_discount :: int
  ql_tax :: int
  ql_total :: int
  ql_taxable :: bool
  ql_requiresShipping :: bool
  ql_weightGrams :: "int option"
  ql_taxLines :: "quote_tax_line list"

datatype unavailable_reason = UNAVAILABLE | SOLD_OUT | LOW_STOCK int

record quote_unavailable =
  qu_variantId :: uuid
  qu_productTitle :: string
  qu_variantTitle :: string
  qu_quantity :: int
  qu_reason :: unavailable_reason

record quote_option =
  qo_rateId :: uuid
  qo_name :: string
  qo_amount :: int

record quote_shipping =
  qs_rateId :: uuid
  qs_name :: string
  qs_amount :: int
  qs_tax :: int
  qs_taxLines :: "quote_tax_line list"

record quote_discount =
  qd_discountId :: uuid
  qd_codeId :: uuid
  qd_code :: string
  qd_title :: string
  qd_type :: discount_type
  qd_percentageBps :: "int option"
  qd_amount :: int

record price_quote =
  q_currency :: string
  q_pricesIncludeTax :: bool
  q_lines :: "quote_line list"
  q_unavailable :: "quote_unavailable list"
  q_requiresShipping :: bool
  q_shippingOptions :: "quote_option list"
  q_shipping :: "quote_shipping option"
  q_discount :: "quote_discount option"
  q_discountCode :: "string option"
  q_discountProblem :: "discount_problem option"
  q_taxLines :: "quote_tax_line list"
  q_subtotal :: int
  q_discountTotal :: int
  q_shippingTotal :: int
  q_taxTotal :: int
  q_total :: int
  q_problems :: "checkout_problem list"

subsection \<open>Tax\<close>

definition sumOf :: "int list \<Rightarrow> int" where
  "sumOf values = foldl (+) 0 values"

definition byRateId :: "tax_rate \<Rightarrow> tax_rate \<Rightarrow> int" where
  "byRateId a b = (if tr_id a < tr_id b then -1 else if tr_id a > tr_id b then 1 else 0)"

definition applicableTaxRates :: "tax_rate list \<Rightarrow> checkout_address option \<Rightarrow> tax_rate list" where
  "applicableTaxRates rates address = (case address of
     None \<Rightarrow> []
   | Some a \<Rightarrow> sortBy byRateId (filter (\<lambda>r. tr_countryCode r = ca_countryCode a \<and>
       (tr_regionCode r = None \<or> tr_regionCode r = ca_regionCode a)) rates))"

definition tax_line :: "tax_rate \<Rightarrow> int \<Rightarrow> quote_tax_line" where
  "tax_line r n = \<lparr>qt_rateId = tr_id r, qt_name = tr_name r, qt_ratePpm = tr_ratePpm r, qt_amount = n\<rparr>"

definition taxFor :: "int \<Rightarrow> tax_rate list \<Rightarrow> bool \<Rightarrow> string \<Rightarrow> money_error + quote_tax_line list" where
  "taxFor base rates inclusive currency =
     (if base \<le> 0 \<or> rates = [] then Inr []
      else if \<not> inclusive then
        mapR (\<lambda>r. bindR (divideRounded (base * tr_ratePpm r) 1000000 HalfEven)
                    (\<lambda>n. Inr (tax_line r n))) rates
      else
        let ppms = sumOf (map tr_ratePpm rates)
        in if ppms = 0 then Inr (map (\<lambda>r. tax_line r 0) rates)
           else
             bindR (divideRounded (base * ppms) (1000000 + ppms) HalfEven) (\<lambda>tax.
             bindR (money (BigIntV tax) currency) (\<lambda>m.
             bindR (allocate m (map (\<lambda>r. NumberV (Integral (tr_ratePpm r))) rates)) (\<lambda>parts.
             Inr (map (\<lambda>(i, r). tax_line r (at_or 0 (map m_amount parts) i)) (enumerate 0 rates))))))"

subsection \<open>Discount and shipping\<close>

text \<open>An entered code: null and the empty text are both no code.\<close>

definition no_text :: "string option \<Rightarrow> bool" where
  "no_text t \<longleftrightarrow> t = None \<or> t = Some []"

definition evaluateDiscount ::
  "pricing_input \<Rightarrow> int \<Rightarrow> money_error + (int \<times> discount_problem option)" where
  "evaluateDiscount input subtotal =
     (if no_text (pi_discountCode input) then Inr (0, None)
      else case pi_discount input of
        None \<Rightarrow> Inr (0, Some NOT_FOUND)
      | Some d \<Rightarrow>
          if \<not> pd_active d \<or> (pd_type d = FIXED_AMOUNT \<and> pd_currency d \<noteq> Some (pi_currency input))
          then Inr (0, Some NOT_FOUND)
          else if pd_startsAt d > pi_now input then Inr (0, Some NOT_STARTED)
          else if (case pd_endsAt d of None \<Rightarrow> False | Some e \<Rightarrow> e \<le> pi_now input)
          then Inr (0, Some EXPIRED)
          else if (case pd_usageLimit d of None \<Rightarrow> False | Some n \<Rightarrow> pd_usedByOthers d \<ge> n)
          then Inr (0, Some USED_UP)
          else if (case pd_minSubtotal d of None \<Rightarrow> False | Some n \<Rightarrow> subtotal < n)
          then Inr (0, Some MINIMUM)
          else
            bindR (case pd_type d of
                PERCENTAGE \<Rightarrow> divideRounded (subtotal * (case pd_percentageBps d of None \<Rightarrow> 0 | Some b \<Rightarrow> b))
                  10000 HalfUp
              | FIXED_AMOUNT \<Rightarrow> Inr (case pd_amount d of None \<Rightarrow> 0 | Some n \<Rightarrow> n))
            (\<lambda>raw. Inr (if raw > subtotal then subtotal else raw, None)))"

definition rateApplies :: "shipping_rate \<Rightarrow> checkout_address \<Rightarrow> int \<Rightarrow> bool" where
  "rateApplies rate address merchandise =
     (let covers = list_ex (\<lambda>c. zc_countryCode c = ca_countryCode address \<and>
            (zc_regionCodes c = [] \<or>
             (case ca_regionCode address of None \<Rightarrow> False | Some code \<Rightarrow> code \<in> set (zc_regionCodes c))))
          (sr_countries rate)
      in if \<not> covers then False
         else if sr_type rate = PRICE_BASED \<and>
           (case sr_minSubtotal rate of None \<Rightarrow> False | Some n \<Rightarrow> merchandise < n) then False
         else if sr_type rate = PRICE_BASED \<and>
           (case sr_maxSubtotal rate of None \<Rightarrow> False | Some n \<Rightarrow> merchandise > n) then False
         else True)"

definition byPriceThenName ::
  "(string \<Rightarrow> string \<Rightarrow> int) \<Rightarrow> shipping_rate \<Rightarrow> shipping_rate \<Rightarrow> int" where
  "byPriceThenName lc a b =
     (if sr_amount a \<noteq> sr_amount b then (if sr_amount a < sr_amount b then -1 else 1)
      else lc (sr_name a) (sr_name b))"

subsection \<open>The price of a checkout\<close>

text \<open>The steps of \<open>priceCheckout\<close>, in its order.\<close>

definition is_priced :: "string \<Rightarrow> pricing_line \<Rightarrow> bool" where
  "is_priced currency l \<longleftrightarrow> pl_sellable l \<and> pl_currency l = currency \<and> pl_inStock l"

definition unavailable_line :: "string \<Rightarrow> pricing_line \<Rightarrow> quote_unavailable" where
  "unavailable_line currency l =
     \<lparr>qu_variantId = pl_variantId l, qu_productTitle = pl_productTitle l,
      qu_variantTitle = pl_variantTitle l, qu_quantity = pl_quantity l,
      qu_reason =
        (if pl_sellable l \<and> pl_currency l = currency then
           (case pl_stockLimit l of
              None \<Rightarrow> SOLD_OUT
            | Some n \<Rightarrow> if n \<noteq> 0 then LOW_STOCK n else SOLD_OUT)
         else UNAVAILABLE)\<rparr>"

definition line_subtotal :: "pricing_line \<Rightarrow> int" where
  "line_subtotal l = pl_unitPrice l * pl_quantity l"

definition line_discounts :: "string \<Rightarrow> pricing_line list \<Rightarrow> int \<Rightarrow> money_error + int list" where
  "line_discounts currency priced discountAmount =
     (let lineSubtotals = map line_subtotal priced
      in if discountAmount > 0 \<and> sumOf lineSubtotals > 0
         then bindR (money (BigIntV discountAmount) currency) (\<lambda>m.
              bindR (allocate m (map BigIntV lineSubtotals)) (\<lambda>parts. Inr (map m_amount parts)))
         else Inr (map (\<lambda>_. 0) priced))"

definition price_line ::
  "bool \<Rightarrow> tax_rate list \<Rightarrow> string \<Rightarrow> pricing_line \<Rightarrow> int \<Rightarrow> money_error + quote_line" where
  "price_line inclusive rates currency l lineDiscount =
     (let base = line_subtotal l - lineDiscount
      in bindR (if pl_taxable l then taxFor base rates inclusive currency else Inr []) (\<lambda>taxLines.
         let tax = sumOf (map qt_amount taxLines)
         in Inr \<lparr>ql_variantId = pl_variantId l, ql_productId = pl_productId l,
              ql_productTitle = pl_productTitle l, ql_variantTitle = pl_variantTitle l,
              ql_sku = pl_sku l, ql_quantity = pl_quantity l, ql_unitPrice = pl_unitPrice l,
              ql_subtotal = line_subtotal l, ql_discount = lineDiscount, ql_tax = tax,
              ql_total = base + (if inclusive then 0 else tax),
              ql_taxable = pl_taxable l, ql_requiresShipping = pl_requiresShipping l,
              ql_weightGrams = pl_weightGrams l, ql_taxLines = taxLines\<rparr>))"

definition shipping_options ::
  "(string \<Rightarrow> string \<Rightarrow> int) \<Rightarrow> pricing_input \<Rightarrow> bool \<Rightarrow> int \<Rightarrow> quote_option list" where
  "shipping_options lc input requiresShipping merchandise =
     (case pi_address input of
        None \<Rightarrow> []
      | Some address \<Rightarrow>
          if requiresShipping
          then map (\<lambda>r. \<lparr>qo_rateId = sr_id r, qo_name = sr_name r, qo_amount = sr_amount r\<rparr>)
                 (sortBy (byPriceThenName lc)
                   (filter (\<lambda>r. sr_currency r = pi_currency input \<and> rateApplies r address merchandise)
                     (pi_shippingRates input)))
          else [])"

text \<open>Tax lines aggregated per rate, in the order the rates first appear.\<close>

definition aggregate_tax :: "quote_tax_line list \<Rightarrow> quote_tax_line list" where
  "aggregate_tax ts = map snd (foldl (\<lambda>byRate t.
      AList.update (qt_rateId t)
        (t\<lparr>qt_amount := (case map_of byRate (qt_rateId t) of None \<Rightarrow> 0 | Some prior \<Rightarrow> qt_amount prior)
            + qt_amount t\<rparr>) byRate) [] ts)"

definition checkout_problems ::
  "pricing_input \<Rightarrow> quote_unavailable list \<Rightarrow> bool \<Rightarrow> quote_option list \<Rightarrow> quote_option option
   \<Rightarrow> discount_problem option \<Rightarrow> int \<Rightarrow> checkout_problem list" where
  "checkout_problems input unavailable requiresShipping options chosen discountProblem grand_total =
     (if pi_lines input = [] then [P_EMPTY] else [])
   @ (if unavailable \<noteq> [] then [P_UNAVAILABLE] else [])
   @ (if no_text (pi_email input) then [P_EMAIL] else [])
   @ (if pi_address input = None then [P_ADDRESS] else [])
   @ (if requiresShipping \<and> pi_address input \<noteq> None \<and> options = [] then [P_SHIPPING_UNAVAILABLE]
      else if requiresShipping \<and> pi_address input \<noteq> None \<and> chosen = None then [P_SHIPPING] else [])
   @ (if discountProblem \<noteq> None then [P_DISCOUNT] else [])
   @ (if pi_lines input \<noteq> [] \<and> grand_total \<le> 0 then [P_ZERO_TOTAL] else [])"

definition priceCheckout ::
  "(string \<Rightarrow> string \<Rightarrow> int) \<Rightarrow> pricing_input \<Rightarrow> money_error + price_quote" where
  "priceCheckout lc input =
     (let currency = pi_currency input;
          priced = filter (is_priced currency) (pi_lines input);
          unavailable = map (unavailable_line currency)
            (filter (\<lambda>l. \<not> is_priced currency l) (pi_lines input));
          subtotal = sumOf (map line_subtotal priced)
      in
      bindR (evaluateDiscount input subtotal) (\<lambda>(discountAmount, discountProblem).
      bindR (line_discounts currency priced discountAmount) (\<lambda>lineDiscounts.
      let merchandise = subtotal - discountAmount;
          rates = applicableTaxRates (pi_taxRates input) (pi_address input);
          inclusive = pi_pricesIncludeTax input
      in
      bindR (mapR (\<lambda>(i, l). price_line inclusive rates currency l (at_or 0 lineDiscounts i))
              (enumerate 0 priced)) (\<lambda>lines.
      let requiresShipping = list_ex pl_requiresShipping priced;
          options = shipping_options lc input requiresShipping merchandise;
          chosen = (if requiresShipping
            then find (\<lambda>opt. Some (qo_rateId opt) = pi_selectedRateId input) options else None);
          shippingAmount = (case chosen of None \<Rightarrow> 0 | Some opt \<Rightarrow> qo_amount opt)
      in
      bindR (if chosen \<noteq> None \<and> pi_chargeTaxOnShipping input
             then taxFor shippingAmount rates inclusive currency else Inr []) (\<lambda>shippingTaxLines.
      let shippingTax = sumOf (map qt_amount shippingTaxLines);
          taxTotal = sumOf (map ql_tax lines) + shippingTax;
          grand_total = merchandise + shippingAmount + (if inclusive then 0 else taxTotal)
      in
      Inr \<lparr>q_currency = currency, q_pricesIncludeTax = inclusive, q_lines = lines,
           q_unavailable = unavailable, q_requiresShipping = requiresShipping,
           q_shippingOptions = options,
           q_shipping = map_option (\<lambda>opt. \<lparr>qs_rateId = qo_rateId opt, qs_name = qo_name opt,
             qs_amount = qo_amount opt, qs_tax = shippingTax, qs_taxLines = shippingTaxLines\<rparr>) chosen,
           q_discount = (case pi_discount input of
               None \<Rightarrow> None
             | Some d \<Rightarrow> if discountAmount > 0
                 then Some \<lparr>qd_discountId = pd_id d, qd_codeId = pd_codeId d, qd_code = pd_code d,
                        qd_title = pd_title d, qd_type = pd_type d,
                        qd_percentageBps = pd_percentageBps d, qd_amount = discountAmount\<rparr>
                 else None),
           q_discountCode = pi_discountCode input, q_discountProblem = discountProblem,
           q_taxLines = aggregate_tax (concat (map ql_taxLines lines) @ shippingTaxLines),
           q_subtotal = subtotal, q_discountTotal = discountAmount,
           q_shippingTotal = shippingAmount, q_taxTotal = taxTotal, q_total = grand_total,
           q_problems = checkout_problems input unavailable requiresShipping options chosen
             discountProblem grand_total\<rparr>)))))"

subsection \<open>Why a quote changed\<close>

datatype quote_change =
  QUANTITY_CHANGED | ITEM_UNAVAILABLE | PRICE_CHANGED | DISCOUNT_CHANGED | SHIPPING_CHANGED

text \<open>\<open>xs.map(key).sort().join()\<close>.\<close>

definition sorted_keys :: "(quote_line \<Rightarrow> string) \<Rightarrow> price_quote \<Rightarrow> string" where
  "sorted_keys key q = joinWith '','' (sortBy (byText (\<lambda>s. s)) (map key (q_lines q)))"

definition quantity_key :: "quote_line \<Rightarrow> string" where
  "quantity_key l = uuid_text (ql_variantId l) @ '':'' @ show_int (ql_quantity l)"

definition price_key :: "quote_line \<Rightarrow> string" where
  "price_key l = uuid_text (ql_variantId l) @ '':'' @ show_int (ql_unitPrice l)"

definition id_key :: "quote_line \<Rightarrow> string" where
  "id_key l = uuid_text (ql_variantId l)"

definition describeQuoteChange ::
  "(price_quote \<Rightarrow> string) \<Rightarrow> price_quote option \<Rightarrow> price_quote \<Rightarrow> quote_change option" where
  "describeQuoteChange hash confirmed current = (case confirmed of
     None \<Rightarrow> Some PRICE_CHANGED
   | Some c \<Rightarrow>
       if hash c = hash current then None
       else if length (q_unavailable current) > length (q_unavailable c) then Some ITEM_UNAVAILABLE
       else if sorted_keys quantity_key c \<noteq> sorted_keys quantity_key current
       then Some (if sorted_keys id_key c = sorted_keys id_key current then QUANTITY_CHANGED
                  else ITEM_UNAVAILABLE)
       else if sorted_keys price_key c \<noteq> sorted_keys price_key current then Some PRICE_CHANGED
       else if q_discountTotal c \<noteq> q_discountTotal current \<or>
               q_discountProblem c \<noteq> q_discountProblem current then Some DISCOUNT_CHANGED
       else if q_shippingTotal c \<noteq> q_shippingTotal current \<or>
               map_option qs_rateId (q_shipping c) \<noteq> map_option qs_rateId (q_shipping current)
       then Some SHIPPING_CHANGED
       else Some PRICE_CHANGED)"


section \<open>Properties\<close>

text \<open>
  What the database guarantees of a snapshot (its CHECK constraints): a currency of the
  table, prices, quantities, rates and limits that are not negative, tax rates of at most
  100 percent.
\<close>

definition valid_line :: "pricing_line \<Rightarrow> bool" where
  "valid_line l \<longleftrightarrow> 0 \<le> pl_unitPrice l \<and> 0 \<le> pl_quantity l"

definition valid_discount :: "pricing_discount \<Rightarrow> bool" where
  "valid_discount d \<longleftrightarrow> (case pd_percentageBps d of None \<Rightarrow> True | Some b \<Rightarrow> 0 \<le> b) \<and>
     (case pd_amount d of None \<Rightarrow> True | Some n \<Rightarrow> 0 \<le> n)"

definition valid_tax :: "tax_rate \<Rightarrow> bool" where
  "valid_tax r \<longleftrightarrow> 0 \<le> tr_ratePpm r \<and> tr_ratePpm r \<le> 1000000"

definition valid_input :: "pricing_input \<Rightarrow> bool" where
  "valid_input input \<longleftrightarrow> isKnownCurrency (pi_currency input) \<and>
     (\<forall>l \<in> set (pi_lines input). valid_line l) \<and>
     (\<forall>r \<in> set (pi_taxRates input). valid_tax r) \<and>
     (\<forall>r \<in> set (pi_shippingRates input). 0 \<le> sr_amount r) \<and>
     (case pi_discount input of None \<Rightarrow> True | Some d \<Rightarrow> valid_discount d)"

subsection \<open>Tax\<close>

interpretation rate_order: comparator byRateId
  by unfold_locales (auto simp: byRateId_def split: if_splits)

lemma applicable_valid:
  "\<forall>r \<in> set rates. valid_tax r \<Longrightarrow> \<forall>r \<in> set (applicableTaxRates rates a). valid_tax r"
  by (auto simp: applicableTaxRates_def split: option.splits)

lemma sum_ppm_nonneg: "\<forall>r \<in> set rates. valid_tax r \<Longrightarrow> 0 \<le> sum_list (map tr_ratePpm rates)"
  by (rule sum_list_map_nonneg) (simp add: valid_tax_def)

lemma mapR_ppm:
  "\<forall>r \<in> set rates. valid_tax r \<Longrightarrow>
   mapR toBigInt (map (\<lambda>r. NumberV (Integral (tr_ratePpm r))) rates) = Inr (map tr_ratePpm rates)"
  by (induction rates) (auto simp: valid_tax_def max_safe_integer_def)

lemma allocate_ppm:
  assumes "\<forall>r \<in> set rates. valid_tax r" "sum_list (map tr_ratePpm rates) \<noteq> 0" "isKnownCurrency c"
  shows "\<exists>parts. allocate \<lparr>m_amount = tax, m_currency = c\<rparr>
     (map (\<lambda>r. NumberV (Integral (tr_ratePpm r))) rates) = Inr parts"
proof -
  have "0 < sum_list (map tr_ratePpm rates)" using sum_ppm_nonneg[OF assms(1)] assms(2) by simp
  moreover have "rates \<noteq> []" using assms(2) by auto
  ultimately show ?thesis using mapR_ppm[OF assms(1)] assms(1,3)
    unfolding allocate_Inr by (auto simp: valid_tax_def)
qed

lemma allocate_ppm_nonneg:
  assumes "allocate \<lparr>m_amount = tax, m_currency = c\<rparr>
      (map (\<lambda>r. NumberV (Integral (tr_ratePpm r))) rates) = Inr parts"
    and "\<forall>r \<in> set rates. valid_tax r" "0 \<le> tax"
  shows "\<forall>p \<in> set parts. 0 \<le> m_amount p"
proof -
  have "\<forall>w \<in> set (map tr_ratePpm rates). 0 \<le> w" "0 < sum_list (map tr_ratePpm rates)"
    "parts = map (\<lambda>s. \<lparr>m_amount = s, m_currency = c\<rparr>) (split_shares tax (map tr_ratePpm rates))"
    using assms(1,3) mapR_ppm[OF assms(2)] unfolding allocate_Inr by auto
  then show ?thesis
    using split_shares_bounds(1)[OF assms(3)] by (auto simp: in_set_conv_nth)
qed

text \<open>What \<open>taxFor\<close> returns, by its three branches.\<close>

lemma taxFor_cases:
  assumes "taxFor base rates inclusive c = Inr ts"
  obtains (none) "base \<le> 0 \<or> rates = []" "ts = []"
  | (exclusive) "0 < base" "rates \<noteq> []" "\<not> inclusive"
      "ts = map (\<lambda>r. tax_line r (rounded (base * tr_ratePpm r) 1000000 HalfEven)) rates"
  | (zero) "0 < base" "rates \<noteq> []" inclusive "sum_list (map tr_ratePpm rates) = 0"
      "ts = map (\<lambda>r. tax_line r 0) rates"
  | (inclusive) tax parts where "0 < base" "rates \<noteq> []" inclusive
      "sum_list (map tr_ratePpm rates) \<noteq> 0"
      "divideRounded (base * sum_list (map tr_ratePpm rates))
         (1000000 + sum_list (map tr_ratePpm rates)) HalfEven = Inr tax"
      "allocate \<lparr>m_amount = tax, m_currency = c\<rparr>
         (map (\<lambda>r. NumberV (Integral (tr_ratePpm r))) rates) = Inr parts"
      "ts = map2 tax_line rates (map m_amount parts)"
proof (cases "base \<le> 0 \<or> rates = []")
  case True
  with assms none show ?thesis by (simp add: taxFor_def)
next
  case nonempty: False
  show ?thesis
  proof (cases inclusive)
    case False
    have "mapR (\<lambda>r. bindR (divideRounded (base * tr_ratePpm r) 1000000 HalfEven) (\<lambda>n. Inr (tax_line r n))) rates
        = Inr (map (\<lambda>r. tax_line r (rounded (base * tr_ratePpm r) 1000000 HalfEven)) rates)"
      by (rule mapR_total) (simp add: divideRounded_pos)
    with assms nonempty False exclusive show ?thesis by (simp add: taxFor_def)
  next
    case True
    show ?thesis
    proof (cases "sum_list (map tr_ratePpm rates) = 0")
      case zero_ppm: True
      with assms nonempty True zero show ?thesis by (simp add: taxFor_def sumOf_def foldl_plus_0 Let_def)
    next
      case False
      with assms nonempty True obtain tax parts where
        tax: "divideRounded (base * sum_list (map tr_ratePpm rates))
          (1000000 + sum_list (map tr_ratePpm rates)) HalfEven = Inr tax"
        and parts: "allocate \<lparr>m_amount = tax, m_currency = c\<rparr>
          (map (\<lambda>r. NumberV (Integral (tr_ratePpm r))) rates) = Inr parts"
        and ts: "ts = map (\<lambda>(i, r). tax_line r (at_or 0 (map m_amount parts) i)) (enumerate 0 rates)"
        by (auto simp: taxFor_def sumOf_def foldl_plus_0 Let_def bindR_eq_Inr money_Inr)
      have "length (map m_amount parts) = length rates"
        using allocate_length[OF parts] by simp
      with ts have "ts = map2 tax_line rates (map m_amount parts)"
        using map_enumerate_at_or[of "map m_amount parts" rates tax_line 0] by simp
      with nonempty True False tax parts inclusive show ?thesis by auto
    qed
  qed
qed

lemma qt_amount_tax_line [simp]: "qt_amount (tax_line r n) = n" "qt_rateId (tax_line r n) = tr_id r"
  by (simp_all add: tax_line_def)

lemma map_qt_amount_map2: "length ns = length rs \<Longrightarrow> map qt_amount (map2 tax_line rs ns) = ns"
  by (induction ns rs rule: list_induct2) auto

lemma taxFor_total:
  assumes "\<forall>r \<in> set rates. valid_tax r" "isKnownCurrency c"
  shows "\<exists>ts. taxFor base rates inclusive c = Inr ts"
proof (cases "base \<le> 0 \<or> rates = [] \<or> \<not> inclusive \<or> sum_list (map tr_ratePpm rates) = 0")
  case True
  then show ?thesis
    by (auto simp: taxFor_def sumOf_def foldl_plus_0 divideRounded_pos Let_def
        intro!: mapR_total)
next
  case False
  have "1000000 + sum_list (map tr_ratePpm rates) \<noteq> 0" using sum_ppm_nonneg[OF assms(1)] by simp
  then obtain tax where "divideRounded (base * sum_list (map tr_ratePpm rates))
      (1000000 + sum_list (map tr_ratePpm rates)) HalfEven = Inr tax"
    by (auto simp: divideRounded_eq)
  moreover obtain parts where "allocate \<lparr>m_amount = tax, m_currency = c\<rparr>
      (map (\<lambda>r. NumberV (Integral (tr_ratePpm r))) rates) = Inr parts"
    using allocate_ppm[OF assms(1) _ assms(2)] False by blast
  ultimately show ?thesis using False assms(2)
    by (simp add: taxFor_def sumOf_def foldl_plus_0 Let_def money_known)
qed

text \<open>The tax of inclusive prices is a part of the price.\<close>

lemma rounded_part:
  assumes "0 \<le> base" "0 \<le> p"
  shows "0 \<le> rounded (base * p) (1000000 + p) HalfEven" "rounded (base * p) (1000000 + p) HalfEven \<le> base"
  using assms by (auto intro!: rounded_nonneg rounded_le simp: distrib_left)

lemma taxFor_inclusive_sum:
  assumes "allocate \<lparr>m_amount = tax, m_currency = c\<rparr>
      (map (\<lambda>r. NumberV (Integral (tr_ratePpm r))) rates) = Inr parts"
    and "ts = map2 tax_line rates (map m_amount parts)"
  shows "map qt_amount ts = map m_amount parts" "sum_list (map qt_amount ts) = tax"
    "map qt_rateId ts = map tr_id rates"
proof -
  have len: "length (map m_amount parts) = length rates" using allocate_length[OF assms(1)] by simp
  show *: "map qt_amount ts = map m_amount parts"
    unfolding assms(2) by (rule map_qt_amount_map2[OF len])
  show "sum_list (map qt_amount ts) = tax" using allocate_sum[OF assms(1)] by (simp add: *)
  show "map qt_rateId ts = map tr_id rates" using len by (auto simp: assms(2) intro!: nth_equalityI)
qed

lemma taxFor_inclusive_tax:
  assumes "\<forall>r \<in> set rates. valid_tax r" "0 \<le> base"
    and "divideRounded (base * sum_list (map tr_ratePpm rates))
         (1000000 + sum_list (map tr_ratePpm rates)) HalfEven = Inr tax"
  shows "0 \<le> tax" "tax \<le> base"
    "\<bar>2 * (base * sum_list (map tr_ratePpm rates) - tax * (1000000 + sum_list (map tr_ratePpm rates)))\<bar>
       \<le> 1000000 + sum_list (map tr_ratePpm rates)"
proof -
  have p: "0 < 1000000 + sum_list (map tr_ratePpm rates)" using sum_ppm_nonneg[OF assms(1)] by simp
  then have tax: "tax = rounded (base * sum_list (map tr_ratePpm rates))
      (1000000 + sum_list (map tr_ratePpm rates)) HalfEven"
    using assms(3) by (simp add: divideRounded_pos)
  show "0 \<le> tax" "tax \<le> base"
    using rounded_part[OF assms(2) sum_ppm_nonneg[OF assms(1)]] by (simp_all add: tax)
  show "\<bar>2 * (base * sum_list (map tr_ratePpm rates) - tax * (1000000 + sum_list (map tr_ratePpm rates)))\<bar>
       \<le> 1000000 + sum_list (map tr_ratePpm rates)"
    unfolding tax by (rule rounded_half[OF p]) simp
qed

lemma taxFor_nonneg:
  assumes "taxFor base rates inclusive c = Inr ts" "\<forall>r \<in> set rates. valid_tax r"
  shows "\<forall>t \<in> set ts. 0 \<le> qt_amount t"
  using assms(1)
proof (cases rule: taxFor_cases)
  case exclusive
  then show ?thesis using assms(2) by (auto simp: valid_tax_def intro!: rounded_nonneg)
next
  case (inclusive tax parts)
  have "0 \<le> tax" using taxFor_inclusive_tax(1)[OF assms(2) _ inclusive(5)] inclusive(1) by simp
  then have "\<forall>n \<in> set (map qt_amount ts). 0 \<le> n"
    using allocate_ppm_nonneg[OF inclusive(6) assms(2)] taxFor_inclusive_sum(1)[OF inclusive(6,7)] by simp
  then show ?thesis by simp
qed auto

lemma taxFor_within:
  assumes "taxFor base rates True c = Inr ts" "\<forall>r \<in> set rates. valid_tax r" "0 \<le> base"
  shows "sum_list (map qt_amount ts) \<le> base"
  using assms(1)
proof (cases rule: taxFor_cases)
  case (inclusive tax parts)
  then show ?thesis
    using taxFor_inclusive_sum(2)[OF inclusive(6,7)] taxFor_inclusive_tax(2)[OF assms(2,3) inclusive(5)]
    by simp
qed (use assms(3) in \<open>auto simp: comp_def sum_list_0\<close>)

text \<open>The nearest integer to \<open>n / d\<close>, the even one of two.\<close>

definition half_even :: "int \<Rightarrow> int \<Rightarrow> int \<Rightarrow> bool" where
  "half_even n d q \<longleftrightarrow> \<bar>2 * (n - q * d)\<bar> \<le> d \<and> (\<bar>2 * (n - q * d)\<bar> = d \<longrightarrow> even q)"

lemma rounded_is_half_even: "0 < d \<Longrightarrow> half_even n d (rounded n d HalfEven)"
  using rounded_half [of d HalfEven n] rounded_half_even_tie [of d n] by (simp add: half_even_def)

text \<open>
  C36: the tax of an amount. With tax on top, the line of every applicable rate is the half-even rounding
  of its share of the amount: the nearest unit, and the even one when two are equally near. With tax
  included, the lines of the rates add up to one tax that is the half-even rounding of
  \<open>base * P / (10^6 + P)\<close> for the sum \<open>P\<close> of the rates: nothing is lost in splitting it over the
  rates, no line is negative, and the tax never exceeds the amount it is included in.
\<close>

theorem taxFor_rounding:
  assumes "taxFor base rates inclusive c = Inr ts" "\<forall>r \<in> set rates. valid_tax r" "0 < base" "rates \<noteq> []"
  shows "map qt_rateId ts = map tr_id rates \<and> (\<forall>t \<in> set ts. 0 \<le> qt_amount t) \<and>
    (if inclusive
     then half_even (base * sum_list (map tr_ratePpm rates)) (1000000 + sum_list (map tr_ratePpm rates))
            (sum_list (map qt_amount ts))
        \<and> sum_list (map qt_amount ts) \<le> base
     else \<forall>i < length rates. half_even (base * tr_ratePpm (rates ! i)) 1000000 (qt_amount (ts ! i)))"
  using assms(1)
proof (cases rule: taxFor_cases)
  case none
  with assms(3,4) show ?thesis by simp
next
  case exclusive
  then show ?thesis using taxFor_nonneg[OF assms(1,2)] rounded_is_half_even [of 1000000] by (simp add: comp_def)
next
  case zero
  then show ?thesis using assms(3) by (simp add: comp_def sum_list_0 half_even_def)
next
  case (inclusive tax parts)
  have "0 < 1000000 + sum_list (map tr_ratePpm rates)" using sum_ppm_nonneg[OF assms(2)] by simp
  then have "half_even (base * sum_list (map tr_ratePpm rates)) (1000000 + sum_list (map tr_ratePpm rates)) tax"
    using inclusive(5) by (auto simp: divideRounded_pos intro!: rounded_is_half_even)
  then show ?thesis
    using inclusive taxFor_inclusive_sum[OF inclusive(6,7)] taxFor_nonneg[OF assms(1,2)] assms(3)
      taxFor_inclusive_tax[OF assms(2) _ inclusive(5)]
    by simp
qed

theorem taxFor_rounding_witness:
  "taxFor 1000 [\<lparr>tr_id = 1, tr_name = ''CGST'', tr_countryCode = ''IN'', tr_regionCode = None, tr_ratePpm = 90000\<rparr>,
      \<lparr>tr_id = 2, tr_name = ''SGST'', tr_countryCode = ''IN'', tr_regionCode = None, tr_ratePpm = 90000\<rparr>]
     True ''INR'' = Inr [\<lparr>qt_rateId = 1, qt_name = ''CGST'', qt_ratePpm = 90000, qt_amount = 77\<rparr>,
       \<lparr>qt_rateId = 2, qt_name = ''SGST'', qt_ratePpm = 90000, qt_amount = 76\<rparr>] \<and>
   (77::int) + 76 \<le> 1000"
proof -
  let ?r = "[\<lparr>tr_id = 1, tr_name = ''CGST'', tr_countryCode = ''IN'', tr_regionCode = None, tr_ratePpm = 90000\<rparr>,
      \<lparr>tr_id = 2, tr_name = ''SGST'', tr_countryCode = ''IN'', tr_regionCode = None, tr_ratePpm = 90000\<rparr>]"
  have t: "taxFor 1000 ?r True ''INR'' = Inr [\<lparr>qt_rateId = 1, qt_name = ''CGST'', qt_ratePpm = 90000, qt_amount = 77\<rparr>,
       \<lparr>qt_rateId = 2, qt_name = ''SGST'', qt_ratePpm = 90000, qt_amount = 76\<rparr>]"
    by code_simp
  with taxFor_rounding[OF t] show ?thesis by (simp add: valid_tax_def half_even_def)
qed


subsection \<open>The discount\<close>

lemma evaluateDiscount_cases:
  assumes "evaluateDiscount input subtotal = Inr (amount, problem)"
  obtains (no_code) "no_text (pi_discountCode input)" "amount = 0" "problem = None"
  | (refused) p where "\<not> no_text (pi_discountCode input)" "amount = 0" "problem = Some p"
  | (taken) d raw where "\<not> no_text (pi_discountCode input)" "pi_discount input = Some d"
      "pd_active d" "pd_startsAt d \<le> pi_now input" "amount = min raw subtotal" "problem = None"
      "(pd_type d = PERCENTAGE \<and> raw = rounded (subtotal * (case pd_percentageBps d of None \<Rightarrow> 0 | Some b \<Rightarrow> b)) 10000 HalfUp)
        \<or> (pd_type d = FIXED_AMOUNT \<and> pd_currency d = Some (pi_currency input) \<and>
           raw = (case pd_amount d of None \<Rightarrow> 0 | Some n \<Rightarrow> n))"
      "\<forall>e. pd_endsAt d = Some e \<longrightarrow> pi_now input < e"
      "\<forall>n. pd_usageLimit d = Some n \<longrightarrow> pd_usedByOthers d < n"
      "\<forall>n. pd_minSubtotal d = Some n \<longrightarrow> n \<le> subtotal"
proof (cases "no_text (pi_discountCode input)")
  case True
  with assms no_code show ?thesis by (simp add: evaluateDiscount_def)
next
  case code: False
  show ?thesis
  proof (cases problem)
    case (Some p)
    with code assms have "amount = 0"
      by (auto simp: evaluateDiscount_def result_simps split: option.splits if_splits discount_type.splits)
    with code Some refused show ?thesis by blast
  next
    case None
    then obtain d where d: "pi_discount input = Some d"
      using code assms by (auto simp: evaluateDiscount_def split: option.splits)
    let ?raw = "case pd_type d of
        PERCENTAGE \<Rightarrow> rounded (subtotal * (case pd_percentageBps d of None \<Rightarrow> 0 | Some b \<Rightarrow> b)) 10000 HalfUp
      | FIXED_AMOUNT \<Rightarrow> (case pd_amount d of None \<Rightarrow> 0 | Some n \<Rightarrow> n)"
    have raw: "(case pd_type d of
          PERCENTAGE \<Rightarrow> divideRounded (subtotal * (case pd_percentageBps d of None \<Rightarrow> 0 | Some b \<Rightarrow> b)) 10000 HalfUp
        | FIXED_AMOUNT \<Rightarrow> Inr (case pd_amount d of None \<Rightarrow> 0 | Some n \<Rightarrow> n)) = Inr ?raw"
      by (simp add: divideRounded_pos split: discount_type.splits)
    show ?thesis
    proof (rule taken[OF code d])
      show "amount = min ?raw subtotal"
        using assms code None unfolding evaluateDiscount_def d option.case raw
        by (auto split: if_split_asm)
    qed (use assms code None in \<open>unfold evaluateDiscount_def d option.case raw,
        (auto split: if_split_asm option.splits discount_type.splits)\<close>)
  qed
qed

lemma evaluateDiscount_total: "\<exists>a p. evaluateDiscount input subtotal = Inr (a, p)"
  by (auto simp: evaluateDiscount_def divideRounded_pos split: option.splits discount_type.splits)

lemma evaluateDiscount_bounds:
  assumes "evaluateDiscount input subtotal = Inr (amount, problem)" "0 \<le> subtotal"
    and "case pi_discount input of None \<Rightarrow> True | Some d \<Rightarrow> valid_discount d"
  shows "0 \<le> amount \<and> amount \<le> subtotal"
  using assms(1)
proof (cases rule: evaluateDiscount_cases)
  case (taken d raw)
  have "0 \<le> raw"
    using taken(7) assms(2,3) taken(2)
    by (auto simp: valid_discount_def split: option.splits intro!: rounded_nonneg)
  with taken assms(2) show ?thesis by simp
qed (use assms(2) in auto)

text \<open>
  C33: when a discount is taken. \<open>evaluateDiscount\<close> never fails; it gives an amount other
  than zero only for an entered code whose discount is active, has started, has not ended,
  is not used up and reaches its minimum, in the quote's currency when it is a fixed amount,
  and then no problem is reported; and the amount is never negative and never more than the
  subtotal.
\<close>

theorem evaluateDiscount_sound:
  assumes "0 \<le> subtotal" "case pi_discount input of None \<Rightarrow> True | Some d \<Rightarrow> valid_discount d"
  shows "\<exists>amount problem. evaluateDiscount input subtotal = Inr (amount, problem) \<and>
    0 \<le> amount \<and> amount \<le> subtotal \<and> (problem \<noteq> None \<longrightarrow> amount = 0) \<and>
    (amount \<noteq> 0 \<longrightarrow> \<not> no_text (pi_discountCode input) \<and>
      (\<exists>d. pi_discount input = Some d \<and> pd_active d \<and> pd_startsAt d \<le> pi_now input \<and>
         (\<forall>e. pd_endsAt d = Some e \<longrightarrow> pi_now input < e) \<and>
         (\<forall>n. pd_usageLimit d = Some n \<longrightarrow> pd_usedByOthers d < n) \<and>
         (\<forall>n. pd_minSubtotal d = Some n \<longrightarrow> n \<le> subtotal) \<and>
         (pd_type d = FIXED_AMOUNT \<longrightarrow> pd_currency d = Some (pi_currency input))))"
proof -
  obtain amount problem where e: "evaluateDiscount input subtotal = Inr (amount, problem)"
    using evaluateDiscount_total by blast
  note b = evaluateDiscount_bounds[OF e assms]
  show ?thesis
    using e
  proof (cases rule: evaluateDiscount_cases)
    case (taken d raw)
    then show ?thesis using e b by (intro exI[of _ amount] exI[of _ problem]) auto
  qed (use e b in auto)
qed

theorem evaluateDiscount_sound_witness:
  "\<exists>amount problem. evaluateDiscount
     \<lparr>pi_currency = ''USD'', pi_lines = [], pi_email = None, pi_address = None, pi_shippingRates = [],
      pi_selectedRateId = None, pi_pricesIncludeTax = False, pi_chargeTaxOnShipping = False,
      pi_taxRates = [], pi_discountCode = Some ''TEN'', pi_discount = Some
        \<lparr>pd_id = 1, pd_codeId = 2, pd_code = ''TEN'', pd_title = ''Ten off'', pd_type = PERCENTAGE,
         pd_percentageBps = Some 1000, pd_amount = None, pd_currency = None, pd_minSubtotal = Some 500,
         pd_startsAt = 0, pd_endsAt = None, pd_active = True, pd_usageLimit = Some 3, pd_usedByOthers = 2\<rparr>,
      pi_now = 10\<rparr> 1005 = Inr (amount, problem) \<and> 0 \<le> amount \<and> amount \<le> 1005 \<and> amount = 101"
proof -
  let ?i = "\<lparr>pi_currency = ''USD'', pi_lines = [], pi_email = None, pi_address = None, pi_shippingRates = [],
      pi_selectedRateId = None, pi_pricesIncludeTax = False, pi_chargeTaxOnShipping = False,
      pi_taxRates = [], pi_discountCode = Some ''TEN'', pi_discount = Some
        \<lparr>pd_id = 1, pd_codeId = 2, pd_code = ''TEN'', pd_title = ''Ten off'', pd_type = PERCENTAGE,
         pd_percentageBps = Some 1000, pd_amount = None, pd_currency = None, pd_minSubtotal = Some 500,
         pd_startsAt = 0, pd_endsAt = None, pd_active = True, pd_usageLimit = Some 3, pd_usedByOthers = 2\<rparr>,
      pi_now = 10\<rparr>"
  have "evaluateDiscount ?i 1005 = Inr (101, None)"
    by (simp add: evaluateDiscount_def no_text_def divideRounded_pos rounded_def round_qm_def)
  then show ?thesis using evaluateDiscount_sound[of 1005 ?i] by (auto simp: valid_discount_def)
qed

text \<open>The split of the discount over the lines.\<close>

lemma subtotals_nonneg:
  "\<forall>l \<in> set ls. valid_line l \<Longrightarrow> \<forall>w \<in> set (map line_subtotal ls). 0 \<le> w"
  by (auto simp: valid_line_def line_subtotal_def)

lemma subtotals_sum_nonneg: "\<forall>l \<in> set ls. valid_line l \<Longrightarrow> 0 \<le> sum_list (map line_subtotal ls)"
  using sum_list_nonneg_int[OF subtotals_nonneg] .

lemma line_discounts_props:
  assumes "line_discounts c ls amount = Inr ds" "0 \<le> amount" "amount \<le> sum_list (map line_subtotal ls)"
    and "\<forall>l \<in> set ls. valid_line l"
  shows "length ds = length ls" "sum_list ds = amount"
    "i < length ls \<Longrightarrow> 0 \<le> ds ! i \<and> ds ! i \<le> line_subtotal (ls ! i)"
proof -
  let ?ws = "map line_subtotal ls"
  have "length ds = length ls \<and> sum_list ds = amount \<and>
    (\<forall>i < length ls. 0 \<le> ds ! i \<and> ds ! i \<le> line_subtotal (ls ! i))"
  proof (cases "0 < amount \<and> 0 < sum_list ?ws")
    case True
    with assms(1) obtain parts where p: "allocate \<lparr>m_amount = amount, m_currency = c\<rparr> (map BigIntV ?ws) = Inr parts"
      and ds: "ds = map m_amount parts"
      by (auto simp: line_discounts_def sumOf_def foldl_plus_0 Let_def bindR_eq_Inr money_Inr)
    show ?thesis
      using allocate_length[OF p] allocate_sum[OF p] allocate_bounds[OF p] assms(2,3)
      by (simp add: ds)
  next
    case False
    then have "amount = 0" using assms(2,3) by auto
    moreover have "ds = map (\<lambda>_. 0) ls"
      using assms(1) False by (auto simp: line_discounts_def sumOf_def foldl_plus_0 Let_def split: if_splits)
    ultimately show ?thesis using subtotals_nonneg[OF assms(4)] by (simp add: comp_def sum_list_0)
  qed
  then show "length ds = length ls" "sum_list ds = amount"
    "i < length ls \<Longrightarrow> 0 \<le> ds ! i \<and> ds ! i \<le> line_subtotal (ls ! i)" by auto
qed

lemma line_discounts_total:
  assumes "isKnownCurrency c" "\<forall>l \<in> set ls. valid_line l"
  shows "\<exists>ds. line_discounts c ls amount = Inr ds"
proof (cases "0 < amount \<and> 0 < sum_list (map line_subtotal ls)")
  case True
  then have "map line_subtotal ls \<noteq> []" by auto
  moreover have "mapR toBigInt (map BigIntV (map line_subtotal ls)) = Inr (map line_subtotal ls)"
    using mapR_toBigInt_map[of line_subtotal ls] by (simp add: comp_def)
  ultimately have "\<exists>ms. allocate \<lparr>m_amount = amount, m_currency = c\<rparr> (map BigIntV (map line_subtotal ls)) = Inr ms"
    using True assms(1) subtotals_nonneg[OF assms(2)] unfolding allocate_Inr by auto
  with True assms(1) show ?thesis
    by (auto simp: line_discounts_def sumOf_def foldl_plus_0 Let_def money_known)
next
  case False
  then show ?thesis by (auto simp: line_discounts_def sumOf_def foldl_plus_0 Let_def)
qed


subsection \<open>The quote\<close>

definition priced :: "pricing_input \<Rightarrow> pricing_line list" where
  "priced input = filter (is_priced (pi_currency input)) (pi_lines input)"

definition merchandise_of :: "pricing_input \<Rightarrow> int" where
  "merchandise_of input = sum_list (map line_subtotal (priced input))"

abbreviation chosen_option ::
  "(string \<Rightarrow> string \<Rightarrow> int) \<Rightarrow> pricing_input \<Rightarrow> int \<Rightarrow> quote_option option" where
  "chosen_option lc input amount \<equiv>
     (if list_ex pl_requiresShipping (priced input)
      then find (\<lambda>opt. Some (qo_rateId opt) = pi_selectedRateId input)
        (shipping_options lc input (list_ex pl_requiresShipping (priced input)) (merchandise_of input - amount))
      else None)"

text \<open>The steps of a priced checkout, named once for every proof about the quote.\<close>

lemma priceCheckout_steps:
  assumes "priceCheckout lc input = Inr q"
  obtains amount problem ds chosen ship where
    "evaluateDiscount input (merchandise_of input) = Inr (amount, problem)"
    "line_discounts (pi_currency input) (priced input) amount = Inr ds"
    "mapR (\<lambda>(i, l). price_line (pi_pricesIncludeTax input)
        (applicableTaxRates (pi_taxRates input) (pi_address input)) (pi_currency input) l (at_or 0 ds i))
      (enumerate 0 (priced input)) = Inr (q_lines q)"
    "chosen = chosen_option lc input amount"
    "(if chosen \<noteq> None \<and> pi_chargeTaxOnShipping input
      then taxFor (q_shippingTotal q) (applicableTaxRates (pi_taxRates input) (pi_address input))
        (pi_pricesIncludeTax input) (pi_currency input) else Inr []) = Inr ship"
    "q_shippingTotal q = (case chosen of None \<Rightarrow> 0 | Some opt \<Rightarrow> qo_amount opt)"
    "q_subtotal q = merchandise_of input" "q_discountTotal q = amount" "q_discountProblem q = problem"
    "q_taxTotal q = sum_list (map ql_tax (q_lines q)) + sum_list (map qt_amount ship)"
    "q_total q = q_subtotal q - q_discountTotal q + q_shippingTotal q
       + (if q_pricesIncludeTax q then 0 else q_taxTotal q)"
    "q_pricesIncludeTax q = pi_pricesIncludeTax input" "q_currency q = pi_currency input"
    "q_taxLines q = aggregate_tax (concat (map ql_taxLines (q_lines q)) @ ship)"
    "q_unavailable q = map (unavailable_line (pi_currency input))
       (filter (\<lambda>l. \<not> is_priced (pi_currency input) l) (pi_lines input))"
    "q_requiresShipping q = list_ex pl_requiresShipping (priced input)"
    "q_shippingOptions q = shipping_options lc input (q_requiresShipping q) (merchandise_of input - amount)"
    "q_shipping q = map_option (\<lambda>opt. \<lparr>qs_rateId = qo_rateId opt, qs_name = qo_name opt,
       qs_amount = qo_amount opt, qs_tax = sum_list (map qt_amount ship), qs_taxLines = ship\<rparr>) chosen"
    "q_problems q = checkout_problems input (q_unavailable q) (q_requiresShipping q)
       (q_shippingOptions q) chosen problem (q_total q)"
  using assms[unfolded priceCheckout_def Let_def bindR_eq_Inr sumOf_def foldl_plus_0
      split_paired_Ex case_prod_conv sum.inject, folded priced_def, folded merchandise_of_def]
  apply (elim exE conjE)
  apply hypsubst
  apply (rule that)
                      apply assumption
                     apply assumption
                    apply (simp only: price_quote.select_convs)
                   apply (rule refl)
                  apply (simp only: price_quote.select_convs)
                 apply (simp_all only: price_quote.select_convs)
  done

text \<open>The lines of the quote, one by one.\<close>

lemma priced_line:
  assumes "mapR (\<lambda>(i, l). price_line inclusive rates c l (at_or 0 ds i)) (enumerate 0 ls) = Inr lines"
    and "length ds = length ls"
  shows "length lines = length ls"
    "i < length ls \<Longrightarrow> price_line inclusive rates c (ls ! i) (ds ! i) = Inr (lines ! i)"
proof -
  show len: "length lines = length ls" using mapR_length[OF assms(1)] by simp
  assume "i < length ls"
  then show "price_line inclusive rates c (ls ! i) (ds ! i) = Inr (lines ! i)"
    using mapR_nth[OF assms(1), of i] assms(2) by (simp add: nth_enumerate_eq at_or_def)
qed

lemma price_line_Inr:
  assumes "price_line inclusive rates c l d = Inr ql"
  shows "ql_subtotal ql = line_subtotal l" "ql_discount ql = d" "ql_quantity ql = pl_quantity l"
    "ql_unitPrice ql = pl_unitPrice l" "ql_variantId ql = pl_variantId l"
    "ql_tax ql = sum_list (map qt_amount (ql_taxLines ql))"
    "ql_total ql = line_subtotal l - d + (if inclusive then 0 else ql_tax ql)"
    "(if pl_taxable l then taxFor (line_subtotal l - d) rates inclusive c else Inr []) = Inr (ql_taxLines ql)"
  using assms by (auto simp: price_line_def Let_def bindR_eq_Inr sumOf_def foldl_plus_0 split: if_splits)

text \<open>The tax lines, added up per rate.\<close>

abbreviation rate_amount :: "nat \<Rightarrow> quote_tax_line list \<Rightarrow> int" where
  "rate_amount r ts \<equiv> sum_list (map qt_amount (filter (\<lambda>t. qt_rateId t = r) ts))"

definition tax_step :: "(nat \<times> quote_tax_line) list \<Rightarrow> quote_tax_line \<Rightarrow> (nat \<times> quote_tax_line) list" where
  "tax_step byRate t = AList.update (qt_rateId t)
     (t\<lparr>qt_amount := (case map_of byRate (qt_rateId t) of None \<Rightarrow> 0 | Some prior \<Rightarrow> qt_amount prior)
        + qt_amount t\<rparr>) byRate"

lemma aggregate_tax_steps: "aggregate_tax ts = map snd (foldl tax_step [] ts)"
  by (simp add: aggregate_tax_def tax_step_def[abs_def])

lemma tax_step_amount:
  "case_option 0 qt_amount (map_of (tax_step A t) r) =
   case_option 0 qt_amount (map_of A r) + (if qt_rateId t = r then qt_amount t else 0)"
  by (simp add: tax_step_def map_of_update split: option.splits)

lemma in_set_updateD: "p \<in> set (AList.update k v A) \<Longrightarrow> p = (k, v) \<or> p \<in> set A"
  by (induction A) (auto split: if_splits)

lemma tax_steps_keys:
  "distinct (map fst (foldl tax_step [] ts)) \<and> (\<forall>(k, v) \<in> set (foldl tax_step [] ts). qt_rateId v = k) \<and>
   fst ` set (foldl tax_step [] ts) = qt_rateId ` set ts"
proof (induction ts rule: rev_induct)
  case (snoc t ts)
  then show ?case
    by (auto simp: tax_step_def distinct_update dom_update dest!: in_set_updateD)
qed simp

lemma tax_steps_amount:
  "case_option 0 qt_amount (map_of (foldl tax_step [] ts) r) = rate_amount r ts"
  by (induction ts rule: rev_induct) (simp_all add: tax_step_amount)

lemma aggregate_tax_rates:
  "distinct (map qt_rateId (aggregate_tax ts)) \<and> qt_rateId ` set (aggregate_tax ts) = qt_rateId ` set ts"
proof -
  let ?A = "foldl tax_step [] ts"
  have "map qt_rateId (map snd ?A) = map fst ?A"
    using tax_steps_keys[of ts] by auto
  then show ?thesis using tax_steps_keys[of ts] unfolding aggregate_tax_steps
    by (metis list.set_map)
qed

lemma aggregate_tax_amount:
  assumes "t \<in> set (aggregate_tax ts)"
  shows "qt_amount t = rate_amount (qt_rateId t) ts"
proof -
  from assms obtain k where k: "(k, t) \<in> set (foldl tax_step [] ts)"
    unfolding aggregate_tax_steps by auto
  then have "map_of (foldl tax_step [] ts) k = Some t" "qt_rateId t = k"
    using tax_steps_keys[of ts] by (auto intro: map_of_is_SomeI)
  then show ?thesis using tax_steps_amount[of ts k] by simp
qed

lemma sum_update:
  "distinct (map fst A) \<Longrightarrow> sum_list (map (\<lambda>p. f (snd p)) (AList.update k v A)) =
   sum_list (map (\<lambda>p. f (snd p)) A) + f v - (case map_of A k of None \<Rightarrow> 0 | Some w \<Rightarrow> (f w :: int))"
  by (induction A) (auto split: option.splits simp: map_of_eq_None_iff[symmetric] dest: map_of_SomeD)

lemma aggregate_tax_sum: "sum_list (map qt_amount (aggregate_tax ts)) = sum_list (map qt_amount ts)"
  unfolding aggregate_tax_steps
proof (induction ts rule: rev_induct)
  case (snoc t ts)
  let ?A = "foldl tax_step [] ts"
  have "sum_list (map qt_amount (map snd (tax_step ?A t))) = sum_list (map qt_amount (map snd ?A)) + qt_amount t"
    using sum_update[of ?A qt_amount "qt_rateId t"] tax_steps_keys[of ts]
    by (simp add: tax_step_def comp_def split: option.splits)
  with snoc show ?case by simp
qed simp

text \<open>The facts of a valid snapshot that every property below uses.\<close>

lemma valid_priced: "valid_input input \<Longrightarrow> \<forall>l \<in> set (priced input). valid_line l"
  by (auto simp: valid_input_def priced_def)

lemma valid_rates:
  "valid_input input \<Longrightarrow> \<forall>r \<in> set (applicableTaxRates (pi_taxRates input) (pi_address input)). valid_tax r"
  by (rule applicable_valid) (simp add: valid_input_def)

lemma shipping_options_nonneg:
  "valid_input input \<Longrightarrow> \<forall>opt \<in> set (shipping_options lc input b m). 0 \<le> qo_amount opt"
  by (auto simp: shipping_options_def valid_input_def split: option.splits)

lemma chosen_in_options:
  "chosen_option lc input amount = Some opt \<Longrightarrow>
   opt \<in> set (shipping_options lc input (list_ex pl_requiresShipping (priced input)) (merchandise_of input - amount)) \<and>
   Some (qo_rateId opt) = pi_selectedRateId input \<and> list_ex pl_requiresShipping (priced input)"
  by (simp only: option.distinct split: if_split_asm) (auto dest: find_Some_iff2)

text \<open>Every line of a quote: its amounts, within its subtotal.\<close>

definition line_ok :: "bool \<Rightarrow> quote_line \<Rightarrow> bool" where
  "line_ok inclusive l \<longleftrightarrow> ql_subtotal l = ql_unitPrice l * ql_quantity l \<and>
     0 \<le> ql_unitPrice l \<and> 0 \<le> ql_discount l \<and> ql_discount l \<le> ql_unitPrice l * ql_quantity l \<and>
     0 \<le> ql_tax l \<and> ql_tax l = sum_list (map qt_amount (ql_taxLines l)) \<and>
     ql_total l = ql_subtotal l - ql_discount l + (if inclusive then 0 else ql_tax l)"

lemma price_line_ok:
  assumes "price_line inclusive rates c l d = Inr ql" "valid_line l"
    and "0 \<le> d" "d \<le> line_subtotal l" "\<forall>r \<in> set rates. valid_tax r"
  shows "line_ok inclusive ql"
proof -
  have "\<forall>t \<in> set (ql_taxLines ql). 0 \<le> qt_amount t"
    using price_line_Inr(8)[OF assms(1)] taxFor_nonneg[OF _ assms(5)] by (auto split: if_splits)
  then have "0 \<le> sum_list (map qt_amount (ql_taxLines ql))" by (intro sum_list_map_nonneg) simp
  then show ?thesis using price_line_Inr[OF assms(1)] assms(2-4)
    by (simp add: line_ok_def valid_line_def line_subtotal_def)
qed

lemma quote_lines_all:
  assumes "priceCheckout lc input = Inr q" "valid_input input"
  shows "length (q_lines q) = length (priced input) \<and>
    (\<forall>l \<in> set (q_lines q). line_ok (pi_pricesIncludeTax input) l) \<and>
    map ql_subtotal (q_lines q) = map line_subtotal (priced input) \<and>
    sum_list (map ql_discount (q_lines q)) = q_discountTotal q \<and>
    0 \<le> q_discountTotal q \<and> q_discountTotal q \<le> q_subtotal q \<and>
    (\<forall>i < length (priced input). ql_variantId (q_lines q ! i) = pl_variantId (priced input ! i) \<and>
       ql_quantity (q_lines q ! i) = pl_quantity (priced input ! i) \<and>
       ql_unitPrice (q_lines q ! i) = pl_unitPrice (priced input ! i))"
  using assms(1)
proof (cases rule: priceCheckout_steps)
  case (1 amount problem ds chosen ship)
  have vl: "\<forall>l \<in> set (priced input). valid_line l" by (rule valid_priced[OF assms(2)])
  have sub: "0 \<le> merchandise_of input"
    unfolding merchandise_of_def by (rule subtotals_sum_nonneg[OF vl])
  have am: "0 \<le> amount" "amount \<le> merchandise_of input"
    using evaluateDiscount_bounds[OF 1(1) sub] assms(2) by (auto simp: valid_input_def)
  note ds = line_discounts_props[OF 1(2) am[unfolded merchandise_of_def] vl]
  note ln = priced_line[OF 1(3) ds(1)]
  have "map ql_subtotal (q_lines q) = map line_subtotal (priced input)" "map ql_discount (q_lines q) = ds"
    by (rule nth_equalityI; use ln(1) ds(1) price_line_Inr(1,2)[OF ln(2)] in simp)+
  moreover have "line_ok (pi_pricesIncludeTax input) (q_lines q ! i)" if "i < length (priced input)" for i
    using price_line_ok[OF ln(2)[OF that] _ _ _ valid_rates[OF assms(2)]] ds(3)[OF that] vl that by simp
  ultimately show ?thesis
    using ds(2) 1(7,8) am ln(1) price_line_Inr(3-5)[OF ln(2)] by (auto simp: in_set_conv_nth)
qed

lemma quote_lines:
  assumes "priceCheckout lc input = Inr q" "valid_input input"
  shows "\<forall>l \<in> set (q_lines q). line_ok (pi_pricesIncludeTax input) l"
    "map ql_subtotal (q_lines q) = map line_subtotal (priced input)"
    "sum_list (map ql_discount (q_lines q)) = q_discountTotal q"
    "0 \<le> q_discountTotal q" "q_discountTotal q \<le> q_subtotal q"
  using quote_lines_all[OF assms] by blast+

lemma quote_line_taxes:
  assumes "mapR (\<lambda>(i, l). price_line inc rates c l (at_or 0 ds i)) (enumerate 0 ls) = Inr lines"
    and "\<forall>r \<in> set rates. valid_tax r" "l \<in> set lines"
  shows "\<forall>t \<in> set (ql_taxLines l). 0 \<le> qt_amount t"
proof -
  from assms(1,3) obtain i k where "price_line inc rates c k (at_or 0 ds i) = Inr l"
    by (auto simp: mapR_Inr_iff list_all2_conv_all_nth in_set_conv_nth nth_enumerate_eq)
  from price_line_Inr(8)[OF this] show ?thesis
    using taxFor_nonneg[OF _ assms(2)] by (auto split: if_splits)
qed

lemma quote_shipping:
  assumes "priceCheckout lc input = Inr q" "valid_input input"
  shows "0 \<le> q_shippingTotal q \<and> 0 \<le> q_taxTotal q \<and> sum_list (map ql_tax (q_lines q)) \<le> q_taxTotal q \<and>
    sum_list (map qt_amount (q_taxLines q)) = q_taxTotal q"
  using assms(1)
proof (cases rule: priceCheckout_steps)
  case (1 amount problem ds chosen ship)
  have ok: "\<forall>l \<in> set (q_lines q). 0 \<le> ql_tax l" "\<forall>l \<in> set (q_lines q). ql_tax l = sum_list (map qt_amount (ql_taxLines l))"
    using quote_lines(1)[OF assms] by (auto simp: line_ok_def)
  have "0 \<le> q_shippingTotal q"
    using chosen_in_options[of input lc amount] shipping_options_nonneg[OF assms(2)]
    unfolding 1(6) 1(4)[symmetric] by (cases chosen) auto
  moreover have "\<forall>t \<in> set ship. 0 \<le> qt_amount t"
    using 1(5) taxFor_nonneg[OF _ valid_rates[OF assms(2)]] by (auto split: if_splits)
  then have "0 \<le> sum_list (map qt_amount ship)" by (intro sum_list_map_nonneg) simp
  moreover have "0 \<le> sum_list (map ql_tax (q_lines q))" using ok(1) by (intro sum_list_map_nonneg) simp
  moreover have "sum_list (map qt_amount (concat (map ql_taxLines ls))) = sum_list (map ql_tax ls)"
    if "\<forall>l \<in> set ls. ql_tax l = sum_list (map qt_amount (ql_taxLines l))" for ls
    using that by (induction ls) simp_all
  ultimately show ?thesis using ok(2) by (simp add: 1(10,14) aggregate_tax_sum)
qed


subsection \<open>A concrete checkout\<close>

text \<open>Two lines, ten percent off, one tax rate on top and one shipping rate.\<close>

definition sample_checkout :: pricing_input where
  "sample_checkout =
     \<lparr>pi_currency = ''USD'',
      pi_lines = [
        \<lparr>pl_variantId = 1, pl_productId = 1, pl_productTitle = ''Mug'', pl_variantTitle = ''Blue'', pl_sku = None,
         pl_unitPrice = 1250, pl_currency = ''USD'', pl_quantity = 2, pl_taxable = True,
         pl_requiresShipping = True, pl_weightGrams = None, pl_sellable = True, pl_inStock = True,
         pl_stockLimit = None\<rparr>,
        \<lparr>pl_variantId = 2, pl_productId = 2, pl_productTitle = ''Card'', pl_variantTitle = ''Red'', pl_sku = None,
         pl_unitPrice = 333, pl_currency = ''USD'', pl_quantity = 1, pl_taxable = False,
         pl_requiresShipping = False, pl_weightGrams = None, pl_sellable = True, pl_inStock = True,
         pl_stockLimit = None\<rparr>],
      pi_email = Some ''a@b.c'',
      pi_address = Some \<lparr>ca_firstName = ''A'', ca_lastName = ''B'', ca_company = None, ca_line1 = ''1 St'',
        ca_line2 = None, ca_city = ''C'', ca_region = None, ca_regionCode = Some ''NY'',
        ca_postalCode = None, ca_countryCode = ''US'', ca_phone = None\<rparr>,
      pi_shippingRates = [\<lparr>sr_id = 9, sr_name = ''Post'', sr_type = FLAT, sr_amount = 500, sr_currency = ''USD'',
        sr_minSubtotal = None, sr_maxSubtotal = None,
        sr_countries = [\<lparr>zc_countryCode = ''US'', zc_regionCodes = []\<rparr>]\<rparr>],
      pi_selectedRateId = Some 9, pi_pricesIncludeTax = False, pi_chargeTaxOnShipping = True,
      pi_taxRates = [\<lparr>tr_id = 4, tr_name = ''State'', tr_countryCode = ''US'', tr_regionCode = Some ''NY'',
        tr_ratePpm = 88750\<rparr>],
      pi_discountCode = Some ''TEN'',
      pi_discount = Some
        \<lparr>pd_id = 1, pd_codeId = 2, pd_code = ''TEN'', pd_title = ''Ten off'', pd_type = PERCENTAGE,
         pd_percentageBps = Some 1000, pd_amount = None, pd_currency = None, pd_minSubtotal = Some 500,
         pd_startsAt = 0, pd_endsAt = None, pd_active = True, pd_usageLimit = Some 3, pd_usedByOthers = 2\<rparr>,
      pi_now = 10\<rparr>"

lemma sample_valid: "valid_input sample_checkout"
  by code_simp

definition sample_quote :: price_quote where
  "sample_quote = (case priceCheckout (\<lambda>_ _. 0) sample_checkout of Inr q \<Rightarrow> q | Inl _ \<Rightarrow> undefined)"

lemma sample_priced:
  "priceCheckout (\<lambda>_ _. 0) sample_checkout = Inr sample_quote"
  "q_total sample_quote = 3294" "q_subtotal sample_quote = 2833" "q_discountTotal sample_quote = 283"
  "q_taxTotal sample_quote = 244" "q_problems sample_quote = []" "q_requiresShipping sample_quote"
  by code_simp+

subsection \<open>What the quote guarantees\<close>

text \<open>
  C23: every valid snapshot has a price. With a known currency and amounts in the ranges the
  database enforces, \<open>priceCheckout\<close> never raises a money error, whatever the address,
  discount code and selected rate are.
\<close>

theorem priceCheckout_total:
  assumes "valid_input input"
  shows "\<exists>q. priceCheckout lc input = Inr q"
proof -
  let ?rates = "applicableTaxRates (pi_taxRates input) (pi_address input)"
  have known: "isKnownCurrency (pi_currency input)" using assms by (simp add: valid_input_def)
  note tax = taxFor_total[OF valid_rates[OF assms] known]
  obtain a p where e: "evaluateDiscount input (merchandise_of input) = Inr (a, p)"
    using evaluateDiscount_total by blast
  obtain ds where ds: "line_discounts (pi_currency input) (priced input) a = Inr ds"
    using line_discounts_total[OF known valid_priced[OF assms]] by blast
  have "\<exists>ql. price_line inc ?rates (pi_currency input) l d = Inr ql" for inc l d
    using tax by (auto simp: price_line_def Let_def bindR_eq_Inr split: if_splits)
  then have "\<exists>lines. mapR (\<lambda>(i, l). price_line (pi_pricesIncludeTax input) ?rates (pi_currency input) l (at_or 0 ds i))
      (enumerate 0 (priced input)) = Inr lines"
    by (intro mapR_exists) (simp add: case_prod_beta)
  then obtain lines where lines: "mapR (\<lambda>(i, l). price_line (pi_pricesIncludeTax input) ?rates (pi_currency input) l (at_or 0 ds i))
      (enumerate 0 (priced input)) = Inr lines" by blast
  have ship: "\<exists>ts. (if b then taxFor n ?rates (pi_pricesIncludeTax input) (pi_currency input) else Inr []) = Inr ts" for b n
    using tax by simp
  show ?thesis
    using e ds lines ship unfolding priced_def merchandise_of_def
    by (simp add: priceCheckout_def Let_def bindR_eq_Inr sumOf_def foldl_plus_0)
qed

theorem priceCheckout_total_witness:
  "\<exists>q. priceCheckout (\<lambda>_ _. 0) sample_checkout = Inr q"
  by (rule priceCheckout_total[OF sample_valid])

text \<open>
  C8: the quote adds up. Its subtotal, discount and tax are the sums of its lines' (plus the
  tax of shipping), every line is its unit price times its quantity less its discount plus
  its own tax, the tax lines shown are one per rate and add up to the tax, and the total is
  the subtotal less the discount plus shipping, plus the tax when it is not included.
\<close>

theorem quote_adds_up:
  assumes "priceCheckout lc input = Inr q" "valid_input input"
  shows "q_subtotal q = sum_list (map ql_subtotal (q_lines q)) \<and>
    q_discountTotal q = sum_list (map ql_discount (q_lines q)) \<and>
    q_taxTotal q = sum_list (map ql_tax (q_lines q)) + (case q_shipping q of None \<Rightarrow> 0 | Some s \<Rightarrow> qs_tax s) \<and>
    q_taxTotal q = sum_list (map qt_amount (q_taxLines q)) \<and> distinct (map qt_rateId (q_taxLines q)) \<and>
    q_shippingTotal q = (case q_shipping q of None \<Rightarrow> 0 | Some s \<Rightarrow> qs_amount s) \<and>
    q_total q = q_subtotal q - q_discountTotal q + q_shippingTotal q
      + (if q_pricesIncludeTax q then 0 else q_taxTotal q) \<and>
    (\<forall>l \<in> set (q_lines q). ql_subtotal l = ql_unitPrice l * ql_quantity l \<and>
       ql_tax l = sum_list (map qt_amount (ql_taxLines l)) \<and>
       ql_total l = ql_subtotal l - ql_discount l + (if q_pricesIncludeTax q then 0 else ql_tax l))"
  using assms(1)
proof (cases rule: priceCheckout_steps)
  case (1 amount problem ds chosen ship)
  have "ship = []" if "chosen = None" using 1(5) that by simp
  then have "q_taxTotal q = sum_list (map ql_tax (q_lines q)) + (case q_shipping q of None \<Rightarrow> 0 | Some s \<Rightarrow> qs_tax s)"
    "q_shippingTotal q = (case q_shipping q of None \<Rightarrow> 0 | Some s \<Rightarrow> qs_amount s)"
    unfolding 1(6,10,18) by (cases chosen; simp)+
  moreover have "q_subtotal q = sum_list (map ql_subtotal (q_lines q))"
    using quote_lines(2)[OF assms] by (simp add: 1(7) merchandise_of_def)
  ultimately show ?thesis
    using quote_lines(1,3)[OF assms] quote_shipping[OF assms] aggregate_tax_rates 1(11,12,14)
    by (simp add: line_ok_def)
qed

theorem quote_adds_up_witness:
  "priceCheckout (\<lambda>_ _. 0) sample_checkout = Inr sample_quote \<and> q_total sample_quote = 3294 \<and>
   sum_list (map ql_subtotal (q_lines sample_quote)) = 2833 \<and>
   sum_list (map qt_amount (q_taxLines sample_quote)) = 244"
  using quote_adds_up[OF sample_priced(1) sample_valid] sample_priced by simp

text \<open>
  What "no problems" means: a quote reports no problem exactly when the cart has lines
  and all of them are priced, there are an email and an address, the entered code (if any)
  was accepted, something is left to pay, and, when a line needs shipping, the selected rate
  is one that applies to the address and the discounted subtotal in the quote's currency.
\<close>

theorem quote_ready_iff:
  assumes "priceCheckout lc input = Inr q"
  shows "q_problems q = [] \<longleftrightarrow>
    pi_lines input \<noteq> [] \<and> (\<forall>l \<in> set (pi_lines input). is_priced (pi_currency input) l) \<and>
    \<not> no_text (pi_email input) \<and> pi_address input \<noteq> None \<and> q_discountProblem q = None \<and>
    0 < q_total q \<and>
    (q_requiresShipping q \<longrightarrow> (\<exists>address. pi_address input = Some address \<and>
       (\<exists>r \<in> set (pi_shippingRates input). Some (sr_id r) = pi_selectedRateId input \<and>
         sr_currency r = pi_currency input \<and>
         rateApplies r address (q_subtotal q - q_discountTotal q))))"
  using assms
proof (cases rule: priceCheckout_steps)
  case (1 amount problem ds chosen ship)
  have un: "q_unavailable q = [] \<longleftrightarrow> (\<forall>l \<in> set (pi_lines input). is_priced (pi_currency input) l)"
    unfolding 1(15) by (auto simp: filter_empty_conv)
  have chosen: "chosen \<noteq> None \<longleftrightarrow> (\<exists>r \<in> set (pi_shippingRates input). Some (sr_id r) = pi_selectedRateId input \<and>
      sr_currency r = pi_currency input \<and> rateApplies r address (merchandise_of input - amount))"
    if "q_requiresShipping q" "pi_address input = Some address" for address
  proof -
    let ?opts = "shipping_options lc input True (merchandise_of input - amount)"
    have "chosen \<noteq> None \<longleftrightarrow> (\<exists>opt \<in> set ?opts. Some (qo_rateId opt) = pi_selectedRateId input)"
      using that(1) unfolding 1(4) 1(16) by (simp del: not_None_eq add: find_None_iff2)
    then show ?thesis using that(2) by (auto simp: shipping_options_def)
  qed
  have opts: "q_shippingOptions q \<noteq> []" if "q_requiresShipping q" "chosen \<noteq> None"
    using that chosen_in_options[of input lc amount] unfolding 1(16,17) 1(4)[symmetric] by auto
  show ?thesis
    using chosen opts 1(7,8,9) unfolding 1(19) checkout_problems_def un append_is_Nil_conv
    by (cases "pi_address input") (auto simp: not_le)
qed

theorem quote_ready_iff_witness:
  "priceCheckout (\<lambda>_ _. 0) sample_checkout = Inr sample_quote \<and> q_problems sample_quote = [] \<and>
   (\<exists>r \<in> set (pi_shippingRates sample_checkout). Some (sr_id r) = pi_selectedRateId sample_checkout)"
  using quote_ready_iff[OF sample_priced(1)] sample_priced by auto

subsection \<open>Reported changes\<close>

lemma mset_sortBy [simp]: "mset (sortBy cmp xs) = mset xs"
proof (induction xs)
  case (Cons x xs)
  have "mset (insertBy cmp x ys) = add_mset x (mset ys)" for ys by (induction ys) auto
  with Cons show ?case by simp
qed simp

lemma image_mset_inj:
  assumes "inj f" "image_mset f A = image_mset f B"
  shows "A = B"
proof -
  have "image_mset (inv f) (image_mset f M) = M" for M
    using assms(1) by (simp add: multiset.map_comp comp_def)
  then show ?thesis using assms(2) by metis
qed

lemma not_in_digits: "list_all is_digit s \<Longrightarrow> \<not> is_digit c \<Longrightarrow> c \<notin> set s"
  by (auto simp: list_all_iff)

lemma show_int_chars: "c \<in> set (show_int n) \<Longrightarrow> is_digit c \<or> c = CHR ''-''"
  using show_nat_digits[of "nat n"] show_nat_digits[of "nat (- n)"]
  by (auto simp: show_int_def list_all_iff split: if_splits)

lemma separators_not_digits: "\<not> is_digit (CHR '','')" "\<not> is_digit (CHR '':'')"
  by (simp_all add: is_digit_def)

lemma pair_text_inj:
  "uuid_text a @ '':'' @ show_int n = uuid_text b @ '':'' @ show_int m \<Longrightarrow> a = b \<and> n = m"
proof -
  assume "uuid_text a @ '':'' @ show_int n = uuid_text b @ '':'' @ show_int m"
  then have eq: "uuid_text a @ CHR '':'' # show_int n = uuid_text b @ CHR '':'' # show_int m" by simp
  have "CHR '':'' \<notin> set (uuid_text u)" for u
    unfolding uuid_text_def by (rule not_in_digits) (simp_all add: separators_not_digits)
  from append_sep_inj[OF this this eq] show ?thesis
    unfolding uuid_text_def by (metis read_show_nat read_show_int)
qed

lemma sorted_keys_eq:
  assumes "sorted_keys key c = sorted_keys key q" "\<And>l. key l \<noteq> [] \<and> CHR '','' \<notin> set (key l)"
  shows "mset (map key (q_lines c)) = mset (map key (q_lines q))"
proof -
  have "sortBy (byText (\<lambda>s. s)) (map key (q_lines c)) = sortBy (byText (\<lambda>s. s)) (map key (q_lines q))"
    using assms(1) unfolding sorted_keys_def by (rule joinWith_inj[rotated 2]) (use assms(2) in auto)
  then show ?thesis by (metis mset_sortBy)
qed

lemma key_chars:
  "quantity_key l \<noteq> [] \<and> CHR '','' \<notin> set (quantity_key l)"
  "price_key l \<noteq> [] \<and> CHR '','' \<notin> set (price_key l)"
  "id_key l \<noteq> [] \<and> CHR '','' \<notin> set (id_key l)"
  using show_int_chars[of "CHR '',''"] not_in_digits[OF show_nat_digits separators_not_digits(1)]
  by (auto simp: quantity_key_def price_key_def id_key_def uuid_text_def separators_not_digits)

lemma same_keys:
  assumes "mset (map (\<lambda>l. uuid_text (ql_variantId l) @ '':'' @ show_int (f l)) ls) =
    mset (map (\<lambda>l. uuid_text (ql_variantId l) @ '':'' @ show_int (f l)) ks)"
  shows "mset (map (\<lambda>l. (ql_variantId l, f l)) ls) = mset (map (\<lambda>l. (ql_variantId l, f l)) ks)"
proof -
  let ?t = "\<lambda>(v, n). uuid_text v @ '':'' @ show_int n"
  have "inj ?t" by (rule injI) (use pair_text_inj in \<open>auto simp del: append_Cons append_Nil\<close>)
  moreover have "image_mset ?t (mset (map (\<lambda>l. (ql_variantId l, f l)) ls)) =
      image_mset ?t (mset (map (\<lambda>l. (ql_variantId l, f l)) ks))"
    using assms by (simp add: comp_def flip: mset_map)
  ultimately show ?thesis by (rule image_mset_inj)
qed

text \<open>
  the change that is reported. Nothing is reported exactly for a confirmed quote with
  the hash of the current one. Otherwise the most specific reason comes first: a changed
  quantity is only reported when the same variants are priced; a changed discount or
  shipping only when the same variants are there in the same quantities at the same unit
  prices and no more lines are unavailable than before.
\<close>

theorem describeQuoteChange_specific:
  "(describeQuoteChange hash confirmed current = None \<longleftrightarrow>
      (\<exists>c. confirmed = Some c \<and> hash c = hash current)) \<and>
   (\<forall>c. confirmed = Some c \<longrightarrow>
     (describeQuoteChange hash confirmed current = Some QUANTITY_CHANGED \<longrightarrow>
        mset (map ql_variantId (q_lines c)) = mset (map ql_variantId (q_lines current)) \<and>
        map (\<lambda>l. (ql_variantId l, ql_quantity l)) (q_lines c) \<noteq>
          map (\<lambda>l. (ql_variantId l, ql_quantity l)) (q_lines current)) \<and>
     (describeQuoteChange hash confirmed current \<in> {Some DISCOUNT_CHANGED, Some SHIPPING_CHANGED} \<longrightarrow>
        length (q_unavailable current) \<le> length (q_unavailable c) \<and>
        mset (map (\<lambda>l. (ql_variantId l, ql_quantity l)) (q_lines c)) =
          mset (map (\<lambda>l. (ql_variantId l, ql_quantity l)) (q_lines current)) \<and>
        mset (map (\<lambda>l. (ql_variantId l, ql_unitPrice l)) (q_lines c)) =
          mset (map (\<lambda>l. (ql_variantId l, ql_unitPrice l)) (q_lines current))))"
proof -
  have ids: "mset (map ql_variantId (q_lines c)) = mset (map ql_variantId (q_lines current))"
    if "sorted_keys id_key c = sorted_keys id_key current" for c
  proof -
    have "inj uuid_text" unfolding uuid_text_def by (rule injI) (metis read_show_nat)
    moreover have "image_mset uuid_text (mset (map ql_variantId (q_lines c))) =
        image_mset uuid_text (mset (map ql_variantId (q_lines current)))"
      using sorted_keys_eq[OF that key_chars(3)] by (simp add: id_key_def comp_def flip: mset_map)
    ultimately show ?thesis by (rule image_mset_inj)
  qed
  have quantities: "sorted_keys quantity_key c = sorted_keys quantity_key current"
    if "map (\<lambda>l. (ql_variantId l, ql_quantity l)) (q_lines c) = map (\<lambda>l. (ql_variantId l, ql_quantity l)) (q_lines current)" for c
  proof -
    have "map quantity_key ls = map (\<lambda>(v, n). uuid_text v @ '':'' @ show_int n) (map (\<lambda>l. (ql_variantId l, ql_quantity l)) ls)" for ls
      by (simp add: quantity_key_def)
    then show ?thesis using that by (simp only: sorted_keys_def)
  qed
  have q: "mset (map (\<lambda>l. (ql_variantId l, ql_quantity l)) (q_lines c)) =
      mset (map (\<lambda>l. (ql_variantId l, ql_quantity l)) (q_lines current))"
    if "sorted_keys quantity_key c = sorted_keys quantity_key current" for c
    using sorted_keys_eq[OF that key_chars(1)] by (intro same_keys) (simp add: quantity_key_def[abs_def])
  have p: "mset (map (\<lambda>l. (ql_variantId l, ql_unitPrice l)) (q_lines c)) =
      mset (map (\<lambda>l. (ql_variantId l, ql_unitPrice l)) (q_lines current))"
    if "sorted_keys price_key c = sorted_keys price_key current" for c
    using sorted_keys_eq[OF that key_chars(2)] by (intro same_keys) (simp add: price_key_def[abs_def])
  show ?thesis
  proof (cases confirmed)
    case (Some c)
    show ?thesis
      using ids[of c] quantities[of c] q[of c] p[of c]
      unfolding describeQuoteChange_def Some option.case
      by (simp only: option.inject split: if_split) (simp, blast)
  qed (simp add: describeQuoteChange_def)
qed

theorem describeQuoteChange_specific_witness:
  "describeQuoteChange (\<lambda>q. show_int (q_total q)) (Some (sample_quote\<lparr>q_discountTotal := 0, q_total := 1\<rparr>)) sample_quote =
     Some DISCOUNT_CHANGED \<and>
   mset (map (\<lambda>l. (ql_variantId l, ql_unitPrice l)) (q_lines (sample_quote\<lparr>q_discountTotal := 0, q_total := 1\<rparr>))) =
     mset (map (\<lambda>l. (ql_variantId l, ql_unitPrice l)) (q_lines sample_quote))"
proof -
  let ?c = "sample_quote\<lparr>q_discountTotal := 0, q_total := 1\<rparr>"
  have hashes: "show_int 1 \<noteq> show_int 3294" unfolding show_int_inj by simp
  have d: "describeQuoteChange (\<lambda>q. show_int (q_total q)) (Some ?c) sample_quote = Some DISCOUNT_CHANGED"
    using sample_priced hashes by (simp add: describeQuoteChange_def sorted_keys_def)
  then show ?thesis
    using describeQuoteChange_specific[of "\<lambda>q. show_int (q_total q)" "Some ?c" sample_quote] by blast
qed

end
