(* ===== verification/Ledger.thy ===== *)
theory Ledger
  imports Prelude
begin

section \<open>The stock tables\<close>

text \<open>
  The tables behind \<open>packages/commerce/src/checkout/stock.ts\<close> and
  \<open>packages/commerce/src/inventory.ts\<close>, for one store (row-level security confines every
  statement to the store of the transaction): locations, inventory items, levels, the
  movement ledger and reservations. A table is the list of its rows; an UPDATE maps over the
  rows it selects, an INSERT appends, and the constraints of the schema (integer columns,
  \<open>reserved >= 0\<close>, \<open>delta <> 0\<close>, \<open>quantity > 0\<close>) are errors. Row locks order transactions and
  change no data; the model runs one transaction at a time. \<open>sd_next\<close> supplies fresh
  identifiers, which \<open>uuidv7()\<close> gives in the source.
\<close>

datatype inventory_policy = DENY | CONTINUE

record location_row =
  lo_id :: uuid
  lo_name :: string
  lo_code :: string
  lo_isActive :: bool
  lo_fulfilsOnline :: bool
  lo_priority :: int
  lo_createdAt :: date
  lo_deleted :: bool

text \<open>
  \<open>it_policy\<close> is the policy of the item's variant, None when the transaction sees no row of the variant:
  when it is gone, or when row security hides it, as it hides the variants of a product that is not active
  from the checkout. The query of \<open>reserveStock\<close> then falls back to DENY (\<open>is_deny\<close>). \<open>it_live\<close> says that
  the variant is not deleted.
\<close>

record item_row =
  it_id :: uuid
  it_variantId :: uuid
  it_tracked :: bool
  it_policy :: "inventory_policy option"
  it_live :: bool

record level_row =
  lv_id :: uuid
  lv_item :: uuid
  lv_location :: uuid
  lv_available :: int
  lv_reserved :: int

datatype quantity_name = AVAILABLE | RESERVED

datatype movement_reason =
    RESERVATION | RESERVATION_RELEASE | FULFILMENT | CANCELLATION | RETURN
  | INITIAL | MANUAL_ADJUSTMENT | RESTOCK | CORRECTION | TRANSFER

datatype reference_type = REF_CHECKOUT | REF_ORDER | REF_TRANSFER

record movement_row =
  mv_id :: uuid
  mv_item :: uuid
  mv_location :: uuid
  mv_name :: quantity_name
  mv_delta :: int
  mv_resulting :: int
  mv_reason :: movement_reason
  mv_reference :: "(reference_type \<times> uuid) option"
  mv_actor :: "uuid option"
  mv_note :: "string option"

datatype reservation_status = ACTIVE | CONVERTED | RELEASED

record reservation_row =
  rs_id :: uuid
  rs_item :: uuid
  rs_location :: uuid
  rs_checkout :: uuid
  rs_order :: "uuid option"
  rs_orderLine :: "uuid option"
  rs_quantity :: int
  rs_status :: reservation_status
  rs_expiresAt :: date

record stock_db =
  sd_locations :: "location_row list"
  sd_items :: "item_row list"
  sd_levels :: "level_row list"
  sd_movements :: "movement_row list"
  sd_reservations :: "reservation_row list"
  sd_next :: uuid

datatype stock_error =
    INTEGER_OUT_OF_RANGE | CHECK_VIOLATION string | STOCK_ERROR string
  | CONFLICT string | NO_ROW

text \<open>A PostgreSQL INTEGER.\<close>

definition sql_int4 :: "int \<Rightarrow> bool" where
  "sql_int4 n \<longleftrightarrow> -2147483648 \<le> n \<and> n \<le> 2147483647"

text \<open>\<open>INSERT INTO "InventoryMovement"\<close>, with the table's constraints.\<close>

definition insert_movement :: "movement_row \<Rightarrow> stock_db \<Rightarrow> stock_error + stock_db" where
  "insert_movement m db =
     (if \<not> sql_int4 (mv_delta m) \<or> \<not> sql_int4 (mv_resulting m) then Inl INTEGER_OUT_OF_RANGE
      else if mv_delta m = 0 then Inl (CHECK_VIOLATION ''InventoryMovement_delta_nonzero'')
      else Inr (db\<lparr>sd_movements := sd_movements db @ [m\<lparr>mv_id := sd_next db\<rparr>],
                   sd_next := Suc (sd_next db)\<rparr>))"

definition at_level :: "uuid \<Rightarrow> uuid \<Rightarrow> level_row \<Rightarrow> bool" where
  "at_level i l lv \<longleftrightarrow> lv_item lv = i \<and> lv_location lv = l"

definition find_level :: "stock_db \<Rightarrow> uuid \<Rightarrow> uuid \<Rightarrow> level_row option" where
  "find_level db i l = find (at_level i l) (sd_levels db)"

text \<open>\<open>INSERT INTO "InventoryLevel" ... ON CONFLICT DO NOTHING\<close>: both quantities start at 0.\<close>

definition ensure_level :: "uuid \<Rightarrow> uuid \<Rightarrow> stock_db \<Rightarrow> stock_db" where
  "ensure_level i l db = (case find_level db i l of
     Some _ \<Rightarrow> db
   | None \<Rightarrow> db\<lparr>sd_levels := sd_levels db @
         [\<lparr>lv_id = sd_next db, lv_item = i, lv_location = l, lv_available = 0, lv_reserved = 0\<rparr>],
       sd_next := Suc (sd_next db)\<rparr>)"

text \<open>
  \<open>UPDATE "InventoryLevel" SET ... WHERE ... RETURNING\<close>: the rows are changed in place, every
  changed row has to satisfy the column types and the CHECK of the table, and the changed
  rows are returned.
\<close>

definition update_levels ::
  "(level_row \<Rightarrow> bool) \<Rightarrow> (level_row \<Rightarrow> level_row) \<Rightarrow> stock_db \<Rightarrow> stock_error + (stock_db \<times> level_row list)" where
  "update_levels sel f db =
     (let rows = map f (filter sel (sd_levels db))
      in if list_ex (\<lambda>lv. \<not> sql_int4 (lv_available lv) \<or> \<not> sql_int4 (lv_reserved lv)) rows
         then Inl INTEGER_OUT_OF_RANGE
         else if list_ex (\<lambda>lv. lv_reserved lv < 0) rows
         then Inl (CHECK_VIOLATION ''InventoryLevel_reserved_nonnegative'')
         else Inr (db\<lparr>sd_levels := map (\<lambda>lv. if sel lv then f lv else lv) (sd_levels db)\<rparr>, rows))"

text \<open>Adding to the two quantities of a level.\<close>

definition add_units :: "int \<Rightarrow> int \<Rightarrow> level_row \<Rightarrow> level_row" where
  "add_units a r lv = lv\<lparr>lv_available := lv_available lv + a, lv_reserved := lv_reserved lv + r\<rparr>"

subsection \<open>Quantities and the ledger\<close>

text \<open>A quantity of the store: the available or the reserved units of an item at a location.\<close>

type_synonym stock_key = "uuid \<times> uuid \<times> quantity_name"

fun quantity :: "stock_db \<Rightarrow> stock_key \<Rightarrow> int" where
  "quantity db (i, l, n) = (case find_level db i l of
     None \<Rightarrow> 0
   | Some lv \<Rightarrow> (case n of AVAILABLE \<Rightarrow> lv_available lv | RESERVED \<Rightarrow> lv_reserved lv))"

declare quantity.simps [simp del]

definition movement_key :: "movement_row \<Rightarrow> stock_key" where
  "movement_key m = (mv_item m, mv_location m, mv_name m)"

definition logged :: "stock_db \<Rightarrow> stock_key \<Rightarrow> int" where
  "logged db k = sum_list (map mv_delta (filter (\<lambda>m. movement_key m = k) (sd_movements db)))"

text \<open>Units on hand are the available ones plus the reserved ones (ADR-0027).\<close>

definition on_hand :: "stock_db \<Rightarrow> uuid \<Rightarrow> uuid \<Rightarrow> int" where
  "on_hand db i l = quantity db (i, l, AVAILABLE) + quantity db (i, l, RESERVED)"

text \<open>The rows are well formed: unique keys, and the identifier supply is above every id in use.\<close>

definition tables_ok :: "stock_db \<Rightarrow> bool" where
  "tables_ok db \<longleftrightarrow> distinct (map lv_id (sd_levels db)) \<and>
     distinct (map (\<lambda>lv. (lv_item lv, lv_location lv)) (sd_levels db)) \<and>
     distinct (map rs_id (sd_reservations db)) \<and>
     (\<forall>lv \<in> set (sd_levels db). lv_id lv < sd_next db) \<and>
     (\<forall>r \<in> set (sd_reservations db). rs_id r < sd_next db) \<and>
     (\<forall>lv \<in> set (sd_levels db). 0 \<le> lv_reserved lv \<and> sql_int4 (lv_reserved lv) \<and> sql_int4 (lv_available lv)) \<and>
     (\<forall>r \<in> set (sd_reservations db). 0 < rs_quantity r \<and> sql_int4 (rs_quantity r))"

text \<open>The ledger explains every quantity: it is the sum of the deltas recorded for it.\<close>

definition ledger_ok :: "stock_db \<Rightarrow> bool" where
  "ledger_ok db \<longleftrightarrow> (\<forall>i l. quantity db (i, l, AVAILABLE) = logged db (i, l, AVAILABLE) \<and>
     quantity db (i, l, RESERVED) = logged db (i, l, RESERVED))"

lemma ledger_ok_iff: "ledger_ok db \<longleftrightarrow> (\<forall>k. quantity db k = logged db k)"
proof
  assume ok: "ledger_ok db"
  show "\<forall>k. quantity db k = logged db k"
  proof
    fix k :: stock_key
    obtain i l n where "k = (i, l, n)" by (cases k)
    then show "quantity db k = logged db k" using ok by (cases n) (auto simp: ledger_ok_def)
  qed
qed (simp add: ledger_ok_def)

subsection \<open>The contract of a stock operation\<close>

text \<open>
  Every operation that touches stock changes each quantity by an effect that does not depend
  on the state, records exactly that effect in the ledger and keeps the tables well formed.
  A run of such operations then changes each quantity by the sum of the effects, and keeps
  a ledger that explains the quantities.
\<close>

locale stock_operation =
  fixes op :: "'m \<Rightarrow> stock_db \<Rightarrow> stock_error + stock_db"
    and effect :: "'m \<Rightarrow> stock_key \<Rightarrow> int"
  assumes op_quantity: "op m db = Inr db' \<Longrightarrow> tables_ok db \<Longrightarrow> quantity db' k = quantity db k + effect m k"
    and op_logged: "op m db = Inr db' \<Longrightarrow> tables_ok db \<Longrightarrow> logged db' k = logged db k + effect m k"
    and op_tables: "op m db = Inr db' \<Longrightarrow> tables_ok db \<Longrightarrow> tables_ok db'"
begin

lemma run_tables: "foldR (\<lambda>db m. op m db) db ms = Inr db' \<Longrightarrow> tables_ok db \<Longrightarrow> tables_ok db'"
  by (induction ms arbitrary: db) (auto simp: bindR_eq_Inr dest: op_tables)

lemma run_quantity:
  "foldR (\<lambda>db m. op m db) db ms = Inr db' \<Longrightarrow> tables_ok db \<Longrightarrow>
   quantity db' k = quantity db k + sum_list (map (\<lambda>m. effect m k) ms)"
proof (induction ms arbitrary: db)
  case (Cons m ms)
  then obtain x where x: "op m db = Inr x" "foldR (\<lambda>db m. op m db) x ms = Inr db'"
    by (auto simp: bindR_eq_Inr)
  then show ?case using Cons.IH[OF x(2)] Cons.prems(2) op_quantity[OF x(1)] op_tables[OF x(1)] by simp
qed simp

lemma run_logged:
  "foldR (\<lambda>db m. op m db) db ms = Inr db' \<Longrightarrow> tables_ok db \<Longrightarrow>
   logged db' k = logged db k + sum_list (map (\<lambda>m. effect m k) ms)"
proof (induction ms arbitrary: db)
  case (Cons m ms)
  then obtain x where x: "op m db = Inr x" "foldR (\<lambda>db m. op m db) x ms = Inr db'"
    by (auto simp: bindR_eq_Inr)
  then show ?case using Cons.IH[OF x(2)] Cons.prems(2) op_logged[OF x(1)] op_tables[OF x(1)] by simp
qed simp

lemma op_ledger: "op m db = Inr db' \<Longrightarrow> tables_ok db \<Longrightarrow> ledger_ok db \<Longrightarrow> ledger_ok db'"
  using op_quantity[of m db db'] op_logged[of m db db'] by (simp add: ledger_ok_iff)

lemma run_ledger:
  "foldR (\<lambda>db m. op m db) db ms = Inr db' \<Longrightarrow> tables_ok db \<Longrightarrow> ledger_ok db \<Longrightarrow> ledger_ok db'"
  using run_quantity[of db ms db'] run_logged[of db ms db'] by (simp add: ledger_ok_iff)

end

subsection \<open>Lemmas about the statements\<close>

lemma find_map_key:
  assumes "\<And>x. P (f x) = P x"
  shows "find P (map f xs) = map_option f (find P xs)"
  using assms by (induction xs) auto

lemma insert_movement_Inr:
  assumes "insert_movement m db = Inr db'"
  shows "db' = db\<lparr>sd_movements := sd_movements db @ [m\<lparr>mv_id := sd_next db\<rparr>], sd_next := Suc (sd_next db)\<rparr>"
    "mv_delta m \<noteq> 0"
  using assms by (auto simp: insert_movement_def split: if_splits)

lemma quantity_insert_movement:
  "insert_movement m db = Inr db' \<Longrightarrow> quantity db' k = quantity db k"
  by (cases k) (auto dest!: insert_movement_Inr(1) simp: find_level_def quantity.simps)

lemma logged_insert_movement:
  "insert_movement m db = Inr db' \<Longrightarrow>
   logged db' k = logged db k + (if movement_key m = k then mv_delta m else 0)"
  by (auto dest!: insert_movement_Inr(1) simp: logged_def movement_key_def)

lemma tables_insert_movement: "insert_movement m db = Inr db' \<Longrightarrow> tables_ok db \<Longrightarrow> tables_ok db'"
  by (auto dest!: insert_movement_Inr(1) simp: tables_ok_def less_Suc_eq)

lemma quantity_ensure_level [simp]: "quantity (ensure_level i l db) k = quantity db k"
proof -
  obtain i' l' n where k: "k = (i', l', n)" by (cases k)
  show ?thesis
    by (cases n) (auto simp: k quantity.simps ensure_level_def find_level_def find_append at_level_def split: option.splits)
qed

lemma logged_ensure_level [simp]: "logged (ensure_level i l db) k = logged db k"
  by (simp add: ensure_level_def logged_def split: option.splits)

lemma find_level_ensure_level: "\<exists>lv. find_level (ensure_level i l db) i l = Some lv"
  by (auto simp: ensure_level_def find_level_def find_append at_level_def split: option.splits)

lemma tables_ensure_level: "tables_ok db \<Longrightarrow> tables_ok (ensure_level i l db)"
  by (auto simp: tables_ok_def ensure_level_def find_level_def find_None_iff2 at_level_def less_Suc_eq sql_int4_def
      intro: less_SucI split: option.splits)

lemma ensure_level_other [simp]:
  "sd_items (ensure_level i l db) = sd_items db" "sd_locations (ensure_level i l db) = sd_locations db"
  "sd_reservations (ensure_level i l db) = sd_reservations db"
  "sd_movements (ensure_level i l db) = sd_movements db"
  by (simp_all add: ensure_level_def split: option.splits)


text \<open>What an update of the level of an item at a location does.\<close>

lemma update_levels_Inr:
  assumes "update_levels sel f db = Inr (db', rows)"
  shows "db' = db\<lparr>sd_levels := map (\<lambda>lv. if sel lv then f lv else lv) (sd_levels db)\<rparr>"
    "rows = map f (filter sel (sd_levels db))"
    "\<forall>lv \<in> set rows. 0 \<le> lv_reserved lv \<and> sql_int4 (lv_reserved lv) \<and> sql_int4 (lv_available lv)"
  using assms by (auto simp: update_levels_def Let_def list_ex_iff not_less split: if_splits)

lemma add_units_key [simp]:
  "lv_id (add_units a r lv) = lv_id lv" "lv_item (add_units a r lv) = lv_item lv"
  "lv_location (add_units a r lv) = lv_location lv"
  "lv_available (add_units a r lv) = lv_available lv + a" "lv_reserved (add_units a r lv) = lv_reserved lv + r"
  by (simp_all add: add_units_def)

lemma find_level_update:
  assumes "update_levels sel (add_units a r) db = Inr (db', rows)"
  shows "find_level db' i l = map_option (\<lambda>lv. if sel lv then add_units a r lv else lv) (find_level db i l)"
  unfolding update_levels_Inr(1)[OF assms] find_level_def
  by (simp add: find_map_key at_level_def)

lemma tables_update:
  assumes "update_levels sel (add_units a r) db = Inr (db', rows)" "tables_ok db"
  shows "tables_ok db'"
proof -
  define g where "g = (\<lambda>lv. if sel lv then add_units a r lv else lv)"
  have key [simp]: "lv_id (g lv) = lv_id lv" "lv_item (g lv) = lv_item lv" "lv_location (g lv) = lv_location lv" for lv
    by (simp_all add: g_def)
  have "0 \<le> lv_reserved (g lv) \<and> sql_int4 (lv_reserved (g lv)) \<and> sql_int4 (lv_available (g lv))"
    if "lv \<in> set (sd_levels db)" for lv
    using that update_levels_Inr(2,3)[OF assms(1)] assms(2) by (auto simp: g_def tables_ok_def)
  then show ?thesis
    using assms(2) unfolding update_levels_Inr(1)[OF assms(1)] g_def[symmetric] tables_ok_def
    by (simp add: comp_def)
qed

lemma update_levels_other:
  assumes "update_levels sel f db = Inr (db', rows)"
  shows "sd_movements db' = sd_movements db" "sd_items db' = sd_items db"
    "sd_locations db' = sd_locations db" "sd_reservations db' = sd_reservations db" "sd_next db' = sd_next db"
  by (simp_all add: update_levels_Inr(1)[OF assms])

lemma quantity_cong: "sd_levels db' = sd_levels db \<Longrightarrow> quantity db' k = quantity db k"
  by (cases k) (simp add: find_level_def quantity.simps)

lemma logged_cong: "sd_movements db' = sd_movements db \<Longrightarrow> logged db' k = logged db k"
  by (simp add: logged_def)

lemma quantity_fields [simp]:
  "quantity (db\<lparr>sd_reservations := rs\<rparr>) k = quantity db k" "quantity (db\<lparr>sd_next := n\<rparr>) k = quantity db k"
  "quantity (db\<lparr>sd_movements := ms\<rparr>) k = quantity db k" "quantity (db\<lparr>sd_items := is\<rparr>) k = quantity db k"
  by (rule quantity_cong; simp)+

lemma logged_fields [simp]:
  "logged (db\<lparr>sd_reservations := rs\<rparr>) k = logged db k" "logged (db\<lparr>sd_next := n\<rparr>) k = logged db k"
  "logged (db\<lparr>sd_levels := ls\<rparr>) k = logged db k" "logged (db\<lparr>sd_items := is\<rparr>) k = logged db k"
  by (rule logged_cong; simp)+

lemma level_row_unique:
  assumes "tables_ok db" "lv \<in> set (sd_levels db)" "lw \<in> set (sd_levels db)" "at_level i l lv" "at_level i l lw"
  shows "lw = lv"
proof -
  have "inj_on (\<lambda>lv. (lv_item lv, lv_location lv)) (set (sd_levels db))"
    using assms(1) unfolding tables_ok_def distinct_map by blast
  from inj_onD[OF this _ assms(3,2)] assms(4,5) show ?thesis by (simp add: at_level_def)
qed

lemma quantity_of_row:
  assumes "tables_ok db" "lv \<in> set (sd_levels db)"
  shows "quantity db (lv_item lv, lv_location lv, AVAILABLE) = lv_available lv"
    "quantity db (lv_item lv, lv_location lv, RESERVED) = lv_reserved lv"
proof -
  have at: "at_level (lv_item lv) (lv_location lv) lv" by (simp add: at_level_def)
  then obtain lw where lw: "find_level db (lv_item lv) (lv_location lv) = Some lw"
    using assms(2) by (cases "find_level db (lv_item lv) (lv_location lv)") (auto simp: find_level_def find_None_iff2)
  then have "lw \<in> set (sd_levels db)" "at_level (lv_item lv) (lv_location lv) lw"
    unfolding find_level_def by (auto dest: find_Some_iff2)
  then have "lw = lv" using level_row_unique[OF assms _ at] by simp
  with lw show "quantity db (lv_item lv, lv_location lv, AVAILABLE) = lv_available lv"
    "quantity db (lv_item lv, lv_location lv, RESERVED) = lv_reserved lv" by (simp_all add: quantity.simps)
qed

end
