(* ===== verification/Stock.thy ===== *)
theory Stock
  imports Ledger
begin

section \<open>Stock of checkouts and orders\<close>

text \<open>
  Model of \<open>packages/commerce/src/checkout/stock.ts\<close> on the tables of the theory Ledger: one
  definition per function, with the transaction's state passed along and every throw and
  constraint violation as \<open>Inl\<close>. \<open>lockLevels\<close> only locks rows and has no definition. Sorting by
  \<open>localeCompare\<close> on identifiers (lower-case hexadecimal texts of one shape) is sorting by the
  identifiers.
\<close>

subsection \<open>Moving stock\<close>

record stock_line =
  sl_variantId :: uuid
  sl_quantity :: int

definition appendMovements ::
  "movement_row list \<Rightarrow> stock_db \<Rightarrow> stock_error + stock_db" where
  "appendMovements rows db =
     foldR (\<lambda>db row. if mv_delta row = 0 then Inr db else insert_movement row db) db rows"

text \<open>A movement of one level: the two changes, with the reason, reference and actor recorded.\<close>

record level_move =
  lm_item :: uuid
  lm_location :: uuid
  lm_available :: int
  lm_reserved :: int
  lm_reason :: movement_reason
  lm_reference :: "reference_type \<times> uuid"
  lm_actor :: "uuid option"

definition move_row :: "level_move \<Rightarrow> quantity_name \<Rightarrow> int \<Rightarrow> int \<Rightarrow> movement_row" where
  "move_row m n delta resulting = \<lparr>mv_id = 0, mv_item = lm_item m, mv_location = lm_location m,
     mv_name = n, mv_delta = delta, mv_resulting = resulting, mv_reason = lm_reason m,
     mv_reference = Some (lm_reference m), mv_actor = lm_actor m, mv_note = None\<rparr>"

definition moveLevel :: "level_move \<Rightarrow> stock_db \<Rightarrow> stock_error + stock_db" where
  "moveLevel m db =
     bindR (update_levels (at_level (lm_item m) (lm_location m)) (add_units (lm_available m) (lm_reserved m)) db)
     (\<lambda>(db', rows). case rows of
        [] \<Rightarrow> Inl (STOCK_ERROR ''inventory level disappeared under lock'')
      | row # _ \<Rightarrow> appendMovements
          [move_row m AVAILABLE (lm_available m) (lv_available row),
           move_row m RESERVED (lm_reserved m) (lv_reserved row)] db')"

subsection \<open>Reserving for a checkout\<close>

datatype reserve_result = RESERVED_OK bool | NO_STOCK uuid

text \<open>The quantity of each variant, summed over its lines.\<close>

definition line_quantities :: "stock_line list \<Rightarrow> (uuid \<times> int) list" where
  "line_quantities ls = foldl (\<lambda>qs line. AList.update (sl_variantId line)
     ((case map_of qs (sl_variantId line) of None \<Rightarrow> 0 | Some n \<Rightarrow> n) + sl_quantity line) qs) [] ls"

definition tracked_items :: "stock_db \<Rightarrow> (uuid \<times> int) list \<Rightarrow> item_row list" where
  "tracked_items db quantities = sortBy (byKey (\<lambda>ii. int (it_id ii)))
     (filter (\<lambda>ii. it_variantId ii \<in> set (map fst quantities) \<and> it_tracked ii) (sd_items db))"

definition byLevel :: "('a \<Rightarrow> uuid) \<Rightarrow> ('a \<Rightarrow> uuid) \<Rightarrow> 'a \<Rightarrow> 'a \<Rightarrow> int" where
  "byLevel item location a b =
     (if item a = item b then int (location a) - int (location b) else int (item a) - int (item b))"

definition item_levels :: "stock_db \<Rightarrow> item_row list \<Rightarrow> level_row list" where
  "item_levels db items = sortBy (byLevel lv_item lv_location)
     (filter (\<lambda>lv. lv_item lv \<in> set (map it_id items)) (sd_levels db))"

definition byPriority :: "location_row \<Rightarrow> location_row \<Rightarrow> int" where
  "byPriority a b = (if lo_priority a = lo_priority b then int (lo_id a) - int (lo_id b)
     else lo_priority a - lo_priority b)"

definition online_locations :: "stock_db \<Rightarrow> uuid list" where
  "online_locations db = map lo_id (sortBy byPriority
     (filter (\<lambda>l. lo_isActive l \<and> lo_fulfilsOnline l \<and> \<not> lo_deleted l) (sd_locations db)))"

fun rank_of :: "uuid list \<Rightarrow> uuid \<Rightarrow> int option" where
  "rank_of [] l = None"
| "rank_of (x # xs) l = (if x = l then Some 0 else map_option (\<lambda>i. i + 1) (rank_of xs l))"

definition candidate_levels :: "level_row list \<Rightarrow> uuid list \<Rightarrow> uuid \<Rightarrow> level_row list" where
  "candidate_levels levels locations item = sortBy
     (byKey (\<lambda>lv. case rank_of locations (lv_location lv) of None \<Rightarrow> 0 | Some i \<Rightarrow> i))
     (filter (\<lambda>lv. lv_item lv = item \<and> rank_of locations (lv_location lv) \<noteq> None) levels)"

text \<open>
  Where a quantity is reserved: at the first candidate that has it, else at the first
  candidate, else at the first location.
\<close>

definition supplier :: "level_row list \<Rightarrow> int \<Rightarrow> uuid option" where
  "supplier candidates q = map_option lv_location (find (\<lambda>lv. q \<le> lv_available lv) candidates)"

definition fallback :: "level_row list \<Rightarrow> uuid list \<Rightarrow> uuid option" where
  "fallback candidates locations = (case candidates of
     lv # _ \<Rightarrow> Some (lv_location lv)
   | [] \<Rightarrow> (case locations of l # _ \<Rightarrow> Some l | [] \<Rightarrow> None))"

definition insert_reservation :: "reservation_row \<Rightarrow> stock_db \<Rightarrow> stock_error + stock_db" where
  "insert_reservation r db =
     (if \<not> sql_int4 (rs_quantity r) then Inl INTEGER_OUT_OF_RANGE
      else if rs_quantity r \<le> 0 then Inl (CHECK_VIOLATION ''InventoryReservation_quantity_positive'')
      else Inr (db\<lparr>sd_reservations := sd_reservations db @ [r\<lparr>rs_id := sd_next db\<rparr>],
                   sd_next := Suc (sd_next db)\<rparr>))"

text \<open>The reservation of one item at one location: the move and the reservation's row.\<close>

definition reserve_at ::
  "uuid \<Rightarrow> date \<Rightarrow> uuid \<Rightarrow> uuid \<Rightarrow> int \<Rightarrow> stock_db \<Rightarrow> stock_error + stock_db" where
  "reserve_at checkoutId expiresAt item location q db =
     bindR (moveLevel \<lparr>lm_item = item, lm_location = location, lm_available = - q, lm_reserved = q,
         lm_reason = RESERVATION, lm_reference = (REF_CHECKOUT, checkoutId), lm_actor = None\<rparr> db)
     (insert_reservation \<lparr>rs_id = 0, rs_item = item, rs_location = location, rs_checkout = checkoutId,
         rs_order = None, rs_orderLine = None, rs_quantity = q, rs_status = ACTIVE,
         rs_expiresAt = expiresAt\<rparr>)"

definition is_deny :: "item_row \<Rightarrow> bool" where
  "is_deny ii \<longleftrightarrow> (case it_policy ii of None \<Rightarrow> True | Some p \<Rightarrow> p = DENY)"

text \<open>
  The loop of \<open>reserveStock\<close> over the items. \<open>NO_STOCK\<close> is its early return: what was moved
  before it stays in the transaction, which the caller rolls back.
\<close>

fun reserve_items ::
  "bool \<Rightarrow> uuid \<Rightarrow> date \<Rightarrow> (uuid \<times> int) list \<Rightarrow> level_row list \<Rightarrow> uuid list \<Rightarrow> item_row list \<Rightarrow> bool
   \<Rightarrow> stock_db \<Rightarrow> stock_error + (stock_db \<times> reserve_result)" where
  "reserve_items force checkoutId expiresAt quantities levels locations [] shortage db =
     Inr (db, RESERVED_OK shortage)"
| "reserve_items force checkoutId expiresAt quantities levels locations (item # items) shortage db =
     (let q = (case map_of quantities (it_variantId item) of None \<Rightarrow> 0 | Some n \<Rightarrow> n);
          candidates = candidate_levels levels locations (it_id item)
      in case supplier candidates q of
        Some location \<Rightarrow>
          bindR (reserve_at checkoutId expiresAt (it_id item) location q db)
            (reserve_items force checkoutId expiresAt quantities levels locations items shortage)
      | None \<Rightarrow>
          if is_deny item \<and> \<not> force then Inr (db, NO_STOCK (it_variantId item))
          else let short = (shortage \<or> is_deny item) in
            (case fallback candidates locations of
               None \<Rightarrow> reserve_items force checkoutId expiresAt quantities levels locations items short db
             | Some location \<Rightarrow>
                 let db1 = (if \<not> list_ex (\<lambda>lv. lv_location lv = location) candidates
                            then ensure_level (it_id item) location db else db)
                 in bindR (reserve_at checkoutId expiresAt (it_id item) location q db1)
                   (reserve_items force checkoutId expiresAt quantities levels locations items short)))"

definition reserveStock ::
  "uuid \<Rightarrow> stock_line list \<Rightarrow> date \<Rightarrow> bool \<Rightarrow> stock_db \<Rightarrow> stock_error + (stock_db \<times> reserve_result)" where
  "reserveStock checkoutId ls expiresAt force db =
     (let quantities = line_quantities ls
      in if quantities = [] then Inr (db, RESERVED_OK False)
         else let items = tracked_items db quantities
         in if items = [] then Inr (db, RESERVED_OK False)
            else reserve_items force checkoutId expiresAt quantities (item_levels db items)
              (online_locations db) items False db)"

subsection \<open>Release and conversion\<close>

definition set_reservations :: "(reservation_row \<Rightarrow> bool) \<Rightarrow> (reservation_row \<Rightarrow> reservation_row) \<Rightarrow> stock_db \<Rightarrow> stock_db" where
  "set_reservations sel f db =
     db\<lparr>sd_reservations := map (\<lambda>r. if sel r then f r else r) (sd_reservations db)\<rparr>"

definition active_reservations :: "stock_db \<Rightarrow> uuid \<Rightarrow> reservation_row list" where
  "active_reservations db checkoutId = filter (\<lambda>r. rs_checkout r = checkoutId \<and> rs_status r = ACTIVE)
     (sd_reservations db)"

definition release_move :: "uuid \<Rightarrow> reservation_row \<Rightarrow> level_move" where
  "release_move checkoutId r = \<lparr>lm_item = rs_item r, lm_location = rs_location r,
     lm_available = rs_quantity r, lm_reserved = - rs_quantity r, lm_reason = RESERVATION_RELEASE,
     lm_reference = (REF_CHECKOUT, checkoutId), lm_actor = None\<rparr>"

definition releaseCheckoutStock :: "uuid \<Rightarrow> stock_db \<Rightarrow> stock_error + (stock_db \<times> nat)" where
  "releaseCheckoutStock checkoutId db =
     (let reservations = sortBy (byLevel rs_item rs_location) (active_reservations db checkoutId)
      in if reservations = [] then Inr (db, 0)
         else bindR (foldR (\<lambda>db m. moveLevel m db) db (map (release_move checkoutId) reservations))
           (\<lambda>db'. Inr (set_reservations (\<lambda>r. rs_id r \<in> set (map rs_id reservations))
              (\<lambda>r. r\<lparr>rs_status := RELEASED\<rparr>) db', length reservations)))"

definition convertCheckoutStock ::
  "uuid \<Rightarrow> uuid \<Rightarrow> (uuid \<rightharpoonup> uuid) \<Rightarrow> stock_db \<Rightarrow> stock_error + stock_db" where
  "convertCheckoutStock checkoutId orderId lineByVariant db =
     (let reservations = concat (map (\<lambda>r. map (\<lambda>ii. (rs_id r, it_variantId ii))
            (filter (\<lambda>ii. it_id ii = rs_item r) (sd_items db))) (active_reservations db checkoutId))
      in foldR (\<lambda>db (reservationId, variantId). case lineByVariant variantId of
            None \<Rightarrow> Inl (STOCK_ERROR ''reservation has no order line'')
          | Some lineId \<Rightarrow> Inr (set_reservations (\<lambda>r. rs_id r = reservationId)
              (\<lambda>r. r\<lparr>rs_status := CONVERTED, rs_order := Some orderId, rs_orderLine := Some lineId\<rparr>) db))
          db reservations)"

subsection \<open>Stock of an order\<close>

record line_reservation =
  lr_id :: uuid
  lr_orderLineId :: "uuid option"
  lr_itemId :: uuid
  lr_locationId :: uuid
  lr_quantity :: int

definition orderReservations :: "stock_db \<Rightarrow> uuid \<Rightarrow> line_reservation list" where
  "orderReservations db orderId = map (\<lambda>r. \<lparr>lr_id = rs_id r, lr_orderLineId = rs_orderLine r,
       lr_itemId = rs_item r, lr_locationId = rs_location r, lr_quantity = rs_quantity r\<rparr>)
     (sortBy (byLevel rs_item rs_location)
       (filter (\<lambda>r. rs_order r = Some orderId \<and> rs_status r = CONVERTED) (sd_reservations db)))"

text \<open>The moves of an order, by item and location; \<open>f\<close> gives the change of a quantity.\<close>

definition order_move ::
  "uuid \<Rightarrow> movement_reason \<Rightarrow> uuid option \<Rightarrow> uuid \<Rightarrow> uuid \<Rightarrow> int \<Rightarrow> int \<Rightarrow> level_move" where
  "order_move orderId reason actor item location a r = \<lparr>lm_item = item, lm_location = location,
     lm_available = a, lm_reserved = r, lm_reason = reason, lm_reference = (REF_ORDER, orderId),
     lm_actor = actor\<rparr>"

definition sorted_moves :: "(line_reservation \<times> int) list \<Rightarrow> (line_reservation \<times> int) list" where
  "sorted_moves moves = sortBy (byLevel (\<lambda>m. lr_itemId (fst m)) (\<lambda>m. lr_locationId (fst m))) moves"

definition fulfil_step ::
  "uuid \<Rightarrow> uuid option \<Rightarrow> line_reservation \<times> int \<Rightarrow> stock_db \<Rightarrow> stock_error + stock_db" where
  "fulfil_step orderId actor move db = (case move of (r, q) \<Rightarrow>
     if q \<le> 0 then Inr db
     else moveLevel (order_move orderId FULFILMENT actor (lr_itemId r) (lr_locationId r) 0 (- q)) db)"

definition fulfilStock ::
  "uuid \<Rightarrow> (line_reservation \<times> int) list \<Rightarrow> uuid option \<Rightarrow> stock_db \<Rightarrow> stock_error + stock_db" where
  "fulfilStock orderId moves actor db =
     foldR (\<lambda>db m. fulfil_step orderId actor m db) db (sorted_moves moves)"

definition cancel_step ::
  "uuid \<Rightarrow> uuid option \<Rightarrow> line_reservation \<times> int \<Rightarrow> stock_db \<Rightarrow> stock_error + stock_db" where
  "cancel_step orderId actor move db = (case move of (r, q) \<Rightarrow>
     bindR (if q > 0
            then moveLevel (order_move orderId CANCELLATION actor (lr_itemId r) (lr_locationId r) q (- q)) db
            else Inr db)
     (\<lambda>db'. Inr (set_reservations (\<lambda>rs. rs_id rs = lr_id r) (\<lambda>rs. rs\<lparr>rs_status := RELEASED\<rparr>) db')))"

definition cancelOrderStock ::
  "uuid \<Rightarrow> (line_reservation \<times> int) list \<Rightarrow> uuid option \<Rightarrow> stock_db \<Rightarrow> stock_error + stock_db" where
  "cancelOrderStock orderId moves actor db =
     foldR (\<lambda>db m. cancel_step orderId actor m db) db (sorted_moves moves)"

record restock_move =
  rm_itemId :: uuid
  rm_locationId :: uuid
  rm_quantity :: int

definition restockStock ::
  "uuid \<Rightarrow> restock_move list \<Rightarrow> uuid option \<Rightarrow> stock_db \<Rightarrow> stock_error + stock_db" where
  "restockStock orderId moves actor db =
     (let sorted = sortBy (byLevel rm_itemId rm_locationId) (filter (\<lambda>m. rm_quantity m > 0) moves);
          db1 = foldl (\<lambda>db m. ensure_level (rm_itemId m) (rm_locationId m) db) db sorted
      in foldR (\<lambda>db m. moveLevel (order_move orderId RETURN actor (rm_itemId m) (rm_locationId m)
           (rm_quantity m) 0) db) db1 sorted)"


section \<open>Properties\<close>

subsection \<open>What one movement does\<close>

text \<open>The change a movement makes to a quantity.\<close>

fun move_effect :: "level_move \<Rightarrow> stock_key \<Rightarrow> int" where
  "move_effect m (i, l, n) = (if i = lm_item m \<and> l = lm_location m
     then (case n of AVAILABLE \<Rightarrow> lm_available m | RESERVED \<Rightarrow> lm_reserved m) else 0)"

lemma appendMovements_Inr:
  assumes "appendMovements rows db = Inr db'"
  shows "quantity db' k = quantity db k"
    "logged db' k = logged db k + sum_list (map mv_delta (filter (\<lambda>m. movement_key m = k) rows))"
    "tables_ok db \<Longrightarrow> tables_ok db'" "sd_reservations db' = sd_reservations db"
    "sd_items db' = sd_items db" "sd_locations db' = sd_locations db" "sd_levels db' = sd_levels db"
  using assms unfolding appendMovements_def
proof (induction rows arbitrary: db)
  case (Cons m rows)
  {
    case 1
    with Cons.IH(1) show ?case
      by (auto simp: bindR_eq_Inr quantity_insert_movement split: if_splits)
  next
    case 2
    with Cons.IH(2) show ?case
      by (auto simp: bindR_eq_Inr logged_insert_movement split: if_splits)
  next
    case 3
    with Cons.IH(3) show ?case
      by (auto simp: bindR_eq_Inr split: if_splits dest: tables_insert_movement)
  next
    case 4
    with Cons.IH(4) show ?case
      by (auto simp: bindR_eq_Inr dest!: insert_movement_Inr(1) split: if_splits)
  next
    case 5
    with Cons.IH(5) show ?case
      by (auto simp: bindR_eq_Inr dest!: insert_movement_Inr(1) split: if_splits)
  next
    case 6
    with Cons.IH(6) show ?case
      by (auto simp: bindR_eq_Inr dest!: insert_movement_Inr(1) split: if_splits)
  next
    case 7
    with Cons.IH(7) show ?case
      by (auto simp: bindR_eq_Inr dest!: insert_movement_Inr(1) split: if_splits)
  }
qed simp_all

lemma moveLevel_steps:
  assumes "moveLevel m db = Inr db'"
  obtains db1 row rows where
    "update_levels (at_level (lm_item m) (lm_location m)) (add_units (lm_available m) (lm_reserved m)) db
       = Inr (db1, row # rows)"
    "appendMovements [move_row m AVAILABLE (lm_available m) (lv_available row),
       move_row m RESERVED (lm_reserved m) (lv_reserved row)] db1 = Inr db'"
proof -
  from assms obtain db1 rows where u: "update_levels (at_level (lm_item m) (lm_location m))
      (add_units (lm_available m) (lm_reserved m)) db = Inr (db1, rows)"
    and a: "(case rows of [] \<Rightarrow> Inl (STOCK_ERROR ''inventory level disappeared under lock'')
      | row # _ \<Rightarrow> appendMovements
          [move_row m AVAILABLE (lm_available m) (lv_available row),
           move_row m RESERVED (lm_reserved m) (lv_reserved row)] db1) = Inr db'"
    by (auto simp: moveLevel_def bindR_eq_Inr)
  then show ?thesis using that by (cases rows) auto
qed

lemma moveLevel_find:
  assumes "moveLevel m db = Inr db'"
  shows "find_level db' i l = map_option (\<lambda>lv. if i = lm_item m \<and> l = lm_location m
     then add_units (lm_available m) (lm_reserved m) lv else lv) (find_level db i l)"
  using assms
proof (cases rule: moveLevel_steps)
  case (1 db1 row rows)
  have "find_level db' i l = find_level db1 i l" by (simp add: find_level_def appendMovements_Inr(7)[OF 1(2)])
  moreover have "at_level i l lv" if "find_level db i l = Some lv" for lv
    using that unfolding find_level_def by (auto dest: find_Some_iff2)
  ultimately show ?thesis
    by (cases "find_level db i l") (auto simp: find_level_update[OF 1(1)] at_level_def)
qed

lemma moveLevel_exists:
  assumes "moveLevel m db = Inr db'"
  obtains lv where "find_level db (lm_item m) (lm_location m) = Some lv"
  using assms
proof (cases rule: moveLevel_steps)
  case (1 db1 row rows)
  have "filter (at_level (lm_item m) (lm_location m)) (sd_levels db) \<noteq> []"
    using update_levels_Inr(2)[OF 1(1)] by auto
  then obtain lv where "lv \<in> set (sd_levels db)" "at_level (lm_item m) (lm_location m) lv"
    by (auto simp: filter_empty_conv)
  then have "find_level db (lm_item m) (lm_location m) \<noteq> None" by (auto simp: find_level_def find_None_iff2)
  then show ?thesis using that by auto
qed

lemma moveLevel_quantity:
  assumes "moveLevel m db = Inr db'"
  shows "quantity db' k = quantity db k + move_effect m k"
proof -
  obtain i l n where k: "k = (i, l, n)" by (cases k)
  obtain lv where "find_level db (lm_item m) (lm_location m) = Some lv"
    using moveLevel_exists[OF assms] .
  then show ?thesis
    by (cases n; cases "find_level db i l") (auto simp: k quantity.simps moveLevel_find[OF assms])
qed

lemma moveLevel_logged:
  assumes "moveLevel m db = Inr db'"
  shows "logged db' k = logged db k + move_effect m k"
  using assms
proof (cases rule: moveLevel_steps)
  case (1 db1 row rows)
  obtain i l n where k: "k = (i, l, n)" by (cases k)
  show ?thesis
    using logged_cong[OF update_levels_other(1)[OF 1(1)], of k] appendMovements_Inr(2)[OF 1(2), of k]
    by (cases n) (auto simp: k movement_key_def move_row_def)
qed

lemma moveLevel_tables: "moveLevel m db = Inr db' \<Longrightarrow> tables_ok db \<Longrightarrow> tables_ok db'"
  by (elim moveLevel_steps) (blast intro: appendMovements_Inr(3) tables_update)

lemma moveLevel_other:
  assumes "moveLevel m db = Inr db'"
  shows "sd_reservations db' = sd_reservations db" "sd_items db' = sd_items db" "sd_locations db' = sd_locations db"
  using assms
  by (elim moveLevel_steps; simp add: appendMovements_Inr(4-6) update_levels_other)+

interpretation moves: stock_operation moveLevel move_effect
  by unfold_locales (auto intro: moveLevel_quantity moveLevel_logged moveLevel_tables)

text \<open>When a movement succeeds.\<close>

lemma moveLevel_succeeds:
  assumes "find_level db (lm_item m) (lm_location m) = Some lv" "tables_ok db"
    and "sql_int4 (lv_available lv + lm_available m)" "sql_int4 (lv_reserved lv + lm_reserved m)"
    and "0 \<le> lv_reserved lv + lm_reserved m" "sql_int4 (lm_available m)" "sql_int4 (lm_reserved m)"
  shows "\<exists>db'. moveLevel m db = Inr db'"
proof -
  let ?sel = "at_level (lm_item m) (lm_location m)"
  have in_set: "lv \<in> set (sd_levels db)" "?sel lv"
    using assms(1) unfolding find_level_def by (auto dest: find_Some_iff2)
  have "lw = lv" if "lw \<in> set (sd_levels db)" "?sel lw" for lw
    using level_row_unique[OF assms(2) in_set(1) that(1) in_set(2) that(2)] .
  then have "\<forall>lw \<in> set (filter ?sel (sd_levels db)). lw = lv" by auto
  moreover obtain x xs where f: "filter ?sel (sd_levels db) = x # xs"
    using in_set by (cases "filter ?sel (sd_levels db)") (auto simp: filter_empty_conv)
  ultimately have "x = lv" "\<forall>lw \<in> set xs. lw = lv" by auto
  then show ?thesis
    using assms(3-7) f
    by (auto simp: moveLevel_def update_levels_def Let_def list_ex_iff appendMovements_def
        insert_movement_def move_row_def)
qed

text \<open>Rows the statements leave alone.\<close>

lemma set_reservations_simps [simp]:
  "quantity (set_reservations sel f db) k = quantity db k" "logged (set_reservations sel f db) k = logged db k"
  "sd_levels (set_reservations sel f db) = sd_levels db" "sd_items (set_reservations sel f db) = sd_items db"
  "find_level (set_reservations sel f db) i l = find_level db i l"
  by (simp_all add: set_reservations_def find_level_def)

lemma tables_set_reservations:
  assumes "tables_ok db" "\<And>r. rs_id (f r) = rs_id r \<and> rs_quantity (f r) = rs_quantity r"
  shows "tables_ok (set_reservations sel f db)"
proof -
  have "map rs_id (map (\<lambda>r. if sel r then f r else r) rs) = map rs_id rs" for rs
    using assms(2) by (induction rs) auto
  then show ?thesis using assms by (auto simp: tables_ok_def set_reservations_def simp del: map_map)
qed

lemma insert_reservation_Inr:
  assumes "insert_reservation r db = Inr db'"
  shows "db' = db\<lparr>sd_reservations := sd_reservations db @ [r\<lparr>rs_id := sd_next db\<rparr>], sd_next := Suc (sd_next db)\<rparr>"
    "0 < rs_quantity r" "sql_int4 (rs_quantity r)"
  using assms by (auto simp: insert_reservation_def split: if_splits)

lemma insert_reservation_keeps:
  assumes "insert_reservation r db = Inr db'"
  shows "quantity db' k = quantity db k" "logged db' k = logged db k" "tables_ok db \<Longrightarrow> tables_ok db'"
  using insert_reservation_Inr[OF assms]
  by (auto simp: tables_ok_def less_Suc_eq)


subsection \<open>The operations as runs of movements\<close>

definition units :: "line_reservation \<times> int \<Rightarrow> int" where
  "units m = max 0 (snd m)"

fun unit_effect :: "(quantity_name \<Rightarrow> int) \<Rightarrow> line_reservation \<times> int \<Rightarrow> stock_key \<Rightarrow> int" where
  "unit_effect sign m (i, l, n) =
     (if i = lr_itemId (fst m) \<and> l = lr_locationId (fst m) then sign n * units m else 0)"

fun fulfil_sign :: "quantity_name \<Rightarrow> int" where
  "fulfil_sign AVAILABLE = 0"
| "fulfil_sign RESERVED = -1"

fun cancel_sign :: "quantity_name \<Rightarrow> int" where
  "cancel_sign AVAILABLE = 1"
| "cancel_sign RESERVED = -1"

lemma fulfil_effect:
  "move_effect (order_move o' reason actor (lr_itemId r) (lr_locationId r) 0 (- q)) k =
     unit_effect fulfil_sign (r, q) k" if "0 < q"
  using that by (cases k) (auto simp: order_move_def units_def split: quantity_name.splits)

lemma cancel_effect:
  "move_effect (order_move o' reason actor (lr_itemId r) (lr_locationId r) q (- q)) k =
     unit_effect cancel_sign (r, q) k" if "0 < q"
  using that by (cases k) (auto simp: order_move_def units_def split: quantity_name.splits)

lemma unit_effect_none: "q \<le> 0 \<Longrightarrow> unit_effect sign (r, q) k = 0"
  by (cases k) (auto simp: units_def)

lemma fulfil_step_effect:
  assumes "fulfil_step orderId actor m db = Inr db'" "tables_ok db"
  shows "quantity db' k = quantity db k + unit_effect fulfil_sign m k"
    "logged db' k = logged db k + unit_effect fulfil_sign m k" "tables_ok db'"
    "sd_reservations db' = sd_reservations db"
  using assms
  by (cases m; auto simp: fulfil_step_def unit_effect_none moves.op_quantity moves.op_logged fulfil_effect
        moves.op_tables moveLevel_other split: if_splits)+

interpretation fulfils: stock_operation "fulfil_step orderId actor" "unit_effect fulfil_sign" for orderId actor
  by unfold_locales (auto intro: fulfil_step_effect)

lemma cancel_step_steps:
  assumes "cancel_step orderId actor (r, q) db = Inr db'"
  obtains mid where "if q > 0
      then moveLevel (order_move orderId CANCELLATION actor (lr_itemId r) (lr_locationId r) q (- q)) db = Inr mid
      else mid = db"
    "db' = set_reservations (\<lambda>rs. rs_id rs = lr_id r) (\<lambda>rs. rs\<lparr>rs_status := RELEASED\<rparr>) mid"
  using assms by (auto simp: cancel_step_def bindR_eq_Inr split: if_splits)

lemma cancel_step_effect:
  assumes "cancel_step orderId actor m db = Inr db'" "tables_ok db"
  shows "quantity db' k = quantity db k + unit_effect cancel_sign m k"
    "logged db' k = logged db k + unit_effect cancel_sign m k" "tables_ok db'"
  using assms
  by (cases m; auto elim!: cancel_step_steps intro!: tables_set_reservations simp: unit_effect_none
        moves.op_quantity moves.op_logged cancel_effect moves.op_tables split: if_splits)+

interpretation cancels: stock_operation "cancel_step orderId actor" "unit_effect cancel_sign" for orderId actor
  by unfold_locales (auto intro: cancel_step_effect)

text \<open>Reserving at a location, and the cases of the reservation loop.\<close>

lemma reserve_at_steps:
  assumes "reserve_at checkoutId expiresAt item location q db = Inr db'"
  obtains m mid where "m = \<lparr>lm_item = item, lm_location = location, lm_available = - q, lm_reserved = q,
      lm_reason = RESERVATION, lm_reference = (REF_CHECKOUT, checkoutId), lm_actor = None\<rparr>"
    "moveLevel m db = Inr mid"
    "insert_reservation \<lparr>rs_id = 0, rs_item = item, rs_location = location, rs_checkout = checkoutId,
         rs_order = None, rs_orderLine = None, rs_quantity = q, rs_status = ACTIVE,
         rs_expiresAt = expiresAt\<rparr> mid = Inr db'"
  using assms by (auto simp: reserve_at_def bindR_eq_Inr)

fun reserve_effect :: "uuid \<Rightarrow> uuid \<Rightarrow> int \<Rightarrow> stock_key \<Rightarrow> int" where
  "reserve_effect item location q (i, l, n) =
     (if i = item \<and> l = location then (case n of AVAILABLE \<Rightarrow> - q | RESERVED \<Rightarrow> q) else 0)"

lemma reserve_at_effect:
  assumes "reserve_at checkoutId expiresAt item location q db = Inr db'" "tables_ok db"
  shows "quantity db' k = quantity db k + reserve_effect item location q k"
    "logged db' k = logged db k + reserve_effect item location q k" "tables_ok db'"
    "0 < q" "sd_items db' = sd_items db"
proof -
  obtain m mid where m: "m = \<lparr>lm_item = item, lm_location = location, lm_available = - q, lm_reserved = q,
      lm_reason = RESERVATION, lm_reference = (REF_CHECKOUT, checkoutId), lm_actor = None\<rparr>"
    and mv: "moveLevel m db = Inr mid"
    and ins: "insert_reservation \<lparr>rs_id = 0, rs_item = item, rs_location = location, rs_checkout = checkoutId,
         rs_order = None, rs_orderLine = None, rs_quantity = q, rs_status = ACTIVE,
         rs_expiresAt = expiresAt\<rparr> mid = Inr db'"
    using reserve_at_steps[OF assms(1)] by blast
  have "move_effect m k = reserve_effect item location q k" by (cases k) (auto simp: m split: quantity_name.splits)
  then show "quantity db' k = quantity db k + reserve_effect item location q k"
    "logged db' k = logged db k + reserve_effect item location q k"
    by (simp_all add: insert_reservation_keeps[OF ins] moveLevel_quantity[OF mv] moveLevel_logged[OF mv])
  show "tables_ok db'" by (rule insert_reservation_keeps(3)[OF ins moveLevel_tables[OF mv assms(2)]])
  show "0 < q" using insert_reservation_Inr(2)[OF ins] by simp
  show "sd_items db' = sd_items db" by (simp add: insert_reservation_Inr(1)[OF ins] moveLevel_other[OF mv])
qed


lemma supplier_Some:
  assumes "supplier (candidate_levels levels locations i) q = Some location"
  obtains lv where "lv \<in> set levels" "lv_item lv = i" "lv_location lv = location" "q \<le> lv_available lv"
proof -
  from assms obtain lv where "find (\<lambda>lv. q \<le> lv_available lv) (candidate_levels levels locations i) = Some lv"
    and loc: "lv_location lv = location"
    unfolding supplier_def by auto
  then have "lv \<in> set (candidate_levels levels locations i)" "q \<le> lv_available lv"
    by (auto dest: find_Some_iff2)
  with loc show ?thesis using that by (auto simp: candidate_levels_def)
qed

text \<open>One round of the reservation loop.\<close>

lemma reserve_items_round:
  assumes "reserve_items force checkoutId expiresAt quantities levels locations (item # items) shortage db = Inr (db', res)"
  obtains (supplied) q lv mid where "lv \<in> set levels" "lv_item lv = it_id item" "q \<le> lv_available lv"
      "reserve_at checkoutId expiresAt (it_id item) (lv_location lv) q db = Inr mid"
      "reserve_items force checkoutId expiresAt quantities levels locations items shortage mid = Inr (db', res)"
  | (refused) "is_deny item" "\<not> force" "db' = db" "res = NO_STOCK (it_variantId item)"
  | (skipped) "force \<or> \<not> is_deny item"
      "reserve_items force checkoutId expiresAt quantities levels locations items (shortage \<or> is_deny item) db = Inr (db', res)"
  | (oversold) q location start mid where "force \<or> \<not> is_deny item"
      "start = db \<or> start = ensure_level (it_id item) location db"
      "reserve_at checkoutId expiresAt (it_id item) location q start = Inr mid"
      "reserve_items force checkoutId expiresAt quantities levels locations items (shortage \<or> is_deny item) mid = Inr (db', res)"
proof -
  define q where "q = (case map_of quantities (it_variantId item) of None \<Rightarrow> 0 | Some n \<Rightarrow> n)"
  define cs where "cs = candidate_levels levels locations (it_id item)"
  note eq = assms[unfolded reserve_items.simps Let_def, folded q_def cs_def]
  show ?thesis
  proof (cases "supplier cs q")
    case (Some location)
    obtain lv where "lv \<in> set levels" "lv_item lv = it_id item" "lv_location lv = location" "q \<le> lv_available lv"
      using supplier_Some[OF Some[unfolded cs_def]] .
    with eq Some show ?thesis by (auto simp: bindR_eq_Inr intro: supplied)
  next
    case None
    show ?thesis
    proof (cases "is_deny item \<and> \<not> force")
      case True
      with eq None show ?thesis by (auto intro: refused)
    next
      case False
      show ?thesis
      proof (cases "fallback cs locations")
        case None': None
        with eq None False show ?thesis by (intro skipped) (auto split: if_splits)
      next
        case (Some location)
        define start where "start = (if \<not> list_ex (\<lambda>lv. lv_location lv = location) cs
            then ensure_level (it_id item) location db else db)"
        have "bindR (reserve_at checkoutId expiresAt (it_id item) location q start)
            (reserve_items force checkoutId expiresAt quantities levels locations items (shortage \<or> is_deny item)) = Inr (db', res)"
          using eq None False Some by (simp add: start_def split: if_splits)
        then obtain mid where "reserve_at checkoutId expiresAt (it_id item) location q start = Inr mid"
          "reserve_items force checkoutId expiresAt quantities levels locations items (shortage \<or> is_deny item) mid = Inr (db', res)"
          by (auto simp: bindR_eq_Inr)
        moreover have "start = db \<or> start = ensure_level (it_id item) location db" by (simp add: start_def)
        ultimately show ?thesis using oversold False by blast
      qed
    qed
  qed
qed

text \<open>What every round keeps, the whole reservation keeps.\<close>

lemma reserve_items_invariant:
  assumes "reserve_items force checkoutId expiresAt quantities levels locations items shortage db = Inr (db', res)"
    and "P db" "\<And>i l u. P u \<Longrightarrow> P (ensure_level i l u)"
    and "\<And>i l q u v. P u \<Longrightarrow> reserve_at checkoutId expiresAt i l q u = Inr v \<Longrightarrow> P v"
  shows "P db'"
  using assms(1,2)
proof (induction items arbitrary: shortage db)
  case (Cons item items)
  from Cons.prems(1) show ?case
  proof (cases rule: reserve_items_round)
    case (supplied q lv mid)
    then show ?thesis using Cons.IH assms(4) Cons.prems(2) by blast
  next
    case (oversold q location start mid)
    then show ?thesis using Cons.IH assms(3,4) Cons.prems(2) by blast
  qed (use Cons in auto)
qed simp

lemma reserveStock_invariant:
  assumes "reserveStock checkoutId ls expiresAt force db = Inr (db', res)"
    and "P db" "\<And>i l u. P u \<Longrightarrow> P (ensure_level i l u)"
    and "\<And>i l q u v. P u \<Longrightarrow> reserve_at checkoutId expiresAt i l q u = Inr v \<Longrightarrow> P v"
  shows "P db'"
  using assms(1) reserve_items_invariant[of force checkoutId expiresAt _ _ _ _ _ db db' res P] assms(2-4)
  by (auto simp: reserveStock_def Let_def split: if_splits)

lemma reserveStock_tables:
  assumes "reserveStock checkoutId ls expiresAt force db = Inr (db', res)" "tables_ok db"
  shows "tables_ok db'"
  using assms by (rule reserveStock_invariant) (auto intro: tables_ensure_level reserve_at_effect(3))

lemma reserveStock_on_hand:
  assumes "reserveStock checkoutId ls expiresAt force db = Inr (db', res)" "tables_ok db"
  shows "on_hand db' i l = on_hand db i l"
proof -
  have "tables_ok db' \<and> on_hand db' i l = on_hand db i l"
    using assms(1)
    by (rule reserveStock_invariant[where P = "\<lambda>u. tables_ok u \<and> on_hand u i l = on_hand db i l"])
      (use assms(2) in \<open>auto simp: on_hand_def reserve_at_effect intro: tables_ensure_level reserve_at_effect(3)\<close>)
  then show ?thesis by simp
qed

lemma reserveStock_ledger:
  assumes "reserveStock checkoutId ls expiresAt force db = Inr (db', res)" "tables_ok db" "ledger_ok db"
  shows "ledger_ok db'"
proof -
  have "tables_ok db' \<and> ledger_ok db'"
    using assms(1)
    by (rule reserveStock_invariant[where P = "\<lambda>u. tables_ok u \<and> ledger_ok u"])
      (use assms(2,3) in \<open>auto simp: ledger_ok_iff reserve_at_effect intro: tables_ensure_level reserve_at_effect(3)\<close>)
  then show ?thesis by simp
qed


subsection \<open>Nothing is oversold\<close>

lemma reserve_at_quantity_other:
  assumes "reserve_at checkoutId expiresAt item location q db = Inr db'" "tables_ok db" "i \<noteq> item"
  shows "quantity db' (i, l, n) = quantity db (i, l, n)"
  using reserve_at_effect(1)[OF assms(1,2), of "(i, l, n)"] assms(3) by simp

lemma reserve_items_other:
  assumes "reserve_items force checkoutId expiresAt quantities levels locations items shortage db = Inr (db', res)"
    and "tables_ok db" "i \<notin> it_id ` set items"
  shows "quantity db' (i, l, n) = quantity db (i, l, n)"
  using assms
proof (induction items arbitrary: shortage db)
  case (Cons item items)
  from Cons.prems(1) show ?case
  proof (cases rule: reserve_items_round)
    case (supplied q lv mid)
    then show ?thesis
      using Cons.IH[OF supplied(5)] Cons.prems(2,3) reserve_at_quantity_other[OF supplied(4)]
        reserve_at_effect(3)[OF supplied(4)] by simp
  next
    case (oversold q location start mid)
    have "tables_ok start" "quantity start (i, l, n) = quantity db (i, l, n)"
      using oversold(2) Cons.prems(2) by (auto intro: tables_ensure_level)
    then show ?thesis
      using Cons.IH[OF oversold(4)] Cons.prems(3) reserve_at_quantity_other[OF oversold(3)]
        reserve_at_effect(3)[OF oversold(3)] by simp
  qed (use Cons in auto)
qed simp

text \<open>
  A round of the loop takes a denied item only from a level that has the quantity: the
  snapshot of the levels is still what the database holds for the items that are left.
\<close>

lemma reserve_items_deny:
  assumes "reserve_items False checkoutId expiresAt quantities levels locations items shortage db = Inr (db', RESERVED_OK s)"
    and "tables_ok db" "distinct (map it_id items)"
    and "\<forall>lv \<in> set levels. lv_item lv \<in> it_id ` set items \<longrightarrow>
      quantity db (lv_item lv, lv_location lv, AVAILABLE) = lv_available lv"
  shows "s = shortage \<and> (\<forall>item \<in> set items. is_deny item \<longrightarrow>
    (\<forall>l. quantity db' (it_id item, l, AVAILABLE) < quantity db (it_id item, l, AVAILABLE) \<longrightarrow>
       0 \<le> quantity db' (it_id item, l, AVAILABLE)))"
  using assms
proof (induction items arbitrary: shortage db)
  case (Cons item items)
  let ?k = "\<lambda>i l. (i, l, AVAILABLE)"
  have fresh: "it_id item \<notin> it_id ` set items" using Cons.prems(3) by auto
  have step: ?case
    if rest: "reserve_items False checkoutId expiresAt quantities levels locations items short mid = Inr (db', RESERVED_OK s)"
      and short: "short = shortage" and ok: "tables_ok mid"
      and others: "\<And>i l. i \<noteq> it_id item \<Longrightarrow> quantity mid (?k i l) = quantity db (?k i l)"
      and own: "\<And>l. is_deny item \<Longrightarrow> quantity mid (?k (it_id item) l) < quantity db (?k (it_id item) l) \<Longrightarrow>
        0 \<le> quantity mid (?k (it_id item) l)" for short mid
  proof -
    have "\<forall>lv \<in> set levels. lv_item lv \<in> it_id ` set items \<longrightarrow>
        quantity mid (lv_item lv, lv_location lv, AVAILABLE) = lv_available lv"
    proof (intro ballI impI)
      fix lv assume lv: "lv \<in> set levels" "lv_item lv \<in> it_id ` set items"
      then have "lv_item lv \<noteq> it_id item" using fresh by metis
      then show "quantity mid (lv_item lv, lv_location lv, AVAILABLE) = lv_available lv"
        using others Cons.prems(4) lv by simp
    qed
    from Cons.IH[OF rest ok _ this] Cons.prems(3)
    have ih: "s = short" "\<forall>it \<in> set items. is_deny it \<longrightarrow> (\<forall>l. quantity db' (?k (it_id it) l) < quantity mid (?k (it_id it) l) \<longrightarrow>
        0 \<le> quantity db' (?k (it_id it) l))" by auto
    have "quantity mid (?k (it_id it) l) = quantity db (?k (it_id it) l)" if "it \<in> set items" for it l
      using others fresh that by (metis imageI)
    moreover have "quantity db' (?k (it_id item) l) = quantity mid (?k (it_id item) l)" for l
      by (rule reserve_items_other[OF rest ok fresh])
    ultimately show ?thesis using ih own short by auto
  qed
  from Cons.prems(1) show ?case
  proof (cases rule: reserve_items_round)
    case (supplied q lv mid)
    have av: "quantity db (?k (it_id item) (lv_location lv)) = lv_available lv"
      using Cons.prems(4) supplied(1,2) by auto
    note eff = reserve_at_effect[OF supplied(4) Cons.prems(2)]
    show ?thesis
    proof (rule step[OF supplied(5) refl eff(3)])
      show "quantity mid (?k i l) = quantity db (?k i l)" if "i \<noteq> it_id item" for i l
        using eff(1)[of "?k i l"] that by simp
      show "0 \<le> quantity mid (?k (it_id item) l)"
        if "quantity mid (?k (it_id item) l) < quantity db (?k (it_id item) l)" for l
        using eff(1)[of "?k (it_id item) l"] that av supplied(3) by (auto split: if_splits)
    qed
  next
    case skipped
    then show ?thesis using step[OF skipped(2)] Cons.prems(2) by simp
  next
    case (oversold q location start mid)
    have st: "tables_ok start" "\<And>k. quantity start k = quantity db k"
      using oversold(2) Cons.prems(2) by (auto intro: tables_ensure_level)
    note eff = reserve_at_effect[OF oversold(3) st(1)]
    show ?thesis
    proof (rule step[OF oversold(4) _ eff(3)])
      show "quantity mid (?k i l) = quantity db (?k i l)" if "i \<noteq> it_id item" for i l
        using eff(1)[of "?k i l"] that st(2) by simp
    qed (use oversold(1) in auto)
  qed auto
qed simp

subsection \<open>What a checkout's reservations are\<close>

text \<open>The units the lines ask of a variant, and the sum \<open>reserveStock\<close> computes.\<close>

definition asked :: "stock_line list \<Rightarrow> uuid \<Rightarrow> int" where
  "asked ls v = sum_list (map sl_quantity (filter (\<lambda>l. sl_variantId l = v) ls))"

lemma line_quantities_asked:
  "map_of (line_quantities ls) v = (if v \<in> sl_variantId ` set ls then Some (asked ls v) else None)"
proof (induction ls rule: rev_induct)
  case Nil
  then show ?case by (simp add: line_quantities_def)
next
  case (snoc l ls)
  have "line_quantities (ls @ [l]) = AList.update (sl_variantId l)
      ((case map_of (line_quantities ls) (sl_variantId l) of None \<Rightarrow> 0 | Some n \<Rightarrow> n) + sl_quantity l) (line_quantities ls)"
    by (simp add: line_quantities_def)
  moreover have "asked ls u = 0" if "u \<notin> sl_variantId ` set ls" for u
  proof -
    have "filter (\<lambda>l. sl_variantId l = u) ls = []" using that by (auto simp: filter_empty_conv)
    then show ?thesis by (simp add: asked_def)
  qed
  ultimately show ?case using snoc.IH by (auto simp: update_conv' asked_def)
qed

lemma line_quantities_variants: "set (map fst (line_quantities ls)) = sl_variantId ` set ls"
proof -
  have "v \<notin> fst ` set (line_quantities ls) \<longleftrightarrow> v \<notin> sl_variantId ` set ls" for v
    using map_of_eq_None_iff[of "line_quantities ls" v] line_quantities_asked[of ls v] by (simp split: if_splits)
  then show ?thesis unfolding set_map by blast
qed

text \<open>The quantity and the place of an item in one run of the loop.\<close>

definition item_quantity :: "(uuid \<times> int) list \<Rightarrow> item_row \<Rightarrow> int" where
  "item_quantity quantities item = (case map_of quantities (it_variantId item) of None \<Rightarrow> 0 | Some n \<Rightarrow> n)"

definition place_of :: "(uuid \<times> int) list \<Rightarrow> level_row list \<Rightarrow> uuid list \<Rightarrow> item_row \<Rightarrow> uuid option" where
  "place_of quantities levels locations item =
     (let candidates = candidate_levels levels locations (it_id item)
      in case supplier candidates (item_quantity quantities item) of
           Some l \<Rightarrow> Some l | None \<Rightarrow> fallback candidates locations)"

definition reservation_of :: "uuid \<Rightarrow> date \<Rightarrow> uuid \<Rightarrow> uuid \<Rightarrow> int \<Rightarrow> reservation_row \<Rightarrow> bool" where
  "reservation_of checkoutId expiresAt i l q r \<longleftrightarrow> rs_item r = i \<and> rs_location r = l \<and> rs_quantity r = q \<and>
     rs_checkout r = checkoutId \<and> rs_status r = ACTIVE \<and> rs_expiresAt r = expiresAt \<and>
     rs_order r = None \<and> rs_orderLine r = None"

definition reserved_units :: "reservation_row list \<Rightarrow> stock_key \<Rightarrow> int" where
  "reserved_units rs k = sum_list (map (\<lambda>r. reserve_effect (rs_item r) (rs_location r) (rs_quantity r) k) rs)"

lemma reserve_at_row:
  assumes "reserve_at checkoutId expiresAt i l q db = Inr db'"
  shows "\<exists>r. sd_reservations db' = sd_reservations db @ [r] \<and> reservation_of checkoutId expiresAt i l q r \<and> 0 < q"
proof -
  obtain m mid where mv: "moveLevel m db = Inr mid"
    and ins: "insert_reservation \<lparr>rs_id = 0, rs_item = i, rs_location = l, rs_checkout = checkoutId,
         rs_order = None, rs_orderLine = None, rs_quantity = q, rs_status = ACTIVE, rs_expiresAt = expiresAt\<rparr> mid = Inr db'"
    using reserve_at_steps[OF assms] by metis
  show ?thesis using insert_reservation_Inr[OF ins] moveLevel_other[OF mv] by (simp add: reservation_of_def)
qed

lemma ensure_level_reservations [simp]: "sd_reservations (ensure_level i l db) = sd_reservations db"
  by (simp add: ensure_level_def split: option.splits)

lemma reserve_items_cases:
  assumes "reserve_items force checkoutId expiresAt quantities levels locations (item # items) shortage db = Inr (db', RESERVED_OK s)"
  obtains (placed) l start mid short where "place_of quantities levels locations item = Some l"
      "start = db \<or> start = ensure_level (it_id item) l db"
      "reserve_at checkoutId expiresAt (it_id item) l (item_quantity quantities item) start = Inr mid"
      "reserve_items force checkoutId expiresAt quantities levels locations items short mid = Inr (db', RESERVED_OK s)"
      "supplier (candidate_levels levels locations (it_id item)) (item_quantity quantities item) = None \<Longrightarrow> force \<or> \<not> is_deny item"
  | (unplaced) short where "place_of quantities levels locations item = None" "force \<or> \<not> is_deny item"
      "reserve_items force checkoutId expiresAt quantities levels locations items short db = Inr (db', RESERVED_OK s)"
proof -
  define q where "q = item_quantity quantities item"
  define cs where "cs = candidate_levels levels locations (it_id item)"
  note eq = assms[unfolded reserve_items.simps Let_def, folded item_quantity_def, folded q_def cs_def]
  have place: "place_of quantities levels locations item = (case supplier cs q of Some l \<Rightarrow> Some l | None \<Rightarrow> fallback cs locations)"
    unfolding place_of_def Let_def q_def cs_def ..
  show ?thesis
  proof (cases "supplier cs q")
    case (Some l)
    with eq show ?thesis by (auto simp: bindR_eq_Inr q_def cs_def place intro: placed)
  next
    case None
    with eq have go: "force \<or> \<not> is_deny item" by (auto split: if_splits)
    show ?thesis
    proof (cases "fallback cs locations")
      case None': None
      with eq None go show ?thesis by (intro unplaced) (auto simp: place split: if_splits)
    next
      case (Some l)
      define start where "start = (if \<not> list_ex (\<lambda>lv. lv_location lv = l) cs then ensure_level (it_id item) l db else db)"
      have "bindR (reserve_at checkoutId expiresAt (it_id item) l q start)
          (reserve_items force checkoutId expiresAt quantities levels locations items (shortage \<or> is_deny item)) = Inr (db', RESERVED_OK s)"
        using eq None go Some by (auto simp: start_def split: if_splits)
      then obtain mid where "reserve_at checkoutId expiresAt (it_id item) l q start = Inr mid"
        "reserve_items force checkoutId expiresAt quantities levels locations items (shortage \<or> is_deny item) mid = Inr (db', RESERVED_OK s)"
        by (auto simp: bindR_eq_Inr)
      moreover have "start = db \<or> start = ensure_level (it_id item) l db" by (simp add: start_def)
      ultimately show ?thesis using placed None Some go by (auto simp: place q_def)
    qed
  qed
qed

lemma list_all2_same_keys: "list_all2 R xs ys \<Longrightarrow> (\<And>x y. R x y \<Longrightarrow> g y = f x) \<Longrightarrow> map g ys = map f xs"
  by (induction rule: list_all2_induct) auto

lemma list_all2_in_right: "list_all2 R xs ys \<Longrightarrow> y \<in> set ys \<Longrightarrow> \<exists>x \<in> set xs. R x y"
  by (induction rule: list_all2_induct) auto

lemma reserve_items_rows:
  assumes "reserve_items force checkoutId expiresAt quantities levels locations items shortage db = Inr (db', RESERVED_OK s)"
    and "tables_ok db"
  shows "\<exists>news. sd_reservations db' = sd_reservations db @ news \<and>
    list_all2 (\<lambda>item r. place_of quantities levels locations item = Some (rs_location r) \<and> 0 < rs_quantity r \<and>
       reservation_of checkoutId expiresAt (it_id item) (rs_location r) (item_quantity quantities item) r)
      (filter (\<lambda>item. place_of quantities levels locations item \<noteq> None) items) news \<and>
    (\<forall>item \<in> set items. supplier (candidate_levels levels locations (it_id item)) (item_quantity quantities item) = None
       \<longrightarrow> force \<or> \<not> is_deny item) \<and>
    (\<forall>k. quantity db' k = quantity db k + reserved_units news k)"
  using assms
proof (induction items arbitrary: shortage db)
  case Nil
  then show ?case by (simp add: reserved_units_def)
next
  case (Cons item items)
  from Cons.prems(1) show ?case
  proof (cases rule: reserve_items_cases)
    case (placed l start mid short)
    have st: "tables_ok start" "\<And>k. quantity start k = quantity db k" "sd_reservations start = sd_reservations db"
      using placed(2) Cons.prems(2) by (auto intro: tables_ensure_level)
    note eff = reserve_at_effect[OF placed(3) st(1)]
    obtain r where r: "sd_reservations mid = sd_reservations start @ [r]"
      "reservation_of checkoutId expiresAt (it_id item) l (item_quantity quantities item) r" "0 < item_quantity quantities item"
      using reserve_at_row[OF placed(3)] by blast
    from Cons.IH[OF placed(4) eff(3)] obtain news where n: "sd_reservations db' = sd_reservations mid @ news"
      "list_all2 (\<lambda>item r. place_of quantities levels locations item = Some (rs_location r) \<and> 0 < rs_quantity r \<and>
         reservation_of checkoutId expiresAt (it_id item) (rs_location r) (item_quantity quantities item) r)
        (filter (\<lambda>item. place_of quantities levels locations item \<noteq> None) items) news"
      "\<forall>item \<in> set items. supplier (candidate_levels levels locations (it_id item)) (item_quantity quantities item) = None
         \<longrightarrow> force \<or> \<not> is_deny item"
      "\<forall>k. quantity db' k = quantity mid k + reserved_units news k" by blast
    have "quantity db' k = quantity db k + reserved_units (r # news) k" for k
      using n(4)[rule_format, of k] eff(1)[of k] st(2) r(2)
      by (simp add: reserved_units_def reservation_of_def del: reserve_effect.simps split_paired_All)
    then show ?thesis using n(1-3) placed(1,5) r st(3)
      by (intro exI[of _ "r # news"]) (auto simp: reservation_of_def)
  next
    case (unplaced short)
    have "supplier (candidate_levels levels locations (it_id item)) (item_quantity quantities item) = None"
      using unplaced(1) by (auto simp: place_of_def Let_def split: option.splits)
    then show ?thesis using Cons.IH[OF unplaced(3) Cons.prems(2)] unplaced(1,2) by auto
  qed
qed

text \<open>
  Where an item's units are taken: at the first online location, in the merchant's order, that has all of
  them, or, for an item that may be oversold, anywhere online when none has.
\<close>

definition best_place :: "stock_db \<Rightarrow> item_row \<Rightarrow> int \<Rightarrow> uuid \<Rightarrow> bool" where
  "best_place db item q l \<longleftrightarrow> (\<exists>before after. online_locations db = before @ l # after \<and>
     (\<forall>l' \<in> set before. quantity db (it_id item, l', AVAILABLE) < q) \<and>
     (q \<le> quantity db (it_id item, l, AVAILABLE)
      \<or> \<not> is_deny item \<and> (\<forall>l' \<in> set (online_locations db). quantity db (it_id item, l', AVAILABLE) < q)))"

lemma rank_of_nonneg: "rank_of xs l = Some i \<Longrightarrow> 0 \<le> i"
  by (induction xs arbitrary: i) (auto split: if_splits)

lemma rank_of_mem: "l \<in> set xs \<Longrightarrow> \<exists>i. rank_of xs l = Some i"
  by (induction xs) auto

lemma rank_of_split:
  "rank_of xs l = Some i \<Longrightarrow> \<exists>before after. xs = before @ l # after \<and> (\<forall>l' \<in> set before. \<exists>j < i. rank_of xs l' = Some j)"
proof (induction xs arbitrary: i)
  case (Cons x xs)
  show ?case
  proof (cases "x = l")
    case True
    then show ?thesis by (intro exI[of _ "[]"] exI[of _ xs]) auto
  next
    case False
    with Cons.prems obtain k where k: "rank_of xs l = Some k" "i = k + 1" by auto
    from Cons.IH[OF k(1)] obtain before after where b: "xs = before @ l # after"
      "\<forall>l' \<in> set before. \<exists>j < k. rank_of xs l' = Some j" by blast
    have "\<forall>l' \<in> set (x # before). \<exists>j < i. rank_of (x # xs) l' = Some j"
      using b(2) k rank_of_nonneg[OF k(1)] by fastforce
    then show ?thesis using b(1) by (intro exI[of _ "x # before"] exI[of _ after]) auto
  qed
qed simp

lemma find_least:
  assumes "sorted_wrt (\<lambda>x y. key x \<le> key y) xs" "find P xs = Some x" "y \<in> set xs" "P y"
  shows "(key x :: int) \<le> key y"
  using assms by (induction xs) (auto split: if_splits)

lemma candidate_levels_sorted:
  "sorted_wrt (\<lambda>x y. (case rank_of locations (lv_location x) of None \<Rightarrow> 0 | Some i \<Rightarrow> i)
     \<le> (case rank_of locations (lv_location y) of None \<Rightarrow> 0 | Some i \<Rightarrow> i)) (candidate_levels levels locations i)"
  using key_order.sorted_sortBy[of "\<lambda>lv. case rank_of locations (lv_location lv) of None \<Rightarrow> 0 | Some i \<Rightarrow> i"]
  by (simp add: candidate_levels_def byKey_def)

lemma place_of_best:
  assumes "tables_ok db" "item \<in> set items" "0 < q" "q = item_quantity quantities item"
    and "place_of quantities (item_levels db items) (online_locations db) item = Some l"
    and "supplier (candidate_levels (item_levels db items) (online_locations db) (it_id item)) q = None \<Longrightarrow> \<not> is_deny item"
  shows "best_place db item q l"
proof -
  let ?locs = "online_locations db" and ?q = "\<lambda>l. quantity db (it_id item, l, AVAILABLE)"
  let ?cs = "candidate_levels (item_levels db items) ?locs (it_id item)"
  have row: "\<exists>lv \<in> set ?cs. lv_location lv = l' \<and> lv_available lv = ?q l'" if "l' \<in> set ?locs" "q \<le> ?q l'" for l'
  proof -
    from that(2) assms(3) obtain lv where lv: "find_level db (it_id item) l' = Some lv" "lv_available lv = ?q l'"
      by (auto simp: quantity.simps split: option.splits)
    then have "lv \<in> set (sd_levels db)" "at_level (it_id item) l' lv" unfolding find_level_def by (auto dest: find_Some_iff2)
    then show ?thesis using assms(2) lv(2) rank_of_mem[OF that(1)]
      by (intro bexI[of _ lv]) (auto simp: candidate_levels_def item_levels_def at_level_def)
  qed
  have cs: "lv_location lv \<in> set ?locs" "?q (lv_location lv) = lv_available lv" if "lv \<in> set ?cs" for lv
  proof -
    from that have "lv \<in> set (sd_levels db)" "lv_item lv = it_id item" "rank_of ?locs (lv_location lv) \<noteq> None"
      by (auto simp: candidate_levels_def item_levels_def)
    then show "lv_location lv \<in> set ?locs" "?q (lv_location lv) = lv_available lv"
      using quantity_of_row(1)[OF assms(1), of lv] rank_of_split[of ?locs "lv_location lv"] by auto
  qed
  show ?thesis
  proof (cases "supplier ?cs q")
    case (Some l')
    then have "l' = l" using assms(4,5) by (simp add: place_of_def)
    with Some obtain lv where lv: "find (\<lambda>lv. q \<le> lv_available lv) ?cs = Some lv" "lv_location lv = l"
      by (auto simp: supplier_def)
    then have in_cs: "lv \<in> set ?cs" "q \<le> lv_available lv" by (auto dest: find_Some_iff2)
    obtain i where i: "rank_of ?locs l = Some i" using rank_of_mem[OF cs(1)[OF in_cs(1)]] lv(2) by auto
    obtain before after where b: "?locs = before @ l # after" "\<forall>l' \<in> set before. \<exists>j < i. rank_of ?locs l' = Some j"
      using rank_of_split[OF i] by blast
    have "?q l' < q" if l': "l' \<in> set before" for l'
    proof (rule ccontr)
      assume "\<not> ?q l' < q"
      then obtain lw where lw: "lw \<in> set ?cs" "lv_location lw = l'" "q \<le> lv_available lw"
        using row[of l'] l' b(1) by auto
      from find_least[OF candidate_levels_sorted lv(1) lw(1,3)] i lw(2) lv(2) b(2) l' show False by fastforce
    qed
    then show ?thesis using b(1) in_cs cs(2)[OF in_cs(1)] lv(2) unfolding best_place_def by auto
  next
    case None
    then have none: "?q l' < q" if "l' \<in> set ?locs" for l'
      using row[of l'] that by (auto simp: supplier_def find_None_iff not_le) (metis not_le)
    have "fallback ?cs ?locs = Some l" using assms(4,5) None by (simp add: place_of_def)
    then have "l \<in> set ?locs" using cs(1) by (auto simp: fallback_def split: list.splits)
    then obtain before after where "?locs = before @ l # after" by (auto dest: split_list)
    then show ?thesis using none assms(6)[OF None] unfolding best_place_def by auto
  qed
qed

text \<open>
  C6: reserving takes exactly what was asked, and nothing is oversold. When \<open>reserveStock\<close> accepts a
  checkout without \<open>force\<close>, it adds one active reservation for every tracked item of the requested
  variants, for the summed quantity of the variant's lines, all at one location: the first online location
  in the merchant's order that has all of it (an item that may be oversold is taken anywhere online when
  none has; only such an item, of a store without an online location, stays without a reservation). The
  quantities change by these reservations and by nothing else, there is no shortage, and every level of an
  item that must not be oversold from which units were taken still has no fewer than zero available units.
\<close>

theorem reserveStock_never_oversells:
  assumes "reserveStock checkoutId ls expiresAt False db = Inr (db', RESERVED_OK s)"
    and "tables_ok db" "distinct (map it_id (sd_items db))"
  shows "(\<exists>news. sd_reservations db' = sd_reservations db @ news \<and> distinct (map rs_item news) \<and>
      (\<forall>r \<in> set news. \<exists>item \<in> set (sd_items db). it_tracked item \<and> it_variantId item \<in> sl_variantId ` set ls \<and>
         reservation_of checkoutId expiresAt (it_id item) (rs_location r) (asked ls (it_variantId item)) r \<and>
         best_place db item (rs_quantity r) (rs_location r)) \<and>
      (\<forall>item \<in> set (sd_items db). it_tracked item \<and> it_variantId item \<in> sl_variantId ` set ls \<longrightarrow>
         it_id item \<in> rs_item ` set news \<or> \<not> is_deny item \<and> online_locations db = []) \<and>
      (\<forall>k. quantity db' k = quantity db k + reserved_units news k)) \<and>
    \<not> s \<and> (\<forall>item \<in> set (sd_items db). is_deny item \<longrightarrow>
    (\<forall>l. quantity db' (it_id item, l, AVAILABLE) < quantity db (it_id item, l, AVAILABLE) \<longrightarrow>
       0 \<le> quantity db' (it_id item, l, AVAILABLE)))"
proof -
  let ?items = "tracked_items db (line_quantities ls)"
  have items: "item \<in> set ?items \<longleftrightarrow> item \<in> set (sd_items db) \<and> it_tracked item \<and> it_variantId item \<in> sl_variantId ` set ls" for item
    by (auto simp: tracked_items_def line_quantities_variants[unfolded set_map] image_iff)
  show ?thesis
  proof (cases "line_quantities ls = [] \<or> ?items = []")
    case True
    then have "?items = []" by (auto simp: tracked_items_def)
    then show ?thesis using True assms(1) items
      by (intro conjI exI[of _ "[]"]) (auto simp: reserveStock_def Let_def reserved_units_def split: if_splits)
  next
    case False
    with assms(1) have run: "reserve_items False checkoutId expiresAt (line_quantities ls) (item_levels db ?items)
        (online_locations db) ?items False db = Inr (db', RESERVED_OK s)"
      by (simp add: reserveStock_def Let_def)
    let ?place = "place_of (line_quantities ls) (item_levels db ?items) (online_locations db)"
    have dist: "distinct (map it_id ?items)"
      using assms(3) by (simp add: tracked_items_def distinct_map_filter)
    have q: "item_quantity (line_quantities ls) item = asked ls (it_variantId item)" if "item \<in> set ?items" for item
      using that items by (simp add: item_quantity_def line_quantities_asked)
    obtain news where n: "sd_reservations db' = sd_reservations db @ news"
      "list_all2 (\<lambda>item r. ?place item = Some (rs_location r) \<and> 0 < rs_quantity r \<and>
         reservation_of checkoutId expiresAt (it_id item) (rs_location r) (item_quantity (line_quantities ls) item) r)
        (filter (\<lambda>item. ?place item \<noteq> None) ?items) news"
      "\<forall>item \<in> set ?items. supplier (candidate_levels (item_levels db ?items) (online_locations db) (it_id item))
         (item_quantity (line_quantities ls) item) = None \<longrightarrow> \<not> is_deny item"
      "\<forall>k. quantity db' k = quantity db k + reserved_units news k"
      using reserve_items_rows[OF run assms(2)] by blast
    have ids: "map rs_item news = map it_id (filter (\<lambda>item. ?place item \<noteq> None) ?items)"
      by (rule list_all2_same_keys[OF n(2)]) (simp add: reservation_of_def)
    have rows: "\<exists>item \<in> set ?items. reservation_of checkoutId expiresAt (it_id item) (rs_location r) (asked ls (it_variantId item)) r \<and>
        best_place db item (rs_quantity r) (rs_location r)" if "r \<in> set news" for r
    proof -
      from list_all2_in_right[OF n(2) that] obtain item where it: "item \<in> set ?items" "?place item = Some (rs_location r)" "0 < rs_quantity r"
        "reservation_of checkoutId expiresAt (it_id item) (rs_location r) (item_quantity (line_quantities ls) item) r"
        by auto
      have rq: "rs_quantity r = item_quantity (line_quantities ls) item" using it(4) by (simp add: reservation_of_def)
      have "best_place db item (rs_quantity r) (rs_location r)"
        by (rule place_of_best[OF assms(2) it(1,3) rq it(2)]) (use n(3) it(1) rq in metis)
      then show ?thesis using it(1,4) q by auto
    qed
    have all: "it_id item \<in> rs_item ` set news \<or> \<not> is_deny item \<and> online_locations db = []" if "item \<in> set ?items" for item
    proof (cases "?place item")
      case (Some l)
      then have "it_id item \<in> set (map rs_item news)" unfolding ids using that by auto
      then show ?thesis by simp
    next
      case None
      then have "supplier (candidate_levels (item_levels db ?items) (online_locations db) (it_id item))
          (item_quantity (line_quantities ls) item) = None" "online_locations db = []"
        by (auto simp: place_of_def fallback_def Let_def split: option.splits list.splits)
      then show ?thesis using n(3) that by blast
    qed
    have "\<forall>lv \<in> set (item_levels db ?items). quantity db (lv_item lv, lv_location lv, AVAILABLE) = lv_available lv"
      using quantity_of_row[OF assms(2)] by (simp add: item_levels_def)
    with dist have *: "\<not> s" "\<forall>item \<in> set ?items. is_deny item \<longrightarrow>
        (\<forall>l. quantity db' (it_id item, l, AVAILABLE) < quantity db (it_id item, l, AVAILABLE) \<longrightarrow>
           0 \<le> quantity db' (it_id item, l, AVAILABLE))"
      using reserve_items_deny[OF run assms(2)] by auto
    have "quantity db' (it_id item, l, AVAILABLE) = quantity db (it_id item, l, AVAILABLE)"
      if "it_id item \<notin> it_id ` set ?items" for item l
      by (rule reserve_items_other[OF run assms(2) that])
    moreover have "item \<in> set ?items" if "item \<in> set (sd_items db)" "it_id item \<in> it_id ` set ?items" for item
      using that assms(3) by (auto simp: tracked_items_def distinct_map dest!: inj_onD)
    ultimately have deny: "\<forall>item \<in> set (sd_items db). is_deny item \<longrightarrow>
        (\<forall>l. quantity db' (it_id item, l, AVAILABLE) < quantity db (it_id item, l, AVAILABLE) \<longrightarrow>
           0 \<le> quantity db' (it_id item, l, AVAILABLE))" using *(2) by (metis less_irrefl)
    have "distinct (map rs_item news)" unfolding ids using dist by (simp add: distinct_map_filter)
    then show ?thesis using n(1,4) rows all items *(1) deny by (intro conjI exI[of _ news]) blast+
  qed
qed


subsection \<open>Reserved units are the claims of the reservations\<close>

text \<open>
  What a reservation still holds: all its units while it is active, the units not yet shipped
  once an order has it (\<open>used\<close> counts the shipped ones, which the order's lines keep), and
  nothing when it is released.
\<close>

definition claim :: "(uuid \<Rightarrow> int) \<Rightarrow> reservation_row \<Rightarrow> int" where
  "claim used r = (case rs_status r of ACTIVE \<Rightarrow> rs_quantity r
     | CONVERTED \<Rightarrow> rs_quantity r - used (rs_id r) | RELEASED \<Rightarrow> 0)"

definition claim_at :: "(uuid \<Rightarrow> int) \<Rightarrow> uuid \<Rightarrow> uuid \<Rightarrow> reservation_row \<Rightarrow> int" where
  "claim_at used i l r = (if rs_item r = i \<and> rs_location r = l then claim used r else 0)"

definition claims :: "(uuid \<Rightarrow> int) \<Rightarrow> stock_db \<Rightarrow> uuid \<Rightarrow> uuid \<Rightarrow> int" where
  "claims used db i l = sum_list (map (claim_at used i l) (sd_reservations db))"

definition used_ok :: "(uuid \<Rightarrow> int) \<Rightarrow> stock_db \<Rightarrow> bool" where
  "used_ok used db \<longleftrightarrow> (\<forall>r \<in> set (sd_reservations db). rs_status r = CONVERTED \<longrightarrow>
     0 \<le> used (rs_id r) \<and> used (rs_id r) \<le> rs_quantity r)"

definition backed :: "(uuid \<Rightarrow> int) \<Rightarrow> stock_db \<Rightarrow> bool" where
  "backed used db \<longleftrightarrow> used_ok used db \<and> (\<forall>i l. quantity db (i, l, RESERVED) = claims used db i l)"

text \<open>The units on hand fit the columns.\<close>

definition capacity :: "stock_db \<Rightarrow> bool" where
  "capacity db \<longleftrightarrow> (\<forall>i l. sql_int4 (on_hand db i l))"

definition stock_ok :: "(uuid \<Rightarrow> int) \<Rightarrow> stock_db \<Rightarrow> bool" where
  "stock_ok used db \<longleftrightarrow> tables_ok db \<and> backed used db \<and> capacity db"

lemma claim_nonneg:
  assumes "tables_ok db" "used_ok used db" "r \<in> set (sd_reservations db)"
  shows "0 \<le> claim used r" "0 \<le> claim_at used i l r"
  using assms by (auto simp: claim_def claim_at_def tables_ok_def used_ok_def split: reservation_status.splits)

lemma sum_filter_le:
  fixes f :: "'a \<Rightarrow> int"
  assumes "\<forall>x \<in> set xs. 0 \<le> f x"
  shows "sum_list (map f (filter P xs)) \<le> sum_list (map f xs)"
  using assms by (induction xs) auto

lemma claims_filter_le:
  assumes "tables_ok db" "used_ok used db"
  shows "sum_list (map (claim_at used i l) (filter P (sd_reservations db))) \<le> claims used db i l"
  unfolding claims_def by (rule sum_filter_le) (use claim_nonneg(2)[OF assms] in blast)

lemma claim_le_claims:
  assumes "tables_ok db" "used_ok used db" "r \<in> set (sd_reservations db)"
  shows "claim used r \<le> claims used db (rs_item r) (rs_location r)"
proof -
  have "claim_at used (rs_item r) (rs_location r) r \<le>
      sum_list (map (claim_at used (rs_item r) (rs_location r)) (sd_reservations db))"
    by (rule member_le_sum_list_int[OF assms(3)]) (use claim_nonneg(2)[OF assms(1,2)] in blast)
  then show ?thesis by (simp add: claims_def claim_at_def)
qed

lemma claims_set_reservations:
  assumes "\<And>r. rs_item (f r) = rs_item r \<and> rs_location (f r) = rs_location r"
  shows "claims used (set_reservations sel f db) i l = claims used db i l +
    sum_list (map (\<lambda>r. claim_at used i l (f r) - claim_at used i l r) (filter sel (sd_reservations db)))"
proof -
  have "sum_list (map (claim_at used i l) (map (\<lambda>r. if sel r then f r else r) rs)) =
      sum_list (map (claim_at used i l) rs) +
      sum_list (map (\<lambda>r. claim_at used i l (f r) - claim_at used i l r) (filter sel rs))" for rs
    by (induction rs) auto
  then show ?thesis by (simp add: claims_def set_reservations_def)
qed

text \<open>Taking units out of the reserved ones: it succeeds when so many are reserved.\<close>

lemma sql_int4_between: "sql_int4 a \<Longrightarrow> sql_int4 b \<Longrightarrow> a \<le> x \<Longrightarrow> x \<le> b \<Longrightarrow> sql_int4 x"
  by (simp add: sql_int4_def)

lemma unreserve_succeeds:
  assumes "tables_ok db" "capacity db" "0 < q" "q \<le> quantity db (lm_item m, lm_location m, RESERVED)"
    and "lm_available m = 0 \<or> lm_available m = q" "lm_reserved m = - q"
  shows "\<exists>db'. moveLevel m db = Inr db'"
proof -
  obtain lv where lv: "find_level db (lm_item m) (lm_location m) = Some lv"
    using assms(3,4) by (cases "find_level db (lm_item m) (lm_location m)") (auto simp: quantity.simps)
  then have row: "lv \<in> set (sd_levels db)" by (auto simp: find_level_def dest: find_Some_iff2)
  have r: "q \<le> lv_reserved lv" using assms(4) lv by (simp add: quantity.simps)
  have ints: "sql_int4 (lv_available lv)" "sql_int4 (lv_reserved lv)" "0 \<le> lv_reserved lv"
    using assms(1) row by (auto simp: tables_ok_def)
  have oh: "sql_int4 (lv_available lv + lv_reserved lv)"
    using assms(2) lv unfolding capacity_def on_hand_def
    by (metis (no_types, lifting) option.simps(5) quantity.simps quantity_name.simps(3) quantity_name.simps(4))
  show ?thesis
  proof (rule moveLevel_succeeds[OF lv assms(1)])
    show "sql_int4 (lv_available lv + lm_available m)"
      using assms(3,5) r ints(1) sql_int4_between[OF ints(1) oh] by auto
    show "sql_int4 (lv_reserved lv + lm_reserved m)" "sql_int4 (lm_available m)" "sql_int4 (lm_reserved m)"
      using assms(3,5,6) r ints by (auto simp: sql_int4_def)
    show "0 \<le> lv_reserved lv + lm_reserved m" using r assms(6) by simp
  qed
qed


lemma claims_cong: "sd_reservations db' = sd_reservations db \<Longrightarrow> claims used db' i l = claims used db i l"
  by (simp add: claims_def)

lemma used_ok_cong: "sd_reservations db' = sd_reservations db \<Longrightarrow> used_ok used db' = used_ok used db"
  by (simp add: used_ok_def)

lemma stock_okI:
  assumes "tables_ok db" "used_ok used db" "\<And>i l. quantity db (i, l, RESERVED) = claims used db i l"
    and "\<And>i l. sql_int4 (on_hand db i l)"
  shows "stock_ok used db"
  using assms by (simp add: stock_ok_def backed_def capacity_def)

lemma stock_okD:
  assumes "stock_ok used db"
  shows "tables_ok db" "used_ok used db" "quantity db (i, l, RESERVED) = claims used db i l"
    "sql_int4 (on_hand db i l)" "capacity db" "backed used db"
  using assms by (simp_all add: stock_ok_def backed_def capacity_def)

lemma stock_ok_ensure_level:
  assumes "stock_ok used db"
  shows "stock_ok used (ensure_level i l db)"
proof (rule stock_okI)
  show "tables_ok (ensure_level i l db)" by (rule tables_ensure_level[OF stock_okD(1)[OF assms]])
  show "used_ok used (ensure_level i l db)" using stock_okD(2)[OF assms] by (simp add: used_ok_def)
  show "quantity (ensure_level i l db) (i', l', RESERVED) = claims used (ensure_level i l db) i' l'" for i' l'
    using stock_okD(3)[OF assms] by (simp add: claims_def)
  show "sql_int4 (on_hand (ensure_level i l db) i' l')" for i' l'
    using stock_okD(4)[OF assms] by (simp add: on_hand_def)
qed

lemma stock_ok_reserve_at:
  assumes "reserve_at checkoutId expiresAt item location q db = Inr db'" "stock_ok used db"
  shows "stock_ok used db'"
proof -
  note eff = reserve_at_effect[OF assms(1) stock_okD(1)[OF assms(2)]]
  obtain mid m where mv: "moveLevel m db = Inr mid"
    and ins: "insert_reservation \<lparr>rs_id = 0, rs_item = item, rs_location = location, rs_checkout = checkoutId,
         rs_order = None, rs_orderLine = None, rs_quantity = q, rs_status = ACTIVE,
         rs_expiresAt = expiresAt\<rparr> mid = Inr db'"
    using reserve_at_steps[OF assms(1)] by blast
  have rs: "sd_reservations db' = sd_reservations db @ [\<lparr>rs_id = sd_next mid, rs_item = item,
      rs_location = location, rs_checkout = checkoutId, rs_order = None, rs_orderLine = None,
      rs_quantity = q, rs_status = ACTIVE, rs_expiresAt = expiresAt\<rparr>]"
    using insert_reservation_Inr(1)[OF ins] moveLevel_other(1)[OF mv] by simp
  show ?thesis
  proof (rule stock_okI[OF eff(3)])
    show "used_ok used db'" using stock_okD(2)[OF assms(2)] by (simp add: used_ok_def rs)
    show "quantity db' (i, l, RESERVED) = claims used db' i l" for i l
      using stock_okD(3)[OF assms(2), of i l] by (simp add: claims_def rs claim_at_def claim_def eff(1))
    show "sql_int4 (on_hand db' i l)" for i l
      using stock_okD(4)[OF assms(2), of i l] by (auto simp: on_hand_def eff(1))
  qed
qed

lemma reserveStock_stock_ok:
  "reserveStock checkoutId ls expiresAt force db = Inr (db', res) \<Longrightarrow> stock_ok used db \<Longrightarrow> stock_ok used db'"
  by (erule reserveStock_invariant) (auto intro: stock_ok_ensure_level stock_ok_reserve_at)

text \<open>Release: the moves of a checkout's active reservations.\<close>

lemma release_effect:
  "move_effect (release_move checkoutId r) (i, l, n) = (if rs_item r = i \<and> rs_location r = l
     then (case n of AVAILABLE \<Rightarrow> rs_quantity r | RESERVED \<Rightarrow> - rs_quantity r) else 0)"
  by (auto simp: release_move_def split: quantity_name.splits)

abbreviation release_list :: "stock_db \<Rightarrow> uuid \<Rightarrow> reservation_row list" where
  "release_list db checkoutId \<equiv> sortBy (byLevel rs_item rs_location) (active_reservations db checkoutId)"

lemma release_sum:
  "sum_list (map (\<lambda>r. move_effect (release_move checkoutId r) (i, l, RESERVED)) (release_list db checkoutId)) =
   - sum_list (map (claim_at used i l) (active_reservations db checkoutId))"
  "sum_list (map (\<lambda>r. move_effect (release_move checkoutId r) (i, l, AVAILABLE)) (release_list db checkoutId)) =
   sum_list (map (claim_at used i l) (active_reservations db checkoutId))"
proof -
  have *: "\<forall>r \<in> set rs. rs_status r = ACTIVE \<Longrightarrow>
    sum_list (map (\<lambda>r. move_effect (release_move checkoutId r) (i, l, RESERVED)) rs) = - sum_list (map (claim_at used i l) rs) \<and>
    sum_list (map (\<lambda>r. move_effect (release_move checkoutId r) (i, l, AVAILABLE)) rs) = sum_list (map (claim_at used i l) rs)" for rs
    by (induction rs) (auto simp: release_effect claim_at_def claim_def simp del: move_effect.simps)
  show "sum_list (map (\<lambda>r. move_effect (release_move checkoutId r) (i, l, RESERVED)) (release_list db checkoutId)) =
   - sum_list (map (claim_at used i l) (active_reservations db checkoutId))"
    "sum_list (map (\<lambda>r. move_effect (release_move checkoutId r) (i, l, AVAILABLE)) (release_list db checkoutId)) =
   sum_list (map (claim_at used i l) (active_reservations db checkoutId))"
    using *[of "active_reservations db checkoutId"]
    unfolding sum_list_sortBy by (simp_all add: active_reservations_def)
qed

lemma release_run_succeeds:
  assumes "tables_ok db" "capacity db" "\<forall>r \<in> set rs. 0 < rs_quantity r"
    and "\<forall>i l. sum_list (map (\<lambda>r. if rs_item r = i \<and> rs_location r = l then rs_quantity r else 0) rs)
      \<le> quantity db (i, l, RESERVED)"
  shows "\<exists>db'. foldR (\<lambda>db m. moveLevel m db) db (map (release_move checkoutId) rs) = Inr db'"
  using assms
proof (induction rs arbitrary: db)
  case (Cons r rs)
  let ?need = "\<lambda>rs i l. sum_list (map (\<lambda>r. if rs_item r = i \<and> rs_location r = l then rs_quantity r else 0) rs)"
  have nonneg: "0 \<le> ?need rs i l" for i l
    by (rule sum_list_map_nonneg) (use Cons.prems(3) in auto)
  have "rs_quantity r \<le> quantity db (rs_item r, rs_location r, RESERVED)"
    using Cons.prems(4)[rule_format, of "rs_item r" "rs_location r"] nonneg[of "rs_item r" "rs_location r"] by simp
  then obtain mid where mid: "moveLevel (release_move checkoutId r) db = Inr mid"
    using unreserve_succeeds[OF Cons.prems(1,2), of "rs_quantity r" "release_move checkoutId r"] Cons.prems(3)
    by (auto simp: release_move_def)
  note q = moveLevel_quantity[OF mid] release_effect
  have "capacity mid" using Cons.prems(2) by (simp add: capacity_def on_hand_def q del: move_effect.simps)
  moreover have "?need rs i l \<le> quantity mid (i, l, RESERVED)" for i l
    using Cons.prems(4)[rule_format, of i l] by (auto simp: q simp del: move_effect.simps split: if_splits)
  ultimately obtain db' where "foldR (\<lambda>db m. moveLevel m db) mid (map (release_move checkoutId) rs) = Inr db'"
    using Cons.IH[OF moves.op_tables[OF mid Cons.prems(1)]] Cons.prems(3) by auto
  with mid show ?case by simp
qed simp


lemma moves_run_other:
  "foldR (\<lambda>db m. moveLevel m db) db ms = Inr db' \<Longrightarrow>
   sd_reservations db' = sd_reservations db \<and> sd_items db' = sd_items db"
  by (induction ms arbitrary: db) (auto simp: bindR_eq_Inr moveLevel_other)

lemma release_selects:
  assumes "tables_ok db"
  shows "filter (\<lambda>r. rs_id r \<in> set (map rs_id (release_list db checkoutId))) (sd_reservations db) =
    active_reservations db checkoutId"
  unfolding active_reservations_def
proof (rule filter_cong[OF refl])
  fix r assume r: "r \<in> set (sd_reservations db)"
  have "inj_on rs_id (set (sd_reservations db))" using assms by (simp add: tables_ok_def distinct_map)
  then show "(rs_id r \<in> set (map rs_id (sortBy (byLevel rs_item rs_location)
      (filter (\<lambda>r. rs_checkout r = checkoutId \<and> rs_status r = ACTIVE) (sd_reservations db))))) =
      (rs_checkout r = checkoutId \<and> rs_status r = ACTIVE)"
    using r by (auto dest: inj_onD)
qed

lemma releaseCheckoutStock_effect:
  assumes "stock_ok used db"
  obtains db' where "releaseCheckoutStock checkoutId db = Inr (db', length (active_reservations db checkoutId))"
    "stock_ok used db'" "active_reservations db' checkoutId = []" "sd_items db' = sd_items db"
    "\<And>i l. quantity db' (i, l, AVAILABLE) = quantity db (i, l, AVAILABLE)
       + sum_list (map (claim_at used i l) (active_reservations db checkoutId))"
    "\<And>i l. on_hand db' i l = on_hand db i l"
proof (cases "active_reservations db checkoutId = []")
  case True
  then show ?thesis using assms that[of db] by (simp add: releaseCheckoutStock_def)
next
  case False
  note ok = stock_okD[OF assms]
  let ?rs = "release_list db checkoutId"
  let ?act = "active_reservations db checkoutId"
  have active: "\<forall>r \<in> set ?act. rs_status r = ACTIVE \<and> r \<in> set (sd_reservations db)"
    by (simp add: active_reservations_def)
  have "\<forall>r \<in> set ?rs. 0 < rs_quantity r" using active ok(1) by (simp add: tables_ok_def)
  moreover have "sum_list (map (\<lambda>r. if rs_item r = i \<and> rs_location r = l then rs_quantity r else 0) ?rs)
      \<le> quantity db (i, l, RESERVED)" for i l
  proof -
    have "map (\<lambda>r. if rs_item r = i \<and> rs_location r = l then rs_quantity r else 0) ?act = map (claim_at used i l) ?act"
      using active by (auto simp: claim_at_def claim_def)
    moreover have "sum_list (map (claim_at used i l) ?act) \<le> quantity db (i, l, RESERVED)"
      using claims_filter_le[OF ok(1,2)] ok(3) unfolding active_reservations_def by metis
    ultimately show ?thesis unfolding sum_list_sortBy by (simp only:)
  qed
  ultimately obtain mid where mid: "foldR (\<lambda>db m. moveLevel m db) db (map (release_move checkoutId) ?rs) = Inr mid"
    using release_run_succeeds[OF ok(1,5), of ?rs checkoutId] by auto
  define db' where "db' = set_reservations (\<lambda>r. rs_id r \<in> set (map rs_id ?rs)) (\<lambda>r. r\<lparr>rs_status := RELEASED\<rparr>) mid"
  have same: "sd_reservations mid = sd_reservations db" "sd_items mid = sd_items db" using moves_run_other[OF mid] by auto
  have q: "quantity db' (i, l, n) = quantity db (i, l, n)
      + sum_list (map (\<lambda>r. move_effect (release_move checkoutId r) (i, l, n)) ?rs)" for i l n
    using moves.run_quantity[OF mid ok(1), of "(i, l, n)"] by (simp add: db'_def comp_def del: move_effect.simps)
  have cl: "claims used db' i l = claims used db i l - sum_list (map (claim_at used i l) ?act)" for i l
  proof -
    have "claims used db' i l = claims used mid i l + sum_list (map (\<lambda>r. claim_at used i l (r\<lparr>rs_status := RELEASED\<rparr>)
        - claim_at used i l r) ?act)"
      unfolding db'_def using release_selects[OF ok(1)] by (subst claims_set_reservations) (simp_all add: same)
    also have "map (\<lambda>r. claim_at used i l (r\<lparr>rs_status := RELEASED\<rparr>) - claim_at used i l r) ?act = map (\<lambda>r. - claim_at used i l r) ?act"
      by (simp add: claim_at_def claim_def)
    finally show ?thesis using claims_cong[OF same(1)] by (simp add: uminus_sum_list_map[symmetric, unfolded comp_def])
  qed
  have oh: "on_hand db' i l = on_hand db i l" for i l
    by (simp only: on_hand_def q release_sum[of _ _ _ _ used])
  have "stock_ok used db'"
  proof (rule stock_okI)
    show "tables_ok db'" unfolding db'_def
      by (rule tables_set_reservations[OF moves.run_tables[OF mid ok(1)]]) simp
    show "used_ok used db'"
      using ok(2) by (auto simp: used_ok_def db'_def set_reservations_def same)
    show "quantity db' (i, l, RESERVED) = claims used db' i l" for i l
      by (simp only: q release_sum[of _ _ _ _ used] cl) (simp add: ok(3))
    show "sql_int4 (on_hand db' i l)" for i l using ok(4) oh by simp
  qed
  moreover have "active_reservations db' checkoutId = []"
  proof -
    have "rs_id r \<in> set (map rs_id ?rs)" if "r \<in> set (sd_reservations db)" "rs_checkout r = checkoutId" "rs_status r = ACTIVE" for r
      using that by (auto simp: active_reservations_def)
    then show ?thesis by (auto simp: active_reservations_def db'_def set_reservations_def same filter_empty_conv)
  qed
  moreover have "releaseCheckoutStock checkoutId db = Inr (db', length ?act)"
    using False mid by (simp add: releaseCheckoutStock_def Let_def db'_def) (metis length_sortBy length_0_conv)
  moreover have "quantity db' (i, l, AVAILABLE) = quantity db (i, l, AVAILABLE) + sum_list (map (claim_at used i l) ?act)" for i l
    by (simp only: q release_sum[of _ _ _ _ used])
  moreover have "sd_items db' = sd_items db" by (simp add: db'_def same)
  ultimately show ?thesis using that oh by blast
qed


text \<open>
  C32: releasing undoes reserving. After \<open>reserveStock\<close> (forced or not, accepted or refused)
  for a checkout that held nothing, \<open>releaseCheckoutStock\<close> succeeds and puts the available
  and the reserved units of every level back to what they were, with no reservation of the
  checkout left active. No level can be short of the units to release, because the reserved
  units are exactly the claims of the reservations.
\<close>

theorem reserve_release_roundtrip:
  assumes "reserveStock checkoutId ls expiresAt force db = Inr (db1, res)"
    and "stock_ok used db" "active_reservations db checkoutId = []"
  shows "\<exists>db2. releaseCheckoutStock checkoutId db1 = Inr (db2, length (active_reservations db1 checkoutId)) \<and>
    active_reservations db2 checkoutId = [] \<and> stock_ok used db2 \<and>
    (\<forall>i l. quantity db2 (i, l, AVAILABLE) = quantity db (i, l, AVAILABLE) \<and>
       quantity db2 (i, l, RESERVED) = quantity db (i, l, RESERVED))"
proof -
  let ?held = "\<lambda>u i l. sum_list (map (claim_at used i l) (active_reservations u checkoutId))"
  have ok: "stock_ok used db1" by (rule reserveStock_stock_ok[OF assms(1,2)])
  have round: "quantity v (i, l, AVAILABLE) + ?held v i l = quantity u (i, l, AVAILABLE) + ?held u i l"
    if r: "reserve_at checkoutId expiresAt it loc q u = Inr v" and u: "tables_ok u" for it loc q u v i l
  proof -
    obtain mid m where mv: "moveLevel m u = Inr mid"
      and ins: "insert_reservation \<lparr>rs_id = 0, rs_item = it, rs_location = loc, rs_checkout = checkoutId,
           rs_order = None, rs_orderLine = None, rs_quantity = q, rs_status = ACTIVE,
           rs_expiresAt = expiresAt\<rparr> mid = Inr v"
      using reserve_at_steps[OF r] by blast
    have "?held v i l = ?held u i l + (if it = i \<and> loc = l then q else 0)"
      using insert_reservation_Inr(1)[OF ins] moveLevel_other(1)[OF mv]
      by (simp add: active_reservations_def claim_at_def claim_def)
    then show ?thesis using reserve_at_effect(1)[OF r u, of "(i, l, AVAILABLE)"] by auto
  qed
  have av: "quantity db1 (i, l, AVAILABLE) + ?held db1 i l = quantity db (i, l, AVAILABLE)" for i l
  proof -
    have "tables_ok db1 \<and> quantity db1 (i, l, AVAILABLE) + ?held db1 i l = quantity db (i, l, AVAILABLE)"
      using assms(1)
      by (rule reserveStock_invariant[where P = "\<lambda>u. tables_ok u \<and>
            quantity u (i, l, AVAILABLE) + ?held u i l = quantity db (i, l, AVAILABLE)"])
        (use assms(3) stock_okD(1)[OF assms(2)] round in
          \<open>auto simp: active_reservations_def intro: tables_ensure_level reserve_at_effect(3)\<close>)
    then show ?thesis by simp
  qed
  obtain db2 where db2: "releaseCheckoutStock checkoutId db1 = Inr (db2, length (active_reservations db1 checkoutId))"
    "stock_ok used db2" "active_reservations db2 checkoutId = []"
    and q: "\<And>i l. quantity db2 (i, l, AVAILABLE) = quantity db1 (i, l, AVAILABLE) + ?held db1 i l"
    and oh: "\<And>i l. on_hand db2 i l = on_hand db1 i l"
    by (rule releaseCheckoutStock_effect[OF ok, of checkoutId]) (rule that, assumption+)
  have "quantity db2 (i, l, RESERVED) = quantity db (i, l, RESERVED)" for i l
    using oh[of i l] reserveStock_on_hand[OF assms(1) stock_okD(1)[OF assms(2)], of i l] q[of i l] av[of i l]
    by (simp add: on_hand_def)
  with db2 q av show ?thesis by auto
qed

subsection \<open>Conversion, fulfilment and cancellation keep the claims\<close>

lemma convertCheckoutStock_ok:
  assumes "convertCheckoutStock checkoutId orderId f db = Inr db'" "stock_ok used db"
    and "\<forall>r \<in> set (active_reservations db checkoutId). used (rs_id r) = 0"
  shows "stock_ok used db' \<and> sd_levels db' = sd_levels db"
proof -
  let ?ids = "rs_id ` set (active_reservations db checkoutId)"
  define P where "P u \<longleftrightarrow> stock_ok used u \<and> sd_levels u = sd_levels db \<and>
    (\<forall>r \<in> set (sd_reservations u). rs_id r \<in> ?ids \<longrightarrow> rs_status r \<noteq> RELEASED \<and> used (rs_id r) = 0)" for u
  have start: "P db"
  proof -
    have "inj_on rs_id (set (sd_reservations db))"
      using stock_okD(1)[OF assms(2)] by (simp add: tables_ok_def distinct_map)
    then show ?thesis using assms(2,3)
      by (auto simp: P_def active_reservations_def dest!: inj_onD)
  qed
  let ?g = "\<lambda>l r. r\<lparr>rs_status := CONVERTED, rs_order := Some orderId, rs_orderLine := Some l\<rparr>"
  have step: "P (set_reservations (\<lambda>r. rs_id r = n) (?g l) u)" if P: "P u" and n: "n \<in> ?ids" for u n l
  proof -
    have ok: "stock_ok used u" using P by (simp add: P_def)
    have c: "claim_at used i k (?g l r) = claim_at used i k r" if "r \<in> set (sd_reservations u)" "rs_id r = n" for r i k
      using P n that by (cases "rs_status r") (auto simp: P_def claim_at_def claim_def)
    let ?u = "set_reservations (\<lambda>r. rs_id r = n) (?g l) u"
    have "stock_ok used ?u"
    proof (rule stock_okI)
      show "tables_ok ?u" by (rule tables_set_reservations[OF stock_okD(1)[OF ok]]) simp
      show "used_ok used ?u"
        using stock_okD(1,2)[OF ok] P n
        by (auto simp: used_ok_def set_reservations_def P_def tables_ok_def less_imp_le)
      have z: "map (\<lambda>r. claim_at used i k (?g l r) - claim_at used i k r)
          (filter (\<lambda>r. rs_id r = n) (sd_reservations u)) = map (\<lambda>_. 0) (filter (\<lambda>r. rs_id r = n) (sd_reservations u))" for i k
        using c by auto
      show "quantity ?u (i, k, RESERVED) = claims used ?u i k" for i k
        using stock_okD(3)[OF ok, of i k] by (subst claims_set_reservations) (simp_all only: z, simp_all add: sum_list_0)
      show "sql_int4 (on_hand ?u i k)" for i k using stock_okD(4)[OF ok, of i k] by (simp add: on_hand_def)
    qed
    then show ?thesis using P n by (auto simp: P_def set_reservations_def)
  qed
  have "P db'"
    using assms(1) unfolding convertCheckoutStock_def Let_def
    by (rule foldR_invariant[where P = P]) (use start in \<open>auto split: option.splits intro!: step\<close>)
  then show ?thesis by (simp add: P_def)
qed


text \<open>
  A move of an order is open when its reservation is a row the order holds and no more units
  are moved than it still claims.
\<close>

definition open_move :: "(uuid \<Rightarrow> int) \<Rightarrow> stock_db \<Rightarrow> line_reservation \<times> int \<Rightarrow> bool" where
  "open_move used db m \<longleftrightarrow> (\<exists>rs \<in> set (sd_reservations db). rs_id rs = lr_id (fst m) \<and>
     rs_item rs = lr_itemId (fst m) \<and> rs_location rs = lr_locationId (fst m) \<and>
     rs_status rs = CONVERTED \<and> units m \<le> rs_quantity rs - used (rs_id rs))"

definition shipped :: "(uuid \<Rightarrow> int) \<Rightarrow> (line_reservation \<times> int) list \<Rightarrow> uuid \<Rightarrow> int" where
  "shipped used moves u = used u + sum_list (map (\<lambda>m. if lr_id (fst m) = u then units m else 0) moves)"

lemma reservation_unique:
  "tables_ok db \<Longrightarrow> x \<in> set (sd_reservations db) \<Longrightarrow> y \<in> set (sd_reservations db) \<Longrightarrow> rs_id x = rs_id y \<Longrightarrow> x = y"
  unfolding tables_ok_def distinct_map by (blast dest: inj_onD)

lemma quantity_bounds:
  assumes "tables_ok db"
  shows "sql_int4 (quantity db k)" "0 \<le> quantity db (i, l, RESERVED)"
proof -
  have row: "0 \<le> lv_reserved lv \<and> sql_int4 (lv_reserved lv) \<and> sql_int4 (lv_available lv)"
    if "find_level db i l = Some lv" for i l lv
    using that assms by (auto simp: find_level_def tables_ok_def dest!: find_Some_iff2)
  show "sql_int4 (quantity db k)"
    using row by (cases k) (auto simp: quantity.simps sql_int4_def[of 0] split: option.splits quantity_name.splits)
  show "0 \<le> quantity db (i, l, RESERVED)" using row by (auto simp: quantity.simps split: option.splits)
qed

lemma sum_single:
  fixes g :: "'a \<Rightarrow> int"
  assumes "distinct (map f xs)" "x \<in> set xs"
  shows "sum_list (map (\<lambda>y. if f y = f x then g y else 0) xs) = g x"
  using assms
proof (induction xs)
  case (Cons a xs)
  show ?case
  proof (cases "a = x")
    case True
    then have "\<forall>y \<in> set xs. f y \<noteq> f x" using Cons.prems(1) by (metis distinct.simps(2) image_eqI list.set_map list.simps(9))
    then have "map (\<lambda>y. if f y = f x then g y else 0) xs = map (\<lambda>_. 0) xs" by auto
    then show ?thesis using True by (simp only: list.map sum_list.Cons sum_list_0) simp
  next
    case False
    then have "x \<in> set xs" using Cons.prems(2) by simp
    moreover have "f a \<noteq> f x" using Cons.prems(1) \<open>x \<in> set xs\<close> by auto
    ultimately show ?thesis using Cons by simp
  qed
qed simp

text \<open>The one row of a reservation, in the sum of the claims.\<close>

lemma claims_row:
  assumes "tables_ok db" "rs \<in> set (sd_reservations db)"
    and "\<And>r. r \<in> set (sd_reservations db) \<Longrightarrow> h r = claim_at used i l r - (if rs_id r = rs_id rs then d r else 0)"
  shows "sum_list (map h (sd_reservations db)) = claims used db i l - d rs"
proof -
  have "sum_list (map h xs) = sum_list (map (claim_at used i l) xs) - sum_list (map (\<lambda>r. if rs_id r = rs_id rs then d r else 0) xs)"
    if "\<And>r. r \<in> set xs \<Longrightarrow> h r = claim_at used i l r - (if rs_id r = rs_id rs then d r else 0)" for xs
    using that by (induction xs) auto
  moreover have "sum_list (map (\<lambda>r. if rs_id r = rs_id rs then d r else 0) (sd_reservations db)) = d rs"
    using assms(1,2) by (intro sum_single) (auto simp: tables_ok_def)
  ultimately show ?thesis using assms(3) by (simp add: claims_def)
qed

lemma fulfil_step_ok:
  assumes "stock_ok used db" "open_move used db m"
  shows "\<exists>db'. fulfil_step orderId actor m db = Inr db' \<and>
    stock_ok (used(lr_id (fst m) := used (lr_id (fst m)) + units m)) db' \<and> sd_reservations db' = sd_reservations db"
proof -
  note ok = stock_okD[OF assms(1)]
  obtain r q where m: "m = (r, q)" by (cases m)
  from assms(2) obtain rs where rs: "rs \<in> set (sd_reservations db)" "rs_id rs = lr_id r" "rs_item rs = lr_itemId r"
    "rs_location rs = lr_locationId r" "rs_status rs = CONVERTED" "units m \<le> rs_quantity rs - used (rs_id rs)"
    by (auto simp: open_move_def m)
  have "units m \<le> quantity db (lr_itemId r, lr_locationId r, RESERVED)"
    using claim_le_claims[OF ok(1,2) rs(1)] rs ok(3) by (simp add: claim_def)
  then obtain db' where db': "fulfil_step orderId actor m db = Inr db'"
    using unreserve_succeeds[OF ok(1,5), of q "order_move orderId FULFILMENT actor (lr_itemId r) (lr_locationId r) 0 (- q)"]
    by (cases "q \<le> 0") (auto simp: fulfil_step_def m order_move_def units_def)
  note eff = fulfil_step_effect[OF db' ok(1)]
  let ?used = "used(lr_id r := used (lr_id r) + units m)"
  have inj: "x = rs" if "x \<in> set (sd_reservations db)" "rs_id x = lr_id r" for x
    using reservation_unique[OF ok(1) that(1) rs(1)] that(2) rs(2) by simp
  have "stock_ok ?used db'"
  proof (rule stock_okI[OF eff(3)])
    show "used_ok ?used db'"
      using ok(2) rs(2,5,6) inj unfolding used_ok_def eff(4) by (auto simp: units_def)
    show "quantity db' (i, l, RESERVED) = claims ?used db' i l" for i l
    proof -
      have "sum_list (map (claim_at ?used i l) (sd_reservations db)) =
          claims used db i l - (if rs_item rs = i \<and> rs_location rs = l then units m else 0)"
        using inj rs(2,5) by (intro claims_row[OF ok(1) rs(1), where d = "\<lambda>r. if rs_item r = i \<and> rs_location r = l then units m else 0"])
          (auto simp: claim_at_def claim_def split: reservation_status.splits)
      then have "claims ?used db' i l = claims used db i l - (if rs_item rs = i \<and> rs_location rs = l then units m else 0)"
        by (simp only: claims_def eff(4))
      then show ?thesis using eff(1)[of "(i, l, RESERVED)"] ok(3)[of i l] rs(3,4) by (auto simp: m)
    qed
    show "sql_int4 (on_hand db' i l)" for i l
    proof -
      have "quantity db' (i, l, AVAILABLE) \<le> on_hand db' i l" "on_hand db' i l \<le> on_hand db i l"
        using quantity_bounds(2)[OF eff(3), of i l] eff(1)[of "(i, l, AVAILABLE)"] eff(1)[of "(i, l, RESERVED)"]
        by (auto simp: on_hand_def units_def)
      then show ?thesis
        using sql_int4_between quantity_bounds(1)[OF eff(3)] ok(4) by blast
    qed
  qed
  with db' eff(4) show ?thesis by (auto simp: m)
qed


lemma cancel_step_ok:
  assumes "stock_ok used db" "open_move used db m" "\<forall>rs \<in> set (sd_reservations db). rs_id rs = lr_id (fst m) \<longrightarrow>
      units m = rs_quantity rs - used (rs_id rs)"
  shows "\<exists>db'. cancel_step orderId actor m db = Inr db' \<and> stock_ok used db' \<and>
    sd_reservations db' = map (\<lambda>r. if rs_id r = lr_id (fst m) then r\<lparr>rs_status := RELEASED\<rparr> else r) (sd_reservations db)"
proof -
  note ok = stock_okD[OF assms(1)]
  obtain r q where m: "m = (r, q)" by (cases m)
  from assms(2) obtain rs where rs: "rs \<in> set (sd_reservations db)" "rs_id rs = lr_id r" "rs_item rs = lr_itemId r"
    "rs_location rs = lr_locationId r" "rs_status rs = CONVERTED" by (auto simp: open_move_def m)
  have all: "units m = claim used rs" using assms(3) rs by (simp add: m claim_def)
  have "units m \<le> quantity db (lr_itemId r, lr_locationId r, RESERVED)"
    using claim_le_claims[OF ok(1,2) rs(1)] rs ok(3) all by simp
  then obtain mid where mid: "if q > 0 then moveLevel (order_move orderId CANCELLATION actor (lr_itemId r) (lr_locationId r) q (- q)) db = Inr mid
      else mid = db"
    using unreserve_succeeds[OF ok(1,5), of q "order_move orderId CANCELLATION actor (lr_itemId r) (lr_locationId r) q (- q)"]
    by (cases "q > 0") (auto simp: m order_move_def units_def)
  define db' where "db' = set_reservations (\<lambda>x. rs_id x = lr_id r) (\<lambda>x. x\<lparr>rs_status := RELEASED\<rparr>) mid"
  have db': "cancel_step orderId actor m db = Inr db'"
    using mid by (auto simp: cancel_step_def m db'_def bindR_eq_Inr split: if_splits)
  note eff = cancel_step_effect[OF db' ok(1)]
  have same: "sd_reservations mid = sd_reservations db" using mid moveLevel_other(1) by (auto split: if_splits)
  have rsv: "sd_reservations db' = map (\<lambda>x. if rs_id x = lr_id r then x\<lparr>rs_status := RELEASED\<rparr> else x) (sd_reservations db)"
    by (simp add: db'_def set_reservations_def same)
  have inj: "x = rs" if "x \<in> set (sd_reservations db)" "rs_id x = lr_id r" for x
    using reservation_unique[OF ok(1) that(1) rs(1)] that(2) rs(2) by simp
  have "stock_ok used db'"
  proof (rule stock_okI[OF eff(3)])
    show "used_ok used db'" using ok(2) by (auto simp: used_ok_def rsv)
    show "quantity db' (i, l, RESERVED) = claims used db' i l" for i l
    proof -
      have "sum_list (map (\<lambda>x. claim_at used i l (if rs_id x = lr_id r then x\<lparr>rs_status := RELEASED\<rparr> else x)) (sd_reservations db)) =
          claims used db i l - claim_at used i l rs"
        using inj rs(2) by (intro claims_row[OF ok(1) rs(1)]) (auto simp: claim_at_def claim_def)
      then have "claims used db' i l = claims used db i l - claim_at used i l rs"
        by (simp add: claims_def rsv comp_def)
      then show ?thesis using eff(1)[of "(i, l, RESERVED)"] ok(3)[of i l] rs(3,4) all by (auto simp: m claim_at_def)
    qed
    show "sql_int4 (on_hand db' i l)" for i l
      using ok(4)[of i l] eff(1)[of "(i, l, AVAILABLE)"] eff(1)[of "(i, l, RESERVED)"] by (auto simp: on_hand_def)
  qed
  with db' rsv show ?thesis by (auto simp: m)
qed

lemma sorted_moves_simps [simp]:
  "set (sorted_moves moves) = set moves" "shipped used (sorted_moves moves) = shipped used moves"
  "distinct (map f (sorted_moves moves)) = distinct (map f moves)"
  "sum_list (map g (sorted_moves moves)) = sum_list (map g moves)" for g :: "_ \<Rightarrow> int"
  by (simp_all add: sorted_moves_def shipped_def fun_eq_iff)

lemma shipped_Cons: "shipped (used(lr_id (fst m) := used (lr_id (fst m)) + units m)) ms = shipped used (m # ms)"
  by (auto simp: shipped_def fun_eq_iff)

lemma fulfil_run_ok:
  assumes "stock_ok used db" "\<forall>m \<in> set ms. open_move used db m" "distinct (map (\<lambda>m. lr_id (fst m)) ms)"
  shows "\<exists>db'. foldR (\<lambda>db m. fulfil_step orderId actor m db) db ms = Inr db' \<and> stock_ok (shipped used ms) db' \<and>
    sd_reservations db' = sd_reservations db"
  using assms
proof (induction ms arbitrary: used db)
  case Nil
  moreover have "shipped used [] = used" by (simp add: shipped_def fun_eq_iff)
  ultimately show ?case by simp
next
  case (Cons m ms)
  let ?used = "used(lr_id (fst m) := used (lr_id (fst m)) + units m)"
  obtain mid where mid: "fulfil_step orderId actor m db = Inr mid" "stock_ok ?used mid"
    "sd_reservations mid = sd_reservations db"
    using fulfil_step_ok[OF Cons.prems(1), of m orderId actor] Cons.prems(2) by auto
  have "open_move ?used mid n" if "n \<in> set ms" for n
  proof -
    have "lr_id (fst n) \<noteq> lr_id (fst m)" using that Cons.prems(3) by (auto simp: image_iff)
    moreover have "open_move used db n" using that Cons.prems(2) by simp
    then obtain rs where "rs \<in> set (sd_reservations db)" "rs_id rs = lr_id (fst n)" "rs_item rs = lr_itemId (fst n)"
      "rs_location rs = lr_locationId (fst n)" "rs_status rs = CONVERTED" "units n \<le> rs_quantity rs - used (rs_id rs)"
      unfolding open_move_def by blast
    ultimately show ?thesis unfolding open_move_def mid(3) by (intro bexI[of _ rs]) auto
  qed
  then have "\<forall>n \<in> set ms. open_move ?used mid n" by blast
  moreover have "distinct (map (\<lambda>m. lr_id (fst m)) ms)" using Cons.prems(3) by simp
  ultimately obtain db' where "foldR (\<lambda>db m. fulfil_step orderId actor m db) mid ms = Inr db'"
    "stock_ok (shipped ?used ms) db'" "sd_reservations db' = sd_reservations mid"
    using Cons.IH[OF mid(2)] by blast
  then show ?case using mid(1,3) by (simp add: shipped_Cons)
qed

lemma cancel_run_keeps_released:
  assumes "foldR (\<lambda>db m. cancel_step orderId actor m db) db ms = Inr db'"
    and "\<forall>r \<in> set (sd_reservations db). rs_id r = u \<longrightarrow> rs_status r = RELEASED"
  shows "\<forall>r \<in> set (sd_reservations db'). rs_id r = u \<longrightarrow> rs_status r = RELEASED"
  using assms(1)
proof (rule foldR_invariant)
  fix x m y
  assume x: "\<forall>r \<in> set (sd_reservations x). rs_id r = u \<longrightarrow> rs_status r = RELEASED"
    and y: "cancel_step orderId actor m x = Inr y"
  obtain r q where m: "m = (r, q)" by (cases m)
  from cancel_step_steps[OF y[unfolded m]] obtain mid where mid: "if q > 0
      then moveLevel (order_move orderId CANCELLATION actor (lr_itemId r) (lr_locationId r) q (- q)) x = Inr mid
      else mid = x" and yd: "y = set_reservations (\<lambda>rs. rs_id rs = lr_id r) (\<lambda>rs. rs\<lparr>rs_status := RELEASED\<rparr>) mid"
    by blast
  have "sd_reservations mid = sd_reservations x" using mid moveLevel_other(1) by (auto split: if_splits)
  then show "\<forall>r \<in> set (sd_reservations y). rs_id r = u \<longrightarrow> rs_status r = RELEASED"
    using x by (auto simp: yd set_reservations_def)
qed (rule assms(2))

lemma cancel_run_ok:
  assumes "stock_ok used db" "\<forall>m \<in> set ms. open_move used db m" "distinct (map (\<lambda>m. lr_id (fst m)) ms)"
    and "\<forall>m \<in> set ms. \<forall>rs \<in> set (sd_reservations db). rs_id rs = lr_id (fst m) \<longrightarrow> units m = rs_quantity rs - used (rs_id rs)"
  shows "\<exists>db'. foldR (\<lambda>db m. cancel_step orderId actor m db) db ms = Inr db' \<and> stock_ok used db' \<and>
    (\<forall>r \<in> set (sd_reservations db'). rs_id r \<in> (\<lambda>m. lr_id (fst m)) ` set ms \<longrightarrow> rs_status r = RELEASED)"
  using assms
proof (induction ms arbitrary: db)
  case (Cons m ms)
  obtain mid where mid: "cancel_step orderId actor m db = Inr mid" "stock_ok used mid"
    and rsv: "sd_reservations mid = map (\<lambda>r. if rs_id r = lr_id (fst m) then r\<lparr>rs_status := RELEASED\<rparr> else r) (sd_reservations db)"
  proof -
    have "open_move used db m" "\<forall>rs \<in> set (sd_reservations db). rs_id rs = lr_id (fst m) \<longrightarrow> units m = rs_quantity rs - used (rs_id rs)"
      using Cons.prems(2,4) by simp_all
    from cancel_step_ok[OF Cons.prems(1) this] show ?thesis using that by blast
  qed
  have other: "lr_id (fst n) \<noteq> lr_id (fst m)" if "n \<in> set ms" for n
    using that Cons.prems(3) by (auto simp: image_iff)
  have opens: "\<forall>n \<in> set ms. open_move used mid n"
  proof
    fix n assume n: "n \<in> set ms"
    then obtain rs where rs: "rs \<in> set (sd_reservations db)" "rs_id rs = lr_id (fst n)" "rs_item rs = lr_itemId (fst n)"
      "rs_location rs = lr_locationId (fst n)" "rs_status rs = CONVERTED" "units n \<le> rs_quantity rs - used (rs_id rs)"
      using Cons.prems(2) by (auto simp: open_move_def)
    then have "rs \<in> set (sd_reservations mid)" using other[OF n] by (force simp: rsv)
    with rs show "open_move used mid n" by (auto simp: open_move_def)
  qed
  have all: "\<forall>n \<in> set ms. \<forall>rs \<in> set (sd_reservations mid). rs_id rs = lr_id (fst n) \<longrightarrow> units n = rs_quantity rs - used (rs_id rs)"
    using Cons.prems(4) by (auto simp: rsv)
  obtain db' where db': "foldR (\<lambda>db m. cancel_step orderId actor m db) mid ms = Inr db'" "stock_ok used db'"
    "\<forall>r \<in> set (sd_reservations db'). rs_id r \<in> (\<lambda>m. lr_id (fst m)) ` set ms \<longrightarrow> rs_status r = RELEASED"
    using Cons.IH[OF mid(2) opens _ all] Cons.prems(3) by auto
  have "rs_status r = RELEASED" if "r \<in> set (sd_reservations db')" "rs_id r = lr_id (fst m)" for r
  proof -
    have "\<forall>r \<in> set (sd_reservations mid). rs_id r = lr_id (fst m) \<longrightarrow> rs_status r = RELEASED"
      by (auto simp: rsv)
    from cancel_run_keeps_released[OF db'(1) this] that show ?thesis by blast
  qed
  with db' mid show ?case by auto
qed simp


text \<open>
  C22: shipping units of an order within what its reservations claim never fails, nor does
  cancelling all that they claim. If the moves name distinct reservations of the order and no more units than each
  still claims, \<open>fulfilStock\<close> succeeds: available units stay, reserved units fall by exactly
  the units moved, and with the shipped units counted the reserved units are again exactly
  the claims. If all the remaining units are cancelled, \<open>cancelOrderStock\<close> succeeds, the units
  on hand stay, and the reservations are released.
\<close>

theorem order_stock_within_claims:
  assumes "stock_ok used db" "\<forall>m \<in> set moves. open_move used db m" "distinct (map (\<lambda>m. lr_id (fst m)) moves)"
  shows "(\<exists>db'. fulfilStock orderId moves actor db = Inr db' \<and> stock_ok (shipped used moves) db' \<and>
      (\<forall>i l. quantity db' (i, l, AVAILABLE) = quantity db (i, l, AVAILABLE) \<and>
        quantity db' (i, l, RESERVED) = quantity db (i, l, RESERVED)
          - sum_list (map (\<lambda>m. if lr_itemId (fst m) = i \<and> lr_locationId (fst m) = l then units m else 0) moves))) \<and>
    ((\<forall>m \<in> set moves. \<forall>rs \<in> set (sd_reservations db). rs_id rs = lr_id (fst m) \<longrightarrow>
        units m = rs_quantity rs - used (rs_id rs)) \<longrightarrow>
      (\<exists>db'. cancelOrderStock orderId moves actor db = Inr db' \<and> stock_ok used db' \<and>
        (\<forall>i l. on_hand db' i l = on_hand db i l) \<and>
        (\<forall>r \<in> set (sd_reservations db'). rs_id r \<in> (\<lambda>m. lr_id (fst m)) ` set moves \<longrightarrow> rs_status r = RELEASED)))"
proof (intro conjI impI)
  let ?ms = "sorted_moves moves"
  let ?sum = "\<lambda>i l. sum_list (map (\<lambda>m. if lr_itemId (fst m) = i \<and> lr_locationId (fst m) = l then units m else 0) moves)"
  have ms: "\<forall>m \<in> set ?ms. open_move used db m" "distinct (map (\<lambda>m. lr_id (fst m)) ?ms)" using assms(2,3) by simp_all
  obtain db' where db': "foldR (\<lambda>db m. fulfil_step orderId actor m db) db ?ms = Inr db'" "stock_ok (shipped used moves) db'"
    using fulfil_run_ok[OF assms(1) ms, of orderId actor] by auto
  have sums: "sum_list (map (\<lambda>m. unit_effect sign m (i, l, n)) xs) =
      sign n * sum_list (map (\<lambda>m. if lr_itemId (fst m) = i \<and> lr_locationId (fst m) = l then units m else 0) xs)" for sign i l n xs
    by (induction xs) (auto simp: algebra_simps)
  note q = fulfils.run_quantity[OF db'(1) stock_okD(1)[OF assms(1)]]
  show "\<exists>db'. fulfilStock orderId moves actor db = Inr db' \<and> stock_ok (shipped used moves) db' \<and>
      (\<forall>i l. quantity db' (i, l, AVAILABLE) = quantity db (i, l, AVAILABLE) \<and>
        quantity db' (i, l, RESERVED) = quantity db (i, l, RESERVED) - ?sum i l)"
    using db' q by (intro exI[of _ db']) (simp add: fulfilStock_def sums del: unit_effect.simps)
  assume all: "\<forall>m \<in> set moves. \<forall>rs \<in> set (sd_reservations db). rs_id rs = lr_id (fst m) \<longrightarrow>
        units m = rs_quantity rs - used (rs_id rs)"
  obtain dc where dc: "foldR (\<lambda>db m. cancel_step orderId actor m db) db ?ms = Inr dc" "stock_ok used dc"
    "\<forall>r \<in> set (sd_reservations dc). rs_id r \<in> (\<lambda>m. lr_id (fst m)) ` set moves \<longrightarrow> rs_status r = RELEASED"
    using cancel_run_ok[OF assms(1) ms, of orderId actor] all by auto
  have "on_hand dc i l = on_hand db i l" for i l
    using cancels.run_quantity[OF dc(1) stock_okD(1)[OF assms(1)], of "(i, l, AVAILABLE)"]
      cancels.run_quantity[OF dc(1) stock_okD(1)[OF assms(1)], of "(i, l, RESERVED)"]
    by (simp add: on_hand_def sums del: unit_effect.simps)
  with dc show "\<exists>db'. cancelOrderStock orderId moves actor db = Inr db' \<and> stock_ok used db' \<and>
        (\<forall>i l. on_hand db' i l = on_hand db i l) \<and>
        (\<forall>r \<in> set (sd_reservations db'). rs_id r \<in> (\<lambda>m. lr_id (fst m)) ` set moves \<longrightarrow> rs_status r = RELEASED)"
    by (auto simp: cancelOrderStock_def)
qed

text \<open>Restocking: levels are created where missing, and the returned units become available.\<close>

lemma ensure_levels:
  "tables_ok db \<Longrightarrow> tables_ok (foldl (\<lambda>db m. ensure_level (rm_itemId m) (rm_locationId m) db) db ms)"
  "quantity (foldl (\<lambda>db m. ensure_level (rm_itemId m) (rm_locationId m) db) db ms) k = quantity db k"
  "logged (foldl (\<lambda>db m. ensure_level (rm_itemId m) (rm_locationId m) db) db ms) k = logged db k"
  by (induction ms arbitrary: db) (auto intro: tables_ensure_level)

lemma restockStock_effect:
  assumes "restockStock orderId moves actor db = Inr db'" "tables_ok db"
  shows "tables_ok db'" "quantity db' (i, l, AVAILABLE) = quantity db (i, l, AVAILABLE) +
      sum_list (map (\<lambda>m. if rm_itemId m = i \<and> rm_locationId m = l then rm_quantity m else 0)
        (filter (\<lambda>m. rm_quantity m > 0) moves))"
    "quantity db' (i, l, RESERVED) = quantity db (i, l, RESERVED)"
    "ledger_ok db \<Longrightarrow> ledger_ok db'"
proof -
  let ?sorted = "sortBy (byLevel rm_itemId rm_locationId) (filter (\<lambda>m. rm_quantity m > 0) moves)"
  define db1 where "db1 = foldl (\<lambda>db m. ensure_level (rm_itemId m) (rm_locationId m) db) db ?sorted"
  let ?mv = "\<lambda>m. order_move orderId RETURN actor (rm_itemId m) (rm_locationId m) (rm_quantity m) 0"
  have mapped: "foldR (\<lambda>db m. moveLevel (?mv m) db) d xs = foldR (\<lambda>db m. moveLevel m db) d (map ?mv xs)" for d xs
    by (induction xs arbitrary: d) (auto intro: bindR_cong)
  have run: "foldR (\<lambda>db m. moveLevel m db) db1 (map ?mv ?sorted) = Inr db'"
    using assms(1) by (simp add: restockStock_def Let_def db1_def mapped)
  have ok: "tables_ok db1" unfolding db1_def by (rule ensure_levels(1)[OF assms(2)])
  have sums: "sum_list (map (\<lambda>m. move_effect m (i, l, n)) (map ?mv xs)) = (case n of
      AVAILABLE \<Rightarrow> sum_list (map (\<lambda>m. if rm_itemId m = i \<and> rm_locationId m = l then rm_quantity m else 0) xs)
    | RESERVED \<Rightarrow> 0)" for n xs
    by (induction xs) (auto simp: order_move_def split: quantity_name.splits)
  show "tables_ok db'" by (rule moves.run_tables[OF run ok])
  show "quantity db' (i, l, AVAILABLE) = quantity db (i, l, AVAILABLE) +
      sum_list (map (\<lambda>m. if rm_itemId m = i \<and> rm_locationId m = l then rm_quantity m else 0)
        (filter (\<lambda>m. rm_quantity m > 0) moves))"
    "quantity db' (i, l, RESERVED) = quantity db (i, l, RESERVED)"
    unfolding moves.run_quantity[OF run ok] sums by (simp_all add: db1_def ensure_levels(2))
  show "ledger_ok db \<Longrightarrow> ledger_ok db'"
    using moves.run_ledger[OF run ok] by (simp add: ledger_ok_iff db1_def ensure_levels)
qed


subsection \<open>A concrete store\<close>

text \<open>
  One tracked item that must not be oversold, at one location: ten units available, and two
  units of an order's reservation of three still to ship.
\<close>

definition sample_stock :: stock_db where
  "sample_stock = \<lparr>
     sd_locations = [\<lparr>lo_id = 7, lo_name = ''Main location'', lo_code = ''MAIN'', lo_isActive = True,
       lo_fulfilsOnline = True, lo_priority = 0, lo_createdAt = 0, lo_deleted = False\<rparr>],
     sd_items = [\<lparr>it_id = 3, it_variantId = 4, it_tracked = True, it_policy = Some DENY, it_live = True\<rparr>],
     sd_levels = [\<lparr>lv_id = 1, lv_item = 3, lv_location = 7, lv_available = 10, lv_reserved = 2\<rparr>],
     sd_movements = [],
     sd_reservations = [\<lparr>rs_id = 2, rs_item = 3, rs_location = 7, rs_checkout = 50, rs_order = Some 60,
       rs_orderLine = Some 61, rs_quantity = 3, rs_status = CONVERTED, rs_expiresAt = 0\<rparr>],
     sd_next = 100\<rparr>"

definition sample_reserved :: stock_db where
  "sample_reserved = (case reserveStock 51 [\<lparr>sl_variantId = 4, sl_quantity = 5\<rparr>] 0 False sample_stock of
     Inr (db, _) \<Rightarrow> db | Inl _ \<Rightarrow> sample_stock)"

lemma sample_tables: "tables_ok sample_stock" "distinct (map it_id (sd_items sample_stock))"
  by code_simp+

lemma sample_quantity:
  "quantity sample_stock (i, l, n) = (if i = 3 \<and> l = 7 then (case n of AVAILABLE \<Rightarrow> 10 | RESERVED \<Rightarrow> 2) else 0)"
  by (auto simp: sample_stock_def quantity.simps find_level_def at_level_def split: quantity_name.splits)

lemma sample_stock_ok: "stock_ok (\<lambda>_. 1) sample_stock"
proof (rule stock_okI)
  show "used_ok (\<lambda>_. 1) sample_stock" by code_simp
  show "quantity sample_stock (i, l, RESERVED) = claims (\<lambda>_. 1) sample_stock i l" for i l
    unfolding sample_quantity by (auto simp: claims_def claim_at_def claim_def sample_stock_def)
  show "sql_int4 (on_hand sample_stock i l)" for i l
    by (simp add: on_hand_def sample_quantity sql_int4_def)
qed (rule sample_tables)

lemma sample_reserve:
  "reserveStock 51 [\<lparr>sl_variantId = 4, sl_quantity = 5\<rparr>] 0 False sample_stock = Inr (sample_reserved, RESERVED_OK False)"
  "quantity sample_reserved (3, 7, AVAILABLE) = 5" "quantity sample_reserved (3, 7, RESERVED) = 7"
  by code_simp+

theorem reserveStock_never_oversells_witness:
  "reserveStock 51 [\<lparr>sl_variantId = 4, sl_quantity = 5\<rparr>] 0 False sample_stock = Inr (sample_reserved, RESERVED_OK False) \<and>
   (\<exists>r \<in> set (sd_reservations sample_reserved). rs_item r = 3 \<and> rs_quantity r = 5 \<and> rs_checkout r = 51) \<and>
   quantity sample_reserved (3, 7, AVAILABLE) < quantity sample_stock (3, 7, AVAILABLE) \<and>
   0 \<le> quantity sample_reserved (3, 7, AVAILABLE)"
proof -
  let ?item = "\<lparr>it_id = 3, it_variantId = 4, it_tracked = True, it_policy = Some DENY, it_live = True\<rparr>"
  have i: "sd_items sample_stock = [?item]" "is_deny ?item" by code_simp+
  note t = reserveStock_never_oversells[OF sample_reserve(1) sample_tables, unfolded i(1)]
  from t i(2) obtain news where n: "sd_reservations sample_reserved = sd_reservations sample_stock @ news"
    "\<forall>r \<in> set news. reservation_of 51 0 3 (rs_location r) 5 r" "3 \<in> rs_item ` set news"
    by (auto simp: asked_def)
  then have "\<exists>r \<in> set (sd_reservations sample_reserved). rs_item r = 3 \<and> rs_quantity r = 5 \<and> rs_checkout r = 51"
    by (auto simp: reservation_of_def)
  moreover have "0 \<le> quantity sample_reserved (3, 7, AVAILABLE)" using t i(2) sample_reserve(2) by (auto simp: sample_quantity)
  ultimately show ?thesis using sample_reserve by (simp add: sample_quantity)
qed

theorem reserve_release_roundtrip_witness:
  "\<exists>db2. releaseCheckoutStock 51 sample_reserved = Inr (db2, 1) \<and>
     quantity db2 (3, 7, AVAILABLE) = 10 \<and> quantity db2 (3, 7, RESERVED) = 2"
proof -
  have a: "active_reservations sample_stock 51 = []" "length (active_reservations sample_reserved 51) = 1"
    by code_simp+
  from reserve_release_roundtrip[OF sample_reserve(1) sample_stock_ok a(1)]
  show ?thesis by (auto simp: a(2) sample_quantity)
qed

theorem order_stock_within_claims_witness:
  "let moves = [(\<lparr>lr_id = 2, lr_orderLineId = Some 61, lr_itemId = 3, lr_locationId = 7, lr_quantity = 3\<rparr>, 2)]
   in (\<exists>db'. fulfilStock 60 moves None sample_stock = Inr db' \<and> quantity db' (3, 7, RESERVED) = 0) \<and>
      (\<exists>db'. cancelOrderStock 60 moves None sample_stock = Inr db' \<and> on_hand db' 3 7 = 12)"
proof -
  let ?moves = "[(\<lparr>lr_id = 2, lr_orderLineId = Some 61, lr_itemId = 3, lr_locationId = 7, lr_quantity = 3\<rparr>, 2 :: int)]"
  have "\<forall>m \<in> set ?moves. open_move (\<lambda>_. 1) sample_stock m" "distinct (map (\<lambda>m. lr_id (fst m)) ?moves)"
    "\<forall>m \<in> set ?moves. \<forall>rs \<in> set (sd_reservations sample_stock). rs_id rs = lr_id (fst m) \<longrightarrow>
        units m = rs_quantity rs - 1"
    by code_simp+
  with order_stock_within_claims[OF sample_stock_ok this(1,2), of 60 None]
  show ?thesis by (force simp: units_def on_hand_def sample_quantity Let_def)
qed

end
