(* ===== verification/Inventory.thy ===== *)
theory Inventory
  imports Stock
begin

section \<open>Inventory and locations\<close>

text \<open>
  Model of \<open>packages/commerce/src/inventory.ts\<close> (the merchant's stock changes) and of the
  state of \<open>packages/commerce/src/locations.ts\<close> (where stock is held), on the same tables as the
  stock of checkouts. Inputs are modelled after their validation (the ranges of the schemas in
  \<open>packages/validation/src/catalogue.ts\<close> are the \<open>*_input\<close> predicates); audit entries, addresses
  and the read-only queries are left out.
\<close>

definition INVENTORY_QUANTITY_LIMIT :: int where
  "INVENTORY_QUANTITY_LIMIT = 1000000"

definition MANUAL_ADJUSTMENT_REASONS :: "movement_reason list" where
  "MANUAL_ADJUSTMENT_REASONS = [RESTOCK, MANUAL_ADJUSTMENT, CORRECTION]"

subsection \<open>Loading\<close>

definition notFound :: stock_error where
  "notFound = NO_ROW"

definition loadItem :: "uuid \<Rightarrow> stock_db \<Rightarrow> stock_error + item_row" where
  "loadItem variantId db = fromSome notFound
     (find (\<lambda>ii. it_variantId ii = variantId \<and> it_live ii) (sd_items db))"

definition loadLocation :: "uuid \<Rightarrow> stock_db \<Rightarrow> stock_error + location_row" where
  "loadLocation locationId db = fromSome notFound
     (find (\<lambda>l. lo_id l = locationId \<and> \<not> lo_deleted l) (sd_locations db))"

record locked_level =
  ll_location :: uuid
  ll_levelId :: uuid
  ll_available :: int
  ll_created :: bool

text \<open>\<open>lockLevels\<close>: the levels of an item at some locations, created where missing.\<close>

definition lock_level ::
  "uuid \<Rightarrow> stock_db \<times> locked_level list \<Rightarrow> uuid \<Rightarrow> stock_error + (stock_db \<times> locked_level list)" where
  "lock_level itemId s locationId = (case s of (db, locked) \<Rightarrow>
     let db' = ensure_level itemId locationId db
     in bindR (fromSome notFound (find_level db' itemId locationId)) (\<lambda>lv.
        Inr (db', locked @ [\<lparr>ll_location = locationId, ll_levelId = lv_id lv, ll_available = lv_available lv,
          ll_created = (find_level db itemId locationId = None)\<rparr>])))"

definition lockLevels ::
  "uuid \<Rightarrow> uuid list \<Rightarrow> stock_db \<Rightarrow> stock_error + (stock_db \<times> locked_level list)" where
  "lockLevels itemId locationIds db =
     foldR (lock_level itemId) (db, []) (sortBy (byKey int) (remdups locationIds))"

definition locked_at :: "locked_level list \<Rightarrow> uuid \<Rightarrow> stock_error + locked_level" where
  "locked_at locked locationId = fromSome notFound (find (\<lambda>ll. ll_location ll = locationId) locked)"

subsection \<open>Applying a change\<close>

record apply_result =
  ap_previous :: int
  ap_resulting :: int

text \<open>
  The conditional update: \<open>WHERE id = ... AND (available + delta >= 0 OR delta > 0 OR
  allowNegative) AND abs(available::bigint + delta) <= limit\<close>. The sum in the first condition
  is an INTEGER, which fails on overflow.
\<close>

definition applyDelta ::
  "uuid \<Rightarrow> int \<Rightarrow> bool \<Rightarrow> stock_db \<Rightarrow> stock_error + (stock_db \<times> apply_result option)" where
  "applyDelta levelId delta allowNegative db =
     (if list_ex (\<lambda>lv. lv_id lv = levelId \<and> \<not> sql_int4 (lv_available lv + delta)) (sd_levels db)
      then Inl INTEGER_OUT_OF_RANGE
      else bindR (update_levels
          (\<lambda>lv. lv_id lv = levelId \<and> (lv_available lv + delta \<ge> 0 \<or> delta > 0 \<or> allowNegative) \<and>
             \<bar>lv_available lv + delta\<bar> \<le> INVENTORY_QUANTITY_LIMIT)
          (add_units delta 0) db)
        (\<lambda>(db', rows). Inr (db', case rows of [] \<Rightarrow> None
           | row # _ \<Rightarrow> Some \<lparr>ap_previous = lv_available row - delta, ap_resulting = lv_available row\<rparr>)))"

definition appendMovement ::
  "uuid option \<Rightarrow> uuid \<Rightarrow> uuid \<Rightarrow> int \<Rightarrow> int \<Rightarrow> movement_reason \<Rightarrow> string option
   \<Rightarrow> (reference_type \<times> uuid) option \<Rightarrow> stock_db \<Rightarrow> stock_error + stock_db" where
  "appendMovement actor itemId locationId delta resulting reason note reference =
     insert_movement \<lparr>mv_id = 0, mv_item = itemId, mv_location = locationId, mv_name = AVAILABLE,
       mv_delta = delta, mv_resulting = resulting, mv_reason = reason, mv_reference = reference,
       mv_actor = actor, mv_note = note\<rparr>"

definition notEnoughStock :: "location_row \<Rightarrow> int \<Rightarrow> stock_error" where
  "notEnoughStock location available =
     CONFLICT (''Not enough stock at '' @ lo_name location @ '': '' @ show_int available @ '' available.'')"

definition requireTrackedActive :: "item_row \<Rightarrow> location_row \<Rightarrow> stock_error + unit" where
  "requireTrackedActive item location =
     (if \<not> it_tracked item
      then Inl (CONFLICT ''This variant doesn't track inventory. Turn tracking on to record stock.'')
      else if \<not> lo_isActive location
      then Inl (CONFLICT (lo_name location @ '' is inactive. Activate it to change its stock.''))
      else Inr ())"

record adjust_input =
  ai_variantId :: uuid
  ai_locationId :: uuid
  ai_delta :: int
  ai_reason :: movement_reason
  ai_note :: "string option"

definition adjustInventoryInTx ::
  "uuid option \<Rightarrow> adjust_input \<Rightarrow> stock_db \<Rightarrow> stock_error + (stock_db \<times> int)" where
  "adjustInventoryInTx actor input db =
     bindR (loadItem (ai_variantId input) db) (\<lambda>item.
     bindR (loadLocation (ai_locationId input) db) (\<lambda>location.
     bindR (requireTrackedActive item location) (\<lambda>_.
     bindR (lockLevels (it_id item) [lo_id location] db) (\<lambda>(db1, levels).
     bindR (locked_at levels (lo_id location)) (\<lambda>level.
     bindR (applyDelta (ll_levelId level) (ai_delta input) (it_policy item = Some CONTINUE) db1)
       (\<lambda>(db2, applied). case applied of
          None \<Rightarrow> if \<bar>ll_available level + ai_delta input\<bar> > INVENTORY_QUANTITY_LIMIT
                  then Inl (CONFLICT ''That quantity is too large.'')
                  else Inl (notEnoughStock location (ll_available level))
        | Some ap \<Rightarrow>
            bindR (appendMovement actor (it_id item) (lo_id location) (ai_delta input) (ap_resulting ap)
              (ai_reason input) (ai_note input) None db2) (\<lambda>db3. Inr (db3, ap_resulting ap))))))))"

subsection \<open>The default location\<close>

definition byPriorityThenAge :: "location_row \<Rightarrow> location_row \<Rightarrow> int" where
  "byPriorityThenAge a b = (if lo_priority a = lo_priority b then lo_createdAt a - lo_createdAt b
     else lo_priority a - lo_priority b)"

definition firstActive :: "stock_db \<Rightarrow> uuid option" where
  "firstActive db = (case sortBy byPriorityThenAge
       (filter (\<lambda>l. \<not> lo_deleted l \<and> lo_isActive l) (sd_locations db)) of
     [] \<Rightarrow> None | l # _ \<Rightarrow> Some (lo_id l))"

text \<open>
  The loop that finds a free code: MAIN, then MAIN-2, MAIN-3 and so on. It tries one code per
  round, so one round more than there are taken codes is enough fuel (\<open>free_code_found\<close>).
\<close>

fun free_code :: "nat \<Rightarrow> string list \<Rightarrow> nat \<Rightarrow> string \<Rightarrow> string option" where
  "free_code 0 taken n code = None"
| "free_code (Suc fuel) taken n code =
     (if code \<in> set taken then free_code fuel taken (Suc n) (''MAIN-'' @ show_nat n) else Some code)"

definition live_codes :: "stock_db \<Rightarrow> string list" where
  "live_codes db = map lo_code (filter (\<lambda>l. \<not> lo_deleted l) (sd_locations db))"

text \<open>The unique index on the codes of live locations.\<close>

definition insert_location :: "location_row \<Rightarrow> stock_db \<Rightarrow> stock_error + (stock_db \<times> uuid)" where
  "insert_location l db =
     (if lo_code l \<in> set (live_codes db)
      then Inl (CONFLICT ''Another location already uses that code.'')
      else Inr (db\<lparr>sd_locations := sd_locations db @ [l\<lparr>lo_id := sd_next db\<rparr>], sd_next := Suc (sd_next db)\<rparr>,
                sd_next db))"

definition new_location :: "string \<Rightarrow> string \<Rightarrow> bool \<Rightarrow> date \<Rightarrow> location_row" where
  "new_location name code online now = \<lparr>lo_id = 0, lo_name = name, lo_code = code, lo_isActive = True,
     lo_fulfilsOnline = online, lo_priority = 0, lo_createdAt = now, lo_deleted = False\<rparr>"

definition ensureDefaultLocation ::
  "bool \<Rightarrow> date \<Rightarrow> stock_db \<Rightarrow> stock_error + (stock_db \<times> uuid option)" where
  "ensureDefaultLocation createIfMissing now db =
     (case firstActive db of
        Some l \<Rightarrow> Inr (db, Some l)
      | None \<Rightarrow>
          if \<not> createIfMissing then Inr (db, None)
          else bindR (fromSome (STOCK_ERROR ''no free code'')
              (free_code (Suc (length (live_codes db))) (live_codes db) 2 ''MAIN''))
            (\<lambda>code. bindR (insert_location (new_location ''Main location'' code True now) db)
              (\<lambda>(db', l). Inr (db', Some l))))"

definition defaultLocationId :: "date \<Rightarrow> stock_db \<Rightarrow> stock_error + (stock_db \<times> uuid)" where
  "defaultLocationId now db =
     bindR (ensureDefaultLocation True now db) (\<lambda>(db', l). case l of
        None \<Rightarrow> Inl notFound
      | Some l \<Rightarrow> Inr (db', l))"

definition chosen_location :: "uuid option \<Rightarrow> date \<Rightarrow> stock_db \<Rightarrow> stock_error + (stock_db \<times> uuid)" where
  "chosen_location chosen now db = (case chosen of
     Some l \<Rightarrow> Inr (db, l) | None \<Rightarrow> defaultLocationId now db)"

subsection \<open>The merchant's actions\<close>

record stock_input =
  si_variantId :: uuid
  si_locationId :: "uuid option"
  si_quantity :: int
  si_reason :: movement_reason
  si_note :: "string option"

definition adjust_input_ok :: "stock_input \<Rightarrow> bool" where
  "adjust_input_ok data \<longleftrightarrow> si_quantity data \<noteq> 0 \<and> \<bar>si_quantity data\<bar> \<le> INVENTORY_QUANTITY_LIMIT \<and>
     si_reason data \<in> set MANUAL_ADJUSTMENT_REASONS"

definition set_input_ok :: "stock_input \<Rightarrow> bool" where
  "set_input_ok data \<longleftrightarrow> \<bar>si_quantity data\<bar> \<le> INVENTORY_QUANTITY_LIMIT \<and>
     si_reason data \<in> set MANUAL_ADJUSTMENT_REASONS"

definition adjustInventory ::
  "uuid option \<Rightarrow> date \<Rightarrow> stock_input \<Rightarrow> stock_db \<Rightarrow> stock_error + (stock_db \<times> int)" where
  "adjustInventory actor now data db =
     bindR (chosen_location (si_locationId data) now db) (\<lambda>(db1, locationId).
     adjustInventoryInTx actor \<lparr>ai_variantId = si_variantId data, ai_locationId = locationId,
       ai_delta = si_quantity data, ai_reason = si_reason data, ai_note = si_note data\<rparr> db1)"

definition has_history :: "uuid \<Rightarrow> uuid \<Rightarrow> stock_db \<Rightarrow> bool" where
  "has_history itemId locationId db \<longleftrightarrow>
     list_ex (\<lambda>m. mv_item m = itemId \<and> mv_location m = locationId) (sd_movements db)"

definition setInventory ::
  "uuid option \<Rightarrow> date \<Rightarrow> stock_input \<Rightarrow> stock_db \<Rightarrow> stock_error + (stock_db \<times> int)" where
  "setInventory actor now data db =
     bindR (chosen_location (si_locationId data) now db) (\<lambda>(db0, locationId).
     bindR (loadItem (si_variantId data) db0) (\<lambda>item.
     bindR (loadLocation locationId db0) (\<lambda>location.
     bindR (requireTrackedActive item location) (\<lambda>_.
     if si_quantity data < 0 \<and> it_policy item \<noteq> Some CONTINUE
     then Inl (CONFLICT ''Stock can't go below 0 unless the variant allows overselling.'')
     else
     bindR (lockLevels (it_id item) [lo_id location] db0) (\<lambda>(db1, levels).
     bindR (locked_at levels (lo_id location)) (\<lambda>level.
     let delta = si_quantity data - ll_available level
     in if delta = 0 then Inr (db1, ll_available level)
        else let reason = (if has_history (it_id item) (lo_id location) db1 then si_reason data else INITIAL)
        in bindR (applyDelta (ll_levelId level) delta True db1) (\<lambda>(db2, applied). case applied of
             None \<Rightarrow> Inl (CONFLICT ''That quantity is too large.'')
           | Some ap \<Rightarrow>
               bindR (appendMovement actor (it_id item) (lo_id location) delta (ap_resulting ap) reason
                 (si_note data) None db2) (\<lambda>db3. Inr (db3, ap_resulting ap)))))))))"

record move_input =
  mi_variantId :: uuid
  mi_from :: uuid
  mi_to :: uuid
  mi_quantity :: int
  mi_note :: "string option"

definition move_input_ok :: "move_input \<Rightarrow> bool" where
  "move_input_ok data \<longleftrightarrow> 1 \<le> mi_quantity data \<and> mi_quantity data \<le> INVENTORY_QUANTITY_LIMIT \<and>
     mi_from data \<noteq> mi_to data"

text \<open>Both locations are loaded in identifier order, so that is the order of their errors.\<close>

definition load_both ::
  "uuid \<Rightarrow> uuid \<Rightarrow> stock_db \<Rightarrow> stock_error + (location_row \<times> location_row)" where
  "load_both fromId toId db =
     bindR (loadLocation (min fromId toId) db) (\<lambda>first.
     bindR (loadLocation (max fromId toId) db) (\<lambda>second.
     Inr (if fromId \<le> toId then (first, second) else (second, first))))"

definition moveInventory ::
  "uuid option \<Rightarrow> move_input \<Rightarrow> stock_db \<Rightarrow> stock_error + (stock_db \<times> int \<times> int)" where
  "moveInventory actor data db =
     bindR (loadItem (mi_variantId data) db) (\<lambda>item.
     bindR (load_both (mi_from data) (mi_to data) db) (\<lambda>(from_location, to_location).
     bindR (requireTrackedActive item from_location) (\<lambda>_.
     bindR (requireTrackedActive item to_location) (\<lambda>_.
     bindR (lockLevels (it_id item) [lo_id from_location, lo_id to_location] db) (\<lambda>(db1, levels).
     bindR (locked_at levels (lo_id from_location)) (\<lambda>from_level.
     bindR (locked_at levels (lo_id to_location)) (\<lambda>to_level.
     bindR (applyDelta (ll_levelId from_level) (- mi_quantity data) False db1) (\<lambda>(db2, out). case out of
       None \<Rightarrow> Inl (notEnoughStock from_location (ll_available from_level))
     | Some out \<Rightarrow>
       bindR (applyDelta (ll_levelId to_level) (mi_quantity data) True db2) (\<lambda>(db3, into). case into of
         None \<Rightarrow> Inl (CONFLICT ''That quantity is too large.'')
       | Some into \<Rightarrow>
         let reference = Some (REF_TRANSFER, sd_next db3); db4 = db3\<lparr>sd_next := Suc (sd_next db3)\<rparr>
         in bindR (appendMovement actor (it_id item) (lo_id from_location) (- mi_quantity data)
              (ap_resulting out) TRANSFER (mi_note data) reference db4) (\<lambda>db5.
            bindR (appendMovement actor (it_id item) (lo_id to_location) (mi_quantity data)
              (ap_resulting into) TRANSFER (mi_note data) reference db5) (\<lambda>db6.
            Inr (db6, ap_resulting out, ap_resulting into))))))))))))"

definition setInventoryTracking :: "uuid \<Rightarrow> bool \<Rightarrow> stock_db \<Rightarrow> stock_error + stock_db" where
  "setInventoryTracking variantId tracked db =
     (if \<not> list_ex (\<lambda>ii. it_variantId ii = variantId \<and> it_live ii) (sd_items db) then Inl notFound
      else Inr (db\<lparr>sd_items := map (\<lambda>ii. if it_variantId ii = variantId \<and> it_live ii
        then ii\<lparr>it_tracked := tracked\<rparr> else ii) (sd_items db)\<rparr>))"

subsection \<open>Locations\<close>

definition createLocation :: "string \<Rightarrow> string \<Rightarrow> bool \<Rightarrow> date \<Rightarrow> stock_db \<Rightarrow> stock_error + (stock_db \<times> uuid)" where
  "createLocation name code online now db = insert_location (new_location name code online now) db"

definition updateLocation :: "uuid \<Rightarrow> string \<Rightarrow> string \<Rightarrow> bool \<Rightarrow> stock_db \<Rightarrow> stock_error + stock_db" where
  "updateLocation locationId name code online db =
     (let sel = (\<lambda>l. lo_id l = locationId \<and> \<not> lo_deleted l)
      in if \<not> list_ex sel (sd_locations db) then Inl notFound
         else if list_ex (\<lambda>l. \<not> lo_deleted l \<and> lo_id l \<noteq> locationId \<and> lo_code l = code) (sd_locations db)
         then Inl (CONFLICT ''Another location already uses that code.'')
         else Inr (db\<lparr>sd_locations := map (\<lambda>l. if sel l
           then l\<lparr>lo_name := name, lo_code := code, lo_fulfilsOnline := online\<rparr> else l) (sd_locations db)\<rparr>))"

text \<open>The levels at a location that still hold units of a variant that exists.\<close>

definition holds_stock :: "stock_db \<Rightarrow> uuid \<Rightarrow> level_row \<Rightarrow> bool" where
  "holds_stock db locationId lv \<longleftrightarrow> lv_location lv = locationId \<and>
     list_ex (\<lambda>ii. it_id ii = lv_item lv \<and> it_live ii) (sd_items db) \<and>
     (lv_available lv \<noteq> 0 \<or> lv_reserved lv > 0)"

definition setLocationActive :: "uuid \<Rightarrow> bool \<Rightarrow> stock_db \<Rightarrow> stock_error + stock_db" where
  "setLocationActive locationId active db =
     (let actives = filter (\<lambda>l. \<not> lo_deleted l \<and> lo_isActive l) (sd_locations db)
      in case find (\<lambda>l. lo_id l = locationId \<and> \<not> lo_deleted l) (sd_locations db) of
        None \<Rightarrow> Inl notFound
      | Some location \<Rightarrow>
          if lo_isActive location = active then Inr db
          else if \<not> active \<and> length actives \<le> 1
          then Inl (CONFLICT ''A store needs at least one active location. Add another one first.'')
          else if \<not> active \<and> filter (holds_stock db locationId) (sd_levels db) \<noteq> []
          then let count = length (filter (holds_stock db locationId) (sd_levels db)) in
            Inl (CONFLICT (''This location still holds stock for '' @ show_nat count @ '' '' @
              (if count = 1 then ''variant'' else ''variants'') @ ''. Move or adjust it to 0 first.''))
          else Inr (db\<lparr>sd_locations := map (\<lambda>l. if lo_id l = locationId then l\<lparr>lo_isActive := active\<rparr> else l)
            (sd_locations db)\<rparr>))"


section \<open>Properties\<close>

subsection \<open>What the steps of an action do\<close>

lemma find_level_ensure_keeps:
  "find_level db i l = Some lv \<Longrightarrow> find_level (ensure_level i' l' db) i l = Some lv"
  by (auto simp: ensure_level_def find_level_def find_append split: option.splits)

definition locked_ok :: "uuid \<Rightarrow> stock_db \<Rightarrow> locked_level \<Rightarrow> bool" where
  "locked_ok itemId db ll \<longleftrightarrow> (\<exists>lv. find_level db itemId (ll_location ll) = Some lv \<and>
     lv_id lv = ll_levelId ll \<and> lv_available lv = ll_available ll)"

text \<open>The parts of the state a step leaves as they are.\<close>

definition same_quantities :: "stock_db \<Rightarrow> stock_db \<Rightarrow> bool" where
  "same_quantities db db' \<longleftrightarrow> (\<forall>k. quantity db' k = quantity db k) \<and> (\<forall>k. logged db' k = logged db k) \<and>
     sd_items db' = sd_items db \<and> sd_reservations db' = sd_reservations db"

lemma same_quantitiesD:
  assumes "same_quantities db db'"
  shows "quantity db' k = quantity db k" "logged db' k = logged db k"
    "sd_items db' = sd_items db" "sd_reservations db' = sd_reservations db"
  using assms unfolding same_quantities_def by blast+

lemma same_quantities_refl [simp]: "same_quantities db db"
  by (simp add: same_quantities_def)

lemma same_quantities_trans: "same_quantities a b \<Longrightarrow> same_quantities b c \<Longrightarrow> same_quantities a c"
  by (simp add: same_quantities_def)

lemma lockLevels_Inr:
  assumes "lockLevels itemId ls db = Inr (db', locked)" "tables_ok db"
  shows "tables_ok db'" "same_quantities db db'" "sd_locations db' = sd_locations db"
    "\<forall>ll \<in> set locked. locked_ok itemId db' ll"
proof -
  let ?P = "\<lambda>(u, xs). tables_ok u \<and> same_quantities db u \<and> sd_locations u = sd_locations db \<and>
    (\<forall>ll \<in> set xs. locked_ok itemId u ll)"
  have "?P (db', locked)"
    using assms(1) unfolding lockLevels_def
  proof (rule foldR_invariant)
    show "?P (db, [])" using assms(2) by simp
    fix s l t
    assume P: "?P s" and t: "lock_level itemId s l = Inr t"
    obtain u xs where s: "s = (u, xs)" by (cases s)
    let ?u = "ensure_level itemId l u"
    obtain lv where lv: "find_level ?u itemId l = Some lv" using find_level_ensure_level by blast
    from t lv have "t = (?u, xs @ [\<lparr>ll_location = l, ll_levelId = lv_id lv, ll_available = lv_available lv,
          ll_created = (find_level u itemId l = None)\<rparr>])"
      by (simp add: lock_level_def s Let_def)
    moreover have "same_quantities u ?u" by (simp add: same_quantities_def)
    moreover have "locked_ok itemId ?u ll" if "ll \<in> set xs" for ll
      using P that find_level_ensure_keeps by (fastforce simp: s locked_ok_def)
    ultimately show "?P t" using P lv
      by (auto simp: s locked_ok_def intro: tables_ensure_level same_quantities_trans)
  qed
  then show "tables_ok db'" "same_quantities db db'" "sd_locations db' = sd_locations db"
    "\<forall>ll \<in> set locked. locked_ok itemId db' ll" by auto
qed

lemma locked_at_Inr: "locked_at locked l = Inr level \<Longrightarrow> level \<in> set locked \<and> ll_location level = l"
  by (auto simp: locked_at_def fromSome_eq dest: find_Some_iff2)

lemma locked_quantity:
  "locked_ok itemId db ll \<Longrightarrow> quantity db (itemId, ll_location ll, AVAILABLE) = ll_available ll"
  by (auto simp: locked_ok_def quantity.simps)

lemma applyDelta_Inr:
  assumes "applyDelta levelId d neg db = Inr (db', Some ap)" "tables_ok db"
    and "locked_ok itemId db ll" "levelId = ll_levelId ll"
  shows "tables_ok db'" "sd_items db' = sd_items db" "sd_reservations db' = sd_reservations db"
    "sd_locations db' = sd_locations db" "logged db' k = logged db k"
    "quantity db' k = quantity db k + (if k = (itemId, ll_location ll, AVAILABLE) then d else 0)"
    "ap_resulting ap = quantity db' (itemId, ll_location ll, AVAILABLE)"
    "\<bar>ap_resulting ap\<bar> \<le> INVENTORY_QUANTITY_LIMIT" "ap_resulting ap \<ge> 0 \<or> d > 0 \<or> neg"
    "locked_ok itemId db lo \<Longrightarrow> ll_location lo \<noteq> ll_location ll \<Longrightarrow> locked_ok itemId db' lo"
    "sd_next db' = sd_next db"
proof -
  let ?sel = "\<lambda>lv. lv_id lv = levelId \<and> (lv_available lv + d \<ge> 0 \<or> d > 0 \<or> neg) \<and>
    \<bar>lv_available lv + d\<bar> \<le> INVENTORY_QUANTITY_LIMIT"
  obtain rows where u: "update_levels ?sel (add_units d 0) db = Inr (db', rows)"
    and res: "(case rows of [] \<Rightarrow> None
           | row # _ \<Rightarrow> Some \<lparr>ap_previous = lv_available row - d, ap_resulting = lv_available row\<rparr>) = Some ap"
    using assms(1) by (auto simp: applyDelta_def bindR_eq_Inr split: if_splits)
  obtain row where rows: "rows = row # tl rows"
    and ap: "ap = \<lparr>ap_previous = lv_available row - d, ap_resulting = lv_available row\<rparr>"
    using res by (cases rows) auto
  obtain lv where lv: "find_level db itemId (ll_location ll) = Some lv" "lv_id lv = levelId"
    using assms(3,4) by (auto simp: locked_ok_def)
  have in_lv: "lv \<in> set (sd_levels db)" "lv_item lv = itemId" "lv_location lv = ll_location ll"
    using lv(1) by (auto simp: find_level_def at_level_def dest!: find_Some_iff2)
  have only: "lw = lv" if "lw \<in> set (sd_levels db)" "lv_id lw = levelId" for lw
    using assms(2) that in_lv(1) lv(2) unfolding tables_ok_def distinct_map by (metis inj_onD)
  have "row \<in> set rows" using rows by (metis list.set_intros(1))
  then obtain lw where "lw \<in> set (sd_levels db)" "?sel lw" "row = add_units d 0 lw"
    using update_levels_Inr(2)[OF u] by auto
  with only have row: "?sel lv" "row = add_units d 0 lv" by auto
  have f: "find_level db' i l = map_option (\<lambda>x. if i = itemId \<and> l = ll_location ll then add_units d 0 x else x)
      (find_level db i l)" for i l
  proof (cases "find_level db i l")
    case (Some x)
    then have x: "x \<in> set (sd_levels db)" "lv_item x = i" "lv_location x = l"
      by (auto simp: find_level_def at_level_def dest!: find_Some_iff2)
    have "x = lv \<longleftrightarrow> i = itemId \<and> l = ll_location ll"
      using x in_lv Some lv(1) by (metis option.inject)
    moreover have "?sel x \<longleftrightarrow> x = lv"
      using only[OF x(1)] row(1) by blast
    ultimately show ?thesis unfolding find_level_update[OF u, of i l] Some option.map by (simp only:)
  qed (simp add: find_level_update[OF u])
  show "tables_ok db'" by (rule tables_update[OF u assms(2)])
  show "sd_items db' = sd_items db" "sd_reservations db' = sd_reservations db" "sd_locations db' = sd_locations db"
    "sd_next db' = sd_next db" by (simp_all add: update_levels_other[OF u])
  show "logged db' k = logged db k" by (rule logged_cong[OF update_levels_other(1)[OF u]])
  show "quantity db' k = quantity db k + (if k = (itemId, ll_location ll, AVAILABLE) then d else 0)"
    using lv(1) by (cases k) (auto simp: quantity.simps f split: option.splits quantity_name.splits)
  show "ap_resulting ap = quantity db' (itemId, ll_location ll, AVAILABLE)"
    by (simp add: quantity.simps f lv(1) ap row(2))
  show "\<bar>ap_resulting ap\<bar> \<le> INVENTORY_QUANTITY_LIMIT" "ap_resulting ap \<ge> 0 \<or> d > 0 \<or> neg"
    using row by (auto simp: ap)
  show "locked_ok itemId db' lo" if "locked_ok itemId db lo" "ll_location lo \<noteq> ll_location ll"
    using that by (auto simp: locked_ok_def f)
qed

lemma appendMovement_Inr:
  assumes "appendMovement actor i l d n reason note reference db = Inr db'"
  shows "quantity db' k = quantity db k" "logged db' k = logged db k + (if k = (i, l, AVAILABLE) then d else 0)"
    "tables_ok db \<Longrightarrow> tables_ok db'" "sd_items db' = sd_items db" "sd_reservations db' = sd_reservations db"
    "sd_locations db' = sd_locations db"
  using assms unfolding appendMovement_def
  by (auto simp: quantity_insert_movement logged_insert_movement movement_key_def
      intro: tables_insert_movement dest: insert_movement_Inr(1))


text \<open>What an action adds to the ledger: one movement of the level's available units, none without a change.\<close>

definition adds_movement ::
  "stock_db \<Rightarrow> stock_db \<Rightarrow> uuid option \<Rightarrow> uuid \<Rightarrow> uuid \<Rightarrow> int \<Rightarrow> int \<Rightarrow> movement_reason \<Rightarrow> string option \<Rightarrow> bool" where
  "adds_movement db db' actor i l d n reason comment \<longleftrightarrow>
     (if d = 0 then sd_movements db' = sd_movements db
      else \<exists>k. sd_movements db' = sd_movements db @
        [\<lparr>mv_id = k, mv_item = i, mv_location = l, mv_name = AVAILABLE, mv_delta = d, mv_resulting = n,
          mv_reason = reason, mv_reference = None, mv_actor = actor, mv_note = comment\<rparr>])"

lemma appendMovement_adds:
  "appendMovement actor i l d n reason comment None db = Inr db' \<Longrightarrow> adds_movement db db' actor i l d n reason comment"
  unfolding appendMovement_def by (frule insert_movement_Inr(2), drule insert_movement_Inr(1)) (simp add: adds_movement_def)

lemma adds_movement_from: "sd_movements a = sd_movements b \<Longrightarrow> adds_movement a = adds_movement b"
  by (intro ext) (simp add: adds_movement_def)

lemma lock_level_movements: "lock_level itemId s l = Inr t \<Longrightarrow> sd_movements (fst t) = sd_movements (fst s)"
  by (auto simp: lock_level_def Let_def bindR_eq_Inr ensure_level_def split: option.splits prod.splits)

lemma lockLevels_movements:
  assumes "lockLevels itemId ls db = Inr (db', locked)"
  shows "sd_movements db' = sd_movements db"
  using foldR_invariant[OF assms[unfolded lockLevels_def], of "\<lambda>u. sd_movements (fst u) = sd_movements db"]
    lock_level_movements by fastforce

lemma applyDelta_movements: "applyDelta levelId d neg db = Inr (db', r) \<Longrightarrow> sd_movements db' = sd_movements db"
  by (auto simp: applyDelta_def bindR_eq_Inr update_levels_other split: if_splits)


lemma loadItem_Inr: "loadItem v db = Inr item \<Longrightarrow> item \<in> set (sd_items db) \<and> it_variantId item = v \<and> it_live item"
  by (auto simp: loadItem_def fromSome_eq dest: find_Some_iff2)

lemma loadLocation_Inr:
  "loadLocation l db = Inr location \<Longrightarrow> location \<in> set (sd_locations db) \<and> lo_id location = l \<and> \<not> lo_deleted location"
  by (auto simp: loadLocation_def fromSome_eq dest: find_Some_iff2)

lemma requireTrackedActive_Inr: "requireTrackedActive item location = Inr u \<Longrightarrow> it_tracked item \<and> lo_isActive location"
  by (auto simp: requireTrackedActive_def split: if_splits)

text \<open>One change of one level, from locking it to its movement in the ledger.\<close>

lemma change_level:
  assumes "lockLevels itemId [l] db = Inr (db1, levels)" "locked_at levels l = Inr level" "tables_ok db"
    and "applyDelta (ll_levelId level) d neg db1 = Inr (db2, Some ap)"
    and "appendMovement actor itemId l d (ap_resulting ap) reason note reference db2 = Inr db3"
  shows "tables_ok db3" "sd_items db3 = sd_items db" "sd_reservations db3 = sd_reservations db"
    "quantity db3 k = quantity db k + (if k = (itemId, l, AVAILABLE) then d else 0)"
    "logged db3 k = logged db k + (if k = (itemId, l, AVAILABLE) then d else 0)"
    "ap_resulting ap = quantity db3 (itemId, l, AVAILABLE)" "ll_available level = quantity db (itemId, l, AVAILABLE)"
    "\<bar>ap_resulting ap\<bar> \<le> INVENTORY_QUANTITY_LIMIT" "ap_resulting ap \<ge> 0 \<or> d > 0 \<or> neg"
proof -
  note lk = lockLevels_Inr[OF assms(1,3)]
  have level: "ll_location level = l" "locked_ok itemId db1 level"
    using locked_at_Inr[OF assms(2)] lk(4) by auto
  note ap = applyDelta_Inr[OF assms(4) lk(1) level(2) refl, unfolded level(1)]
  note mv = appendMovement_Inr[OF assms(5)]
  show "tables_ok db3" by (rule mv(3)[OF ap(1)])
  show "sd_items db3 = sd_items db" "sd_reservations db3 = sd_reservations db"
    using mv(4,5) ap(2,3) same_quantitiesD[OF lk(2)] by simp_all
  show "quantity db3 k = quantity db k + (if k = (itemId, l, AVAILABLE) then d else 0)"
    "logged db3 k = logged db k + (if k = (itemId, l, AVAILABLE) then d else 0)"
    using mv(1,2)[of k] ap(5,6)[of k] same_quantitiesD[OF lk(2)] by simp_all
  show "ap_resulting ap = quantity db3 (itemId, l, AVAILABLE)" using ap(7) mv(1) by simp
  show "ll_available level = quantity db (itemId, l, AVAILABLE)"
    using locked_quantity[OF level(2)] level(1) same_quantitiesD[OF lk(2)] by simp
  show "\<bar>ap_resulting ap\<bar> \<le> INVENTORY_QUANTITY_LIMIT" "ap_resulting ap \<ge> 0 \<or> d > 0 \<or> neg"
    by (rule ap(8), rule ap(9))
qed

lemma change_level_adds:
  assumes "lockLevels itemId ls db = Inr (db1, levels)" "applyDelta k d neg db1 = Inr (db2, r)"
    and "appendMovement actor itemId l d n reason comment None db2 = Inr db3"
  shows "adds_movement db db3 actor itemId l d n reason comment"
  using appendMovement_adds[OF assms(3)] adds_movement_from[of db2 db]
    lockLevels_movements[OF assms(1)] applyDelta_movements[OF assms(2)] by simp

lemma adjustInTx_Inr:
  assumes "adjustInventoryInTx actor input db = Inr (db', n)" "tables_ok db"
  obtains item location where "loadItem (ai_variantId input) db = Inr item"
    "loadLocation (ai_locationId input) db = Inr location" "it_tracked item" "lo_isActive location"
    "tables_ok db'" "sd_items db' = sd_items db" "sd_reservations db' = sd_reservations db"
    "\<And>k. quantity db' k = quantity db k + (if k = (it_id item, ai_locationId input, AVAILABLE) then ai_delta input else 0)"
    "\<And>k. logged db' k = logged db k + (if k = (it_id item, ai_locationId input, AVAILABLE) then ai_delta input else 0)"
    "n = quantity db' (it_id item, ai_locationId input, AVAILABLE)"
    "\<bar>n\<bar> \<le> INVENTORY_QUANTITY_LIMIT" "n \<ge> 0 \<or> ai_delta input > 0 \<or> it_policy item = Some CONTINUE"
    "adds_movement db db' actor (it_id item) (ai_locationId input) (ai_delta input) n (ai_reason input) (ai_note input)"
proof -
  from assms(1)[unfolded adjustInventoryInTx_def bindR_eq_Inr split_paired_Ex case_prod_conv]
  obtain item location u db1 levels level db2 applied where s: "loadItem (ai_variantId input) db = Inr item"
    "loadLocation (ai_locationId input) db = Inr location" "requireTrackedActive item location = Inr u"
    "lockLevels (it_id item) [lo_id location] db = Inr (db1, levels)" "locked_at levels (lo_id location) = Inr level"
    "applyDelta (ll_levelId level) (ai_delta input) (it_policy item = Some CONTINUE) db1 = Inr (db2, applied)"
    and last: "(case applied of
          None \<Rightarrow> if \<bar>ll_available level + ai_delta input\<bar> > INVENTORY_QUANTITY_LIMIT
                  then Inl (CONFLICT ''That quantity is too large.'')
                  else Inl (notEnoughStock location (ll_available level))
        | Some ap \<Rightarrow>
            bindR (appendMovement actor (it_id item) (lo_id location) (ai_delta input) (ap_resulting ap)
              (ai_reason input) (ai_note input) None db2) (\<lambda>db3. Inr (db3, ap_resulting ap))) = Inr (db', n)"
    by (elim exE conjE) (rule that; assumption)
  obtain ap where ap: "applied = Some ap" using last by (cases applied) (auto split: if_splits)
  have mv: "appendMovement actor (it_id item) (lo_id location) (ai_delta input) (ap_resulting ap)
      (ai_reason input) (ai_note input) None db2 = Inr db'" "n = ap_resulting ap"
    using last by (auto simp: ap bindR_eq_Inr)
  have loc: "lo_id location = ai_locationId input" using loadLocation_Inr[OF s(2)] by simp
  note c = change_level[OF s(4,5) assms(2) s(6)[unfolded ap] mv(1), unfolded loc]
  show ?thesis
    using that[OF s(1,2)] requireTrackedActive_Inr[OF s(3)] c mv(2) change_level_adds[OF s(4,6) mv(1), unfolded loc] by simp
qed


subsection \<open>The default location\<close>

lemma show_nat_inj: "show_nat a = show_nat b \<longleftrightarrow> a = b"
  by (metis read_show_nat)

declare free_code.simps [simp del]

lemma free_code_None:
  "free_code fuel taken n code = None \<Longrightarrow> 0 < fuel \<Longrightarrow>
   code \<in> set taken \<and> (\<forall>j. Suc j < fuel \<longrightarrow> ''MAIN-'' @ show_nat (n + j) \<in> set taken)"
proof (induction fuel taken n code rule: free_code.induct)
  case (2 fuel taken n code)
  then have here: "code \<in> set taken" "free_code fuel taken (Suc n) (''MAIN-'' @ show_nat n) = None"
    by (auto simp: free_code.simps split: if_splits)
  show ?case
  proof (intro conjI allI impI)
    fix j assume j: "Suc j < Suc fuel"
    show "''MAIN-'' @ show_nat (n + j) \<in> set taken"
    proof (cases "fuel = 0")
      case False
      with 2(1)[OF here] j show ?thesis by (cases j) auto
    qed (use j in simp)
  qed (fact here)
qed (simp add: free_code.simps)

lemma free_code_Some: "free_code fuel taken n code = Some c \<Longrightarrow> c \<notin> set taken"
  by (induction fuel taken n code rule: free_code.induct) (auto simp: free_code.simps split: if_splits)

text \<open>One more code than there are taken ones: some code is free within the fuel.\<close>

lemma free_code_found: "\<exists>c. free_code (Suc (length taken)) taken 2 ''MAIN'' = Some c"
proof (rule ccontr)
  assume "\<nexists>c. free_code (Suc (length taken)) taken 2 ''MAIN'' = Some c"
  then have "free_code (Suc (length taken)) taken 2 ''MAIN'' = None" by (metis option.exhaust)
  from free_code_None[OF this] have none: "''MAIN'' \<in> set taken" "\<forall>j < length taken. ''MAIN-'' @ show_nat (2 + j) \<in> set taken"
    by auto
  let ?codes = "insert ''MAIN'' ((\<lambda>j. ''MAIN-'' @ show_nat (2 + j)) ` {..<length taken})"
  have "inj_on (\<lambda>j. ''MAIN-'' @ show_nat (2 + j)) {..<length taken}"
    by (rule inj_onI) (auto simp: show_nat_inj)
  then have "card ?codes = Suc (length taken)"
    by (subst card_insert_disjoint) (auto simp: card_image)
  moreover have "card ?codes \<le> card (set taken)" using none by (intro card_mono) auto
  ultimately show False using card_length[of taken] by simp
qed

definition some_active :: "stock_db \<Rightarrow> bool" where
  "some_active db \<longleftrightarrow> (\<exists>l \<in> set (sd_locations db). lo_isActive l \<and> \<not> lo_deleted l)"

lemma firstActive_Some:
  assumes "firstActive db = Some i"
  shows "\<exists>l \<in> set (sd_locations db). lo_id l = i \<and> lo_isActive l \<and> \<not> lo_deleted l"
proof -
  let ?xs = "sortBy byPriorityThenAge (filter (\<lambda>l. \<not> lo_deleted l \<and> lo_isActive l) (sd_locations db))"
  obtain l ls where l: "?xs = l # ls" "lo_id l = i" using assms by (auto simp: firstActive_def split: list.splits)
  have "l \<in> set ?xs" by (simp only: l list.set_intros)
  with l(2) show ?thesis by auto
qed

text \<open>
  C40: a store always gets a default location. \<open>ensureDefaultLocation\<close> never fails: it returns
  an active location that is not deleted, and an existing one without any change to the store.
  When it creates one, the loop over the codes has found a code no live location uses.
\<close>

theorem ensureDefaultLocation_total:
  "\<exists>db' i l. ensureDefaultLocation True now db = Inr (db', Some i) \<and> l \<in> set (sd_locations db') \<and>
     lo_id l = i \<and> lo_isActive l \<and> \<not> lo_deleted l \<and>
     ((firstActive db = Some i \<and> db' = db) \<or>
      (firstActive db = None \<and> lo_code l \<notin> set (live_codes db) \<and> sd_locations db' = sd_locations db @ [l] \<and>
       sd_levels db' = sd_levels db))"
proof (cases "firstActive db")
  case (Some i)
  then show ?thesis using firstActive_Some[OF Some] by (auto simp: ensureDefaultLocation_def)
next
  case None
  obtain c where c: "free_code (Suc (length (live_codes db))) (live_codes db) 2 ''MAIN'' = Some c"
    using free_code_found by blast
  with free_code_Some[OF c] None show ?thesis
    by (auto simp: ensureDefaultLocation_def insert_location_def new_location_def )
qed

lemma ensureDefault_same:
  assumes "ensureDefaultLocation b now db = Inr (db', l)" "tables_ok db"
  shows "tables_ok db'" "same_quantities db db'" "some_active db \<Longrightarrow> some_active db'"
proof -
  have new: "tables_ok u \<and> same_quantities db u \<and> (some_active db \<longrightarrow> some_active u)"
    if "u = db\<lparr>sd_locations := sd_locations db @ [x], sd_next := Suc (sd_next db)\<rparr>" for u x
    using assms(2) unfolding that
    by (auto simp: tables_ok_def less_Suc_eq same_quantities_def some_active_def
        intro!: quantity_cong logged_cong)
  have "tables_ok db' \<and> same_quantities db db' \<and> (some_active db \<longrightarrow> some_active db')"
  proof (cases "firstActive db \<noteq> None \<or> \<not> b")
    case True
    then have "db' = db" using assms(1) by (auto simp: ensureDefaultLocation_def split: option.splits if_splits)
    then show ?thesis using assms(2) by simp
  next
    case False
    with assms(1) obtain x where "insert_location x db = Inr (db', the l)"
      by (auto simp: ensureDefaultLocation_def bindR_eq_Inr)
    then show ?thesis by (intro new) (auto simp: insert_location_def split: if_splits)
  qed
  then show "tables_ok db'" "same_quantities db db'" "some_active db \<Longrightarrow> some_active db'" by auto
qed


lemma chosen_location_same:
  assumes "chosen_location c now db = Inr (db', l)" "tables_ok db"
  shows "tables_ok db'" "same_quantities db db'" "some_active db \<Longrightarrow> some_active db'"
proof -
  have "db' = db \<or> (\<exists>x. ensureDefaultLocation True now db = Inr (db', x))"
    using assms(1)
    by (cases c) (auto simp: chosen_location_def defaultLocationId_def bindR_eq_Inr split: option.splits)
  then show "tables_ok db'" "same_quantities db db'" "some_active db \<Longrightarrow> some_active db'"
    using assms(2) ensureDefault_same by auto
qed

lemma chosen_location_movements:
  "chosen_location c now db = Inr (db', l) \<Longrightarrow> sd_movements db' = sd_movements db \<and> (\<forall>x. c = Some x \<longrightarrow> l = x)"
  by (auto simp: chosen_location_def defaultLocationId_def ensureDefaultLocation_def insert_location_def bindR_eq_Inr
      fromSome_eq split: option.splits if_splits)

subsection \<open>The merchant's actions\<close>

lemma setInventory_Inr:
  assumes "setInventory actor now data db = Inr (db', n)" "tables_ok db"
  obtains item db0 l location d where "item \<in> set (sd_items db)" "it_variantId item = si_variantId data"
    "si_quantity data < 0 \<longrightarrow> it_policy item = Some CONTINUE"
    "tables_ok db'" "sd_items db' = sd_items db" "sd_reservations db' = sd_reservations db"
    "\<And>k. quantity db' k = quantity db k + (if k = (it_id item, l, AVAILABLE) then d else 0)"
    "\<And>k. logged db' k = logged db k + (if k = (it_id item, l, AVAILABLE) then d else 0)"
    "n = si_quantity data" "n = quantity db' (it_id item, l, AVAILABLE)"
    "chosen_location (si_locationId data) now db = Inr (db0, l)" "loadLocation l db0 = Inr location"
    "it_tracked item" "it_live item" "lo_isActive location" "d = si_quantity data - quantity db (it_id item, l, AVAILABLE)"
    "adds_movement db db' actor (it_id item) l d n (if has_history (it_id item) l db then si_reason data else INITIAL) (si_note data)"
proof -
  from assms(1)[unfolded setInventory_def bindR_eq_Inr split_paired_Ex case_prod_conv]
  obtain db0 lid item location u where s: "chosen_location (si_locationId data) now db = Inr (db0, lid)"
    "loadItem (si_variantId data) db0 = Inr item" "loadLocation lid db0 = Inr location"
    "requireTrackedActive item location = Inr u"
    and rest: "(if si_quantity data < 0 \<and> it_policy item \<noteq> Some CONTINUE
     then Inl (CONFLICT ''Stock can't go below 0 unless the variant allows overselling.'')
     else
     bindR (lockLevels (it_id item) [lo_id location] db0) (\<lambda>(db1, levels).
     bindR (locked_at levels (lo_id location)) (\<lambda>level.
     let delta = si_quantity data - ll_available level
     in if delta = 0 then Inr (db1, ll_available level)
        else let reason = (if has_history (it_id item) (lo_id location) db1 then si_reason data else INITIAL)
        in bindR (applyDelta (ll_levelId level) delta True db1) (\<lambda>(db2, applied). case applied of
             None \<Rightarrow> Inl (CONFLICT ''That quantity is too large.'')
           | Some ap \<Rightarrow>
               bindR (appendMovement actor (it_id item) (lo_id location) delta (ap_resulting ap) reason
                 (si_note data) None db2) (\<lambda>db3. Inr (db3, ap_resulting ap)))))) = Inr (db', n)"
    by (elim exE conjE) (rule that; assumption)
  have pol: "si_quantity data < 0 \<longrightarrow> it_policy item = Some CONTINUE" using rest by (auto split: if_splits)
  note db0 = chosen_location_same[OF s(1) assms(2)]
  note same0 = same_quantitiesD[OF db0(2)]
  have item: "item \<in> set (sd_items db)" "it_variantId item = si_variantId data" "it_live item"
    using loadItem_Inr[OF s(2)] same0(3) by simp_all
  have loc: "lo_id location = lid" using loadLocation_Inr[OF s(3)] by simp
  from rest pol obtain db1 levels level where lk: "lockLevels (it_id item) [lo_id location] db0 = Inr (db1, levels)"
    "locked_at levels (lo_id location) = Inr level"
    and last: "(let delta = si_quantity data - ll_available level
     in if delta = 0 then Inr (db1, ll_available level)
        else let reason = (if has_history (it_id item) (lo_id location) db1 then si_reason data else INITIAL)
        in bindR (applyDelta (ll_levelId level) delta True db1) (\<lambda>(db2, applied). case applied of
             None \<Rightarrow> Inl (CONFLICT ''That quantity is too large.'')
           | Some ap \<Rightarrow>
               bindR (appendMovement actor (it_id item) (lo_id location) delta (ap_resulting ap) reason
                 (si_note data) None db2) (\<lambda>db3. Inr (db3, ap_resulting ap)))) = Inr (db', n)"
    by (auto simp: bindR_eq_Inr split: if_splits)
  note lkI = lockLevels_Inr[OF lk(1) db0(1)]
  have level: "ll_location level = lo_id location" "locked_ok (it_id item) db1 level"
    using locked_at_Inr[OF lk(2)] lkI(4) by auto
  note same1 = same_quantitiesD[OF lkI(2)]
  let ?d = "si_quantity data - ll_available level"
  have mvs: "sd_movements db1 = sd_movements db"
    using lockLevels_movements[OF lk(1)] chosen_location_movements[OF s(1)] by simp
  have av: "ll_available level = quantity db (it_id item, lid, AVAILABLE)"
    using locked_quantity[OF level(2)] level(1) same0 same1 loc by simp
  note base = item requireTrackedActive_Inr[OF s(4)] s(1,3)
  show ?thesis
  proof (cases "?d = 0")
    case True
    then have "db' = db1" "n = ll_available level" using last by (auto simp: Let_def)
    moreover have "ll_available level = quantity db1 (it_id item, lo_id location, AVAILABLE)"
      using locked_quantity[OF level(2)] level(1) by simp
    moreover have "adds_movement db db1 actor (it_id item) lid 0 n reason comment" for n reason comment
      using mvs by (simp add: adds_movement_def)
    ultimately show ?thesis
      using that[of item lid 0 db0 location] base pol lkI(1) same0 same1 True av loc by simp
  next
    case False
    define reason where "reason = (if has_history (it_id item) (lo_id location) db then si_reason data else INITIAL)"
    have "has_history (it_id item) (lo_id location) db1 = has_history (it_id item) (lo_id location) db"
      by (simp add: has_history_def mvs)
    with False obtain db2 ap where ap: "applyDelta (ll_levelId level) ?d True db1 = Inr (db2, Some ap)"
      "appendMovement actor (it_id item) (lo_id location) ?d (ap_resulting ap) reason (si_note data) None db2 = Inr db'"
      "n = ap_resulting ap"
      using last unfolding reason_def by (auto simp: Let_def bindR_eq_Inr split: option.splits)
    note c = change_level[OF lk db0(1) ap(1,2)]
    have "n = si_quantity data" using ap(3) c(4)[of "(it_id item, lo_id location, AVAILABLE)"] c(6,7) by simp
    moreover have "adds_movement db db' actor (it_id item) (lo_id location) ?d n reason (si_note data)"
      using change_level_adds[OF lk(1) ap(1,2)] adds_movement_from[of db0 db] mvs lockLevels_movements[OF lk(1)] ap(3) by simp
    ultimately show ?thesis
      using that[of item lid ?d db0 location] base pol c(1,2,3,4,5,6) same0 ap(3) av
      unfolding reason_def loc by simp
  qed
qed

text \<open>
  C31: setting and adjusting stock. A successful \<open>setInventory\<close> leaves exactly the quantity
  that was entered, a successful \<open>adjustInventory\<close> exactly the old quantity plus the change,
  at one level: that of the variant's live, tracked item at the chosen location, which is the one the input
  names, else the default location, and is active. Every other quantity stays as it was. The ledger gains
  exactly one movement of that level with the difference, the resulting quantity, the input's reason (the
  first movement of a level that is set is \<open>INITIAL\<close>) and note and the actor, none when setting changes
  nothing, and still explains every quantity. The result of an adjustment is within the limit, and either
  result is negative only for a variant that may be oversold (or when an adjustment adds units to an already
  negative level).
\<close>

theorem stock_changes_are_exact:
  assumes "tables_ok db" "ledger_ok db"
  shows "(setInventory actor now data db = Inr (db', n) \<longrightarrow>
      (\<exists>item \<in> set (sd_items db). \<exists>db0 l location. it_variantId item = si_variantId data \<and> it_tracked item \<and> it_live item \<and>
        chosen_location (si_locationId data) now db = Inr (db0, l) \<and> (\<forall>x. si_locationId data = Some x \<longrightarrow> l = x) \<and>
        loadLocation l db0 = Inr location \<and> lo_isActive location \<and> n = si_quantity data \<and>
        quantity db' (it_id item, l, AVAILABLE) = n \<and> (n < 0 \<longrightarrow> it_policy item = Some CONTINUE) \<and>
        adds_movement db db' actor (it_id item) l (n - quantity db (it_id item, l, AVAILABLE)) n
          (if has_history (it_id item) l db then si_reason data else INITIAL) (si_note data) \<and>
        (\<forall>i k q. (i, k, q) \<noteq> (it_id item, l, AVAILABLE) \<longrightarrow> quantity db' (i, k, q) = quantity db (i, k, q))) \<and>
      ledger_ok db' \<and> tables_ok db') \<and>
    (adjustInventory actor now data db = Inr (db', n) \<longrightarrow>
      (\<exists>item \<in> set (sd_items db). \<exists>db0 l location. it_variantId item = si_variantId data \<and> it_tracked item \<and> it_live item \<and>
        chosen_location (si_locationId data) now db = Inr (db0, l) \<and> (\<forall>x. si_locationId data = Some x \<longrightarrow> l = x) \<and>
        loadLocation l db0 = Inr location \<and> lo_isActive location \<and> quantity db' (it_id item, l, AVAILABLE) = n \<and>
        n = quantity db (it_id item, l, AVAILABLE) + si_quantity data \<and> \<bar>n\<bar> \<le> INVENTORY_QUANTITY_LIMIT \<and>
        (n < 0 \<longrightarrow> it_policy item = Some CONTINUE \<or> 0 < si_quantity data) \<and>
        adds_movement db db' actor (it_id item) l (si_quantity data) n (si_reason data) (si_note data) \<and>
        (\<forall>i k q. (i, k, q) \<noteq> (it_id item, l, AVAILABLE) \<longrightarrow> quantity db' (i, k, q) = quantity db (i, k, q))) \<and>
      ledger_ok db' \<and> tables_ok db')"
proof (intro conjI impI)
  assume set: "setInventory actor now data db = Inr (db', n)"
  obtain item db0 l location d where i: "item \<in> set (sd_items db)" "it_variantId item = si_variantId data"
    "si_quantity data < 0 \<longrightarrow> it_policy item = Some CONTINUE" "tables_ok db'"
    "\<And>k. quantity db' k = quantity db k + (if k = (it_id item, l, AVAILABLE) then d else 0)"
    "\<And>k. logged db' k = logged db k + (if k = (it_id item, l, AVAILABLE) then d else 0)"
    "n = si_quantity data" "n = quantity db' (it_id item, l, AVAILABLE)"
    and w: "chosen_location (si_locationId data) now db = Inr (db0, l)" "loadLocation l db0 = Inr location"
    "it_tracked item" "it_live item" "lo_isActive location" "d = si_quantity data - quantity db (it_id item, l, AVAILABLE)"
    "adds_movement db db' actor (it_id item) l d n (if has_history (it_id item) l db then si_reason data else INITIAL) (si_note data)"
    by (rule setInventory_Inr[OF set assms(1)]) (rule that; assumption)
  show "\<exists>item \<in> set (sd_items db). \<exists>db0 l location. it_variantId item = si_variantId data \<and> it_tracked item \<and> it_live item \<and>
        chosen_location (si_locationId data) now db = Inr (db0, l) \<and> (\<forall>x. si_locationId data = Some x \<longrightarrow> l = x) \<and>
        loadLocation l db0 = Inr location \<and> lo_isActive location \<and> n = si_quantity data \<and>
        quantity db' (it_id item, l, AVAILABLE) = n \<and> (n < 0 \<longrightarrow> it_policy item = Some CONTINUE) \<and>
        adds_movement db db' actor (it_id item) l (n - quantity db (it_id item, l, AVAILABLE)) n
          (if has_history (it_id item) l db then si_reason data else INITIAL) (si_note data) \<and>
        (\<forall>i k q. (i, k, q) \<noteq> (it_id item, l, AVAILABLE) \<longrightarrow> quantity db' (i, k, q) = quantity db (i, k, q))"
    using i(1,2,3) i(8)[symmetric] i(5) w(2-5) w(7)[unfolded w(6), folded i(7)] i(7) chosen_location_movements[OF w(1)] w(1)
    by (intro bexI[of _ item] exI[of _ db0] exI[of _ l] exI[of _ location] conjI allI impI) auto
  show "tables_ok db'" by (fact i(4))
  show "ledger_ok db'" using assms(2) i(5,6) by (simp add: ledger_ok_iff)
next
  assume "adjustInventory actor now data db = Inr (db', n)"
  then obtain db1 l where c: "chosen_location (si_locationId data) now db = Inr (db1, l)"
    and a: "adjustInventoryInTx actor \<lparr>ai_variantId = si_variantId data, ai_locationId = l,
       ai_delta = si_quantity data, ai_reason = si_reason data, ai_note = si_note data\<rparr> db1 = Inr (db', n)"
    by (auto simp: adjustInventory_def bindR_eq_Inr)
  note db1 = chosen_location_same[OF c assms(1)]
  note same = same_quantitiesD[OF db1(2)]
  obtain item location where i: "loadItem (si_variantId data) db1 = Inr item"
    "tables_ok db'" "\<And>k. quantity db' k = quantity db1 k + (if k = (it_id item, l, AVAILABLE) then si_quantity data else 0)"
    "\<And>k. logged db' k = logged db1 k + (if k = (it_id item, l, AVAILABLE) then si_quantity data else 0)"
    "n = quantity db' (it_id item, l, AVAILABLE)" "\<bar>n\<bar> \<le> INVENTORY_QUANTITY_LIMIT"
    "n \<ge> 0 \<or> si_quantity data > 0 \<or> it_policy item = Some CONTINUE"
    and w: "loadLocation l db1 = Inr location" "it_tracked item" "lo_isActive location"
    "adds_movement db1 db' actor (it_id item) l (si_quantity data) n (si_reason data) (si_note data)"
    by (rule adjustInTx_Inr[OF a db1(1), unfolded adjust_input.select_convs]) (rule that; assumption)
  have "adds_movement db db' actor (it_id item) l (si_quantity data) n (si_reason data) (si_note data)"
    using w(4) chosen_location_movements[OF c] adds_movement_from[of db1 db] by simp
  then show "\<exists>item \<in> set (sd_items db). \<exists>db0 l location. it_variantId item = si_variantId data \<and> it_tracked item \<and> it_live item \<and>
        chosen_location (si_locationId data) now db = Inr (db0, l) \<and> (\<forall>x. si_locationId data = Some x \<longrightarrow> l = x) \<and>
        loadLocation l db0 = Inr location \<and> lo_isActive location \<and> quantity db' (it_id item, l, AVAILABLE) = n \<and>
        n = quantity db (it_id item, l, AVAILABLE) + si_quantity data \<and> \<bar>n\<bar> \<le> INVENTORY_QUANTITY_LIMIT \<and>
        (n < 0 \<longrightarrow> it_policy item = Some CONTINUE \<or> 0 < si_quantity data) \<and>
        adds_movement db db' actor (it_id item) l (si_quantity data) n (si_reason data) (si_note data) \<and>
        (\<forall>i k q. (i, k, q) \<noteq> (it_id item, l, AVAILABLE) \<longrightarrow> quantity db' (i, k, q) = quantity db (i, k, q))"
    using loadItem_Inr[OF i(1)] same i(3,5,6,7) w(1-3) chosen_location_movements[OF c] c
    by (intro bexI[of _ item] exI[of _ db1] exI[of _ l] exI[of _ location] conjI allI impI) auto
  show "tables_ok db'" by (fact i(2))
  show "ledger_ok db'" using assms(2) i(3,4) same by (simp add: ledger_ok_iff)
qed


lemma load_both_Inr:
  assumes "load_both a b db = Inr (x, y)"
  shows "lo_id x = a" "lo_id y = b"
  using assms by (auto simp: load_both_def bindR_eq_Inr min_def max_def split: if_splits dest!: loadLocation_Inr)

lemma moveInventory_Inr:
  assumes "moveInventory actor data db = Inr (db', n, m)" "tables_ok db" "mi_from data \<noteq> mi_to data"
  obtains item where "item \<in> set (sd_items db)" "it_variantId item = mi_variantId data"
    "tables_ok db'" "sd_items db' = sd_items db" "sd_reservations db' = sd_reservations db"
    "\<And>k. quantity db' k = quantity db k + (if k = (it_id item, mi_from data, AVAILABLE) then - mi_quantity data
       else if k = (it_id item, mi_to data, AVAILABLE) then mi_quantity data else 0)"
    "\<And>k. logged db' k = logged db k + (if k = (it_id item, mi_from data, AVAILABLE) then - mi_quantity data
       else if k = (it_id item, mi_to data, AVAILABLE) then mi_quantity data else 0)"
    "n = quantity db' (it_id item, mi_from data, AVAILABLE)" "m = quantity db' (it_id item, mi_to data, AVAILABLE)"
    "n \<ge> 0 \<or> mi_quantity data < 0" "\<bar>m\<bar> \<le> INVENTORY_QUANTITY_LIMIT"
proof -
  from assms(1)[unfolded moveInventory_def bindR_eq_Inr split_paired_Ex case_prod_conv]
  obtain item fl tl u v db1 levels f t db2 out where s: "loadItem (mi_variantId data) db = Inr item"
    "load_both (mi_from data) (mi_to data) db = Inr (fl, tl)" "requireTrackedActive item fl = Inr u"
    "requireTrackedActive item tl = Inr v"
    "lockLevels (it_id item) [lo_id fl, lo_id tl] db = Inr (db1, levels)"
    "locked_at levels (lo_id fl) = Inr f" "locked_at levels (lo_id tl) = Inr t"
    "applyDelta (ll_levelId f) (- mi_quantity data) False db1 = Inr (db2, out)"
    and rest: "(case out of
       None \<Rightarrow> Inl (notEnoughStock fl (ll_available f))
     | Some out \<Rightarrow>
       bindR (applyDelta (ll_levelId t) (mi_quantity data) True db2) (\<lambda>(db3, into). case into of
         None \<Rightarrow> Inl (CONFLICT ''That quantity is too large.'')
       | Some into \<Rightarrow>
         let reference = Some (REF_TRANSFER, sd_next db3); db4 = db3\<lparr>sd_next := Suc (sd_next db3)\<rparr>
         in bindR (appendMovement actor (it_id item) (lo_id fl) (- mi_quantity data)
              (ap_resulting out) TRANSFER (mi_note data) reference db4) (\<lambda>db5.
            bindR (appendMovement actor (it_id item) (lo_id tl) (mi_quantity data)
              (ap_resulting into) TRANSFER (mi_note data) reference db5) (\<lambda>db6.
            Inr (db6, ap_resulting out, ap_resulting into))))) = Inr (db', n, m)"
    by (elim exE conjE) (rule that; assumption)
  obtain out' where o: "out = Some out'" using rest by (cases out) auto
  from rest[unfolded o option.case bindR_eq_Inr split_paired_Ex case_prod_conv]
  obtain db3 into where i: "applyDelta (ll_levelId t) (mi_quantity data) True db2 = Inr (db3, into)"
    and rest2: "(case into of None \<Rightarrow> Inl (CONFLICT ''That quantity is too large.'')
       | Some into \<Rightarrow>
         let reference = Some (REF_TRANSFER, sd_next db3); db4 = db3\<lparr>sd_next := Suc (sd_next db3)\<rparr>
         in bindR (appendMovement actor (it_id item) (lo_id fl) (- mi_quantity data)
              (ap_resulting out') TRANSFER (mi_note data) reference db4) (\<lambda>db5.
            bindR (appendMovement actor (it_id item) (lo_id tl) (mi_quantity data)
              (ap_resulting into) TRANSFER (mi_note data) reference db5) (\<lambda>db6.
            Inr (db6, ap_resulting out', ap_resulting into)))) = Inr (db', n, m)"
    by (elim exE conjE) (rule that; assumption)
  obtain into' where it: "into = Some into'" using rest2 by (cases into) auto
  define db4 where "db4 = db3\<lparr>sd_next := Suc (sd_next db3)\<rparr>"
  obtain ref db5 where mv: "appendMovement actor (it_id item) (lo_id fl) (- mi_quantity data)
        (ap_resulting out') TRANSFER (mi_note data) ref db4 = Inr db5"
      "appendMovement actor (it_id item) (lo_id tl) (mi_quantity data)
        (ap_resulting into') TRANSFER (mi_note data) ref db5 = Inr db'"
    and nm: "n = ap_resulting out'" "m = ap_resulting into'"
    using rest2[unfolded it option.case] by (auto simp: Let_def bindR_eq_Inr db4_def)
  note ids = load_both_Inr[OF s(2)]
  note lk = lockLevels_Inr[OF s(5) assms(2)]
  note same = same_quantitiesD[OF lk(2)]
  have f: "ll_location f = mi_from data" "locked_ok (it_id item) db1 f" and t: "ll_location t = mi_to data" "locked_ok (it_id item) db1 t"
    using locked_at_Inr[OF s(6)] locked_at_Inr[OF s(7)] lk(4) ids by auto
  note a = applyDelta_Inr[OF s(8)[unfolded o] lk(1) f(2) refl]
  have t2: "locked_ok (it_id item) db2 t" using a(10)[OF t(2)] f(1) t(1) assms(3) by simp
  note b = applyDelta_Inr[OF i[unfolded it] a(1) t2 refl]
  have ok4: "tables_ok db4" using b(1) by (auto simp: db4_def tables_ok_def less_Suc_eq)
  note m1 = appendMovement_Inr[OF mv(1)] and m2 = appendMovement_Inr[OF mv(2)]
  show ?thesis
  proof (rule that[of item])
    show "item \<in> set (sd_items db)" "it_variantId item = mi_variantId data" using loadItem_Inr[OF s(1)] by simp_all
    show "tables_ok db'" by (rule m2(3)[OF m1(3)[OF ok4]])
    show "sd_items db' = sd_items db" "sd_reservations db' = sd_reservations db"
      using m1(4,5) m2(4,5) a(2,3) b(2,3) same by (simp_all add: db4_def)
    show q: "quantity db' k = quantity db k + (if k = (it_id item, mi_from data, AVAILABLE) then - mi_quantity data
       else if k = (it_id item, mi_to data, AVAILABLE) then mi_quantity data else 0)" for k
      using m1(1)[of k] m2(1)[of k] a(6)[of k] b(6)[of k] same(1)[of k] assms(3) f(1) t(1) by (simp add: db4_def)
    show "logged db' k = logged db k + (if k = (it_id item, mi_from data, AVAILABLE) then - mi_quantity data
       else if k = (it_id item, mi_to data, AVAILABLE) then mi_quantity data else 0)" for k
      using m1(2)[of k] m2(2)[of k] a(5)[of k] b(5)[of k] same(2)[of k] assms(3) ids by (simp add: db4_def)
    let ?kf = "(it_id item, mi_from data, AVAILABLE)" and ?kt = "(it_id item, mi_to data, AVAILABLE)"
    have "quantity db' ?kf = quantity db2 ?kf" "quantity db' ?kt = quantity db3 ?kt"
      using m1(1) m2(1) b(6)[of ?kf] assms(3) f(1) t(1) by (simp_all add: db4_def)
    then show "n = quantity db' ?kf" "m = quantity db' ?kt"
      using nm a(7) b(7) f(1) t(1) by simp_all
    show "n \<ge> 0 \<or> mi_quantity data < 0" "\<bar>m\<bar> \<le> INVENTORY_QUANTITY_LIMIT"
      using a(9) b(8) nm by auto
  qed
qed

text \<open>
  C27: a transfer moves units and loses none. A successful \<open>moveInventory\<close> takes the quantity
  from the one level and adds it to the other, so the item's units over both locations stay
  the same, the source is not taken below zero, every other quantity is unchanged, and the
  ledger explains the result.
\<close>

theorem transfer_conserves_units:
  assumes "moveInventory actor data db = Inr (db', n, m)" "tables_ok db" "ledger_ok db" "move_input_ok data"
  shows "\<exists>item \<in> set (sd_items db). it_variantId item = mi_variantId data \<and> 0 \<le> n \<and>
    quantity db' (it_id item, mi_from data, AVAILABLE) = n \<and> quantity db' (it_id item, mi_to data, AVAILABLE) = m \<and>
    n = quantity db (it_id item, mi_from data, AVAILABLE) - mi_quantity data \<and>
    n + m = quantity db (it_id item, mi_from data, AVAILABLE) + quantity db (it_id item, mi_to data, AVAILABLE) \<and>
    (\<forall>i l q. (i, l, q) \<noteq> (it_id item, mi_from data, AVAILABLE) \<and> (i, l, q) \<noteq> (it_id item, mi_to data, AVAILABLE)
       \<longrightarrow> quantity db' (i, l, q) = quantity db (i, l, q)) \<and> ledger_ok db' \<and> tables_ok db'"
proof -
  have ne: "mi_from data \<noteq> mi_to data" and pos: "1 \<le> mi_quantity data" using assms(4) by (simp_all add: move_input_ok_def)
  obtain item where i: "item \<in> set (sd_items db)" "it_variantId item = mi_variantId data"
    "tables_ok db'"
    and q: "\<And>k. quantity db' k = quantity db k + (if k = (it_id item, mi_from data, AVAILABLE) then - mi_quantity data
       else if k = (it_id item, mi_to data, AVAILABLE) then mi_quantity data else 0)"
    and lg: "\<And>k. logged db' k = logged db k + (if k = (it_id item, mi_from data, AVAILABLE) then - mi_quantity data
       else if k = (it_id item, mi_to data, AVAILABLE) then mi_quantity data else 0)"
    and nm: "n = quantity db' (it_id item, mi_from data, AVAILABLE)" "m = quantity db' (it_id item, mi_to data, AVAILABLE)"
    "n \<ge> 0 \<or> mi_quantity data < 0"
    by (rule moveInventory_Inr[OF assms(1,2) ne]) (rule that; assumption)
  have "ledger_ok db'" using assms(3) by (simp add: ledger_ok_iff q lg)
  moreover have "n = quantity db (it_id item, mi_from data, AVAILABLE) - mi_quantity data"
    "m = quantity db (it_id item, mi_to data, AVAILABLE) + mi_quantity data"
    using q[of "(it_id item, mi_from data, AVAILABLE)"] q[of "(it_id item, mi_to data, AVAILABLE)"] nm ne by simp_all
  ultimately show ?thesis using i nm q pos by (intro bexI[of _ item]) auto
qed


subsection \<open>Activating and deactivating locations\<close>

lemma setLocationActive_Inr:
  assumes "setLocationActive locationId active db = Inr db'"
  obtains (same) "db' = db" | (changed) location where
    "find (\<lambda>l. lo_id l = locationId \<and> \<not> lo_deleted l) (sd_locations db) = Some location"
    "lo_isActive location \<noteq> active"
    "active \<or> 1 < length (filter (\<lambda>l. \<not> lo_deleted l \<and> lo_isActive l) (sd_locations db))"
    "active \<or> (\<forall>lv \<in> set (sd_levels db). \<not> holds_stock db locationId lv)"
    "db' = db\<lparr>sd_locations := map (\<lambda>l. if lo_id l = locationId then l\<lparr>lo_isActive := active\<rparr> else l) (sd_locations db)\<rparr>"
  using assms by (auto simp: setLocationActive_def Let_def filter_empty_conv split: option.splits if_splits)

lemma stock_db_locations_eq: "db = db\<lparr>sd_locations := ls\<rparr> \<Longrightarrow> ls = sd_locations db"
  by (cases db) simp

lemma two_active:
  assumes "1 < length (filter P xs)" "distinct (map f xs)"
  shows "\<exists>x \<in> set xs. P x \<and> f x \<noteq> u"
proof (rule ccontr)
  assume "\<not> (\<exists>x \<in> set xs. P x \<and> f x \<noteq> u)"
  then have "f ` set (filter P xs) \<subseteq> {u}" by auto
  then have "card (f ` set (filter P xs)) \<le> 1" by (metis card.empty card_insert_disjoint card_mono finite.intros empty_iff One_nat_def)
  moreover have "card (f ` set (filter P xs)) = length (filter P xs)"
    using assms(2) by (metis distinct_card distinct_map_filter length_map set_map)
  ultimately show False using assms(1) by simp
qed

text \<open>
  C28: deactivating a location strands no stock and never closes the last one. If
  \<open>setLocationActive\<close> deactivates a location that was active, no level there holds units
  (available or reserved) of a variant that still exists, and another location of the store
  is still active; no quantity changes.
\<close>

theorem deactivation_strands_nothing:
  assumes "setLocationActive locationId False db = Inr db'" "distinct (map lo_id (sd_locations db))"
    and "l \<in> set (sd_locations db)" "lo_id l = locationId" "lo_isActive l" "\<not> lo_deleted l"
  shows "some_active db' \<and> (\<forall>l' \<in> set (sd_locations db'). lo_id l' = locationId \<longrightarrow> \<not> lo_isActive l') \<and>
    (\<forall>lv \<in> set (sd_levels db'). lv_location lv = locationId \<and>
       (\<exists>ii \<in> set (sd_items db'). it_id ii = lv_item lv \<and> it_live ii) \<longrightarrow>
       lv_available lv = 0 \<and> lv_reserved lv \<le> 0) \<and>
    (\<forall>i k q. quantity db' (i, k, q) = quantity db (i, k, q))"
  using assms(1)
proof (cases rule: setLocationActive_Inr)
  case same
  have "find (\<lambda>x. lo_id x = locationId \<and> \<not> lo_deleted x) (sd_locations db) = Some l"
    using assms(2-6) by (auto simp: find_Some_iff in_set_conv_nth distinct_conv_nth)
  with assms(1,5) have "db' = db\<lparr>sd_locations := map (\<lambda>l. if lo_id l = locationId then l\<lparr>lo_isActive := False\<rparr> else l) (sd_locations db)\<rparr>"
    by (auto simp: setLocationActive_def Let_def split: if_splits)
  then have "map (\<lambda>l. if lo_id l = locationId then l\<lparr>lo_isActive := False\<rparr> else l) (sd_locations db) = map (\<lambda>l. l) (sd_locations db)"
    using stock_db_locations_eq same by (metis list.map_ident)
  then have "(if lo_id l = locationId then l\<lparr>lo_isActive := False\<rparr> else l) = l" using assms(3) unfolding map_eq_conv by blast
  then have "l\<lparr>lo_isActive := False\<rparr> = l" using assms(4) by simp
  then have "\<not> lo_isActive l" by (cases l) simp
  then show ?thesis using assms(5) by simp
next
  case (changed location)
  obtain x where "x \<in> set (sd_locations db)" "\<not> lo_deleted x \<and> lo_isActive x" "lo_id x \<noteq> locationId"
    using two_active[OF _ assms(2)] changed(3) by blast
  then have "some_active db'" by (force simp: some_active_def changed(5))
  moreover have "quantity db' (i, k, q) = quantity db (i, k, q)" for i k q
    by (rule quantity_cong) (simp add: changed(5))
  moreover have "lv_available lv = 0 \<and> lv_reserved lv \<le> 0"
    if "lv \<in> set (sd_levels db')" "lv_location lv = locationId" "ii \<in> set (sd_items db')" "it_id ii = lv_item lv" "it_live ii" for lv ii
  proof -
    have "\<not> holds_stock db locationId lv" using changed(4) that(1) by (simp add: changed(5))
    moreover have "list_ex (\<lambda>ii. it_id ii = lv_item lv \<and> it_live ii) (sd_items db)"
      using that by (auto simp: changed(5) list_ex_iff)
    ultimately show ?thesis using that(2) by (simp add: holds_stock_def not_less)
  qed
  moreover have loc': "sd_locations db' = map (\<lambda>l. if lo_id l = locationId then l\<lparr>lo_isActive := False\<rparr> else l) (sd_locations db)"
    by (simp add: changed(5))
  have "\<not> lo_isActive l'" if l': "l' \<in> set (sd_locations db')" "lo_id l' = locationId" for l'
  proof -
    obtain x where "x \<in> set (sd_locations db)" "l' = (if lo_id x = locationId then x\<lparr>lo_isActive := False\<rparr> else x)"
      using l'(1) unfolding loc' set_map by blast
    then show ?thesis using l'(2) by (cases "lo_id x = locationId") auto
  qed
  ultimately show ?thesis by auto
qed


subsection \<open>Every reachable store\<close>

text \<open>
  One committed transaction of the store: any stock operation of a checkout or an order, any
  action of the merchant, or a change of the catalogue's items.
\<close>

inductive store_step :: "stock_db \<Rightarrow> stock_db \<Rightarrow> bool" where
  step_reserve: "reserveStock checkoutId ls expiresAt force db = Inr (db', res) \<Longrightarrow> store_step db db'"
| step_release: "releaseCheckoutStock checkoutId db = Inr (db', n) \<Longrightarrow> store_step db db'"
| step_convert: "convertCheckoutStock checkoutId orderId f db = Inr db' \<Longrightarrow> store_step db db'"
| step_fulfil: "fulfilStock orderId ms actor db = Inr db' \<Longrightarrow> store_step db db'"
| step_cancel: "cancelOrderStock orderId ms actor db = Inr db' \<Longrightarrow> store_step db db'"
| step_restock: "restockStock orderId rs actor db = Inr db' \<Longrightarrow> store_step db db'"
| step_adjust: "adjustInventory actor now data db = Inr (db', m) \<Longrightarrow> store_step db db'"
| step_set: "setInventory actor now data db = Inr (db', m) \<Longrightarrow> store_step db db'"
| step_move: "moveInventory actor move db = Inr (db', m, k) \<Longrightarrow> move_input_ok move \<Longrightarrow> store_step db db'"
| step_tracking: "setInventoryTracking variantId tracked db = Inr db' \<Longrightarrow> store_step db db'"
| step_create: "createLocation name code online now db = Inr (db', l) \<Longrightarrow> store_step db db'"
| step_update: "updateLocation l name code online db = Inr db' \<Longrightarrow> store_step db db'"
| step_active: "setLocationActive l active db = Inr db' \<Longrightarrow> store_step db db'"
| step_items: "store_step db (db\<lparr>sd_items := items\<rparr>)"

inductive store_reachable :: "stock_db \<Rightarrow> bool" where
  empty_store: "sd_levels db = [] \<Longrightarrow> sd_movements db = [] \<Longrightarrow> sd_reservations db = [] \<Longrightarrow> store_reachable db"
| next_store: "store_reachable db \<Longrightarrow> store_step db db' \<Longrightarrow> store_reachable db'"

definition books_ok :: "stock_db \<Rightarrow> bool" where
  "books_ok db \<longleftrightarrow> tables_ok db \<and> ledger_ok db"

lemma books_okI: "tables_ok db \<Longrightarrow> (\<And>k. quantity db k = logged db k) \<Longrightarrow> books_ok db"
  by (simp add: books_ok_def ledger_ok_iff)

lemma books_same:
  assumes "books_ok db" "sd_levels db' = sd_levels db" "sd_movements db' = sd_movements db"
    "sd_reservations db' = sd_reservations db" "sd_next db \<le> sd_next db'"
  shows "books_ok db'"
proof (rule books_okI)
  show "tables_ok db'" using assms(1,5) unfolding books_ok_def tables_ok_def assms(2,4)
    by (auto intro: order_less_le_trans)
  show "quantity db' k = logged db' k" for k
    using assms(1) quantity_cong[OF assms(2)] logged_cong[OF assms(3)] unfolding books_ok_def ledger_ok_iff by metis
qed

lemma books_set_reservations:
  assumes "books_ok db" "\<And>r. rs_id (f r) = rs_id r \<and> rs_quantity (f r) = rs_quantity r"
  shows "books_ok (set_reservations sel f db)"
  using assms tables_set_reservations[of db f sel] by (simp add: books_ok_def ledger_ok_iff)

lemma books_release:
  assumes "releaseCheckoutStock c db = Inr (db', n)" "books_ok db"
  shows "books_ok db'"
proof (cases "active_reservations db c = []")
  case True
  then show ?thesis using assms by (simp add: releaseCheckoutStock_def)
next
  case False
  then have "release_list db c \<noteq> []" by (metis length_sortBy length_0_conv)
  with assms(1) obtain mid sel where mid: "foldR (\<lambda>db m. moveLevel m db) db (map (release_move c) (release_list db c)) = Inr mid"
    and db': "db' = set_reservations sel (\<lambda>r. r\<lparr>rs_status := RELEASED\<rparr>) mid"
    by (auto simp: releaseCheckoutStock_def Let_def bindR_eq_Inr)
  have "books_ok mid" using moves.run_tables[OF mid] moves.run_ledger[OF mid] assms(2) by (simp add: books_ok_def)
  then show ?thesis unfolding db' by (rule books_set_reservations) simp
qed

lemma books_convert:
  assumes "convertCheckoutStock c oid f db = Inr db'" "books_ok db"
  shows "books_ok db'"
  using assms(1) unfolding convertCheckoutStock_def Let_def
  by (rule foldR_invariant[where P = books_ok])
    (use assms(2) in \<open>auto split: option.splits intro!: books_set_reservations\<close>)

lemma books_run:
  "fulfilStock oid ms actor db = Inr db' \<Longrightarrow> books_ok db \<Longrightarrow> books_ok db'"
  "cancelOrderStock oid ms actor db = Inr db' \<Longrightarrow> books_ok db \<Longrightarrow> books_ok db'"
  "restockStock oid rs actor db = Inr db' \<Longrightarrow> books_ok db \<Longrightarrow> books_ok db'"
  "reserveStock c ls expiresAt force db = Inr (db', res) \<Longrightarrow> books_ok db \<Longrightarrow> books_ok db'"
  unfolding books_ok_def fulfilStock_def cancelOrderStock_def
  by (auto intro: fulfils.run_tables fulfils.run_ledger cancels.run_tables cancels.run_ledger
      restockStock_effect reserveStock_tables reserveStock_ledger)

lemma books_locations:
  assumes "books_ok db"
  shows "setInventoryTracking v tracked db = Inr db' \<Longrightarrow> books_ok db'"
    "createLocation name code online now db = Inr (db', l) \<Longrightarrow> books_ok db'"
    "updateLocation l name code online db = Inr db' \<Longrightarrow> books_ok db'"
    "setLocationActive l active db = Inr db' \<Longrightarrow> books_ok db'"
  by (rule books_same[OF assms]; auto simp: setInventoryTracking_def createLocation_def insert_location_def
      updateLocation_def Let_def split: if_splits elim: setLocationActive_Inr)+


lemma books_inventory:
  assumes "books_ok db"
  shows "adjustInventory actor now data db = Inr (db', n) \<Longrightarrow> books_ok db'"
    "setInventory actor now data db = Inr (db', n) \<Longrightarrow> books_ok db'"
proof -
  have ok: "tables_ok db" "\<And>k. quantity db k = logged db k" using assms by (auto simp: books_ok_def ledger_ok_iff)
  {
    assume "adjustInventory actor now data db = Inr (db', n)"
    then obtain db1 l where c: "chosen_location (si_locationId data) now db = Inr (db1, l)"
      and a: "adjustInventoryInTx actor \<lparr>ai_variantId = si_variantId data, ai_locationId = l,
         ai_delta = si_quantity data, ai_reason = si_reason data, ai_note = si_note data\<rparr> db1 = Inr (db', n)"
      by (auto simp: adjustInventory_def bindR_eq_Inr)
    note db1 = chosen_location_same[OF c ok(1)]
    show "books_ok db'"
      by (rule adjustInTx_Inr[OF a db1(1)]; rule books_okI; simp add: same_quantitiesD[OF db1(2)] ok(2))
  }
  assume "setInventory actor now data db = Inr (db', n)"
  from this ok(1) show "books_ok db'"
    by (rule setInventory_Inr; intro books_okI; simp add: ok(2))
qed

lemma reachable_start:
  "sd_levels db = [] \<Longrightarrow> sd_movements db = [] \<Longrightarrow> sd_reservations db = [] \<Longrightarrow> books_ok db"
  by (intro books_okI) (auto simp: tables_ok_def logged_def quantity.simps find_level_def elim: quantity.elims)

text \<open>
  C4: the ledger explains every reachable store. Whatever checkouts, orders and merchants do,
  in any order: from a store without stock, every state that committed transactions reach
  has well-formed tables (unique rows, no negative reserved units, quantities that fit their
  columns), and every available and reserved quantity is the sum of the movements recorded
  for it.
\<close>

theorem reachable_books:
  assumes "store_reachable db"
  shows "books_ok db"
  using assms
proof (induction rule: store_reachable.induct)
  case (empty_store db)
  then show ?case by (rule reachable_start)
next
  case (next_store db db')
  from next_store(2,3) show ?case
  proof (cases rule: store_step.cases)
    case (step_move actor move m k)
    then show ?thesis
      using transfer_conserves_units[OF step_move(1)] next_store(3) by (auto simp: books_ok_def)
  next
    case (step_items items)
    then show ?thesis using next_store(3) by (auto intro: books_same)
  qed (auto intro: books_run books_release books_convert books_inventory books_locations)
qed


subsection \<open>A concrete store\<close>

text \<open>Two locations and one item, first without stock, then with ten units at the first location.\<close>

definition sample_empty :: stock_db where
  "sample_empty = \<lparr>
     sd_locations = [new_location ''Main'' ''MAIN'' True 0\<lparr>lo_id := 7\<rparr>, new_location ''Shop'' ''SHOP'' True 1\<lparr>lo_id := 8\<rparr>],
     sd_items = [\<lparr>it_id = 3, it_variantId = 4, it_tracked = True, it_policy = Some DENY, it_live = True\<rparr>],
     sd_levels = [], sd_movements = [], sd_reservations = [], sd_next = 100\<rparr>"

definition ten_units :: stock_input where
  "ten_units = \<lparr>si_variantId = 4, si_locationId = Some 7, si_quantity = 10, si_reason = CORRECTION, si_note = None\<rparr>"

definition sample_books :: stock_db where
  "sample_books = (case setInventory None 0 ten_units sample_empty of Inr (db, _) \<Rightarrow> db | Inl _ \<Rightarrow> sample_empty)"

definition four_units :: move_input where
  "four_units = \<lparr>mi_variantId = 4, mi_from = 7, mi_to = 8, mi_quantity = 4, mi_note = None\<rparr>"

lemma sample_set:
  "setInventory None 0 ten_units sample_empty = Inr (sample_books, 10)"
  "map (\<lambda>m. (mv_delta m, mv_reason m)) (sd_movements sample_books) = [(10, INITIAL)]"
  by code_simp+

lemma sample_empty_books: "books_ok sample_empty"
  by (rule reachable_start) (simp_all add: sample_empty_def)

lemma sample_reachable: "store_reachable sample_books"
proof (rule next_store)
  show "store_reachable sample_empty" by (rule empty_store) (simp_all add: sample_empty_def)
  show "store_step sample_empty sample_books" by (rule step_set[OF sample_set(1)])
qed

lemma sample_books_ok: "books_ok sample_books"
  by (rule books_inventory(2)[OF sample_empty_books sample_set(1)])

lemma sample_move: "\<exists>db. moveInventory None four_units sample_books = Inr (db, 6, 4)" "move_input_ok four_units"
proof -
  have "(case moveInventory None four_units sample_books of Inr (db, n) \<Rightarrow> n = (6, 4) | Inl _ \<Rightarrow> False)"
    by code_simp
  then show "\<exists>db. moveInventory None four_units sample_books = Inr (db, 6, 4)"
    by (auto split: sum.splits)
  show "move_input_ok four_units" by code_simp
qed

theorem stock_changes_are_exact_witness:
  "setInventory None 0 ten_units sample_empty = Inr (sample_books, 10) \<and>
   quantity sample_books (3, 7, AVAILABLE) = 10 \<and> ledger_ok sample_books \<and>
   adds_movement sample_empty sample_books None 3 7 10 10 INITIAL None"
  using stock_changes_are_exact[of sample_empty None 0 ten_units sample_books 10] sample_set(1)
    sample_empty_books[unfolded books_ok_def]
  by (auto simp: sample_empty_def ten_units_def has_history_def quantity.simps find_level_def)

theorem transfer_conserves_units_witness:
  "\<exists>db. moveInventory None four_units sample_books = Inr (db, 6, 4) \<and> ledger_ok db \<and>
    quantity db (3, 8, AVAILABLE) = 4"
proof -
  obtain db where db: "moveInventory None four_units sample_books = Inr (db, 6, 4)" using sample_move(1) by blast
  have "sd_items sample_books = [\<lparr>it_id = 3, it_variantId = 4, it_tracked = True, it_policy = Some DENY, it_live = True\<rparr>]"
    by code_simp
  then show ?thesis
    using transfer_conserves_units[OF db _ _ sample_move(2)] sample_books_ok db
    by (auto simp: books_ok_def four_units_def)
qed

theorem deactivation_strands_nothing_witness:
  "\<exists>db. setLocationActive 8 False sample_books = Inr db \<and> some_active db"
proof -
  let ?l = "new_location ''Shop'' ''SHOP'' True 1\<lparr>lo_id := 8\<rparr>"
  have "(case setLocationActive 8 False sample_books of Inr _ \<Rightarrow> True | Inl _ \<Rightarrow> False)" by code_simp
  then obtain db where db: "setLocationActive 8 False sample_books = Inr db" by (auto split: sum.splits)
  have "distinct (map lo_id (sd_locations sample_books))" "?l \<in> set (sd_locations sample_books)"
    "lo_id ?l = 8" "lo_isActive ?l" "\<not> lo_deleted ?l" by code_simp+
  from deactivation_strands_nothing[OF db this] db show ?thesis by blast
qed

theorem reachable_books_witness: "books_ok sample_books \<and> sd_levels sample_books \<noteq> []"
proof -
  have "sd_levels sample_books \<noteq> []" by code_simp
  then show ?thesis using reachable_books[OF sample_reachable] by blast
qed

end
