(* ===== verification/Shop.thy ===== *)
theory Shop
  imports Pricing Transitions Stock
begin

section \<open>The tables of a store's checkout\<close>

text \<open>
  The state behind \<open>packages/commerce/src/checkout\<close> for one store: catalogue and settings,
  carts, checkouts, payments, discounts with their redemptions, customers, orders with their
  lines, and the records of \<open>packages/commerce/src/orders/records.ts\<close>. A table is the list of
  its rows, one record per model of \<open>packages/database/prisma/schema.prisma\<close> with the columns
  the modelled code reads or writes; \<open>createdAt\<close>/\<open>updatedAt\<close> columns, the tenant's columns
  (row-level security confines a transaction to one store) and constraints on the form and
  length of texts are left out. Constraints on amounts and uniqueness are errors.
  The stock tables are those of \<open>Ledger\<close>; its identifier supply serves every table.
\<close>

subsection \<open>Errors and transactions\<close>

datatype begin_result =
    REDIRECT string | BEGIN_COMPLETED | BEGIN_PROCESSING
  | CHANGED quote_change | NOT_READY

datatype shop_error =
    STOCK_FAULT stock_error | BAD_TRANSITION transition_error | BAD_MONEY money_error
  | VIOLATES string | THROWN string | REFUSED string | ROLLBACK begin_result

definition liftE :: "('e \<Rightarrow> 'f) \<Rightarrow> 'e + 'a \<Rightarrow> 'f + 'a" where
  "liftE f r = (case r of Inl e \<Rightarrow> Inl (f e) | Inr x \<Rightarrow> Inr x)"

lemma liftE_simps [simp]: "liftE f (Inl e) = Inl (f e)" "liftE f (Inr x) = Inr x"
  by (simp_all add: liftE_def)

lemma liftE_Inr [result_simps]: "liftE f r = Inr x \<longleftrightarrow> r = Inr x"
  by (auto simp: liftE_def split: sum.splits)

text \<open>A transaction commits what its body returns; a thrown error leaves the store as it was.\<close>

definition transaction :: "('s \<Rightarrow> 'e + ('s \<times> 'a)) \<Rightarrow> 's \<Rightarrow> 's \<times> ('e + 'a)" where
  "transaction body s = (case body s of Inl e \<Rightarrow> (s, Inl e) | Inr (s', x) \<Rightarrow> (s', Inr x))"

definition sql_int8 :: "int \<Rightarrow> bool" where
  "sql_int8 n \<longleftrightarrow> -9223372036854775808 \<le> n \<and> n \<le> 9223372036854775807"

subsection \<open>Catalogue and settings\<close>

record product_row =
  pr_id :: uuid
  pr_title :: string
  pr_sellable :: bool

record variant_row =
  va_id :: uuid
  va_productId :: uuid
  va_title :: string
  va_sku :: "string option"
  va_currency :: string
  va_price :: int
  va_taxable :: bool
  va_requiresShipping :: bool
  va_weightGrams :: "int option"
  va_deleted :: bool

record cart_line_row =
  cl_id :: uuid
  cl_cartId :: uuid
  cl_variantId :: uuid
  cl_quantity :: int
  cl_createdAt :: date

record tax_configuration =
  tc_inclusive :: bool
  tc_shipping :: bool

record discount_code_row =
  dk_id :: uuid
  dk_discountId :: uuid
  dk_code :: string

text \<open>What checkout reads and never writes. A shipping rate comes with its \<open>active\<close> column, a tax rate with its priority.\<close>

record catalogue =
  ct_products :: "product_row list"
  ct_variants :: "variant_row list"
  ct_cartLines :: "cart_line_row list"
  ct_rates :: "(bool \<times> shipping_rate) list"
  ct_tax :: "tax_configuration list"
  ct_taxRates :: "(int \<times> tax_rate) list"
  ct_codes :: "discount_code_row list"

subsection \<open>Checkouts, payments and discounts\<close>

datatype cart_status = CART_ACTIVE | CART_CONVERTED | CART_ABANDONED

record cart_row =
  crt_id :: uuid
  crt_tokenHash :: string
  crt_status :: cart_status
  crt_expiresAt :: date

record checkout_row =
  ch_id :: uuid
  ch_tokenHash :: string
  ch_cartId :: uuid
  ch_customerId :: "uuid option"
  ch_email :: "string option"
  ch_status :: checkout_status
  ch_currency :: string
  ch_shippingAddress :: "checkout_address option"
  ch_billingAddress :: "checkout_address option"
  ch_shippingRateId :: "uuid option"
  ch_discountCode :: "string option"
  ch_quote :: "price_quote option"
  ch_pricingHash :: "string option"
  ch_expiresAt :: date
  ch_completedOrderId :: "uuid option"

record payment_row =
  pm_id :: uuid
  pm_connectionId :: uuid
  pm_checkoutId :: uuid
  pm_orderId :: "uuid option"
  pm_provider :: string
  pm_providerPaymentId :: "string option"
  pm_providerChargeId :: "string option"
  pm_redirectUrl :: "string option"
  pm_status :: payment_status
  pm_currency :: string
  pm_amount :: int
  pm_capturedAmount :: int
  pm_refunded :: int
  pm_idempotencyKey :: string
  pm_failureCode :: "string option"
  pm_failureMessage :: "string option"
  pm_expiresAt :: date
  pm_capturedAt :: "date option"

record discount_row =
  di_id :: uuid
  di_title :: string
  di_type :: discount_type
  di_active :: bool
  di_percentageBps :: "int option"
  di_amount :: "int option"
  di_currency :: "string option"
  di_minSubtotal :: "int option"
  di_startsAt :: date
  di_endsAt :: "date option"
  di_usageLimit :: "int option"
  di_usageCount :: int

datatype redemption_status = RD_RESERVED | RD_REDEEMED | RD_RELEASED

record redemption_row =
  rd_discountId :: uuid
  rd_codeId :: uuid
  rd_checkoutId :: uuid
  rd_orderId :: "uuid option"
  rd_customerId :: "uuid option"
  rd_email :: "string option"
  rd_status :: redemption_status

record customer_row =
  cu_id :: uuid
  cu_email :: "string option"
  cu_firstName :: "string option"
  cu_lastName :: "string option"
  cu_phone :: "string option"
  cu_deleted :: bool

record connection_row =
  cn_id :: uuid
  cn_provider :: string
  cn_active :: bool
  cn_test :: bool

subsection \<open>Orders\<close>

record order_row =
  or_id :: uuid
  or_number :: int
  or_checkoutId :: uuid
  or_customerId :: "uuid option"
  or_email :: "string option"
  or_phone :: "string option"
  or_currency :: string
  or_pricesIncludeTax :: bool
  or_subtotal :: int
  or_discount :: int
  or_shipping :: int
  or_tax :: int
  or_total :: int
  or_refunded :: int
  or_status :: order_status
  or_paymentStatus :: order_payment_status
  or_fulfilmentStatus :: order_fulfilment_status
  or_stockShortage :: bool
  or_testMode :: bool
  or_note :: "string option"
  or_cancelledAt :: "date option"
  or_cancelReason :: "string option"
  or_archivedAt :: "date option"
  or_archivedBy :: "uuid option"
  or_completedAt :: "date option"
  or_completedBy :: "uuid option"
  or_placedAt :: date

record order_line_row =
  ol_id :: uuid
  ol_orderId :: uuid
  ol_productId :: uuid
  ol_variantId :: uuid
  ol_productTitle :: string
  ol_variantTitle :: "string option"
  ol_sku :: "string option"
  ol_unitPrice :: int
  ol_quantity :: int
  ol_discount :: int
  ol_tax :: int
  ol_total :: int
  ol_requiresShipping :: bool
  ol_taxable :: bool
  ol_weightGrams :: "int option"
  ol_fulfilled :: int
  ol_refunded :: int

record order_tax_row =
  ox_orderId :: uuid
  ox_lineId :: "uuid option"
  ox_title :: string
  ox_ratePpm :: int
  ox_amount :: int

record order_shipping_row =
  os_orderId :: uuid
  os_rateId :: uuid
  os_title :: string
  os_amount :: int
  os_tax :: int

record order_discount_row =
  od_orderId :: uuid
  od_discountId :: uuid
  od_code :: string
  od_title :: string
  od_type :: discount_type
  od_percentageBps :: "int option"
  od_amount :: int

datatype address_type = SHIPPING_ADDRESS | BILLING_ADDRESS

record order_address_row =
  oa_orderId :: uuid
  oa_type :: address_type
  oa_address :: checkout_address

record order_tables =
  ot_orders :: "order_row list"
  ot_lines :: "order_line_row list"
  ot_taxes :: "order_tax_row list"
  ot_shipping :: "order_shipping_row list"
  ot_discounts :: "order_discount_row list"
  ot_addresses :: "order_address_row list"

record event_row =
  ev_orderId :: uuid
  ev_type :: string
  ev_message :: string
  ev_data :: "(string \<times> string) list"
  ev_actor :: "uuid option"

datatype notification_kind =
  ORDER_CONFIRMATION | ORDER_CANCELLED | ORDER_FULFILLED | REFUND_CREATED | ORDER_MESSAGE_REPLY

record notification_row =
  no_orderId :: uuid
  no_kind :: notification_kind
  no_dedupeKey :: string
  no_recipient :: string
  no_referenceId :: "uuid option"

record access_row =
  ac_id :: uuid
  ac_orderId :: uuid
  ac_expiresAt :: date
  ac_revokedAt :: "date option"

record shop =
  sh_stock :: stock_db
  sh_catalogue :: catalogue
  sh_carts :: "cart_row list"
  sh_checkouts :: "checkout_row list"
  sh_payments :: "payment_row list"
  sh_discounts :: "discount_row list"
  sh_redemptions :: "redemption_row list"
  sh_customers :: "customer_row list"
  sh_connections :: "connection_row list"
  sh_orders :: order_tables
  sh_events :: "event_row list"
  sh_notifications :: "notification_row list"
  sh_access :: "access_row list"
  sh_nextRandom :: uuid
  sh_nextOrderNumber :: int

text \<open>A fresh identifier (\<open>uuidv7()\<close>).\<close>

definition fresh :: "shop \<Rightarrow> shop \<times> uuid" where
  "fresh s = (s\<lparr>sh_stock := (sh_stock s)\<lparr>sd_next := Suc (sd_next (sh_stock s))\<rparr>\<rparr>, sd_next (sh_stock s))"

text \<open>A stock operation inside a transaction of the store.\<close>

definition on_stock :: "(stock_db \<Rightarrow> stock_error + (stock_db \<times> 'a)) \<Rightarrow> shop \<Rightarrow> shop_error + (shop \<times> 'a)" where
  "on_stock f s = bindR (liftE STOCK_FAULT (f (sh_stock s))) (\<lambda>(db, x). Inr (s\<lparr>sh_stock := db\<rparr>, x))"

text \<open>\<open>UPDATE ... SET ... WHERE\<close> on a table without constraints to check.\<close>

definition update_rows :: "('r \<Rightarrow> bool) \<Rightarrow> ('r \<Rightarrow> 'r) \<Rightarrow> 'r list \<Rightarrow> 'r list" where
  "update_rows sel f rows = map (\<lambda>r. if sel r then f r else r) rows"

definition set_checkouts :: "(checkout_row \<Rightarrow> bool) \<Rightarrow> (checkout_row \<Rightarrow> checkout_row) \<Rightarrow> shop \<Rightarrow> shop" where
  "set_checkouts sel f s = s\<lparr>sh_checkouts := update_rows sel f (sh_checkouts s)\<rparr>"

definition set_payments :: "(payment_row \<Rightarrow> bool) \<Rightarrow> (payment_row \<Rightarrow> payment_row) \<Rightarrow> shop \<Rightarrow> shop" where
  "set_payments sel f s = s\<lparr>sh_payments := update_rows sel f (sh_payments s)\<rparr>"

subsection \<open>Records of an order\<close>

definition orderEvent ::
  "uuid \<Rightarrow> string \<Rightarrow> string \<Rightarrow> (string \<times> string) list \<Rightarrow> uuid option \<Rightarrow> shop \<Rightarrow> shop" where
  "orderEvent orderId type message data actor s = s\<lparr>sh_events := sh_events s @
     [\<lparr>ev_orderId = orderId, ev_type = type, ev_message = message, ev_data = data, ev_actor = actor\<rparr>]\<rparr>"

text \<open>\<open>ON CONFLICT ("dedupeKey") DO NOTHING\<close>; no recipient, no notification.\<close>

definition queueNotification ::
  "uuid \<Rightarrow> notification_kind \<Rightarrow> string \<Rightarrow> string option \<Rightarrow> uuid option \<Rightarrow> shop \<Rightarrow> shop" where
  "queueNotification orderId kind dedupeKey recipient referenceId s =
     (case recipient of
        None \<Rightarrow> s
      | Some r \<Rightarrow>
          if r = [] \<or> dedupeKey \<in> set (map no_dedupeKey (sh_notifications s)) then s
          else s\<lparr>sh_notifications := sh_notifications s @ [\<lparr>no_orderId = orderId, no_kind = kind,
            no_dedupeKey = dedupeKey, no_recipient = r, no_referenceId = referenceId\<rparr>]\<rparr>)"

end
