(* ===== verification/Load.thy ===== *)
theory Load
  imports Shop
begin

section \<open>Loading and repricing a checkout\<close>

text \<open>
  Model of \<open>packages/commerce/src/checkout/load.ts\<close>: the snapshot pricing needs, read from the
  tables under the checkout role, and the repricing that stores the quote when it changed. The
  role sees variants that are not deleted, of products that are active and not deleted, and the
  payments, redemptions and reservations of its own checkout only; the queries below carry
  those policies as filters. \<open>app_variant_stock\<close> is the SQL function of migration
  \<open>20261210010000_cart_stock\<close>.
\<close>

text \<open>
  What the platform and the services around the checkout provide: the clock, JavaScript's and
  the database's text orders, the quote's hash (SHA-256 of \<open>node:crypto\<close>), whether the secret
  for order links is configured, and the payment provider: whether the adapter and credentials
  of a connection open, the currencies it takes, and its answer to a new payment (the
  provider's reference and page, or None when the call fails).
\<close>

record checkout_env =
  ce_now :: date
  ce_lc :: "string \<Rightarrow> string \<Rightarrow> int"
  ce_collate :: "string \<Rightarrow> string \<Rightarrow> int"
  ce_hash :: "price_quote \<Rightarrow> string"
  ce_orderLinks :: bool
  ce_opens :: "connection_row \<Rightarrow> bool"
  ce_accepts :: "string \<Rightarrow> string \<Rightarrow> bool"
  ce_create :: "payment_row \<Rightarrow> (string \<times> string) option"

definition loadCheckout :: "uuid \<Rightarrow> shop \<Rightarrow> checkout_row option" where
  "loadCheckout checkoutId s = find (\<lambda>c. ch_id c = checkoutId) (sh_checkouts s)"

definition loadByToken :: "string \<Rightarrow> shop \<Rightarrow> checkout_row option" where
  "loadByToken tokenHash s = find (\<lambda>c. ch_tokenHash c = tokenHash) (sh_checkouts s)"

definition expired :: "checkout_env \<Rightarrow> checkout_row \<Rightarrow> bool" where
  "expired env c \<longleftrightarrow> ch_expiresAt c \<le> ce_now env"

subsection \<open>Lines and stock\<close>

definition visible_product :: "catalogue \<Rightarrow> uuid \<Rightarrow> product_row option" where
  "visible_product ct productId = find (\<lambda>p. pr_id p = productId \<and> pr_sellable p) (ct_products ct)"

definition visible_variant :: "catalogue \<Rightarrow> uuid \<Rightarrow> variant_row option" where
  "visible_variant ct variantId = find (\<lambda>v. va_id v = variantId \<and> \<not> va_deleted v \<and>
     visible_product ct (va_productId v) \<noteq> None) (ct_variants ct)"

text \<open>
  The ceiling of a variant: None when stock does not limit it, else the largest available
  quantity at one online location, between 0 and 100.
\<close>

definition app_variant_stock :: "stock_db \<Rightarrow> uuid \<Rightarrow> int option" where
  "app_variant_stock db variantId =
     (case find (\<lambda>ii. it_variantId ii = variantId) (sd_items db) of
        None \<Rightarrow> None
      | Some ii \<Rightarrow>
          if \<not> it_tracked ii \<or> it_policy ii = Some CONTINUE then None
          else let online = map lv_available (filter (\<lambda>lv. lv_item lv = it_id ii \<and>
                     lv_location lv \<in> set (online_locations db)) (sd_levels db))
               in Some (min (max (case online of [] \<Rightarrow> 0 | x # xs \<Rightarrow> foldl max x xs) 0) 100))"

definition byAge :: "cart_line_row \<Rightarrow> cart_line_row \<Rightarrow> int" where
  "byAge a b = (if cl_createdAt a = cl_createdAt b then int (cl_id a) - int (cl_id b)
     else cl_createdAt a - cl_createdAt b)"

definition load_line :: "shop \<Rightarrow> cart_line_row \<Rightarrow> pricing_line" where
  "load_line s l =
     (case visible_variant (sh_catalogue s) (cl_variantId l) of
        None \<Rightarrow> \<lparr>pl_variantId = cl_variantId l, pl_productId = cl_variantId l,
          pl_productTitle = ''An item that is no longer available'', pl_variantTitle = [],
          pl_sku = None, pl_unitPrice = 0, pl_currency = [], pl_quantity = cl_quantity l,
          pl_taxable = False, pl_requiresShipping = True, pl_weightGrams = None,
          pl_sellable = False, pl_inStock = True, pl_stockLimit = None\<rparr>
      | Some v \<Rightarrow>
          (let stock_max = app_variant_stock (sh_stock s) (va_id v) in
           \<lparr>pl_variantId = cl_variantId l, pl_productId = va_productId v,
            pl_productTitle = (case visible_product (sh_catalogue s) (va_productId v) of
               None \<Rightarrow> ''An item that is no longer available'' | Some p \<Rightarrow> pr_title p),
            pl_variantTitle = va_title v, pl_sku = va_sku v, pl_unitPrice = va_price v,
            pl_currency = va_currency v, pl_quantity = cl_quantity l, pl_taxable = va_taxable v,
            pl_requiresShipping = va_requiresShipping v, pl_weightGrams = va_weightGrams v,
            pl_sellable = True,
            pl_inStock = (case stock_max of None \<Rightarrow> True | Some n \<Rightarrow> cl_quantity l \<le> n),
            pl_stockLimit = stock_max\<rparr>))"

definition loadLines :: "uuid \<Rightarrow> shop \<Rightarrow> pricing_line list" where
  "loadLines cartId s = map (load_line s)
     (sortBy byAge (filter (\<lambda>l. cl_cartId l = cartId) (ct_cartLines (sh_catalogue s))))"

subsection \<open>Shipping, tax and discount\<close>

definition byAmountNameId :: "(string \<Rightarrow> string \<Rightarrow> int) \<Rightarrow> shipping_rate \<Rightarrow> shipping_rate \<Rightarrow> int" where
  "byAmountNameId collate a b =
     (if sr_amount a \<noteq> sr_amount b then sr_amount a - sr_amount b
      else if collate (sr_name a) (sr_name b) \<noteq> 0 then collate (sr_name a) (sr_name b)
      else int (sr_id a) - int (sr_id b))"

definition loadShippingRates :: "checkout_env \<Rightarrow> shop \<Rightarrow> shipping_rate list" where
  "loadShippingRates env s = sortBy (byAmountNameId (ce_collate env))
     (map snd (filter fst (ct_rates (sh_catalogue s))))"

definition byPriorityNameId ::
  "(string \<Rightarrow> string \<Rightarrow> int) \<Rightarrow> int \<times> tax_rate \<Rightarrow> int \<times> tax_rate \<Rightarrow> int" where
  "byPriorityNameId collate a b =
     (if fst a \<noteq> fst b then fst a - fst b
      else if collate (tr_name (snd a)) (tr_name (snd b)) \<noteq> 0
      then collate (tr_name (snd a)) (tr_name (snd b))
      else int (tr_id (snd a)) - int (tr_id (snd b)))"

definition loadTax :: "checkout_env \<Rightarrow> checkout_address option \<Rightarrow> shop \<Rightarrow> tax_configuration \<times> tax_rate list" where
  "loadTax env address s =
     ((case ct_tax (sh_catalogue s) of [] \<Rightarrow> \<lparr>tc_inclusive = False, tc_shipping = False\<rparr> | c # _ \<Rightarrow> c),
      (case address of
         None \<Rightarrow> []
       | Some a \<Rightarrow> map snd (sortBy (byPriorityNameId (ce_collate env))
           (filter (\<lambda>r. tr_countryCode (snd r) = ca_countryCode a) (ct_taxRates (sh_catalogue s))))))"

text \<open>This checkout's own reserved use does not count against it.\<close>

definition own_uses :: "uuid \<Rightarrow> uuid \<Rightarrow> shop \<Rightarrow> int" where
  "own_uses checkoutId discountId s = int (length (filter (\<lambda>r. rd_checkoutId r = checkoutId \<and>
     rd_discountId r = discountId \<and> rd_status r = RD_RESERVED) (sh_redemptions s)))"

definition loadDiscount :: "uuid \<Rightarrow> string option \<Rightarrow> shop \<Rightarrow> pricing_discount option" where
  "loadDiscount checkoutId code s =
     (if no_text code then None
      else case find (\<lambda>k. Some (dk_code k) = code \<and> list_ex (\<lambda>d. di_id d = dk_discountId k) (sh_discounts s))
          (ct_codes (sh_catalogue s)) of
        None \<Rightarrow> None
      | Some k \<Rightarrow> map_option (\<lambda>d.
          \<lparr>pd_id = di_id d, pd_codeId = dk_id k, pd_code = dk_code k, pd_title = di_title d,
           pd_type = di_type d, pd_percentageBps = di_percentageBps d, pd_amount = di_amount d,
           pd_currency = di_currency d, pd_minSubtotal = di_minSubtotal d, pd_startsAt = di_startsAt d,
           pd_endsAt = di_endsAt d, pd_active = di_active d, pd_usageLimit = di_usageLimit d,
           pd_usedByOthers = di_usageCount d - own_uses checkoutId (di_id d) s\<rparr>)
          (find (\<lambda>d. di_id d = dk_discountId k) (sh_discounts s)))"

subsection \<open>The snapshot and the stored quote\<close>

definition loadPricingInput :: "checkout_env \<Rightarrow> checkout_row \<Rightarrow> string \<Rightarrow> shop \<Rightarrow> pricing_input" where
  "loadPricingInput env checkout currency s =
     (let (tax, rates) = loadTax env (ch_shippingAddress checkout) s in
      \<lparr>pi_currency = currency, pi_lines = loadLines (ch_cartId checkout) s, pi_email = ch_email checkout,
       pi_address = ch_shippingAddress checkout, pi_shippingRates = loadShippingRates env s,
       pi_selectedRateId = ch_shippingRateId checkout, pi_pricesIncludeTax = tc_inclusive tax,
       pi_chargeTaxOnShipping = tc_shipping tax, pi_taxRates = rates,
       pi_discountCode = ch_discountCode checkout,
       pi_discount = loadDiscount (ch_id checkout) (ch_discountCode checkout) s, pi_now = ce_now env\<rparr>)"

text \<open>The CHECK \<open>Checkout_amounts\<close> of the amount columns, which repeat the quote's totals.\<close>

definition checkout_amounts :: "price_quote \<Rightarrow> bool" where
  "checkout_amounts q \<longleftrightarrow> 0 \<le> q_subtotal q \<and> 0 \<le> q_discountTotal q \<and> q_discountTotal q \<le> q_subtotal q \<and>
     0 \<le> q_shippingTotal q \<and> 0 \<le> q_taxTotal q \<and> 0 \<le> q_total q \<and>
     sql_int8 (q_subtotal q) \<and> sql_int8 (q_shippingTotal q) \<and> sql_int8 (q_taxTotal q) \<and> sql_int8 (q_total q)"

definition repriceCheckout ::
  "checkout_env \<Rightarrow> checkout_row \<Rightarrow> string \<Rightarrow> shop \<Rightarrow> shop_error + (shop \<times> price_quote \<times> string)" where
  "repriceCheckout env checkout currency s =
     bindR (liftE BAD_MONEY (priceCheckout (ce_lc env) (loadPricingInput env checkout currency s))) (\<lambda>quote.
     let hash = ce_hash env quote
     in if Some hash = ch_pricingHash checkout then Inr (s, quote, hash)
        else if \<not> checkout_amounts quote then Inl (VIOLATES ''Checkout_amounts'')
        else Inr (set_checkouts (\<lambda>c. ch_id c = ch_id checkout)
          (\<lambda>c. c\<lparr>ch_quote := Some quote, ch_pricingHash := Some hash\<rparr>) s, quote, hash))"

end
