(* ===== verification/Confirm.thy ===== *)
theory Confirm
  imports Load
begin

section \<open>Payment outcomes and order creation\<close>

text \<open>
  Model of \<open>packages/commerce/src/checkout/confirm.ts\<close>: the provider's view of a payment is
  applied to its checkout, and a captured payment creates the order. Each operation runs in its
  caller's transaction, scoped to one checkout: the payments and redemptions it sees are that
  checkout's. Metrics and log lines are left out; \<open>parseStoredQuote\<close> checks the shape of the
  stored JSON, which \<open>repriceCheckout\<close> wrote, and is the identity here.
\<close>

datatype provider_status = PS_PENDING | PS_CAPTURED | PS_FAILED | PS_CANCELLED | PS_EXPIRED

record provider_state =
  ps_providerPaymentId :: string
  ps_status :: provider_status
  ps_amount :: "int option"
  ps_currency :: "string option"
  ps_chargeId :: "string option"

datatype outcome_result =
  COMPLETED_ORDER uuid int bool | OUTCOME_FAILED | OUTCOME_PENDING | IGNORED string

subsection \<open>Payments\<close>

definition lockPaymentByReference :: "uuid \<Rightarrow> string \<Rightarrow> string \<Rightarrow> shop \<Rightarrow> payment_row option" where
  "lockPaymentByReference scope provider reference s = find (\<lambda>p. pm_checkoutId p = scope \<and>
     pm_provider p = provider \<and> pm_providerPaymentId p = Some reference) (sh_payments s)"

definition lockPendingPayment :: "uuid \<Rightarrow> shop \<Rightarrow> payment_row option" where
  "lockPendingPayment scope s =
     find (\<lambda>p. pm_checkoutId p = scope \<and> pm_status p = PAY_PENDING) (sh_payments s)"

definition lockPaymentById :: "uuid \<Rightarrow> uuid \<Rightarrow> shop \<Rightarrow> payment_row option" where
  "lockPaymentById scope paymentId s =
     find (\<lambda>p. pm_checkoutId p = scope \<and> pm_id p = paymentId) (sh_payments s)"

subsection \<open>Discount uses\<close>

definition give_back :: "discount_row list \<Rightarrow> uuid \<Rightarrow> discount_row list" where
  "give_back ds discountId = update_rows (\<lambda>d. di_id d = discountId \<and> di_usageCount d > 0)
     (\<lambda>d. d\<lparr>di_usageCount := di_usageCount d - 1\<rparr>) ds"

definition releaseDiscountUse :: "uuid \<Rightarrow> shop \<Rightarrow> shop" where
  "releaseDiscountUse checkoutId s =
     (let sel = (\<lambda>r. rd_checkoutId r = checkoutId \<and> rd_status r = RD_RESERVED);
          released = map rd_discountId (filter sel (sh_redemptions s))
      in s\<lparr>sh_redemptions := update_rows sel (\<lambda>r. r\<lparr>rd_status := RD_RELEASED\<rparr>) (sh_redemptions s),
           sh_discounts := foldl give_back (sh_discounts s) released\<rparr>)"

definition can_take :: "uuid \<Rightarrow> discount_row \<Rightarrow> bool" where
  "can_take discountId d \<longleftrightarrow> di_id d = discountId \<and> di_active d \<and>
     (case di_usageLimit d of None \<Rightarrow> True | Some n \<Rightarrow> di_usageCount d < n)"

definition redemption_of :: "uuid \<Rightarrow> uuid \<Rightarrow> redemption_row \<Rightarrow> bool" where
  "redemption_of discountId checkoutId r \<longleftrightarrow> rd_discountId r = discountId \<and> rd_checkoutId r = checkoutId"

definition reserveDiscountUse ::
  "uuid \<Rightarrow> quote_discount \<Rightarrow> string option \<Rightarrow> shop \<Rightarrow> shop_error + (shop \<times> bool)" where
  "reserveDiscountUse checkoutId discount email s =
     (let taken = can_take (qd_discountId discount); sel = redemption_of (qd_discountId discount) checkoutId
      in if \<not> list_ex taken (sh_discounts s) then Inr (s, False)
         else let s1 = s\<lparr>sh_discounts := update_rows taken
             (\<lambda>d. d\<lparr>di_usageCount := di_usageCount d + 1\<rparr>) (sh_discounts s)\<rparr>
         in case find sel (sh_redemptions s1) of
              None \<Rightarrow> Inr (s1\<lparr>sh_redemptions := sh_redemptions s1 @
                [\<lparr>rd_discountId = qd_discountId discount, rd_codeId = qd_codeId discount,
                  rd_checkoutId = checkoutId, rd_orderId = None, rd_customerId = None,
                  rd_email = email, rd_status = RD_RESERVED\<rparr>]\<rparr>, True)
            | Some r \<Rightarrow>
                if rd_orderId r \<noteq> None then Inl (VIOLATES ''DiscountRedemption_redeemed_order'')
                else Inr (s1\<lparr>sh_redemptions := update_rows sel (\<lambda>r. r\<lparr>rd_status := RD_RESERVED\<rparr>)
                  (sh_redemptions s1)\<rparr>, True))"

subsection \<open>Ending an attempt\<close>

definition endAttempt ::
  "checkout_row \<Rightarrow> payment_row \<Rightarrow> payment_status \<Rightarrow> string \<Rightarrow> string option \<Rightarrow> shop \<Rightarrow> shop_error + shop" where
  "endAttempt checkout payment to_status code message s =
     (if pm_status payment \<noteq> PAY_PENDING then Inr s
      else
      bindR (liftE BAD_TRANSITION (assertPaymentTransition (pm_status payment) to_status)) (\<lambda>_.
      let s1 = set_payments (\<lambda>p. pm_id p = pm_id payment) (\<lambda>p. p\<lparr>pm_status := to_status,
            pm_failureCode := Some code, pm_failureMessage := message\<rparr>) s
      in if ch_status checkout \<noteq> CO_PAYMENT_PENDING then Inr s1
         else
         bindR (on_stock (releaseCheckoutStock (ch_id checkout)) s1) (\<lambda>(s2, n).
         bindR (liftE BAD_TRANSITION (assertCheckoutTransition (ch_status checkout) CO_OPEN)) (\<lambda>_.
         Inr (set_checkouts (\<lambda>c. ch_id c = ch_id checkout) (\<lambda>c. c\<lparr>ch_status := CO_OPEN\<rparr>)
           (releaseDiscountUse (ch_id checkout) s2))))))"

subsection \<open>Creating the order\<close>

definition existingOrder :: "checkout_row \<Rightarrow> shop \<Rightarrow> (uuid \<times> int) option" where
  "existingOrder checkout s = (case ch_completedOrderId checkout of
     None \<Rightarrow> None
   | Some orderId \<Rightarrow> map_option (\<lambda>r. (or_id r, or_number r))
       (find (\<lambda>r. or_id r = orderId \<and> or_checkoutId r = ch_id checkout) (ot_orders (sh_orders s))))"

text \<open>\<open>app_next_order_number\<close>: the store's counter, and its advance.\<close>

definition next_order_number :: "shop \<Rightarrow> shop_error + (shop \<times> int)" where
  "next_order_number s =
     (let n = sh_nextOrderNumber s
      in if \<not> sql_int4 (n + 1) then Inl (VIOLATES ''integer out of range'')
         else if n = 0 then Inl (THROWN ''order number allocation failed'')
         else Inr (s\<lparr>sh_nextOrderNumber := n + 1\<rparr>, n))"

text \<open>
  The customer with the checkout's email (\<open>citext\<close>: compared without case, here that of
  ASCII letters), created when there is none; an existing row only gains what it lacks.
\<close>

definition lower_char :: "char \<Rightarrow> char" where
  "lower_char c = (if 65 \<le> (of_char c :: nat) \<and> (of_char c :: nat) \<le> 90 then char_of (of_char c + (32 :: nat)) else c)"

definition same_email :: "string \<Rightarrow> string option \<Rightarrow> bool" where
  "same_email email other \<longleftrightarrow> map_option (map lower_char) other = Some (map lower_char email)"

definition coalesce :: "'a option \<Rightarrow> 'a option \<Rightarrow> 'a option" where
  "coalesce a b = (case a of None \<Rightarrow> b | Some x \<Rightarrow> Some x)"

definition upsert_customer ::
  "string \<Rightarrow> checkout_address option \<Rightarrow> shop \<Rightarrow> shop \<times> uuid" where
  "upsert_customer email address s =
     (let firstName = map_option ca_firstName address; lastName = map_option ca_lastName address;
          phone = Option.bind address ca_phone;
          sel = (\<lambda>c. \<not> cu_deleted c \<and> same_email email (cu_email c))
      in case find sel (sh_customers s) of
           Some c \<Rightarrow> (s\<lparr>sh_customers := update_rows sel (\<lambda>c. c\<lparr>cu_firstName := coalesce (cu_firstName c) firstName,
               cu_lastName := coalesce (cu_lastName c) lastName, cu_phone := coalesce (cu_phone c) phone\<rparr>)
               (sh_customers s)\<rparr>, cu_id c)
         | None \<Rightarrow> (case fresh s of (s1, customerId) \<Rightarrow>
             (s1\<lparr>sh_customers := sh_customers s1 @ [\<lparr>cu_id = customerId, cu_email = Some email,
                cu_firstName = firstName, cu_lastName = lastName, cu_phone = phone,
                cu_deleted = False\<rparr>]\<rparr>, customerId)))"

text \<open>The CHECK constraints of an order's row, and its two unique indexes.\<close>

definition order_checks :: "order_row \<Rightarrow> bool" where
  "order_checks r \<longleftrightarrow> 0 < or_number r \<and> 0 \<le> or_subtotal r \<and> 0 \<le> or_discount r \<and>
     or_discount r \<le> or_subtotal r \<and> 0 \<le> or_shipping r \<and> 0 \<le> or_tax r \<and> 0 \<le> or_total r \<and>
     or_total r = or_subtotal r - or_discount r + or_shipping r + (if or_pricesIncludeTax r then 0 else or_tax r) \<and>
     0 \<le> or_refunded r \<and> or_refunded r \<le> or_total r \<and>
     ((or_status r = ORD_CANCELLED) = (or_cancelledAt r \<noteq> None)) \<and>
     (or_completedAt r \<noteq> None \<longrightarrow> or_status r = ORD_OPEN) \<and>
     sql_int8 (or_subtotal r) \<and> sql_int8 (or_shipping r) \<and> sql_int8 (or_tax r) \<and> sql_int8 (or_total r)"

definition insert_order :: "order_row \<Rightarrow> shop \<Rightarrow> shop_error + shop" where
  "insert_order r s =
     (let t = sh_orders s
      in if \<not> order_checks r then Inl (VIOLATES ''Order'')
         else if list_ex (\<lambda>q. or_checkoutId q = or_checkoutId r) (ot_orders t)
         then Inl (VIOLATES ''Order_checkoutId_key'')
         else if list_ex (\<lambda>q. or_number q = or_number r) (ot_orders t)
         then Inl (VIOLATES ''Order_storeId_orderNumber_key'')
         else Inr (s\<lparr>sh_orders := t\<lparr>ot_orders := ot_orders t @ [r]\<rparr>\<rparr>))"

definition line_checks :: "order_line_row \<Rightarrow> bool" where
  "line_checks l \<longleftrightarrow> 1 \<le> ol_quantity l \<and> ol_quantity l \<le> 9999 \<and> 0 \<le> ol_unitPrice l \<and>
     0 \<le> ol_discount l \<and> 0 \<le> ol_tax l \<and> 0 \<le> ol_total l \<and>
     ol_discount l \<le> ol_unitPrice l * ol_quantity l \<and>
     0 \<le> ol_fulfilled l \<and> ol_fulfilled l \<le> ol_quantity l \<and>
     0 \<le> ol_refunded l \<and> ol_refunded l \<le> ol_quantity l \<and>
     sql_int8 (ol_unitPrice l) \<and> sql_int8 (ol_unitPrice l * ol_quantity l) \<and> sql_int8 (ol_tax l) \<and>
     sql_int8 (ol_total l)"

definition insert_line :: "order_line_row \<Rightarrow> shop \<Rightarrow> shop_error + shop" where
  "insert_line l s = (let t = sh_orders s in
     if \<not> line_checks l then Inl (VIOLATES ''OrderLine'')
     else Inr (s\<lparr>sh_orders := t\<lparr>ot_lines := ot_lines t @ [l]\<rparr>\<rparr>))"

definition insert_tax :: "order_tax_row \<Rightarrow> shop \<Rightarrow> shop_error + shop" where
  "insert_tax x s = (let t = sh_orders s in
     if ox_amount x < 0 \<or> ox_ratePpm x < 0 \<or> ox_ratePpm x > 1000000 \<or> \<not> sql_int8 (ox_amount x)
     then Inl (VIOLATES ''OrderTaxLine_amounts'')
     else Inr (s\<lparr>sh_orders := t\<lparr>ot_taxes := ot_taxes t @ [x]\<rparr>\<rparr>))"

definition tax_row :: "uuid \<Rightarrow> uuid option \<Rightarrow> string \<Rightarrow> quote_tax_line \<Rightarrow> order_tax_row" where
  "tax_row orderId lineId suffix t = \<lparr>ox_orderId = orderId, ox_lineId = lineId,
     ox_title = qt_name t @ suffix, ox_ratePpm = qt_ratePpm t, ox_amount = qt_amount t\<rparr>"

definition line_row :: "uuid \<Rightarrow> uuid \<Rightarrow> quote_line \<Rightarrow> order_line_row" where
  "line_row orderId lineId l = \<lparr>ol_id = lineId, ol_orderId = orderId, ol_productId = ql_productId l,
     ol_variantId = ql_variantId l, ol_productTitle = ql_productTitle l,
     ol_variantTitle = (if ql_variantTitle l = [] then None else Some (ql_variantTitle l)),
     ol_sku = ql_sku l, ol_unitPrice = ql_unitPrice l, ol_quantity = ql_quantity l,
     ol_discount = ql_discount l, ol_tax = ql_tax l, ol_total = ql_total l,
     ol_requiresShipping = ql_requiresShipping l, ol_taxable = ql_taxable l,
     ol_weightGrams = ql_weightGrams l, ol_fulfilled = 0, ol_refunded = 0\<rparr>"

text \<open>The loop over the quote's lines; it returns the order line of each variant.\<close>

definition place_line ::
  "uuid \<Rightarrow> shop \<times> (uuid \<times> uuid) list \<Rightarrow> quote_line \<Rightarrow> shop_error + (shop \<times> (uuid \<times> uuid) list)" where
  "place_line orderId st l = (case st of (s, lineByVariant) \<Rightarrow>
     let (s1, lineId) = fresh s
     in bindR (insert_line (line_row orderId lineId l) s1) (\<lambda>s2.
        bindR (foldR (\<lambda>s t. insert_tax (tax_row orderId (Some lineId) [] t) s) s2 (ql_taxLines l)) (\<lambda>s3.
        Inr (s3, AList.update (ql_variantId l) lineId lineByVariant))))"

definition place_shipping :: "uuid \<Rightarrow> quote_shipping option \<Rightarrow> shop \<Rightarrow> shop_error + shop" where
  "place_shipping orderId shipping s = (case shipping of
     None \<Rightarrow> Inr s
   | Some q \<Rightarrow>
       if qs_amount q < 0 \<or> qs_tax q < 0 then Inl (VIOLATES ''OrderShippingLine_amounts'')
       else let t = sh_orders s; s1 = s\<lparr>sh_orders := t\<lparr>ot_shipping := ot_shipping t @
              [\<lparr>os_orderId = orderId, os_rateId = qs_rateId q, os_title = qs_name q,
                os_amount = qs_amount q, os_tax = qs_tax q\<rparr>]\<rparr>\<rparr>
       in foldR (\<lambda>s t. insert_tax (tax_row orderId None '' (shipping)'' t) s) s1 (qs_taxLines q))"

definition place_discount ::
  "uuid \<Rightarrow> uuid \<Rightarrow> uuid \<Rightarrow> quote_discount option \<Rightarrow> shop \<Rightarrow> shop_error + shop" where
  "place_discount orderId customerId checkoutId discount s = (case discount of
     None \<Rightarrow> Inr s
   | Some d \<Rightarrow>
       if qd_amount d < 0 then Inl (VIOLATES ''OrderDiscount_amount'')
       else let t = sh_orders s in
       Inr (s\<lparr>sh_orders := t\<lparr>ot_discounts := ot_discounts t @
              [\<lparr>od_orderId = orderId, od_discountId = qd_discountId d, od_code = qd_code d,
                od_title = qd_title d, od_type = qd_type d, od_percentageBps = qd_percentageBps d,
                od_amount = qd_amount d\<rparr>]\<rparr>,
            sh_redemptions := update_rows (redemption_of (qd_discountId d) checkoutId)
              (\<lambda>r. r\<lparr>rd_status := RD_REDEEMED, rd_orderId := Some orderId, rd_customerId := Some customerId\<rparr>)
              (sh_redemptions s)\<rparr>))"

definition place_addresses :: "uuid \<Rightarrow> checkout_row \<Rightarrow> shop \<Rightarrow> shop" where
  "place_addresses orderId checkout s =
     (let rows = concat (map (\<lambda>(kind, address). case address of None \<Rightarrow> []
          | Some a \<Rightarrow> [\<lparr>oa_orderId = orderId, oa_type = kind, oa_address = a\<rparr>])
          [(SHIPPING_ADDRESS, ch_shippingAddress checkout),
           (BILLING_ADDRESS, coalesce (ch_billingAddress checkout) (ch_shippingAddress checkout))])
      in s\<lparr>sh_orders := (sh_orders s)\<lparr>ot_addresses := ot_addresses (sh_orders s) @ rows\<rparr>\<rparr>)"

text \<open>Stock for the order: held by the attempt in flight, or claimed again for a late capture.\<close>

definition claim_stock ::
  "checkout_env \<Rightarrow> checkout_row \<Rightarrow> price_quote \<Rightarrow> shop \<Rightarrow> shop_error + (shop \<times> bool)" where
  "claim_stock env checkout quote s =
     (if ch_status checkout = CO_PAYMENT_PENDING then Inr (s, False)
      else bindR (on_stock (reserveStock (ch_id checkout)
          (map (\<lambda>l. \<lparr>sl_variantId = ql_variantId l, sl_quantity = ql_quantity l\<rparr>) (q_lines quote))
          (ce_now env + 60000) True) s)
        (\<lambda>(s1, claimed). Inr (s1, case claimed of RESERVED_OK shortage \<Rightarrow> shortage | NO_STOCK _ \<Rightarrow> False)))"

text \<open>Another attempt that is still pending is superseded by the capture.\<close>

definition supersede :: "uuid \<Rightarrow> uuid \<Rightarrow> shop \<Rightarrow> shop" where
  "supersede checkoutId paymentId = set_payments
     (\<lambda>p. pm_checkoutId p = checkoutId \<and> pm_status p = PAY_PENDING \<and> pm_id p \<noteq> paymentId)
     (\<lambda>p. p\<lparr>pm_status := PAY_CANCELLED, pm_failureCode := Some ''SUPERSEDED''\<rparr>)"

definition claim_discount ::
  "checkout_row \<Rightarrow> quote_discount option \<Rightarrow> shop \<Rightarrow> shop_error + (shop \<times> bool)" where
  "claim_discount checkout discount s = (case discount of
     None \<Rightarrow> Inr (s, False)
   | Some d \<Rightarrow>
       if map_option rd_status (find (redemption_of (qd_discountId d) (ch_id checkout)) (sh_redemptions s))
          = Some RD_RESERVED
       then Inr (s, False)
       else bindR (reserveDiscountUse (ch_id checkout) d (ch_email checkout) s) (\<lambda>(s1, ok). Inr (s1, \<not> ok)))"

definition ORDER_ACCESS_DAYS :: int where
  "ORDER_ACCESS_DAYS = 180"

definition createOrderAccess :: "checkout_env \<Rightarrow> uuid \<Rightarrow> shop \<Rightarrow> shop" where
  "createOrderAccess env orderId s =
     (if \<not> ce_orderLinks env then s
      else s\<lparr>sh_access := sh_access s @ [\<lparr>ac_id = sh_nextRandom s, ac_orderId = orderId,
        ac_expiresAt = ce_now env + ORDER_ACCESS_DAYS * 86400000, ac_revokedAt = None\<rparr>],
        sh_nextRandom := Suc (sh_nextRandom s)\<rparr>)"

definition order_of ::
  "checkout_env \<Rightarrow> checkout_row \<Rightarrow> price_quote \<Rightarrow> uuid \<Rightarrow> int \<Rightarrow> uuid \<Rightarrow> bool \<Rightarrow> bool \<Rightarrow> order_row" where
  "order_of env checkout quote orderId number customerId shortage test =
     \<lparr>or_id = orderId, or_number = number, or_checkoutId = ch_id checkout, or_customerId = Some customerId,
      or_email = ch_email checkout, or_phone = Option.bind (ch_shippingAddress checkout) ca_phone,
      or_currency = q_currency quote, or_pricesIncludeTax = q_pricesIncludeTax quote,
      or_subtotal = q_subtotal quote, or_discount = q_discountTotal quote,
      or_shipping = q_shippingTotal quote, or_tax = q_taxTotal quote, or_total = q_total quote,
      or_refunded = 0, or_status = ORD_OPEN, or_paymentStatus = PAID, or_fulfilmentStatus = UNFULFILLED,
      or_stockShortage = shortage, or_testMode = test, or_note = None, or_cancelledAt = None,
      or_cancelReason = None, or_archivedAt = None, or_archivedBy = None, or_completedAt = None,
      or_completedBy = None, or_placedAt = ce_now env\<rparr>"

text \<open>The timeline, the shopper's link and the confirmation of a placed order.\<close>

definition announce ::
  "checkout_env \<Rightarrow> checkout_row \<Rightarrow> payment_row \<Rightarrow> uuid \<Rightarrow> bool \<Rightarrow> bool \<Rightarrow> shop \<Rightarrow> shop" where
  "announce env checkout payment orderId shortage overLimit s =
     (let s1 = createOrderAccess env orderId s;
          s2 = orderEvent orderId ''order.placed'' ''Order placed from the online store.'' [] None s1;
          s3 = orderEvent orderId ''payment.captured'' ''Payment captured.''
            [(''paymentId'', uuid_text (pm_id payment)), (''provider'', pm_provider payment),
             (''amount'', show_int (pm_amount payment))] None s2;
          s4 = (if shortage then orderEvent orderId ''inventory.shortage''
            ''Payment arrived after the reservation ended and stock ran short. Check stock before fulfilling.''
            [] None s3 else s3);
          s5 = (if overLimit then orderEvent orderId ''discount.over_limit''
            (''Payment arrived after the reservation ended; the discount's usage limit was already '' @ ''reached.'')
            [] None s4 else s4)
      in queueNotification orderId ORDER_CONFIRMATION (''order-confirmation:'' @ uuid_text orderId)
           (ch_email checkout) None s5)"

text \<open>The order's link to payment, checkout and cart.\<close>

definition link_order ::
  "checkout_row \<Rightarrow> payment_row \<Rightarrow> uuid \<Rightarrow> uuid \<Rightarrow> shop \<Rightarrow> shop_error + shop" where
  "link_order checkout payment orderId customerId s =
     (let s1 = set_payments (\<lambda>p. pm_id p = pm_id payment) (\<lambda>p. p\<lparr>pm_orderId := Some orderId\<rparr>) s
      in bindR (liftE BAD_TRANSITION (assertCheckoutTransition (ch_status checkout) CO_COMPLETED)) (\<lambda>_.
         let s2 = set_checkouts (\<lambda>c. ch_id c = ch_id checkout) (\<lambda>c. c\<lparr>ch_status := CO_COMPLETED,
               ch_completedOrderId := Some orderId, ch_customerId := Some customerId\<rparr>) s1
         in Inr (s2\<lparr>sh_carts := update_rows (\<lambda>k. crt_id k = ch_cartId checkout \<and> crt_status k = CART_ACTIVE)
              (\<lambda>k. k\<lparr>crt_status := CART_CONVERTED\<rparr>) (sh_carts s2)\<rparr>)))"

definition place_order ::
  "checkout_env \<Rightarrow> checkout_row \<Rightarrow> payment_row \<Rightarrow> price_quote \<Rightarrow> string \<Rightarrow> bool \<Rightarrow> bool \<Rightarrow> shop
   \<Rightarrow> shop_error + (shop \<times> outcome_result)" where
  "place_order env checkout payment quote email shortage overLimit s =
     bindR (next_order_number s) (\<lambda>(s1, number).
     let (s2, customerId) = upsert_customer email (ch_shippingAddress checkout) s1;
         test = (case find (\<lambda>c. cn_id c = pm_connectionId payment) (sh_connections s2) of
           None \<Rightarrow> False | Some c \<Rightarrow> cn_test c);
         (s3, orderId) = fresh s2
     in
     bindR (insert_order (order_of env checkout quote orderId number customerId shortage test) s3) (\<lambda>s4.
     bindR (foldR (place_line orderId) (s4, []) (q_lines quote)) (\<lambda>(s5, lineByVariant).
     bindR (place_shipping orderId (q_shipping quote) s5) (\<lambda>s6.
     bindR (place_discount orderId customerId (ch_id checkout) (q_discount quote) s6) (\<lambda>s7.
     let s8 = place_addresses orderId checkout s7 in
     bindR (liftE STOCK_FAULT (convertCheckoutStock (ch_id checkout) orderId (map_of lineByVariant) (sh_stock s8)))
       (\<lambda>db.
     bindR (link_order checkout payment orderId customerId (s8\<lparr>sh_stock := db\<rparr>)) (\<lambda>s9.
     Inr (announce env checkout payment orderId shortage overLimit s9,
       COMPLETED_ORDER orderId number True))))))))"

definition completeCheckout ::
  "checkout_env \<Rightarrow> checkout_row \<Rightarrow> payment_row \<Rightarrow> shop \<Rightarrow> shop_error + (shop \<times> outcome_result)" where
  "completeCheckout env checkout payment s =
     (if ch_status checkout = CO_COMPLETED then
        (case existingOrder checkout s of
           None \<Rightarrow> Inr (s, IGNORED ''no_order'')
         | Some (orderId, number) \<Rightarrow>
             Inr (orderEvent orderId ''payment.extra_capture''
               ''Another payment attempt for this order was also captured. Refund it from this page.''
               [(''paymentId'', uuid_text (pm_id payment))] None
               (set_payments (\<lambda>p. pm_id p = pm_id payment) (\<lambda>p. p\<lparr>pm_orderId := Some orderId\<rparr>) s),
               COMPLETED_ORDER orderId number False))
      else case (ch_quote checkout, ch_email checkout) of
        (Some quote, Some email) \<Rightarrow>
          if q_total quote \<noteq> pm_amount payment \<or> q_currency quote \<noteq> pm_currency payment \<or> email = []
          then Inr (s, IGNORED ''quote_mismatch'')
          else
          bindR (claim_stock env checkout quote s) (\<lambda>(s1, shortage).
          bindR (claim_discount checkout (q_discount quote) (supersede (ch_id checkout) (pm_id payment) s1))
            (\<lambda>(s2, overLimit). place_order env checkout payment quote email shortage overLimit s2))
      | _ \<Rightarrow> Inr (s, IGNORED ''quote_mismatch''))"

fun failure_code :: "provider_status \<Rightarrow> string" where
  "failure_code PS_FAILED = ''DECLINED''"
| "failure_code PS_CANCELLED = ''CANCELLED''"
| "failure_code PS_EXPIRED = ''EXPIRED''"
| "failure_code PS_PENDING = ''PENDING''"
| "failure_code PS_CAPTURED = ''CAPTURED''"

definition capture :: "checkout_env \<Rightarrow> provider_state \<Rightarrow> payment_row \<Rightarrow> shop \<Rightarrow> shop" where
  "capture env state payment = set_payments (\<lambda>p. pm_id p = pm_id payment) (\<lambda>p. p\<lparr>pm_status := PAY_CAPTURED,
     pm_capturedAmount := pm_amount p, pm_capturedAt := Some (ce_now env),
     pm_providerChargeId := ps_chargeId state, pm_failureCode := None, pm_failureMessage := None\<rparr>)"

definition applyPaymentOutcome ::
  "checkout_env \<Rightarrow> uuid \<Rightarrow> provider_state \<Rightarrow> string \<Rightarrow> shop \<Rightarrow> shop_error + (shop \<times> outcome_result)" where
  "applyPaymentOutcome env checkoutId state provider s =
     (case loadCheckout checkoutId s of
        None \<Rightarrow> Inr (s, IGNORED ''unknown_checkout'')
      | Some checkout \<Rightarrow>
        (case lockPaymentByReference checkoutId provider (ps_providerPaymentId state) s of
           None \<Rightarrow> Inr (s, IGNORED ''unknown_payment'')
         | Some payment \<Rightarrow>
           if pm_checkoutId payment \<noteq> ch_id checkout then Inr (s, IGNORED ''unknown_payment'')
           else if ps_status state = PS_PENDING then Inr (s, OUTCOME_PENDING)
           else if ps_status state \<noteq> PS_CAPTURED then
             (if pm_status payment = PAY_CAPTURED then Inr (s, IGNORED ''already_captured'')
              else bindR (endAttempt checkout payment
                     (if ps_status state = PS_FAILED then PAY_FAILED else PAY_CANCELLED)
                     (failure_code (ps_status state)) None s)
                   (\<lambda>s1. Inr (s1, OUTCOME_FAILED)))
           else if pm_status payment = PAY_CAPTURED then
             (case existingOrder checkout s of
                Some (orderId, number) \<Rightarrow> Inr (s, COMPLETED_ORDER orderId number False)
              | None \<Rightarrow> Inr (s, IGNORED ''no_order''))
           else if ps_amount state \<noteq> Some (pm_amount payment) \<or> ps_currency state \<noteq> Some (pm_currency payment) then
             (if pm_status payment = PAY_PENDING
              then bindR (endAttempt checkout payment PAY_FAILED ''AMOUNT_MISMATCH''
                     (Some ''The provider reported a different amount or currency.'') s)
                   (\<lambda>s1. Inr (s1, OUTCOME_FAILED))
              else Inr (s, OUTCOME_FAILED))
           else
             bindR (liftE BAD_TRANSITION (assertPaymentTransition (pm_status payment) PAY_CAPTURED)) (\<lambda>_.
             completeCheckout env checkout payment (capture env state payment s))))"

end
