(* ===== verification/Payments.thy ===== *)
theory Payments
  imports Confirm
begin

section \<open>The checkout service\<close>

text \<open>
  Model of the state changes of \<open>packages/commerce/src/checkout/service.ts\<close> (starting and
  editing a checkout, beginning, confirming and cancelling a payment) and of
  \<open>packages/commerce/src/checkout/sweep.ts\<close>. Inputs are modelled after their parsing
  (\<open>input.ts\<close>); tokens are given by their hashes (\<open>tokens.ts\<close>); the rate limiter and the fields of
  the views besides the quote are left out.
\<close>

definition ttl :: date where
  "ttl = 60 * 60000"

definition payment_ttl :: date where
  "payment_ttl = 15 * 60000"

text \<open>A transaction on the checkout that a token names.\<close>

definition inCheckout ::
  "string \<Rightarrow> (checkout_row \<Rightarrow> shop \<Rightarrow> shop_error + (shop \<times> 'a)) \<Rightarrow> shop \<Rightarrow> shop_error + (shop \<times> 'a option)" where
  "inCheckout tokenHash f s = (case loadByToken tokenHash s of
     None \<Rightarrow> Inr (s, None)
   | Some checkout \<Rightarrow> bindR (f checkout s) (\<lambda>(s1, x). Inr (s1, Some x)))"

definition gone :: shop_error where
  "gone = REFUSED ''This checkout is no longer available. Please start again from your cart.''"

subsection \<open>Starting\<close>

definition reusable :: "checkout_env \<Rightarrow> uuid \<Rightarrow> checkout_row \<Rightarrow> bool" where
  "reusable env cartId c \<longleftrightarrow> ch_cartId c = cartId \<and>
     (ch_status c = CO_PAYMENT_PENDING \<or> ch_status c = CO_OPEN \<and> \<not> expired env c)"

definition new_checkout :: "checkout_env \<Rightarrow> string \<Rightarrow> uuid \<Rightarrow> string \<Rightarrow> uuid \<Rightarrow> checkout_row" where
  "new_checkout env currency cartId tokenHash checkoutId = \<lparr>ch_id = checkoutId, ch_tokenHash = tokenHash,
     ch_cartId = cartId, ch_customerId = None, ch_email = None, ch_status = CO_OPEN,
     ch_currency = currency, ch_shippingAddress = None, ch_billingAddress = None,
     ch_shippingRateId = None, ch_discountCode = None, ch_quote = None, ch_pricingHash = None,
     ch_expiresAt = ce_now env + ttl, ch_completedOrderId = None\<rparr>"

text \<open>
  \<open>startCheckout\<close>: the token's checkout is reused when it is this cart's and open; otherwise a
  new one is inserted and priced. The result is the token hash to keep.
\<close>

definition startCheckout ::
  "checkout_env \<Rightarrow> string \<Rightarrow> string \<Rightarrow> string option \<Rightarrow> string \<Rightarrow> shop \<Rightarrow> shop_error + (shop \<times> string)" where
  "startCheckout env currency cartTokenHash tokenHash newTokenHash s =
     (case find (\<lambda>k. crt_tokenHash k = cartTokenHash \<and> crt_status k = CART_ACTIVE \<and> crt_expiresAt k > ce_now env)
         (sh_carts s) of
        None \<Rightarrow> Inl (REFUSED ''Your cart is empty.'')
      | Some cart \<Rightarrow>
          if filter (\<lambda>l. cl_cartId l = crt_id cart) (ct_cartLines (sh_catalogue s)) = []
          then Inl (REFUSED ''Your cart is empty.'')
          else case Option.bind tokenHash (\<lambda>t. Option.bind (loadByToken t s)
              (\<lambda>c. if reusable env (crt_id cart) c then Some t else None)) of
            Some t \<Rightarrow> Inr (s, t)
          | None \<Rightarrow>
              if loadByToken newTokenHash s \<noteq> None then Inl (VIOLATES ''Checkout_tokenHash_key'')
              else let (s1, checkoutId) = fresh s;
                       checkout = new_checkout env currency (crt_id cart) newTokenHash checkoutId
              in bindR (repriceCheckout env checkout currency (s1\<lparr>sh_checkouts := sh_checkouts s1 @ [checkout]\<rparr>))
                (\<lambda>(s2, quote, hash).
                  if q_unavailable quote \<noteq> []
                  then Inl (REFUSED ''Some items in your cart can't be bought as they are. Update your cart to continue.'')
                  else Inr (s2, newTokenHash)))"

subsection \<open>Steps\<close>

text \<open>Only an open checkout is repriced for its view.\<close>

definition view_price :: "checkout_env \<Rightarrow> string \<Rightarrow> checkout_row \<Rightarrow> shop \<Rightarrow> shop_error + (shop \<times> price_quote)" where
  "view_price env currency checkout s =
     (if ch_status checkout = CO_OPEN \<and> \<not> expired env checkout
      then bindR (repriceCheckout env checkout currency s) (\<lambda>(s1, quote, hash). Inr (s1, quote))
      else case ch_quote checkout of
        None \<Rightarrow> Inl (REFUSED ''This checkout is no longer available.'')
      | Some quote \<Rightarrow> Inr (s, quote))"

definition getCheckout :: "checkout_env \<Rightarrow> string \<Rightarrow> string \<Rightarrow> shop \<Rightarrow> shop_error + (shop \<times> price_quote option)" where
  "getCheckout env currency tokenHash = inCheckout tokenHash (view_price env currency)"

definition extend_ttl :: "checkout_env \<Rightarrow> uuid \<Rightarrow> shop \<Rightarrow> shop" where
  "extend_ttl env checkoutId =
     set_checkouts (\<lambda>c. ch_id c = checkoutId) (\<lambda>c. c\<lparr>ch_expiresAt := ce_now env + ttl\<rparr>)"

definition checkout_step ::
  "checkout_env \<Rightarrow> string \<Rightarrow> (checkout_row \<Rightarrow> shop \<Rightarrow> shop_error + shop) \<Rightarrow> checkout_row \<Rightarrow> shop
   \<Rightarrow> shop_error + (shop \<times> price_quote)" where
  "checkout_step env currency change checkout s =
     (if ch_status checkout = CO_COMPLETED then Inl (REFUSED ''This order has already been placed.'')
      else if ch_status checkout = CO_PAYMENT_PENDING
      then Inl (REFUSED ''A payment is in progress. Finish it, or cancel it to change your details.'')
      else if ch_status checkout = CO_EXPIRED \<or> expired env checkout
      then Inl (REFUSED ''This checkout has expired. Please start again from your cart.'')
      else bindR (change checkout s) (\<lambda>s1.
           let s2 = extend_ttl env (ch_id checkout) s1
           in case loadCheckout (ch_id checkout) s2 of
                None \<Rightarrow> Inl gone
              | Some fresh_row \<Rightarrow> view_price env currency fresh_row s2))"

definition run_step ::
  "checkout_env \<Rightarrow> string \<Rightarrow> (checkout_row \<Rightarrow> shop \<Rightarrow> shop_error + shop) \<Rightarrow> string \<Rightarrow> shop
   \<Rightarrow> shop_error + (shop \<times> price_quote)" where
  "run_step env currency change tokenHash s =
     bindR (inCheckout tokenHash (checkout_step env currency change) s) (\<lambda>(s1, r). case r of
       None \<Rightarrow> Inl gone | Some quote \<Rightarrow> Inr (s1, quote))"

definition edit :: "uuid \<Rightarrow> (checkout_row \<Rightarrow> checkout_row) \<Rightarrow> shop \<Rightarrow> shop" where
  "edit checkoutId = set_checkouts (\<lambda>c. ch_id c = checkoutId)"

definition updateContact :: "string \<Rightarrow> checkout_row \<Rightarrow> shop \<Rightarrow> shop_error + shop" where
  "updateContact email checkout s = Inr (edit (ch_id checkout) (\<lambda>c. c\<lparr>ch_email := Some email\<rparr>) s)"

definition updateAddress ::
  "checkout_env \<Rightarrow> string \<Rightarrow> checkout_address \<Rightarrow> checkout_address \<Rightarrow> checkout_row \<Rightarrow> shop \<Rightarrow> shop_error + shop" where
  "updateAddress env currency shipping billing checkout s =
     (let s1 = edit (ch_id checkout) (\<lambda>c. c\<lparr>ch_shippingAddress := Some shipping,
            ch_billingAddress := Some billing\<rparr>) s
      in if ch_shippingRateId checkout = None then Inr s1
         else bindR (liftE BAD_MONEY (priceCheckout (ce_lc env)
                (loadPricingInput env (checkout\<lparr>ch_shippingAddress := Some shipping\<rparr>) currency s1)))
              (\<lambda>quote. if list_ex (\<lambda>opt. Some (qo_rateId opt) = ch_shippingRateId checkout) (q_shippingOptions quote)
                 then Inr s1 else Inr (edit (ch_id checkout) (\<lambda>c. c\<lparr>ch_shippingRateId := None\<rparr>) s1)))"

definition selectShippingRate :: "checkout_env \<Rightarrow> string \<Rightarrow> uuid \<Rightarrow> checkout_row \<Rightarrow> shop \<Rightarrow> shop_error + shop" where
  "selectShippingRate env currency rateId checkout s =
     bindR (repriceCheckout env checkout currency s) (\<lambda>(s1, quote, hash).
       if \<not> list_ex (\<lambda>opt. qo_rateId opt = rateId) (q_shippingOptions quote)
       then Inl (REFUSED ''That shipping method isn't available for your address.'')
       else Inr (edit (ch_id checkout) (\<lambda>c. c\<lparr>ch_shippingRateId := Some rateId\<rparr>) s1))"

fun DISCOUNT_MESSAGES :: "discount_problem \<Rightarrow> string" where
  "DISCOUNT_MESSAGES NOT_FOUND = ''That code isn't valid.''"
| "DISCOUNT_MESSAGES NOT_STARTED = ''That code isn't active yet.''"
| "DISCOUNT_MESSAGES EXPIRED = ''That code has expired.''"
| "DISCOUNT_MESSAGES USED_UP = ''That code has reached its usage limit.''"
| "DISCOUNT_MESSAGES MINIMUM = ''Your order doesn't reach this code's minimum yet.''"

definition applyDiscountCode :: "checkout_env \<Rightarrow> string \<Rightarrow> string \<Rightarrow> checkout_row \<Rightarrow> shop \<Rightarrow> shop_error + shop" where
  "applyDiscountCode env currency code checkout s =
     (let s1 = edit (ch_id checkout) (\<lambda>c. c\<lparr>ch_discountCode := Some code\<rparr>) s
      in bindR (repriceCheckout env (checkout\<lparr>ch_discountCode := Some code\<rparr>) currency s1) (\<lambda>(s2, quote, hash).
           case q_discountProblem quote of
             Some problem \<Rightarrow> Inl (REFUSED (DISCOUNT_MESSAGES problem))
           | None \<Rightarrow> Inr s2))"

definition removeDiscountCode :: "checkout_row \<Rightarrow> shop \<Rightarrow> shop_error + shop" where
  "removeDiscountCode checkout s = Inr (edit (ch_id checkout) (\<lambda>c. c\<lparr>ch_discountCode := None\<rparr>) s)"

subsection \<open>Beginning a payment\<close>

datatype begin_outcome = STARTED payment_row | ANSWER begin_result

text \<open>The insert of a payment, with its CHECK and unique constraints.\<close>

definition insert_payment :: "payment_row \<Rightarrow> shop \<Rightarrow> shop_error + shop" where
  "insert_payment p s =
     (if pm_amount p \<le> 0 \<or> \<not> sql_int8 (pm_amount p) then Inl (VIOLATES ''Payment_amounts'')
      else if list_ex (\<lambda>q. pm_idempotencyKey q = pm_idempotencyKey p) (sh_payments s)
      then Inl (VIOLATES ''Payment_idempotencyKey_key'')
      else if list_ex (\<lambda>q. pm_checkoutId q = pm_checkoutId p \<and> pm_status q = PAY_PENDING) (sh_payments s)
      then Inl (VIOLATES ''Payment_one_pending_per_checkout'')
      else Inr (s\<lparr>sh_payments := sh_payments s @ [p]\<rparr>))"

definition new_payment ::
  "checkout_env \<Rightarrow> checkout_row \<Rightarrow> connection_row \<Rightarrow> price_quote \<Rightarrow> nat \<Rightarrow> uuid \<Rightarrow> payment_row" where
  "new_payment env checkout connection quote attempts paymentId =
     \<lparr>pm_id = paymentId, pm_connectionId = cn_id connection, pm_checkoutId = ch_id checkout,
      pm_orderId = None, pm_provider = cn_provider connection, pm_providerPaymentId = None,
      pm_providerChargeId = None, pm_redirectUrl = None, pm_status = PAY_PENDING,
      pm_currency = q_currency quote, pm_amount = q_total quote, pm_capturedAmount = 0, pm_refunded = 0,
      pm_idempotencyKey = uuid_text (ch_id checkout) @ '':'' @ show_nat (attempts + 1),
      pm_failureCode = None, pm_failureMessage = None, pm_expiresAt = ce_now env + payment_ttl,
      pm_capturedAt = None\<rparr>"

text \<open>Stock and the discount's use are reserved; what is missing rolls the transaction back.\<close>

definition reserve_quote ::
  "checkout_env \<Rightarrow> checkout_row \<Rightarrow> price_quote \<Rightarrow> shop \<Rightarrow> shop_error + shop" where
  "reserve_quote env checkout quote s =
     bindR (on_stock (reserveStock (ch_id checkout)
         (map (\<lambda>l. \<lparr>sl_variantId = ql_variantId l, sl_quantity = ql_quantity l\<rparr>) (q_lines quote))
         (ce_now env + payment_ttl) False) s) (\<lambda>(s1, stock). case stock of
       NO_STOCK _ \<Rightarrow> Inl (ROLLBACK (CHANGED ITEM_UNAVAILABLE))
     | RESERVED_OK _ \<Rightarrow>
         (case q_discount quote of
            None \<Rightarrow> Inr s1
          | Some d \<Rightarrow> bindR (reserveDiscountUse (ch_id checkout) d (ch_email checkout) s1) (\<lambda>(s2, ok).
              if ok then Inr s2 else Inl (ROLLBACK (CHANGED DISCOUNT_CHANGED)))))"

definition start_attempt ::
  "checkout_env \<Rightarrow> checkout_row \<Rightarrow> connection_row \<Rightarrow> price_quote \<Rightarrow> shop \<Rightarrow> shop_error + (shop \<times> begin_outcome)" where
  "start_attempt env checkout connection quote s =
     bindR (reserve_quote env checkout quote s) (\<lambda>s1.
     let attempts = length (filter (\<lambda>p. pm_checkoutId p = ch_id checkout) (sh_payments s1));
         (s2, paymentId) = fresh s1;
         payment = new_payment env checkout connection quote attempts paymentId
     in bindR (insert_payment payment s2) (\<lambda>s3.
        bindR (liftE BAD_TRANSITION (assertCheckoutTransition (ch_status checkout) CO_PAYMENT_PENDING)) (\<lambda>_.
        Inr (edit (ch_id checkout) (\<lambda>c. c\<lparr>ch_status := CO_PAYMENT_PENDING, ch_expiresAt := ce_now env + ttl\<rparr>) s3,
             STARTED payment))))"

definition begin_body ::
  "checkout_env \<Rightarrow> string \<Rightarrow> string \<Rightarrow> checkout_row \<Rightarrow> shop \<Rightarrow> shop_error + (shop \<times> begin_outcome)" where
  "begin_body env currency confirmed checkout s =
     (if ch_status checkout = CO_COMPLETED then Inr (s, ANSWER BEGIN_COMPLETED)
      else if ch_status checkout = CO_PAYMENT_PENDING then
        Inr (s, ANSWER (case Option.bind (lockPendingPayment (ch_id checkout) s) pm_redirectUrl of
          None \<Rightarrow> BEGIN_PROCESSING | Some url \<Rightarrow> if url = [] then BEGIN_PROCESSING else REDIRECT url))
      else if ch_status checkout = CO_EXPIRED \<or> expired env checkout
      then Inl (REFUSED ''This checkout has expired. Please start again from your cart.'')
      else if map_option crt_status (find (\<lambda>k. crt_id k = ch_cartId checkout) (sh_carts s)) \<noteq> Some CART_ACTIVE
      then Inl (REFUSED ''This cart has already been checked out.'')
      else
      bindR (repriceCheckout env checkout currency s) (\<lambda>(s1, quote, hash).
      if hash \<noteq> confirmed
      then Inr (s1, ANSWER (CHANGED (case describeQuoteChange (ce_hash env) (ch_quote checkout) quote of
             None \<Rightarrow> PRICE_CHANGED | Some change \<Rightarrow> change)))
      else if q_problems quote \<noteq> [] then Inr (s1, ANSWER NOT_READY)
      else case find cn_active (sh_connections s1) of
        None \<Rightarrow> Inl (REFUSED ''This store isn't accepting payments right now.'')
      | Some connection \<Rightarrow>
          if \<not> ce_opens env connection \<or> \<not> ce_accepts env (cn_provider connection) (q_currency quote)
          then Inl (REFUSED ''This store isn't accepting payments right now.'')
          else start_attempt env checkout connection quote s1))"

text \<open>
  After the provider call, in a second transaction: the provider's reference is recorded, or,
  when the call failed, the attempt is ended and the error thrown.
\<close>

definition record_start ::
  "uuid \<Rightarrow> uuid \<Rightarrow> (string \<times> string) option \<Rightarrow> shop \<Rightarrow> shop_error + (shop \<times> begin_result)" where
  "record_start checkoutId paymentId created s =
     (case (loadCheckout checkoutId s, lockPendingPayment checkoutId s) of
        (Some checkout, Some payment) \<Rightarrow>
          if pm_id payment \<noteq> paymentId then Inr (s, CHANGED PRICE_CHANGED)
          else (case created of
            None \<Rightarrow>
              bindR (endAttempt checkout payment PAY_FAILED ''PROVIDER_ERROR''
                (Some ''The payment provider couldn't start the payment.'') s) (\<lambda>s1.
              Inl (REFUSED ''We couldn't start the payment. Please try again.''))
          | Some (reference, url) \<Rightarrow>
              if list_ex (\<lambda>p. pm_id p \<noteq> pm_id payment \<and> pm_provider p = pm_provider payment \<and>
                   pm_providerPaymentId p = Some reference) (sh_payments s)
              then Inl (VIOLATES ''Payment_provider_providerPaymentId_key'')
              else Inr (set_payments (\<lambda>p. pm_id p = pm_id payment)
                (\<lambda>p. p\<lparr>pm_providerPaymentId := Some reference, pm_redirectUrl := Some url\<rparr>) s, REDIRECT url))
      | _ \<Rightarrow> Inr (s, CHANGED PRICE_CHANGED))"

definition provider_answer :: "checkout_env \<Rightarrow> payment_row \<Rightarrow> shop \<Rightarrow> (string \<times> string) option" where
  "provider_answer env payment s = (case find (\<lambda>c. cn_id c = pm_connectionId payment) (sh_connections s) of
     None \<Rightarrow> None | Some c \<Rightarrow> if ce_opens env c then ce_create env payment else None)"

definition beginPayment ::
  "checkout_env \<Rightarrow> string \<Rightarrow> string \<Rightarrow> string \<Rightarrow> shop \<Rightarrow> shop \<times> (shop_error + begin_result)" where
  "beginPayment env currency tokenHash confirmed s =
     (case transaction (inCheckout tokenHash (begin_body env currency confirmed)) s of
        (s1, Inl e) \<Rightarrow> (s1, case e of ROLLBACK r \<Rightarrow> Inr r | _ \<Rightarrow> Inl e)
      | (s1, Inr None) \<Rightarrow> (s1, Inl gone)
      | (s1, Inr (Some (ANSWER r))) \<Rightarrow> (s1, Inr r)
      | (s1, Inr (Some (STARTED payment))) \<Rightarrow>
          transaction (record_start (pm_checkoutId payment) (pm_id payment) (provider_answer env payment s1)) s1)"

subsection \<open>Cancelling and sweeping\<close>

text \<open>The last transaction of \<open>cancelPayment\<close>: the attempt in flight ends.\<close>

definition cancel_pending :: "uuid \<Rightarrow> shop \<Rightarrow> shop_error + shop" where
  "cancel_pending checkoutId s = (case (loadCheckout checkoutId s, lockPendingPayment checkoutId s) of
     (Some checkout, Some payment) \<Rightarrow> endAttempt checkout payment PAY_CANCELLED ''CANCELLED_BY_SHOPPER'' None s
   | _ \<Rightarrow> Inr s)"

text \<open>The last transaction of \<open>sweepExpiredPayments\<close> for one candidate.\<close>

definition sweep_payment :: "uuid \<Rightarrow> uuid \<Rightarrow> shop \<Rightarrow> shop_error + shop" where
  "sweep_payment checkoutId paymentId s = (case (loadCheckout checkoutId s, lockPaymentById checkoutId paymentId s) of
     (Some checkout, Some payment) \<Rightarrow>
       endAttempt checkout payment PAY_CANCELLED ''EXPIRED'' (Some ''The payment window ended.'') s
   | _ \<Rightarrow> Inr s)"

text \<open>
  The attempt in flight of a checkout: its provider, the provider's reference and its connection.
  What the provider answers to \<open>getPayment\<close> (None when the call fails) and whether it accepts a
  cancellation are arguments of the operations that ask it.
\<close>

definition in_flight :: "checkout_row \<Rightarrow> shop \<Rightarrow> (string \<times> string option \<times> connection_row option) option" where
  "in_flight checkout s =
     (if ch_status checkout \<noteq> CO_PAYMENT_PENDING then None
      else map_option (\<lambda>p. (pm_provider p, pm_providerPaymentId p,
             find (\<lambda>c. cn_id c = pm_connectionId p) (sh_connections s)))
           (lockPendingPayment (ch_id checkout) s))"

text \<open>The reference and connection to ask, when the attempt has both and the connection opens.\<close>

definition askable ::
  "checkout_env \<Rightarrow> string option \<Rightarrow> connection_row option \<Rightarrow> (string \<times> connection_row) option" where
  "askable env reference connection = (case (reference, connection) of
     (Some r, Some c) \<Rightarrow> if r \<noteq> [] \<and> ce_opens env c then Some (r, c) else None | _ \<Rightarrow> None)"

definition confirmPayment ::
  "checkout_env \<Rightarrow> (connection_row \<Rightarrow> string \<Rightarrow> provider_state option) \<Rightarrow> string \<Rightarrow> string \<Rightarrow> shop
   \<Rightarrow> shop \<times> (shop_error + price_quote option)" where
  "confirmPayment env getPayment currency tokenHash s =
     (let s1 = (case loadByToken tokenHash s of
            None \<Rightarrow> s
          | Some checkout \<Rightarrow> (case in_flight checkout s of
              None \<Rightarrow> s
            | Some (provider, reference, connection) \<Rightarrow> (case askable env reference connection of
                None \<Rightarrow> s
              | Some (r, c) \<Rightarrow> (case getPayment c r of
                  None \<Rightarrow> s
                | Some state \<Rightarrow> fst (transaction (applyPaymentOutcome env (ch_id checkout) state provider) s)))))
      in transaction (getCheckout env currency tokenHash) s1)"

definition current_view :: "checkout_env \<Rightarrow> string \<Rightarrow> string \<Rightarrow> shop \<Rightarrow> shop \<times> (shop_error + price_quote)" where
  "current_view env currency tokenHash s = (case transaction (getCheckout env currency tokenHash) s of
     (s1, Inl e) \<Rightarrow> (s1, Inl e) | (s1, Inr None) \<Rightarrow> (s1, Inl gone) | (s1, Inr (Some quote)) \<Rightarrow> (s1, Inr quote))"

text \<open>The provider is asked first: money already taken completes the order instead.\<close>

definition cancelPayment ::
  "checkout_env \<Rightarrow> (connection_row \<Rightarrow> string \<Rightarrow> provider_state option) \<Rightarrow> (connection_row \<Rightarrow> string \<Rightarrow> bool)
   \<Rightarrow> string \<Rightarrow> string \<Rightarrow> shop \<Rightarrow> shop \<times> (shop_error + price_quote)" where
  "cancelPayment env getPayment cancelAtProvider currency tokenHash s = (case loadByToken tokenHash s of
     None \<Rightarrow> (s, Inl gone)
   | Some checkout \<Rightarrow>
       let withdraw = (case cancel_pending (ch_id checkout) s of
             Inl e \<Rightarrow> (s, Inl e) | Inr s1 \<Rightarrow> current_view env currency tokenHash s1)
       in case in_flight checkout s of
            None \<Rightarrow> withdraw
          | Some (provider, reference, connection) \<Rightarrow> (case askable env reference connection of
              None \<Rightarrow> withdraw
            | Some (r, c) \<Rightarrow> (case getPayment c r of
                None \<Rightarrow> (s, Inl (THROWN ''payment provider''))
              | Some state \<Rightarrow>
                  if ps_status state = PS_CAPTURED
                  then (case applyPaymentOutcome env (ch_id checkout) state provider s of
                      Inl e \<Rightarrow> (s, Inl e) | Inr (s1, outcome) \<Rightarrow> current_view env currency tokenHash s1)
                  else if cancelAtProvider c r then withdraw
                  else (s, Inl (THROWN ''payment provider'')))))"

subsection \<open>The sweeps\<close>

datatype sweep_result = SW_SKIPPED | SW_CAPTURED | SW_RELEASED | SW_DEFERRED

definition sweepExpiredPayment ::
  "checkout_env \<Rightarrow> (connection_row \<Rightarrow> string \<Rightarrow> provider_state option) \<Rightarrow> (connection_row \<Rightarrow> string \<Rightarrow> bool)
   \<Rightarrow> uuid \<Rightarrow> uuid \<Rightarrow> shop \<Rightarrow> shop \<times> sweep_result" where
  "sweepExpiredPayment env getPayment cancelAtProvider checkoutId paymentId s =
     (let release = (case sweep_payment checkoutId paymentId s of Inl e \<Rightarrow> (s, SW_DEFERRED) | Inr s1 \<Rightarrow> (s1, SW_RELEASED))
      in case lockPaymentById checkoutId paymentId s of
           None \<Rightarrow> (s, SW_SKIPPED)
         | Some p \<Rightarrow>
             if pm_status p \<noteq> PAY_PENDING then (s, SW_SKIPPED)
             else (case askable env (pm_providerPaymentId p)
                 (find (\<lambda>c. cn_id c = pm_connectionId p) (sh_connections s)) of
               None \<Rightarrow> release
             | Some (r, c) \<Rightarrow> (case getPayment c r of
                 None \<Rightarrow> (s, SW_DEFERRED)
               | Some state \<Rightarrow>
                   if ps_status state = PS_CAPTURED
                   then (case applyPaymentOutcome env checkoutId state (pm_provider p) s of
                       Inl e \<Rightarrow> (s, SW_DEFERRED) | Inr (s1, outcome) \<Rightarrow> (s1, SW_CAPTURED))
                   else if ps_status state = PS_PENDING \<and> \<not> cancelAtProvider c r then (s, SW_DEFERRED)
                   else release)))"

text \<open>The candidates of one store, oldest expiry first; a failure of one never stops the others.\<close>

definition byExpiry :: "('a \<Rightarrow> date) \<Rightarrow> 'a \<Rightarrow> 'a \<Rightarrow> int" where
  "byExpiry expiresAt a b = expiresAt a - expiresAt b"

definition sweepExpiredPayments ::
  "checkout_env \<Rightarrow> (connection_row \<Rightarrow> string \<Rightarrow> provider_state option) \<Rightarrow> (connection_row \<Rightarrow> string \<Rightarrow> bool)
   \<Rightarrow> nat \<Rightarrow> shop \<Rightarrow> shop \<times> sweep_result list" where
  "sweepExpiredPayments env getPayment cancelAtProvider limit s =
     foldl (\<lambda>(s, results) p. case sweepExpiredPayment env getPayment cancelAtProvider (pm_checkoutId p) (pm_id p) s of
         (s1, r) \<Rightarrow> (s1, results @ [r])) (s, [])
       (take limit (sortBy (byExpiry pm_expiresAt)
         (filter (\<lambda>p. pm_status p = PAY_PENDING \<and> pm_expiresAt p < ce_now env) (sh_payments s))))"

definition sweepExpiredCheckout :: "checkout_env \<Rightarrow> uuid \<Rightarrow> shop \<Rightarrow> shop_error + (shop \<times> bool)" where
  "sweepExpiredCheckout env checkoutId s = (case loadCheckout checkoutId s of
     None \<Rightarrow> Inr (s, False)
   | Some checkout \<Rightarrow>
       if ch_status checkout \<noteq> CO_OPEN \<or> \<not> expired env checkout then Inr (s, False)
       else bindR (liftE BAD_TRANSITION (assertCheckoutTransition CO_OPEN CO_EXPIRED)) (\<lambda>_.
         Inr (edit checkoutId (\<lambda>c. c\<lparr>ch_status := CO_EXPIRED\<rparr>) s, True)))"

definition sweepExpiredCheckouts :: "checkout_env \<Rightarrow> nat \<Rightarrow> shop \<Rightarrow> shop \<times> nat" where
  "sweepExpiredCheckouts env limit s =
     foldl (\<lambda>(s, n) c. case transaction (sweepExpiredCheckout env (ch_id c)) s of
         (s1, Inr True) \<Rightarrow> (s1, Suc n) | (s1, _) \<Rightarrow> (s1, n)) (s, 0)
       (take limit (sortBy (byExpiry ch_expiresAt)
         (filter (\<lambda>c. ch_status c = CO_OPEN \<and> ch_expiresAt c < ce_now env) (sh_checkouts s))))"

text \<open>Which expired checkouts are old enough to lose their contact details is an argument.\<close>

definition purgeExpiredCheckouts :: "uuid list \<Rightarrow> shop \<Rightarrow> shop" where
  "purgeExpiredCheckouts old = set_checkouts (\<lambda>c. ch_id c \<in> set old \<and> ch_status c = CO_EXPIRED)
     (\<lambda>c. c\<lparr>ch_email := None, ch_shippingAddress := None, ch_billingAddress := None, ch_quote := None\<rparr>)"

end
