(* ===== verification/Journey.thy ===== *)
theory Journey
  imports Payments
begin

section \<open>The journey of a payment\<close>

text \<open>
  What the transactions of a checkout do together. An abstract machine says how checkouts,
  payment attempts and orders may move; every transaction of the service is one of its steps
  or none (\<open>service_refines_protocol\<close>), and its safety properties carry over.
\<close>

subsection \<open>Identifiers only grow\<close>

lemma next_insert_movement: "insert_movement m db = Inr db' \<Longrightarrow> sd_next db \<le> sd_next db'"
  by (auto dest!: insert_movement_Inr(1))

lemma next_appendMovements: "appendMovements rows db = Inr db' \<Longrightarrow> sd_next db \<le> sd_next db'"
  unfolding appendMovements_def
  by (erule foldR_invariant[where P = "\<lambda>u. sd_next db \<le> sd_next u"])
    (auto dest: next_insert_movement split: if_splits)

lemma next_moveLevel: "moveLevel m db = Inr db' \<Longrightarrow> sd_next db \<le> sd_next db'"
  by (elim moveLevel_steps) (auto dest!: next_appendMovements update_levels_other(5))

lemma next_ensure_level: "sd_next db \<le> sd_next (ensure_level i l db)"
  by (simp add: ensure_level_def split: option.splits)

lemma next_reserve_at:
  "reserve_at checkoutId expiresAt item location q db = Inr db' \<Longrightarrow> sd_next db \<le> sd_next db'"
  by (elim reserve_at_steps) (force dest!: next_moveLevel insert_reservation_Inr(1))

lemma next_reserveStock:
  "reserveStock checkoutId ls expiresAt force db = Inr (db', res) \<Longrightarrow> sd_next db \<le> sd_next db'"
  by (erule reserveStock_invariant[where P = "\<lambda>u. sd_next db \<le> sd_next u"])
    (auto intro: order_trans next_ensure_level next_reserve_at)

lemma next_releaseCheckoutStock:
  assumes "releaseCheckoutStock checkoutId db = Inr (db', n)"
  shows "sd_next db \<le> sd_next db'"
proof -
  have "sd_next db \<le> sd_next u" if "foldR (\<lambda>db m. moveLevel m db) db ms = Inr u" for ms u
    using that by (rule foldR_invariant[where P = "\<lambda>u. sd_next db \<le> sd_next u"])
      (auto intro: order_trans next_moveLevel)
  then show ?thesis using assms
    by (auto simp: releaseCheckoutStock_def Let_def set_reservations_def bindR_eq_Inr split: if_splits)
qed

lemma next_convertCheckoutStock:
  assumes "convertCheckoutStock checkoutId orderId f db = Inr db'"
  shows "sd_next db' = sd_next db"
proof -
  from assms show ?thesis unfolding convertCheckoutStock_def Let_def
    by (rule foldR_invariant[where P = "\<lambda>u. sd_next u = sd_next db"])
      (auto simp: set_reservations_def split: option.splits)
qed

subsection \<open>What leaves checkouts, payments and orders alone\<close>

definition frame :: "shop \<Rightarrow> shop \<Rightarrow> bool" where
  "frame s t \<longleftrightarrow> sh_checkouts t = sh_checkouts s \<and> sh_payments t = sh_payments s \<and>
     ot_orders (sh_orders t) = ot_orders (sh_orders s) \<and> sh_nextOrderNumber t = sh_nextOrderNumber s \<and>
     sd_next (sh_stock s) \<le> sd_next (sh_stock t)"

lemma frame_refl [simp]: "frame s s"
  by (simp add: frame_def)

lemma frame_trans: "frame s t \<Longrightarrow> frame t u \<Longrightarrow> frame s u"
  by (simp add: frame_def)

lemma frame_updates [simp]:
  "frame s (s\<lparr>sh_discounts := x1\<rparr>)" "frame s (s\<lparr>sh_redemptions := x2\<rparr>)" "frame s (s\<lparr>sh_customers := x3\<rparr>)"
  "frame s (s\<lparr>sh_carts := x4\<rparr>)" "frame s (s\<lparr>sh_events := x5\<rparr>)" "frame s (s\<lparr>sh_notifications := x6\<rparr>)"
  "frame s (s\<lparr>sh_access := x7\<rparr>)" "frame s (s\<lparr>sh_redemptions := x2, sh_discounts := x1\<rparr>)"
  "frame s (s\<lparr>sh_discounts := x1, sh_redemptions := x2\<rparr>)"
  by (simp_all add: frame_def)

lemma frame_stock: "sd_next (sh_stock s) \<le> sd_next db \<Longrightarrow> frame s (s\<lparr>sh_stock := db\<rparr>)"
  by (simp add: frame_def)

lemma frame_fresh: "fresh s = (t, n) \<Longrightarrow> frame s t \<and> n = sd_next (sh_stock s) \<and> sd_next (sh_stock t) = Suc n"
  by (auto simp: fresh_def frame_def)

lemma frame_on_stock:
  assumes "on_stock f s = Inr (t, x)" "\<And>db y. f (sh_stock s) = Inr (db, y) \<Longrightarrow> sd_next (sh_stock s) \<le> sd_next db"
  shows "frame s t"
  using assms by (auto simp: on_stock_def bindR_eq_Inr liftE_Inr intro: frame_stock)

lemma orderEvent_fields [simp]:
  "sh_checkouts (orderEvent i ty m d a s) = sh_checkouts s" "sh_payments (orderEvent i ty m d a s) = sh_payments s"
  "sh_orders (orderEvent i ty m d a s) = sh_orders s" "sh_stock (orderEvent i ty m d a s) = sh_stock s"
  "sh_nextOrderNumber (orderEvent i ty m d a s) = sh_nextOrderNumber s"
  "sh_discounts (orderEvent i ty m d a s) = sh_discounts s"
  "sh_redemptions (orderEvent i ty m d a s) = sh_redemptions s"
  by (simp_all add: orderEvent_def)

lemma queueNotification_fields [simp]:
  "sh_checkouts (queueNotification i k d r x s) = sh_checkouts s"
  "sh_payments (queueNotification i k d r x s) = sh_payments s"
  "sh_orders (queueNotification i k d r x s) = sh_orders s"
  "sh_stock (queueNotification i k d r x s) = sh_stock s"
  "sh_nextOrderNumber (queueNotification i k d r x s) = sh_nextOrderNumber s"
  "sh_discounts (queueNotification i k d r x s) = sh_discounts s"
  "sh_redemptions (queueNotification i k d r x s) = sh_redemptions s"
  by (simp_all add: queueNotification_def split: option.splits)

lemma frame_releaseDiscountUse [simp]: "frame s (releaseDiscountUse c s)"
  by (simp add: releaseDiscountUse_def Let_def)

lemma frame_reserveDiscountUse: "reserveDiscountUse c d e s = Inr (t, ok) \<Longrightarrow> frame s t"
  by (auto simp: reserveDiscountUse_def Let_def frame_def split: if_splits option.splits)

lemma frame_claim_stock: "claim_stock env c q s = Inr (t, b) \<Longrightarrow> frame s t"
  by (auto simp: claim_stock_def bindR_eq_Inr split: if_splits
      intro: frame_on_stock next_reserveStock)

lemma frame_claim_discount: "claim_discount c d s = Inr (t, b) \<Longrightarrow> frame s t"
  by (auto simp: claim_discount_def bindR_eq_Inr split: if_splits option.splits
      intro: frame_reserveDiscountUse)

lemma reserve_quote_steps:
  assumes "reserve_quote env c q s = Inr t"
  obtains u b where "on_stock (reserveStock (ch_id c)
      (map (\<lambda>l. \<lparr>sl_variantId = ql_variantId l, sl_quantity = ql_quantity l\<rparr>) (q_lines q))
      (ce_now env + payment_ttl) False) s = Inr (u, RESERVED_OK b)"
    "case q_discount q of None \<Rightarrow> t = u
     | Some d \<Rightarrow> reserveDiscountUse (ch_id c) d (ch_email c) u = Inr (t, True)"
proof -
  from assms obtain u r where u: "on_stock (reserveStock (ch_id c)
      (map (\<lambda>l. \<lparr>sl_variantId = ql_variantId l, sl_quantity = ql_quantity l\<rparr>) (q_lines q))
      (ce_now env + payment_ttl) False) s = Inr (u, r)"
    and rest: "(case r of NO_STOCK _ \<Rightarrow> Inl (ROLLBACK (CHANGED ITEM_UNAVAILABLE))
     | RESERVED_OK _ \<Rightarrow>
         (case q_discount q of
            None \<Rightarrow> Inr u
          | Some d \<Rightarrow> bindR (reserveDiscountUse (ch_id c) d (ch_email c) u) (\<lambda>(s2, ok).
              if ok then Inr s2 else Inl (ROLLBACK (CHANGED DISCOUNT_CHANGED))))) = Inr t"
    unfolding reserve_quote_def bindR_eq_Inr split_paired_Ex case_prod_conv by blast
  from rest obtain b where b: "r = RESERVED_OK b" by (cases r) auto
  show ?thesis
    by (rule that[of u b]) (use u rest b in \<open>auto simp: bindR_eq_Inr split: option.splits if_splits\<close>)
qed

lemma frame_reserve_quote: "reserve_quote env c q s = Inr t \<Longrightarrow> frame s t"
  by (elim reserve_quote_steps)
    (auto split: option.splits intro: frame_trans frame_reserveDiscountUse
      dest!: frame_on_stock[OF _ next_reserveStock])

lemma frame_upsert_customer: "upsert_customer e a s = (t, n) \<Longrightarrow> frame s t"
  by (auto simp: upsert_customer_def Let_def fresh_def frame_def split: option.splits)

lemma frame_insert_tax: "insert_tax x s = Inr t \<Longrightarrow> frame s t"
  by (auto simp: insert_tax_def Let_def frame_def split: if_splits)

lemma frame_taxes: "foldR (\<lambda>s t. insert_tax (f t) s) s ts = Inr u \<Longrightarrow> frame s u"
  by (erule foldR_invariant[where P = "frame s"]) (auto intro: frame_trans frame_insert_tax)

lemma frame_place_line: "place_line oid (s, m) l = Inr (t, m') \<Longrightarrow> frame s t"
  by (auto simp: place_line_def Let_def fresh_def insert_line_def bindR_eq_Inr frame_def split: if_splits
      dest!: frame_taxes)

lemma frame_place_lines: "foldR (place_line oid) (s, m) ls = Inr (t, m') \<Longrightarrow> frame s t"
  using foldR_invariant[where P = "\<lambda>(u, _). frame s u" and f = "place_line oid" and s = "(s, m)" and xs = ls and t = "(t, m')"]
  by (auto intro: frame_trans frame_place_line)

lemma frame_place_shipping: "place_shipping oid q s = Inr t \<Longrightarrow> frame s t"
  by (auto simp: place_shipping_def Let_def frame_def split: option.splits if_splits dest!: frame_taxes)

lemma frame_place_discount: "place_discount oid c i d s = Inr t \<Longrightarrow> frame s t"
  by (auto simp: place_discount_def Let_def frame_def split: option.splits if_splits)

lemma frame_place_addresses [simp]: "frame s (place_addresses oid c s)"
  by (simp add: place_addresses_def frame_def Let_def)

lemma announce_fields [simp]:
  "sh_checkouts (announce env c p oid x y s) = sh_checkouts s"
  "sh_payments (announce env c p oid x y s) = sh_payments s"
  "sh_orders (announce env c p oid x y s) = sh_orders s" "sh_stock (announce env c p oid x y s) = sh_stock s"
  "sh_nextOrderNumber (announce env c p oid x y s) = sh_nextOrderNumber s"
  "sh_discounts (announce env c p oid x y s) = sh_discounts s"
  "sh_redemptions (announce env c p oid x y s) = sh_redemptions s"
  by (simp_all add: announce_def createOrderAccess_def Let_def)

lemma frame_announce [simp]: "frame s (announce env c p oid x y s)"
  by (simp add: frame_def)

subsection \<open>The abstract protocol\<close>

text \<open>
  Checkouts by their status, payment attempts by checkout, status, amount and currency, and
  the order of a checkout. \<open>alter\<close> changes the selected entries of such a map.
\<close>

type_synonym attempt = "uuid \<times> payment_status \<times> int \<times> string"

record journey =
  jn_checkout :: "uuid \<rightharpoonup> checkout_status"
  jn_payment :: "uuid \<rightharpoonup> attempt"
  jn_order :: "uuid \<rightharpoonup> uuid \<times> int"

definition alter :: "('k \<Rightarrow> 'v \<Rightarrow> bool) \<Rightarrow> ('v \<Rightarrow> 'v) \<Rightarrow> ('k \<rightharpoonup> 'v) \<Rightarrow> ('k \<rightharpoonup> 'v)" where
  "alter sel g m = (\<lambda>k. map_option (\<lambda>v. if sel k v then g v else v) (m k))"

fun with_status :: "payment_status \<Rightarrow> attempt \<Rightarrow> attempt" where
  "with_status st (c, _, a, x) = (c, st, a, x)"

definition is_pending_of :: "uuid \<Rightarrow> attempt \<Rightarrow> bool" where
  "is_pending_of c v \<longleftrightarrow> fst v = c \<and> fst (snd v) = PAY_PENDING"

definition settle :: "uuid \<Rightarrow> uuid \<Rightarrow> (uuid \<rightharpoonup> attempt) \<Rightarrow> (uuid \<rightharpoonup> attempt)" where
  "settle c p m = alter (\<lambda>k v. k \<noteq> p \<and> is_pending_of c v) (with_status PAY_CANCELLED)
     (alter (\<lambda>k v. k = p) (with_status PAY_CAPTURED) m)"

inductive protocol :: "journey \<Rightarrow> journey \<Rightarrow> bool" where
  open_checkout: "jn_checkout j c = None \<Longrightarrow> protocol j (j\<lparr>jn_checkout := (jn_checkout j)(c \<mapsto> CO_OPEN)\<rparr>)"
| begin_attempt: "jn_checkout j c = Some CO_OPEN \<Longrightarrow> jn_payment j p = None \<Longrightarrow>
    \<forall>q v. jn_payment j q = Some v \<longrightarrow> \<not> is_pending_of c v \<Longrightarrow>
    protocol j (j\<lparr>jn_checkout := (jn_checkout j)(c \<mapsto> CO_PAYMENT_PENDING),
      jn_payment := (jn_payment j)(p \<mapsto> (c, PAY_PENDING, a, x))\<rparr>)"
| end_attempt: "jn_payment j p = Some (c, PAY_PENDING, a, x) \<Longrightarrow> jn_checkout j c = Some CO_PAYMENT_PENDING \<Longrightarrow>
    st \<in> {PAY_FAILED, PAY_CANCELLED} \<Longrightarrow>
    protocol j (j\<lparr>jn_checkout := (jn_checkout j)(c \<mapsto> CO_OPEN),
      jn_payment := (jn_payment j)(p \<mapsto> (c, st, a, x))\<rparr>)"
| complete: "jn_payment j p = Some (c, st, a, x) \<Longrightarrow> st \<noteq> PAY_CAPTURED \<Longrightarrow>
    jn_checkout j c = Some cs \<Longrightarrow> cs \<noteq> CO_COMPLETED \<Longrightarrow> jn_order j c = None \<Longrightarrow>
    \<forall>d i m. jn_order j d = Some (i, m) \<longrightarrow> i \<noteq> oid \<and> m < n \<Longrightarrow>
    protocol j (j\<lparr>jn_checkout := (jn_checkout j)(c \<mapsto> CO_COMPLETED),
      jn_payment := settle c p (jn_payment j), jn_order := (jn_order j)(c \<mapsto> (oid, n))\<rparr>)"
| extra_capture: "jn_payment j p = Some (c, st, a, x) \<Longrightarrow> st \<noteq> PAY_CAPTURED \<Longrightarrow>
    jn_checkout j c = Some CO_COMPLETED \<Longrightarrow>
    protocol j (j\<lparr>jn_payment := (jn_payment j)(p \<mapsto> (c, PAY_CAPTURED, a, x))\<rparr>)"
| stray_capture: "jn_payment j p = Some (c, st, a, x) \<Longrightarrow> st \<in> {PAY_FAILED, PAY_CANCELLED} \<Longrightarrow>
    jn_checkout j c = Some cs \<Longrightarrow> cs \<noteq> CO_COMPLETED \<Longrightarrow>
    protocol j (j\<lparr>jn_payment := (jn_payment j)(p \<mapsto> (c, PAY_CAPTURED, a, x))\<rparr>)"
| expire: "jn_checkout j c = Some CO_OPEN \<Longrightarrow> protocol j (j\<lparr>jn_checkout := (jn_checkout j)(c \<mapsto> CO_EXPIRED)\<rparr>)"

text \<open>What the protocol keeps: its attempts, its checkouts and its orders agree.\<close>

definition pending_at :: "journey \<Rightarrow> uuid \<Rightarrow> uuid \<Rightarrow> bool" where
  "pending_at j p c \<longleftrightarrow> (\<exists>a x. jn_payment j p = Some (c, PAY_PENDING, a, x))"

definition attempts_ok :: "journey \<Rightarrow> bool" where
  "attempts_ok j \<longleftrightarrow> (\<forall>c p q. pending_at j p c \<longrightarrow> pending_at j q c \<longrightarrow> p = q) \<and>
     (\<forall>c. jn_checkout j c = Some CO_PAYMENT_PENDING \<longleftrightarrow> (\<exists>p. pending_at j p c))"

definition orders_ok :: "journey \<Rightarrow> bool" where
  "orders_ok j \<longleftrightarrow> (\<forall>c. jn_order j c \<noteq> None \<longleftrightarrow> jn_checkout j c = Some CO_COMPLETED) \<and>
     (\<forall>c d i m k n. jn_order j c = Some (i, m) \<longrightarrow> jn_order j d = Some (k, n) \<longrightarrow> i = k \<or> m = n \<longrightarrow> c = d)"

lemma alter_apply: "alter sel g m k = (case m k of None \<Rightarrow> None | Some v \<Rightarrow> Some (if sel k v then g v else v))"
  by (simp add: alter_def split: option.split)

lemma settle_apply: "settle c p m k = (case m k of None \<Rightarrow> None
   | Some (d, st, a, x) \<Rightarrow> Some (d, if k = p then PAY_CAPTURED
       else if d = c \<and> st = PAY_PENDING then PAY_CANCELLED else st, a, x))"
  by (auto simp: settle_def alter_apply is_pending_of_def split: option.split)

lemma pending_settle:
  "pending_at (j\<lparr>jn_checkout := cs, jn_payment := settle c p (jn_payment j), jn_order := os\<rparr>) q d \<longleftrightarrow>
   pending_at j q d \<and> q \<noteq> p \<and> d \<noteq> c"
  by (auto simp: pending_at_def settle_apply split: option.splits prod.splits if_splits)

lemma pending_other_payment [simp]:
  "pending_at (j\<lparr>jn_checkout := cs\<rparr>) q d = pending_at j q d"
  "pending_at (j\<lparr>jn_checkout := cs, jn_payment := m\<rparr>) q d = pending_at (j\<lparr>jn_payment := m\<rparr>) q d"
  "pending_at (j\<lparr>jn_payment := (jn_payment j)(p \<mapsto> (c, st, a, x))\<rparr>) q d =
     (if q = p then d = c \<and> st = PAY_PENDING else pending_at j q d)"
  by (auto simp: pending_at_def)

lemma attempts_paying: "attempts_ok j \<Longrightarrow> pending_at j p c \<Longrightarrow> jn_checkout j c = Some CO_PAYMENT_PENDING"
  by (auto simp: attempts_ok_def)

lemma attempts_unique: "attempts_ok j \<Longrightarrow> pending_at j p c \<Longrightarrow> pending_at j q c \<Longrightarrow> p = q"
  by (auto simp: attempts_ok_def)

lemma pendingI: "jn_payment j p = Some (c, PAY_PENDING, a, x) \<Longrightarrow> pending_at j p c"
  by (auto simp: pending_at_def)

lemma pending_checkout: "pending_at j p c \<Longrightarrow> jn_payment j p = Some (d, st, a, x) \<Longrightarrow> c = d \<and> st = PAY_PENDING"
  by (auto simp: pending_at_def)

text \<open>A step that clears the attempts of one checkout.\<close>

lemma attempts_clear:
  assumes "attempts_ok j" "\<And>q d. pending_at j' q d \<longleftrightarrow> pending_at j q d \<and> d \<noteq> c"
    and "\<And>d. d \<noteq> c \<Longrightarrow> jn_checkout j' d = jn_checkout j d" "jn_checkout j' c \<noteq> Some CO_PAYMENT_PENDING"
  shows "attempts_ok j'"
proof -
  have "(jn_checkout j' d = Some CO_PAYMENT_PENDING) = (\<exists>p. pending_at j' p d)" for d
    using assms by (cases "d = c") (auto simp: attempts_ok_def)
  then show ?thesis using assms(1,2) by (auto simp: attempts_ok_def)
qed

lemma protocol_attempts:
  assumes "protocol j j'" "attempts_ok j"
  shows "attempts_ok j'"
  using assms(1)
proof (cases rule: protocol.cases)
  case (open_checkout c)
  have "\<not> pending_at j p c" for p using attempts_paying[OF assms(2), of p c] open_checkout by auto
  then show ?thesis using assms(2) open_checkout by (auto simp: attempts_ok_def)
next
  case (begin_attempt c p a x)
  have none: "\<not> pending_at j q c" for q
    using begin_attempt(4) by (auto simp: pending_at_def is_pending_of_def)
  have "\<not> pending_at j p d" for d using begin_attempt(3) by (auto simp: pending_at_def)
  with none show ?thesis using assms(2) unfolding begin_attempt(1) attempts_ok_def by auto metis
next
  case (end_attempt p c a x st)
  have p: "pending_at j p c" using end_attempt(2) by (rule pendingI)
  have "pending_at j' q d \<longleftrightarrow> pending_at j q d \<and> d \<noteq> c" for q d
  proof (cases "q = p")
    case True
    then have "\<not> pending_at j' q d" using end_attempt(4) by (auto simp: end_attempt(1))
    moreover have "pending_at j q d \<Longrightarrow> d = c" using pending_checkout[OF _ end_attempt(2)] True by blast
    ultimately show ?thesis by blast
  next
    case False
    then have "pending_at j' q d = pending_at j q d" by (simp add: end_attempt(1))
    moreover have "\<not> pending_at j q c" using attempts_unique[OF assms(2) p] False by blast
    ultimately show ?thesis by blast
  qed
  then show ?thesis by (rule attempts_clear[OF assms(2)]) (simp_all add: end_attempt(1))
next
  case (complete p c st a x cs oid n)
  have "pending_at j' q d \<longleftrightarrow> pending_at j q d \<and> d \<noteq> c" for q d
    using pending_checkout[OF _ complete(2), of d] unfolding complete(1) pending_settle by auto
  then show ?thesis by (rule attempts_clear[OF assms(2)]) (simp_all add: complete(1))
next
  case (extra_capture p c st a x)
  have "\<not> pending_at j p d" for d
    using attempts_paying[OF assms(2), of p d] pending_checkout[OF _ extra_capture(2), of d] extra_capture(4) by auto
  then show ?thesis using assms(2) unfolding extra_capture(1) attempts_ok_def by auto metis
next
  case (stray_capture p c st a x cs)
  have "\<not> pending_at j p d" for d using pending_checkout[OF _ stray_capture(2), of d] stray_capture(3) by auto
  then show ?thesis using assms(2) unfolding stray_capture(1) attempts_ok_def by auto metis
next
  case (expire c)
  have "\<not> pending_at j p c" for p using attempts_paying[OF assms(2), of p c] expire by auto
  then show ?thesis using assms(2) expire by (auto simp: attempts_ok_def)
qed

lemma protocol_orders:
  assumes "protocol j j'" "orders_ok j"
  shows "orders_ok j'"
  using assms(1)
proof (cases rule: protocol.cases)
  case (complete p c st a x cs oid n)
  have new: "i \<noteq> oid \<and> m \<noteq> n" if "jn_order j d = Some (i, m)" for d i m
    using complete(7) that by fastforce
  have one: "\<forall>d. jn_order j' d \<noteq> None \<longleftrightarrow> jn_checkout j' d = Some CO_COMPLETED"
    using assms(2) unfolding complete(1) orders_ok_def by auto
  have two: "d = e" if "jn_order j' d = Some (i, m)" "jn_order j' e = Some (k, l)" "i = k \<or> m = l" for d e i m k l
    using that new assms(2) unfolding complete(1) orders_ok_def by (auto split: if_splits)
  show ?thesis unfolding orders_ok_def using one two by blast
qed (use assms(2) in \<open>auto simp: orders_ok_def\<close>)

text \<open>A captured payment stays captured, and an order stays the order of its checkout.\<close>

lemma protocol_captured:
  assumes "protocol j j'" "jn_payment j p = Some (c, PAY_CAPTURED, a, x)"
  shows "jn_payment j' p = Some (c, PAY_CAPTURED, a, x)"
  using assms by (cases rule: protocol.cases) (auto simp: settle_apply)

lemma protocol_order:
  assumes "protocol j j'" "jn_order j c = Some v"
  shows "jn_order j' c = Some v"
  using assms by (cases rule: protocol.cases) auto

subsection \<open>What the operations do to checkouts, payments and orders\<close>

definition mark_ended :: "payment_status \<Rightarrow> string \<Rightarrow> string option \<Rightarrow> payment_row \<Rightarrow> payment_row" where
  "mark_ended st code message p = p\<lparr>pm_status := st, pm_failureCode := Some code, pm_failureMessage := message\<rparr>"

lemma set_checkouts_fields [simp]:
  "sh_checkouts (set_checkouts sel f s) = update_rows sel f (sh_checkouts s)"
  "sh_payments (set_checkouts sel f s) = sh_payments s" "sh_orders (set_checkouts sel f s) = sh_orders s"
  "sh_stock (set_checkouts sel f s) = sh_stock s"
  "sh_nextOrderNumber (set_checkouts sel f s) = sh_nextOrderNumber s"
  "sh_discounts (set_checkouts sel f s) = sh_discounts s"
  "sh_redemptions (set_checkouts sel f s) = sh_redemptions s"
  "sh_connections (set_checkouts sel f s) = sh_connections s"
  by (simp_all add: set_checkouts_def)

lemma set_payments_fields [simp]:
  "sh_payments (set_payments sel f s) = update_rows sel f (sh_payments s)"
  "sh_checkouts (set_payments sel f s) = sh_checkouts s" "sh_orders (set_payments sel f s) = sh_orders s"
  "sh_stock (set_payments sel f s) = sh_stock s"
  "sh_nextOrderNumber (set_payments sel f s) = sh_nextOrderNumber s"
  "sh_discounts (set_payments sel f s) = sh_discounts s"
  "sh_redemptions (set_payments sel f s) = sh_redemptions s"
  by (simp_all add: set_payments_def)

lemma frameD:
  assumes "frame s t"
  shows "sh_checkouts t = sh_checkouts s" "sh_payments t = sh_payments s"
    "ot_orders (sh_orders t) = ot_orders (sh_orders s)" "sh_nextOrderNumber t = sh_nextOrderNumber s"
    "sd_next (sh_stock s) \<le> sd_next (sh_stock t)"
  using assms by (simp_all add: frame_def)

lemma endAttempt_effect:
  assumes "endAttempt c p st code message s = Inr t" "pm_status p = PAY_PENDING"
  shows "st \<noteq> PAY_PENDING"
    "sh_payments t = update_rows (\<lambda>q. pm_id q = pm_id p) (mark_ended st code message) (sh_payments s)"
    "sh_checkouts t = (if ch_status c = CO_PAYMENT_PENDING
       then update_rows (\<lambda>d. ch_id d = ch_id c) (\<lambda>d. d\<lparr>ch_status := CO_OPEN\<rparr>) (sh_checkouts s) else sh_checkouts s)"
    "ot_orders (sh_orders t) = ot_orders (sh_orders s)" "sh_nextOrderNumber t = sh_nextOrderNumber s"
    "sd_next (sh_stock s) \<le> sd_next (sh_stock t)"
proof -
  let ?s1 = "set_payments (\<lambda>q. pm_id q = pm_id p) (mark_ended st code message) s"
  have can: "canPaymentTransition PAY_PENDING st"
    using assms by (auto simp: endAttempt_def assertPaymentTransition_def bindR_eq_Inr liftE_Inr split: if_splits)
  have "if ch_status c \<noteq> CO_PAYMENT_PENDING then t = ?s1
    else \<exists>u n. on_stock (releaseCheckoutStock (ch_id c)) ?s1 = Inr (u, n) \<and>
      t = set_checkouts (\<lambda>d. ch_id d = ch_id c) (\<lambda>d. d\<lparr>ch_status := CO_OPEN\<rparr>) (releaseDiscountUse (ch_id c) u)"
    using assms unfolding endAttempt_def mark_ended_def Let_def
    by (auto simp: bindR_eq_Inr liftE_Inr split: if_splits)
  moreover have "frame ?s1 (releaseDiscountUse (ch_id c) u)"
    if "on_stock (releaseCheckoutStock (ch_id c)) ?s1 = Inr (u, n)" for u n
    using frame_trans[OF frame_on_stock[OF that next_releaseCheckoutStock] frame_releaseDiscountUse] .
  ultimately have "sh_payments t = sh_payments ?s1 \<and> sh_checkouts t = (if ch_status c = CO_PAYMENT_PENDING
       then update_rows (\<lambda>d. ch_id d = ch_id c) (\<lambda>d. d\<lparr>ch_status := CO_OPEN\<rparr>) (sh_checkouts s) else sh_checkouts s) \<and>
    ot_orders (sh_orders t) = ot_orders (sh_orders s) \<and> sh_nextOrderNumber t = sh_nextOrderNumber s \<and>
    sd_next (sh_stock s) \<le> sd_next (sh_stock t)"
    unfolding frame_def by (cases "ch_status c = CO_PAYMENT_PENDING") auto
  with can show "st \<noteq> PAY_PENDING"
    "sh_payments t = update_rows (\<lambda>q. pm_id q = pm_id p) (mark_ended st code message) (sh_payments s)"
    "sh_checkouts t = (if ch_status c = CO_PAYMENT_PENDING
       then update_rows (\<lambda>d. ch_id d = ch_id c) (\<lambda>d. d\<lparr>ch_status := CO_OPEN\<rparr>) (sh_checkouts s) else sh_checkouts s)"
    "ot_orders (sh_orders t) = ot_orders (sh_orders s)" "sh_nextOrderNumber t = sh_nextOrderNumber s"
    "sd_next (sh_stock s) \<le> sd_next (sh_stock t)"
    by (auto simp: canPaymentTransition_def)
qed

lemma place_order_steps:
  assumes "place_order env c p q email shortage over s = Inr (t, r)"
  obtains n s1 s2 cust test s3 oid s4 s5 m s6 s7 db s9 where
    "next_order_number s = Inr (s1, n)" "upsert_customer email (ch_shippingAddress c) s1 = (s2, cust)"
    "fresh s2 = (s3, oid)" "insert_order (order_of env c q oid n cust shortage test) s3 = Inr s4"
    "foldR (place_line oid) (s4, []) (q_lines q) = Inr (s5, m)" "place_shipping oid (q_shipping q) s5 = Inr s6"
    "place_discount oid cust (ch_id c) (q_discount q) s6 = Inr s7"
    "convertCheckoutStock (ch_id c) oid (map_of m) (sh_stock (place_addresses oid c s7)) = Inr db"
    "link_order c p oid cust ((place_addresses oid c s7)\<lparr>sh_stock := db\<rparr>) = Inr s9"
    "t = announce env c p oid shortage over s9" "r = COMPLETED_ORDER oid n True"
proof -
  from assms obtain s1 n where n: "next_order_number s = Inr (s1, n)"
    by (auto simp: place_order_def bindR_eq_Inr)
  obtain s2 cust where c: "upsert_customer email (ch_shippingAddress c) s1 = (s2, cust)" by (cases "upsert_customer email (ch_shippingAddress c) s1")
  obtain s3 oid where f: "fresh s2 = (s3, oid)" by (cases "fresh s2")
  define test where "test = (case find (\<lambda>c. cn_id c = pm_connectionId p) (sh_connections s2) of
           None \<Rightarrow> False | Some c \<Rightarrow> cn_test c)"
  from assms n c f obtain s4 s5 m s6 s7 db s9 where
    "insert_order (order_of env c q oid n cust shortage test) s3 = Inr s4"
    "foldR (place_line oid) (s4, []) (q_lines q) = Inr (s5, m)" "place_shipping oid (q_shipping q) s5 = Inr s6"
    "place_discount oid cust (ch_id c) (q_discount q) s6 = Inr s7"
    "convertCheckoutStock (ch_id c) oid (map_of m) (sh_stock (place_addresses oid c s7)) = Inr db"
    "link_order c p oid cust ((place_addresses oid c s7)\<lparr>sh_stock := db\<rparr>) = Inr s9"
    "t = announce env c p oid shortage over s9" "r = COMPLETED_ORDER oid n True"
    unfolding place_order_def test_def by (auto simp: bindR_eq_Inr liftE_Inr Let_def)
  with n c f show ?thesis by (rule that)
qed

lemma insert_order_Inr:
  assumes "insert_order r s = Inr t"
  shows "t = s\<lparr>sh_orders := (sh_orders s)\<lparr>ot_orders := ot_orders (sh_orders s) @ [r]\<rparr>\<rparr>" "order_checks r"
  using assms by (auto simp: insert_order_def Let_def split: if_splits)

lemma link_order_effect:
  assumes "link_order c p oid cust s = Inr t"
  shows "sh_payments t = update_rows (\<lambda>q. pm_id q = pm_id p) (\<lambda>q. q\<lparr>pm_orderId := Some oid\<rparr>) (sh_payments s)"
    "sh_checkouts t = update_rows (\<lambda>d. ch_id d = ch_id c) (\<lambda>d. d\<lparr>ch_status := CO_COMPLETED,
       ch_completedOrderId := Some oid, ch_customerId := Some cust\<rparr>) (sh_checkouts s)"
    "sh_orders t = sh_orders s" "sh_nextOrderNumber t = sh_nextOrderNumber s" "sh_stock t = sh_stock s"
    "sh_discounts t = sh_discounts s" "sh_redemptions t = sh_redemptions s"
  using assms unfolding link_order_def Let_def by (auto simp: bindR_eq_Inr liftE_Inr)

text \<open>The order a capture creates, and all else it does to checkouts, payments and orders.\<close>

lemma place_order_effect:
  assumes "place_order env c p q email shortage over s = Inr (t, r)"
  obtains oid cust test where "r = COMPLETED_ORDER oid (sh_nextOrderNumber s) True"
    "ot_orders (sh_orders t) = ot_orders (sh_orders s) @
       [order_of env c q oid (sh_nextOrderNumber s) cust shortage test]"
    "order_checks (order_of env c q oid (sh_nextOrderNumber s) cust shortage test)"
    "sh_payments t = update_rows (\<lambda>x. pm_id x = pm_id p) (\<lambda>x. x\<lparr>pm_orderId := Some oid\<rparr>) (sh_payments s)"
    "sh_checkouts t = update_rows (\<lambda>d. ch_id d = ch_id c) (\<lambda>d. d\<lparr>ch_status := CO_COMPLETED,
       ch_completedOrderId := Some oid, ch_customerId := Some cust\<rparr>) (sh_checkouts s)"
    "sh_nextOrderNumber t = sh_nextOrderNumber s + 1" "sd_next (sh_stock s) \<le> oid" "oid < sd_next (sh_stock t)"
  using assms
proof (cases rule: place_order_steps)
  case (1 n s1 s2 cust test s3 oid s4 s5 m s6 s7 db s9)
  have n: "n = sh_nextOrderNumber s" "s1 = s\<lparr>sh_nextOrderNumber := n + 1\<rparr>"
    using 1(1) by (auto simp: next_order_number_def Let_def split: if_splits)
  note f2 = frame_upsert_customer[OF 1(2)] and f3 = frame_fresh[OF 1(3)]
  note f5 = frame_place_lines[OF 1(5)] and f6 = frame_place_shipping[OF 1(6)]
    and f7 = frame_place_discount[OF 1(7)]
  let ?s8 = "place_addresses oid c s7"
  have f8: "frame s4 (?s8\<lparr>sh_stock := db\<rparr>)"
  proof -
    have "frame s4 ?s8" using frame_trans[OF frame_trans[OF f5 f6] frame_trans[OF f7 frame_place_addresses]] .
    moreover have "frame ?s8 (?s8\<lparr>sh_stock := db\<rparr>)"
      by (simp add: frame_stock next_convertCheckoutStock[OF 1(8)])
    ultimately show ?thesis by (rule frame_trans)
  qed
  note o4 = insert_order_Inr[OF 1(4)] and l = link_order_effect[OF 1(9)]
  note fs = frameD[OF f2] frameD[OF conjunct1[OF f3]] frameD[OF f8]
  show ?thesis
  proof (rule that[of oid cust test])
    show "r = COMPLETED_ORDER oid (sh_nextOrderNumber s) True" using 1(11) n by simp
    show "ot_orders (sh_orders t) = ot_orders (sh_orders s) @
       [order_of env c q oid (sh_nextOrderNumber s) cust shortage test]"
      using fs n o4(1) l(3) by (simp add: 1(10))
    show "order_checks (order_of env c q oid (sh_nextOrderNumber s) cust shortage test)"
      using o4(2) n(1) by simp
    show "sh_payments t = update_rows (\<lambda>x. pm_id x = pm_id p) (\<lambda>x. x\<lparr>pm_orderId := Some oid\<rparr>) (sh_payments s)"
      using fs n(2) o4(1) l(1) by (simp add: 1(10))
    show "sh_checkouts t = update_rows (\<lambda>d. ch_id d = ch_id c) (\<lambda>d. d\<lparr>ch_status := CO_COMPLETED,
       ch_completedOrderId := Some oid, ch_customerId := Some cust\<rparr>) (sh_checkouts s)"
      using fs n(2) o4(1) l(2) by (simp add: 1(10))
    show "sh_nextOrderNumber t = sh_nextOrderNumber s + 1" using fs n o4(1) l(4) by (simp add: 1(10))
    show "sd_next (sh_stock s) \<le> oid" using fs f3 n(2) by simp
    show "oid < sd_next (sh_stock t)" using fs f3 o4(1) l(5) by (simp add: 1(10))
  qed
qed

subsection \<open>The abstraction\<close>

definition view_rows :: "('r \<Rightarrow> 'k) \<Rightarrow> ('r \<Rightarrow> 'v) \<Rightarrow> 'r list \<Rightarrow> ('k \<rightharpoonup> 'v)" where
  "view_rows key val rows = map_of (map (\<lambda>r. (key r, val r)) rows)"

definition attempt_of :: "payment_row \<Rightarrow> attempt" where
  "attempt_of p = (pm_checkoutId p, pm_status p, pm_amount p, pm_currency p)"

definition abs_shop :: "shop \<Rightarrow> journey" where
  "abs_shop s = \<lparr>jn_checkout = view_rows ch_id ch_status (sh_checkouts s),
     jn_payment = view_rows pm_id attempt_of (sh_payments s),
     jn_order = view_rows or_checkoutId (\<lambda>r. (or_id r, or_number r)) (ot_orders (sh_orders s))\<rparr>"

lemma view_rows_in: "distinct (map key rows) \<Longrightarrow> r \<in> set rows \<Longrightarrow> view_rows key val rows (key r) = Some (val r)"
  by (auto simp: view_rows_def intro!: map_of_is_SomeI simp: comp_def)

lemma view_rows_Some: "view_rows key val rows k = Some v \<Longrightarrow> \<exists>r \<in> set rows. key r = k \<and> val r = v"
  unfolding view_rows_def by (drule map_of_SomeD) auto

lemma view_rows_None: "view_rows key val rows k = None \<longleftrightarrow> k \<notin> key ` set rows"
  by (auto simp: view_rows_def map_of_eq_None_iff image_image)

lemma view_rows_snoc:
  assumes "key r \<notin> key ` set rows"
  shows "view_rows key val (rows @ [r]) = (view_rows key val rows)(key r \<mapsto> val r)"
proof
  fix k show "view_rows key val (rows @ [r]) k = ((view_rows key val rows)(key r \<mapsto> val r)) k"
    using assms by (induction rows) (auto simp: view_rows_def)
qed

lemma view_rows_update:
  assumes "\<And>r. key (f r) = key r" "\<And>r. r \<in> set rows \<Longrightarrow> sel r = S (key r) (val r)"
    and "\<And>r. r \<in> set rows \<Longrightarrow> sel r \<Longrightarrow> val (f r) = g (val r)"
  shows "view_rows key val (update_rows sel f rows) = alter S g (view_rows key val rows)"
proof
  fix k show "view_rows key val (update_rows sel f rows) k = alter S g (view_rows key val rows) k"
    using assms(2,3) by (induction rows) (auto simp: view_rows_def update_rows_def alter_apply assms(1))
qed

lemma view_rows_keep:
  assumes "\<And>r. key (f r) = key r" "\<And>r. r \<in> set rows \<Longrightarrow> sel r \<Longrightarrow> val (f r) = val r"
  shows "view_rows key val (update_rows sel f rows) = view_rows key val rows"
proof
  fix k show "view_rows key val (update_rows sel f rows) k = view_rows key val rows k"
    using assms(2) by (induction rows) (auto simp: view_rows_def update_rows_def assms(1))
qed

lemma alter_one: "m k = Some v \<Longrightarrow> alter (\<lambda>k' _. k' = k) g m = m(k \<mapsto> g v)"
  by (rule ext) (simp add: alter_apply split: option.split)

lemma view_rows_one:
  assumes "view_rows key val rows k = Some v" "\<And>r. key (f r) = key r"
    and "\<And>r. r \<in> set rows \<Longrightarrow> key r = k \<Longrightarrow> val (f r) = g (val r)"
  shows "view_rows key val (update_rows (\<lambda>r. key r = k) f rows) = (view_rows key val rows)(k \<mapsto> g v)"
  using assms view_rows_update[of key f rows "\<lambda>r. key r = k" "\<lambda>k' _. k' = k" val g]
    alter_one[where m = "view_rows key val rows" and g = g, OF assms(1)] by simp

lemma abs_shop_simps:
  "jn_checkout (abs_shop s) = view_rows ch_id ch_status (sh_checkouts s)"
  "jn_payment (abs_shop s) = view_rows pm_id attempt_of (sh_payments s)"
  "jn_order (abs_shop s) = view_rows or_checkoutId (\<lambda>r. (or_id r, or_number r)) (ot_orders (sh_orders s))"
  by (simp_all add: abs_shop_def)

lemma abs_shop_frame: "frame s t \<Longrightarrow> abs_shop t = abs_shop s"
  by (simp add: abs_shop_def frame_def)

subsection \<open>The invariant of the tables\<close>

text \<open>The attempt in flight is for exactly the stored quote, and the checkout has an email.\<close>

definition pays_quote :: "checkout_row \<Rightarrow> payment_row \<Rightarrow> bool" where
  "pays_quote c p \<longleftrightarrow> (case ch_quote c of None \<Rightarrow> False
     | Some q \<Rightarrow> q_total q = pm_amount p \<and> q_currency q = pm_currency p) \<and> \<not> no_text (ch_email c)"

definition keys_ok :: "shop \<Rightarrow> bool" where
  "keys_ok s \<longleftrightarrow> distinct (map ch_id (sh_checkouts s)) \<and> distinct (map pm_id (sh_payments s)) \<and>
     distinct (map or_checkoutId (ot_orders (sh_orders s))) \<and>
     (\<forall>c \<in> set (sh_checkouts s). ch_id c < sd_next (sh_stock s)) \<and>
     (\<forall>p \<in> set (sh_payments s). pm_id p < sd_next (sh_stock s)) \<and>
     (\<forall>r \<in> set (ot_orders (sh_orders s)). or_id r < sd_next (sh_stock s) \<and> or_number r < sh_nextOrderNumber s)"

definition links_ok :: "shop \<Rightarrow> bool" where
  "links_ok s \<longleftrightarrow>
     (\<forall>c \<in> set (sh_checkouts s). ch_completedOrderId c = map_option fst (jn_order (abs_shop s) (ch_id c))) \<and>
     (\<forall>c \<in> set (sh_checkouts s). \<forall>p \<in> set (sh_payments s).
        pm_status p = PAY_PENDING \<and> pm_checkoutId p = ch_id c \<longrightarrow> pays_quote c p)"

text \<open>A checkout that can still be priced or paid keeps its quote and the quote's hash together.\<close>

definition hashed :: "(price_quote \<Rightarrow> string) \<Rightarrow> checkout_row \<Rightarrow> bool" where
  "hashed h c \<longleftrightarrow> (ch_status c = CO_OPEN \<or> ch_status c = CO_PAYMENT_PENDING \<longrightarrow>
     ch_pricingHash c = map_option h (ch_quote c))"

definition hashes_ok :: "(price_quote \<Rightarrow> string) \<Rightarrow> shop \<Rightarrow> bool" where
  "hashes_ok h s \<longleftrightarrow> (\<forall>c \<in> set (sh_checkouts s). hashed h c)"

definition service_ok :: "shop \<Rightarrow> bool" where
  "service_ok s \<longleftrightarrow> keys_ok s \<and> links_ok s \<and> attempts_ok (abs_shop s) \<and> orders_ok (abs_shop s)"

definition moves_on :: "shop \<Rightarrow> shop \<Rightarrow> bool" where
  "moves_on s t \<longleftrightarrow> abs_shop t = abs_shop s \<or> protocol (abs_shop s) (abs_shop t)"

lemma service_okI:
  assumes "service_ok s" "moves_on s t" "keys_ok t" "links_ok t"
  shows "service_ok t"
  using assms protocol_attempts protocol_orders by (auto simp: service_ok_def moves_on_def)

lemma service_okD:
  assumes "service_ok s"
  shows "keys_ok s" "links_ok s" "attempts_ok (abs_shop s)" "orders_ok (abs_shop s)"
  using assms by (simp_all add: service_ok_def)

lemma keysD:
  assumes "keys_ok s"
  shows "distinct (map ch_id (sh_checkouts s))" "distinct (map pm_id (sh_payments s))"
    "distinct (map or_checkoutId (ot_orders (sh_orders s)))"
    "\<And>c. c \<in> set (sh_checkouts s) \<Longrightarrow> ch_id c < sd_next (sh_stock s)"
    "\<And>p. p \<in> set (sh_payments s) \<Longrightarrow> pm_id p < sd_next (sh_stock s)"
    "\<And>r. r \<in> set (ot_orders (sh_orders s)) \<Longrightarrow> or_id r < sd_next (sh_stock s)"
    "\<And>r. r \<in> set (ot_orders (sh_orders s)) \<Longrightarrow> or_number r < sh_nextOrderNumber s"
  using assms by (simp_all add: keys_ok_def)

lemma linksD:
  assumes "links_ok s" "c \<in> set (sh_checkouts s)"
  shows "ch_completedOrderId c = map_option fst (jn_order (abs_shop s) (ch_id c))"
    "\<And>p. p \<in> set (sh_payments s) \<Longrightarrow> pm_status p = PAY_PENDING \<Longrightarrow> pm_checkoutId p = ch_id c \<Longrightarrow> pays_quote c p"
  using assms by (auto simp: links_ok_def)

lemma abs_checkout: "keys_ok s \<Longrightarrow> c \<in> set (sh_checkouts s) \<Longrightarrow> jn_checkout (abs_shop s) (ch_id c) = Some (ch_status c)"
  by (simp add: abs_shop_simps view_rows_in keys_ok_def)

lemma abs_payment: "keys_ok s \<Longrightarrow> p \<in> set (sh_payments s) \<Longrightarrow>
    jn_payment (abs_shop s) (pm_id p) = Some (pm_checkoutId p, pm_status p, pm_amount p, pm_currency p)"
  using view_rows_in[of pm_id "sh_payments s" p attempt_of]
  by (simp add: abs_shop_simps attempt_of_def keys_ok_def)

lemma abs_order: "keys_ok s \<Longrightarrow> r \<in> set (ot_orders (sh_orders s)) \<Longrightarrow>
    jn_order (abs_shop s) (or_checkoutId r) = Some (or_id r, or_number r)"
  using view_rows_in[of or_checkoutId "ot_orders (sh_orders s)" r "\<lambda>r. (or_id r, or_number r)"]
  by (simp add: abs_shop_simps keys_ok_def)

lemma order_row: "jn_order (abs_shop s) c = Some (i, n) \<Longrightarrow>
    \<exists>r \<in> set (ot_orders (sh_orders s)). or_checkoutId r = c \<and> or_id r = i \<and> or_number r = n"
  by (auto simp: abs_shop_simps dest: view_rows_Some)

lemma loadCheckout_Some: "loadCheckout i s = Some c \<Longrightarrow> c \<in> set (sh_checkouts s) \<and> ch_id c = i"
  unfolding loadCheckout_def by (auto dest: find_Some_iff2)

lemma loadByToken_Some: "loadByToken h s = Some c \<Longrightarrow> c \<in> set (sh_checkouts s) \<and> ch_tokenHash c = h"
  unfolding loadByToken_def by (auto dest: find_Some_iff2)

lemma lockPaymentByReference_Some: "lockPaymentByReference c pr ref s = Some p \<Longrightarrow>
    p \<in> set (sh_payments s) \<and> pm_checkoutId p = c \<and> pm_provider p = pr \<and> pm_providerPaymentId p = Some ref"
  unfolding lockPaymentByReference_def by (auto dest: find_Some_iff2)

lemma lockPendingPayment_Some: "lockPendingPayment c s = Some p \<Longrightarrow>
    p \<in> set (sh_payments s) \<and> pm_checkoutId p = c \<and> pm_status p = PAY_PENDING"
  unfolding lockPendingPayment_def by (auto dest: find_Some_iff2)

lemma lockPaymentById_Some: "lockPaymentById c i s = Some p \<Longrightarrow>
    p \<in> set (sh_payments s) \<and> pm_checkoutId p = c \<and> pm_id p = i"
  unfolding lockPaymentById_def by (auto dest: find_Some_iff2)

lemma map_key_update: "(\<And>r. key (f r) = key r) \<Longrightarrow> map key (update_rows sel f rows) = map key rows"
  by (simp add: update_rows_def)

lemma in_update_rows: "r \<in> set (update_rows sel f rows) \<longleftrightarrow> (\<exists>q \<in> set rows. r = (if sel q then f q else q))"
  by (auto simp: update_rows_def)

lemma update_rows_cases:
  assumes "r \<in> set (update_rows sel f rows)"
  obtains (same) "r \<in> set rows" "\<not> sel r" | (changed) q where "q \<in> set rows" "sel q" "r = f q"
  using assms by (auto simp: in_update_rows split: if_splits)

lemma row_unique: "distinct (map key rows) \<Longrightarrow> a \<in> set rows \<Longrightarrow> b \<in> set rows \<Longrightarrow> key a = key b \<Longrightarrow> a = b"
  by (auto simp: distinct_map dest: inj_onD)

text \<open>The order of a completed checkout is always found.\<close>

lemma existingOrder_abs:
  assumes "service_ok s" "c \<in> set (sh_checkouts s)"
  shows "existingOrder c s = jn_order (abs_shop s) (ch_id c)"
proof (cases "jn_order (abs_shop s) (ch_id c)")
  case None
  then show ?thesis using linksD(1)[OF service_okD(2)[OF assms(1)] assms(2)] by (simp add: existingOrder_def)
next
  case (Some v)
  obtain i n where v: "v = (i, n)" by (cases v)
  note keys = service_okD(1)[OF assms(1)]
  obtain r where r: "r \<in> set (ot_orders (sh_orders s))" "or_checkoutId r = ch_id c" "or_id r = i" "or_number r = n"
    using order_row[of s "ch_id c" i n] Some v by auto
  have "find (\<lambda>r. or_id r = i \<and> or_checkoutId r = ch_id c) (ot_orders (sh_orders s)) = Some r"
  proof (cases "find (\<lambda>r. or_id r = i \<and> or_checkoutId r = ch_id c) (ot_orders (sh_orders s))")
    case None
    then show ?thesis using r by (auto simp: find_None_iff2)
  next
    case (Some q)
    then have "q \<in> set (ot_orders (sh_orders s))" "or_checkoutId q = ch_id c" by (auto dest: find_Some_iff2)
    then show ?thesis using row_unique[OF keysD(3)[OF keys], of q r] r Some by simp
  qed
  then show ?thesis using linksD(1)[OF service_okD(2)[OF assms(1)] assms(2)] Some v r
    by (simp add: existingOrder_def)
qed

subsection \<open>Each transaction is a step of the protocol\<close>

lemma frame_ok:
  assumes "frame s t" "service_ok s"
  shows "moves_on s t" "service_ok t"
proof -
  note [simp] = abs_shop_frame[OF assms(1)]
  show m: "moves_on s t" by (simp add: moves_on_def)
  have "keys_ok t" "links_ok t" using assms service_okD(1,2)[OF assms(2)]
    by (auto simp: keys_ok_def links_ok_def frame_def intro: order_less_le_trans)
  then show "service_ok t" using assms(2) m by (blast intro: service_okI)
qed

text \<open>Edits of a checkout that is not being paid leave the protocol where it is.\<close>

definition same_but :: "(price_quote \<Rightarrow> string) \<Rightarrow> uuid \<Rightarrow> checkout_row \<Rightarrow> checkout_row \<Rightarrow> bool" where
  "same_but h i a b \<longleftrightarrow> ch_id b = ch_id a \<and> ch_status b = ch_status a \<and>
     ch_completedOrderId b = ch_completedOrderId a \<and> (hashed h a \<longrightarrow> hashed h b) \<and> (ch_id a \<noteq> i \<longrightarrow> b = a)"

definition edits :: "(price_quote \<Rightarrow> string) \<Rightarrow> uuid \<Rightarrow> shop \<Rightarrow> shop \<Rightarrow> bool" where
  "edits h i s t \<longleftrightarrow> list_all2 (same_but h i) (sh_checkouts s) (sh_checkouts t) \<and> sh_payments t = sh_payments s \<and>
     ot_orders (sh_orders t) = ot_orders (sh_orders s) \<and> sh_nextOrderNumber t = sh_nextOrderNumber s \<and>
     sd_next (sh_stock s) \<le> sd_next (sh_stock t)"

lemma edits_refl [simp]: "edits h i s s"
  by (simp add: edits_def list_all2_refl same_but_def)

lemma edits_trans: "edits h i s t \<Longrightarrow> edits h i t u \<Longrightarrow> edits h i s u"
  using list_all2_trans[of "same_but h i" "same_but h i" "same_but h i" "sh_checkouts s" "sh_checkouts t" "sh_checkouts u"]
  by (auto simp: edits_def same_but_def)

lemma edits_frame: "frame s t \<Longrightarrow> edits h i s t"
  by (simp add: edits_def frame_def list_all2_refl same_but_def)

lemma edits_set_checkouts:
  assumes "\<And>c. sel c \<Longrightarrow> ch_id c = i"
    and "\<And>c. ch_id (f c) = ch_id c \<and> ch_status (f c) = ch_status c \<and> ch_completedOrderId (f c) = ch_completedOrderId c \<and>
      (hashed h c \<longrightarrow> hashed h (f c))"
  shows "edits h i s (set_checkouts sel f s)"
  using assms
  by (auto simp: edits_def update_rows_def list_all2_conv_all_nth same_but_def)

lemma edits_rows:
  assumes "edits h i s t" "b \<in> set (sh_checkouts t)"
  shows "\<exists>a \<in> set (sh_checkouts s). same_but h i a b"
  using assms by (fastforce simp: edits_def list_all2_conv_all_nth in_set_conv_nth)

lemma list_all2_map_eq: "list_all2 R xs ys \<Longrightarrow> (\<And>x y. R x y \<Longrightarrow> f y = f x) \<Longrightarrow> map f ys = map f xs"
  by (induction rule: list_all2_induct) auto

lemma edits_abs: "edits h i s t \<Longrightarrow> abs_shop t = abs_shop s"
  using list_all2_map_eq[of "same_but h i" "sh_checkouts s" "sh_checkouts t" "\<lambda>c. (ch_id c, ch_status c)"]
  by (simp add: abs_shop_def edits_def same_but_def view_rows_def)

lemma edits_ok:
  assumes "edits h i s t" "service_ok s" "\<And>c. c \<in> set (sh_checkouts s) \<Longrightarrow> ch_id c = i \<Longrightarrow> ch_status c \<noteq> CO_PAYMENT_PENDING"
  shows "moves_on s t" "service_ok t"
proof -
  note [simp] = edits_abs[OF assms(1)] and ok = service_okD[OF assms(2)]
  show m: "moves_on s t" by (simp add: moves_on_def)
  have ids: "map ch_id (sh_checkouts t) = map ch_id (sh_checkouts s)"
    using assms(1) list_all2_map_eq[of "same_but h i" "sh_checkouts s" "sh_checkouts t" ch_id]
    by (simp add: edits_def same_but_def)
  have "ch_id b < sd_next (sh_stock t)" if b: "b \<in> set (sh_checkouts t)" for b
    using edits_rows[OF assms(1) b] keysD(4)[OF ok(1)] assms(1) by (force simp: edits_def same_but_def)
  then have keys: "keys_ok t" using assms(1) ok(1) ids
    by (auto simp: keys_ok_def edits_def intro: order_less_le_trans)
  have pays: "pays_quote b p" if b: "b \<in> set (sh_checkouts t)" and p: "p \<in> set (sh_payments t)" "pm_status p = PAY_PENDING"
    "pm_checkoutId p = ch_id b" for b p
  proof -
    obtain a where a: "a \<in> set (sh_checkouts s)" "same_but h i a b" using edits_rows[OF assms(1) b] by blast
    have p': "p \<in> set (sh_payments s)" "pm_checkoutId p = ch_id a" using p a(2) assms(1) by (simp_all add: edits_def same_but_def)
    then have "pending_at (abs_shop s) (pm_id p) (ch_id a)"
      using abs_payment[OF ok(1), of p] p(2) by (auto simp: pending_at_def)
    then have "ch_status a = CO_PAYMENT_PENDING"
      using attempts_paying[OF ok(3)] abs_checkout[OF ok(1) a(1)] by fastforce
    then have "b = a" using assms(3)[OF a(1)] a(2) by (auto simp: same_but_def)
    then show ?thesis using linksD(2)[OF ok(2) a(1)] p' p(2) by simp
  qed
  have "ch_completedOrderId b = map_option fst (jn_order (abs_shop s) (ch_id b))" if b: "b \<in> set (sh_checkouts t)" for b
    using edits_rows[OF assms(1) b] linksD(1)[OF ok(2)] by (auto simp: same_but_def)
  then have "links_ok t" using pays by (auto simp: links_ok_def)
  with keys m show "service_ok t" using assms(2) by (blast intro: service_okI)
qed

lemma edits_hashes: "edits h i s t \<Longrightarrow> hashes_ok h s \<Longrightarrow> hashes_ok h t"
  using edits_rows unfolding hashes_ok_def same_but_def by blast

text \<open>Statuses of one checkout and the attempts in flight, in the tables.\<close>

lemma pending_rows:
  assumes "keys_ok s"
  shows "pending_at (abs_shop s) k c \<longleftrightarrow>
    (\<exists>p \<in> set (sh_payments s). pm_id p = k \<and> pm_checkoutId p = c \<and> pm_status p = PAY_PENDING)"
  using abs_payment[OF assms]
  by (auto simp: pending_at_def abs_shop_simps attempt_of_def dest!: view_rows_Some)

lemma pending_paying:
  assumes "service_ok s" "p \<in> set (sh_payments s)" "pm_status p = PAY_PENDING" "c \<in> set (sh_checkouts s)" "ch_id c = pm_checkoutId p"
  shows "ch_status c = CO_PAYMENT_PENDING"
proof -
  note ok = service_okD[OF assms(1)]
  have "pending_at (abs_shop s) (pm_id p) (ch_id c)" using pending_rows[OF ok(1)] assms(2,3,5) by auto
  from attempts_paying[OF ok(3) this] show ?thesis using abs_checkout[OF ok(1) assms(4)] by simp
qed

subsubsection \<open>Ending an attempt\<close>

lemma endAttempt_ok:
  assumes "endAttempt c p st code message s = Inr t" "service_ok s"
    and "c \<in> set (sh_checkouts s)" "p \<in> set (sh_payments s)" "pm_checkoutId p = ch_id c" "st \<noteq> PAY_CAPTURED"
  shows "moves_on s t" "service_ok t"
proof -
  have "moves_on s t \<and> service_ok t"
  proof (cases "pm_status p = PAY_PENDING")
    case False
    then show ?thesis using assms(1,2) by (simp add: endAttempt_def moves_on_def)
  next
    case True
    note ok = service_okD[OF assms(2)] and eff = endAttempt_effect[OF assms(1) True]
    have st: "ch_status c = CO_PAYMENT_PENDING" using pending_paying[OF assms(2,4) True assms(3)] assms(5) by simp
    note ck = abs_checkout[OF ok(1) assms(3)] and pk = abs_payment[OF ok(1) assms(4)]
    have a: "abs_shop t = (abs_shop s)\<lparr>jn_checkout := (jn_checkout (abs_shop s))(ch_id c \<mapsto> CO_OPEN),
      jn_payment := (jn_payment (abs_shop s))(pm_id p \<mapsto> (pm_checkoutId p, st, pm_amount p, pm_currency p))\<rparr>"
    proof -
      have "view_rows ch_id ch_status (sh_checkouts t) = (jn_checkout (abs_shop s))(ch_id c \<mapsto> CO_OPEN)"
        using view_rows_one[where g = "\<lambda>_. CO_OPEN" and f = "\<lambda>d. d\<lparr>ch_status := CO_OPEN\<rparr>", OF ck[unfolded abs_shop_simps]]
        by (simp add: eff(3) st abs_shop_simps)
      moreover have "view_rows pm_id attempt_of (sh_payments t) =
          (jn_payment (abs_shop s))(pm_id p \<mapsto> (pm_checkoutId p, st, pm_amount p, pm_currency p))"
        using view_rows_one[where g = "with_status st" and f = "mark_ended st code message", OF pk[unfolded abs_shop_simps]]
        by (simp add: eff(2) abs_shop_simps mark_ended_def attempt_of_def)
      ultimately show ?thesis using eff(4) by (simp add: abs_shop_def)
    qed
    have "protocol (abs_shop s) (abs_shop t)" unfolding a assms(5)
      by (rule protocol.end_attempt[of _ _ _ "pm_amount p" "pm_currency p"])
        (use pk ck True st assms(5,6) eff(1) in \<open>auto intro: payment_status.exhaust[of st]\<close>)
    then have m: "moves_on s t" by (simp add: moves_on_def)
    have rows: "\<exists>d0 \<in> set (sh_checkouts s). ch_id d = ch_id d0 \<and> ch_completedOrderId d = ch_completedOrderId d0 \<and>
        ch_quote d = ch_quote d0 \<and> ch_email d = ch_email d0" if "d \<in> set (sh_checkouts t)" for d
      using that unfolding eff(3) if_P[OF st]
      by (cases rule: update_rows_cases) (rule bexI[rotated], assumption, simp)+
    have prows: "\<exists>q0 \<in> set (sh_payments s). pm_id q = pm_id q0 \<and> pm_checkoutId q = pm_checkoutId q0 \<and>
        pm_amount q = pm_amount q0 \<and> pm_currency q = pm_currency q0 \<and> (pm_status q = PAY_PENDING \<longrightarrow> q = q0)"
      if "q \<in> set (sh_payments t)" for q
      using that unfolding eff(2)
      by (cases rule: update_rows_cases) (rule bexI[rotated], assumption, use eff(1) in \<open>simp add: mark_ended_def\<close>)+
    have "map ch_id (sh_checkouts t) = map ch_id (sh_checkouts s)" "map pm_id (sh_payments t) = map pm_id (sh_payments s)"
      unfolding eff(2,3) by (auto simp: map_key_update mark_ended_def)
    then have "keys_ok t" using ok(1) eff(4-6) rows prows unfolding keys_ok_def
      by (fastforce intro: order_less_le_trans)
    moreover have "links_ok t" unfolding links_ok_def
    proof (intro conjI ballI impI)
      fix d assume "d \<in> set (sh_checkouts t)"
      then show "ch_completedOrderId d = map_option fst (jn_order (abs_shop t) (ch_id d))"
        using rows linksD(1)[OF ok(2)] a by fastforce
    next
      fix d q assume d: "d \<in> set (sh_checkouts t)" and q: "q \<in> set (sh_payments t)"
        "pm_status q = PAY_PENDING \<and> pm_checkoutId q = ch_id d"
      obtain d0 where d0: "d0 \<in> set (sh_checkouts s)" "ch_id d = ch_id d0" "ch_quote d = ch_quote d0" "ch_email d = ch_email d0"
        using rows[OF d] by blast
      have "q \<in> set (sh_payments s)" using prows[OF q(1)] q(2) by auto
      then have "pays_quote d0 q" using linksD(2)[OF ok(2) d0(1)] q(2) d0(2) by simp
      then show "pays_quote d q" using d0 by (simp add: pays_quote_def)
    qed
    ultimately show ?thesis using assms(2) m by (blast intro: service_okI)
  qed
  then show "moves_on s t" "service_ok t" by blast+
qed

subsubsection \<open>Capturing\<close>

lemma captured_status:
  "canPaymentTransition st PAY_CAPTURED \<longleftrightarrow> st \<noteq> PAY_CAPTURED"
  by (cases st) (auto simp: canPaymentTransition_def)

lemma completeCheckout_steps:
  assumes "completeCheckout env c p s = Inr (t, r)"
  obtains (extra) oid n where "ch_status c = CO_COMPLETED" "existingOrder c s = Some (oid, n)"
      "r = COMPLETED_ORDER oid n False" "frame (set_payments (\<lambda>q. pm_id q = pm_id p) (\<lambda>q. q\<lparr>pm_orderId := Some oid\<rparr>) s) t"
  | (lost) "ch_status c = CO_COMPLETED" "existingOrder c s = None" "t = s" "r = IGNORED ''no_order''"
  | (stray) "ch_status c \<noteq> CO_COMPLETED" "\<not> pays_quote c p" "t = s" "r = IGNORED ''quote_mismatch''"
  | (placed) q email s1 shortage s2 over where "ch_status c \<noteq> CO_COMPLETED" "pays_quote c p" "ch_quote c = Some q"
      "ch_email c = Some email" "claim_stock env c q s = Inr (s1, shortage)"
      "claim_discount c (q_discount q) (supersede (ch_id c) (pm_id p) s1) = Inr (s2, over)"
      "place_order env c p q email shortage over s2 = Inr (t, r)"
proof (cases "ch_status c = CO_COMPLETED")
  case True
  show ?thesis
  proof (cases "existingOrder c s")
    case None
    show ?thesis by (rule lost) (use assms True None in \<open>simp_all add: completeCheckout_def\<close>)
  next
    case (Some v)
    obtain oid n where v: "v = (oid, n)" by (cases v)
    show ?thesis by (rule extra[of oid n]) (use assms True Some v in \<open>auto simp: completeCheckout_def frame_def\<close>)
  qed
next
  case False
  show ?thesis
  proof (cases "pays_quote c p")
    case True
    then obtain q email where q: "ch_quote c = Some q" "ch_email c = Some email" "email \<noteq> []"
      "q_total q = pm_amount p" "q_currency q = pm_currency p"
      by (cases "ch_quote c"; cases "ch_email c") (auto simp: pays_quote_def no_text_def)
    have "completeCheckout env c p s = bindR (claim_stock env c q s) (\<lambda>(s1, shortage).
          bindR (claim_discount c (q_discount q) (supersede (ch_id c) (pm_id p) s1))
            (\<lambda>(s2, overLimit). place_order env c p q email shortage overLimit s2))"
      using False q by (simp add: completeCheckout_def)
    from assms[unfolded this bindR_eq_Inr split_paired_Ex case_prod_conv]
    obtain s1 shortage s2 over where "claim_stock env c q s = Inr (s1, shortage)"
      "claim_discount c (q_discount q) (supersede (ch_id c) (pm_id p) s1) = Inr (s2, over)"
      "place_order env c p q email shortage over s2 = Inr (t, r)"
      by (elim exE conjE)
    then show ?thesis by (rule placed[OF False True q(1,2)])
  next
    case no: False
    then have "completeCheckout env c p s = Inr (s, IGNORED ''quote_mismatch'')"
      using False by (auto simp: completeCheckout_def pays_quote_def no_text_def split: option.splits)
    then show ?thesis using assms by (intro stray[OF False no]) simp_all
  qed
qed

definition captured :: "checkout_env \<Rightarrow> provider_state \<Rightarrow> payment_row \<Rightarrow> payment_row" where
  "captured env state p = p\<lparr>pm_status := PAY_CAPTURED,
     pm_capturedAmount := pm_amount p, pm_capturedAt := Some (ce_now env),
     pm_providerChargeId := ps_chargeId state, pm_failureCode := None, pm_failureMessage := None\<rparr>"

lemma captured_fields [simp]:
  "pm_id (captured env state p) = pm_id p" "pm_status (captured env state p) = PAY_CAPTURED"
  "pm_checkoutId (captured env state p) = pm_checkoutId p" "pm_amount (captured env state p) = pm_amount p"
  "pm_currency (captured env state p) = pm_currency p"
  by (simp_all add: captured_def)

lemma capture_fields [simp]:
  "sh_payments (capture env state p s) = update_rows (\<lambda>q. pm_id q = pm_id p) (captured env state) (sh_payments s)"
  "sh_checkouts (capture env state p s) = sh_checkouts s" "sh_orders (capture env state p s) = sh_orders s"
  "sh_stock (capture env state p s) = sh_stock s" "sh_nextOrderNumber (capture env state p s) = sh_nextOrderNumber s"
  "sh_discounts (capture env state p s) = sh_discounts s" "sh_redemptions (capture env state p s) = sh_redemptions s"
  unfolding capture_def by (simp_all add: captured_def[abs_def])

lemma existingOrder_cong: "sh_orders t = sh_orders s \<Longrightarrow> existingOrder c t = existingOrder c s"
  by (simp add: existingOrder_def split: option.splits)

text \<open>A capture that creates no order: only the payment's row changes.\<close>

lemma capture_only_ok:
  assumes "service_ok s" "c \<in> set (sh_checkouts s)" "p \<in> set (sh_payments s)" "pm_checkoutId p = ch_id c"
    and "pm_status p \<noteq> PAY_CAPTURED" "pm_status p = PAY_PENDING \<Longrightarrow> ch_status c = CO_COMPLETED"
    and "\<And>q. g q = captured env state q \<or> (\<exists>i. g q = (captured env state q)\<lparr>pm_orderId := i\<rparr>)"
    and "frame (set_payments (\<lambda>q. pm_id q = pm_id p) g s) t"
  shows "moves_on s t" "service_ok t"
proof -
  note ok = service_okD[OF assms(1)]
  let ?t = "set_payments (\<lambda>q. pm_id q = pm_id p) g s"
  have g: "pm_id (g q) = pm_id q" "attempt_of (g q) = with_status PAY_CAPTURED (attempt_of q)"
    "pm_status (g q) = PAY_CAPTURED" for q
    using assms(7)[of q] by (auto simp: attempt_of_def)
  have np: "pm_status p \<noteq> PAY_PENDING"
    using pending_paying[OF assms(1,3) _ assms(2)] assms(4,6) by (cases "ch_status c") auto
  note ck = abs_checkout[OF ok(1) assms(2)] and pk = abs_payment[OF ok(1) assms(3), unfolded assms(4)]
  have a: "abs_shop ?t = (abs_shop s)\<lparr>jn_payment := (jn_payment (abs_shop s))(pm_id p \<mapsto>
      (ch_id c, PAY_CAPTURED, pm_amount p, pm_currency p))\<rparr>"
    using view_rows_one[where g = "with_status PAY_CAPTURED" and f = g and key = pm_id and val = attempt_of, OF pk[unfolded abs_shop_simps]] g
    by (simp add: abs_shop_def)
  have "protocol (abs_shop s) (abs_shop ?t)"
  proof (cases "ch_status c = CO_COMPLETED")
    case True
    then show ?thesis unfolding a using pk ck assms(5) by (auto intro: protocol.extra_capture)
  next
    case False
    then show ?thesis unfolding a using pk ck assms(5) np
      by (intro protocol.stray_capture[of _ _ _ "pm_status p"]) (auto intro: payment_status.exhaust[of "pm_status p"])
  qed
  then have m: "moves_on s ?t" by (simp add: moves_on_def)
  have prows: "\<exists>q0 \<in> set (sh_payments s). pm_id q = pm_id q0 \<and> (pm_status q = PAY_PENDING \<longrightarrow> q = q0)"
    if "q \<in> set (sh_payments ?t)" for q
    using that unfolding set_payments_fields
    by (cases rule: update_rows_cases) (rule bexI[rotated], assumption, simp add: g)+
  have "map pm_id (sh_payments ?t) = map pm_id (sh_payments s)" by (simp add: map_key_update g)
  then have "keys_ok ?t" using ok(1) prows unfolding keys_ok_def by fastforce
  moreover have "links_ok ?t" unfolding links_ok_def
  proof (intro conjI ballI impI)
    fix d assume "d \<in> set (sh_checkouts ?t)"
    then show "ch_completedOrderId d = map_option fst (jn_order (abs_shop ?t) (ch_id d))"
      using linksD(1)[OF ok(2)] by (simp add: a)
  next
    fix d q assume "d \<in> set (sh_checkouts ?t)" "q \<in> set (sh_payments ?t)"
      "pm_status q = PAY_PENDING \<and> pm_checkoutId q = ch_id d"
    then show "pays_quote d q" using linksD(2)[OF ok(2), of d q] prows by fastforce
  qed
  ultimately have t: "service_ok ?t" using assms(1) m by (blast intro: service_okI)
  show "service_ok t" by (rule frame_ok(2)[OF assms(8) t])
  show "moves_on s t" using m by (simp add: moves_on_def abs_shop_frame[OF assms(8)])
qed

text \<open>A capture that creates the order.\<close>

lemma capture_order_ok:
  assumes "service_ok s" "c \<in> set (sh_checkouts s)" "p \<in> set (sh_payments s)" "pm_checkoutId p = ch_id c"
    and "pm_status p \<noteq> PAY_CAPTURED" "ch_status c \<noteq> CO_COMPLETED"
    and "frame (capture env state p s) s1" "frame (supersede (ch_id c) (pm_id p) s1) s2"
    and "place_order env c p q email shortage over s2 = Inr (t, r)"
  shows "moves_on s t" "service_ok t"
proof -
  note ok = service_okD[OF assms(1)]
  note f1 = frameD[OF assms(7), unfolded capture_fields] and f2 = frameD[OF assms(8), unfolded supersede_def set_payments_fields]
  let ?n = "sh_nextOrderNumber s"
  from assms(9) obtain oid cust test where eff0: "r = COMPLETED_ORDER oid (sh_nextOrderNumber s2) True"
    "ot_orders (sh_orders t) = ot_orders (sh_orders s2) @ [order_of env c q oid (sh_nextOrderNumber s2) cust shortage test]"
    "sh_payments t = update_rows (\<lambda>x. pm_id x = pm_id p) (\<lambda>x. x\<lparr>pm_orderId := Some oid\<rparr>) (sh_payments s2)"
    "sh_checkouts t = update_rows (\<lambda>d. ch_id d = ch_id c) (\<lambda>d. d\<lparr>ch_status := CO_COMPLETED,
       ch_completedOrderId := Some oid, ch_customerId := Some cust\<rparr>) (sh_checkouts s2)"
    "sh_nextOrderNumber t = sh_nextOrderNumber s2 + 1" "sd_next (sh_stock s2) \<le> oid" "oid < sd_next (sh_stock t)"
    by (rule place_order_effect) blast
  let ?done = "\<lambda>d. d\<lparr>ch_status := CO_COMPLETED, ch_completedOrderId := Some oid, ch_customerId := Some cust\<rparr>"
  let ?o = "order_of env c q oid ?n cust shortage test"
  let ?cap = "update_rows (\<lambda>x. pm_id x = pm_id p) (captured env state) (sh_payments s)"
  let ?sel = "\<lambda>x. pm_checkoutId x = ch_id c \<and> pm_status x = PAY_PENDING \<and> pm_id x \<noteq> pm_id p"
  let ?super = "\<lambda>x. x\<lparr>pm_status := PAY_CANCELLED, pm_failureCode := Some ''SUPERSEDED''\<rparr>"
  have orders: "ot_orders (sh_orders t) = ot_orders (sh_orders s) @ [?o]" and number: "sh_nextOrderNumber t = ?n + 1"
    and cs: "sh_checkouts t = update_rows (\<lambda>d. ch_id d = ch_id c) ?done (sh_checkouts s)"
    and ps: "sh_payments t = update_rows (\<lambda>x. pm_id x = pm_id p) (\<lambda>x. x\<lparr>pm_orderId := Some oid\<rparr>)
      (update_rows ?sel ?super ?cap)"
    and oid: "sd_next (sh_stock s) \<le> oid" "oid < sd_next (sh_stock t)"
    using eff0 f1 f2 by simp_all
  note ck = abs_checkout[OF ok(1) assms(2)] and pk = abs_payment[OF ok(1) assms(3), unfolded assms(4)]
  have none: "jn_order (abs_shop s) (ch_id c) = None"
    using ok(4) ck assms(6) unfolding orders_ok_def by (metis option.inject)
  have new: "ch_id c \<notin> or_checkoutId ` set (ot_orders (sh_orders s))"
    using none by (simp add: abs_shop_simps view_rows_None)
  have key: "pm_id (?super x) = pm_id x" for x by simp
  have a: "abs_shop t = (abs_shop s)\<lparr>jn_checkout := (jn_checkout (abs_shop s))(ch_id c \<mapsto> CO_COMPLETED),
      jn_payment := settle (ch_id c) (pm_id p) (jn_payment (abs_shop s)),
      jn_order := (jn_order (abs_shop s))(ch_id c \<mapsto> (oid, ?n))\<rparr>"
  proof -
    have "view_rows ch_id ch_status (sh_checkouts t) = (jn_checkout (abs_shop s))(ch_id c \<mapsto> CO_COMPLETED)"
      using view_rows_one[where g = "\<lambda>_. CO_COMPLETED" and f = ?done, OF ck[unfolded abs_shop_simps]]
      by (simp add: cs abs_shop_simps)
    moreover have "view_rows pm_id attempt_of (sh_payments t) = settle (ch_id c) (pm_id p) (jn_payment (abs_shop s))"
    proof -
      have 1: "view_rows pm_id attempt_of ?cap = alter (\<lambda>k v. k = pm_id p) (with_status PAY_CAPTURED) (jn_payment (abs_shop s))"
        unfolding abs_shop_simps by (rule view_rows_update) (auto simp: attempt_of_def)
      have "view_rows pm_id attempt_of (update_rows ?sel ?super ?cap) =
          alter (\<lambda>k v. k \<noteq> pm_id p \<and> is_pending_of (ch_id c) v) (with_status PAY_CANCELLED) (view_rows pm_id attempt_of ?cap)"
        by (rule view_rows_update) (auto simp: attempt_of_def is_pending_of_def)
      moreover have "view_rows pm_id attempt_of (sh_payments t) = view_rows pm_id attempt_of (update_rows ?sel ?super ?cap)"
        unfolding ps by (rule view_rows_keep) (simp_all add: attempt_of_def)
      ultimately show ?thesis unfolding settle_def 1[symmetric] by simp
    qed
    moreover have "view_rows or_checkoutId (\<lambda>r. (or_id r, or_number r)) (ot_orders (sh_orders t)) =
        (jn_order (abs_shop s))(ch_id c \<mapsto> (oid, ?n))"
      using view_rows_snoc[of or_checkoutId ?o "ot_orders (sh_orders s)" "\<lambda>r. (or_id r, or_number r)"] new
      by (simp add: orders abs_shop_simps order_of_def)
    ultimately show ?thesis by (simp add: abs_shop_def)
  qed
  have later: "i \<noteq> oid \<and> m < ?n" if "jn_order (abs_shop s) d = Some (i, m)" for d i m
  proof -
    from order_row[OF that] obtain r where "r \<in> set (ot_orders (sh_orders s))" "or_id r = i" "or_number r = m" by blast
    with keysD(6,7)[OF ok(1)] oid(1) show ?thesis by force
  qed
  have "protocol (abs_shop s) (abs_shop t)" unfolding a
    by (rule protocol.complete[OF pk assms(5) ck assms(6) none]) (use later in blast)
  then have m: "moves_on s t" by (simp add: moves_on_def)
  have rows: "\<exists>d0 \<in> set (sh_checkouts s). ch_id d = ch_id d0 \<and> (if ch_id d0 = ch_id c then ch_completedOrderId d = Some oid else d = d0)"
    if "d \<in> set (sh_checkouts t)" for d
    using that unfolding cs by (cases rule: update_rows_cases) (rule bexI[rotated], assumption, simp)+
  have prows: "\<exists>q0 \<in> set (sh_payments s). pm_id x = pm_id q0 \<and>
      (pm_status x = PAY_PENDING \<longrightarrow> x = q0 \<and> pm_checkoutId x \<noteq> ch_id c)" if "x \<in> set (sh_payments t)" for x
  proof -
    obtain y where y: "y \<in> set (update_rows ?sel ?super ?cap)"
      "x = (if pm_id y = pm_id p then y\<lparr>pm_orderId := Some oid\<rparr> else y)"
      using \<open>x \<in> set (sh_payments t)\<close> unfolding ps in_update_rows[of x] by blast
    obtain z where z: "z \<in> set ?cap" "y = (if ?sel z then ?super z else z)" using y(1) unfolding in_update_rows[of y] by blast
    obtain q0 where q0: "q0 \<in> set (sh_payments s)" "z = (if pm_id q0 = pm_id p then captured env state q0 else q0)"
      using z(1) unfolding in_update_rows[of z] by blast
    show ?thesis
    proof (cases "pm_id q0 = pm_id p")
      case True
      then have "pm_id x = pm_id q0 \<and> pm_status x = PAY_CAPTURED" using y(2) z(2) q0(2) by simp
      then show ?thesis using q0(1) by force
    next
      case False
      then have "z = q0" using q0(2) by simp
      then have "x = (if ?sel q0 then ?super q0 else q0)" using y(2) z(2) False by simp
      then show ?thesis using q0(1) False by (intro bexI[OF _ q0(1)]) auto
    qed
  qed
  have "keys_ok t"
  proof -
    have "distinct (map ch_id (sh_checkouts t))" using keysD(1)[OF ok(1)] unfolding cs by (simp add: map_key_update)
    moreover have "distinct (map pm_id (sh_payments t))" using keysD(2)[OF ok(1)] unfolding ps by (simp add: map_key_update)
    moreover have "distinct (map or_checkoutId (ot_orders (sh_orders t)))"
      using keysD(3)[OF ok(1)] new by (simp add: orders order_of_def)
    moreover have "ch_id d < sd_next (sh_stock t)" if "d \<in> set (sh_checkouts t)" for d
      using rows[OF that] keysD(4)[OF ok(1)] oid by fastforce
    moreover have "pm_id x < sd_next (sh_stock t)" if "x \<in> set (sh_payments t)" for x
      using prows[OF that] keysD(5)[OF ok(1)] oid by fastforce
    moreover have "or_id r < sd_next (sh_stock t) \<and> or_number r < sh_nextOrderNumber t"
      if "r \<in> set (ot_orders (sh_orders t))" for r
      using that keysD(6,7)[OF ok(1)] oid by (fastforce simp: orders number order_of_def)
    ultimately show ?thesis by (simp add: keys_ok_def)
  qed
  moreover have "links_ok t" unfolding links_ok_def
  proof (intro conjI ballI impI)
    fix d assume "d \<in> set (sh_checkouts t)"
    then show "ch_completedOrderId d = map_option fst (jn_order (abs_shop t) (ch_id d))"
      using rows linksD(1)[OF ok(2)] a by (fastforce split: if_splits)
  next
    fix d x assume d: "d \<in> set (sh_checkouts t)" and x: "x \<in> set (sh_payments t)"
      "pm_status x = PAY_PENDING \<and> pm_checkoutId x = ch_id d"
    then have x': "x \<in> set (sh_payments s)" "ch_id d \<noteq> ch_id c" using prows[OF x(1)] by auto
    then have "d \<in> set (sh_checkouts s)" using rows[OF d] by (auto split: if_splits)
    then show "pays_quote d x" using linksD(2)[OF ok(2)] x x' by blast
  qed
  ultimately show "service_ok t" using assms(1) m by (blast intro: service_okI)
  show "moves_on s t" by (rule m)
qed

lemma applyPaymentOutcome_steps:
  assumes "applyPaymentOutcome env checkoutId state provider s = Inr (t, r)"
  obtains (nothing) "t = s" "\<nexists>oid n b. r = COMPLETED_ORDER oid n b"
  | (repeated) c p oid n where "t = s" "loadCheckout checkoutId s = Some c"
      "lockPaymentByReference checkoutId provider (ps_providerPaymentId state) s = Some p"
      "pm_status p = PAY_CAPTURED" "ps_status state = PS_CAPTURED" "r = COMPLETED_ORDER oid n False"
      "existingOrder c s = Some (oid, n)"
  | (ended) c p st code message where "c \<in> set (sh_checkouts s)" "ch_id c = checkoutId" "p \<in> set (sh_payments s)"
      "pm_checkoutId p = checkoutId" "st \<noteq> PAY_CAPTURED" "endAttempt c p st code message s = Inr t" "r = OUTCOME_FAILED"
  | (capturing) c p where "c \<in> set (sh_checkouts s)" "ch_id c = checkoutId" "p \<in> set (sh_payments s)"
      "pm_checkoutId p = checkoutId" "pm_provider p = provider"
      "pm_providerPaymentId p = Some (ps_providerPaymentId state)"
      "ps_status state = PS_CAPTURED" "pm_status p \<noteq> PAY_CAPTURED"
      "ps_amount state = Some (pm_amount p)" "ps_currency state = Some (pm_currency p)"
      "completeCheckout env c p (capture env state p s) = Inr (t, r)" "loadCheckout checkoutId s = Some c"
      "lockPaymentByReference checkoutId provider (ps_providerPaymentId state) s = Some p"
proof (cases "loadCheckout checkoutId s")
  case None
  show ?thesis by (rule nothing) (use assms None in \<open>auto simp: applyPaymentOutcome_def\<close>)
next
  case c: (Some c)
  show ?thesis
  proof (cases "lockPaymentByReference checkoutId provider (ps_providerPaymentId state) s")
    case None
    show ?thesis by (rule nothing) (use assms c None in \<open>auto simp: applyPaymentOutcome_def\<close>)
  next
    case p: (Some p)
    note cc = loadCheckout_Some[OF c] and pp = lockPaymentByReference_Some[OF p]
    note eq = assms[unfolded applyPaymentOutcome_def c p option.case]
    consider "ps_status state = PS_PENDING" | "ps_status state \<notin> {PS_PENDING, PS_CAPTURED}"
      | "ps_status state = PS_CAPTURED" by auto
    then show ?thesis
    proof cases
      case 1
      show ?thesis by (rule nothing) (use eq 1 cc pp in \<open>auto split: if_splits\<close>)
    next
      case 2
      show ?thesis
      proof (cases "pm_status p = PAY_CAPTURED")
        case True
        show ?thesis by (rule nothing) (use eq 2 True cc pp in \<open>auto split: if_splits\<close>)
      next
        case False
        show ?thesis
          by (rule ended[of c p "if ps_status state = PS_FAILED then PAY_FAILED else PAY_CANCELLED" "failure_code (ps_status state)" None])
            (use eq 2 False cc pp in \<open>auto simp: bindR_eq_Inr split: if_splits\<close>)
      qed
    next
      case 3
      show ?thesis
      proof (cases "pm_status p = PAY_CAPTURED")
        case True
        show ?thesis
        proof (cases "existingOrder c s")
          case None
          show ?thesis by (rule nothing) (use eq 3 True None cc pp in \<open>auto split: if_splits\<close>)
        next
          case (Some v)
          obtain oid n where v: "v = (oid, n)" by (cases v)
          show ?thesis by (rule repeated[of c p oid n]) (use eq 3 True Some v c p cc pp in \<open>auto split: if_splits\<close>)
        qed
      next
        case False
        show ?thesis
        proof (cases "ps_amount state = Some (pm_amount p) \<and> ps_currency state = Some (pm_currency p)")
          case True
          show ?thesis by (rule capturing[of c p])
            (use eq 3 False True c p cc pp in \<open>auto simp: bindR_eq_Inr liftE_Inr assertPaymentTransition_def captured_status\<close>)
        next
          case mismatch: False
          show ?thesis
          proof (cases "pm_status p = PAY_PENDING")
            case True
            show ?thesis
              by (rule ended[of c p PAY_FAILED "''AMOUNT_MISMATCH''" "Some ''The provider reported a different amount or currency.''"])
                (use eq 3 False mismatch True cc pp in \<open>auto simp: bindR_eq_Inr split: if_splits\<close>)
          next
            case np: False
            show ?thesis by (rule nothing) (use eq 3 False mismatch np cc pp in \<open>auto split: if_splits\<close>)
          qed
        qed
      qed
    qed
  qed
qed

lemma applyPaymentOutcome_ok:
  assumes "applyPaymentOutcome env checkoutId state provider s = Inr (t, r)" "service_ok s"
  shows "moves_on s t \<and> service_ok t"
  using assms(1)
proof (cases rule: applyPaymentOutcome_steps)
  case nothing
  then show ?thesis using assms(2) by (simp add: moves_on_def)
next
  case repeated
  then show ?thesis using assms(2) by (simp add: moves_on_def)
next
  case (ended c p st code message)
  then show ?thesis using endAttempt_ok[OF ended(6) assms(2) ended(1,3)] by simp
next
  case (capturing c p)
  note ok = service_okD[OF assms(2)]
  have pc: "pm_checkoutId p = ch_id c" using capturing by simp
  let ?s = "capture env state p s"
  have set: "set_payments (\<lambda>q. pm_id q = pm_id p) (captured env state) s = ?s"
    by (simp add: capture_def captured_def[abs_def])
  have two: "set_payments (\<lambda>q. pm_id q = pm_id p) (\<lambda>q. q\<lparr>pm_orderId := Some oid\<rparr>) ?s =
      set_payments (\<lambda>q. pm_id q = pm_id p) (\<lambda>q. (captured env state q)\<lparr>pm_orderId := Some oid\<rparr>) s" for oid
    unfolding set[symmetric] by (auto simp: set_payments_def update_rows_def)
  note only = capture_only_ok[OF assms(2) capturing(1,3) pc capturing(8)]
  from capturing(11) show ?thesis
  proof (cases rule: completeCheckout_steps)
    case (extra oid n)
    show ?thesis
      using only[of "\<lambda>q. (captured env state q)\<lparr>pm_orderId := Some oid\<rparr>" env state t] extra(1) extra(4)[unfolded two] by auto
  next
    case lost
    show ?thesis using only[of "captured env state" env state t] lost unfolding set by auto
  next
    case stray
    have "pm_status p \<noteq> PAY_PENDING" using linksD(2)[OF ok(2) capturing(1,3) _ pc] stray(2) by blast
    then show ?thesis using only[of "captured env state" env state t] stray unfolding set by auto
  next
    case (placed q email s1 shortage s2 over)
    show ?thesis
      using capture_order_ok[OF assms(2) capturing(1,3) pc capturing(8) placed(1) frame_claim_stock[OF placed(5)]
          frame_claim_discount[OF placed(6)] placed(7)] by blast
  qed
qed

subsubsection \<open>Starting, beginning, expiring\<close>

lemma startCheckout_ok_row:
  assumes "service_ok s" "fresh s = (s1, i)" "ch_id c = i" "ch_status c = CO_OPEN" "ch_completedOrderId c = None"
  shows "moves_on s (s1\<lparr>sh_checkouts := sh_checkouts s1 @ [c]\<rparr>)" "service_ok (s1\<lparr>sh_checkouts := sh_checkouts s1 @ [c]\<rparr>)"
proof -
  note ok = service_okD[OF assms(1)] and fr = frame_fresh[OF assms(2)]
  note f = frameD[OF conjunct1[OF fr]]
  let ?t = "s1\<lparr>sh_checkouts := sh_checkouts s1 @ [c]\<rparr>"
  have i: "i = sd_next (sh_stock s)" "sd_next (sh_stock s1) = Suc i" using fr by auto
  have new: "ch_id c \<notin> ch_id ` set (sh_checkouts s)" using keysD(4)[OF ok(1)] i(1) assms(3) by fastforce
  have a: "abs_shop ?t = (abs_shop s)\<lparr>jn_checkout := (jn_checkout (abs_shop s))(i \<mapsto> CO_OPEN)\<rparr>"
    using view_rows_snoc[OF new, of ch_status] f assms(3,4) by (simp add: abs_shop_def)
  have none: "jn_checkout (abs_shop s) i = None"
    using new assms(3) by (simp add: abs_shop_simps view_rows_None)
  then have "protocol (abs_shop s) (abs_shop ?t)" unfolding a by (rule protocol.open_checkout)
  then show m: "moves_on s ?t" by (simp add: moves_on_def)
  have "keys_ok ?t" using ok(1) f i new assms(3) unfolding keys_ok_def by (auto simp: less_Suc_eq)
  moreover have "jn_order (abs_shop s) i = None" using ok(4) none unfolding orders_ok_def by (metis option.distinct(1))
  moreover have "pm_checkoutId p \<noteq> i" if "p \<in> set (sh_payments s)" "pm_status p = PAY_PENDING" for p
    using attempts_paying[OF ok(3), of "pm_id p" i] pending_rows[OF ok(1), of "pm_id p" i] that none by auto
  moreover have "sh_checkouts ?t = sh_checkouts s @ [c]" "sh_payments ?t = sh_payments s" using f by simp_all
  moreover have "jn_order (abs_shop ?t) = jn_order (abs_shop s)" by (simp add: a)
  ultimately have "links_ok ?t" using linksD[OF ok(2)] assms(3,5) unfolding links_ok_def by auto
  with \<open>keys_ok ?t\<close> show "service_ok ?t" using assms(1) m by (blast intro: service_okI)
qed

lemma edits_reprice:
  assumes "repriceCheckout env c currency s = Inr (t, q, x)"
  shows "edits (ce_hash env) (ch_id c) s t" "x = ce_hash env q"
  using assms by (auto simp: repriceCheckout_def Let_def bindR_eq_Inr liftE_Inr hashed_def split: if_splits
    intro!: edits_set_checkouts)

text \<open>The edits of a checkout.\<close>

definition is_edit :: "(price_quote \<Rightarrow> string) \<Rightarrow> (checkout_row \<Rightarrow> shop \<Rightarrow> shop_error + shop) \<Rightarrow> bool" where
  "is_edit h change \<longleftrightarrow> (\<forall>c s t. change c s = Inr t \<longrightarrow> edits h (ch_id c) s t)"

lemma edits_edit:
  assumes "\<And>c. ch_id (f c) = ch_id c \<and> ch_status (f c) = ch_status c \<and> ch_completedOrderId (f c) = ch_completedOrderId c \<and>
      (hashed h c \<longrightarrow> hashed h (f c))"
  shows "edits h i s (edit i f s)"
  unfolding edit_def by (rule edits_set_checkouts) (use assms in simp_all)

lemma is_edit_updateContact: "is_edit h (updateContact email)"
  by (auto simp: is_edit_def updateContact_def hashed_def intro!: edits_edit)

lemma is_edit_removeDiscountCode: "is_edit h removeDiscountCode"
  by (auto simp: is_edit_def removeDiscountCode_def hashed_def intro!: edits_edit)

lemma is_edit_updateAddress: "is_edit h (updateAddress env currency shipping billing)"
  unfolding is_edit_def
proof (intro allI impI)
  fix c s t assume t: "updateAddress env currency shipping billing c s = Inr t"
  let ?s1 = "edit (ch_id c) (\<lambda>c. c\<lparr>ch_shippingAddress := Some shipping, ch_billingAddress := Some billing\<rparr>) s"
  let ?s2 = "edit (ch_id c) (\<lambda>c. c\<lparr>ch_shippingRateId := None\<rparr>) ?s1"
  have 1: "edits h (ch_id c) s ?s1" by (rule edits_edit) (simp add: hashed_def)
  have 2: "edits h (ch_id c) ?s1 ?s2" by (rule edits_edit) (simp add: hashed_def)
  have "t = ?s1 \<or> t = ?s2" using t unfolding updateAddress_def Let_def
    by (simp only: bindR_eq_Inr split: if_splits) auto
  then show "edits h (ch_id c) s t" using 1 edits_trans[OF 1 2] by blast
qed

lemma is_edit_selectShippingRate: "is_edit (ce_hash env) (selectShippingRate env currency rate)"
  unfolding is_edit_def
proof (intro allI impI)
  fix c s t assume "selectShippingRate env currency rate c s = Inr t"
  then obtain s1 q x where 1: "repriceCheckout env c currency s = Inr (s1, q, x)"
    and t: "t = edit (ch_id c) (\<lambda>c. c\<lparr>ch_shippingRateId := Some rate\<rparr>) s1"
    unfolding selectShippingRate_def bindR_eq_Inr by (auto split: if_splits)
  have "edits (ce_hash env) (ch_id c) s1 t" unfolding t by (rule edits_edit) (simp add: hashed_def)
  with edits_reprice(1)[OF 1] show "edits (ce_hash env) (ch_id c) s t" by (rule edits_trans)
qed

lemma is_edit_applyDiscountCode: "is_edit (ce_hash env) (applyDiscountCode env currency code)"
  unfolding is_edit_def
proof (intro allI impI)
  fix c s t assume "applyDiscountCode env currency code c s = Inr t"
  let ?s1 = "edit (ch_id c) (\<lambda>c. c\<lparr>ch_discountCode := Some code\<rparr>) s"
  from \<open>applyDiscountCode env currency code c s = Inr t\<close> obtain q x
    where 1: "repriceCheckout env (c\<lparr>ch_discountCode := Some code\<rparr>) currency ?s1 = Inr (t, q, x)"
    unfolding applyDiscountCode_def Let_def bindR_eq_Inr by (auto split: option.splits)
  have "edits (ce_hash env) (ch_id c) s ?s1" by (rule edits_edit) (simp add: hashed_def)
  with edits_reprice(1)[OF 1] show "edits (ce_hash env) (ch_id c) s t" by (auto intro: edits_trans)
qed

lemma edits_view_price: "view_price env currency c s = Inr (t, q) \<Longrightarrow> edits (ce_hash env) (ch_id c) s t"
  by (auto simp: view_price_def bindR_eq_Inr split: if_splits option.splits dest: edits_reprice)

end
