(* ===== verification/Service.thy ===== *)
theory Service
  imports Journey
begin

section \<open>The checkout service keeps its tables consistent\<close>

text \<open>
  The remaining transactions of the service as steps of the protocol, the step relation of the
  whole service, its invariant by rule induction, and the properties of the service.
\<close>

subsection \<open>Transactions that edit\<close>

lemma checkout_step_ok:
  assumes "checkout_step env currency change c s = Inr (t, q)" "is_edit (ce_hash env) change"
    and "service_ok s" "c \<in> set (sh_checkouts s)"
  shows "moves_on s t" "service_ok t" "edits (ce_hash env) (ch_id c) s t"
proof -
  from assms(1) have st: "ch_status c \<noteq> CO_PAYMENT_PENDING" by (auto simp: checkout_step_def split: if_splits)
  from assms(1) obtain s1 where s1: "change c s = Inr s1"
    and rest: "(case loadCheckout (ch_id c) (extend_ttl env (ch_id c) s1) of None \<Rightarrow> Inl gone
      | Some r \<Rightarrow> view_price env currency r (extend_ttl env (ch_id c) s1)) = Inr (t, q)"
    unfolding checkout_step_def by (auto simp: bindR_eq_Inr Let_def split: if_splits)
  from rest obtain r where r: "loadCheckout (ch_id c) (extend_ttl env (ch_id c) s1) = Some r"
    "view_price env currency r (extend_ttl env (ch_id c) s1) = Inr (t, q)" by (auto split: option.splits)
  have "edits (ce_hash env) (ch_id c) s s1" using assms(2) s1 by (simp add: is_edit_def)
  moreover have "edits (ce_hash env) (ch_id c) s1 (extend_ttl env (ch_id c) s1)"
    unfolding extend_ttl_def by (rule edits_set_checkouts) (simp_all add: hashed_def)
  moreover have "edits (ce_hash env) (ch_id c) (extend_ttl env (ch_id c) s1) t"
    using edits_view_price[OF r(2)] loadCheckout_Some[OF r(1)] by simp
  ultimately show e: "edits (ce_hash env) (ch_id c) s t" by (blast intro: edits_trans)
  have "d = c" if "d \<in> set (sh_checkouts s)" "ch_id d = ch_id c" for d
    using row_unique[OF keysD(1)[OF service_okD(1)[OF assms(3)]] that(1) assms(4)] that(2) by simp
  then show "moves_on s t" "service_ok t" using edits_ok[OF e assms(3)] st by blast+
qed

lemma run_step_Inr:
  assumes "run_step env currency change h s = Inr (t, q)"
  obtains c where "loadByToken h s = Some c" "checkout_step env currency change c s = Inr (t, q)"
  using assms by (auto simp: run_step_def inCheckout_def bindR_eq_Inr split: option.splits)

lemma getCheckout_Inr:
  assumes "getCheckout env currency h s = Inr (t, r)"
  obtains "t = s" | c where "loadByToken h s = Some c" "ch_status c = CO_OPEN" "edits (ce_hash env) (ch_id c) s t"
proof (cases "t = s")
  case False
  with assms obtain c q where c: "loadByToken h s = Some c" "view_price env currency c s = Inr (t, q)"
    by (auto simp: getCheckout_def inCheckout_def bindR_eq_Inr split: option.splits)
  then have "ch_status c = CO_OPEN" using False by (auto simp: view_price_def split: if_splits option.splits)
  with c show ?thesis by (intro that(2)) (auto intro: edits_view_price)
qed (rule that(1))

subsection \<open>Beginning a payment\<close>

text \<open>
  The hash stands for the quote: the code compares SHA-256 digests. Where two quotes of one
  checkout had the same digest the stored quote would not be the priced one, so a begin step is
  one without such a collision.
\<close>

definition collision_free :: "checkout_env \<Rightarrow> checkout_row \<Rightarrow> string \<Rightarrow> shop \<Rightarrow> bool" where
  "collision_free env c currency s \<longleftrightarrow>
     (case priceCheckout (ce_lc env) (loadPricingInput env c currency s) of Inl e \<Rightarrow> True
      | Inr q \<Rightarrow> (case ch_quote c of None \<Rightarrow> True | Some q0 \<Rightarrow> ce_hash env q = ce_hash env q0 \<longrightarrow> q = q0))"

lemma reprice_row:
  assumes "repriceCheckout env c currency s = Inr (t, q, x)" "c \<in> set (sh_checkouts s)" "ch_status c = CO_OPEN"
    and "hashed (ce_hash env) c" "collision_free env c currency s"
  shows "\<exists>d \<in> set (sh_checkouts t). ch_id d = ch_id c \<and> ch_quote d = Some q \<and> ch_email d = ch_email c \<and> ch_status d = CO_OPEN"
proof -
  from assms(1) have q: "priceCheckout (ce_lc env) (loadPricingInput env c currency s) = Inr q"
    by (auto simp: repriceCheckout_def Let_def bindR_eq_Inr liftE_Inr split: if_splits)
  show ?thesis
  proof (cases "Some (ce_hash env q) = ch_pricingHash c")
    case True
    then have "ch_quote c = Some q" using assms(3-5) q
      by (cases "ch_quote c") (auto simp: hashed_def collision_free_def)
    moreover have "t = s" using assms(1) q True by (simp add: repriceCheckout_def liftE_def bindR_def Let_def)
    ultimately show ?thesis using assms(2,3) by auto
  next
    case False
    then have "t = set_checkouts (\<lambda>d. ch_id d = ch_id c)
        (\<lambda>d. d\<lparr>ch_quote := Some q, ch_pricingHash := Some (ce_hash env q)\<rparr>) s"
      using assms(1) q by (auto simp: repriceCheckout_def liftE_def bindR_def Let_def split: if_splits)
    then show ?thesis using assms(2,3)
      by (intro bexI[of _ "c\<lparr>ch_quote := Some q, ch_pricingHash := Some (ce_hash env q)\<rparr>"]) (auto simp: in_update_rows intro!: bexI[of _ c])
  qed
qed

text \<open>A quote without problems has an email and a total to pay.\<close>

lemma no_problems:
  assumes "priceCheckout lc input = Inr q" "q_problems q = []"
  shows "\<not> no_text (pi_email input)"
  using assms(1)
proof (cases rule: priceCheckout_steps)
  case (1 amount problem ds chosen ship)
  show ?thesis using assms(2) unfolding 1(19) checkout_problems_def by (auto split: if_splits)
qed

lemma start_attempt_Inr:
  assumes "start_attempt env c conn q s = Inr (t, r)"
  obtains s1 k n p where "frame s s1" "reserve_quote env c q s = Inr k" "p = new_payment env c conn q n (pm_id p)" "r = STARTED p"
    "sd_next (sh_stock s) \<le> pm_id p" "pm_id p < sd_next (sh_stock s1)" "0 < q_total q"
    "\<not> list_ex (\<lambda>x. pm_checkoutId x = ch_id c \<and> pm_status x = PAY_PENDING) (sh_payments s)"
    "sh_payments t = sh_payments s @ [p]"
    "sh_checkouts t = update_rows (\<lambda>d. ch_id d = ch_id c)
       (\<lambda>d. d\<lparr>ch_status := CO_PAYMENT_PENDING, ch_expiresAt := ce_now env + ttl\<rparr>) (sh_checkouts s)"
    "sh_orders t = sh_orders s1" "sh_stock t = sh_stock s1" "sh_nextOrderNumber t = sh_nextOrderNumber s1"
proof -
  from assms obtain k where k: "reserve_quote env c q s = Inr k"
    unfolding start_attempt_def bindR_eq_Inr by blast
  obtain s1 i where fr: "fresh k = (s1, i)" by (cases "fresh k")
  let ?p = "new_payment env c conn q (length (filter (\<lambda>p. pm_checkoutId p = ch_id c) (sh_payments k))) i"
  have id: "pm_id ?p = i" "pm_amount ?p = q_total q" "pm_checkoutId ?p = ch_id c" by (simp_all add: new_payment_def)
  from assms k fr obtain s3 where s3: "insert_payment ?p s1 = Inr s3" and r: "r = STARTED ?p"
    and t: "t = edit (ch_id c) (\<lambda>d. d\<lparr>ch_status := CO_PAYMENT_PENDING, ch_expiresAt := ce_now env + ttl\<rparr>) s3"
    unfolding start_attempt_def by (auto simp: bindR_eq_Inr Let_def split: prod.splits)
  note f0 = frame_reserve_quote[OF k] and f1 = frame_fresh[OF fr]
  have f: "frame s s1" using frame_trans[OF f0 conjunct1[OF f1]] .
  have ge: "sd_next (sh_stock s) \<le> sd_next (sh_stock k)" using f0 by (simp add: frame_def)
  from s3 have ins: "0 < pm_amount ?p" "\<not> list_ex (\<lambda>x. pm_checkoutId x = pm_checkoutId ?p \<and> pm_status x = PAY_PENDING) (sh_payments s1)"
    "s3 = s1\<lparr>sh_payments := sh_payments s1 @ [?p]\<rparr>"
    by (simp_all add: insert_payment_def split: if_splits)
  show ?thesis
    by (rule that[OF f k, of ?p])
      (use ins r t id f1 ge frameD[OF f] in \<open>simp_all add: edit_def set_checkouts_def\<close>)
qed

lemma start_attempt_ok:
  assumes "start_attempt env c conn q s = Inr (t, r)" "service_ok s"
    and "d \<in> set (sh_checkouts s)" "ch_id d = ch_id c" "ch_quote d = Some q" "ch_status d = CO_OPEN" "\<not> no_text (ch_email d)"
  shows "moves_on s t" "service_ok t"
  using assms(1)
proof (atomize (full), cases rule: start_attempt_Inr)
  case (1 s1 k n p)
  note ok = service_okD[OF assms(2)] and f = frameD[OF 1(1)]
  have pf: "pm_checkoutId p = ch_id c" "pm_status p = PAY_PENDING" "pm_amount p = q_total q" "pm_currency p = q_currency q"
    by (subst 1(3), simp add: new_payment_def)+
  have new: "pm_id p \<notin> pm_id ` set (sh_payments s)" using keysD(5)[OF ok(1)] 1(5) by fastforce
  note ck = abs_checkout[OF ok(1) assms(3)]
  have a: "abs_shop t = (abs_shop s)\<lparr>jn_checkout := (jn_checkout (abs_shop s))(ch_id c \<mapsto> CO_PAYMENT_PENDING),
      jn_payment := (jn_payment (abs_shop s))(pm_id p \<mapsto> (ch_id c, PAY_PENDING, q_total q, q_currency q))\<rparr>"
  proof -
    have "view_rows ch_id ch_status (sh_checkouts t) = (jn_checkout (abs_shop s))(ch_id c \<mapsto> CO_PAYMENT_PENDING)"
      using view_rows_one[where g = "\<lambda>_. CO_PAYMENT_PENDING" and v = CO_OPEN and k = "ch_id c" and key = ch_id and val = ch_status
          and rows = "sh_checkouts s" and f = "\<lambda>d. d\<lparr>ch_status := CO_PAYMENT_PENDING, ch_expiresAt := ce_now env + ttl\<rparr>"] ck assms(4,6)
      by (simp add: 1(10) abs_shop_simps)
    moreover have "view_rows pm_id attempt_of (sh_payments t) =
        (jn_payment (abs_shop s))(pm_id p \<mapsto> (ch_id c, PAY_PENDING, q_total q, q_currency q))"
      using view_rows_snoc[OF new, of attempt_of] by (simp add: 1(9) abs_shop_simps attempt_of_def pf)
    ultimately show ?thesis using f by (simp add: abs_shop_def 1(11))
  qed
  have nopend: "\<not> is_pending_of (ch_id c) v" if "jn_payment (abs_shop s) k = Some v" for k v
  proof -
    have "k = pm_id x \<and> v = attempt_of x \<Longrightarrow> x \<in> set (sh_payments s) \<Longrightarrow> ?thesis" for x
      using 1(8) by (auto simp: list_ex_iff is_pending_of_def attempt_of_def)
    then show ?thesis using that by (auto simp: abs_shop_simps dest!: view_rows_Some)
  qed
  have "protocol (abs_shop s) (abs_shop t)" unfolding a
    by (rule protocol.begin_attempt)
      (use ck assms(4,6) new nopend in \<open>auto simp: abs_shop_simps view_rows_None\<close>)
  then have m: "moves_on s t" by (simp add: moves_on_def)
  have rows: "\<exists>e0 \<in> set (sh_checkouts s). ch_id e = ch_id e0 \<and> ch_completedOrderId e = ch_completedOrderId e0 \<and>
      ch_quote e = ch_quote e0 \<and> ch_email e = ch_email e0" if "e \<in> set (sh_checkouts t)" for e
    using that unfolding 1(10) by (cases rule: update_rows_cases) (rule bexI[rotated], assumption, simp)+
  have "map ch_id (sh_checkouts t) = map ch_id (sh_checkouts s)" unfolding 1(10) by (simp add: map_key_update)
  then have "keys_ok t" using ok(1) f 1(5,6,9,11-13) new rows unfolding keys_ok_def
    by (fastforce intro: order_less_le_trans)
  moreover have "links_ok t" unfolding links_ok_def
  proof (intro conjI ballI impI)
    fix e assume "e \<in> set (sh_checkouts t)"
    then show "ch_completedOrderId e = map_option fst (jn_order (abs_shop t) (ch_id e))"
      using rows linksD(1)[OF ok(2)] a by fastforce
  next
    fix e x assume e: "e \<in> set (sh_checkouts t)" and x: "x \<in> set (sh_payments t)"
      "pm_status x = PAY_PENDING \<and> pm_checkoutId x = ch_id e"
    obtain e0 where e0: "e0 \<in> set (sh_checkouts s)" "ch_id e = ch_id e0" "ch_quote e = ch_quote e0" "ch_email e = ch_email e0"
      using rows[OF e] by blast
    show "pays_quote e x"
    proof (cases "x = p")
      case True
      then have "e0 = d" using row_unique[OF keysD(1)[OF ok(1)] e0(1) assms(3)] x(2) e0(2) assms(4) pf(1) by simp
      then show ?thesis using True e0 pf assms(5,7) by (simp add: pays_quote_def)
    next
      case False
      then have "x \<in> set (sh_payments s)" using x(1) by (simp add: 1(9))
      then have "pays_quote e0 x" using linksD(2)[OF ok(2) e0(1)] x(2) e0(2) by simp
      then show ?thesis using e0 by (simp add: pays_quote_def)
    qed
  qed
  ultimately show "moves_on s t \<and> service_ok t" using assms(2) m by (blast intro: service_okI)
qed

subsection \<open>The stored hash stays with the quote\<close>

lemma hashes_update:
  assumes "hashes_ok h s" "sh_checkouts t = update_rows sel f (sh_checkouts s)"
    and "\<And>a. a \<in> set (sh_checkouts s) \<Longrightarrow> sel a \<Longrightarrow> hashed h a \<Longrightarrow> hashed h (f a)"
  shows "hashes_ok h t"
  using assms by (auto simp: hashes_ok_def in_update_rows)

lemma hashes_same: "hashes_ok h s \<Longrightarrow> sh_checkouts t = sh_checkouts s \<Longrightarrow> hashes_ok h t"
  by (simp add: hashes_ok_def)

lemma endAttempt_hashes:
  assumes "endAttempt c p st code message s = Inr t" "hashes_ok h s" "service_ok s" "c \<in> set (sh_checkouts s)"
  shows "hashes_ok h t"
proof (cases "pm_status p = PAY_PENDING")
  case False
  then show ?thesis using assms(1,2) by (simp add: endAttempt_def)
next
  case True
  note eff = endAttempt_effect[OF assms(1) True]
  show ?thesis
  proof (cases "ch_status c = CO_PAYMENT_PENDING")
    case st: True
    have "a = c" if "a \<in> set (sh_checkouts s)" "ch_id a = ch_id c" for a
      using row_unique[OF keysD(1)[OF service_okD(1)[OF assms(3)]] that(1) assms(4)] that(2) by simp
    then show ?thesis using st
      by (intro hashes_update[OF assms(2) eff(3)[unfolded if_P[OF st]]]) (auto simp: hashed_def)
  next
    case False
    then show ?thesis using hashes_same[OF assms(2)] eff(3) by simp
  qed
qed

lemma start_attempt_hashes:
  assumes "start_attempt env c conn q s = Inr (t, r)" "service_ok s" "hashes_ok h s"
    and "d \<in> set (sh_checkouts s)" "ch_id d = ch_id c" "ch_status d = CO_OPEN"
  shows "hashes_ok h t"
  using assms(1)
proof (cases rule: start_attempt_Inr)
  case (1 s1 k n p)
  have "a = d" if "a \<in> set (sh_checkouts s)" "ch_id a = ch_id c" for a
    using row_unique[OF keysD(1)[OF service_okD(1)[OF assms(2)]] that(1) assms(4)] that(2) assms(5) by simp
  then show ?thesis using assms(6) by (intro hashes_update[OF assms(3) 1(10)]) (auto simp: hashed_def)
qed

lemma completeCheckout_hashes:
  assumes "completeCheckout env c p s = Inr (t, r)" "hashes_ok h s"
  shows "hashes_ok h t"
  using assms(1)
proof (cases rule: completeCheckout_steps)
  case (extra oid n)
  then show ?thesis using hashes_same[OF assms(2)] by (simp add: frame_def)
next
  case (placed q email s1 shortage s2 over)
  obtain oid cust where t: "sh_checkouts t = update_rows (\<lambda>d. ch_id d = ch_id c) (\<lambda>d. d\<lparr>ch_status := CO_COMPLETED,
       ch_completedOrderId := Some oid, ch_customerId := Some cust\<rparr>) (sh_checkouts s2)"
    using placed(7) by (rule place_order_effect) blast
  have "sh_checkouts s2 = sh_checkouts s"
    using frame_claim_stock[OF placed(5)] frame_claim_discount[OF placed(6)] by (simp add: frame_def supersede_def)
  then show ?thesis using t by (intro hashes_update[OF assms(2) t[unfolded \<open>sh_checkouts s2 = _\<close>]]) (simp add: hashed_def)
qed (use assms(2) in auto)

lemma applyPaymentOutcome_hashes:
  assumes "applyPaymentOutcome env i state provider s = Inr (t, r)" "hashes_ok h s" "service_ok s"
  shows "hashes_ok h t"
  using assms(1)
proof (cases rule: applyPaymentOutcome_steps)
  case (ended c p st code message)
  then show ?thesis using endAttempt_hashes assms(2,3) by blast
next
  case (capturing c p)
  have "hashes_ok h (capture env state p s)" using hashes_same[OF assms(2)] by simp
  with capturing(11) show ?thesis by (rule completeCheckout_hashes)
qed (use assms(2) in auto)

subsection \<open>The steps of the service\<close>

inductive service_edit :: "checkout_env \<Rightarrow> string \<Rightarrow> (checkout_row \<Rightarrow> shop \<Rightarrow> shop_error + shop) \<Rightarrow> bool"
  for env currency where
  contact: "service_edit env currency (updateContact email)"
| address: "service_edit env currency (updateAddress env currency shipping billing)"
| rate: "service_edit env currency (selectShippingRate env currency rateId)"
| code: "service_edit env currency (applyDiscountCode env currency discountCode)"
| no_code: "service_edit env currency removeDiscountCode"

lemma service_edit_is_edit: "service_edit env currency change \<Longrightarrow> is_edit (ce_hash env) change"
  by (induction rule: service_edit.induct)
    (rule is_edit_updateContact is_edit_updateAddress is_edit_selectShippingRate
      is_edit_applyDiscountCode is_edit_removeDiscountCode)+

text \<open>
  One committed transaction each. The environment (clock, rates, provider) may differ from step
  to step; the hash function is the program's. \<open>other\<close> is any work of the rest of the program
  that leaves the checkouts, the payments and the orders of checkouts alone.
\<close>

inductive service_step :: "(price_quote \<Rightarrow> string) \<Rightarrow> shop \<Rightarrow> shop \<Rightarrow> bool" for h where
  started: "startCheckout env currency cart token new_token s = Inr (t, k) \<Longrightarrow> ce_hash env = h \<Longrightarrow> service_step h s t"
| viewed: "getCheckout env currency token s = Inr (t, v) \<Longrightarrow> ce_hash env = h \<Longrightarrow> service_step h s t"
| edited: "run_step env currency change token s = Inr (t, v) \<Longrightarrow> service_edit env currency change \<Longrightarrow>
    ce_hash env = h \<Longrightarrow> service_step h s t"
| begun: "inCheckout token (begin_body env currency confirmed) s = Inr (t, v) \<Longrightarrow>
    (\<And>c. loadByToken token s = Some c \<Longrightarrow> collision_free env c currency s) \<Longrightarrow>
    ce_hash env = h \<Longrightarrow> service_step h s t"
| recorded: "record_start checkoutId paymentId created s = Inr (t, v) \<Longrightarrow> service_step h s t"
| outcome: "applyPaymentOutcome env checkoutId state provider s = Inr (t, v) \<Longrightarrow> service_step h s t"
| cancelled: "cancel_pending checkoutId s = Inr t \<Longrightarrow> service_step h s t"
| swept: "sweep_payment checkoutId paymentId s = Inr t \<Longrightarrow> service_step h s t"
| expired_checkout: "sweepExpiredCheckout env checkoutId s = Inr (t, v) \<Longrightarrow> service_step h s t"
| purged: "t = purgeExpiredCheckouts old s \<Longrightarrow> service_step h s t"
| other: "frame s t \<Longrightarrow> service_step h s t"

definition service_good :: "(price_quote \<Rightarrow> string) \<Rightarrow> shop \<Rightarrow> bool" where
  "service_good h s \<longleftrightarrow> service_ok s \<and> hashes_ok h s"

definition service_init :: "shop \<Rightarrow> bool" where
  "service_init s \<longleftrightarrow> sh_checkouts s = [] \<and> sh_payments s = [] \<and> ot_orders (sh_orders s) = []"

lemma service_goodI: "moves_on s t \<and> service_ok t \<Longrightarrow> hashes_ok h t \<Longrightarrow> moves_on s t \<and> service_good h t"
  by (simp add: service_good_def)

lemma not_paying:
  assumes "service_ok s" "c \<in> set (sh_checkouts s)" "ch_status c \<noteq> CO_PAYMENT_PENDING"
  shows "\<And>d. d \<in> set (sh_checkouts s) \<Longrightarrow> ch_id d = ch_id c \<Longrightarrow> ch_status d \<noteq> CO_PAYMENT_PENDING"
  using row_unique[OF keysD(1)[OF service_okD(1)[OF assms(1)]] _ assms(2)] assms(3) by blast

lemma edits_good:
  assumes "edits h (ch_id c) s t" "service_good h s" "c \<in> set (sh_checkouts s)" "ch_status c \<noteq> CO_PAYMENT_PENDING"
  shows "moves_on s t \<and> service_good h t"
proof -
  have ok: "service_ok s" "hashes_ok h s" using assms(2) by (simp_all add: service_good_def)
  have "moves_on s t" "service_ok t"
    using edits_ok[OF assms(1) ok(1)] not_paying[OF ok(1) assms(3,4)] by blast+
  with edits_hashes[OF assms(1) ok(2)] show ?thesis by (simp add: service_good_def)
qed

lemma startCheckout_good:
  assumes "startCheckout env currency cart token new_token s = Inr (t, k)" "service_good (ce_hash env) s"
  shows "moves_on s t \<and> service_good (ce_hash env) t"
proof (cases "t = s")
  case True
  then show ?thesis using assms(2) by (simp add: moves_on_def)
next
  case False
  obtain s1 i where fr: "fresh s = (s1, i)" by (cases "fresh s")
  have "\<exists>cartId q x. repriceCheckout env (new_checkout env currency (cartId) new_token i) currency
      (s1\<lparr>sh_checkouts := sh_checkouts s1 @ [new_checkout env currency (cartId) new_token i]\<rparr>) = Inr (t, q, x)"
    using assms(1) False fr unfolding startCheckout_def
    by (auto simp: bindR_eq_Inr Let_def split: option.splits if_splits)
  then obtain cartId q x where
    re: "repriceCheckout env (new_checkout env currency (cartId) new_token i) currency
      (s1\<lparr>sh_checkouts := sh_checkouts s1 @ [new_checkout env currency (cartId) new_token i]\<rparr>) = Inr (t, q, x)"
    by blast
  let ?c = "new_checkout env currency (cartId) new_token i"
  let ?s1 = "s1\<lparr>sh_checkouts := sh_checkouts s1 @ [?c]\<rparr>"
  have c: "ch_id ?c = i" "ch_status ?c = CO_OPEN" "ch_completedOrderId ?c = None" "hashed (ce_hash env) ?c"
    by (simp_all add: new_checkout_def hashed_def)
  have ok: "service_ok s" "hashes_ok (ce_hash env) s" using assms(2) by (simp_all add: service_good_def)
  note 1 = startCheckout_ok_row[OF ok(1) fr c(1-3)]
  have "sh_checkouts s1 = sh_checkouts s" using frame_fresh[OF fr] by (simp add: frame_def)
  then have "hashes_ok (ce_hash env) ?s1" using ok(2) c(4) by (auto simp: hashes_ok_def)
  then have good: "service_good (ce_hash env) ?s1" using 1(2) by (simp add: service_good_def)
  note e = edits_reprice(1)[OF re]
  have "moves_on ?s1 t \<and> service_good (ce_hash env) t"
    by (rule edits_good[OF e good]) (use c in simp_all)
  then show ?thesis using 1(1) edits_abs[OF e] by (simp add: moves_on_def)
qed

lemma begin_body_good:
  assumes "begin_body env currency confirmed c s = Inr (t, r)" "service_good (ce_hash env) s" "c \<in> set (sh_checkouts s)"
    and "collision_free env c currency s"
  shows "moves_on s t \<and> service_good (ce_hash env) t"
proof (cases "t = s")
  case True
  then show ?thesis using assms(2) by (simp add: moves_on_def)
next
  case False
  then have st: "ch_status c = CO_OPEN" using assms(1)
    by (cases "ch_status c") (auto simp: begin_body_def split: if_splits)
  from assms(1) False obtain s1 q x where re: "repriceCheckout env c currency s = Inr (s1, q, x)"
    and rest: "t = s1 \<or> (\<exists>conn. q_problems q = [] \<and> start_attempt env c conn q s1 = Inr (t, r))"
    unfolding begin_body_def by (auto simp: st bindR_eq_Inr split: if_splits option.splits)
  have ok: "service_ok s" "hashes_ok (ce_hash env) s" using assms(2) by (simp_all add: service_good_def)
  note e = edits_reprice(1)[OF re]
  have 1: "moves_on s s1 \<and> service_good (ce_hash env) s1"
    by (rule edits_good[OF e assms(2,3)]) (simp add: st)
  then have ok1: "service_ok s1" "hashes_ok (ce_hash env) s1" by (simp_all add: service_good_def)
  from rest show ?thesis
  proof (elim disjE exE conjE)
    assume "t = s1" then show ?thesis using 1 by simp
  next
    fix conn assume np: "q_problems q = []" and go: "start_attempt env c conn q s1 = Inr (t, r)"
    obtain d where d: "d \<in> set (sh_checkouts s1)" "ch_id d = ch_id c" "ch_quote d = Some q" "ch_email d = ch_email c"
      "ch_status d = CO_OPEN"
      using reprice_row[OF re assms(3) st _ assms(4)] ok(2) assms(3) by (auto simp: hashes_ok_def)
    have "priceCheckout (ce_lc env) (loadPricingInput env c currency s) = Inr q"
      using re by (auto simp: repriceCheckout_def Let_def bindR_eq_Inr liftE_Inr split: if_splits)
    from no_problems[OF this np] have "\<not> no_text (ch_email d)"
      using d(4) by (simp add: loadPricingInput_def split: prod.splits)
    from start_attempt_ok[OF go ok1(1) d(1-3,5) this] start_attempt_hashes[OF go ok1 d(1,2,5)]
    show ?thesis using edits_abs[OF e] by (simp add: service_good_def moves_on_def)
  qed
qed

lemma record_start_good:
  assumes "record_start i pid created s = Inr (t, r)" "service_good h s"
  shows "moves_on s t \<and> service_good h t"
proof (cases "t = s")
  case True
  then show ?thesis using assms(2) by (simp add: moves_on_def)
next
  case False
  let ?g = "\<lambda>reference url p. p\<lparr>pm_providerPaymentId := Some reference, pm_redirectUrl := Some url\<rparr>"
  from assms(1) False obtain p reference url where p: "lockPendingPayment i s = Some p"
    and t: "t = set_payments (\<lambda>q. pm_id q = pm_id p) (?g reference url) s"
    unfolding record_start_def by (auto simp: bindR_eq_Inr split: option.splits if_splits)
  have ok: "service_ok s" "hashes_ok h s" using assms(2) by (simp_all add: service_good_def)
  note ok' = service_okD[OF ok(1)]
  have a: "abs_shop t = abs_shop s" unfolding abs_shop_def t
    by (simp add: view_rows_keep attempt_of_def)
  then have m: "moves_on s t" by (simp add: moves_on_def)
  have prows: "\<exists>q0 \<in> set (sh_payments s). pm_id q = pm_id q0 \<and> pm_checkoutId q = pm_checkoutId q0 \<and> pm_status q = pm_status q0 \<and>
      pm_amount q = pm_amount q0 \<and> pm_currency q = pm_currency q0" if "q \<in> set (sh_payments t)" for q
    using that unfolding t set_payments_fields
    by (cases rule: update_rows_cases) (rule bexI[rotated], assumption, simp)+
  have "map pm_id (sh_payments t) = map pm_id (sh_payments s)" unfolding t by (simp add: map_key_update)
  then have "keys_ok t" using ok'(1) prows unfolding keys_ok_def by (fastforce simp: t)
  moreover have "links_ok t" unfolding links_ok_def a
  proof (intro conjI ballI impI)
    fix d assume "d \<in> set (sh_checkouts t)"
    then show "ch_completedOrderId d = map_option fst (jn_order (abs_shop s) (ch_id d))"
      using linksD(1)[OF ok'(2)] by (simp add: t)
  next
    fix d q assume d: "d \<in> set (sh_checkouts t)" and q: "q \<in> set (sh_payments t)" "pm_status q = PAY_PENDING \<and> pm_checkoutId q = ch_id d"
    obtain q0 where q0: "q0 \<in> set (sh_payments s)" "pm_checkoutId q = pm_checkoutId q0" "pm_status q = pm_status q0"
      "pm_amount q = pm_amount q0" "pm_currency q = pm_currency q0" using prows[OF q(1)] by blast
    have "pays_quote d q0" using linksD(2)[OF ok'(2), of d q0] d q0 q(2) by (simp add: t)
    then show "pays_quote d q" using q0 by (simp add: pays_quote_def split: option.splits)
  qed
  ultimately show ?thesis using ok m by (auto simp: service_good_def hashes_ok_def t intro: service_okI)
qed

lemma endAttempt_good:
  assumes "endAttempt c p st code message s = Inr t" "service_good h s" "c \<in> set (sh_checkouts s)" "p \<in> set (sh_payments s)"
    "pm_checkoutId p = ch_id c" "st \<noteq> PAY_CAPTURED"
  shows "moves_on s t \<and> service_good h t"
  using endAttempt_ok[OF assms(1) _ assms(3-6)] endAttempt_hashes[OF assms(1) _ _ assms(3)] assms(2)
  unfolding service_good_def by blast

lemma cancel_pending_good:
  assumes "cancel_pending i s = Inr t" "service_good h s"
  shows "moves_on s t \<and> service_good h t"
proof (cases "loadCheckout i s = None \<or> lockPendingPayment i s = None")
  case True
  then show ?thesis using assms by (auto simp: cancel_pending_def moves_on_def split: option.splits)
next
  case False
  then obtain c p where cp: "loadCheckout i s = Some c" "lockPendingPayment i s = Some p" by auto
  then show ?thesis using assms endAttempt_good[of c p PAY_CANCELLED _ _ s t h] loadCheckout_Some[OF cp(1)] lockPendingPayment_Some[OF cp(2)]
    by (simp add: cancel_pending_def)
qed

lemma sweep_payment_good:
  assumes "sweep_payment i k s = Inr t" "service_good h s"
  shows "moves_on s t \<and> service_good h t"
proof (cases "loadCheckout i s = None \<or> lockPaymentById i k s = None")
  case True
  then show ?thesis using assms by (auto simp: sweep_payment_def moves_on_def split: option.splits)
next
  case False
  then obtain c p where cp: "loadCheckout i s = Some c" "lockPaymentById i k s = Some p" by auto
  then show ?thesis using assms endAttempt_good[of c p PAY_CANCELLED _ _ s t h] loadCheckout_Some[OF cp(1)] lockPaymentById_Some[OF cp(2)]
    by (simp add: sweep_payment_def)
qed

lemma applyPaymentOutcome_good:
  assumes "applyPaymentOutcome env i state provider s = Inr (t, r)" "service_good h s"
  shows "moves_on s t \<and> service_good h t"
  using applyPaymentOutcome_ok[OF assms(1)] applyPaymentOutcome_hashes[OF assms(1)] assms(2)
  unfolding service_good_def by blast

lemma expired_or_purged_good:
  assumes "service_good h s" "sh_checkouts t = update_rows sel f (sh_checkouts s)" "sh_payments t = sh_payments s"
    "ot_orders (sh_orders t) = ot_orders (sh_orders s)" "sh_stock t = sh_stock s" "sh_nextOrderNumber t = sh_nextOrderNumber s"
    and f: "\<And>c. ch_id (f c) = ch_id c" "\<And>c. ch_completedOrderId (f c) = ch_completedOrderId c" "\<And>c. ch_status (f c) = CO_EXPIRED"
    and m: "moves_on s t" and sel: "\<And>c. c \<in> set (sh_checkouts s) \<Longrightarrow> sel c \<Longrightarrow> ch_status c \<noteq> CO_PAYMENT_PENDING"
    and "jn_order (abs_shop t) = jn_order (abs_shop s)"
  shows "service_good h t"
proof -
  have ok: "service_ok s" "hashes_ok h s" using assms(1) by (simp_all add: service_good_def)
  note ok' = service_okD[OF ok(1)]
  have rows: "\<exists>e0 \<in> set (sh_checkouts s). ch_id e = ch_id e0 \<and> ch_completedOrderId e = ch_completedOrderId e0 \<and>
      (e = e0 \<or> ch_status e0 \<noteq> CO_PAYMENT_PENDING)" if "e \<in> set (sh_checkouts t)" for e
    using that unfolding assms(2)
    by (cases rule: update_rows_cases) (rule bexI[rotated], assumption, simp add: f sel)+
  have "map ch_id (sh_checkouts t) = map ch_id (sh_checkouts s)" unfolding assms(2) by (simp add: map_key_update f)
  then have "keys_ok t" using ok'(1) rows assms(3-6) unfolding keys_ok_def by fastforce
  moreover have "links_ok t" unfolding links_ok_def assms(12)
  proof (intro conjI ballI impI)
    fix d assume "d \<in> set (sh_checkouts t)"
    then show "ch_completedOrderId d = map_option fst (jn_order (abs_shop s) (ch_id d))"
      using rows linksD(1)[OF ok'(2)] by fastforce
  next
    fix d q assume d: "d \<in> set (sh_checkouts t)" and q: "q \<in> set (sh_payments t)" "pm_status q = PAY_PENDING \<and> pm_checkoutId q = ch_id d"
    obtain e where e: "e \<in> set (sh_checkouts s)" "ch_id d = ch_id e" "d = e \<or> ch_status e \<noteq> CO_PAYMENT_PENDING" using rows[OF d] by blast
    have "ch_status e = CO_PAYMENT_PENDING" using pending_paying[OF ok(1), of q e] q e assms(3) by simp
    then show "pays_quote d q" using linksD(2)[OF ok'(2) e(1), of q] e q assms(3) by auto
  qed
  moreover have "hashes_ok h t" by (rule hashes_update[OF ok(2) assms(2)]) (simp add: hashed_def f)
  ultimately show ?thesis using ok m by (auto simp: service_good_def intro: service_okI)
qed

lemma sweepExpiredCheckout_good:
  assumes "sweepExpiredCheckout env i s = Inr (t, r)" "service_good h s"
  shows "moves_on s t \<and> service_good h t"
proof (cases "t = s")
  case True
  then show ?thesis using assms(2) by (simp add: moves_on_def)
next
  case False
  from assms(1) False obtain c where c: "loadCheckout i s = Some c" "ch_status c = CO_OPEN"
    and t: "t = edit i (\<lambda>c. c\<lparr>ch_status := CO_EXPIRED\<rparr>) s"
    unfolding sweepExpiredCheckout_def by (auto simp: bindR_eq_Inr split: option.splits if_splits)
  have ok: "service_ok s" using assms(2) by (simp add: service_good_def)
  note cc = loadCheckout_Some[OF c(1)] and ck = abs_checkout[OF service_okD(1)[OF ok]]
  have a: "abs_shop t = (abs_shop s)\<lparr>jn_checkout := (jn_checkout (abs_shop s))(i \<mapsto> CO_EXPIRED)\<rparr>"
    using view_rows_one[where g = "\<lambda>_. CO_EXPIRED" and v = CO_OPEN and k = i and key = ch_id and val = ch_status
        and rows = "sh_checkouts s" and f = "\<lambda>d. d\<lparr>ch_status := CO_EXPIRED\<rparr>"] ck[of c] cc c(2)
    by (simp add: abs_shop_def t edit_def)
  have "protocol (abs_shop s) (abs_shop t)" unfolding a by (rule protocol.expire) (use ck[of c] cc c(2) in simp)
  then have m: "moves_on s t" by (simp add: moves_on_def)
  have np: "d \<in> set (sh_checkouts s) \<Longrightarrow> ch_id d = i \<Longrightarrow> ch_status d \<noteq> CO_PAYMENT_PENDING" for d
    using not_paying[OF ok, of c d] cc c(2) by simp
  have "service_good h t"
    by (rule expired_or_purged_good[OF assms(2), of t "\<lambda>c. ch_id c = i" "\<lambda>c. c\<lparr>ch_status := CO_EXPIRED\<rparr>"])
      (use m np in \<open>simp_all add: a\<close>, simp_all add: t edit_def)
  with m show ?thesis by simp
qed

lemma purge_good:
  assumes "service_good h s"
  shows "moves_on s (purgeExpiredCheckouts old s) \<and> service_good h (purgeExpiredCheckouts old s)"
proof -
  let ?f = "\<lambda>c. c\<lparr>ch_email := None, ch_shippingAddress := None, ch_billingAddress := None, ch_quote := None\<rparr>"
  let ?t = "purgeExpiredCheckouts old s"
  have rows: "sh_checkouts ?t = update_rows (\<lambda>c. ch_id c \<in> set old \<and> ch_status c = CO_EXPIRED) (\<lambda>c. (?f c)\<lparr>ch_status := CO_EXPIRED\<rparr>) (sh_checkouts s)"
    unfolding purgeExpiredCheckouts_def set_checkouts_fields update_rows_def by (rule map_cong) auto
  have a: "abs_shop ?t = abs_shop s" unfolding abs_shop_def
    by (simp add: purgeExpiredCheckouts_def view_rows_keep)
  then have m: "moves_on s ?t" by (simp add: moves_on_def)
  have "service_good h ?t"
    by (rule expired_or_purged_good[OF assms rows]) (use m in \<open>simp_all add: a\<close>, simp_all add: purgeExpiredCheckouts_def)
  with m show ?thesis by simp
qed

subsection \<open>Every run\<close>

lemma service_step_good:
  assumes "service_step h s t" "service_good h s"
  shows "moves_on s t \<and> service_good h t"
  using assms
proof (induction rule: service_step.induct)
  case (started env currency cart token new_token s t k)
  then show ?case using startCheckout_good by blast
next
  case (viewed env currency token s t v)
  from viewed(1) show ?case
  proof (cases rule: getCheckout_Inr)
    case 1
    then show ?thesis using viewed(3) by (simp add: moves_on_def)
  next
    case (2 c)
    then show ?thesis using edits_good[of h c s t] viewed(2,3) loadByToken_Some by force
  qed
next
  case (edited env currency change token s t v)
  from edited(1) show ?case
  proof (cases rule: run_step_Inr)
    case (1 c)
    have c: "c \<in> set (sh_checkouts s)" using loadByToken_Some[OF 1(1)] by simp
    note r = checkout_step_ok[OF 1(2) service_edit_is_edit[OF edited(2)] _ c]
    show ?thesis using r edits_hashes edited(3,4) unfolding service_good_def by blast
  qed
next
  case (begun token env currency confirmed s t v)
  show ?case
  proof (cases "loadByToken token s")
    case None
    then show ?thesis using begun(1,4) by (simp add: inCheckout_def moves_on_def)
  next
    case (Some c)
    then obtain r where "begin_body env currency confirmed c s = Inr (t, r)"
      using begun(1) by (auto simp: inCheckout_def bindR_eq_Inr)
    from begin_body_good[OF this] show ?thesis
      using begun(2-4) Some loadByToken_Some[OF Some] by auto
  qed
next
  case (cancelled i s t)
  show ?case by (rule cancel_pending_good[OF cancelled(1,2)])
next
  case (swept i k s t)
  show ?case by (rule sweep_payment_good[OF swept(1,2)])
next
  case (other s t)
  then show ?case using frame_ok[OF other(1)] hashes_same unfolding service_good_def frame_def by blast
next
  case (recorded i k created s t v)
  show ?case by (rule record_start_good[OF recorded(1,2)])
next
  case (outcome env i state provider s t v)
  show ?case by (rule applyPaymentOutcome_good[OF outcome(1,2)])
next
  case (expired_checkout env i s t v)
  show ?case by (rule sweepExpiredCheckout_good[OF expired_checkout(1,2)])
next
  case (purged t old s)
  show ?case unfolding purged(1) by (rule purge_good[OF purged(2)])
qed

lemma service_init_good: "service_init s \<Longrightarrow> service_good h s"
  by (auto simp: service_good_def service_init_def service_ok_def keys_ok_def links_ok_def hashes_ok_def
      attempts_ok_def orders_ok_def abs_shop_def view_rows_def pending_at_def)

lemma service_run_good:
  assumes "(service_step h)\<^sup>*\<^sup>* s t" "service_good h s"
  shows "protocol\<^sup>*\<^sup>* (abs_shop s) (abs_shop t) \<and> service_good h t"
  using assms
proof (induction rule: rtranclp_induct)
  case (step t u)
  then have "moves_on t u" "service_good h u" using service_step_good by blast+
  then show ?case using step by (auto simp: moves_on_def intro: rtranclp.rtrancl_into_rtrancl)
qed simp

subsection \<open>The operations as runs of their transactions\<close>

lemma run_one: "service_step h s t \<Longrightarrow> (service_step h)\<^sup>*\<^sup>* s t"
  by (rule r_into_rtranclp)

lemma run_view: "ce_hash env = h \<Longrightarrow> (service_step h)\<^sup>*\<^sup>* s (fst (transaction (getCheckout env currency token) s))"
  by (auto simp: transaction_def split: sum.splits intro: run_one service_step.viewed)

lemma run_outcome: "(service_step h)\<^sup>*\<^sup>* s (fst (transaction (applyPaymentOutcome env i state provider) s))"
  by (auto simp: transaction_def split: sum.splits intro: run_one service_step.outcome)

lemma run_current_view: "ce_hash env = h \<Longrightarrow> (service_step h)\<^sup>*\<^sup>* s (fst (current_view env currency token s))"
  using run_view[of env h s currency token] by (auto simp: current_view_def split: prod.splits sum.splits option.splits)

lemma run_confirm:
  assumes "ce_hash env = h"
  shows "(service_step h)\<^sup>*\<^sup>* s (fst (confirmPayment env get currency token s))"
  unfolding confirmPayment_def Let_def
  by (rule rtranclp_trans[OF _ run_view[OF assms]]) (auto split: option.splits intro: run_outcome)

lemma run_cancel:
  assumes "ce_hash env = h"
  shows "(service_step h)\<^sup>*\<^sup>* s (fst (cancelPayment env get cancel currency token s))"
proof -
  have w: "(service_step h)\<^sup>*\<^sup>* s (fst (case cancel_pending i s of Inl e \<Rightarrow> (s, Inl e) | Inr s1 \<Rightarrow> current_view env currency token s1))" for i
    by (auto split: sum.splits intro: rtranclp_trans[OF run_one[OF service_step.cancelled] run_current_view[OF assms]])
  have o: "(service_step h)\<^sup>*\<^sup>* s (fst (case applyPaymentOutcome env i state provider s of
      Inl e \<Rightarrow> (s, Inl e) | Inr (s1, r) \<Rightarrow> current_view env currency token s1))" for i state provider
    by (auto split: sum.splits intro: rtranclp_trans[OF run_one[OF service_step.outcome] run_current_view[OF assms]])
  show ?thesis unfolding cancelPayment_def Let_def using w o
    by (simp split: option.splits)
qed

lemma run_sweep: "(service_step h)\<^sup>*\<^sup>* s (fst (sweepExpiredPayment env get cancel i k s))"
proof -
  have w: "(service_step h)\<^sup>*\<^sup>* s (fst (case sweep_payment i k s of Inl e \<Rightarrow> (s, SW_DEFERRED) | Inr s1 \<Rightarrow> (s1, SW_RELEASED)))"
    by (auto split: sum.splits intro: run_one service_step.swept)
  have o: "(service_step h)\<^sup>*\<^sup>* s (fst (case applyPaymentOutcome env i state provider s of
      Inl e \<Rightarrow> (s, SW_DEFERRED) | Inr (s1, r) \<Rightarrow> (s1, SW_CAPTURED)))" for state provider
    by (auto split: sum.splits intro: run_one service_step.outcome)
  show ?thesis unfolding sweepExpiredPayment_def Let_def using w o by (simp split: option.splits)
qed

lemma run_foldl:
  assumes "\<And>u x. R\<^sup>*\<^sup>* (fst u) (fst (f u x))"
  shows "R\<^sup>*\<^sup>* (fst u) (fst (foldl f u xs))"
proof (induction xs arbitrary: u)
  case (Cons x xs)
  show ?case using rtranclp_trans[OF assms[of u x] Cons.IH[of "f u x"]] by simp
qed simp

lemma run_sweeps: "(service_step h)\<^sup>*\<^sup>* s (fst (sweepExpiredPayments env get cancel limit s))"
proof -
  let ?f = "\<lambda>(s :: shop, results :: sweep_result list) p. case sweepExpiredPayment env get cancel (pm_checkoutId p) (pm_id p) s of
    (s1, r) \<Rightarrow> (s1, results @ [r])"
  have "(service_step h)\<^sup>*\<^sup>* (fst u) (fst (?f u p))" for u p
    using run_sweep[of h "fst u" env get cancel "pm_checkoutId p" "pm_id p"]
    by (cases u; cases "sweepExpiredPayment env get cancel (pm_checkoutId p) (pm_id p) (fst u)") simp
  from run_foldl[where f = ?f and u = "(s, [])", OF this] show ?thesis unfolding sweepExpiredPayments_def by simp
qed

lemma run_begin:
  assumes "ce_hash env = h" "\<And>c. loadByToken token s = Some c \<Longrightarrow> collision_free env c currency s"
  shows "(service_step h)\<^sup>*\<^sup>* s (fst (beginPayment env currency token confirmed s))"
proof (cases "inCheckout token (begin_body env currency confirmed) s")
  case (Inl e)
  then show ?thesis by (simp add: beginPayment_def transaction_def split: shop_error.splits)
next
  case (Inr v)
  obtain s1 r where v: "v = (s1, r)" by (cases v)
  have 1: "(service_step h)\<^sup>*\<^sup>* s s1" using Inr v by (intro run_one service_step.begun[OF _ assms(2,1)]) simp
  have "(service_step h)\<^sup>*\<^sup>* s1 (fst (transaction (record_start i k created) s1))" for i k created
    by (auto simp: transaction_def split: sum.splits intro: run_one service_step.recorded)
  then show ?thesis using 1 Inr v
    by (auto simp: beginPayment_def transaction_def split: option.splits begin_outcome.splits intro: rtranclp_trans)
qed

end
