(* ===== verification/Placing.thy ===== *)
theory Placing
  imports Service
begin

section \<open>Placing an order succeeds\<close>

text \<open>
  What a captured payment needs to become an order, and that it then does: every insert of
  \<open>completeCheckout\<close> (\<open>packages/commerce/src/checkout/confirm.ts\<close>) passes its constraints.
\<close>

definition tax_fits :: "quote_tax_line \<Rightarrow> bool" where
  "tax_fits t \<longleftrightarrow> 0 \<le> qt_amount t \<and> 0 \<le> qt_ratePpm t \<and> qt_ratePpm t \<le> 1000000 \<and> sql_int8 (qt_amount t)"

definition quote_storable :: "price_quote \<Rightarrow> bool" where
  "quote_storable q \<longleftrightarrow> 0 \<le> q_subtotal q \<and> 0 \<le> q_discountTotal q \<and> q_discountTotal q \<le> q_subtotal q \<and>
     0 \<le> q_shippingTotal q \<and> 0 \<le> q_taxTotal q \<and> 0 \<le> q_total q \<and>
     q_total q = q_subtotal q - q_discountTotal q + q_shippingTotal q + (if q_pricesIncludeTax q then 0 else q_taxTotal q) \<and>
     sql_int8 (q_subtotal q) \<and> sql_int8 (q_shippingTotal q) \<and> sql_int8 (q_taxTotal q) \<and> sql_int8 (q_total q) \<and>
     list_all (\<lambda>l. line_checks (line_row 0 0 l) \<and> list_all tax_fits (ql_taxLines l)) (q_lines q) \<and>
     (case q_shipping q of None \<Rightarrow> True | Some x \<Rightarrow> 0 \<le> qs_amount x \<and> 0 \<le> qs_tax x \<and> list_all tax_fits (qs_taxLines x)) \<and>
     (case q_discount q of None \<Rightarrow> True | Some d \<Rightarrow> 0 \<le> qd_amount d)"

text \<open>The parts of the store that writing an order's details leaves alone.\<close>

definition details :: "shop \<Rightarrow> shop \<Rightarrow> bool" where
  "details s t \<longleftrightarrow> sh_checkouts t = sh_checkouts s \<and> sh_payments t = sh_payments s \<and>
     ot_orders (sh_orders t) = ot_orders (sh_orders s) \<and> sd_items (sh_stock t) = sd_items (sh_stock s) \<and>
     sd_reservations (sh_stock t) = sd_reservations (sh_stock s) \<and> sd_levels (sh_stock t) = sd_levels (sh_stock s)"

lemma details_refl [simp]: "details s s"
  by (simp add: details_def)

lemma details_trans: "details s t \<Longrightarrow> details t u \<Longrightarrow> details s u"
  by (simp add: details_def)

lemma insert_taxes_succeed:
  assumes "list_all tax_fits ts"
  shows "\<exists>t. foldR (\<lambda>s x. insert_tax (tax_row oid line suffix x) s) s ts = Inr t \<and> details s t \<and>
    ot_lines (sh_orders t) = ot_lines (sh_orders s)"
proof -
  let ?P = "\<lambda>u xs. list_all tax_fits xs \<and> details s u \<and> ot_lines (sh_orders u) = ot_lines (sh_orders s)"
  have "\<exists>t. foldR (\<lambda>s x. insert_tax (tax_row oid line suffix x) s) s ts = Inr t \<and> ?P t []"
    by (rule foldR_succeeds[where P = ?P])
      (use assms in \<open>auto simp: insert_tax_def tax_row_def tax_fits_def details_def Let_def\<close>)
  then show ?thesis by blast
qed

text \<open>The order's lines repeat the quote's.\<close>

definition line_of :: "uuid \<Rightarrow> order_line_row \<Rightarrow> quote_line \<Rightarrow> bool" where
  "line_of oid o_line l \<longleftrightarrow> (\<exists>i. o_line = line_row oid i l)"

lemma line_checks_ids: "line_checks (line_row a b l) = line_checks (line_row 0 0 l)"
  by (simp add: line_checks_def line_row_def)

lemma place_line_succeeds:
  assumes "line_checks (line_row 0 0 l)" "list_all tax_fits (ql_taxLines l)"
  shows "\<exists>t i. place_line oid (s, m) l = Inr (t, AList.update (ql_variantId l) i m) \<and> details s t \<and>
    ot_lines (sh_orders t) = ot_lines (sh_orders s) @ [line_row oid i l]"
proof -
  obtain s1 i where f: "fresh s = (s1, i)" by (cases "fresh s")
  let ?s2 = "s1\<lparr>sh_orders := (sh_orders s1)\<lparr>ot_lines := ot_lines (sh_orders s1) @ [line_row oid i l]\<rparr>\<rparr>"
  have ins: "insert_line (line_row oid i l) s1 = Inr ?s2"
    using assms(1) line_checks_ids[of oid i l] by (simp add: insert_line_def Let_def)
  obtain t where t: "foldR (\<lambda>s x. insert_tax (tax_row oid (Some i) [] x) s) ?s2 (ql_taxLines l) = Inr t" "details ?s2 t"
    "ot_lines (sh_orders t) = ot_lines (sh_orders ?s2)"
    using insert_taxes_succeed[OF assms(2)] by blast
  have "place_line oid (s, m) l = Inr (t, AList.update (ql_variantId l) i m)"
    using f ins t(1) by (simp add: place_line_def)
  moreover have "details s ?s2" "ot_lines (sh_orders ?s2) = ot_lines (sh_orders s) @ [line_row oid i l]"
    using f by (auto simp: fresh_def details_def)
  ultimately show ?thesis using t(2,3) details_trans[of s ?s2 t] by metis
qed

lemma place_lines_succeed:
  assumes "list_all (\<lambda>l. line_checks (line_row 0 0 l) \<and> list_all tax_fits (ql_taxLines l)) ls"
  shows "\<exists>t m'. foldR (place_line oid) (s, m) ls = Inr (t, m') \<and> details s t \<and>
    dom (map_of m') = dom (map_of m) \<union> ql_variantId ` set ls \<and>
    (\<exists>xs. ot_lines (sh_orders t) = ot_lines (sh_orders s) @ xs \<and> list_all2 (line_of oid) xs ls)"
  using assms
proof (induction ls arbitrary: s m)
  case Nil
  then show ?case by simp
next
  case (Cons l ls)
  obtain t i where t: "place_line oid (s, m) l = Inr (t, AList.update (ql_variantId l) i m)" "details s t"
    "ot_lines (sh_orders t) = ot_lines (sh_orders s) @ [line_row oid i l]"
    using place_line_succeeds[of l oid s m] Cons.prems by auto
  obtain u m' xs where u: "foldR (place_line oid) (t, AList.update (ql_variantId l) i m) ls = Inr (u, m')" "details t u"
    "dom (map_of m') = dom (map_of (AList.update (ql_variantId l) i m)) \<union> ql_variantId ` set ls"
    "ot_lines (sh_orders u) = ot_lines (sh_orders t) @ xs" "list_all2 (line_of oid) xs ls"
    using Cons.IH[of t "AList.update (ql_variantId l) i m"] Cons.prems by auto
  have "dom (map_of m') = dom (map_of m) \<union> ql_variantId ` set (l # ls)"
    using u(3) by (auto simp: update_conv' dom_def split: if_splits)
  moreover have "ot_lines (sh_orders u) = ot_lines (sh_orders s) @ (line_row oid i l # xs)" using t(3) u(4) by simp
  moreover have "list_all2 (line_of oid) (line_row oid i l # xs) (l # ls)" using u(5) by (auto simp: line_of_def)
  ultimately show ?case using t(1,2) u(1,2) details_trans by fastforce
qed

lemma place_shipping_succeeds:
  assumes "case x of None \<Rightarrow> True | Some x \<Rightarrow> 0 \<le> qs_amount x \<and> 0 \<le> qs_tax x \<and> list_all tax_fits (qs_taxLines x)"
  shows "\<exists>t. place_shipping oid x s = Inr t \<and> details s t \<and> ot_lines (sh_orders t) = ot_lines (sh_orders s)"
proof (cases x)
  case None
  then show ?thesis by (simp add: place_shipping_def)
next
  case (Some v)
  let ?s = "s\<lparr>sh_orders := (sh_orders s)\<lparr>ot_shipping := ot_shipping (sh_orders s) @ [\<lparr>os_orderId = oid,
    os_rateId = qs_rateId v, os_title = qs_name v, os_amount = qs_amount v, os_tax = qs_tax v\<rparr>]\<rparr>\<rparr>"
  have "details s ?s" by (simp add: details_def)
  moreover obtain t where "foldR (\<lambda>s t. insert_tax (tax_row oid None '' (shipping)'' t) s) ?s (qs_taxLines v) = Inr t"
    "details ?s t" "ot_lines (sh_orders t) = ot_lines (sh_orders ?s)"
    using insert_taxes_succeed[of "qs_taxLines v" oid None "'' (shipping)''" ?s] assms Some by auto
  ultimately show ?thesis using assms Some by (auto simp: place_shipping_def Let_def intro: details_trans)
qed

lemma place_discount_succeeds:
  assumes "case d of None \<Rightarrow> True | Some d \<Rightarrow> 0 \<le> qd_amount d"
  shows "\<exists>t. place_discount oid cust i d s = Inr t \<and> details s t \<and> ot_lines (sh_orders t) = ot_lines (sh_orders s)"
  using assms by (auto simp: place_discount_def details_def Let_def split: option.splits)

text \<open>Converting reservations only needs an order line for each variant they hold.\<close>

definition reserved_within :: "stock_db \<Rightarrow> uuid \<Rightarrow> uuid set \<Rightarrow> bool" where
  "reserved_within db i vs \<longleftrightarrow> (\<forall>r \<in> set (active_reservations db i). \<forall>ii \<in> set (sd_items db).
     it_id ii = rs_item r \<longrightarrow> it_variantId ii \<in> vs)"

lemma convert_succeeds:
  assumes "reserved_within db i (dom f)"
  shows "\<exists>db'. convertCheckoutStock i oid f db = Inr db' \<and> sd_levels db' = sd_levels db"
proof -
  let ?rs = "concat (map (\<lambda>r. map (\<lambda>ii. (rs_id r, it_variantId ii))
    (filter (\<lambda>ii. it_id ii = rs_item r) (sd_items db))) (active_reservations db i))"
  let ?step = "\<lambda>db (reservationId, variantId). case f variantId of
      None \<Rightarrow> Inl (STOCK_ERROR ''reservation has no order line'')
    | Some lineId \<Rightarrow> Inr (set_reservations (\<lambda>r. rs_id r = reservationId)
        (\<lambda>r. r\<lparr>rs_status := CONVERTED, rs_order := Some oid, rs_orderLine := Some lineId\<rparr>) db)"
  let ?P = "\<lambda>(u :: stock_db) (xs :: (uuid \<times> uuid) list). (\<forall>x \<in> set xs. snd x \<in> dom f) \<and> sd_levels u = sd_levels db"
  have "\<exists>t. foldR ?step db ?rs = Inr t \<and> ?P t []"
  proof (rule foldR_succeeds[where P = ?P])
    show "?P db ?rs" using assms by (auto simp: reserved_within_def)
    fix u and x :: "uuid \<times> uuid" and zs assume "?P u (x # zs)"
    then show "\<exists>v. ?step u x = Inr v \<and> ?P v zs" by (cases x) (auto simp: set_reservations_def)
  qed
  then show ?thesis by (simp add: convertCheckoutStock_def)
qed

lemma details_fresh: "fresh s = (t, i) \<Longrightarrow> details s t \<and> ot_lines (sh_orders t) = ot_lines (sh_orders s)"
  by (auto simp: fresh_def details_def)

lemma details_upsert: "upsert_customer e a s = (t, i) \<Longrightarrow> details s t \<and> ot_lines (sh_orders t) = ot_lines (sh_orders s)"
  by (auto simp: upsert_customer_def Let_def details_def fresh_def split: option.splits)

lemma details_addresses: "details s (place_addresses oid c s) \<and> ot_lines (sh_orders (place_addresses oid c s)) = ot_lines (sh_orders s)"
  by (simp add: place_addresses_def details_def Let_def)

lemma order_of_checks:
  assumes "quote_storable q" "0 < n"
  shows "order_checks (order_of env c q oid n cust shortage test)"
  using assms by (auto simp: order_checks_def order_of_def quote_storable_def)

















text \<open>What the store must allow: an order number, a first order of the checkout, lines for its reservations.\<close>

definition order_placeable :: "checkout_row \<Rightarrow> price_quote \<Rightarrow> shop \<Rightarrow> bool" where
  "order_placeable c q s \<longleftrightarrow> quote_storable q \<and> 0 < sh_nextOrderNumber s \<and> sql_int4 (sh_nextOrderNumber s + 1) \<and>
     list_all (\<lambda>r. or_checkoutId r \<noteq> ch_id c \<and> or_number r < sh_nextOrderNumber s) (ot_orders (sh_orders s)) \<and>
     reserved_within (sh_stock s) (ch_id c) (ql_variantId ` set (q_lines q))"

lemma place_order_succeeds:
  assumes "order_placeable c q s" "ch_status c \<noteq> CO_COMPLETED"
  shows "\<exists>t oid xs. place_order env c p q email shortage over s = Inr (t, COMPLETED_ORDER oid (sh_nextOrderNumber s) True) \<and>
    ot_lines (sh_orders t) = ot_lines (sh_orders s) @ xs \<and> list_all2 (line_of oid) xs (q_lines q) \<and>
    sd_levels (sh_stock t) = sd_levels (sh_stock s)"
proof -
  let ?n = "sh_nextOrderNumber s"
  note ok = assms(1)[unfolded order_placeable_def] and st = assms(1)[unfolded order_placeable_def quote_storable_def]
  define s1 where "s1 = s\<lparr>sh_nextOrderNumber := ?n + 1\<rparr>"
  have n: "next_order_number s = Inr (s1, ?n)" using ok by (simp add: next_order_number_def s1_def Let_def)
  obtain s2 cust where c: "upsert_customer email (ch_shippingAddress c) s1 = (s2, cust)"
    by (cases "upsert_customer email (ch_shippingAddress c) s1")
  obtain s3 oid where f: "fresh s2 = (s3, oid)" by (cases "fresh s2")
  define test where "test = (case find (\<lambda>c. cn_id c = pm_connectionId p) (sh_connections s2) of
           None \<Rightarrow> False | Some c \<Rightarrow> cn_test c)"
  let ?r = "order_of env c q oid ?n cust shortage test"
  have d1: "details s s1 \<and> ot_lines (sh_orders s1) = ot_lines (sh_orders s)" by (simp add: s1_def details_def)
  have d3: "details s s3" "ot_lines (sh_orders s3) = ot_lines (sh_orders s)"
    using d1 details_upsert[OF c] details_fresh[OF f] by (auto simp: details_def)
  define s4 where "s4 = s3\<lparr>sh_orders := (sh_orders s3)\<lparr>ot_orders := ot_orders (sh_orders s3) @ [?r]\<rparr>\<rparr>"
  have free: "\<not> list_ex (\<lambda>x. or_checkoutId x = or_checkoutId ?r) (ot_orders (sh_orders s3))"
    "\<not> list_ex (\<lambda>x. or_number x = or_number ?r) (ot_orders (sh_orders s3))"
    using ok d3(1) by (auto simp: details_def list_ex_iff list_all_iff order_of_def)
  have "order_checks ?r" by (rule order_of_checks) (use ok in simp_all)
  then have i: "insert_order ?r s3 = Inr s4" using free by (simp add: insert_order_def s4_def Let_def)
  obtain s5 m xs where l: "foldR (place_line oid) (s4, []) (q_lines q) = Inr (s5, m)" "details s4 s5"
    "dom (map_of m) = ql_variantId ` set (q_lines q)" "ot_lines (sh_orders s5) = ot_lines (sh_orders s4) @ xs"
    "list_all2 (line_of oid) xs (q_lines q)"
    using place_lines_succeed[of "q_lines q" oid s4 "[]"] st by auto
  obtain s6 where s6: "place_shipping oid (q_shipping q) s5 = Inr s6" "details s5 s6" "ot_lines (sh_orders s6) = ot_lines (sh_orders s5)"
    using place_shipping_succeeds[of "q_shipping q" oid s5] st by auto
  obtain s7 where s7: "place_discount oid cust (ch_id c) (q_discount q) s6 = Inr s7" "details s6 s7"
    "ot_lines (sh_orders s7) = ot_lines (sh_orders s6)"
    using place_discount_succeeds[of "q_discount q" oid cust "ch_id c" s6] st by auto
  define s8 where "s8 = place_addresses oid c s7"
  have d8: "details s4 s8" "ot_lines (sh_orders s8) = ot_lines (sh_orders s) @ xs"
    using l(2,4) s6 s7 details_addresses[of s7 oid c] d3(2) by (auto simp: details_def s8_def s4_def)
  have stock: "sd_items (sh_stock s8) = sd_items (sh_stock s)" "sd_reservations (sh_stock s8) = sd_reservations (sh_stock s)"
    "sd_levels (sh_stock s8) = sd_levels (sh_stock s)"
    using d8(1) d3(1) by (simp_all add: details_def s4_def)
  have "reserved_within (sh_stock s8) (ch_id c) (dom (map_of m))"
    using ok l(3) stock by (simp add: reserved_within_def active_reservations_def)
  from convert_succeeds[OF this, of oid] obtain db where db: "convertCheckoutStock (ch_id c) oid (map_of m) (sh_stock s8) = Inr db"
    "sd_levels db = sd_levels (sh_stock s)" using stock(3) by auto
  have "canCheckoutTransition (ch_status c) CO_COMPLETED"
    using assms(2) by (cases "ch_status c") (simp_all add: canCheckoutTransition_def)
  then obtain s9 where s9: "link_order c p oid cust (s8\<lparr>sh_stock := db\<rparr>) = Inr s9"
    by (auto simp: link_order_def Let_def assertCheckoutTransition_def)
  have eq: "place_order env c p q email shortage over s =
      Inr (announce env c p oid shortage over s9, COMPLETED_ORDER oid ?n True)"
    using n c f i l(1) s6(1) s7(1) db(1) s9 unfolding place_order_def s8_def test_def by (simp add: Let_def)
  have "ot_lines (sh_orders s9) = ot_lines (sh_orders s) @ xs" "sd_levels (sh_stock s9) = sd_levels (sh_stock s)"
    using link_order_effect(3,5)[OF s9] d8(2) db(2) by simp_all
  then show ?thesis using eq l(5) by auto
qed

text \<open>
  What writing an order asks of its quote and of the store: rows that pass the constraints, a next order
  number, an order line for every variant the checkout has reserved, and a use of the discount that is held
  by the checkout or belongs to no other order.
\<close>

definition discount_claimable :: "checkout_row \<Rightarrow> quote_discount option \<Rightarrow> shop \<Rightarrow> bool" where
  "discount_claimable c d s \<longleftrightarrow> (case d of None \<Rightarrow> True | Some d \<Rightarrow>
     (case find (redemption_of (qd_discountId d) (ch_id c)) (sh_redemptions s) of None \<Rightarrow> True
      | Some r \<Rightarrow> rd_status r = RD_RESERVED \<or> rd_orderId r = None
          \<or> \<not> list_ex (can_take (qd_discountId d)) (sh_discounts s)))"

definition order_fits :: "checkout_row \<Rightarrow> price_quote \<Rightarrow> shop \<Rightarrow> bool" where
  "order_fits c q s \<longleftrightarrow> quote_storable q \<and> 0 < sh_nextOrderNumber s \<and> sql_int4 (sh_nextOrderNumber s + 1) \<and>
     reserved_within (sh_stock s) (ch_id c) (ql_variantId ` set (q_lines q)) \<and> discount_claimable c (q_discount q) s"

lemma claim_discount_iff: "(\<exists>u b. claim_discount c d s = Inr (u, b)) \<longleftrightarrow> discount_claimable c d s"
  by (auto simp: claim_discount_def discount_claimable_def reserveDiscountUse_def Let_def split: option.splits)

lemma claim_discount_stock: "claim_discount c d s = Inr (u, b) \<Longrightarrow> sh_stock u = sh_stock s \<and> ot_lines (sh_orders u) = ot_lines (sh_orders s)"
  by (auto simp: claim_discount_def reserveDiscountUse_def Let_def bindR_eq_Inr split: option.splits if_splits)

text \<open>Conversely, an order that is written passed all of that.\<close>

lemma insert_taxes_fit:
  assumes "foldR (\<lambda>s x. insert_tax (tax_row oid line suffix x) s) s ts = Inr t"
  shows "list_all tax_fits ts"
  using assms
proof (induction ts arbitrary: s)
  case (Cons x ts)
  then show ?case by (auto simp: bindR_eq_Inr insert_tax_def tax_row_def tax_fits_def Let_def split: if_splits)
qed simp

lemma place_lines_fit:
  assumes "foldR (place_line oid) (s, m) ls = Inr (t, m')"
  shows "list_all (\<lambda>l. line_checks (line_row 0 0 l) \<and> list_all tax_fits (ql_taxLines l)) ls \<and>
    dom (map_of m') = dom (map_of m) \<union> ql_variantId ` set ls"
  using assms
proof (induction ls arbitrary: s m)
  case (Cons l ls)
  obtain s1 i where f: "fresh s = (s1, i)" by (cases "fresh s")
  from Cons.prems obtain v where v: "place_line oid (s, m) l = Inr v" "foldR (place_line oid) v ls = Inr (t, m')"
    by (auto simp: bindR_eq_Inr)
  from v(1) f obtain s2 s3 where a: "insert_line (line_row oid i l) s1 = Inr s2"
    "foldR (\<lambda>s x. insert_tax (tax_row oid (Some i) [] x) s) s2 (ql_taxLines l) = Inr s3"
    and w: "v = (s3, AList.update (ql_variantId l) i m)"
    by (auto simp: bindR_eq_Inr place_line_def)
  note b = v(2)[unfolded w]
  have "line_checks (line_row 0 0 l)" using a(1) line_checks_ids[of oid i l] by (simp add: insert_line_def Let_def split: if_splits)
  with insert_taxes_fit[OF a(2)] Cons.IH[OF b] show ?case by (auto simp: update_conv' dom_def split: if_splits)
qed simp

lemma place_shipping_fits:
  "place_shipping oid x s = Inr t \<Longrightarrow>
   case x of None \<Rightarrow> True | Some x \<Rightarrow> 0 \<le> qs_amount x \<and> 0 \<le> qs_tax x \<and> list_all tax_fits (qs_taxLines x)"
  by (auto simp: place_shipping_def Let_def split: option.splits if_splits dest: insert_taxes_fit)

lemma convert_needs:
  assumes "convertCheckoutStock i oid f db = Inr db'"
  shows "reserved_within db i (dom f)"
proof -
  have "\<forall>x \<in> set rs. snd x \<in> dom f" if "foldR (\<lambda>db (reservationId, variantId). case f variantId of
      None \<Rightarrow> Inl (STOCK_ERROR ''reservation has no order line'')
    | Some lineId \<Rightarrow> Inr (set_reservations (\<lambda>r. rs_id r = reservationId)
        (\<lambda>r. r\<lparr>rs_status := CONVERTED, rs_order := Some oid, rs_orderLine := Some lineId\<rparr>) db)) db rs = Inr db'" for rs
    using that by (induction rs arbitrary: db) (auto simp: bindR_eq_Inr split: option.splits)
  from this[OF assms[unfolded convertCheckoutStock_def Let_def]] show ?thesis
    by (fastforce simp: reserved_within_def)
qed

lemma reserved_within_cong:
  "sd_items db' = sd_items db \<Longrightarrow> sd_reservations db' = sd_reservations db \<Longrightarrow> reserved_within db' i vs = reserved_within db i vs"
  by (simp add: reserved_within_def active_reservations_def)

text \<open>The rows of the stock that writing an order's details leaves alone.\<close>

definition same_stock :: "shop \<Rightarrow> shop \<Rightarrow> bool" where
  "same_stock s t \<longleftrightarrow> sd_items (sh_stock t) = sd_items (sh_stock s) \<and> sd_reservations (sh_stock t) = sd_reservations (sh_stock s)"

lemma same_stock_refl [simp]: "same_stock s s"
  by (simp add: same_stock_def)

lemma same_stock_trans: "same_stock s t \<Longrightarrow> same_stock t u \<Longrightarrow> same_stock s u"
  by (simp add: same_stock_def)

lemma same_stock_details: "details s t \<Longrightarrow> same_stock s t"
  by (simp add: same_stock_def details_def)

lemma same_stock_taxes: "foldR (\<lambda>s x. insert_tax (tax_row oid line suffix x) s) s ts = Inr t \<Longrightarrow> same_stock s t"
  using insert_taxes_succeed[OF insert_taxes_fit, of oid line suffix s ts t oid line suffix s] by (auto intro: same_stock_details)

lemma same_stock_line: "place_line oid (s, m) l = Inr (t, m') \<Longrightarrow> same_stock s t"
  by (auto simp: place_line_def bindR_eq_Inr insert_line_def fresh_def Let_def same_stock_def split: if_splits
      dest!: same_stock_taxes)

lemma same_stock_lines: "foldR (place_line oid) (s, m) ls = Inr (t, m') \<Longrightarrow> same_stock s t"
  using foldR_invariant[where P = "\<lambda>(u, _). same_stock s u" and f = "place_line oid" and s = "(s, m)" and xs = ls and t = "(t, m')"]
  by (auto intro: same_stock_trans same_stock_line)

lemma place_order_needs:
  assumes "place_order env c p q email shortage over s = Inr (t, r)"
  shows "quote_storable q \<and> 0 < sh_nextOrderNumber s \<and> sql_int4 (sh_nextOrderNumber s + 1) \<and>
    reserved_within (sh_stock s) (ch_id c) (ql_variantId ` set (q_lines q))"
  using assms
proof (cases rule: place_order_steps)
  case (1 n s1 s2 cust test s3 oid s4 s5 m s6 s7 db s9)
  have n: "n = sh_nextOrderNumber s" "sql_int4 (n + 1)" and s1: "same_stock s s1"
    using 1(1) by (auto simp: next_order_number_def same_stock_def Let_def split: if_splits)
  note row = insert_order_Inr[OF 1(4)] and l = place_lines_fit[OF 1(5)] and ship = place_shipping_fits[OF 1(6)]
  have d: "case q_discount q of None \<Rightarrow> True | Some d \<Rightarrow> 0 \<le> qd_amount d"
    using 1(7) by (auto simp: place_discount_def split: option.splits if_splits)
  have "same_stock s s4" using s1 details_upsert[OF 1(2)] details_fresh[OF 1(3)] row(1) by (simp add: same_stock_def details_def)
  moreover have "same_stock s5 s6"
    using 1(6) place_shipping_succeeds[OF ship, of oid s5] by (auto intro: same_stock_details)
  moreover have "same_stock s6 (place_addresses oid c s7)"
    using 1(7) place_discount_succeeds[OF d, of oid cust "ch_id c" s6] details_addresses[of s7 oid c]
    by (auto simp: same_stock_def details_def)
  ultimately have "same_stock s (place_addresses oid c s7)" using same_stock_lines[OF 1(5)] by (simp add: same_stock_def)
  moreover have "reserved_within (sh_stock (place_addresses oid c s7)) (ch_id c) (ql_variantId ` set (q_lines q))"
    using convert_needs[OF 1(8)] l by simp
  ultimately have "reserved_within (sh_stock s) (ch_id c) (ql_variantId ` set (q_lines q))"
    unfolding same_stock_def by (blast dest: reserved_within_cong[THEN iffD1])
  moreover have "quote_storable q" 
    using row(2)[unfolded order_checks_def order_of_def order_row.select_convs] conjunct1[OF l] ship d
    unfolding quote_storable_def by (elim conjE) (intro conjI; assumption)
  ultimately show ?thesis using row(2) n by (simp add: order_checks_def order_of_def)
qed

lemma capture_places_order:
  assumes "loadCheckout i s = Some c" "lockPaymentByReference i provider (ps_providerPaymentId state) s = Some p"
    and "ps_status state = PS_CAPTURED" "pm_status p = PAY_PENDING" "ch_status c = CO_PAYMENT_PENDING"
    and "ps_amount state = Some (pm_amount p)" "ps_currency state = Some (pm_currency p)"
    and "ch_quote c = Some q" "pays_quote c p" "order_placeable c q s" "discount_claimable c (q_discount q) s"
  shows "\<exists>t oid r xs. applyPaymentOutcome env i state provider s = Inr (t, COMPLETED_ORDER oid (sh_nextOrderNumber s) True) \<and>
    ot_orders (sh_orders t) = ot_orders (sh_orders s) @ [r] \<and> or_id r = oid \<and> or_number r = sh_nextOrderNumber s \<and>
    or_checkoutId r = i \<and> or_total r = pm_amount p \<and> or_currency r = pm_currency p \<and> or_paymentStatus r = PAID \<and>
    or_subtotal r = q_subtotal q \<and> or_discount r = q_discountTotal q \<and> or_shipping r = q_shippingTotal q \<and> or_tax r = q_taxTotal q \<and>
    ot_lines (sh_orders t) = ot_lines (sh_orders s) @ xs \<and> list_all2 (line_of oid) xs (q_lines q) \<and>
    sd_levels (sh_stock t) = sd_levels (sh_stock s) \<and> sh_nextOrderNumber t = sh_nextOrderNumber s + 1 \<and>
    (\<forall>d \<in> set (sh_checkouts t). ch_id d = i \<longrightarrow> ch_status d = CO_COMPLETED \<and> ch_completedOrderId d = Some oid) \<and>
    (\<forall>x \<in> set (sh_payments t). pm_id x = pm_id p \<longrightarrow>
       pm_status x = PAY_CAPTURED \<and> pm_capturedAmount x = pm_amount x \<and> pm_orderId x = Some oid) \<and>
    (\<forall>x \<in> set (sh_payments t). pm_checkoutId x = i \<longrightarrow> pm_status x \<noteq> PAY_PENDING)"
proof -
  note cc = loadCheckout_Some[OF assms(1)] and pp = lockPaymentByReference_Some[OF assms(2)]
  have i: "ch_id c = i" "pm_checkoutId p = i" using cc pp by simp_all
  let ?v = "supersede (ch_id c) (pm_id p) (capture env state p s)"
  obtain email where email: "ch_email c = Some email" "email \<noteq> []" "q_total q = pm_amount p" "q_currency q = pm_currency p"
    using assms(8,9) by (cases "ch_email c") (auto simp: pays_quote_def no_text_def)
  have v: "sh_nextOrderNumber ?v = sh_nextOrderNumber s" "sh_orders ?v = sh_orders s" "sh_stock ?v = sh_stock s"
    "sh_redemptions ?v = sh_redemptions s" "sh_discounts ?v = sh_discounts s" "sh_checkouts ?v = sh_checkouts s"
    by (simp_all add: supersede_def)
  have "discount_claimable c (q_discount q) ?v" using assms(11) unfolding discount_claimable_def v .
  then obtain u over where cl: "claim_discount c (q_discount q) ?v = Inr (u, over)" using claim_discount_iff by blast
  have u: "sh_nextOrderNumber u = sh_nextOrderNumber s" "ot_orders (sh_orders u) = ot_orders (sh_orders s)"
    "ot_lines (sh_orders u) = ot_lines (sh_orders s)" "sh_stock u = sh_stock s" "sh_checkouts u = sh_checkouts s"
    "sh_payments u = sh_payments ?v"
    using frame_claim_discount[OF cl] claim_discount_stock[OF cl] v by (simp_all add: frame_def)
  have "order_placeable c q u" using assms(10) unfolding order_placeable_def u .
  then obtain t oid xs where t: "place_order env c p q email False over u = Inr (t, COMPLETED_ORDER oid (sh_nextOrderNumber s) True)"
    "ot_lines (sh_orders t) = ot_lines (sh_orders s) @ xs" "list_all2 (line_of oid) xs (q_lines q)"
    "sd_levels (sh_stock t) = sd_levels (sh_stock s)"
    using place_order_succeeds[of c q u env p email False over] assms(5) u by auto
  have "completeCheckout env c p (capture env state p s) = place_order env c p q email False over u"
    using assms(5,8) email cl by (simp add: completeCheckout_def claim_stock_def)
  then have run: "applyPaymentOutcome env i state provider s = Inr (t, COMPLETED_ORDER oid (sh_nextOrderNumber s) True)"
    using t(1) assms(1-7) i
    by (simp add: applyPaymentOutcome_def assertPaymentTransition_def captured_status)
  obtain cust test where eff:
    "ot_orders (sh_orders t) = ot_orders (sh_orders s) @ [order_of env c q oid (sh_nextOrderNumber s) cust False test]"
    "sh_payments t = update_rows (\<lambda>x. pm_id x = pm_id p) (\<lambda>x. x\<lparr>pm_orderId := Some oid\<rparr>) (sh_payments ?v)"
    "sh_checkouts t = update_rows (\<lambda>d. ch_id d = ch_id c) (\<lambda>d. d\<lparr>ch_status := CO_COMPLETED,
       ch_completedOrderId := Some oid, ch_customerId := Some cust\<rparr>) (sh_checkouts s)"
    "sh_nextOrderNumber t = sh_nextOrderNumber s + 1"
    using t(1) by (rule place_order_effect) (use u in auto)
  have "ch_status d = CO_COMPLETED \<and> ch_completedOrderId d = Some oid" if "d \<in> set (sh_checkouts t)" "ch_id d = i" for d
    using that(1) unfolding eff(3) by (cases rule: update_rows_cases) (use that(2) i(1) in auto)
  moreover have "(pm_id x = pm_id p \<longrightarrow> pm_status x = PAY_CAPTURED \<and> pm_capturedAmount x = pm_amount x \<and> pm_orderId x = Some oid) \<and>
      (pm_checkoutId x = i \<longrightarrow> pm_status x \<noteq> PAY_PENDING)" if "x \<in> set (sh_payments t)" for x
  proof -
    from that obtain z where "z \<in> set (sh_payments s)" and
      "x = (\<lambda>x. if pm_id x = pm_id p then x\<lparr>pm_orderId := Some oid\<rparr> else x)
        ((\<lambda>x. if pm_checkoutId x = i \<and> pm_status x = PAY_PENDING \<and> pm_id x \<noteq> pm_id p
          then x\<lparr>pm_status := PAY_CANCELLED, pm_failureCode := Some ''SUPERSEDED''\<rparr> else x)
        (if pm_id z = pm_id p then captured env state z else z))"
      unfolding eff(2) supersede_def set_payments_fields capture_fields update_rows_def map_map set_map i(1) by auto
    then show ?thesis by (cases "pm_id z = pm_id p") (simp_all add: captured_def)
  qed
  moreover have "or_total (order_of env c q oid n cust False test) = pm_amount p \<and>
      or_currency (order_of env c q oid n cust False test) = pm_currency p" for n
    using email by (simp add: order_of_def)
  ultimately show ?thesis
    by (intro exI[of _ t] exI[of _ oid] exI[of _ "order_of env c q oid (sh_nextOrderNumber s) cust False test"] exI[of _ xs])
      (use run eff(1,4) t(2-4) i(1) in \<open>auto simp: order_of_def\<close>)
qed

text \<open>The transaction of such a capture succeeds only when the order fits.\<close>

lemma capture_needs:
  assumes "loadCheckout i s = Some c" "lockPaymentByReference i provider (ps_providerPaymentId state) s = Some p"
    and "ps_status state = PS_CAPTURED" "pm_status p = PAY_PENDING" "ch_status c = CO_PAYMENT_PENDING"
    and "ps_amount state = Some (pm_amount p)" "ps_currency state = Some (pm_currency p)"
    and "ch_quote c = Some q" "pays_quote c p" "applyPaymentOutcome env i state provider s = Inr (t, r)"
  shows "order_fits c q s"
proof -
  let ?v = "supersede (ch_id c) (pm_id p) (capture env state p s)"
  obtain email where email: "ch_email c = Some email" "email \<noteq> []" "q_total q = pm_amount p" "q_currency q = pm_currency p"
    using assms(8,9) by (cases "ch_email c") (auto simp: pays_quote_def no_text_def)
  have v: "sh_nextOrderNumber ?v = sh_nextOrderNumber s" "sh_stock ?v = sh_stock s"
    "sh_redemptions ?v = sh_redemptions s" "sh_discounts ?v = sh_discounts s"
    by (simp_all add: supersede_def)
  have "pm_checkoutId p = ch_id c" using loadCheckout_Some[OF assms(1)] lockPaymentByReference_Some[OF assms(2)] by simp
  then have "completeCheckout env c p (capture env state p s) = Inr (t, r)"
    using assms by (simp add: applyPaymentOutcome_def assertPaymentTransition_def captured_status)
  then obtain u over where cl: "claim_discount c (q_discount q) ?v = Inr (u, over)"
    and pl: "place_order env c p q email False over u = Inr (t, r)"
    using assms(5,8) email by (auto simp: completeCheckout_def claim_stock_def bindR_eq_Inr)
  have u: "sh_nextOrderNumber u = sh_nextOrderNumber s" "sh_stock u = sh_stock s"
    using frame_claim_discount[OF cl] claim_discount_stock[OF cl] v by (simp_all add: frame_def)
  have "discount_claimable c (q_discount q) ?v" using cl claim_discount_iff by blast
  then have "discount_claimable c (q_discount q) s" unfolding discount_claimable_def v .
  with place_order_needs[OF pl] show ?thesis unfolding order_fits_def u by blast
qed

end
