(* ===== verification/Purchase.thy ===== *)
theory Purchase
  imports Placing
begin

section \<open>Properties of the checkout service\<close>

text \<open>
  What the service keeps over any run, what a captured payment does, and what beginning and
  ending an attempt do to stock and discounts; with a concrete store for the witnesses.
\<close>

subsection \<open>A store and one purchase\<close>

text \<open>
  One tracked variant, one online location, one shipping rate and one open cart; and the states
  of one purchase on it, from the cart to the order.
\<close>

definition sample_hash :: "price_quote \<Rightarrow> string" where
  "sample_hash q = [char_of (nat (q_total q) + 16 * length (q_problems q) + 64 * length (q_shippingOptions q))]"

definition sample_env :: checkout_env where
  "sample_env = \<lparr>ce_now = 10, ce_lc = (\<lambda>a b. int (length a) - int (length b)),
     ce_collate = (\<lambda>a b. int (length a) - int (length b)), ce_hash = sample_hash, ce_orderLinks = True,
     ce_opens = (\<lambda>_. True), ce_accepts = (\<lambda>_ _. True), ce_create = (\<lambda>p. Some (''r'', ''u''))\<rparr>"

definition sample_shelf :: stock_db where
  "sample_shelf = \<lparr>
     sd_locations = [\<lparr>lo_id = 7, lo_name = [], lo_code = [], lo_isActive = True, lo_fulfilsOnline = True,
       lo_priority = 0, lo_createdAt = 0, lo_deleted = False\<rparr>],
     sd_items = [\<lparr>it_id = 3, it_variantId = 4, it_tracked = True, it_policy = Some DENY, it_live = True\<rparr>],
     sd_levels = [\<lparr>lv_id = 1, lv_item = 3, lv_location = 7, lv_available = 9, lv_reserved = 0\<rparr>],
     sd_movements = [], sd_reservations = [], sd_next = 30\<rparr>"

definition sample_catalogue :: catalogue where
  "sample_catalogue = \<lparr>ct_products = [\<lparr>pr_id = 5, pr_title = [], pr_sellable = True\<rparr>],
     ct_variants = [\<lparr>va_id = 4, va_productId = 5, va_title = [], va_sku = None, va_currency = ''D'',
       va_price = 3, va_taxable = True, va_requiresShipping = True, va_weightGrams = None, va_deleted = False\<rparr>],
     ct_cartLines = [\<lparr>cl_id = 20, cl_cartId = 8, cl_variantId = 4, cl_quantity = 2, cl_createdAt = 1\<rparr>],
     ct_rates = [(True, \<lparr>sr_id = 9, sr_name = [], sr_type = FLAT, sr_amount = 1, sr_currency = ''D'',
       sr_minSubtotal = None, sr_maxSubtotal = None,
       sr_countries = [\<lparr>zc_countryCode = ''C'', zc_regionCodes = []\<rparr>]\<rparr>)],
     ct_tax = [], ct_taxRates = [], ct_codes = []\<rparr>"

definition sample_shop :: shop where
  "sample_shop = \<lparr>sh_stock = sample_shelf, sh_catalogue = sample_catalogue,
     sh_carts = [\<lparr>crt_id = 8, crt_tokenHash = ''c'', crt_status = CART_ACTIVE, crt_expiresAt = 99\<rparr>],
     sh_checkouts = [], sh_payments = [], sh_discounts = [], sh_redemptions = [], sh_customers = [],
     sh_connections = [\<lparr>cn_id = 11, cn_provider = ''p'', cn_active = True, cn_test = True\<rparr>],
     sh_orders = \<lparr>ot_orders = [], ot_lines = [], ot_taxes = [], ot_shipping = [], ot_discounts = [], ot_addresses = []\<rparr>,
     sh_events = [], sh_notifications = [], sh_access = [], sh_nextRandom = 0, sh_nextOrderNumber = 12\<rparr>"

definition sample_address :: checkout_address where
  "sample_address = \<lparr>ca_firstName = [], ca_lastName = [], ca_company = None, ca_line1 = [],
     ca_line2 = None, ca_city = [], ca_region = None, ca_regionCode = None,
     ca_postalCode = None, ca_countryCode = ''C'', ca_phone = None\<rparr>"

text \<open>The checkout after each of the shopper's steps.\<close>

definition sample_quote_at :: "quote_option list \<Rightarrow> quote_shipping option \<Rightarrow> int \<Rightarrow> checkout_problem list \<Rightarrow> price_quote" where
  "sample_quote_at options shipping amount problems = \<lparr>q_currency = ''D'', q_pricesIncludeTax = False,
     q_lines = [\<lparr>ql_variantId = 4, ql_productId = 5, ql_productTitle = [], ql_variantTitle = [],
       ql_sku = None, ql_quantity = 2, ql_unitPrice = 3, ql_subtotal = 6, ql_discount = 0, ql_tax = 0,
       ql_total = 6, ql_taxable = True, ql_requiresShipping = True, ql_weightGrams = None, ql_taxLines = []\<rparr>],
     q_unavailable = [], q_requiresShipping = True, q_shippingOptions = options, q_shipping = shipping,
     q_discount = None, q_discountCode = None, q_discountProblem = None, q_taxLines = [],
     q_subtotal = 6, q_discountTotal = 0, q_shippingTotal = amount, q_taxTotal = 0,
     q_total = 6 + amount, q_problems = problems\<rparr>"

definition sample_priced_checkout :: "string option \<Rightarrow> checkout_address option \<Rightarrow> uuid option \<Rightarrow> price_quote \<Rightarrow> checkout_row" where
  "sample_priced_checkout email address rate quote = \<lparr>ch_id = 30, ch_tokenHash = ''t'', ch_cartId = 8,
     ch_customerId = None, ch_email = email, ch_status = CO_OPEN, ch_currency = ''D'',
     ch_shippingAddress = address, ch_billingAddress = address, ch_shippingRateId = rate, ch_discountCode = None,
     ch_quote = Some quote, ch_pricingHash = Some (sample_hash quote), ch_expiresAt = 3600010, ch_completedOrderId = None\<rparr>"

definition sample_with :: "checkout_row \<Rightarrow> shop" where
  "sample_with c = sample_shop\<lparr>sh_stock := sample_shelf\<lparr>sd_next := 31\<rparr>, sh_checkouts := [c]\<rparr>"

definition sample_quote_0 :: price_quote where "sample_quote_0 = sample_quote_at [] None 0 [P_EMAIL, P_ADDRESS]"
definition sample_quote_1 :: price_quote where "sample_quote_1 = sample_quote_at [] None 0 [P_ADDRESS]"
definition sample_quote_2 :: price_quote where
  "sample_quote_2 = sample_quote_at [\<lparr>qo_rateId = 9, qo_name = [], qo_amount = 1\<rparr>] None 0 [P_SHIPPING]"
definition sample_quote_3 :: price_quote where
  "sample_quote_3 = sample_quote_at [\<lparr>qo_rateId = 9, qo_name = [], qo_amount = 1\<rparr>]
     (Some \<lparr>qs_rateId = 9, qs_name = [], qs_amount = 1, qs_tax = 0, qs_taxLines = []\<rparr>) 1 []"

definition sample_0 :: checkout_row where "sample_0 = sample_priced_checkout None None None sample_quote_0"
definition sample_1 :: checkout_row where "sample_1 = sample_priced_checkout (Some ''e'') None None sample_quote_1"
definition sample_2 :: checkout_row where
  "sample_2 = sample_priced_checkout (Some ''e'') (Some sample_address) None sample_quote_2"
definition sample_3 :: checkout_row where
  "sample_3 = sample_priced_checkout (Some ''e'') (Some sample_address) (Some 9) sample_quote_3"

definition sample_payment :: payment_row where
  "sample_payment = \<lparr>pm_id = 34, pm_connectionId = 11, pm_checkoutId = 30, pm_orderId = None,
     pm_provider = ''p'', pm_providerPaymentId = None, pm_providerChargeId = None, pm_redirectUrl = None,
     pm_status = PAY_PENDING, pm_currency = ''D'', pm_amount = 7, pm_capturedAmount = 0, pm_refunded = 0,
     pm_idempotencyKey = ''30:1'', pm_failureCode = None, pm_failureMessage = None, pm_expiresAt = 900010,
     pm_capturedAt = None\<rparr>"

definition sample_held :: stock_db where
  "sample_held = sample_shelf\<lparr>
     sd_levels := [\<lparr>lv_id = 1, lv_item = 3, lv_location = 7, lv_available = 7, lv_reserved = 2\<rparr>],
     sd_movements :=
       [\<lparr>mv_id = 31, mv_item = 3, mv_location = 7, mv_name = AVAILABLE, mv_delta = - 2, mv_resulting = 7,
         mv_reason = RESERVATION, mv_reference = Some (REF_CHECKOUT, 30), mv_actor = None, mv_note = None\<rparr>,
        \<lparr>mv_id = 32, mv_item = 3, mv_location = 7, mv_name = RESERVED, mv_delta = 2, mv_resulting = 2,
         mv_reason = RESERVATION, mv_reference = Some (REF_CHECKOUT, 30), mv_actor = None, mv_note = None\<rparr>],
     sd_reservations := 
       [\<lparr>rs_id = 33, rs_item = 3, rs_location = 7, rs_checkout = 30, rs_order = None, rs_orderLine = None,
         rs_quantity = 2, rs_status = ACTIVE, rs_expiresAt = 900010\<rparr>],
     sd_next := 35\<rparr>"

definition sample_begun :: shop where
  "sample_begun = sample_shop\<lparr>sh_stock := sample_held,
     sh_checkouts := [sample_3\<lparr>ch_status := CO_PAYMENT_PENDING\<rparr>], sh_payments := [sample_payment]\<rparr>"

definition sample_paying :: shop where
  "sample_paying = sample_begun\<lparr>sh_payments := [sample_payment\<lparr>pm_providerPaymentId := Some ''r'',
     pm_redirectUrl := Some ''u''\<rparr>]\<rparr>"

definition sample_captured :: provider_state where
  "sample_captured = \<lparr>ps_providerPaymentId = ''r'', ps_status = PS_CAPTURED, ps_amount = Some 7,
     ps_currency = Some ''D'', ps_chargeId = Some ''h''\<rparr>"

lemma sample_start: "startCheckout sample_env ''D'' ''c'' None ''t'' sample_shop = Inr (sample_with sample_0, ''t'')"
  by code_simp

lemma sample_contact: "run_step sample_env ''D'' (updateContact ''e'') ''t'' (sample_with sample_0) =
    Inr (sample_with sample_1, sample_quote_1)"
  by code_simp

lemma sample_addressed: "run_step sample_env ''D'' (updateAddress sample_env ''D'' sample_address sample_address) ''t''
    (sample_with sample_1) = Inr (sample_with sample_2, sample_quote_2)"
  by code_simp

lemma sample_rated: "run_step sample_env ''D'' (selectShippingRate sample_env ''D'' 9) ''t''
    (sample_with sample_2) = Inr (sample_with sample_3, sample_quote_3)"
  by code_simp

lemma sample_begin: "inCheckout ''t'' (begin_body sample_env ''D'' (sample_hash sample_quote_3)) (sample_with sample_3) =
    Inr (sample_begun, Some (STARTED sample_payment))"
  by code_simp

lemma sample_record: "record_start 30 34 (Some (''r'', ''u'')) sample_begun = Inr (sample_paying, REDIRECT ''u'')"
  by code_simp

definition sample_paid :: shop where
  "sample_paid = (case applyPaymentOutcome sample_env 30 sample_captured ''p'' sample_paying of Inl e \<Rightarrow> sample_paying | Inr (t, r) \<Rightarrow> t)"

lemma sample_placeable: "order_placeable (sample_3\<lparr>ch_status := CO_PAYMENT_PENDING\<rparr>) sample_quote_3 sample_paying"
  by code_simp


lemma sample_rows:
  "loadCheckout 30 sample_paying = Some (sample_3\<lparr>ch_status := CO_PAYMENT_PENDING\<rparr>)"
  "lockPaymentByReference 30 ''p'' (ps_providerPaymentId sample_captured) sample_paying =
     Some (sample_payment\<lparr>pm_providerPaymentId := Some ''r'', pm_redirectUrl := Some ''u''\<rparr>)"
  "ps_status sample_captured = PS_CAPTURED" "ps_amount sample_captured = Some 7" "ps_currency sample_captured = Some ''D''"
  "pm_status sample_payment = PAY_PENDING" "pm_amount sample_payment = 7" "pm_currency sample_payment = ''D''"
  "ch_quote sample_3 = Some sample_quote_3" "q_discount sample_quote_3 = None"
  "pays_quote (sample_3\<lparr>ch_status := CO_PAYMENT_PENDING\<rparr>)
     (sample_payment\<lparr>pm_providerPaymentId := Some ''r'', pm_redirectUrl := Some ''u''\<rparr>)"
  "sh_nextOrderNumber sample_paying = 12" "sh_payments sample_paying =
     [sample_payment\<lparr>pm_providerPaymentId := Some ''r'', pm_redirectUrl := Some ''u''\<rparr>]"
  "ot_orders (sh_orders sample_paying) = []"
  by (simp_all add: loadCheckout_def lockPaymentByReference_def sample_paying_def sample_begun_def sample_captured_def sample_shop_def
      sample_payment_def sample_3_def sample_priced_checkout_def sample_quote_3_def sample_quote_at_def pays_quote_def no_text_def)

lemma sample_outcome:
  "\<exists>oid. applyPaymentOutcome sample_env 30 sample_captured ''p'' sample_paying = Inr (sample_paid, COMPLETED_ORDER oid 12 True)"
  "map or_number (ot_orders (sh_orders sample_paid)) = [12]"
proof -
  have "\<exists>t oid r. applyPaymentOutcome sample_env 30 sample_captured ''p'' sample_paying = Inr (t, COMPLETED_ORDER oid 12 True) \<and>
      ot_orders (sh_orders t) = [r] \<and> or_number r = 12"
    using capture_places_order[of 30 sample_paying _ "''p''" sample_captured _ sample_quote_3 sample_env,
        OF sample_rows(1-3) _ _ _ _ _ sample_rows(11) sample_placeable]
    by (auto simp: sample_rows discount_claimable_def)
  then show "\<exists>oid. applyPaymentOutcome sample_env 30 sample_captured ''p'' sample_paying =
      Inr (sample_paid, COMPLETED_ORDER oid 12 True)"
    "map or_number (ot_orders (sh_orders sample_paid)) = [12]"
    unfolding sample_paid_def by auto
qed

lemma sample_steps:
  "service_step sample_hash sample_shop (sample_with sample_0)"
  "service_step sample_hash (sample_with sample_0) (sample_with sample_1)"
  "service_step sample_hash (sample_with sample_1) (sample_with sample_2)"
  "service_step sample_hash (sample_with sample_2) (sample_with sample_3)"
  "service_step sample_hash (sample_with sample_3) sample_begun"
  "service_step sample_hash sample_begun sample_paying"
  "service_step sample_hash sample_paying sample_paid"
proof -
  have h: "ce_hash sample_env = sample_hash" by (simp add: sample_env_def)
  show "service_step sample_hash sample_shop (sample_with sample_0)"
    by (rule service_step.started[OF sample_start h])
  show "service_step sample_hash (sample_with sample_0) (sample_with sample_1)"
    by (rule service_step.edited[OF sample_contact service_edit.contact h])
  show "service_step sample_hash (sample_with sample_1) (sample_with sample_2)"
    by (rule service_step.edited[OF sample_addressed service_edit.address h])
  show "service_step sample_hash (sample_with sample_2) (sample_with sample_3)"
    by (rule service_step.edited[OF sample_rated service_edit.rate h])
  have "case loadByToken ''t'' (sample_with sample_3) of None \<Rightarrow> True
    | Some c \<Rightarrow> collision_free sample_env c ''D'' (sample_with sample_3)" by code_simp
  then show "service_step sample_hash (sample_with sample_3) sample_begun"
    by (intro service_step.begun[OF sample_begin _ h]) auto
  show "service_step sample_hash sample_begun sample_paying" by (rule service_step.recorded[OF sample_record])
  show "service_step sample_hash sample_paying sample_paid" using sample_outcome(1) service_step.outcome by blast
qed

lemma sample_run:
  "(service_step sample_hash)\<^sup>*\<^sup>* sample_shop sample_paying" "(service_step sample_hash)\<^sup>*\<^sup>* sample_shop sample_paid"
proof -
  show "(service_step sample_hash)\<^sup>*\<^sup>* sample_shop sample_paying"
    using sample_steps by (meson rtranclp.rtrancl_into_rtrancl rtranclp.rtrancl_refl)
  then show "(service_step sample_hash)\<^sup>*\<^sup>* sample_shop sample_paid"
    using sample_steps(7) by (rule rtranclp.rtrancl_into_rtrancl)
qed

lemma sample_init: "service_init sample_shop"
  by (simp add: service_init_def sample_shop_def)

subsection \<open>The service refines the protocol\<close>

text \<open>
  C1: the service implements the payment protocol. However the transactions of the checkout
  service interleave (starting, viewing, editing, beginning, recording the provider's answer,
  webhooks' and returns' outcomes, cancelling, sweeping), their effect on checkouts, attempts and
  orders is a run of the abstract protocol of seven steps.
\<close>

theorem service_refines_protocol:
  assumes "service_init s" "(service_step h)\<^sup>*\<^sup>* s t"
  shows "protocol\<^sup>*\<^sup>* (abs_shop s) (abs_shop t)"
  using service_run_good[OF assms(2) service_init_good[OF assms(1)]] by blast

theorem service_refines_protocol_witness:
  "protocol\<^sup>*\<^sup>* (abs_shop sample_shop) (abs_shop sample_paying) \<and>
   jn_checkout (abs_shop sample_paying) 30 = Some CO_PAYMENT_PENDING"
  using service_refines_protocol[OF sample_init sample_run(1)]
  by (simp add: abs_shop_def view_rows_def sample_paying_def sample_begun_def sample_3_def sample_priced_checkout_def)



text \<open>
  C2: one order per checkout. In every reachable state a completed checkout has exactly one
  order, the one it names; no other checkout has any; and no two orders share a number.
\<close>

theorem orders_match_checkouts:
  assumes "service_init s" "(service_step h)\<^sup>*\<^sup>* s t"
  shows "distinct (map or_checkoutId (ot_orders (sh_orders t))) \<and> inj_on or_number (set (ot_orders (sh_orders t))) \<and>
    (\<forall>c \<in> set (sh_checkouts t). ch_completedOrderId c =
       (if ch_status c = CO_COMPLETED
        then map_option or_id (find (\<lambda>r. or_checkoutId r = ch_id c) (ot_orders (sh_orders t))) else None)) \<and>
    (\<forall>c \<in> set (sh_checkouts t). ch_status c = CO_COMPLETED \<longleftrightarrow>
       (\<exists>r \<in> set (ot_orders (sh_orders t)). or_checkoutId r = ch_id c))"
proof -
  have "service_ok t" using service_run_good[OF assms(2) service_init_good[OF assms(1)]] by (simp add: service_good_def)
  note ok = service_okD[OF this]
  let ?rows = "ot_orders (sh_orders t)"
  have "inj_on or_number (set ?rows)"
  proof (rule inj_onI)
    fix r r' assume r: "r \<in> set ?rows" "r' \<in> set ?rows" "or_number r = or_number r'"
    then have "or_checkoutId r = or_checkoutId r'"
      using abs_order[OF ok(1) r(1)] abs_order[OF ok(1) r(2)] ok(4) unfolding orders_ok_def by metis
    then show "r = r'" using row_unique[OF keysD(3)[OF ok(1)] r(1,2)] by simp
  qed
  moreover have fin: "ch_status c = CO_COMPLETED \<longleftrightarrow> (\<exists>r \<in> set ?rows. or_checkoutId r = ch_id c)"
    if "c \<in> set (sh_checkouts t)" for c
  proof -
    have "ch_status c = CO_COMPLETED \<longleftrightarrow> jn_order (abs_shop t) (ch_id c) \<noteq> None"
      using ok(4) abs_checkout[OF ok(1) that] unfolding orders_ok_def by (metis option.inject)
    then show ?thesis by (auto simp: abs_shop_simps view_rows_None image_iff simp del: not_None_eq) metis+
  qed
  moreover have "ch_completedOrderId c = (if ch_status c = CO_COMPLETED
      then map_option or_id (find (\<lambda>r. or_checkoutId r = ch_id c) ?rows) else None)"
    if c: "c \<in> set (sh_checkouts t)" for c
  proof (cases "find (\<lambda>r. or_checkoutId r = ch_id c) ?rows")
    case None
    then have "jn_order (abs_shop t) (ch_id c) = None" by (auto simp: find_None_iff abs_shop_simps view_rows_None)
    then show ?thesis using linksD(1)[OF ok(2) c] fin[OF c] None by simp
  next
    case (Some r)
    then have r: "r \<in> set ?rows" "or_checkoutId r = ch_id c" by (auto dest: find_Some_iff2)
    then show ?thesis using linksD(1)[OF ok(2) c] fin[OF c] abs_order[OF ok(1) r(1)] Some by auto
  qed
  ultimately show ?thesis using keysD(3)[OF ok(1)] by blast
qed

theorem orders_match_checkouts_witness:
  "inj_on or_number (set (ot_orders (sh_orders sample_paid))) \<and> map or_number (ot_orders (sh_orders sample_paid)) = [12]"
  using orders_match_checkouts[OF sample_init sample_run(2)] sample_outcome by simp

text \<open>
  C7: one attempt in flight, for the right amount. In every reachable state a checkout is
  waiting for a payment exactly when it has a pending attempt, it has at most one, and that
  attempt asks for the total and currency of the checkout's stored quote.
\<close>

theorem one_attempt_in_flight:
  assumes "service_init s" "(service_step h)\<^sup>*\<^sup>* s t" "c \<in> set (sh_checkouts t)"
  shows "(ch_status c = CO_PAYMENT_PENDING \<longleftrightarrow>
      (\<exists>p \<in> set (sh_payments t). pm_checkoutId p = ch_id c \<and> pm_status p = PAY_PENDING)) \<and>
    (\<forall>p \<in> set (sh_payments t). \<forall>p' \<in> set (sh_payments t). pm_checkoutId p = ch_id c \<and> pm_status p = PAY_PENDING \<and>
       pm_checkoutId p' = ch_id c \<and> pm_status p' = PAY_PENDING \<longrightarrow> p = p') \<and>
    (\<forall>p \<in> set (sh_payments t). pm_checkoutId p = ch_id c \<and> pm_status p = PAY_PENDING \<longrightarrow>
       (\<exists>q. ch_quote c = Some q \<and> pm_amount p = q_total q \<and> pm_currency p = q_currency q))"
proof (intro conjI ballI impI)
  have "service_ok t" using service_run_good[OF assms(2) service_init_good[OF assms(1)]] by (simp add: service_good_def)
  note ok = service_okD[OF this]
  have "ch_status c = CO_PAYMENT_PENDING \<longleftrightarrow> (\<exists>k. pending_at (abs_shop t) k (ch_id c))"
    using ok(3) abs_checkout[OF ok(1) assms(3)] unfolding attempts_ok_def by (metis option.inject)
  then show "ch_status c = CO_PAYMENT_PENDING \<longleftrightarrow>
      (\<exists>p \<in> set (sh_payments t). pm_checkoutId p = ch_id c \<and> pm_status p = PAY_PENDING)"
    using pending_rows[OF ok(1)] by auto
  fix p p' assume p: "p \<in> set (sh_payments t)"
  {
    assume p': "p' \<in> set (sh_payments t)" and
      "pm_checkoutId p = ch_id c \<and> pm_status p = PAY_PENDING \<and> pm_checkoutId p' = ch_id c \<and> pm_status p' = PAY_PENDING"
    then have "pending_at (abs_shop t) (pm_id p) (ch_id c)" "pending_at (abs_shop t) (pm_id p') (ch_id c)"
      using pending_rows[OF ok(1)] p by blast+
    from attempts_unique[OF ok(3) this] show "p = p'" using row_unique[OF keysD(2)[OF ok(1)] p p'] by simp
  }
  assume "pm_checkoutId p = ch_id c \<and> pm_status p = PAY_PENDING"
  then have "pays_quote c p" using linksD(2)[OF ok(2) assms(3) p] by simp
  then show "\<exists>q. ch_quote c = Some q \<and> pm_amount p = q_total q \<and> pm_currency p = q_currency q"
    by (auto simp: pays_quote_def split: option.splits)
qed

theorem one_attempt_in_flight_witness:
  "\<exists>c \<in> set (sh_checkouts sample_paying). ch_status c = CO_PAYMENT_PENDING \<and>
     (\<exists>p \<in> set (sh_payments sample_paying). pm_status p = PAY_PENDING \<and> pm_amount p = 7)"
  using one_attempt_in_flight[OF sample_init sample_run(1), of "sample_3\<lparr>ch_status := CO_PAYMENT_PENDING\<rparr>"]
  by (simp add: sample_paying_def sample_begun_def sample_payment_def)

text \<open>
  C9: captures and orders are final. No later transaction of the service takes back a
  captured payment, changes its amount or checkout, or changes which order, with which number,
  a checkout has.
\<close>

theorem captures_and_orders_are_final:
  assumes "service_init s" "(service_step h)\<^sup>*\<^sup>* s t" "(service_step h)\<^sup>*\<^sup>* t u"
  shows "(\<forall>p \<in> set (sh_payments t). pm_status p = PAY_CAPTURED \<longrightarrow> (\<exists>p' \<in> set (sh_payments u). pm_id p' = pm_id p \<and>
       pm_status p' = PAY_CAPTURED \<and> pm_checkoutId p' = pm_checkoutId p \<and> pm_amount p' = pm_amount p \<and>
       pm_currency p' = pm_currency p)) \<and>
    (\<forall>r \<in> set (ot_orders (sh_orders t)). \<exists>r' \<in> set (ot_orders (sh_orders u)). or_id r' = or_id r \<and>
       or_number r' = or_number r \<and> or_checkoutId r' = or_checkoutId r)"
proof -
  have good: "service_good h t" using service_run_good[OF assms(2) service_init_good[OF assms(1)]] by blast
  then have keys: "keys_ok t" by (simp add: service_good_def service_ok_def)
  have run: "protocol\<^sup>*\<^sup>* (abs_shop t) (abs_shop u)" using service_run_good[OF assms(3) good] by blast
  have captured: "jn_payment (abs_shop u) k = Some (c, PAY_CAPTURED, a, x)"
    if "jn_payment (abs_shop t) k = Some (c, PAY_CAPTURED, a, x)" for k c a x
    using run that by (induction rule: rtranclp_induct) (auto intro: protocol_captured)
  have order: "jn_order (abs_shop u) c = Some v" if "jn_order (abs_shop t) c = Some v" for c v
    using run that by (induction rule: rtranclp_induct) (auto intro: protocol_order)
  have "\<exists>p' \<in> set (sh_payments u). pm_id p' = pm_id p \<and> attempt_of p' = attempt_of p"
    if "p \<in> set (sh_payments t)" "pm_status p = PAY_CAPTURED" for p
    using captured[of "pm_id p"] abs_payment[OF keys that(1)] that(2)
    by (auto simp: abs_shop_simps attempt_of_def dest!: view_rows_Some)
  moreover have "\<exists>r' \<in> set (ot_orders (sh_orders u)). or_id r' = or_id r \<and> or_number r' = or_number r \<and>
      or_checkoutId r' = or_checkoutId r" if "r \<in> set (ot_orders (sh_orders t))" for r
    using order_row[OF order[OF abs_order[OF keys that]]] by blast
  ultimately show ?thesis by (auto simp: attempt_of_def)
qed

theorem captures_and_orders_are_final_witness:
  "\<exists>r \<in> set (ot_orders (sh_orders sample_paid)). or_number r = 12"
proof -
  have "12 \<in> set (map or_number (ot_orders (sh_orders sample_paid)))" unfolding sample_outcome(2) by simp
  then obtain r where r: "r \<in> set (ot_orders (sh_orders sample_paid))" "or_number r = 12" by auto
  then show ?thesis
    using captures_and_orders_are_final[OF sample_init sample_run(2) rtranclp.rtrancl_refl] by fastforce
qed

subsection \<open>What a captured payment does\<close>



text \<open>Rows found by a key that an update keeps.\<close>

lemma find_update_rows:
  "(\<And>r. P (f r) = P r) \<Longrightarrow> find P (update_rows sel f rows) = map_option (\<lambda>r. if sel r then f r else r) (find P rows)"
  by (induction rows) (auto simp: update_rows_def)

lemma moves_on_order:
  assumes "moves_on s t" "jn_order (abs_shop s) c = Some v"
  shows "jn_order (abs_shop t) c = Some v"
  using assms protocol_order[of "abs_shop s" "abs_shop t" c v] by (auto simp: moves_on_def)

lemma captured_again:
  assumes "loadCheckout i t = Some c" "lockPaymentByReference i provider (ps_providerPaymentId state) t = Some p"
    and "pm_status p = PAY_CAPTURED" "ps_status state = PS_CAPTURED" "service_ok t" "jn_order (abs_shop t) i = Some (oid, n)"
  shows "applyPaymentOutcome env i state provider t = Inr (t, COMPLETED_ORDER oid n False)"
  using assms loadCheckout_Some[OF assms(1)] lockPaymentByReference_Some[OF assms(2)] existingOrder_abs[OF assms(5), of c]
  by (simp add: applyPaymentOutcome_def)

lemma applyPaymentOutcome_again:
  assumes "applyPaymentOutcome env i state provider s = Inr (t, COMPLETED_ORDER oid n b)" "service_good h s"
  shows "applyPaymentOutcome env' i state provider t = Inr (t, COMPLETED_ORDER oid n False)"
  using assms(1)
proof (cases rule: applyPaymentOutcome_steps)
  case (repeated c p oid' n')
  then show ?thesis using assms(1) by (simp add: applyPaymentOutcome_def loadCheckout_Some lockPaymentByReference_Some)
next
  case (capturing c p)
  have ok: "service_ok s" using assms(2) by (simp add: service_good_def)
  have m: "moves_on s t" and ok': "service_ok t"
    using applyPaymentOutcome_good[OF assms(1,2)] by (simp_all add: service_good_def)
  note load = capturing(12) and lock = capturing(13)
  let ?ref = "\<lambda>x. pm_checkoutId x = i \<and> pm_provider x = provider \<and> pm_providerPaymentId x = Some (ps_providerPaymentId state)"
  have cap: "find ?ref (sh_payments (capture env state p s)) = Some (captured env state p)"
    using lock by (simp add: find_update_rows lockPaymentByReference_def captured_def)
  from capturing(11) show ?thesis
  proof (cases rule: completeCheckout_steps)
    case (extra k m)
    let ?p = "(captured env state p)\<lparr>pm_orderId := Some k\<rparr>"
    have l: "lockPaymentByReference i provider (ps_providerPaymentId state) t = Some ?p"
      using cap extra(4) by (simp add: lockPaymentByReference_def frame_def find_update_rows)
    have c: "loadCheckout i t = Some c" using load extra(4) by (simp add: loadCheckout_def frame_def)
    have "existingOrder c s = Some (oid, n)" using extra(2,3) existingOrder_cong[of "capture env state p s" s c] by simp
    then have "jn_order (abs_shop t) i = Some (oid, n)"
      using moves_on_order[OF m] existingOrder_abs[OF ok capturing(1)] capturing(2) by simp
    from captured_again[OF c l _ capturing(7) ok' this] show ?thesis by simp
  next
    case (placed q email s1 shortage s2 over)
    obtain k cust test where eff: "COMPLETED_ORDER oid n b = COMPLETED_ORDER k (sh_nextOrderNumber s2) True"
      "ot_orders (sh_orders t) = ot_orders (sh_orders s2) @ [order_of env c q k (sh_nextOrderNumber s2) cust shortage test]"
      "sh_payments t = update_rows (\<lambda>x. pm_id x = pm_id p) (\<lambda>x. x\<lparr>pm_orderId := Some k\<rparr>) (sh_payments s2)"
      "sh_checkouts t = update_rows (\<lambda>d. ch_id d = ch_id c) (\<lambda>d. d\<lparr>ch_status := CO_COMPLETED,
         ch_completedOrderId := Some k, ch_customerId := Some cust\<rparr>) (sh_checkouts s2)"
      using placed(7) by (rule place_order_effect) blast
    note f1 = frame_claim_stock[OF placed(5)] and f2 = frame_claim_discount[OF placed(6)]
    have cs: "sh_checkouts s2 = sh_checkouts s" using f1 f2 by (simp add: frame_def supersede_def)
    have ps: "sh_payments s2 = sh_payments (supersede (ch_id c) (pm_id p) (capture env state p s))"
      using f1 f2 by (simp add: frame_def supersede_def)
    have "find ?ref (sh_payments t) = Some ((captured env state p)\<lparr>pm_orderId := Some k\<rparr>)"
      unfolding eff(3) ps supersede_def set_payments_fields by (simp add: find_update_rows cap del: capture_fields)
    then have l: "lockPaymentByReference i provider (ps_providerPaymentId state) t = Some ((captured env state p)\<lparr>pm_orderId := Some k\<rparr>)"
      by (simp add: lockPaymentByReference_def)
    obtain c' where c': "loadCheckout i t = Some c'"
      using load unfolding loadCheckout_def eff(4) cs by (simp add: find_update_rows)
    have "jn_order (abs_shop t) i = Some (oid, n)"
      using abs_order[OF service_okD(1)[OF ok'], of "order_of env c q k (sh_nextOrderNumber s2) cust shortage test"] eff(1,2) capturing(2)
      by (simp add: order_of_def)
    from captured_again[OF c' l _ capturing(7) ok' this] show ?thesis by simp
  qed simp_all
qed simp_all

text \<open>
  C16: outcomes are idempotent. Once an outcome answered with an order, applying the same
  provider state again (a webhook delivered twice, a return page reloaded, the sweep) changes
  nothing and answers with the same order.
\<close>

theorem outcome_is_idempotent:
  assumes "service_init s0" "(service_step h)\<^sup>*\<^sup>* s0 s"
    and "applyPaymentOutcome env i state provider s = Inr (t, COMPLETED_ORDER oid n b)"
  shows "applyPaymentOutcome env' i state provider t = Inr (t, COMPLETED_ORDER oid n False)"
  using applyPaymentOutcome_again[OF assms(3)] service_run_good[OF assms(2) service_init_good[OF assms(1)]] by blast

theorem outcome_is_idempotent_witness:
  "\<exists>oid. applyPaymentOutcome sample_env 30 sample_captured ''p'' sample_paid = Inr (sample_paid, COMPLETED_ORDER oid 12 False)"
  using outcome_is_idempotent[OF sample_init sample_run(1)] sample_outcome(1) by blast

text \<open>
  C18: a wrong amount never becomes an order. When the provider reports a capture of another
  amount or currency than the pending attempt's, the attempt fails with AMOUNT_MISMATCH, the
  checkout is open again and no order is created.
\<close>

theorem mismatched_capture_creates_no_order:
  assumes "loadCheckout i s = Some c" "lockPaymentByReference i provider (ps_providerPaymentId state) s = Some p"
    and "ps_status state = PS_CAPTURED" "pm_status p = PAY_PENDING" "ch_status c = CO_PAYMENT_PENDING"
    and "ps_amount state \<noteq> Some (pm_amount p) \<or> ps_currency state \<noteq> Some (pm_currency p)"
    and "applyPaymentOutcome env i state provider s = Inr (t, r)"
  shows "r = OUTCOME_FAILED \<and> ot_orders (sh_orders t) = ot_orders (sh_orders s) \<and>
    (\<forall>x \<in> set (sh_payments t). pm_id x = pm_id p \<longrightarrow> pm_status x = PAY_FAILED \<and> pm_failureCode x = Some ''AMOUNT_MISMATCH'') \<and>
    (\<forall>d \<in> set (sh_checkouts t). ch_id d = i \<longrightarrow> ch_status d = CO_OPEN)"
proof -
  have i: "ch_id c = i" "pm_checkoutId p = i"
    using loadCheckout_Some[OF assms(1)] lockPaymentByReference_Some[OF assms(2)] by simp_all
  have "applyPaymentOutcome env i state provider s = bindR (endAttempt c p PAY_FAILED ''AMOUNT_MISMATCH''
      (Some ''The provider reported a different amount or currency.'') s) (\<lambda>s1. Inr (s1, OUTCOME_FAILED))"
    using assms(1-6) i by (auto simp: applyPaymentOutcome_def)
  with assms(7) have e: "endAttempt c p PAY_FAILED ''AMOUNT_MISMATCH''
      (Some ''The provider reported a different amount or currency.'') s = Inr t" and r: "r = OUTCOME_FAILED"
    by (auto simp: bindR_eq_Inr)
  note eff = endAttempt_effect[OF e assms(4)]
  have "pm_status x = PAY_FAILED \<and> pm_failureCode x = Some ''AMOUNT_MISMATCH''"
    if "x \<in> set (sh_payments t)" "pm_id x = pm_id p" for x
    using that(1) unfolding eff(2) by (cases rule: update_rows_cases) (use that(2) in \<open>auto simp: mark_ended_def\<close>)
  moreover have "ch_status d = CO_OPEN" if "d \<in> set (sh_checkouts t)" "ch_id d = i" for d
    using that(1) unfolding eff(3) if_P[OF assms(5)]
    by (cases rule: update_rows_cases) (use that(2) i(1) in auto)
  ultimately show ?thesis using r eff(4) by blast
qed

lemma sample_mismatch: "\<exists>t. endAttempt (sample_3\<lparr>ch_status := CO_PAYMENT_PENDING\<rparr>) (sample_payment\<lparr>pm_providerPaymentId := Some ''r'',
    pm_redirectUrl := Some ''u''\<rparr>) PAY_FAILED ''AMOUNT_MISMATCH'' (Some ''The provider reported a different amount or currency.'')
    sample_paying = Inr t"
proof -
  let ?c = "sample_3\<lparr>ch_status := CO_PAYMENT_PENDING\<rparr>"
  have "case releaseCheckoutStock 30 sample_held of Inl e \<Rightarrow> False | Inr x \<Rightarrow> True" by code_simp
  then obtain db n where "releaseCheckoutStock 30 sample_held = Inr (db, n)" by (auto split: sum.splits)
  moreover have "sh_stock (set_payments sel f sample_paying) = sample_held" for sel f
    by (simp add: sample_paying_def sample_begun_def)
  ultimately have "on_stock (releaseCheckoutStock 30) (set_payments sel f sample_paying) =
      Inr ((set_payments sel f sample_paying)\<lparr>sh_stock := db\<rparr>, n)" for sel f by (simp add: on_stock_def)
  moreover have "ch_id ?c = 30" by (simp add: sample_3_def sample_priced_checkout_def)
  ultimately show ?thesis
    by (simp add: endAttempt_def assertPaymentTransition_def canPaymentTransition_def assertCheckoutTransition_def
      canCheckoutTransition_def sample_rows Let_def)
qed

theorem mismatched_capture_creates_no_order_witness:
  "\<exists>t. applyPaymentOutcome sample_env 30 (sample_captured\<lparr>ps_amount := Some 6\<rparr>) ''p'' sample_paying = Inr (t, OUTCOME_FAILED) \<and>
     ot_orders (sh_orders t) = []"
proof -
  let ?state = "sample_captured\<lparr>ps_amount := Some 6\<rparr>"
  let ?c = "sample_3\<lparr>ch_status := CO_PAYMENT_PENDING\<rparr>"
  let ?p = "sample_payment\<lparr>pm_providerPaymentId := Some ''r'', pm_redirectUrl := Some ''u''\<rparr>"
  have lock: "lockPaymentByReference 30 ''p'' (ps_providerPaymentId ?state) sample_paying = Some ?p"
    using sample_rows(2) by simp
  have ps: "ps_status ?state = PS_CAPTURED" "pm_status ?p = PAY_PENDING" "ch_status ?c = CO_PAYMENT_PENDING"
    "ps_amount ?state \<noteq> Some (pm_amount ?p) \<or> ps_currency ?state \<noteq> Some (pm_currency ?p)"
    "pm_checkoutId ?p = ch_id ?c"
    using sample_rows(3,6,7) by (simp_all add: sample_payment_def sample_3_def sample_priced_checkout_def)
  have "\<exists>t r. applyPaymentOutcome sample_env 30 ?state ''p'' sample_paying = Inr (t, r)"
    using sample_mismatch sample_rows(1) lock ps unfolding applyPaymentOutcome_def by auto
  then obtain t r where t: "applyPaymentOutcome sample_env 30 ?state ''p'' sample_paying = Inr (t, r)" by blast
  from mismatched_capture_creates_no_order[OF sample_rows(1) lock ps(1-4) t] t sample_rows(14) show ?thesis by auto
qed

text \<open>
  C35: a provider that cannot start the payment. The comment of \<open>beginPayment\<close> says such a
  failure "ends the attempt and releases both" the stock and the discount's use. The writes that
  end the attempt and the error that reports it belong to one transaction, so the error undoes
  them: the shopper sees the error while the checkout still waits for the payment, the attempt
  is still pending and everything it reserved stays reserved.
\<close>

theorem failed_start_keeps_the_attempt:
  assumes "inCheckout token (begin_body env currency confirmed) s = Inr (s1, Some (STARTED p))"
    and "provider_answer env p s1 = None"
  shows "(\<exists>e. beginPayment env currency token confirmed s = (s1, Inl e)) \<and>
    lockPendingPayment (pm_checkoutId p) s1 = Some p \<and>
    map_option ch_status (loadCheckout (pm_checkoutId p) s1) = Some CO_PAYMENT_PENDING"
proof -
  from assms(1) obtain c where c: "loadByToken token s = Some c" "begin_body env currency confirmed c s = Inr (s1, STARTED p)"
    by (auto simp: inCheckout_def bindR_eq_Inr split: option.splits)
  then obtain u q x conn where re: "repriceCheckout env c currency s = Inr (u, q, x)"
    and go: "start_attempt env c conn q u = Inr (s1, STARTED p)"
    unfolding begin_body_def by (auto simp: bindR_eq_Inr split: if_splits option.splits)
  have "ch_id c \<in> ch_id ` set (sh_checkouts s)" using loadByToken_Some[OF c(1)] by simp
  moreover have "map ch_id (sh_checkouts u) = map ch_id (sh_checkouts s)"
    using re by (auto simp: repriceCheckout_def Let_def bindR_eq_Inr liftE_Inr map_key_update split: if_splits)
  then have "ch_id ` set (sh_checkouts u) = ch_id ` set (sh_checkouts s)" by (metis set_map)
  ultimately obtain d0 where "d0 \<in> set (sh_checkouts u)" "ch_id d0 = ch_id c" by (metis imageE)
  then obtain d where d: "find (\<lambda>d. ch_id d = ch_id c) (sh_checkouts u) = Some d"
    by (cases "find (\<lambda>d. ch_id d = ch_id c) (sh_checkouts u)") (auto simp: find_None_iff)
  from go show ?thesis
  proof (cases rule: start_attempt_Inr)
    case (1 v k n p')
    then have p: "pm_checkoutId p = ch_id c" "pm_status p = PAY_PENDING" "p = p'"
      by (auto simp: new_payment_def dest: arg_cong[of p' _ pm_checkoutId] arg_cong[of p' _ pm_status])
    have lock: "lockPendingPayment (pm_checkoutId p) s1 = Some p"
      using 1(8,9) p by (auto simp: lockPendingPayment_def find_append list_ex_iff find_None_iff split: option.splits dest: find_Some_iff2)
    have load: "loadCheckout (pm_checkoutId p) s1 = Some (d\<lparr>ch_status := CO_PAYMENT_PENDING, ch_expiresAt := ce_now env + ttl\<rparr>)"
      using d p(1) unfolding loadCheckout_def 1(10) by (simp add: find_update_rows) (auto dest: find_Some_iff2)
    have "\<exists>e. record_start (pm_checkoutId p) (pm_id p) None s1 = Inl e"
      using load lock by (cases "endAttempt (d\<lparr>ch_status := CO_PAYMENT_PENDING, ch_expiresAt := ce_now env + ttl\<rparr>) p PAY_FAILED
        ''PROVIDER_ERROR'' (Some ''The payment provider couldn't start the payment.'') s1") (auto simp: record_start_def bindR_def)
    then show ?thesis using assms load lock by (auto simp: beginPayment_def transaction_def)
  qed
qed

theorem failed_start_keeps_the_attempt_witness:
  "lockPendingPayment 30 sample_begun = Some sample_payment \<and>
   (\<exists>e. beginPayment (sample_env\<lparr>ce_create := \<lambda>_. None\<rparr>) ''D'' ''t'' (sample_hash sample_quote_3) (sample_with sample_3) = (sample_begun, Inl e))"
proof -
  have "inCheckout ''t'' (begin_body (sample_env\<lparr>ce_create := \<lambda>_. None\<rparr>) ''D'' (sample_hash sample_quote_3)) (sample_with sample_3) =
      Inr (sample_begun, Some (STARTED sample_payment))"
    by code_simp
  moreover have "provider_answer (sample_env\<lparr>ce_create := \<lambda>_. None\<rparr>) sample_payment sample_begun = None" by code_simp
  moreover have "pm_checkoutId sample_payment = 30" by (simp add: sample_payment_def)
  ultimately show ?thesis using failed_start_keeps_the_attempt by metis
qed

subsection \<open>Discount uses\<close>

lemma filter_key_one: "distinct (map key rows) \<Longrightarrow> r \<in> set rows \<Longrightarrow> filter (\<lambda>q. key q = key r) rows = [r]"
proof (induction rows)
  case (Cons x rows)
  show ?case
  proof (cases "x = r")
    case True
    have "key q \<noteq> key r" if "q \<in> set rows" for q using Cons.prems(1) that unfolding True by (auto simp: image_iff)
    then show ?thesis using True by (simp add: filter_empty_conv)
  next
    case False
    then have "r \<in> set rows" "key x \<noteq> key r" using Cons.prems by auto
    then show ?thesis using Cons by simp
  qed
qed simp

text \<open>
  C34: discount uses are counted within the limit. Reserving a use for a checkout takes exactly
  one use, only of an active discount below its limit; and releasing the checkout's use restores
  every discount's counter.
\<close>

theorem discount_use_within_limit:
  assumes "reserveDiscountUse i d email s = Inr (t, True)"
    and "distinct (map di_id (sh_discounts s))" "\<forall>x \<in> set (sh_discounts s). 0 \<le> di_usageCount x"
    and "distinct (map (\<lambda>r. (rd_discountId r, rd_checkoutId r)) (sh_redemptions s))"
    and "\<forall>r \<in> set (sh_redemptions s). rd_checkoutId r = i \<longrightarrow> rd_status r \<noteq> RD_RESERVED"
  shows "(\<exists>x \<in> set (sh_discounts t). di_id x = qd_discountId d \<and> di_active x \<and>
      (\<forall>n. di_usageLimit x = Some n \<longrightarrow> di_usageCount x \<le> n)) \<and>
    sum_list (map di_usageCount (sh_discounts t)) = sum_list (map di_usageCount (sh_discounts s)) + 1 \<and>
    sh_discounts (releaseDiscountUse i t) = sh_discounts s"
proof -
  let ?can = "can_take (qd_discountId d)" and ?sel = "redemption_of (qd_discountId d) i"
  let ?inc = "\<lambda>x. x\<lparr>di_usageCount := di_usageCount x + 1\<rparr>"
  let ?held = "\<lambda>r. rd_checkoutId r = i \<and> rd_status r = RD_RESERVED"
  from assms(1) have ex: "list_ex ?can (sh_discounts s)" and ds: "sh_discounts t = update_rows ?can ?inc (sh_discounts s)"
    by (auto simp: reserveDiscountUse_def Let_def split: if_splits option.splits)
  then obtain x where x: "x \<in> set (sh_discounts s)" "?can x" by (auto simp: list_ex_iff)
  have only: "?can y \<longleftrightarrow> y = x" if "y \<in> set (sh_discounts s)" for y
    using row_unique[OF assms(2) that x(1)] x(2) by (auto simp: can_take_def)
  have "?inc x \<in> set (sh_discounts t)" using x unfolding ds in_update_rows by auto
  then have limit: "\<exists>x \<in> set (sh_discounts t). di_id x = qd_discountId d \<and> di_active x \<and>
      (\<forall>n. di_usageLimit x = Some n \<longrightarrow> di_usageCount x \<le> n)"
    by (rule bexI[rotated]) (use x(2) in \<open>auto simp: can_take_def split: option.splits\<close>)
  have none: "filter ?held (sh_redemptions s) = []" using assms(5) by (auto simp: filter_empty_conv)
  have one: "map rd_discountId (filter ?held (sh_redemptions t)) = [qd_discountId d]"
  proof (cases "find ?sel (sh_redemptions s)")
    case None
    then have "sh_redemptions t = sh_redemptions s @ [\<lparr>rd_discountId = qd_discountId d, rd_codeId = qd_codeId d,
        rd_checkoutId = i, rd_orderId = None, rd_customerId = None, rd_email = email, rd_status = RD_RESERVED\<rparr>]"
      using assms(1) ex by (auto simp: reserveDiscountUse_def Let_def)
    then show ?thesis using none by simp
  next
    case (Some r)
    then have r: "r \<in> set (sh_redemptions s)" "?sel r" by (auto dest: find_Some_iff2)
    have t: "sh_redemptions t = update_rows ?sel (\<lambda>r. r\<lparr>rd_status := RD_RESERVED\<rparr>) (sh_redemptions s)"
      using assms(1) ex Some by (auto simp: reserveDiscountUse_def Let_def split: if_splits)
    have "filter ?held (update_rows ?sel (\<lambda>r. r\<lparr>rd_status := RD_RESERVED\<rparr>) rs) =
        map (\<lambda>r. r\<lparr>rd_status := RD_RESERVED\<rparr>) (filter ?sel rs)"
      if "\<forall>r \<in> set rs. rd_checkoutId r = i \<longrightarrow> rd_status r \<noteq> RD_RESERVED" for rs
      using that by (induction rs) (auto simp: update_rows_def redemption_of_def)
    then have "map rd_discountId (filter ?held (sh_redemptions t)) = map rd_discountId (filter ?sel (sh_redemptions s))"
      using assms(5) t by simp
    moreover have "filter ?sel (sh_redemptions s) = [r]"
      using filter_key_one[OF assms(4) r(1)] r(2) by (simp add: redemption_of_def[abs_def])
    ultimately show ?thesis using r(2) by (simp add: redemption_of_def)
  qed
  have restored: "give_back (sh_discounts t) (qd_discountId d) = sh_discounts s"
    unfolding ds give_back_def update_rows_def map_map
  proof (rule map_idI)
    fix y assume y: "y \<in> set (sh_discounts s)"
    show "((\<lambda>r. if di_id r = qd_discountId d \<and> 0 < di_usageCount r then r\<lparr>di_usageCount := di_usageCount r - 1\<rparr> else r) \<circ>
        (\<lambda>r. if ?can r then ?inc r else r)) y = y"
    proof (cases "y = x")
      case True
      then show ?thesis using x assms(3) by (auto simp: can_take_def)
    next
      case False
      then have "\<not> ?can y" "di_id y \<noteq> qd_discountId d"
        using only[OF y] row_unique[OF assms(2) y x(1)] x(2) by (auto simp: can_take_def)
      then show ?thesis by simp
    qed
  qed
  have "sum_list (map di_usageCount (update_rows ?can ?inc rows)) = sum_list (map di_usageCount rows) + int (length (filter ?can rows))" for rows
    by (induction rows) (auto simp: update_rows_def)
  moreover have "filter ?can (sh_discounts s) = [x]"
    using filter_key_one[OF assms(2) x(1)] only row_unique[OF assms(2) _ x(1)] filter_cong[of "sh_discounts s" _ ?can "\<lambda>y. di_id y = di_id x"] by metis
  ultimately have "sum_list (map di_usageCount (sh_discounts t)) = sum_list (map di_usageCount (sh_discounts s)) + 1"
    using ds by simp
  then show ?thesis using limit one restored by (simp add: releaseDiscountUse_def Let_def)
qed

definition sample_discounted :: shop where
  "sample_discounted = sample_shop\<lparr>sh_discounts := [\<lparr>di_id = 1, di_title = [], di_type = PERCENTAGE, di_active = True,
     di_percentageBps = Some 500, di_amount = None, di_currency = None, di_minSubtotal = None, di_startsAt = 0,
     di_endsAt = None, di_usageLimit = Some 2, di_usageCount = 1\<rparr>]\<rparr>"

definition sample_use :: quote_discount where
  "sample_use = \<lparr>qd_discountId = 1, qd_codeId = 2, qd_code = [], qd_title = [], qd_type = PERCENTAGE,
     qd_percentageBps = Some 500, qd_amount = 1\<rparr>"

theorem discount_use_within_limit_witness:
  "\<exists>t. reserveDiscountUse 30 sample_use None sample_discounted = Inr (t, True) \<and>
     sh_discounts (releaseDiscountUse 30 t) = sh_discounts sample_discounted"
proof -
  have "\<exists>t. reserveDiscountUse 30 sample_use None sample_discounted = Inr (t, True)"
    by (simp add: reserveDiscountUse_def sample_use_def sample_discounted_def sample_shop_def can_take_def)
  then obtain t where t: "reserveDiscountUse 30 sample_use None sample_discounted = Inr (t, True)" by blast
  from discount_use_within_limit[OF t] show ?thesis using t
    by (simp add: sample_discounted_def sample_shop_def)
qed

end
