(* ===== verification/Rbac.thy ===== *)
theory Rbac
  imports Shop
begin

section \<open>Roles, permissions and contexts\<close>

text \<open>
  \<open>packages/tenancy/src/rbac.ts\<close> and \<open>platform-rbac.ts\<close>: the permission primitives, the roles
  with their grants and the rule for granting a role; \<open>packages/tenancy/src/context.ts\<close>: the
  context a resolver issues, the checks every service makes on it, and
  \<open>packages/commerce/src/internal.ts\<close>: a service's transaction in its store. A context is what
  its resolver read (who the user is, the role, the store's status); its organisation and store
  identifiers are those of the tables, so they are left out with the request's headers.
\<close>

datatype permission =
    ORGANISATION_READ | ORGANISATION_UPDATE | ORGANISATION_DELETE | ORGANISATION_EXPORT
   | OWNERSHIP_TRANSFER | AUDIT_READ | MEMBER_READ | MEMBER_MANAGE | BILLING_READ | BILLING_MANAGE
   | STORE_CREATE | STORE_READ | STORE_UPDATE | STORE_ARCHIVE | SETTINGS_MANAGE | PRODUCT_READ
   | PRODUCT_CREATE | PRODUCT_UPDATE | PRODUCT_ARCHIVE | COLLECTION_READ | COLLECTION_MANAGE
   | INVENTORY_READ | INVENTORY_ADJUST | LOCATION_MANAGE | MEDIA_READ | MEDIA_MANAGE | ORDER_READ
   | ORDER_MANAGE | ORDER_REFUND | ORDER_MESSAGE | CUSTOMER_READ | CUSTOMER_MANAGE | DISCOUNT_READ
   | DISCOUNT_MANAGE | ANALYTICS_READ | DESIGN_EDIT | PAGE_PUBLISH | THEME_PUBLISH
   | NAVIGATION_MANAGE | DOMAIN_MANAGE | API_KEY_MANAGE | WEBHOOK_MANAGE

definition PERMISSIONS :: "permission list" where
  "PERMISSIONS =
    [ORGANISATION_READ, ORGANISATION_UPDATE, ORGANISATION_DELETE, ORGANISATION_EXPORT,
     OWNERSHIP_TRANSFER, AUDIT_READ, MEMBER_READ, MEMBER_MANAGE, BILLING_READ, BILLING_MANAGE,
     STORE_CREATE, STORE_READ, STORE_UPDATE, STORE_ARCHIVE, SETTINGS_MANAGE, PRODUCT_READ,
     PRODUCT_CREATE, PRODUCT_UPDATE, PRODUCT_ARCHIVE, COLLECTION_READ, COLLECTION_MANAGE,
     INVENTORY_READ, INVENTORY_ADJUST, LOCATION_MANAGE, MEDIA_READ, MEDIA_MANAGE, ORDER_READ,
     ORDER_MANAGE, ORDER_REFUND, ORDER_MESSAGE, CUSTOMER_READ, CUSTOMER_MANAGE, DISCOUNT_READ,
     DISCOUNT_MANAGE, ANALYTICS_READ, DESIGN_EDIT, PAGE_PUBLISH, THEME_PUBLISH, NAVIGATION_MANAGE,
     DOMAIN_MANAGE, API_KEY_MANAGE, WEBHOOK_MANAGE]"

datatype member_role =
    ROLE_OWNER | ROLE_ADMIN | ROLE_STORE_MANAGER | ROLE_DESIGNER | ROLE_CATALOGUE_MANAGER
   | ROLE_ORDER_MANAGER | ROLE_MARKETING | ROLE_SUPPORT | ROLE_VIEWER | ROLE_INVENTORY_MANAGER
   | ROLE_SITE_MANAGER | ROLE_CONTENT_MANAGER | ROLE_EDITOR | ROLE_AUTHOR

definition MEMBER_ROLES :: "member_role list" where
  "MEMBER_ROLES =
    [ROLE_OWNER, ROLE_ADMIN, ROLE_STORE_MANAGER, ROLE_DESIGNER, ROLE_CATALOGUE_MANAGER,
     ROLE_ORDER_MANAGER, ROLE_MARKETING, ROLE_SUPPORT, ROLE_VIEWER, ROLE_INVENTORY_MANAGER,
     ROLE_SITE_MANAGER, ROLE_CONTENT_MANAGER, ROLE_EDITOR, ROLE_AUTHOR]"

definition BASE_READ :: "permission list" where
  "BASE_READ = [ORGANISATION_READ, STORE_READ, PRODUCT_READ, COLLECTION_READ, INVENTORY_READ, MEDIA_READ]"

definition OWNER_ONLY :: "permission list" where
  "OWNER_ONLY = [ORGANISATION_DELETE, ORGANISATION_EXPORT, OWNERSHIP_TRANSFER, BILLING_MANAGE]"

fun ROLE_GRANTS :: "member_role \<Rightarrow> permission list" where
  "ROLE_GRANTS ROLE_OWNER = PERMISSIONS"
| "ROLE_GRANTS ROLE_ADMIN = filter (\<lambda>p. p \<notin> set OWNER_ONLY) PERMISSIONS"
| "ROLE_GRANTS ROLE_STORE_MANAGER = BASE_READ @
    [MEMBER_READ, STORE_UPDATE, SETTINGS_MANAGE, PRODUCT_CREATE, PRODUCT_UPDATE, PRODUCT_ARCHIVE,
     COLLECTION_MANAGE, INVENTORY_ADJUST, LOCATION_MANAGE, MEDIA_MANAGE, ORDER_READ, ORDER_MANAGE,
     ORDER_REFUND, ORDER_MESSAGE, CUSTOMER_READ, CUSTOMER_MANAGE, DISCOUNT_READ, DISCOUNT_MANAGE,
     ANALYTICS_READ, DESIGN_EDIT, PAGE_PUBLISH, THEME_PUBLISH, NAVIGATION_MANAGE]"
| "ROLE_GRANTS ROLE_DESIGNER = BASE_READ @
    [MEDIA_MANAGE, DESIGN_EDIT, PAGE_PUBLISH, THEME_PUBLISH, NAVIGATION_MANAGE]"
| "ROLE_GRANTS ROLE_CATALOGUE_MANAGER = BASE_READ @
    [PRODUCT_CREATE, PRODUCT_UPDATE, PRODUCT_ARCHIVE, COLLECTION_MANAGE, INVENTORY_ADJUST,
     MEDIA_MANAGE]"
| "ROLE_GRANTS ROLE_ORDER_MANAGER = BASE_READ @
    [INVENTORY_ADJUST, ORDER_READ, ORDER_MANAGE, ORDER_REFUND, ORDER_MESSAGE, CUSTOMER_READ,
     CUSTOMER_MANAGE, DISCOUNT_READ]"
| "ROLE_GRANTS ROLE_MARKETING = BASE_READ @
    [COLLECTION_MANAGE, MEDIA_MANAGE, CUSTOMER_READ, DISCOUNT_READ, DISCOUNT_MANAGE,
     ANALYTICS_READ, DESIGN_EDIT, NAVIGATION_MANAGE]"
| "ROLE_GRANTS ROLE_SUPPORT = BASE_READ @
    [ORDER_READ, ORDER_MESSAGE, CUSTOMER_READ, CUSTOMER_MANAGE, DISCOUNT_READ]"
| "ROLE_GRANTS ROLE_VIEWER = BASE_READ @
    [DISCOUNT_READ, ANALYTICS_READ]"
| "ROLE_GRANTS ROLE_INVENTORY_MANAGER = BASE_READ @
    [INVENTORY_ADJUST, LOCATION_MANAGE]"
| "ROLE_GRANTS ROLE_SITE_MANAGER = BASE_READ @
    [MEMBER_READ, STORE_UPDATE, SETTINGS_MANAGE, MEDIA_MANAGE, ANALYTICS_READ, DESIGN_EDIT,
     PAGE_PUBLISH, THEME_PUBLISH, NAVIGATION_MANAGE]"
| "ROLE_GRANTS ROLE_CONTENT_MANAGER = BASE_READ @
    [MEDIA_MANAGE, ANALYTICS_READ, DESIGN_EDIT, PAGE_PUBLISH, NAVIGATION_MANAGE]"
| "ROLE_GRANTS ROLE_EDITOR = BASE_READ @
    [MEDIA_MANAGE, DESIGN_EDIT, PAGE_PUBLISH]"
| "ROLE_GRANTS ROLE_AUTHOR = BASE_READ @
    [MEDIA_MANAGE, DESIGN_EDIT]"

datatype platform_permission =
    PLATFORM_ORGANISATION_READ | PLATFORM_AUDIT_READ | PLATFORM_SUBSCRIPTION_MANAGE
   | PLATFORM_ENTITLEMENT_OVERRIDE_MANAGE | PLATFORM_BILLING_SIMULATE | PLATFORM_SUPPORT_MANAGE

definition PLATFORM_PERMISSIONS :: "platform_permission list" where
  "PLATFORM_PERMISSIONS =
    [PLATFORM_ORGANISATION_READ, PLATFORM_AUDIT_READ, PLATFORM_SUBSCRIPTION_MANAGE,
     PLATFORM_ENTITLEMENT_OVERRIDE_MANAGE, PLATFORM_BILLING_SIMULATE, PLATFORM_SUPPORT_MANAGE]"

datatype platform_role =
    STAFF_SUPER_ADMIN | STAFF_OPERATIONS | STAFF_SUPPORT | STAFF_BILLING | STAFF_READ_ONLY

fun PLATFORM_GRANTS :: "platform_role \<Rightarrow> platform_permission list" where
  "PLATFORM_GRANTS STAFF_SUPER_ADMIN =
    PLATFORM_PERMISSIONS"
| "PLATFORM_GRANTS STAFF_OPERATIONS =
    [PLATFORM_ORGANISATION_READ, PLATFORM_AUDIT_READ, PLATFORM_BILLING_SIMULATE,
     PLATFORM_SUPPORT_MANAGE]"
| "PLATFORM_GRANTS STAFF_SUPPORT =
    [PLATFORM_ORGANISATION_READ, PLATFORM_AUDIT_READ]"
| "PLATFORM_GRANTS STAFF_BILLING =
    [PLATFORM_ORGANISATION_READ, PLATFORM_AUDIT_READ, PLATFORM_SUBSCRIPTION_MANAGE,
     PLATFORM_ENTITLEMENT_OVERRIDE_MANAGE, PLATFORM_BILLING_SIMULATE]"
| "PLATFORM_GRANTS STAFF_READ_ONLY =
    [PLATFORM_ORGANISATION_READ]"

definition permissionsFor :: "member_role \<Rightarrow> permission set" where
  "permissionsFor role = set (ROLE_GRANTS role)"

definition platformPermissionsFor :: "platform_role \<Rightarrow> platform_permission set" where
  "platformPermissionsFor role = set (PLATFORM_GRANTS role)"

definition canAssignRole :: "member_role \<Rightarrow> member_role \<Rightarrow> bool" where
  "canAssignRole actor target \<longleftrightarrow> target \<noteq> ROLE_OWNER \<and>
     list_all (\<lambda>p. p \<in> permissionsFor actor) (ROLE_GRANTS target)"

fun ROLE_LABELS :: "member_role \<Rightarrow> string" where
  "ROLE_LABELS ROLE_OWNER = ''Owner''"
| "ROLE_LABELS ROLE_ADMIN = ''Admin''"
| "ROLE_LABELS ROLE_STORE_MANAGER = ''Store manager''"
| "ROLE_LABELS ROLE_DESIGNER = ''Designer''"
| "ROLE_LABELS ROLE_CATALOGUE_MANAGER = ''Catalogue manager''"
| "ROLE_LABELS ROLE_ORDER_MANAGER = ''Order manager''"
| "ROLE_LABELS ROLE_MARKETING = ''Marketing''"
| "ROLE_LABELS ROLE_SUPPORT = ''Support''"
| "ROLE_LABELS ROLE_VIEWER = ''Viewer''"
| "ROLE_LABELS ROLE_INVENTORY_MANAGER = ''Inventory manager''"
| "ROLE_LABELS ROLE_SITE_MANAGER = ''Site manager''"
| "ROLE_LABELS ROLE_CONTENT_MANAGER = ''Content manager''"
| "ROLE_LABELS ROLE_EDITOR = ''Editor''"
| "ROLE_LABELS ROLE_AUTHOR = ''Author''"

subsection \<open>Errors a service reports\<close>

text \<open>\<open>DomainError\<close>s by their code; \<open>FAULT\<close> is an error of the database or of a helper.\<close>

datatype domain_error =
    NOT_FOUND | UNAUTHENTICATED | FORBIDDEN string | REAUTHENTICATION_REQUIRED string
  | VALIDATION_FAILED string string | DOMAIN_CONFLICT string | LIMIT_REACHED string
  | RATE_LIMITED string | ENTITLEMENT_REQUIRED string | FAULT shop_error

subsection \<open>Contexts\<close>

record principal =
  pp_userId :: uuid
  pp_email :: string
  pp_emailVerified :: bool
  pp_recentlyAuthenticated :: bool

record organisation_context =
  oc_principal :: principal
  oc_membershipId :: uuid
  oc_role :: member_role
  oc_permissions :: "permission set"
  oc_allStores :: bool

datatype store_status = STORE_DRAFT | STORE_ACTIVE | STORE_SUSPENDED | STORE_ARCHIVED

record store_context = organisation_context +
  sc_storeStatus :: store_status

definition oc_userId :: "'a organisation_context_scheme \<Rightarrow> uuid" where
  "oc_userId ctx = pp_userId (oc_principal ctx)"

definition requireVerifiedPrincipal :: "principal option \<Rightarrow> domain_error + principal" where
  "requireVerifiedPrincipal user = (case user of
     None \<Rightarrow> Inl UNAUTHENTICATED
   | Some p \<Rightarrow> if pp_emailVerified p then Inr p else Inl (FORBIDDEN []))"

definition requirePermission :: "'a organisation_context_scheme \<Rightarrow> permission \<Rightarrow> domain_error + unit" where
  "requirePermission ctx p = ensure (p \<in> oc_permissions ctx) (FORBIDDEN [])"

definition requireRecentAuthentication :: "'a organisation_context_scheme \<Rightarrow> string \<Rightarrow> domain_error + unit" where
  "requireRecentAuthentication ctx what = ensure (pp_recentlyAuthenticated (oc_principal ctx))
     (REAUTHENTICATION_REQUIRED (''Confirm your password before '' @ what @ ''.''))"

definition requireWritableStore :: "'a store_context_scheme \<Rightarrow> domain_error + unit" where
  "requireWritableStore ctx =
     (if sc_storeStatus ctx = STORE_ARCHIVED
      then Inl (DOMAIN_CONFLICT ''This store is archived. Restore it to make changes.'')
      else if sc_storeStatus ctx = STORE_SUSPENDED
      then Inl (DOMAIN_CONFLICT ''This store is suspended, so its catalogue can't be changed.'')
      else Inr ())"

subsection \<open>Audit entries\<close>

text \<open>
  \<open>packages/tenancy/src/audit.ts\<close>: only the keys of the list reach the log, and texts are cut.
  Values are kept as texts; an entry of the system has no actor.
\<close>

record audit_row =
  au_actor :: "uuid option"
  au_action :: string
  au_entity :: "string \<times> uuid"
  au_metadata :: "(string \<times> string) list"

definition ALLOWED_METADATA_KEYS :: "string list" where
  "ALLOWED_METADATA_KEYS =
    [''role'', ''previousRole'', ''status'', ''previousStatus'', ''fields'', ''slug'',
     ''previousSlug'', ''name'', ''email'', ''allStores'', ''storeCount'', ''targetUserId'',
     ''reason'', ''plan'', ''previousPlan'', ''previousStatus'', ''interval'',
     ''previousInterval'', ''source'', ''trialEndsAt'', ''expiresAt'', ''previousExpiresAt'',
     ''feature'', ''value'', ''previousValue'', ''eventType'', ''providerEventId'',
     ''overLimit'', ''drift'', ''businessType'', ''previousBusinessType'', ''title'', ''handle'',
     ''previousHandle'', ''sku'', ''code'', ''delta'', ''resultingValue'', ''quantity'',
     ''location'', ''fromLocation'', ''toLocation'', ''count'', ''variantCount'',
     ''createdVariants'', ''removedVariants'', ''deletedVariants'', ''mediaCount'', ''action'',
     ''succeeded'', ''failed'', ''filename'', ''bytes'', ''note'', ''category'',
     ''previousCategory'', ''hsnCode'', ''previousHsnCode'', ''confirmedFree'', ''filter'',
     ''from'', ''to'', ''searched'', ''kind'', ''versionNumber'', ''sections'', ''preset'',
     ''theme'', ''previousTheme'', ''themeVersion'', ''menu'', ''items'', ''orderNumber'',
     ''amount'', ''currency'', ''provider'', ''mode'', ''hostname'', ''previousHostname'',
     ''mediaId'', ''previousMediaId'']"

definition LONG_KEYS :: "string list" where
  "LONG_KEYS = [''reason'', ''note'']"

definition sanitiseMetadata :: "(string \<times> string) list \<Rightarrow> (string \<times> string) list" where
  "sanitiseMetadata metadata = map (\<lambda>(key, value). (key, take (if key \<in> set LONG_KEYS then 500 else 200) value))
     (filter (\<lambda>(key, value). key \<in> set ALLOWED_METADATA_KEYS) metadata)"

definition audit_entry ::
  "'a organisation_context_scheme \<Rightarrow> string \<Rightarrow> string \<times> uuid \<Rightarrow> (string \<times> string) list \<Rightarrow> audit_row" where
  "audit_entry ctx action entity metadata = \<lparr>au_actor = Some (oc_userId ctx), au_action = action, au_entity = entity,
     au_metadata = sanitiseMetadata metadata\<rparr>"

text \<open>Permission, writable store and one transaction.\<close>

definition inStore ::
  "'a store_context_scheme \<Rightarrow> permission \<Rightarrow> bool \<Rightarrow> ('s \<Rightarrow> domain_error + ('s \<times> 'b)) \<Rightarrow> 's \<Rightarrow> 's \<times> (domain_error + 'b)" where
  "inStore ctx p write body s =
     (case bindR (requirePermission ctx p) (\<lambda>_. if write then requireWritableStore ctx else Inr ()) of
        Inl e \<Rightarrow> (s, Inl e)
      | Inr _ \<Rightarrow> transaction body s)"


section \<open>Properties\<close>

lemma canAssignRole_subset: "canAssignRole a t \<Longrightarrow> t \<noteq> ROLE_OWNER \<and> permissionsFor t \<subseteq> permissionsFor a"
  by (auto simp: canAssignRole_def permissionsFor_def list_all_iff)

lemma OWNER_all: "permissionsFor ROLE_OWNER = UNIV"
proof -
  have "p \<in> set PERMISSIONS" for p by (cases p) (simp_all add: PERMISSIONS_def)
  then show ?thesis by (auto simp: permissionsFor_def)
qed

text \<open>A body that ran changed the store; any other outcome left it.\<close>

lemma transaction_cases:
  assumes "transaction body s = (t, r)"
  obtains (failed) e where "body s = Inl e" "t = s" "r = Inl e" | (committed) x where "body s = Inr (t, x)" "r = Inr x"
  using assms by (auto simp: transaction_def split: sum.splits)

lemma inStore_cases:
  assumes "inStore ctx p write body s = (t, r)"
  obtains (refused) "t = s" | (ran) "p \<in> oc_permissions ctx"
    "write \<Longrightarrow> sc_storeStatus ctx \<notin> {STORE_ARCHIVED, STORE_SUSPENDED}" "transaction body s = (t, r)"
proof (cases "bindR (requirePermission ctx p) (\<lambda>_. if write then requireWritableStore ctx else Inr ())")
  case (Inl e)
  with assms show ?thesis by (auto simp: inStore_def intro: refused)
next
  case (Inr x)
  then have "p \<in> oc_permissions ctx" "write \<Longrightarrow> sc_storeStatus ctx \<notin> {STORE_ARCHIVED, STORE_SUSPENDED}"
    by (auto simp: bindR_eq_Inr requirePermission_def ensure_eq requireWritableStore_def split: if_splits)
  moreover have "transaction body s = (t, r)" using assms Inr by (simp add: inStore_def)
  ultimately show ?thesis by (rule ran)
qed

lemma transaction_keeps:
  "transaction body s = (t, r) \<Longrightarrow> P s \<Longrightarrow> (\<And>u x. body s = Inr (u, x) \<Longrightarrow> P u) \<Longrightarrow> P t"
  by (auto elim: transaction_cases)

lemma inStore_keeps:
  "inStore ctx p write body s = (t, r) \<Longrightarrow> P s \<Longrightarrow> (\<And>u x. body s = Inr (u, x) \<Longrightarrow> P u) \<Longrightarrow> P t"
  by (erule inStore_cases) (auto elim: transaction_keeps)

text \<open>Every entry holds known keys and short texts only; the counts of a link's reset are no such keys.\<close>

lemma sanitised:
  "(key, value) \<in> set (sanitiseMetadata metadata) \<Longrightarrow> key \<in> set ALLOWED_METADATA_KEYS \<and> length value \<le> 500"
  by (auto simp: sanitiseMetadata_def)

lemma reset_counts_are_dropped:
  "sanitiseMetadata [(''orderNumber'', a), (''revoked'', b), (''emailed'', c)] = [(''orderNumber'', take 200 a)]"
  by (simp add: sanitiseMetadata_def ALLOWED_METADATA_KEYS_def LONG_KEYS_def)

end
