(* ===== verification/Orders.thy ===== *)
theory Orders
  imports Confirm Rbac
begin

section \<open>Orders after payment: fulfilment and cancellation\<close>

text \<open>
  The first half of \<open>packages/commerce/src/orders/manage.ts\<close>, with the tables the merchant's
  side of an order adds to the store: refunds, fulfilments and the audit log. \<open>Refunds\<close> holds
  the rest of the file, \<open>Upkeep\<close> \<open>operations.ts\<close>. An operation is the check of the context,
  then one transaction; \<open>oe_now\<close> is its \<open>now()\<close>. What the platform provides is in the
  environment: the formatting of amounts, the opening of a connection's credentials and the
  provider's answer to a refund. Identifiers in an input are what \<open>internalId\<close> parses
  (None: malformed); a quantity is None when it is not a whole number.
\<close>

subsection \<open>Tables\<close>

datatype refund_status = RF_PENDING | RF_SUCCEEDED | RF_FAILED

record refund_row =
  rf_id :: uuid
  rf_orderId :: uuid
  rf_paymentId :: uuid
  rf_status :: refund_status
  rf_currency :: string
  rf_amount :: int
  rf_reason :: "string option"
  rf_providerRefundId :: "string option"
  rf_failureMessage :: "string option"
  rf_createdBy :: uuid

record refund_line_row =
  rl_refundId :: uuid
  rl_lineId :: uuid
  rl_quantity :: int
  rl_amount :: int
  rl_restock :: "uuid option"

record fulfilment_row =
  fu_id :: uuid
  fu_orderId :: uuid
  fu_locationId :: uuid
  fu_state :: fulfilment_state
  fu_method :: fulfilment_method
  fu_status :: shipment_status
  fu_company :: "string option"
  fu_number :: "string option"
  fu_url :: "string option"
  fu_shippedAt :: "date option"
  fu_deliveredAt :: "date option"
  fu_createdBy :: uuid

record fulfilment_line_row =
  fn_fulfilmentId :: uuid
  fn_lineId :: uuid
  fn_quantity :: int

record sales =
  sl_shop :: shop
  sl_refunds :: "refund_row list"
  sl_refundLines :: "refund_line_row list"
  sl_fulfilments :: "fulfilment_row list"
  sl_fulfilmentLines :: "fulfilment_line_row list"
  sl_audit :: "audit_row list"

text \<open>A refund the provider accepted comes back processed or queued; either counts.\<close>

datatype refund_call_status = RC_SUCCEEDED | RC_PENDING | RC_FAILED

record refund_result =
  rr_providerRefundId :: "string option"
  rr_status :: refund_call_status
  rr_failureMessage :: "string option"

text \<open>
  How a call to the provider ends: an answer, a \<open>PaymentProviderError\<close> that is not retryable,
  or any other error.
\<close>

datatype refund_answer = ANSWERED refund_result | DECLINED_CALL | UNCONFIRMED

record refund_call =
  rc_chargeId :: string
  rc_amount :: int
  rc_currency :: string
  rc_reference :: uuid

record order_env =
  oe_checkout :: checkout_env
  oe_format :: "int \<Rightarrow> string \<Rightarrow> string"
  oe_refund :: "connection_row \<Rightarrow> refund_call \<Rightarrow> refund_answer"

definition oe_now :: "order_env \<Rightarrow> date" where
  "oe_now env = ce_now (oe_checkout env)"

subsection \<open>Shared steps\<close>

definition on_shop :: "(shop \<Rightarrow> shop) \<Rightarrow> sales \<Rightarrow> sales" where
  "on_shop f s = s\<lparr>sl_shop := f (sl_shop s)\<rparr>"

definition orders_of :: "sales \<Rightarrow> order_row list" where
  "orders_of s = ot_orders (sh_orders (sl_shop s))"

definition lines_of :: "sales \<Rightarrow> order_line_row list" where
  "lines_of s = ot_lines (sh_orders (sl_shop s))"

definition set_orders :: "(order_row \<Rightarrow> bool) \<Rightarrow> (order_row \<Rightarrow> order_row) \<Rightarrow> sales \<Rightarrow> sales" where
  "set_orders sel f = on_shop (\<lambda>s. s\<lparr>sh_orders := (sh_orders s)\<lparr>ot_orders :=
     update_rows sel f (ot_orders (sh_orders s))\<rparr>\<rparr>)"

definition set_lines :: "(order_line_row \<Rightarrow> bool) \<Rightarrow> (order_line_row \<Rightarrow> order_line_row) \<Rightarrow> sales \<Rightarrow> sales" where
  "set_lines sel f = on_shop (\<lambda>s. s\<lparr>sh_orders := (sh_orders s)\<lparr>ot_lines :=
     update_rows sel f (ot_lines (sh_orders s))\<rparr>\<rparr>)"

definition fresh_id :: "sales \<Rightarrow> sales \<times> uuid" where
  "fresh_id s = (let (t, i) = fresh (sl_shop s) in (s\<lparr>sl_shop := t\<rparr>, i))"

text \<open>A stock operation of an order's transaction.\<close>

definition in_stock :: "(stock_db \<Rightarrow> stock_error + stock_db) \<Rightarrow> sales \<Rightarrow> domain_error + sales" where
  "in_stock f s = bindR (liftE (FAULT \<circ> STOCK_FAULT) (f (sh_stock (sl_shop s))))
     (\<lambda>db. Inr (on_shop (\<lambda>t. t\<lparr>sh_stock := db\<rparr>) s))"

definition recordAudit ::
  "'a organisation_context_scheme \<Rightarrow> string \<Rightarrow> string \<times> uuid \<Rightarrow> (string \<times> string) list \<Rightarrow> sales \<Rightarrow> sales" where
  "recordAudit ctx action entity metadata s = s\<lparr>sl_audit := sl_audit s @ [audit_entry ctx action entity metadata]\<rparr>"

definition lockOrder :: "uuid \<Rightarrow> sales \<Rightarrow> domain_error + order_row" where
  "lockOrder orderId s = fromSome NOT_FOUND (find (\<lambda>r. or_id r = orderId) (orders_of s))"

definition lockLines :: "uuid \<Rightarrow> sales \<Rightarrow> order_line_row list" where
  "lockLines orderId s = sortBy (byKey (\<lambda>l. int (ol_id l))) (filter (\<lambda>l. ol_orderId l = orderId) (lines_of s))"

record line_entry =
  le_lineId :: "uuid option"
  le_quantity :: "int option"
  le_restock :: bool

definition quantity_of :: "(uuid \<times> int) list \<Rightarrow> uuid \<Rightarrow> int" where
  "quantity_of quantities i = (case map_of quantities i of None \<Rightarrow> 0 | Some q \<Rightarrow> q)"

definition add_quantity ::
  "order_line_row list \<Rightarrow> string \<Rightarrow> (uuid \<times> int) list \<Rightarrow> line_entry \<Rightarrow> domain_error + (uuid \<times> int) list" where
  "add_quantity lines field result entry =
     (case le_lineId entry of
        None \<Rightarrow> Inl (VALIDATION_FAILED field ''That item isn't part of this order.'')
      | Some i \<Rightarrow>
          if \<not> list_ex (\<lambda>l. ol_id l = i) lines
          then Inl (VALIDATION_FAILED field ''That item isn't part of this order.'')
          else (case le_quantity entry of
             None \<Rightarrow> Inl (VALIDATION_FAILED field ''Enter a whole number of items.'')
           | Some q \<Rightarrow>
               if q < 0 \<or> q > 9999 then Inl (VALIDATION_FAILED field ''Enter a whole number of items.'')
               else Inr (if q > 0 then AList.update i (quantity_of result i + q) result else result)))"

definition lineQuantities ::
  "order_line_row list \<Rightarrow> line_entry list \<Rightarrow> string \<Rightarrow> domain_error + (uuid \<times> int) list" where
  "lineQuantities lines input field = foldR (add_quantity lines field) [] (take 200 input)"

text \<open>An optional text, None when the value is no string.\<close>

definition text_field :: "string option \<Rightarrow> nat \<Rightarrow> string \<Rightarrow> domain_error + string option" where
  "text_field value limit field =
     (case value of None \<Rightarrow> Inr None
      | Some t \<Rightarrow>
          let v = trim t
          in if v = [] then Inr None
             else if length v > limit
             then Inl (VALIDATION_FAILED field (''Use at most '' @ show_nat limit @ '' characters.''))
             else Inr (Some v))"

text \<open>\<open>/^https?:\/\/[^\s]+$/i\<close>.\<close>

definition link_after :: "string \<Rightarrow> (char \<Rightarrow> char) \<Rightarrow> (char \<Rightarrow> bool) \<Rightarrow> string \<Rightarrow> bool" where
  "link_after scheme lowered space url \<longleftrightarrow> take (length scheme) (map lowered url) = scheme \<and>
     drop (length scheme) url \<noteq> [] \<and> list_all (\<lambda>c. \<not> space c) (drop (length scheme) url)"

definition full_link :: "string \<Rightarrow> bool" where
  "full_link url \<longleftrightarrow> link_after ''http://'' lower_char js_space url \<or> link_after ''https://'' lower_char js_space url"

text \<open>
  The constraints of the Fulfilment table: those of its first migration and of the one that
  added the journey. The first spells the scheme of a link in lower case.
\<close>

definition sql_space :: "char \<Rightarrow> bool" where
  "sql_space c \<longleftrightarrow> (of_char c :: nat) \<in> {9, 10, 11, 12, 13, 32}"

definition opt_all :: "('a \<Rightarrow> bool) \<Rightarrow> 'a option \<Rightarrow> bool" where
  "opt_all P x \<longleftrightarrow> (case x of None \<Rightarrow> True | Some y \<Rightarrow> P y)"

definition lower_scheme :: "string \<Rightarrow> bool" where
  "lower_scheme u \<longleftrightarrow> take 7 u = ''http://'' \<or> take 8 u = ''https://''"

definition fulfilment_checks :: "(string \<times> (fulfilment_row \<Rightarrow> bool)) list" where
  "fulfilment_checks =
     [(''Fulfilment_tracking_lengths'', \<lambda>f. opt_all (\<lambda>t. length t \<le> 100) (fu_company f) \<and>
        opt_all (\<lambda>t. length t \<le> 100) (fu_number f) \<and>
        opt_all (\<lambda>u. length u \<le> 2048 \<and> lower_scheme u) (fu_url f)),
      (''Fulfilment_local_statuses'', \<lambda>f. fu_method f \<noteq> LOCAL_DELIVERY \<or>
        fu_status f \<in> {READY, OUT_FOR_DELIVERY, DELIVERED}),
      (''Fulfilment_delivered_at'', \<lambda>f. (fu_status f = DELIVERED) = (fu_deliveredAt f \<noteq> None)),
      (''Fulfilment_dispatched_at'', \<lambda>f. fu_status f = READY \<or> fu_shippedAt f \<noteq> None),
      (''Fulfilment_date_order'', \<lambda>f. opt_all (\<lambda>d. opt_all (\<lambda>sh. d \<ge> sh) (fu_shippedAt f)) (fu_deliveredAt f)),
      (''Fulfilment_tracking_text'', \<lambda>f. opt_all (\<lambda>t. length t \<le> 100) (fu_company f) \<and>
        opt_all (\<lambda>t. length t \<le> 100) (fu_number f)),
      (''Fulfilment_tracking_url'', \<lambda>f. opt_all (\<lambda>u. (link_after ''http://'' lower_char sql_space u \<or>
        link_after ''https://'' lower_char sql_space u) \<and> length u \<le> 500) (fu_url f))]"

definition fulfilment_stored :: "fulfilment_row \<Rightarrow> domain_error + unit" where
  "fulfilment_stored f = (case find (\<lambda>(name, check). \<not> check f) fulfilment_checks of
     None \<Rightarrow> Inr () | Some (name, _) \<Rightarrow> Inl (FAULT (VIOLATES name)))"

fun SHIPMENT_LABELS :: "shipment_status \<Rightarrow> string" where
  "SHIPMENT_LABELS READY = ''Ready''"
| "SHIPMENT_LABELS SHIPPED = ''Shipped''"
| "SHIPMENT_LABELS IN_TRANSIT = ''In transit''"
| "SHIPMENT_LABELS OUT_FOR_DELIVERY = ''Out for delivery''"
| "SHIPMENT_LABELS DELIVERED = ''Delivered''"

fun SHIPMENT_CODES :: "shipment_status \<Rightarrow> string" where
  "SHIPMENT_CODES READY = ''READY''"
| "SHIPMENT_CODES SHIPPED = ''SHIPPED''"
| "SHIPMENT_CODES IN_TRANSIT = ''IN_TRANSIT''"
| "SHIPMENT_CODES OUT_FOR_DELIVERY = ''OUT_FOR_DELIVERY''"
| "SHIPMENT_CODES DELIVERED = ''DELIVERED''"

fun METHOD_CODES :: "fulfilment_method \<Rightarrow> string" where
  "METHOD_CODES SHIPPING = ''SHIPPING''"
| "METHOD_CODES LOCAL_DELIVERY = ''LOCAL_DELIVERY''"

definition toLowerCase :: "string \<Rightarrow> string" where
  "toLowerCase = map lower_char"

subsection \<open>Fulfilment\<close>

text \<open>A choice of an input: left out (or empty), one of the known values, or something else.\<close>

datatype 'a choice = OMITTED | CHOSEN 'a | UNKNOWN

record fulfil_input =
  fi_lines :: "line_entry list"
  fi_company :: "string option"
  fi_number :: "string option"
  fi_url :: "string option"
  fi_method :: "fulfilment_method choice"
  fi_status :: "shipment_status choice"

text \<open>The input of a fulfilment once checked.\<close>

record fulfil_plan =
  fp_lines :: "line_entry list"
  fp_company :: "string option"
  fp_number :: "string option"
  fp_url :: "string option"
  fp_method :: fulfilment_method
  fp_initial :: shipment_status

definition fulfil_plan_of :: "fulfil_input \<Rightarrow> domain_error + fulfil_plan" where
  "fulfil_plan_of input =
     bindR (text_field (fi_company input) 100 ''trackingCompany'') (\<lambda>company.
     bindR (text_field (fi_number input) 100 ''trackingNumber'') (\<lambda>number.
     bindR (text_field (fi_url input) 500 ''trackingUrl'') (\<lambda>url.
     if (case url of None \<Rightarrow> False | Some u \<Rightarrow> \<not> full_link u)
     then Inl (VALIDATION_FAILED ''trackingUrl'' ''Enter a full link starting with https://.'')
     else if fi_method input = UNKNOWN
     then Inl (VALIDATION_FAILED ''method'' ''Choose shipping or local delivery.'')
     else let chosen = (case fi_method input of CHOSEN m \<Rightarrow> m | _ \<Rightarrow> SHIPPING)
     in if fi_status input = UNKNOWN then Inl (VALIDATION_FAILED ''status'' ''Choose a status.'')
     else let initial = (case fi_status input of CHOSEN st \<Rightarrow> st
            | _ \<Rightarrow> if chosen = LOCAL_DELIVERY then READY else SHIPPED)
     in if \<not> allowedStatus chosen initial
     then Inl (VALIDATION_FAILED ''status'' (SHIPMENT_LABELS initial @ '' isn't a step of local delivery.''))
     else Inr \<lparr>fp_lines = fi_lines input, fp_company = company, fp_number = number, fp_url = url,
       fp_method = chosen, fp_initial = initial\<rparr>)))"

definition unfulfilled :: "order_line_row list \<Rightarrow> (uuid \<times> int) list" where
  "unfulfilled lines = map (\<lambda>l. (ol_id l, ol_quantity l - ol_fulfilled l))
     (filter (\<lambda>l. ol_quantity l > ol_fulfilled l) lines)"

text \<open>Without lines in the input, every unfulfilled unit.\<close>

definition requested_units :: "order_line_row list \<Rightarrow> fulfil_plan \<Rightarrow> (uuid \<times> int) list \<Rightarrow> (uuid \<times> int) list" where
  "requested_units lines plan given = (if fp_lines plan = [] then unfulfilled lines else given)"

definition left_to_fulfil :: "order_line_row list \<Rightarrow> uuid \<times> int \<Rightarrow> domain_error + unit" where
  "left_to_fulfil lines request = (case request of (i, q) \<Rightarrow>
     (case find (\<lambda>l. ol_id l = i) lines of
        None \<Rightarrow> Inl (DOMAIN_CONFLICT ''Only 0 of this item are left to fulfil.'')
      | Some l \<Rightarrow> ensure (q \<le> ol_quantity l - ol_fulfilled l) (DOMAIN_CONFLICT
          (''Only '' @ show_int (ol_quantity l - ol_fulfilled l) @ '' of '' @ ol_productTitle l
             @ '' are left to fulfil.''))))"

definition by_line :: "line_reservation list \<Rightarrow> uuid \<Rightarrow> line_reservation option" where
  "by_line reservations i = find (\<lambda>r. lr_orderLineId r = Some i) (rev reservations)"

text \<open>\<open>ORDER BY priority, "createdAt", id\<close>.\<close>

definition byLocationAge :: "location_row \<Rightarrow> location_row \<Rightarrow> int" where
  "byLocationAge a b = (if lo_priority a \<noteq> lo_priority b then lo_priority a - lo_priority b
     else if lo_createdAt a \<noteq> lo_createdAt b then lo_createdAt a - lo_createdAt b
     else int (lo_id a) - int (lo_id b))"

definition active_location :: "stock_db \<Rightarrow> uuid option" where
  "active_location db = (case sortBy byLocationAge (filter (\<lambda>l. lo_isActive l \<and> \<not> lo_deleted l) (sd_locations db)) of
     [] \<Rightarrow> None | l # _ \<Rightarrow> Some (lo_id l))"

text \<open>The units by the location they leave from.\<close>

definition ship_from ::
  "stock_db \<Rightarrow> line_reservation list \<Rightarrow> (uuid \<times> (uuid \<times> int) list) list \<Rightarrow> uuid \<times> int
   \<Rightarrow> domain_error + (uuid \<times> (uuid \<times> int) list) list" where
  "ship_from db reservations groups request =
     (case (case by_line reservations (fst request) of
              Some r \<Rightarrow> Some (lr_locationId r) | None \<Rightarrow> active_location db) of
        None \<Rightarrow> Inl (DOMAIN_CONFLICT ''Add an active location before fulfilling orders.'')
      | Some location \<Rightarrow> Inr (AList.update location
          ((case map_of groups location of None \<Rightarrow> [] | Some es \<Rightarrow> es) @ [request]) groups))"

definition create_fulfilment ::
  "order_env \<Rightarrow> uuid \<Rightarrow> fulfil_plan \<Rightarrow> uuid \<Rightarrow> sales \<times> uuid list \<Rightarrow> uuid \<times> (uuid \<times> int) list
   \<Rightarrow> domain_error + (sales \<times> uuid list)" where
  "create_fulfilment env actor plan orderId acc parcel = (case (acc, parcel) of ((s, ids), (locationId, entries)) \<Rightarrow>
     let (s1, i) = fresh_id s; dispatched = isDispatched (fp_initial plan);
         row = \<lparr>fu_id = i, fu_orderId = orderId, fu_locationId = locationId, fu_state = F_SUCCESS,
           fu_method = fp_method plan, fu_status = fp_initial plan, fu_company = fp_company plan,
           fu_number = fp_number plan, fu_url = fp_url plan,
           fu_shippedAt = (if dispatched then Some (oe_now env) else None),
           fu_deliveredAt = (if fp_initial plan = DELIVERED then Some (oe_now env) else None),
           fu_createdBy = actor\<rparr>
     in bindR (fulfilment_stored row) (\<lambda>_. Inr (s1\<lparr>sl_fulfilments := sl_fulfilments s1 @ [row],
       sl_fulfilmentLines := sl_fulfilmentLines s1 @ map (\<lambda>(l, q). \<lparr>fn_fulfilmentId = i, fn_lineId = l,
         fn_quantity = q\<rparr>) entries\<rparr>, ids @ [i])))"

text \<open>The conditional update of one line.\<close>

definition count_fulfilled :: "sales \<Rightarrow> uuid \<times> int \<Rightarrow> domain_error + sales" where
  "count_fulfilled s request = (case request of (i, q) \<Rightarrow>
     let sel = (\<lambda>l. ol_id l = i \<and> ol_fulfilled l + q \<le> ol_quantity l)
     in if length (filter sel (lines_of s)) \<noteq> 1
        then Inl (DOMAIN_CONFLICT ''This order changed. Refresh and try again.'')
        else Inr (set_lines sel (\<lambda>l. l\<lparr>ol_fulfilled := ol_fulfilled l + q\<rparr>) s))"

definition reserved_moves :: "line_reservation list \<Rightarrow> (uuid \<times> int) list \<Rightarrow> (line_reservation \<times> int) list" where
  "reserved_moves reservations requested = concat (map (\<lambda>(i, q).
     case by_line reservations i of None \<Rightarrow> [] | Some r \<Rightarrow> [(r, q)]) requested)"

definition item_count :: "int \<Rightarrow> string" where
  "item_count n = show_int n @ (if n = 1 then '' item'' else '' items'')"

definition announce_fulfilment ::
  "order_row \<Rightarrow> uuid \<Rightarrow> fulfil_plan \<Rightarrow> int \<Rightarrow> uuid list \<Rightarrow> shop \<Rightarrow> shop" where
  "announce_fulfilment order actor plan total_units ids s =
     (let s1 = orderEvent (or_id order) ''fulfilment.created''
            (item_count total_units @ '' fulfilled ('' @ toLowerCase (SHIPMENT_LABELS (fp_initial plan))
              @ (if fp_method plan = LOCAL_DELIVERY then '', local delivery'' else []) @ '')''
              @ (case fp_number plan of None \<Rightarrow> [] | Some n \<Rightarrow> '', tracking '' @ n) @ ''.'')
            [(''fulfilmentIds'', joinWith '','' (map uuid_text ids)),
             (''status'', SHIPMENT_CODES (fp_initial plan)), (''method'', METHOD_CODES (fp_method plan))]
            (Some actor) s
      in if isDispatched (fp_initial plan)
         then foldl (\<lambda>s i. queueNotification (or_id order) ORDER_FULFILLED (''fulfilment:'' @ uuid_text i)
                (or_email order) (Some i) s) s1 ids
         else s1)"

definition fulfil_body ::
  "order_env \<Rightarrow> store_context \<Rightarrow> uuid \<Rightarrow> fulfil_plan \<Rightarrow> sales \<Rightarrow> domain_error + (sales \<times> uuid list)" where
  "fulfil_body env ctx orderId plan s =
     bindR (lockOrder orderId s) (\<lambda>order.
     if or_status order = ORD_CANCELLED then Inl (DOMAIN_CONFLICT ''A cancelled order can't be fulfilled.'')
     else if or_completedAt order \<noteq> None then Inl (DOMAIN_CONFLICT ''This order is complete.'')
     else let lines = lockLines orderId s in
     bindR (lineQuantities lines (fp_lines plan) ''lines'') (\<lambda>given.
     let requested = requested_units lines plan given
     in if requested = [] then Inl (VALIDATION_FAILED ''lines'' ''Choose at least one item to fulfil.'')
     else
     bindR (foldR (\<lambda>_ r. left_to_fulfil lines r) () requested) (\<lambda>_.
     let reservations = orderReservations (sh_stock (sl_shop s)) orderId in
     bindR (foldR (ship_from (sh_stock (sl_shop s)) reservations) [] requested) (\<lambda>groups.
     bindR (foldR (create_fulfilment env (oc_userId ctx) plan orderId) (s, []) groups) (\<lambda>(s1, ids).
     bindR (foldR count_fulfilled s1 requested) (\<lambda>s2.
     bindR (in_stock (fulfilStock orderId (reserved_moves reservations requested) (Some (oc_userId ctx))) s2) (\<lambda>s3.
     let after = map (\<lambda>l. \<lparr>fl_quantity = ol_quantity l,
            fl_fulfilled = ol_fulfilled l + quantity_of requested (ol_id l)\<rparr>) lines;
         s4 = set_orders (\<lambda>r. or_id r = orderId) (\<lambda>r. r\<lparr>or_fulfilmentStatus := orderFulfilmentStatus after\<rparr>) s3;
         total_units = sum_list (map snd requested);
         s5 = on_shop (announce_fulfilment order (oc_userId ctx) plan total_units ids) s4
     in Inr (recordAudit ctx ''order.fulfilled'' (''Order'', orderId)
          [(''orderNumber'', show_int (or_number order)), (''quantity'', show_int total_units)] s5, ids))))))))"

definition fulfilOrder ::
  "order_env \<Rightarrow> store_context \<Rightarrow> uuid \<Rightarrow> fulfil_input \<Rightarrow> sales \<Rightarrow> sales \<times> (domain_error + uuid list)" where
  "fulfilOrder env ctx orderId input s = (case fulfil_plan_of input of
     Inl e \<Rightarrow> (s, Inl e)
   | Inr plan \<Rightarrow> inStore ctx ORDER_MANAGE True (fulfil_body env ctx orderId plan) s)"

subsection \<open>Cancellation\<close>

definition whole_reservations :: "line_reservation list \<Rightarrow> (line_reservation \<times> int) list" where
  "whole_reservations rs = map (\<lambda>r. (r, lr_quantity r)) rs"

definition cancel_body ::
  "order_env \<Rightarrow> store_context \<Rightarrow> uuid \<Rightarrow> string option \<Rightarrow> sales \<Rightarrow> domain_error + (sales \<times> bool)" where
  "cancel_body env ctx orderId reason s =
     bindR (lockOrder orderId s) (\<lambda>order.
     if or_status order = ORD_CANCELLED then Inr (s, False)
     else if or_completedAt order \<noteq> None
     then Inl (DOMAIN_CONFLICT ''A completed order can't be cancelled. Refund it instead.'')
     else if list_ex (\<lambda>l. ol_fulfilled l > 0) (lockLines orderId s)
     then Inl (DOMAIN_CONFLICT ''Orders with fulfilled items can't be cancelled. Refund them instead.'')
     else
     bindR (in_stock (cancelOrderStock orderId
         (whole_reservations (orderReservations (sh_stock (sl_shop s)) orderId)) (Some (oc_userId ctx))) s) (\<lambda>s1.
     let s2 = set_orders (\<lambda>r. or_id r = orderId) (\<lambda>r. r\<lparr>or_status := ORD_CANCELLED,
            or_cancelledAt := Some (oe_now env), or_cancelReason := reason\<rparr>) s1;
         s3 = on_shop (orderEvent orderId ''order.cancelled''
            (case reason of None \<Rightarrow> ''Order cancelled.'' | Some r \<Rightarrow> ''Order cancelled: '' @ r) []
            (Some (oc_userId ctx))) s2;
         s4 = on_shop (queueNotification orderId ORDER_CANCELLED (''order-cancelled:'' @ uuid_text orderId)
            (or_email order) None) s3
     in Inr (recordAudit ctx ''order.cancelled'' (''Order'', orderId)
          [(''orderNumber'', show_int (or_number order)), (''reason'', case reason of None \<Rightarrow> ''null'' | Some r \<Rightarrow> r)] s4,
          True)))"

end
