(* ===== verification/Refunds.thy ===== *)
theory Refunds
  imports Orders
begin

section \<open>Refunds of an order\<close>

text \<open>
  The rest of \<open>packages/commerce/src/orders/manage.ts\<close>. \<open>refundOrder\<close> is two transactions with
  the provider's call between them: the first records a pending refund within what is left of
  the captured payment, the second settles it with the provider's answer.
\<close>

subsection \<open>What is left to refund\<close>

text \<open>\<open>ORDER BY "capturedAt", id\<close>, with nulls last.\<close>

definition byCapture :: "payment_row \<Rightarrow> payment_row \<Rightarrow> int" where
  "byCapture a b = (case (pm_capturedAt a, pm_capturedAt b) of
     (Some x, Some y) \<Rightarrow> if x = y then int (pm_id a) - int (pm_id b) else x - y
   | (Some _, None) \<Rightarrow> -1 | (None, Some _) \<Rightarrow> 1
   | (None, None) \<Rightarrow> int (pm_id a) - int (pm_id b))"

definition captured_payments :: "sales \<Rightarrow> uuid \<Rightarrow> payment_row list" where
  "captured_payments s orderId = sortBy byCapture
     (filter (\<lambda>p. pm_orderId p = Some orderId \<and> pm_status p = PAY_CAPTURED) (sh_payments (sl_shop s)))"

definition is_primary :: "sales \<Rightarrow> uuid \<Rightarrow> uuid \<Rightarrow> bool" where
  "is_primary s orderId paymentId \<longleftrightarrow>
     (case captured_payments s orderId of [] \<Rightarrow> False | p # _ \<Rightarrow> pm_id p = paymentId)"

definition pending_amount :: "sales \<Rightarrow> uuid \<Rightarrow> int" where
  "pending_amount s paymentId = sum_list (map rf_amount
     (filter (\<lambda>r. rf_paymentId r = paymentId \<and> rf_status r = RF_PENDING) (sl_refunds s)))"

definition remaining_of :: "sales \<Rightarrow> payment_row \<Rightarrow> int" where
  "remaining_of s p = pm_capturedAmount p - pm_refunded p - pending_amount s (pm_id p)"

text \<open>Units of a line in the order's refunds of the given statuses.\<close>

definition in_refund :: "sales \<Rightarrow> uuid \<Rightarrow> refund_status list \<Rightarrow> refund_line_row \<Rightarrow> bool" where
  "in_refund s orderId states rl \<longleftrightarrow> list_ex (\<lambda>r. rf_id r = rl_refundId rl \<and> rf_orderId r = orderId \<and>
     rf_status r \<in> set states) (sl_refunds s)"

definition refund_units :: "sales \<Rightarrow> uuid \<Rightarrow> refund_status list \<Rightarrow> uuid \<Rightarrow> int" where
  "refund_units s orderId states lineId = sum_list (map rl_quantity
     (filter (\<lambda>rl. rl_lineId rl = lineId \<and> in_refund s orderId states rl) (sl_refundLines s)))"

definition restock_units :: "sales \<Rightarrow> uuid \<Rightarrow> uuid \<Rightarrow> int" where
  "restock_units s orderId lineId = sum_list (map rl_quantity
     (filter (\<lambda>rl. rl_lineId rl = lineId \<and> rl_restock rl \<noteq> None \<and>
        in_refund s orderId [RF_PENDING, RF_SUCCEEDED] rl) (sl_refundLines s)))"

subsection \<open>Requesting a refund\<close>

record refund_input =
  ri_amount :: string
  ri_reason :: "string option"
  ri_lines :: "line_entry list"
  ri_locationId :: "uuid option"
  ri_paymentId :: "uuid choice"

definition restocking_of :: "line_entry list \<Rightarrow> uuid list" where
  "restocking_of input = concat (map (\<lambda>e. if le_restock e then (case le_lineId e of None \<Rightarrow> [] | Some i \<Rightarrow> [i])
     else []) input)"

definition check_refund_line ::
  "sales \<Rightarrow> uuid \<Rightarrow> order_line_row list \<Rightarrow> uuid list \<Rightarrow> uuid \<times> int \<Rightarrow> domain_error + unit" where
  "check_refund_line s orderId lines restocking request = (case request of (i, q) \<Rightarrow>
     (case find (\<lambda>l. ol_id l = i) lines of
        None \<Rightarrow> Inr ()
      | Some l \<Rightarrow>
          if q > ol_quantity l - ol_refunded l - refund_units s orderId [RF_PENDING] i
          then Inl (VALIDATION_FAILED ''lines'' (''Too many units of '' @ ol_productTitle l @ '' for a refund.''))
          else if i \<in> set restocking \<and> q > ol_fulfilled l - restock_units s orderId i
          then Inl (VALIDATION_FAILED ''lines''
            (''Only fulfilled units of '' @ ol_productTitle l @ '' can be restocked.''))
          else Inr ()))"

definition restock_location ::
  "sales \<Rightarrow> refund_input \<Rightarrow> uuid list \<Rightarrow> (uuid \<times> int) list \<Rightarrow> domain_error + uuid option" where
  "restock_location s input restocking quantities =
     (if \<not> list_ex (\<lambda>(i, q). i \<in> set restocking) quantities then Inr None
      else case ri_locationId input of
        None \<Rightarrow> Inl (VALIDATION_FAILED ''locationId'' ''Choose where the items go back into stock.'')
      | Some location \<Rightarrow>
          if list_ex (\<lambda>l. lo_id l = location \<and> lo_isActive l \<and> \<not> lo_deleted l)
               (sd_locations (sh_stock (sl_shop s)))
          then Inr (Some location)
          else Inl (VALIDATION_FAILED ''locationId'' ''Choose an active location.''))"

text \<open>The refund's amount spread over its lines by what their units cost.\<close>

definition refund_weight :: "order_line_row list \<Rightarrow> uuid \<times> int \<Rightarrow> int" where
  "refund_weight lines request = (case find (\<lambda>l. ol_id l = fst request) lines of
     None \<Rightarrow> 0 | Some l \<Rightarrow> (ol_total l * snd request) sdiv ol_quantity l)"

definition line_amounts :: "int \<Rightarrow> string \<Rightarrow> int list \<Rightarrow> money_error + int list" where
  "line_amounts amount currency weights =
     (if weights \<noteq> [] \<and> list_ex (\<lambda>w. w > 0) weights
      then bindR (money (BigIntV amount) currency) (\<lambda>m.
           bindR (allocate m (map BigIntV weights)) (\<lambda>ms. Inr (map m_amount ms)))
      else Inr (map (\<lambda>_. 0) weights))"

record refund_request =
  rq_refundId :: uuid
  rq_amount :: int
  rq_currency :: string
  rq_chargeId :: "string option"
  rq_connection :: "connection_row option"

text \<open>The rows of a refund: itself, pending, and its lines.\<close>

definition insert_refund ::
  "refund_row \<Rightarrow> (uuid \<times> int) list \<Rightarrow> int list \<Rightarrow> uuid list \<Rightarrow> uuid option \<Rightarrow> sales \<Rightarrow> domain_error + sales" where
  "insert_refund r quantities amounts restocking location s =
     (if rf_amount r \<le> 0 then Inl (FAULT (VIOLATES ''Refund_amount_positive''))
      else Inr (s\<lparr>sl_refunds := sl_refunds s @ [r],
        sl_refundLines := sl_refundLines s @ map (\<lambda>(n, i, q). \<lparr>rl_refundId = rf_id r, rl_lineId = i,
          rl_quantity = q, rl_amount = at_or 0 amounts n,
          rl_restock = (if i \<in> set restocking then location else None)\<rparr>) (enumerate 0 quantities)\<rparr>))"

definition refundable ::
  "order_env \<Rightarrow> order_row \<Rightarrow> int \<Rightarrow> uuid option \<Rightarrow> sales \<Rightarrow> domain_error + payment_row" where
  "refundable env order amount paymentId s =
     (case find (\<lambda>p. case paymentId of None \<Rightarrow> True | Some i \<Rightarrow> pm_id p = i)
         (captured_payments s (or_id order)) of
        None \<Rightarrow> Inl (DOMAIN_CONFLICT ''This order has no captured payment to refund.'')
      | Some p \<Rightarrow>
          if amount > remaining_of s p
          then Inl (VALIDATION_FAILED ''amount''
            (if remaining_of s p > 0
             then ''You can refund up to '' @ oe_format env (remaining_of s p) (or_currency order) @ ''.''
             else ''This payment has been refunded in full.''))
          else Inr p)"

definition request_body ::
  "order_env \<Rightarrow> store_context \<Rightarrow> uuid \<Rightarrow> string option \<Rightarrow> refund_input \<Rightarrow> sales
   \<Rightarrow> domain_error + (sales \<times> refund_request)" where
  "request_body env ctx orderId reason input s =
     bindR (lockOrder orderId s) (\<lambda>order.
     bindR (case parseDecimal (ri_amount input) (or_currency order) False of
         Inl e \<Rightarrow> Inl (VALIDATION_FAILED ''amount'' (error_message e)) | Inr m \<Rightarrow> Inr (m_amount m)) (\<lambda>amount.
     if amount \<le> 0 then Inl (VALIDATION_FAILED ''amount'' ''Enter an amount greater than zero.'')
     else
     bindR (case ri_paymentId input of OMITTED \<Rightarrow> Inr None | CHOSEN i \<Rightarrow> Inr (Some i) | UNKNOWN \<Rightarrow> Inl NOT_FOUND) (\<lambda>paymentId.
     bindR (refundable env order amount paymentId s) (\<lambda>payment.
     let lines = lockLines orderId s; restocking = restocking_of (ri_lines input) in
     bindR (lineQuantities lines (ri_lines input) ''lines'') (\<lambda>quantities.
     bindR (foldR (\<lambda>_ r. check_refund_line s orderId lines restocking r) () quantities) (\<lambda>_.
     bindR (restock_location s input restocking quantities) (\<lambda>location.
     bindR (liftE (FAULT \<circ> BAD_MONEY) (line_amounts amount (or_currency order)
       (map (refund_weight lines) quantities))) (\<lambda>amounts.
     let (s1, i) = fresh_id s in
     bindR (insert_refund \<lparr>rf_id = i, rf_orderId = orderId, rf_paymentId = pm_id payment, rf_status = RF_PENDING,
         rf_currency = or_currency order, rf_amount = amount, rf_reason = reason, rf_providerRefundId = None,
         rf_failureMessage = None, rf_createdBy = oc_userId ctx\<rparr> quantities amounts restocking location s1) (\<lambda>s2.
     let s3 = on_shop (orderEvent orderId ''refund.requested''
            (''Refund of '' @ oe_format env amount (or_currency order) @ '' requested''
              @ (case reason of None \<Rightarrow> ''.'' | Some r \<Rightarrow> '': '' @ r))
            [(''refundId'', uuid_text i)] (Some (oc_userId ctx))) s2;
         s4 = recordAudit ctx ''order.refund.created'' (''Order'', orderId)
            [(''orderNumber'', show_int (or_number order)), (''amount'', show_int amount),
             (''currency'', or_currency order), (''reason'', case reason of None \<Rightarrow> ''null'' | Some r \<Rightarrow> r)] s3
     in Inr (s4, \<lparr>rq_refundId = i, rq_amount = amount, rq_currency = or_currency order,
          rq_chargeId = (case pm_providerChargeId payment of None \<Rightarrow> pm_providerPaymentId payment | c \<Rightarrow> c),
          rq_connection = find (\<lambda>c. cn_id c = pm_connectionId payment) (sh_connections (sl_shop s))\<rparr>))))))))))"

subsection \<open>Settling a refund\<close>

record refund_outcome =
  ro_refundId :: uuid
  ro_status :: refund_status
  ro_message :: "string option"

definition set_refunds :: "(refund_row \<Rightarrow> bool) \<Rightarrow> (refund_row \<Rightarrow> refund_row) \<Rightarrow> sales \<Rightarrow> sales" where
  "set_refunds sel f s = s\<lparr>sl_refunds := update_rows sel f (sl_refunds s)\<rparr>"

text \<open>The conditional update of the payment.\<close>

definition move_money :: "uuid \<Rightarrow> int \<Rightarrow> sales \<Rightarrow> domain_error + sales" where
  "move_money paymentId amount s =
     (let sel = (\<lambda>p. pm_id p = paymentId \<and> pm_refunded p + amount \<le> pm_capturedAmount p)
      in if length (filter sel (sh_payments (sl_shop s))) \<noteq> 1
         then Inl (DOMAIN_CONFLICT ''This refund would exceed the captured amount.'')
         else Inr (on_shop (set_payments sel (\<lambda>p. p\<lparr>pm_refunded := pm_refunded p + amount\<rparr>)) s))"

definition order_refunded :: "order_row \<Rightarrow> int \<Rightarrow> sales \<Rightarrow> domain_error + sales" where
  "order_refunded order amount s =
     (let refunded = or_refunded order + amount
      in if refunded < 0 \<or> refunded > or_total order then Inl (FAULT (VIOLATES ''Order_refunded_range''))
         else Inr (set_orders (\<lambda>r. or_id r = or_id order) (\<lambda>r. r\<lparr>or_refunded := refunded,
           or_paymentStatus := orderPaymentStatus (or_total order) refunded\<rparr>) s))"

text \<open>The lines of a refund with the tracked item of their variant.\<close>

definition refund_items :: "sales \<Rightarrow> uuid \<Rightarrow> (refund_line_row \<times> uuid option) list" where
  "refund_items s refundId = concat (map (\<lambda>rl.
     case find (\<lambda>l. ol_id l = rl_lineId rl) (lines_of s) of None \<Rightarrow> []
     | Some l \<Rightarrow> [(rl, map_option it_id (find (\<lambda>ii. it_variantId ii = ol_variantId l \<and> it_tracked ii)
          (sd_items (sh_stock (sl_shop s)))))])
     (filter (\<lambda>rl. rl_refundId rl = refundId) (sl_refundLines s)))"

definition count_refunded :: "sales \<Rightarrow> refund_line_row \<times> uuid option \<Rightarrow> domain_error + sales" where
  "count_refunded s l = (let q = rl_quantity (fst l);
       sel = (\<lambda>ol. ol_id ol = rl_lineId (fst l) \<and> ol_refunded ol + q \<le> ol_quantity ol)
     in if length (filter sel (lines_of s)) \<noteq> 1
        then Inl (DOMAIN_CONFLICT ''This refund covers more units than were ordered.'')
        else Inr (set_lines sel (\<lambda>ol. ol\<lparr>ol_refunded := ol_refunded ol + q\<rparr>) s))"

definition restock_moves :: "(refund_line_row \<times> uuid option) list \<Rightarrow> restock_move list" where
  "restock_moves ls = concat (map (\<lambda>(rl, item). case (rl_restock rl, item) of
     (Some location, Some i) \<Rightarrow> [\<lparr>rm_itemId = i, rm_locationId = location, rm_quantity = rl_quantity rl\<rparr>]
   | _ \<Rightarrow> []) ls)"

text \<open>The provider accepted: money is committed back.\<close>

definition settle_accepted ::
  "order_env \<Rightarrow> uuid \<Rightarrow> uuid \<Rightarrow> refund_row \<Rightarrow> string option \<Rightarrow> sales \<Rightarrow> domain_error + (sales \<times> refund_outcome)" where
  "settle_accepted env actor orderId refund providerRefundId s =
     bindR (lockOrder orderId s) (\<lambda>order.
     let primary = is_primary s orderId (rf_paymentId refund) in
     bindR (move_money (rf_paymentId refund) (rf_amount refund) s) (\<lambda>s1.
     let s2 = set_refunds (\<lambda>r. rf_id r = rf_id refund) (\<lambda>r. r\<lparr>rf_status := RF_SUCCEEDED,
            rf_providerRefundId := providerRefundId, rf_failureMessage := None\<rparr>) s1 in
     bindR (if primary then order_refunded order (rf_amount refund) s2 else Inr s2) (\<lambda>s3.
     let items = refund_items s3 (rf_id refund) in
     bindR (foldR count_refunded s3 items) (\<lambda>s4.
     bindR (in_stock (restockStock orderId (restock_moves items) (Some actor)) s4) (\<lambda>s5.
     let s6 = on_shop (orderEvent orderId ''refund.succeeded''
            (''Refunded '' @ oe_format env (rf_amount refund) (rf_currency refund) @ ''.'')
            [(''refundId'', uuid_text (rf_id refund))] None) s5;
         s7 = on_shop (queueNotification orderId REFUND_CREATED (''refund:'' @ uuid_text (rf_id refund))
            (or_email order) (Some (rf_id refund))) s6
     in Inr (s7, \<lparr>ro_refundId = rf_id refund, ro_status = RF_SUCCEEDED, ro_message = None\<rparr>))))))"

definition settleRefund ::
  "order_env \<Rightarrow> store_context \<Rightarrow> uuid \<Rightarrow> uuid \<Rightarrow> refund_result option \<Rightarrow> string option \<Rightarrow> sales
   \<Rightarrow> domain_error + (sales \<times> refund_outcome)" where
  "settleRefund env ctx orderId refundId result note s =
     (case find (\<lambda>r. rf_id r = refundId \<and> rf_orderId r = orderId) (sl_refunds s) of
        None \<Rightarrow> Inl NOT_FOUND
      | Some refund \<Rightarrow>
          if rf_status refund \<noteq> RF_PENDING
          then Inr (s, \<lparr>ro_refundId = refundId, ro_status = rf_status refund, ro_message = None\<rparr>)
          else (case result of
            None \<Rightarrow>
              Inr (if note = None \<or> note = Some [] then s
                   else set_refunds (\<lambda>r. rf_id r = refundId) (\<lambda>r. r\<lparr>rf_failureMessage := note\<rparr>) s,
                \<lparr>ro_refundId = refundId, ro_status = RF_PENDING, ro_message = note\<rparr>)
          | Some answer \<Rightarrow>
              if rr_status answer = RC_FAILED then
                let message = (case rr_failureMessage answer of None \<Rightarrow> ''The payment provider declined the refund.''
                      | Some m \<Rightarrow> m);
                    s1 = set_refunds (\<lambda>r. rf_id r = refundId) (\<lambda>r. r\<lparr>rf_status := RF_FAILED,
                      rf_failureMessage := Some message\<rparr>) s
                in Inr (on_shop (orderEvent orderId ''refund.failed'' (''Refund failed: '' @ message)
                     [(''refundId'', uuid_text refundId)] None) s1,
                   \<lparr>ro_refundId = refundId, ro_status = RF_FAILED, ro_message = Some message\<rparr>)
              else settle_accepted env (oc_userId ctx) orderId refund (rr_providerRefundId answer) s))"

definition failed_result :: "string \<Rightarrow> refund_result" where
  "failed_result message = \<lparr>rr_providerRefundId = None, rr_status = RC_FAILED, rr_failureMessage = Some message\<rparr>"

text \<open>The call between the transactions: the result to settle with, or a note for the merchant.\<close>

definition refund_call_result :: "order_env \<Rightarrow> refund_request \<Rightarrow> refund_result option \<times> string option" where
  "refund_call_result env created =
     (case (rq_connection created, rq_chargeId created) of
        (Some connection, Some charge) \<Rightarrow>
          if \<not> ce_opens (oe_checkout env) connection \<or> charge = []
          then (Some (failed_result ''The payment provider isn't available for this store right now.''), None)
          else (case oe_refund env connection \<lparr>rc_chargeId = charge, rc_amount = rq_amount created,
                  rc_currency = rq_currency created, rc_reference = rq_refundId created\<rparr> of
              ANSWERED r \<Rightarrow> (Some r, None)
            | DECLINED_CALL \<Rightarrow> (Some (failed_result ''The payment provider declined the refund.''), None)
            | UNCONFIRMED \<Rightarrow> (None, Some (''The payment provider didn't confirm this refund. Check your provider ''
                @ ''dashboard, then mark it as refunded or failed.'')))
      | _ \<Rightarrow> (Some (failed_result ''The payment provider isn't available for this store right now.''), None))"

definition refundOrder ::
  "order_env \<Rightarrow> store_context \<Rightarrow> uuid \<Rightarrow> refund_input \<Rightarrow> sales \<Rightarrow> sales \<times> (domain_error + refund_outcome)" where
  "refundOrder env ctx orderId input s =
     (case bindR (text_field (ri_reason input) 500 ''reason'') (\<lambda>reason.
           bindR (requirePermission ctx ORDER_REFUND) (\<lambda>_.
           bindR (requireRecentAuthentication ctx ''refunding a payment'') (\<lambda>_.
           bindR (requireWritableStore ctx) (\<lambda>_. Inr reason)))) of
        Inl e \<Rightarrow> (s, Inl e)
      | Inr reason \<Rightarrow>
          (case transaction (request_body env ctx orderId reason input) s of
             (s1, Inl e) \<Rightarrow> (s1, Inl e)
           | (s1, Inr created) \<Rightarrow>
               (case refund_call_result env created of (result, note) \<Rightarrow>
                  transaction (settleRefund env ctx orderId (rq_refundId created) result note) s1)))"

definition resolve_body ::
  "order_env \<Rightarrow> store_context \<Rightarrow> uuid \<Rightarrow> uuid \<Rightarrow> bool \<Rightarrow> sales \<Rightarrow> domain_error + (sales \<times> refund_outcome)" where
  "resolve_body env ctx orderId refundId succeeded s =
     bindR (settleRefund env ctx orderId refundId
         (Some (if succeeded then \<lparr>rr_providerRefundId = None, rr_status = RC_SUCCEEDED, rr_failureMessage = None\<rparr>
                else failed_result ''Marked as failed by staff.'')) None s) (\<lambda>(s1, settled).
     Inr (recordAudit ctx ''order.refund.resolved'' (''Refund'', refundId)
       [(''status'', case ro_status settled of RF_PENDING \<Rightarrow> ''PENDING'' | RF_SUCCEEDED \<Rightarrow> ''SUCCEEDED''
          | RF_FAILED \<Rightarrow> ''FAILED'')] s1, settled))"

definition resolvePendingRefund ::
  "order_env \<Rightarrow> store_context \<Rightarrow> uuid \<Rightarrow> uuid \<Rightarrow> bool \<Rightarrow> sales \<Rightarrow> sales \<times> (domain_error + refund_outcome)" where
  "resolvePendingRefund env ctx orderId refundId succeeded =
     inStore ctx ORDER_REFUND True (resolve_body env ctx orderId refundId succeeded)"

subsection \<open>Cancellation with a refund, and the order's note\<close>

definition refund_rest ::
  "order_env \<Rightarrow> store_context \<Rightarrow> uuid \<Rightarrow> string option \<Rightarrow> sales \<Rightarrow> sales \<times> (domain_error + refund_outcome option)" where
  "refund_rest env ctx orderId reason s =
     (case captured_payments s orderId of
        [] \<Rightarrow> (s, Inr None)
      | p # _ \<Rightarrow>
          if remaining_of s p \<le> 0 then (s, Inr None)
          else (case bindR (money (BigIntV (remaining_of s p)) (pm_currency p)) toDecimalString of
             Inl e \<Rightarrow> (s, Inl (FAULT (BAD_MONEY e)))
           | Inr amount \<Rightarrow>
               (case refundOrder env ctx orderId \<lparr>ri_amount = amount,
                    ri_reason = (case reason of None \<Rightarrow> Some ''Order cancelled'' | r \<Rightarrow> r), ri_lines = [],
                    ri_locationId = None, ri_paymentId = OMITTED\<rparr> s of
                  (s1, Inl e) \<Rightarrow> (s1, Inl e) | (s1, Inr r) \<Rightarrow> (s1, Inr (Some r)))))"

definition cancelOrder ::
  "order_env \<Rightarrow> store_context \<Rightarrow> uuid \<Rightarrow> string option \<Rightarrow> bool \<Rightarrow> sales
   \<Rightarrow> sales \<times> (domain_error + (bool \<times> refund_outcome option))" where
  "cancelOrder env ctx orderId reason wantsRefund s =
     (case bindR (text_field reason 500 ''reason'') (\<lambda>r.
           if wantsRefund
           then bindR (requirePermission ctx ORDER_REFUND) (\<lambda>_.
                bindR (requireRecentAuthentication ctx ''refunding a payment'') (\<lambda>_. Inr r))
           else Inr r) of
        Inl e \<Rightarrow> (s, Inl e)
      | Inr r \<Rightarrow>
          (case inStore ctx ORDER_MANAGE True (cancel_body env ctx orderId r) s of
             (s1, Inl e) \<Rightarrow> (s1, Inl e)
           | (s1, Inr cancelled) \<Rightarrow>
               if \<not> wantsRefund then (s1, Inr (cancelled, None))
               else (case refund_rest env ctx orderId r s1 of
                  (s2, Inl e) \<Rightarrow> (s2, Inl e) | (s2, Inr refund) \<Rightarrow> (s2, Inr (cancelled, refund)))))"

definition note_body :: "store_context \<Rightarrow> uuid \<Rightarrow> string option \<Rightarrow> sales \<Rightarrow> domain_error + (sales \<times> unit)" where
  "note_body ctx orderId note s =
     (if \<not> list_ex (\<lambda>r. or_id r = orderId) (orders_of s) then Inl NOT_FOUND
      else Inr (recordAudit ctx ''order.note.updated'' (''Order'', orderId) []
        (set_orders (\<lambda>r. or_id r = orderId) (\<lambda>r. r\<lparr>or_note := note\<rparr>) s), ()))"

definition updateOrderNote :: "store_context \<Rightarrow> uuid \<Rightarrow> string option \<Rightarrow> sales \<Rightarrow> sales \<times> (domain_error + unit)" where
  "updateOrderNote ctx orderId input s = (case text_field input 5000 ''note'' of
     Inl e \<Rightarrow> (s, Inl e) | Inr note \<Rightarrow> inStore ctx ORDER_MANAGE True (note_body ctx orderId note) s)"

end
