(* ===== verification/Upkeep.thy ===== *)
theory Upkeep
  imports Refunds
begin

section \<open>Keeping orders: archive, links, demo orders, journey, completion\<close>

text \<open>
  \<open>packages/commerce/src/orders/operations.ts\<close>, with \<open>revokeOrderAccess\<close> of \<open>access.ts\<close> and the
  database function \<open>app_purge_demo_order\<close> (its last migration) over the modelled tables.
\<close>

subsection \<open>Archive\<close>

definition archive_body :: "order_env \<Rightarrow> store_context \<Rightarrow> uuid \<Rightarrow> bool \<Rightarrow> sales \<Rightarrow> domain_error + (sales \<times> unit)" where
  "archive_body env ctx orderId archived s =
     bindR (lockOrder orderId s) (\<lambda>order.
     if (or_archivedAt order \<noteq> None) = archived then Inr (s, ())
     else let action = (if archived then ''order.archived'' else ''order.unarchived'');
          s1 = set_orders (\<lambda>r. or_id r = orderId)
            (\<lambda>r. r\<lparr>or_archivedAt := (if archived then Some (oe_now env) else None),
               or_archivedBy := (if archived then Some (oc_userId ctx) else None)\<rparr>) s;
          s2 = on_shop (orderEvent orderId action
            (if archived then ''Order archived.'' else ''Order restored from the archive.'') []
            (Some (oc_userId ctx))) s1
     in Inr (recordAudit ctx action (''Order'', orderId) [(''orderNumber'', show_int (or_number order))] s2, ()))"

definition setOrderArchived ::
  "order_env \<Rightarrow> store_context \<Rightarrow> uuid \<Rightarrow> bool \<Rightarrow> sales \<Rightarrow> sales \<times> (domain_error + unit)" where
  "setOrderArchived env ctx orderId archived = inStore ctx ORDER_MANAGE True (archive_body env ctx orderId archived)"

subsection \<open>The shopper's link\<close>

definition live_link :: "uuid \<Rightarrow> access_row \<Rightarrow> bool" where
  "live_link orderId a \<longleftrightarrow> ac_orderId a = orderId \<and> ac_revokedAt a = None"

definition revokeOrderAccess :: "date \<Rightarrow> uuid \<Rightarrow> shop \<Rightarrow> shop \<times> nat" where
  "revokeOrderAccess now orderId s =
     (s\<lparr>sh_access := update_rows (live_link orderId) (\<lambda>a. a\<lparr>ac_revokedAt := Some now\<rparr>) (sh_access s)\<rparr>,
      length (filter (live_link orderId) (sh_access s)))"

text \<open>The newest live link: rows are created in order, so it is the last one.\<close>

definition newest_link :: "uuid \<Rightarrow> shop \<Rightarrow> access_row option" where
  "newest_link orderId s = find (live_link orderId) (rev (sh_access s))"

definition reset_link_body ::
  "order_env \<Rightarrow> store_context \<Rightarrow> uuid \<Rightarrow> sales \<Rightarrow> domain_error + (sales \<times> nat \<times> bool)" where
  "reset_link_body env ctx orderId s =
     bindR (lockOrder orderId s) (\<lambda>order.
     let (t1, revoked) = revokeOrderAccess (oe_now env) orderId (sl_shop s);
         t2 = createOrderAccess (oe_checkout env) orderId t1;
         link = newest_link orderId t2;
         emailed = (or_email order \<noteq> None \<and> link \<noteq> None);
         t3 = (case link of None \<Rightarrow> t2
           | Some a \<Rightarrow> queueNotification orderId ORDER_CONFIRMATION (''link-reset:'' @ uuid_text (ac_id a))
               (or_email order) None t2);
         t4 = orderEvent orderId ''order.link_reset''
           ''Customer order link reset. The previous link no longer works.'' [] (Some (oc_userId ctx)) t3
     in Inr (recordAudit ctx ''order.customer_link_reset'' (''Order'', orderId)
          [(''orderNumber'', show_int (or_number order)), (''revoked'', show_nat revoked),
           (''emailed'', if emailed then ''true'' else ''false'')] (s\<lparr>sl_shop := t4\<rparr>), revoked, emailed))"

definition resetCustomerOrderLink ::
  "order_env \<Rightarrow> store_context \<Rightarrow> uuid \<Rightarrow> sales \<Rightarrow> sales \<times> (domain_error + (nat \<times> bool))" where
  "resetCustomerOrderLink env ctx orderId = inStore ctx ORDER_MANAGE True (reset_link_body env ctx orderId)"

subsection \<open>Demo orders\<close>

text \<open>The environment's stage and its explicit switch.\<close>

record stage_env =
  sv_stage :: "string option"
  sv_deletion :: "string option"

definition demoOrderDeletionEnabled :: "stage_env \<Rightarrow> bool" where
  "demoOrderDeletionEnabled env \<longleftrightarrow> sv_stage env = Some ''development'' \<or> sv_stage env = Some ''test'' \<or>
     sv_deletion env = Some ''true''"

definition live_payment :: "sales \<Rightarrow> uuid \<Rightarrow> bool" where
  "live_payment s orderId \<longleftrightarrow> list_ex (\<lambda>p. pm_orderId p = Some orderId \<and>
     list_ex (\<lambda>c. cn_id c = pm_connectionId p \<and> \<not> cn_test c) (sh_connections (sl_shop s)))
     (sh_payments (sl_shop s))"

definition purge_tables :: "uuid \<Rightarrow> order_tables \<Rightarrow> order_tables" where
  "purge_tables target ts = \<lparr>ot_orders = filter (\<lambda>r. or_id r \<noteq> target) (ot_orders ts),
     ot_lines = filter (\<lambda>r. ol_orderId r \<noteq> target) (ot_lines ts),
     ot_taxes = filter (\<lambda>r. ox_orderId r \<noteq> target) (ot_taxes ts),
     ot_shipping = filter (\<lambda>r. os_orderId r \<noteq> target) (ot_shipping ts),
     ot_discounts = filter (\<lambda>r. od_orderId r \<noteq> target) (ot_discounts ts),
     ot_addresses = filter (\<lambda>r. oa_orderId r \<noteq> target) (ot_addresses ts)\<rparr>"

definition purge_shop :: "uuid \<Rightarrow> shop \<Rightarrow> shop" where
  "purge_shop target s = s\<lparr>
     sh_access := filter (\<lambda>a. ac_orderId a \<noteq> target) (sh_access s),
     sh_notifications := filter (\<lambda>n. no_orderId n \<noteq> target) (sh_notifications s),
     sh_events := filter (\<lambda>e. ev_orderId e \<noteq> target) (sh_events s),
     sh_redemptions := filter (\<lambda>r. rd_orderId r \<noteq> Some target) (sh_redemptions s),
     sh_stock := (sh_stock s)\<lparr>sd_reservations :=
       filter (\<lambda>r. rs_order r \<noteq> Some target) (sd_reservations (sh_stock s))\<rparr>,
     sh_payments := update_rows (\<lambda>p. pm_orderId p = Some target) (\<lambda>p. p\<lparr>pm_orderId := None\<rparr>) (sh_payments s),
     sh_orders := purge_tables target (sh_orders s),
     sh_checkouts := update_rows (\<lambda>c. ch_completedOrderId c = Some target)
       (\<lambda>c. c\<lparr>ch_completedOrderId := None, ch_status := CO_EXPIRED\<rparr>) (sh_checkouts s)\<rparr>"

definition app_purge_demo_order :: "uuid \<Rightarrow> sales \<Rightarrow> domain_error + (sales \<times> bool)" where
  "app_purge_demo_order target s =
     (if \<not> list_ex (\<lambda>r. or_id r = target) (orders_of s) then Inr (s, False)
      else if live_payment s target
      then Inl (FAULT (THROWN ''orders with a live payment are never deleted''))
      else
        let fulfilments = map fu_id (filter (\<lambda>f. fu_orderId f = target) (sl_fulfilments s));
            refunds = map rf_id (filter (\<lambda>r. rf_orderId r = target) (sl_refunds s))
        in Inr (s\<lparr>
          sl_fulfilmentLines := filter (\<lambda>l. fn_fulfilmentId l \<notin> set fulfilments) (sl_fulfilmentLines s),
          sl_fulfilments := filter (\<lambda>f. fu_orderId f \<noteq> target) (sl_fulfilments s),
          sl_refundLines := filter (\<lambda>l. rl_refundId l \<notin> set refunds) (sl_refundLines s),
          sl_refunds := filter (\<lambda>r. rf_orderId r \<noteq> target) (sl_refunds s),
          sl_shop := purge_shop target (sl_shop s)\<rparr>, True))"

definition delete_demo_body ::
  "store_context \<Rightarrow> uuid \<Rightarrow> string option \<Rightarrow> sales \<Rightarrow> domain_error + (sales \<times> unit)" where
  "delete_demo_body ctx orderId confirm s =
     bindR (lockOrder orderId s) (\<lambda>order.
     if confirm \<noteq> Some (''#'' @ show_int (or_number order)) \<and> confirm \<noteq> Some (show_int (or_number order))
     then Inl (VALIDATION_FAILED ''confirm'' (''Type #'' @ show_int (or_number order) @ '' to confirm.''))
     else if live_payment s orderId
     then Inl (DOMAIN_CONFLICT ''This order took a live payment. It can only be archived.'')
     else
     bindR (if or_status order = ORD_OPEN
            then in_stock (cancelOrderStock orderId
              (whole_reservations (orderReservations (sh_stock (sl_shop s)) orderId)) (Some (oc_userId ctx))) s
            else Inr s) (\<lambda>s1.
     bindR (app_purge_demo_order orderId (recordAudit ctx ''order.demo_deleted'' (''Order'', orderId)
         [(''orderNumber'', show_int (or_number order))] s1)) (\<lambda>(s2, ok).
     if ok then Inr (s2, ()) else Inl NOT_FOUND)))"

definition deleteDemoOrder ::
  "stage_env \<Rightarrow> store_context \<Rightarrow> uuid \<Rightarrow> string option \<Rightarrow> sales \<Rightarrow> sales \<times> (domain_error + unit)" where
  "deleteDemoOrder stage ctx orderId confirm s =
     (if \<not> demoOrderDeletionEnabled stage
      then (s, Inl (DOMAIN_CONFLICT ''Orders can't be deleted here. Archive the order instead.''))
      else inStore ctx ORDER_MANAGE True (delete_demo_body ctx orderId confirm) s)"

subsection \<open>The journey of a fulfilment\<close>

text \<open>An optional text of an edit: left as it is, cleared, or a value; anything else is refused.\<close>

datatype text_edit = TEXT_LEFT | TEXT_NULL | TEXT_GIVEN string | NO_TEXT

definition optionalText :: "text_edit \<Rightarrow> nat \<Rightarrow> string \<Rightarrow> domain_error + string option option" where
  "optionalText value limit field = (case value of
     TEXT_LEFT \<Rightarrow> Inr None
   | TEXT_NULL \<Rightarrow> Inr (Some None)
   | NO_TEXT \<Rightarrow> Inl (VALIDATION_FAILED field ''Enter text.'')
   | TEXT_GIVEN t \<Rightarrow>
       let v = trim t
       in if v = [] then Inr (Some None)
          else if length v > limit
          then Inl (VALIDATION_FAILED field (''Use at most '' @ show_nat limit @ '' characters.''))
          else Inr (Some (Some v)))"

definition validTrackingUrl :: "string option \<Rightarrow> bool" where
  "validTrackingUrl value = opt_all (\<lambda>u. full_link u \<and> length u \<le> 500) value"

text \<open>A date of an edit; the platform parses texts.\<close>

datatype date_edit = DATE_LEFT | DATE_NULL | DATE_GIVEN date | NO_DATE

definition optionalDate :: "date \<Rightarrow> date_edit \<Rightarrow> string \<Rightarrow> date \<Rightarrow> domain_error + date option" where
  "optionalDate now value field notBefore = (case value of
     DATE_LEFT \<Rightarrow> Inr None
   | DATE_NULL \<Rightarrow> Inr None
   | NO_DATE \<Rightarrow> Inl (VALIDATION_FAILED field ''Enter a date.'')
   | DATE_GIVEN d \<Rightarrow>
       if d > now + 5 * 60000 then Inl (VALIDATION_FAILED field ''The date can't be in the future.'')
       else if d < notBefore - 24 * 3600000
       then Inl (VALIDATION_FAILED field ''The date is before the order was placed.'')
       else Inr (Some d))"

record update_input =
  ui_method :: "fulfilment_method choice"
  ui_status :: "shipment_status choice"
  ui_company :: text_edit
  ui_number :: text_edit
  ui_url :: text_edit
  ui_shippedAt :: date_edit
  ui_deliveredAt :: date_edit

definition chosen_or :: "'a choice \<Rightarrow> 'a \<Rightarrow> 'a" where
  "chosen_or c d = (case c of CHOSEN x \<Rightarrow> x | _ \<Rightarrow> d)"

definition or_else :: "'a option \<Rightarrow> 'a option \<Rightarrow> 'a option" where
  "or_else x y = (case x of None \<Rightarrow> y | Some _ \<Rightarrow> x)"

definition step_error :: "fulfilment_method \<Rightarrow> shipment_status \<Rightarrow> domain_error" where
  "step_error m st = VALIDATION_FAILED ''status'' (SHIPMENT_LABELS st @ '' isn't a step of '' @
     (if m = LOCAL_DELIVERY then ''local delivery'' else ''carrier shipping'') @ ''.'')"

definition lockFulfilment :: "uuid \<Rightarrow> uuid \<Rightarrow> sales \<Rightarrow> domain_error + fulfilment_row" where
  "lockFulfilment orderId fulfilmentId s = fromSome NOT_FOUND
     (find (\<lambda>f. fu_id f = fulfilmentId \<and> fu_orderId f = orderId) (sl_fulfilments s))"

text \<open>The row after the edit.\<close>

definition edited_fulfilment ::
  "date \<Rightarrow> order_row \<Rightarrow> fulfilment_row \<Rightarrow> update_input \<Rightarrow> string option option \<Rightarrow> string option option
   \<Rightarrow> string option option \<Rightarrow> domain_error + fulfilment_row" where
  "edited_fulfilment now order current input company number url =
     (let m = chosen_or (ui_method input) (fu_method current);
          st = chosen_or (ui_status input) (fu_status current)
      in if or_completedAt order \<noteq> None \<and> (m \<noteq> fu_method current \<or> st \<noteq> fu_status current)
      then Inl (DOMAIN_CONFLICT ''This order is complete. Only tracking details can still change.'')
      else if \<not> allowedStatus m st then Inl (step_error m st)
      else
      bindR (optionalDate now (ui_shippedAt input) ''shippedAt'' (or_placedAt order)) (\<lambda>givenShipped.
      bindR (optionalDate now (ui_deliveredAt input) ''deliveredAt'' (or_placedAt order)) (\<lambda>givenDelivered.
      let shippedAt = (if isDispatched st
             then or_else givenShipped (or_else (fu_shippedAt current) (Some now)) else None);
          deliveredAt = (if st = DELIVERED
             then or_else givenDelivered (or_else (fu_deliveredAt current) (Some now)) else None)
      in if (case (deliveredAt, shippedAt) of (Some d, Some sh) \<Rightarrow> d < sh | _ \<Rightarrow> False)
         then Inl (VALIDATION_FAILED ''deliveredAt'' ''Delivery can't be before it was shipped.'')
         else Inr (current\<lparr>fu_method := m, fu_status := st,
           fu_company := (case company of None \<Rightarrow> fu_company current | Some c \<Rightarrow> c),
           fu_number := (case number of None \<Rightarrow> fu_number current | Some n \<Rightarrow> n),
           fu_url := (case url of None \<Rightarrow> fu_url current | Some u \<Rightarrow> u),
           fu_shippedAt := shippedAt, fu_deliveredAt := deliveredAt\<rparr>))))"

definition tracking_changed :: "fulfilment_row \<Rightarrow> fulfilment_row \<Rightarrow> bool" where
  "tracking_changed current f \<longleftrightarrow>
     fu_company f \<noteq> fu_company current \<or> fu_number f \<noteq> fu_number current \<or> fu_url f \<noteq> fu_url current"

text \<open>The timeline of an edit and the shopper's email, sent when the parcel first leaves.\<close>

definition announce_edit ::
  "uuid \<Rightarrow> order_row \<Rightarrow> fulfilment_row \<Rightarrow> fulfilment_row \<Rightarrow> shop \<Rightarrow> shop" where
  "announce_edit actor order current f s =
     (let orderId = or_id order; ref = (''fulfilmentId'', uuid_text (fu_id current));
          s1 = (if fu_status f \<noteq> fu_status current
            then orderEvent orderId (''fulfilment.'' @ toLowerCase (SHIPMENT_CODES (fu_status f)))
              (''Fulfilment marked '' @ toLowerCase (SHIPMENT_LABELS (fu_status f)) @ ''.'')
              [ref, (''from'', SHIPMENT_CODES (fu_status current)), (''to'', SHIPMENT_CODES (fu_status f))]
              (Some actor) s
            else s);
          s2 = (if fu_method f \<noteq> fu_method current
            then orderEvent orderId ''fulfilment.method_changed''
              (if fu_method f = LOCAL_DELIVERY then ''Changed to local delivery.'' else ''Changed to carrier shipping.'')
              [ref] (Some actor) s1
            else s1);
          s3 = (if tracking_changed current f
            then orderEvent orderId ''fulfilment.tracking_updated''
              (case fu_number f of None \<Rightarrow> ''Tracking removed.''
               | Some n \<Rightarrow> ''Tracking '' @ (if fu_number current = None then ''added'' else ''updated'') @ '': '' @
                   joinWith '' '' ((case fu_company f of None \<Rightarrow> [] | Some c \<Rightarrow> [c]) @ [n]) @ ''.'')
              [ref] (Some actor) s2
            else s2)
      in if \<not> isDispatched (fu_status current) \<and> isDispatched (fu_status f)
         then queueNotification orderId ORDER_FULFILLED (''fulfilment:'' @ uuid_text (fu_id current))
           (or_email order) (Some (fu_id current)) s3
         else s3)"

definition update_body ::
  "order_env \<Rightarrow> store_context \<Rightarrow> uuid \<Rightarrow> uuid \<Rightarrow> update_input \<Rightarrow> string option option \<Rightarrow> string option option
   \<Rightarrow> string option option \<Rightarrow> sales \<Rightarrow> domain_error + (sales \<times> unit)" where
  "update_body env ctx orderId fulfilmentId input company number url s =
     bindR (lockOrder orderId s) (\<lambda>order.
     if or_status order = ORD_CANCELLED then Inl (DOMAIN_CONFLICT ''This order is cancelled.'')
     else
     bindR (lockFulfilment orderId fulfilmentId s) (\<lambda>current.
     if fu_state current \<noteq> F_SUCCESS then Inl (DOMAIN_CONFLICT ''This fulfilment was cancelled.'')
     else
     bindR (edited_fulfilment (oe_now env) order current input company number url) (\<lambda>f.
     bindR (fulfilment_stored f) (\<lambda>_.
     let s1 = s\<lparr>sl_fulfilments := update_rows (\<lambda>r. fu_id r = fulfilmentId) (\<lambda>_. f) (sl_fulfilments s)\<rparr>;
         s2 = on_shop (announce_edit (oc_userId ctx) order current f) s1
     in Inr (if fu_status f \<noteq> fu_status current \<or> fu_method f \<noteq> fu_method current \<or> tracking_changed current f
       then recordAudit ctx (if fu_status f = DELIVERED \<and> fu_status current \<noteq> DELIVERED
           then ''order.fulfilment_delivered'' else ''order.fulfilment_updated'') (''Order'', orderId)
         [(''orderNumber'', show_int (or_number order)), (''status'', SHIPMENT_CODES (fu_status f)),
          (''previousStatus'', SHIPMENT_CODES (fu_status current)), (''mode'', METHOD_CODES (fu_method f))] s2
       else s2, ())))))"

definition updateFulfilment ::
  "order_env \<Rightarrow> store_context \<Rightarrow> uuid \<Rightarrow> uuid \<Rightarrow> update_input \<Rightarrow> sales \<Rightarrow> sales \<times> (domain_error + unit)" where
  "updateFulfilment env ctx orderId fulfilmentId input s =
     (case bindR (optionalText (ui_company input) 100 ''trackingCompany'') (\<lambda>company.
           bindR (optionalText (ui_number input) 100 ''trackingNumber'') (\<lambda>number.
           bindR (optionalText (ui_url input) 500 ''trackingUrl'') (\<lambda>url.
           if \<not> validTrackingUrl (Option.bind url id)
           then Inl (VALIDATION_FAILED ''trackingUrl'' ''Enter a full link starting with https://.'')
           else if ui_method input = UNKNOWN
           then Inl (VALIDATION_FAILED ''method'' ''Choose shipping or local delivery.'')
           else if ui_status input = UNKNOWN then Inl (VALIDATION_FAILED ''status'' ''Choose a status.'')
           else Inr (company, number, url)))) of
        Inl e \<Rightarrow> (s, Inl e)
      | Inr (company, number, url) \<Rightarrow>
          inStore ctx ORDER_MANAGE True (update_body env ctx orderId fulfilmentId input company number url) s)"

definition markFulfilmentDelivered ::
  "order_env \<Rightarrow> store_context \<Rightarrow> uuid \<Rightarrow> uuid \<Rightarrow> sales \<Rightarrow> sales \<times> (domain_error + unit)" where
  "markFulfilmentDelivered env ctx orderId fulfilmentId = updateFulfilment env ctx orderId fulfilmentId
     \<lparr>ui_method = OMITTED, ui_status = CHOSEN DELIVERED, ui_company = TEXT_LEFT, ui_number = TEXT_LEFT,
      ui_url = TEXT_LEFT, ui_shippedAt = DATE_LEFT, ui_deliveredAt = DATE_LEFT\<rparr>"

subsection \<open>Completion\<close>

definition order_blockers :: "sales \<Rightarrow> order_row \<Rightarrow> string list" where
  "order_blockers s order = completionBlockers (or_status order) (or_completedAt order) (or_paymentStatus order)
     (or_fulfilmentStatus order) (orderDeliveryStatus (or_fulfilmentStatus order)
       (map (\<lambda>f. \<lparr>fv_state = fu_state f, fv_status = fu_status f\<rparr>)
         (filter (\<lambda>f. fu_orderId f = or_id order) (sl_fulfilments s))))"

definition complete_body ::
  "order_env \<Rightarrow> store_context \<Rightarrow> uuid \<Rightarrow> bool \<Rightarrow> string option \<Rightarrow> sales \<Rightarrow> domain_error + (sales \<times> unit)" where
  "complete_body env ctx orderId override reason s =
     bindR (lockOrder orderId s) (\<lambda>order.
     if completionImpossible (or_status order) (or_completedAt order)
     then (if or_completedAt order \<noteq> None then Inr (s, ())
           else Inl (DOMAIN_CONFLICT ''A cancelled order can't be completed.''))
     else let blockers = order_blockers s order
     in if blockers \<noteq> [] \<and> \<not> override
     then Inl (DOMAIN_CONFLICT (''This order can't be completed yet: '' @ joinWith '' '' blockers))
     else if blockers \<noteq> [] \<and> (reason = None \<or> reason = Some [])
     then Inl (VALIDATION_FAILED ''reason'' ''Say why you're completing it anyway.'')
     else
       let s1 = set_orders (\<lambda>r. or_id r = orderId \<and> or_status r = ORD_OPEN \<and> or_completedAt r = None)
              (\<lambda>r. r\<lparr>or_completedAt := Some (oe_now env), or_completedBy := Some (oc_userId ctx)\<rparr>) s;
           s2 = on_shop (orderEvent orderId ''order.completed''
              (if blockers \<noteq> [] then ''Order marked complete by hand ('' @ joinWith '' '' blockers @ '').''
               else ''Order marked complete.'')
              [(''override'', if blockers \<noteq> [] then ''true'' else ''false'')] (Some (oc_userId ctx))) s1
       in Inr (recordAudit ctx ''order.completed'' (''Order'', orderId)
          ((''orderNumber'', show_int (or_number order)) #
           (if blockers \<noteq> [] then [(''reason'', case reason of None \<Rightarrow> ''null'' | Some r \<Rightarrow> r), (''action'', ''override'')]
            else [])) s2, ()))"

definition completeOrder ::
  "order_env \<Rightarrow> store_context \<Rightarrow> uuid \<Rightarrow> bool \<Rightarrow> text_edit \<Rightarrow> sales \<Rightarrow> sales \<times> (domain_error + unit)" where
  "completeOrder env ctx orderId override reason s = (case optionalText reason 500 ''reason'' of
     Inl e \<Rightarrow> (s, Inl e)
   | Inr r \<Rightarrow> inStore ctx ORDER_MANAGE True (complete_body env ctx orderId override (Option.bind r id)) s)"

end
