(* ===== verification/Books.thy ===== *)
theory Books
  imports Upkeep Journey
begin

section \<open>The books of refunds\<close>

text \<open>
  What the refunds of a store add up to: money returned against money captured, units returned
  against units ordered and fulfilled, over every order of the merchant's transactions.
\<close>

subsection \<open>Steps\<close>

text \<open>One transaction of the merchant's side; a refund is two, with anything between them.\<close>

inductive order_step :: "sales \<Rightarrow> sales \<Rightarrow> bool" where
  fulfils: "fulfilOrder env ctx orderId fulfilment s = (t, r1) \<Longrightarrow> order_step s t"
| cancels: "inStore ctx ORDER_MANAGE True (cancel_body env ctx orderId reason) s = (t, r2) \<Longrightarrow> order_step s t"
| requests: "transaction (request_body env ctx orderId reason refund) s = (t, r3) \<Longrightarrow> order_step s t"
| settles: "transaction (settleRefund env ctx orderId refundId result note) s = (t, r4) \<Longrightarrow> order_step s t"
| resolves: "resolvePendingRefund env ctx orderId refundId succeeded s = (t, r4) \<Longrightarrow> order_step s t"
| annotates: "updateOrderNote ctx orderId note s = (t, r5) \<Longrightarrow> order_step s t"
| archives: "setOrderArchived env ctx orderId archived s = (t, r5) \<Longrightarrow> order_step s t"
| relinks: "resetCustomerOrderLink env ctx orderId s = (t, r6) \<Longrightarrow> order_step s t"
| deletes: "deleteDemoOrder stage ctx orderId confirm s = (t, r5) \<Longrightarrow> order_step s t"
| updates: "updateFulfilment env ctx orderId fulfilmentId change s = (t, r5) \<Longrightarrow> order_step s t"
| completes: "completeOrder env ctx orderId override why s = (t, r5) \<Longrightarrow> order_step s t"

lemma refundOrder_run:
  assumes "refundOrder env ctx orderId input s = (t, r)"
  shows "order_step\<^sup>*\<^sup>* s t"
proof -
  consider "t = s"
    | reason e where "transaction (request_body env ctx orderId reason input) s = (t, Inl e)"
    | reason s1 c result why where "transaction (request_body env ctx orderId reason input) s = (s1, Inr c)"
        "transaction (settleRefund env ctx orderId (rq_refundId c) result why) s1 = (t, r)"
    using assms unfolding refundOrder_def by (fastforce split: sum.splits prod.splits)
  then show ?thesis
    by cases (auto intro: order_step.requests order_step.settles converse_rtranclp_into_rtranclp r_into_rtranclp)
qed

lemma cancelOrder_run:
  assumes "cancelOrder env ctx orderId reason wantsRefund s = (t, r)"
  shows "order_step\<^sup>*\<^sup>* s t"
proof -
  have rest: "order_step\<^sup>*\<^sup>* u v" if "refund_rest env ctx orderId why u = (v, x)" for why u v x
    using that refundOrder_run unfolding refund_rest_def
    by (fastforce split: list.splits if_splits sum.splits prod.splits)
  consider "t = s"
    | why q where "inStore ctx ORDER_MANAGE True (cancel_body env ctx orderId why) s = (t, q)"
    | why q s1 x where "inStore ctx ORDER_MANAGE True (cancel_body env ctx orderId why) s = (s1, q)"
        "refund_rest env ctx orderId why s1 = (t, x)"
    using assms unfolding cancelOrder_def by (fastforce split: sum.splits prod.splits if_splits)
  then show ?thesis
    by cases (auto intro: order_step.cancels rest converse_rtranclp_into_rtranclp r_into_rtranclp)
qed

subsection \<open>Sums over tables\<close>

lemma sum_update_rows:
  fixes f :: "'r \<Rightarrow> int"
  assumes "distinct (map key rows)" "r \<in> set rows" "\<And>q. sel q \<longleftrightarrow> key q = key r"
  shows "sum_list (map f (update_rows sel g rows)) = sum_list (map f rows) - f r + f (g r)"
  using assms
proof (induction rows)
  case (Cons q rows)
  have same: "update_rows sel g rows = rows" if "\<forall>x \<in> set rows. \<not> sel x"
    using that by (induction rows) (auto simp: update_rows_def)
  show ?case
  proof (cases "q = r")
    case True
    with Cons.prems(1,3) have "\<forall>x \<in> set rows. \<not> sel x" by (auto simp: image_iff)
    with True Cons.prems(3) show ?thesis using same by (simp add: update_rows_def)
  next
    case False
    with Cons.prems have "r \<in> set rows" "\<not> sel q" by force+
    with Cons show ?thesis by (simp add: update_rows_def)
  qed
qed simp

lemma sum_filter_if: "sum_list (map f (filter P xs)) = sum_list (map (\<lambda>x. if P x then f x else (0 :: int)) xs)"
  by (induction xs) simp_all

lemma sum_mono_int: "(\<And>x. x \<in> set xs \<Longrightarrow> f x \<le> g x) \<Longrightarrow> sum_list (map f xs) \<le> sum_list (map g xs)"
  for f g :: "'a \<Rightarrow> int"
  by (induction xs) (auto intro: add_mono)

lemma sum_zero: "(\<And>x. x \<in> set xs \<Longrightarrow> f x = 0) \<Longrightarrow> sum_list (map f xs) = (0 :: int)"
  by (induction xs) auto

text \<open>Refunds of a payment, and units of a line, by status.\<close>

definition amount_in :: "sales \<Rightarrow> refund_status \<Rightarrow> uuid \<Rightarrow> int" where
  "amount_in s st pid = sum_list (map (\<lambda>r. if rf_paymentId r = pid \<and> rf_status r = st then rf_amount r else 0)
     (sl_refunds s))"

definition units_in :: "sales \<Rightarrow> (refund_line_row \<Rightarrow> bool) \<Rightarrow> uuid \<Rightarrow> refund_status list \<Rightarrow> uuid \<Rightarrow> int" where
  "units_in s Q orderId states lineId = sum_list (map (\<lambda>rl. if rl_lineId rl = lineId \<and> Q rl \<and>
     in_refund s orderId states rl then rl_quantity rl else 0) (sl_refundLines s))"

lemma pending_amount_in: "pending_amount s pid = amount_in s RF_PENDING pid"
  by (simp add: pending_amount_def amount_in_def sum_filter_if)

lemma refund_units_in: "refund_units s o' states l = units_in s (\<lambda>_. True) o' states l"
  by (simp add: refund_units_def units_in_def sum_filter_if)

lemma restock_units_in: "restock_units s o' l = units_in s (\<lambda>rl. rl_restock rl \<noteq> None) o' [RF_PENDING, RF_SUCCEEDED] l"
  unfolding restock_units_def units_in_def sum_filter_if by (rule arg_cong[where f = sum_list]) auto

subsection \<open>The invariant\<close>

definition next_id :: "sales \<Rightarrow> uuid" where
  "next_id s = sd_next (sh_stock (sl_shop s))"

abbreviation payments_of :: "sales \<Rightarrow> payment_row list" where
  "payments_of s \<equiv> sh_payments (sl_shop s)"

text \<open>Keys, and the rows a refund and its lines belong to.\<close>

definition refund_keys :: "sales \<Rightarrow> bool" where
  "refund_keys s \<longleftrightarrow> distinct (map or_id (orders_of s)) \<and> distinct (map ol_id (lines_of s)) \<and>
     distinct (map pm_id (payments_of s)) \<and> distinct (map rf_id (sl_refunds s)) \<and>
     (\<forall>r \<in> set (sl_refunds s). rf_id r < next_id s \<and> 0 < rf_amount r \<and>
       (\<exists>x \<in> set (orders_of s). or_id x = rf_orderId r) \<and>
       (\<exists>p \<in> set (payments_of s). pm_id p = rf_paymentId r \<and> pm_orderId p = Some (rf_orderId r) \<and>
          pm_status p = PAY_CAPTURED)) \<and>
     (\<forall>rl \<in> set (sl_refundLines s). 0 \<le> rl_quantity rl \<and> (\<exists>r \<in> set (sl_refunds s). rf_id r = rl_refundId rl \<and>
       (\<exists>l \<in> set (lines_of s). ol_id l = rl_lineId rl \<and> ol_orderId l = rf_orderId r)))"

text \<open>A payment's refunds: what was returned, and what may still be.\<close>

definition payment_books :: "sales \<Rightarrow> payment_row \<Rightarrow> bool" where
  "payment_books s p \<longleftrightarrow> pm_refunded p = amount_in s RF_SUCCEEDED (pm_id p) \<and>
     pm_refunded p + pending_amount s (pm_id p) \<le> pm_capturedAmount p"

text \<open>An order shows what its own payment returned.\<close>

definition order_books :: "sales \<Rightarrow> order_row \<Rightarrow> bool" where
  "order_books s x \<longleftrightarrow> or_paymentStatus x = orderPaymentStatus (or_total x) (or_refunded x) \<and>
     (case captured_payments s (or_id x) of [] \<Rightarrow> or_refunded x = 0
      | p # _ \<Rightarrow> or_refunded x = pm_refunded p \<and> pm_capturedAmount p = or_total x)"

text \<open>Units returned, in flight and put back on sale.\<close>

definition line_books :: "sales \<Rightarrow> order_line_row \<Rightarrow> bool" where
  "line_books s l \<longleftrightarrow> ol_refunded l = refund_units s (ol_orderId l) [RF_SUCCEEDED] (ol_id l) \<and>
     ol_refunded l + refund_units s (ol_orderId l) [RF_PENDING] (ol_id l) \<le> ol_quantity l \<and>
     restock_units s (ol_orderId l) (ol_id l) \<le> ol_fulfilled l \<and> ol_fulfilled l \<le> ol_quantity l"

definition refunds_ok :: "sales \<Rightarrow> bool" where
  "refunds_ok s \<longleftrightarrow> refund_keys s \<and> (\<forall>p \<in> set (payments_of s). pm_orderId p \<noteq> None \<longrightarrow> payment_books s p) \<and>
     (\<forall>x \<in> set (orders_of s). order_books s x) \<and> (\<forall>l \<in> set (lines_of s). line_books s l)"

lemma refunds_okD:
  assumes "refunds_ok s"
  shows "refund_keys s" "p \<in> set (payments_of s) \<Longrightarrow> pm_orderId p \<noteq> None \<Longrightarrow> payment_books s p"
    "x \<in> set (orders_of s) \<Longrightarrow> order_books s x" "l \<in> set (lines_of s) \<Longrightarrow> line_books s l"
  using assms by (simp_all add: refunds_ok_def)

lemma refund_keysD:
  assumes "refund_keys s"
  shows "distinct (map or_id (orders_of s))" "distinct (map ol_id (lines_of s))"
    "distinct (map pm_id (payments_of s))" "distinct (map rf_id (sl_refunds s))"
    "r \<in> set (sl_refunds s) \<Longrightarrow> rf_id r < next_id s \<and> 0 < rf_amount r"
    "r \<in> set (sl_refunds s) \<Longrightarrow> \<exists>x \<in> set (orders_of s). or_id x = rf_orderId r"
    "r \<in> set (sl_refunds s) \<Longrightarrow> \<exists>p \<in> set (payments_of s). pm_id p = rf_paymentId r \<and>
       pm_orderId p = Some (rf_orderId r) \<and> pm_status p = PAY_CAPTURED"
    "rl \<in> set (sl_refundLines s) \<Longrightarrow> 0 \<le> rl_quantity rl"
    "rl \<in> set (sl_refundLines s) \<Longrightarrow> \<exists>r \<in> set (sl_refunds s). rf_id r = rl_refundId rl \<and>
       (\<exists>l \<in> set (lines_of s). ol_id l = rl_lineId rl \<and> ol_orderId l = rf_orderId r)"
  using assms by (simp_all add: refund_keys_def)

subsection \<open>Steps that touch no refund\<close>

definition same_order :: "order_row \<Rightarrow> order_row \<Rightarrow> bool" where
  "same_order x y \<longleftrightarrow> or_id y = or_id x \<and> or_total y = or_total x \<and> or_refunded y = or_refunded x \<and>
     or_paymentStatus y = or_paymentStatus x"

definition grown_line :: "order_line_row \<Rightarrow> order_line_row \<Rightarrow> bool" where
  "grown_line l m \<longleftrightarrow> ol_id m = ol_id l \<and> ol_orderId m = ol_orderId l \<and> ol_quantity m = ol_quantity l \<and>
     ol_refunded m = ol_refunded l \<and> ol_fulfilled l \<le> ol_fulfilled m \<and>
     (ol_fulfilled l \<le> ol_quantity l \<longrightarrow> ol_fulfilled m \<le> ol_quantity m)"

definition refund_frame :: "sales \<Rightarrow> sales \<Rightarrow> bool" where
  "refund_frame s t \<longleftrightarrow> sl_refunds t = sl_refunds s \<and> sl_refundLines t = sl_refundLines s \<and>
     payments_of t = payments_of s \<and> next_id s \<le> next_id t \<and>
     list_all2 same_order (orders_of s) (orders_of t) \<and> list_all2 grown_line (lines_of s) (lines_of t)"

lemma same_order_refl [simp]: "same_order x x" and grown_line_refl [simp]: "grown_line l l"
  by (simp_all add: same_order_def grown_line_def)

lemma refund_frame_refl [simp]: "refund_frame s s"
  by (simp add: refund_frame_def list_all2_refl)

lemma same_order_trans: "same_order x y \<Longrightarrow> same_order y z \<Longrightarrow> same_order x z"
  and grown_line_trans: "grown_line l m \<Longrightarrow> grown_line m n \<Longrightarrow> grown_line l n"
  by (auto simp: same_order_def grown_line_def)

lemma refund_frameD:
  assumes "refund_frame s t"
  shows "sl_refunds t = sl_refunds s" "sl_refundLines t = sl_refundLines s" "payments_of t = payments_of s"
    "next_id s \<le> next_id t" "list_all2 same_order (orders_of s) (orders_of t)"
    "list_all2 grown_line (lines_of s) (lines_of t)"
  using assms by (simp_all add: refund_frame_def)

lemma refund_frame_trans:
  assumes "refund_frame s t" "refund_frame t u"
  shows "refund_frame s u"
  using list_all2_trans[OF same_order_trans refund_frameD(5)[OF assms(1)] refund_frameD(5)[OF assms(2)]]
    list_all2_trans[OF grown_line_trans refund_frameD(6)[OF assms(1)] refund_frameD(6)[OF assms(2)]] assms
  by (simp add: refund_frame_def)

lemma list_all2_key:
  assumes "list_all2 R xs ys" "\<And>x y. R x y \<Longrightarrow> key y = key x"
  shows "map key ys = map key xs"
  using assms by (induction rule: list_all2_induct) auto

lemma list_all2_back: "list_all2 R xs ys \<Longrightarrow> y \<in> set ys \<Longrightarrow> \<exists>x \<in> set xs. R x y"
  by (induction rule: list_all2_induct) auto

lemma list_all2_forth: "list_all2 R xs ys \<Longrightarrow> x \<in> set xs \<Longrightarrow> \<exists>y \<in> set ys. R x y"
  by (induction rule: list_all2_induct) auto

lemma refund_sums_frame:
  assumes "refund_frame s t"
  shows "amount_in t = amount_in s" "pending_amount t = pending_amount s" "refund_units t = refund_units s"
    "restock_units t = restock_units s" "captured_payments t = captured_payments s" "in_refund t = in_refund s"
  using assms
  by (auto simp: refund_frame_def amount_in_def pending_amount_def refund_units_def restock_units_def
      captured_payments_def in_refund_def fun_eq_iff)

lemma refunds_ok_frame:
  assumes f: "refund_frame s t" and ok: "refunds_ok s"
  shows "refunds_ok t"
proof -
  have os: "list_all2 same_order (orders_of s) (orders_of t)" and ls: "list_all2 grown_line (lines_of s) (lines_of t)"
    and rf: "sl_refunds t = sl_refunds s" "sl_refundLines t = sl_refundLines s" "payments_of t = payments_of s"
      "next_id s \<le> next_id t"
    using f by (auto simp: refund_frame_def)
  have k: "map or_id (orders_of t) = map or_id (orders_of s)" "map ol_id (lines_of t) = map ol_id (lines_of s)"
    "map (\<lambda>l. (ol_id l, ol_orderId l)) (lines_of t) = map (\<lambda>l. (ol_id l, ol_orderId l)) (lines_of s)"
    by (rule list_all2_key[OF os] list_all2_key[OF ls]; simp add: same_order_def grown_line_def)+
  have ex1: "(\<exists>x \<in> set (orders_of t). or_id x = i) \<longleftrightarrow> (\<exists>x \<in> set (orders_of s). or_id x = i)" for i
  proof -
    have "(\<exists>x \<in> set xs. or_id x = i) \<longleftrightarrow> i \<in> set (map or_id xs)" for xs :: "order_row list" by auto
    then show ?thesis by (simp only: k(1))
  qed
  have ex2: "(\<exists>l \<in> set (lines_of t). ol_id l = i \<and> ol_orderId l = j) \<longleftrightarrow>
      (\<exists>l \<in> set (lines_of s). ol_id l = i \<and> ol_orderId l = j)" for i j
  proof -
    have "(\<exists>l \<in> set ls. ol_id l = i \<and> ol_orderId l = j) \<longleftrightarrow> (i, j) \<in> set (map (\<lambda>l. (ol_id l, ol_orderId l)) ls)"
      for ls :: "order_line_row list" by auto
    then show ?thesis by (simp only: k(3))
  qed
  have keys: "refund_keys t"
    unfolding refund_keys_def rf k(1,2) ex1 ex2
    using refunds_okD(1)[OF ok] rf(4) unfolding refund_keys_def by (meson less_le_trans)
  note sums = refund_sums_frame[OF f]
  show ?thesis
    unfolding refunds_ok_def
  proof (intro conjI ballI impI keys)
    fix p assume "p \<in> set (payments_of t)" "pm_orderId p \<noteq> None"
    then show "payment_books t p" using refunds_okD(2)[OF ok, of p] rf by (simp add: payment_books_def sums)
  next
    fix y assume "y \<in> set (orders_of t)"
    then obtain x where "x \<in> set (orders_of s)" "same_order x y" using list_all2_back[OF os] by blast
    then show "order_books t y" using refunds_okD(3)[OF ok, of x] by (auto simp: order_books_def sums same_order_def split: list.splits)
  next
    fix m assume "m \<in> set (lines_of t)"
    then obtain l where "l \<in> set (lines_of s)" "grown_line l m" using list_all2_back[OF ls] by blast
    then show "line_books t m" using refunds_okD(4)[OF ok, of l] by (auto simp: line_books_def sums grown_line_def)
  qed
qed

text \<open>The writes that are such steps.\<close>

lemma refund_frame_shop:
  assumes "sh_payments t = sh_payments (sl_shop s)" "sh_orders t = sh_orders (sl_shop s)"
    "sd_next (sh_stock (sl_shop s)) \<le> sd_next (sh_stock t)"
  shows "refund_frame s (s\<lparr>sl_shop := t\<rparr>)"
  using assms by (simp add: refund_frame_def orders_of_def lines_of_def next_id_def list_all2_refl)

lemma refund_frame_on_shop:
  assumes "\<And>u. sh_payments (f u) = sh_payments u" "\<And>u. sh_orders (f u) = sh_orders u"
    "\<And>u. sh_stock (f u) = sh_stock u"
  shows "refund_frame s (on_shop f s)"
  unfolding on_shop_def by (rule refund_frame_shop) (simp_all add: assms)

lemma record_fields [simp]:
  "sh_payments (orderEvent o' ty m d a u) = sh_payments u" "sh_orders (orderEvent o' ty m d a u) = sh_orders u"
  "sh_stock (orderEvent o' ty m d a u) = sh_stock u"
  "sh_payments (queueNotification o' k dk r ref u) = sh_payments u"
  "sh_orders (queueNotification o' k dk r ref u) = sh_orders u"
  "sh_stock (queueNotification o' k dk r ref u) = sh_stock u"
  by (simp_all add: orderEvent_def queueNotification_def split: option.splits)

lemma refund_frame_event [simp]: "refund_frame s (on_shop (orderEvent o' ty m d a) s)"
  and refund_frame_notification [simp]: "refund_frame s (on_shop (queueNotification o' k dk r ref) s)"
  by (simp_all add: refund_frame_on_shop)

lemma refund_frame_audit [simp]: "refund_frame s (recordAudit ctx action entity metadata s)"
  by (simp add: refund_frame_def recordAudit_def orders_of_def lines_of_def next_id_def list_all2_refl)

lemma refund_frame_fulfilments [simp]:
  "refund_frame s (s\<lparr>sl_fulfilments := fs\<rparr>)" "refund_frame s (s\<lparr>sl_fulfilments := fs, sl_fulfilmentLines := ls\<rparr>)"
  by (simp_all add: refund_frame_def orders_of_def lines_of_def next_id_def list_all2_refl)

lemma list_all2_update_rows: "(\<And>r. sel r \<Longrightarrow> R r (f r)) \<Longrightarrow> (\<And>r. R r r) \<Longrightarrow> list_all2 R rows (update_rows sel f rows)"
  by (induction rows) (auto simp: update_rows_def)

lemma refund_frame_orders:
  assumes "\<And>x. sel x \<Longrightarrow> same_order x (f x)"
  shows "refund_frame s (set_orders sel f s)"
  using assms
  by (simp add: refund_frame_def set_orders_def on_shop_def orders_of_def lines_of_def next_id_def
      list_all2_refl list_all2_update_rows)

lemma refund_frame_lines:
  assumes "\<And>l. sel l \<Longrightarrow> grown_line l (f l)"
  shows "refund_frame s (set_lines sel f s)"
  using assms
  by (simp add: refund_frame_def set_lines_def on_shop_def orders_of_def lines_of_def next_id_def
      list_all2_refl list_all2_update_rows)

lemma in_stock_Inr: "in_stock f s = Inr t \<longleftrightarrow> (\<exists>db. f (sh_stock (sl_shop s)) = Inr db \<and> t = on_shop (\<lambda>u. u\<lparr>sh_stock := db\<rparr>) s)"
  by (auto simp: in_stock_def bindR_eq_Inr liftE_Inr)

lemma refund_frame_stock:
  assumes "in_stock f s = Inr t" "\<And>db. f (sh_stock (sl_shop s)) = Inr db \<Longrightarrow> next_id s \<le> sd_next db"
  shows "refund_frame s t"
proof -
  obtain db where "f (sh_stock (sl_shop s)) = Inr db" "t = s\<lparr>sl_shop := (sl_shop s)\<lparr>sh_stock := db\<rparr>\<rparr>"
    using assms(1) by (auto simp: in_stock_Inr on_shop_def)
  with assms(2) show ?thesis by (auto intro!: refund_frame_shop simp: next_id_def)
qed

lemma next_run:
  assumes "foldR f db xs = Inr u" "\<And>db x u. f db x = Inr u \<Longrightarrow> sd_next db \<le> sd_next u"
  shows "sd_next db \<le> sd_next u"
  using assms(1) by (rule foldR_invariant[where P = "\<lambda>v. sd_next db \<le> sd_next v"]) (auto intro: order_trans assms(2))

lemma next_order_stock:
  "fulfilStock o' moves a db = Inr db' \<Longrightarrow> sd_next db \<le> sd_next db'"
  "cancelOrderStock o' moves a db = Inr db' \<Longrightarrow> sd_next db \<le> sd_next db'"
  "restockStock o' ms a db = Inr db' \<Longrightarrow> sd_next db \<le> sd_next db'"
proof -
  assume "fulfilStock o' moves a db = Inr db'"
  then show "sd_next db \<le> sd_next db'" unfolding fulfilStock_def
    by (rule next_run) (auto simp: fulfil_step_def split: prod.splits if_splits intro: next_moveLevel)
next
  assume "cancelOrderStock o' moves a db = Inr db'"
  then show "sd_next db \<le> sd_next db'" unfolding cancelOrderStock_def
    by (rule next_run) (auto simp: cancel_step_def bindR_eq_Inr set_reservations_def split: prod.splits if_splits
        dest: next_moveLevel)
next
  assume r: "restockStock o' ms a db = Inr db'"
  have e: "sd_next db \<le> sd_next (foldl (\<lambda>db m. ensure_level (rm_itemId m) (rm_locationId m) db) db ns)" for ns :: "restock_move list"
    by (induction ns arbitrary: db) (auto intro: order_trans next_ensure_level)
  show "sd_next db \<le> sd_next db'"
    using r unfolding restockStock_def Let_def
    by - (drule next_run, auto intro: next_moveLevel order_trans[OF e])
qed

lemma refund_frame_in_stock:
  "in_stock (fulfilStock o' moves a) s = Inr t \<Longrightarrow> refund_frame s t"
  "in_stock (cancelOrderStock o' moves a) s = Inr t \<Longrightarrow> refund_frame s t"
  "in_stock (restockStock o' ms a) s = Inr t \<Longrightarrow> refund_frame s t"
  by (erule refund_frame_stock, simp add: next_id_def next_order_stock)+

lemma refund_frame_fresh: "fresh_id s = (t, i) \<Longrightarrow> refund_frame s t \<and> i = next_id s \<and> next_id t = Suc i"
  by (auto simp: fresh_id_def fresh_def next_id_def Let_def intro!: refund_frame_shop)

lemma refund_frame_run:
  assumes "foldR f s xs = Inr t" "\<And>u x v. f u x = Inr v \<Longrightarrow> x \<in> set xs \<Longrightarrow> refund_frame (g u) (g v)"
  shows "refund_frame (g s) (g t)"
  using assms(1)
  by (rule foldR_invariant[where P = "\<lambda>v. refund_frame (g s) (g v)"]) (auto intro: refund_frame_trans assms(2))

text \<open>The operations that touch no refund.\<close>

lemma unit_run_Inr: "foldR (\<lambda>_. f) () xs = Inr u \<Longrightarrow> x \<in> set xs \<Longrightarrow> f x = Inr ()"
  by (induction xs) (auto simp: bindR_eq_Inr)

lemma count_fulfilled_frame:
  assumes "count_fulfilled s r = Inr t" "0 \<le> snd r"
  shows "refund_frame s t"
  using assms
  by (auto simp: count_fulfilled_def Let_def grown_line_def split: prod.splits if_splits intro!: refund_frame_lines)

lemma lineQuantities_positive:
  assumes "lineQuantities lines input field = Inr qs"
  shows "distinct (map fst qs)" "\<forall>(i, q) \<in> set qs. 0 < q \<and> (\<exists>l \<in> set lines. ol_id l = i)"
proof -
  let ?P = "\<lambda>qs. distinct (map fst qs) \<and> (\<forall>(i, q) \<in> set qs. 0 < q \<and> (\<exists>l \<in> set lines. ol_id l = i))"
  have "?P qs"
    using assms unfolding lineQuantities_def
  proof (rule foldR_invariant)
    show "?P []" by simp
    fix u e v assume u: "?P u" and v: "add_quantity lines field u e = Inr v"
    have q: "0 \<le> quantity_of u i" for i
      using u by (auto simp: quantity_of_def split: option.splits dest!: map_of_SomeD)
    have in_update: "x \<in> set (AList.update i w u) \<Longrightarrow> x = (i, w) \<or> x \<in> set u" for x i w
      by (induction u) (auto split: if_splits)
    from v consider "v = u" | i n where "\<exists>l \<in> set lines. ol_id l = i" "0 < n"
      "v = AList.update i (quantity_of u i + n) u"
      by (auto simp: add_quantity_def list_ex_iff split: option.splits if_splits)
    then show "?P v"
    proof cases
      case (2 i n)
      then have "distinct (map fst v)" using u by (simp add: distinct_update)
      moreover have "0 < q \<and> (\<exists>l \<in> set lines. ol_id l = j)" if "(j, q) \<in> set v" for j q
        using in_update[OF that[unfolded 2(3)]] 2 q[of i] u by auto
      ultimately show ?thesis by blast
    qed (use u in simp)
  qed
  then show "distinct (map fst qs)" "\<forall>(i, q) \<in> set qs. 0 < q \<and> (\<exists>l \<in> set lines. ol_id l = i)" by auto
qed

lemma lockLines_in [simp]: "l \<in> set (lockLines o' s) \<longleftrightarrow> l \<in> set (lines_of s) \<and> ol_orderId l = o'"
  by (auto simp: lockLines_def)

lemma lockOrder_Inr: "lockOrder o' s = Inr x \<Longrightarrow> x \<in> set (orders_of s) \<and> or_id x = o'"
  by (auto simp: lockOrder_def fromSome_eq dest: find_Some_iff2)

lemma guard_Inr: "(if P then Inl e else x) = Inr y \<longleftrightarrow> \<not> P \<and> x = Inr y"
  by simp

lemma fulfil_body_steps:
  assumes "fulfil_body env ctx o' plan s = Inr (t, ids)"
  obtains order given groups requested s1 s2 s3 status ids' and u :: unit where
    "lockOrder o' s = Inr order" "or_status order \<noteq> ORD_CANCELLED" "or_completedAt order = None"
    "lineQuantities (lockLines o' s) (fp_lines plan) ''lines'' = Inr given"
    "requested = requested_units (lockLines o' s) plan given"
    "foldR (\<lambda>_. left_to_fulfil (lockLines o' s)) () requested = Inr u"
    "foldR (create_fulfilment env (oc_userId ctx) plan o') (s, []) groups = Inr (s1, ids')"
    "foldR count_fulfilled s1 requested = Inr s2"
    "in_stock (fulfilStock o' (reserved_moves (orderReservations (sh_stock (sl_shop s)) o') requested) (Some (oc_userId ctx))) s2 = Inr s3"
    "t = recordAudit ctx ''order.fulfilled'' (''Order'', o')
       [(''orderNumber'', show_int (or_number order)), (''quantity'', show_int (sum_list (map snd requested)))]
       (on_shop (announce_fulfilment order (oc_userId ctx) plan (sum_list (map snd requested)) ids')
         (set_orders (\<lambda>r. or_id r = o') (\<lambda>r. r\<lparr>or_fulfilmentStatus := status\<rparr>) s3))" "ids' = ids"
  using assms
  unfolding fulfil_body_def bindR_eq_Inr guard_Inr Let_def split_paired_Ex case_prod_conv prod.inject sum.inject not_not
  by (elim exE conjE) (rule that, assumption, assumption, assumption, assumption, rule refl, assumption, assumption,
    assumption, assumption, erule sym, assumption)

lemma create_fulfilment_frame:
  assumes "create_fulfilment env actor plan o' u x = Inr v"
  shows "refund_frame (fst u) (fst v)"
proof -
  obtain s ids where u: "u = (s, ids)" by (cases u)
  obtain s1 i where f: "fresh_id s = (s1, i)" by (cases "fresh_id s")
  have "refund_frame s1 (fst v)"
    using assms by (cases x) (auto simp: create_fulfilment_def u f bindR_eq_Inr Let_def)
  then show ?thesis using refund_frame_trans[OF conjunct1[OF refund_frame_fresh[OF f]]] by (simp add: u)
qed

lemma fulfil_frame:
  assumes "fulfil_body env ctx o' plan s = Inr (t, ids)"
  shows "refund_frame s t"
  using assms
proof (rule fulfil_body_steps)
  fix order given groups requested s1 s2 s3 status ids' u
  assume l: "lineQuantities (lockLines o' s) (fp_lines plan) ''lines'' = Inr given"
    "requested = requested_units (lockLines o' s) plan given"
  and g: "foldR (create_fulfilment env (oc_userId ctx) plan o') (s, []) groups = Inr (s1, ids')"
  and c: "foldR count_fulfilled s1 requested = Inr s2"
  and st: "in_stock (fulfilStock o' (reserved_moves (orderReservations (sh_stock (sl_shop s)) o') requested) (Some (oc_userId ctx))) s2 = Inr s3"
  and t: "t = recordAudit ctx ''order.fulfilled'' (''Order'', o')
       [(''orderNumber'', show_int (or_number order)), (''quantity'', show_int (sum_list (map snd requested)))]
       (on_shop (announce_fulfilment order (oc_userId ctx) plan (sum_list (map snd requested)) ids')
         (set_orders (\<lambda>r. or_id r = o') (\<lambda>r. r\<lparr>or_fulfilmentStatus := status\<rparr>) s3))"
  have "\<forall>r \<in> set requested. 0 \<le> snd r"
    using lineQuantities_positive(2)[OF l(1)] by (auto simp: l(2) requested_units_def unfulfilled_def)
  then have "refund_frame s1 s2"
    using refund_frame_run[OF c, where g = id] count_fulfilled_frame by auto
  moreover have "refund_frame s s1"
    using refund_frame_run[OF g, where g = fst] create_fulfilment_frame by simp
  moreover have "refund_frame s2 s3" using refund_frame_in_stock(1)[OF st] .
  moreover have "refund_frame s3 t"
  proof -
    have "sh_payments (announce_fulfilment order a plan n js u) = sh_payments u \<and>
        sh_orders (announce_fulfilment order a plan n js u) = sh_orders u \<and>
        sh_stock (announce_fulfilment order a plan n js u) = sh_stock u" for a n u and js :: "uuid list"
    proof -
      have "sh_payments (foldl (\<lambda>s i. queueNotification (or_id order) k (f i) em (Some i) s) v js) = sh_payments v \<and>
        sh_orders (foldl (\<lambda>s i. queueNotification (or_id order) k (f i) em (Some i) s) v js) = sh_orders v \<and>
        sh_stock (foldl (\<lambda>s i. queueNotification (or_id order) k (f i) em (Some i) s) v js) = sh_stock v" for v k f em and js :: "uuid list"
        by (induction js arbitrary: v) simp_all
      then show ?thesis by (simp add: announce_fulfilment_def Let_def)
    qed
    with t show ?thesis
      by (auto intro!: refund_frame_trans[OF _ refund_frame_audit] refund_frame_trans[OF _ refund_frame_on_shop]
          refund_frame_orders simp: same_order_def)
  qed
  ultimately show ?thesis by (blast intro: refund_frame_trans)
qed

lemmas refund_frame_writes = refund_frame_trans[OF _ refund_frame_audit] refund_frame_trans[OF _ refund_frame_event]
  refund_frame_trans[OF _ refund_frame_notification]

lemmas refund_frame_edit = refund_frame_trans[OF _ refund_frame_orders]

lemma cancel_frame:
  assumes "cancel_body env ctx o' reason s = Inr (t, x)"
  shows "refund_frame s t"
  using assms
  by (auto simp: cancel_body_def bindR_eq_Inr Let_def same_order_def split: if_splits
      intro!: refund_frame_writes refund_frame_edit dest: refund_frame_in_stock(2))

lemma note_frame:
  assumes "note_body ctx o' note s = Inr (t, x)"
  shows "refund_frame s t"
  using assms by (auto simp: note_body_def same_order_def split: if_splits intro!: refund_frame_writes refund_frame_orders)

lemma archive_frame:
  assumes "archive_body env ctx o' archived s = Inr (t, x)"
  shows "refund_frame s t"
  using assms
  by (auto simp: archive_body_def bindR_eq_Inr Let_def same_order_def split: if_splits
      intro!: refund_frame_writes refund_frame_orders)

lemma createOrderAccess_fields [simp]:
  "sh_payments (createOrderAccess env o' u) = sh_payments u" "sh_orders (createOrderAccess env o' u) = sh_orders u"
  "sh_stock (createOrderAccess env o' u) = sh_stock u"
  by (simp_all add: createOrderAccess_def)

lemma reset_link_frame:
  assumes "reset_link_body env ctx o' s = Inr (t, x)"
  shows "refund_frame s t"
  using assms
  by (auto simp: reset_link_body_def bindR_eq_Inr Let_def revokeOrderAccess_def split: prod.splits option.splits
      intro!: refund_frame_trans[OF _ refund_frame_audit] refund_frame_shop)

lemma announce_edit_fields [simp]:
  "sh_payments (announce_edit a x c f u) = sh_payments u" "sh_orders (announce_edit a x c f u) = sh_orders u"
  "sh_stock (announce_edit a x c f u) = sh_stock u"
  by (simp_all add: announce_edit_def Let_def)

lemma update_frame:
  assumes "update_body env ctx o' i input company number url s = Inr (t, x)"
  shows "refund_frame s t"
proof -
  have run: "refund_frame s (on_shop (announce_edit a order current f) (s\<lparr>sl_fulfilments := fs\<rparr>))" for a order current f fs
    by (auto intro: refund_frame_trans[OF _ refund_frame_on_shop])
  from assms show ?thesis
    unfolding update_body_def bindR_eq_Inr guard_Inr Let_def prod.inject sum.inject
    by (elim exE conjE) (auto intro!: refund_frame_trans[OF _ refund_frame_audit] run split: if_splits)
qed

lemma complete_frame:
  assumes "complete_body env ctx o' override reason s = Inr (t, x)"
  shows "refund_frame s t"
  using assms
  by (auto simp: complete_body_def bindR_eq_Inr Let_def same_order_def split: if_splits
      intro!: refund_frame_writes refund_frame_orders)

subsection \<open>A new refund\<close>

lemma sum_of_key:
  assumes "distinct (map fst qs)"
  shows "sum_list (map (\<lambda>(i, q). if i = k \<and> P i then q else 0) qs) = (if P k then quantity_of qs k else (0 :: int))"
  using assms
proof (induction qs)
  case (Cons x qs)
  obtain i q where x: "x = (i, q)" by (cases x)
  have "sum_list (map (\<lambda>(i, q). if i = k \<and> P i then q else 0) qs) = 0" if "i = k"
    using Cons.prems that by (intro sum_zero) (force simp: x)
  with Cons show ?case by (auto simp: x quantity_of_def)
qed (simp add: quantity_of_def)

lemma quantity_of_cases:
  assumes "quantity_of qs k \<noteq> 0"
  obtains q where "(k, q) \<in> set qs" "quantity_of qs k = q"
  using assms by (auto simp: quantity_of_def split: option.splits dest: map_of_SomeD)

lemma insert_refund_Inr:
  assumes ins: "insert_refund r qs amounts restocking location s = Inr t" and d: "distinct (map fst qs)"
  obtains new where "t = s\<lparr>sl_refunds := sl_refunds s @ [r], sl_refundLines := sl_refundLines s @ new\<rparr>"
    "0 < rf_amount r" "\<forall>rl \<in> set new. rl_refundId rl = rf_id r \<and> (rl_lineId rl, rl_quantity rl) \<in> set qs"
    "\<And>k. sum_list (map (\<lambda>rl. if rl_lineId rl = k then rl_quantity rl else 0) new) = quantity_of qs k"
    "\<And>k. sum_list (map (\<lambda>rl. if rl_lineId rl = k \<and> rl_restock rl \<noteq> None then rl_quantity rl else 0) new) =
        (if k \<in> set restocking \<and> location \<noteq> None then quantity_of qs k else 0)"
proof -
  let ?new = "map (\<lambda>(n, i, q). \<lparr>rl_refundId = rf_id r, rl_lineId = i, rl_quantity = q, rl_amount = at_or 0 amounts n,
    rl_restock = (if i \<in> set restocking then location else None)\<rparr>) (enumerate 0 qs)"
  have split: "map (\<lambda>x. f (snd x)) (enumerate 0 qs) = map f qs" for f :: "uuid \<times> int \<Rightarrow> int"
  proof -
    have "map (\<lambda>x. f (snd x)) (enumerate 0 qs) = map f (map snd (enumerate 0 qs))" by (simp only: map_map comp_def)
    then show ?thesis by (simp del: map_map)
  qed
  have a: "sum_list (map (\<lambda>rl. if rl_lineId rl = k then rl_quantity rl else 0) ?new) = quantity_of qs k" for k
    using sum_of_key[OF d, of k "\<lambda>_. True"] split[of "\<lambda>(i, q). if i = k then q else 0"]
    by (simp add: comp_def case_prod_unfold cong: if_cong)
  have restocked: "(\<exists>y. (if P then location else None) = Some y) \<longleftrightarrow> P \<and> (\<exists>y. location = Some y)" for P by auto
  have b: "sum_list (map (\<lambda>rl. if rl_lineId rl = k \<and> rl_restock rl \<noteq> None then rl_quantity rl else 0) ?new) =
      (if k \<in> set restocking \<and> location \<noteq> None then quantity_of qs k else 0)"
    for k
    using sum_of_key[OF d, of k "\<lambda>i. i \<in> set restocking \<and> location \<noteq> None"]
      split[of "\<lambda>(i, q). if i = k \<and> i \<in> set restocking \<and> location \<noteq> None then q else 0"]
    by (simp add: comp_def case_prod_unfold restocked cong: if_cong)
  have "\<forall>rl \<in> set ?new. rl_refundId rl = rf_id r \<and> (rl_lineId rl, rl_quantity rl) \<in> set qs"
    by (auto simp: in_set_enumerate_eq) (metis nth_mem)
  then show thesis
    using ins a b by (intro that[of ?new]) (auto simp: insert_refund_def split: if_splits)
qed

text \<open>The sums after a new pending refund.\<close>

lemma insert_refund_sums:
  assumes t: "t = s\<lparr>sl_refunds := sl_refunds s @ [r], sl_refundLines := sl_refundLines s @ new\<rparr>"
    and r: "rf_status r = RF_PENDING" and keys: "refund_keys s" and fresh: "rf_id r \<notin> rf_id ` set (sl_refunds s)"
    and new: "\<forall>rl \<in> set new. rl_refundId rl = rf_id r"
  shows "amount_in t st pid = amount_in s st pid + (if pid = rf_paymentId r \<and> st = RF_PENDING then rf_amount r else 0)"
    "units_in t Q o' states k = units_in s Q o' states k +
       (if rf_orderId r = o' \<and> RF_PENDING \<in> set states
        then sum_list (map (\<lambda>rl. if rl_lineId rl = k \<and> Q rl then rl_quantity rl else 0) new) else 0)"
proof -
  show "amount_in t st pid = amount_in s st pid + (if pid = rf_paymentId r \<and> st = RF_PENDING then rf_amount r else 0)"
    using r by (auto simp: amount_in_def t)
  have old: "rl_refundId rl \<noteq> rf_id r" if "rl \<in> set (sl_refundLines s)" for rl
    using refund_keysD(9)[OF keys that] fresh by (metis image_eqI)
  have none: "\<not> in_refund s o' states rl" if "rl_refundId rl = rf_id r" for rl
    unfolding in_refund_def list_ex_iff using fresh that by (metis image_eqI)
  have inr: "in_refund t o' states rl \<longleftrightarrow> in_refund s o' states rl \<or>
      rl_refundId rl = rf_id r \<and> rf_orderId r = o' \<and> RF_PENDING \<in> set states" for rl
    using r by (auto simp: in_refund_def t)
  let ?F = "\<lambda>u rl. if rl_lineId rl = k \<and> Q rl \<and> in_refund u o' states rl then rl_quantity rl else 0"
  let ?G = "\<lambda>rl. if rl_lineId rl = k \<and> Q rl then rl_quantity rl else 0"
  have "map (?F t) (sl_refundLines s) = map (?F s) (sl_refundLines s)"
    using old by (intro map_cong) (auto simp: inr)
  moreover have "map (?F t) new = map (\<lambda>rl. if rf_orderId r = o' \<and> RF_PENDING \<in> set states then ?G rl else 0) new"
    using new none by (intro map_cong) (auto simp: inr)
  moreover have "sl_refundLines t = sl_refundLines s @ new" by (simp add: t)
  ultimately have "units_in t Q o' states k = units_in s Q o' states k +
      sum_list (map (\<lambda>rl. if rf_orderId r = o' \<and> RF_PENDING \<in> set states then ?G rl else 0) new)"
    by (simp only: units_in_def map_append sum_list_append)
  then show "units_in t Q o' states k = units_in s Q o' states k +
       (if rf_orderId r = o' \<and> RF_PENDING \<in> set states then sum_list (map ?G new) else 0)"
    by (cases "rf_orderId r = o' \<and> RF_PENDING \<in> set states") (simp_all only: if_True if_False sum_zero, simp)
qed

lemma insert_refund_ok:
  assumes ok: "refunds_ok s" and ins: "insert_refund r qs amounts restocking location s = Inr t"
    and r: "rf_status r = RF_PENDING" "rf_id r < next_id s" "rf_id r \<notin> rf_id ` set (sl_refunds s)"
      "x \<in> set (orders_of s)" "or_id x = rf_orderId r"
    and p: "p \<in> set (payments_of s)" "pm_id p = rf_paymentId r" "pm_orderId p = Some (rf_orderId r)"
      "pm_status p = PAY_CAPTURED" "rf_amount r \<le> remaining_of s p"
    and qs: "distinct (map fst qs)" "\<And>i q. (i, q) \<in> set qs \<Longrightarrow> 0 < q \<and> (\<exists>l \<in> set (lines_of s). ol_id l = i \<and>
      ol_orderId l = rf_orderId r \<and> q \<le> ol_quantity l - ol_refunded l - refund_units s (rf_orderId r) [RF_PENDING] i \<and>
      (i \<in> set restocking \<longrightarrow> q \<le> ol_fulfilled l - restock_units s (rf_orderId r) i))"
  shows "refunds_ok t"
proof -
  note keys = refunds_okD(1)[OF ok]
  obtain new where t: "t = s\<lparr>sl_refunds := sl_refunds s @ [r], sl_refundLines := sl_refundLines s @ new\<rparr>"
    and pos: "0 < rf_amount r" and new: "\<forall>rl \<in> set new. rl_refundId rl = rf_id r \<and> (rl_lineId rl, rl_quantity rl) \<in> set qs"
    and all: "\<And>k. sum_list (map (\<lambda>rl. if rl_lineId rl = k then rl_quantity rl else 0) new) = quantity_of qs k"
    and again: "\<And>k. sum_list (map (\<lambda>rl. if rl_lineId rl = k \<and> rl_restock rl \<noteq> None then rl_quantity rl else 0) new) =
        (if k \<in> set restocking \<and> location \<noteq> None then quantity_of qs k else 0)"
    by (rule insert_refund_Inr[OF ins qs(1)]) (rule that, assumption+)
  have rows: "orders_of t = orders_of s" "lines_of t = lines_of s" "payments_of t = payments_of s" "next_id t = next_id s"
    "sl_refunds t = sl_refunds s @ [r]" "sl_refundLines t = sl_refundLines s @ new" "captured_payments t = captured_payments s"
    by (simp_all add: t orders_of_def lines_of_def next_id_def captured_payments_def fun_eq_iff)
  have mine: "\<forall>rl \<in> set new. rl_refundId rl = rf_id r" using new by blast
  note sums = insert_refund_sums[OF t r(1) keys r(3) mine]
  have "refund_keys t"
    unfolding refund_keys_def rows
  proof (intro conjI ballI)
    fix rl assume "rl \<in> set (sl_refundLines s @ new)"
    then show "0 \<le> rl_quantity rl"
      using refund_keysD(8)[OF keys, of rl] new qs(2)[of "rl_lineId rl" "rl_quantity rl"] by auto
    from \<open>rl \<in> set (sl_refundLines s @ new)\<close> consider "rl \<in> set (sl_refundLines s)" | "rl \<in> set new" by auto
    then show "\<exists>q\<in>set (sl_refunds s @ [r]). rf_id q = rl_refundId rl \<and>
        (\<exists>l\<in>set (lines_of s). ol_id l = rl_lineId rl \<and> ol_orderId l = rf_orderId q)"
    proof cases
      case 2
      then have "(rl_lineId rl, rl_quantity rl) \<in> set qs" "rl_refundId rl = rf_id r" using new by auto
      then show ?thesis using qs(2)[of "rl_lineId rl" "rl_quantity rl"] by auto
    qed (use refund_keysD(9)[OF keys, of rl] in auto)
  qed (use keys r p pos in \<open>unfold refund_keys_def, auto\<close>)
  moreover have "payment_books t q" if "q \<in> set (payments_of t)" "pm_orderId q \<noteq> None" for q
  proof -
    have "pm_id q = rf_paymentId r \<Longrightarrow> q = p"
      using row_unique[OF refund_keysD(3)[OF keys], of q p] that p(1,2) by (simp add: rows)
    with refunds_okD(2)[OF ok, of q] that p(2,5) show ?thesis
      by (auto simp: payment_books_def rows sums(1) pending_amount_in remaining_of_def)
  qed
  moreover have "order_books t y" if "y \<in> set (orders_of t)" for y
    using refunds_okD(3)[OF ok, of y] that by (simp add: order_books_def rows)
  moreover have "line_books t l" if l: "l \<in> set (lines_of t)" for l
  proof -
    let ?q = "quantity_of qs (ol_id l)"
    have in': "?q \<noteq> 0 \<Longrightarrow> 0 < ?q \<and> ol_orderId l = rf_orderId r \<and>
        ?q \<le> ol_quantity l - ol_refunded l - refund_units s (rf_orderId r) [RF_PENDING] (ol_id l) \<and>
        (ol_id l \<in> set restocking \<longrightarrow> ?q \<le> ol_fulfilled l - restock_units s (rf_orderId r) (ol_id l))"
    proof -
      assume "?q \<noteq> 0"
      then obtain q where q: "(ol_id l, q) \<in> set qs" "?q = q" by (rule quantity_of_cases)
      with qs(2)[OF q(1)] show ?thesis
        using row_unique[OF refund_keysD(2)[OF keys], of _ l] l rows by (metis (no_types, lifting))
    qed
    have old: "line_books s l" using refunds_okD(4)[OF ok] l rows by simp
    have "restock_units t o' k = restock_units s o' k + (if rf_orderId r = o' then
        (if k \<in> set restocking \<and> location \<noteq> None then quantity_of qs k else 0) else 0)" for o' k
      using sums(2)[of "\<lambda>rl. rl_restock rl \<noteq> None" o' "[RF_PENDING, RF_SUCCEEDED]" k]
      unfolding restock_units_in again by simp
    then show ?thesis
      using old in' unfolding line_books_def refund_units_in
      by (cases "?q = 0") (auto simp: sums(2) all)
  qed
  ultimately show ?thesis by (simp add: refunds_ok_def)
qed

lemma request_body_steps:
  assumes "request_body env ctx o' reason input s = Inr (t, c)"
  obtains order amount pid payment qs location amounts s1 i s2 and u :: unit where
    "lockOrder o' s = Inr order" "0 < amount" "refundable env order amount pid s = Inr payment"
    "lineQuantities (lockLines o' s) (ri_lines input) ''lines'' = Inr qs"
    "foldR (\<lambda>_ r. check_refund_line s o' (lockLines o' s) (restocking_of (ri_lines input)) r) () qs = Inr u"
    "fresh_id s = (s1, i)"
    "insert_refund \<lparr>rf_id = i, rf_orderId = o', rf_paymentId = pm_id payment, rf_status = RF_PENDING,
       rf_currency = or_currency order, rf_amount = amount, rf_reason = reason, rf_providerRefundId = None,
       rf_failureMessage = None, rf_createdBy = oc_userId ctx\<rparr> qs amounts (restocking_of (ri_lines input)) location s1 = Inr s2"
    "refund_frame s2 t" "rq_refundId c = i"
proof -
  have run: "refund_frame s2 (recordAudit ctx ac en md (on_shop (orderEvent o' ty m d a) s2))" for s2 ac en md ty m d a
    by (rule refund_frame_writes(1)) simp
  from assms show thesis
    unfolding request_body_def bindR_eq_Inr guard_Inr Let_def
    by (elim exE conjE) (auto split: prod.splits simp: bindR_eq_Inr not_le intro!: that run)
qed

lemma fresh_id_rows:
  assumes "fresh_id s = (t, i)"
  shows "orders_of t = orders_of s" "lines_of t = lines_of s" "payments_of t = payments_of s" "i = next_id s"
    "next_id t = Suc i" "sl_refunds t = sl_refunds s" "remaining_of t = remaining_of s" "refund_units t = refund_units s"
    "restock_units t = restock_units s"
  using assms
  by (auto simp: fresh_id_def fresh_def next_id_def Let_def orders_of_def lines_of_def remaining_of_def fun_eq_iff
      pending_amount_def refund_units_def restock_units_def in_refund_def)

lemma captured_payments_in: "p \<in> set (captured_payments s o') \<longleftrightarrow>
    p \<in> set (payments_of s) \<and> pm_orderId p = Some o' \<and> pm_status p = PAY_CAPTURED"
  by (auto simp: captured_payments_def)

lemma refundable_Inr:
  assumes "refundable env order amount pid s = Inr p"
  shows "p \<in> set (captured_payments s (or_id order))" "amount \<le> remaining_of s p"
  using assms by (auto simp: refundable_def split: option.splits if_splits dest: find_Some_iff2)

lemma check_refund_line_Inr:
  assumes "check_refund_line s o' ls restocking (i, q) = Inr u" "find (\<lambda>l. ol_id l = i) ls = Some l"
  shows "q \<le> ol_quantity l - ol_refunded l - refund_units s o' [RF_PENDING] i"
    "i \<in> set restocking \<Longrightarrow> q \<le> ol_fulfilled l - restock_units s o' i"
  using assms by (auto simp: check_refund_line_def split: if_splits)

lemma request_ok:
  assumes ok: "refunds_ok s" and b: "request_body env ctx o' reason input s = Inr (t, c)"
  shows "refunds_ok t"
  using b
proof (rule request_body_steps)
  fix order amount pid payment qs location amounts s1 i s2 and u :: unit
  assume l: "lockOrder o' s = Inr order" and rp: "refundable env order amount pid s = Inr payment"
    and lq: "lineQuantities (lockLines o' s) (ri_lines input) ''lines'' = Inr qs"
    and ck: "foldR (\<lambda>_ r. check_refund_line s o' (lockLines o' s) (restocking_of (ri_lines input)) r) () qs = Inr u"
    and f: "fresh_id s = (s1, i)"
    and ins: "insert_refund \<lparr>rf_id = i, rf_orderId = o', rf_paymentId = pm_id payment, rf_status = RF_PENDING,
       rf_currency = or_currency order, rf_amount = amount, rf_reason = reason, rf_providerRefundId = None,
       rf_failureMessage = None, rf_createdBy = oc_userId ctx\<rparr> qs amounts (restocking_of (ri_lines input)) location s1 = Inr s2"
    and fr: "refund_frame s2 t"
  note rows = fresh_id_rows[OF f] and order = lockOrder_Inr[OF l] and pay = refundable_Inr[OF rp]
  have ok1: "refunds_ok s1" using refunds_ok_frame[OF _ ok] refund_frame_fresh[OF f] by blast
  have lines: "0 < q \<and> (\<exists>l \<in> set (lines_of s). ol_id l = k \<and> ol_orderId l = o' \<and>
      q \<le> ol_quantity l - ol_refunded l - refund_units s o' [RF_PENDING] k \<and>
      (k \<in> set (restocking_of (ri_lines input)) \<longrightarrow> q \<le> ol_fulfilled l - restock_units s o' k))"
    if "(k, q) \<in> set qs" for k q
  proof -
    have pos: "0 < q" and "\<exists>l \<in> set (lockLines o' s). ol_id l = k" using lineQuantities_positive(2)[OF lq] that by auto
    then obtain l where l: "find (\<lambda>l. ol_id l = k) (lockLines o' s) = Some l"
      by (cases "find (\<lambda>l. ol_id l = k) (lockLines o' s)") (auto simp: find_None_iff)
    then have "l \<in> set (lockLines o' s)" "ol_id l = k" by (auto simp: find_Some_iff simp del: lockLines_in)
    with check_refund_line_Inr[OF unit_run_Inr[OF ck that] l] pos show ?thesis by auto
  qed
  have "i \<notin> rf_id ` set (sl_refunds s1)"
    using refund_keysD(5)[OF refunds_okD(1)[OF ok]] rows(4,6) by fastforce
  then have "refunds_ok s2"
    using order pay lineQuantities_positive(1)[OF lq] lines
    by (intro insert_refund_ok[OF ok1 ins, of order payment]) (auto simp: rows captured_payments_in)
  with fr show ?thesis by (rule refunds_ok_frame)
qed

end
