(* ===== verification/Settle.thy ===== *)
theory Settle
  imports Books
begin

section \<open>Settling keeps the books\<close>

text \<open>
  The second transaction of a refund: the pending refund becomes a failed or a succeeded one, and a
  success moves its money and units from what is pending to what is refunded.
\<close>

subsection \<open>The status of one refund\<close>

definition same_refund :: "refund_row \<Rightarrow> refund_row \<Rightarrow> bool" where
  "same_refund r q \<longleftrightarrow> rf_id q = rf_id r \<and> rf_orderId q = rf_orderId r \<and> rf_paymentId q = rf_paymentId r \<and>
     rf_amount q = rf_amount r"

definition refund_sum :: "sales \<Rightarrow> (refund_line_row \<Rightarrow> bool) \<Rightarrow> uuid \<Rightarrow> uuid \<Rightarrow> int" where
  "refund_sum s Q refundId lineId = sum_list (map (\<lambda>rl. if rl_refundId rl = refundId \<and> rl_lineId rl = lineId \<and> Q rl
     then rl_quantity rl else 0) (sl_refundLines s))"

definition weigh :: "bool \<Rightarrow> int" where
  "weigh b = (if b then 1 else 0)"

lemma weigh_simps [simp]: "weigh True = 1" "weigh False = 0"
  by (simp_all add: weigh_def)

lemma in_refund_row:
  assumes "distinct (map rf_id rs)" "r \<in> set rs"
  shows "list_ex (\<lambda>q. rf_id q = rf_id r \<and> P q) rs \<longleftrightarrow> P r"
  using row_unique[OF assms(1) _ assms(2)] assms(2) by (auto simp: list_ex_iff)

lemma status_sums:
  assumes keys: "refund_keys s" and r: "r \<in> set (sl_refunds s)"
    and t: "sl_refunds t = update_rows (\<lambda>q. rf_id q = rf_id r) f (sl_refunds s)" "sl_refundLines t = sl_refundLines s"
    and f: "\<And>q. same_refund q (f q)"
  shows "amount_in t st pid = amount_in s st pid + (if pid = rf_paymentId r
      then (weigh (rf_status (f r) = st) - weigh (rf_status r = st)) * rf_amount r else 0)"
    "units_in t Q o' states k = units_in s Q o' states k + (if rf_orderId r = o'
      then (weigh (rf_status (f r) \<in> set states) - weigh (rf_status r \<in> set states)) * refund_sum s Q (rf_id r) k else 0)"
proof -
  note d = refund_keysD(4)[OF keys]
  have same: "rf_paymentId (f q) = rf_paymentId q" "rf_amount (f q) = rf_amount q" "rf_id (f q) = rf_id q"
    "rf_orderId (f q) = rf_orderId q" for q
    using f[of q] by (simp_all add: same_refund_def)
  show "amount_in t st pid = amount_in s st pid + (if pid = rf_paymentId r
      then (weigh (rf_status (f r) = st) - weigh (rf_status r = st)) * rf_amount r else 0)"
    unfolding amount_in_def t sum_update_rows[OF d r refl] by (simp add: same weigh_def)
  let ?new = "sl_refunds t"
  have d': "distinct (map rf_id ?new)" and r': "f r \<in> set ?new"
    using d r by (auto simp: t(1) update_rows_def same comp_def if_distrib cong: if_cong)
  have other: "list_ex (\<lambda>q. rf_id q = i \<and> P q) ?new \<longleftrightarrow> list_ex (\<lambda>q. rf_id q = i \<and> P q) (sl_refunds s)"
    if "i \<noteq> rf_id r" for i P
    using that by (auto simp: t(1) update_rows_def list_ex_iff same)
  have old: "in_refund s o' states rl \<longleftrightarrow> rf_orderId r = o' \<and> rf_status r \<in> set states" if "rl_refundId rl = rf_id r" for rl
    unfolding in_refund_def that by (rule in_refund_row[OF d r])
  have now: "in_refund t o' states rl \<longleftrightarrow> rf_orderId r = o' \<and> rf_status (f r) \<in> set states" if "rl_refundId rl = rf_id r" for rl
    unfolding in_refund_def that using in_refund_row[OF d' r'] by (simp add: same)
  have rest: "in_refund t o' states rl \<longleftrightarrow> in_refund s o' states rl" if "rl_refundId rl \<noteq> rf_id r" for rl
    unfolding in_refund_def by (rule other[OF that])
  let ?w = "weigh (rf_status (f r) \<in> set states) - weigh (rf_status r \<in> set states)"
  have "(if rl_lineId rl = k \<and> Q rl \<and> in_refund t o' states rl then rl_quantity rl else 0) =
      (if rl_lineId rl = k \<and> Q rl \<and> in_refund s o' states rl then rl_quantity rl else 0) +
      (if rf_orderId r = o' then ?w else 0) *
      (if rl_refundId rl = rf_id r \<and> rl_lineId rl = k \<and> Q rl then rl_quantity rl else 0)" for rl
    by (cases "rl_refundId rl = rf_id r") (auto simp: old now rest weigh_def)
  then show "units_in t Q o' states k = units_in s Q o' states k + (if rf_orderId r = o'
      then ?w * refund_sum s Q (rf_id r) k else 0)"
    by (simp add: units_in_def refund_sum_def t(2) sum_list_addf sum_list_const_mult)
qed

lemma refund_sum_nonneg:
  assumes "refund_keys s"
  shows "0 \<le> refund_sum s Q i k"
  unfolding refund_sum_def by (rule sum_list_nonneg) (auto dest: refund_keysD(8)[OF assms])

lemma refund_sum_order:
  assumes keys: "refund_keys s" and r: "r \<in> set (sl_refunds s)" and l: "l \<in> set (lines_of s)" "ol_orderId l \<noteq> rf_orderId r"
  shows "refund_sum s Q (rf_id r) (ol_id l) = 0"
  unfolding refund_sum_def
proof (rule sum_zero)
  fix rl assume rl: "rl \<in> set (sl_refundLines s)"
  show "(if rl_refundId rl = rf_id r \<and> rl_lineId rl = ol_id l \<and> Q rl then rl_quantity rl else 0) = 0"
  proof (rule ccontr)
    assume "\<not> ?thesis"
    then have i: "rl_refundId rl = rf_id r" "rl_lineId rl = ol_id l" by (auto split: if_splits)
    obtain q m where q: "q \<in> set (sl_refunds s)" "rf_id q = rf_id r" and m: "m \<in> set (lines_of s)" "ol_id m = ol_id l"
      "ol_orderId m = rf_orderId q"
      using refund_keysD(9)[OF keys rl] i by auto
    have "q = r" by (rule row_unique[OF refund_keysD(4)[OF keys] q(1) r q(2)])
    moreover have "m = l" by (rule row_unique[OF refund_keysD(2)[OF keys] m(1) l(1) m(2)])
    ultimately show False using m(3) l(2) by simp
  qed
qed

lemma refund_keys_status:
  assumes "refund_keys s" "\<And>q. same_refund q (f q)" "sl_refunds t = update_rows sel f (sl_refunds s)"
    "sl_refundLines t = sl_refundLines s" "map or_id (orders_of t) = map or_id (orders_of s)"
    "map (\<lambda>l. (ol_id l, ol_orderId l)) (lines_of t) = map (\<lambda>l. (ol_id l, ol_orderId l)) (lines_of s)"
    "map (\<lambda>p. (pm_id p, pm_orderId p, pm_status p)) (payments_of t) = map (\<lambda>p. (pm_id p, pm_orderId p, pm_status p)) (payments_of s)"
    "next_id t = next_id s"
  shows "refund_keys t"
proof -
  let ?K = "\<lambda>q. (rf_id q, rf_orderId q, rf_paymentId q, rf_amount q)"
  have same: "?K (f q) = ?K q" for q using assms(2)[of q] by (simp add: same_refund_def)
  have "map ?K (sl_refunds t) = map ?K (sl_refunds s)"
    unfolding assms(3) update_rows_def map_map comp_def by (rule map_cong) (use same in auto)
  note rs = this
  have rfs: "map rf_id (sl_refunds t) = map rf_id (sl_refunds s)" "?K ` set (sl_refunds t) = ?K ` set (sl_refunds s)"
    using arg_cong[OF rs, of "map fst"] arg_cong[OF rs, of set] by (simp_all add: comp_def)
  have ids: "map ol_id (lines_of t) = map ol_id (lines_of s)" "map pm_id (payments_of t) = map pm_id (payments_of s)"
    using arg_cong[OF assms(6), of "map fst"] arg_cong[OF assms(7), of "map fst"] by (simp_all add: comp_def)
  have sets: "or_id ` set (orders_of t) = or_id ` set (orders_of s)"
    "(\<lambda>l. (ol_id l, ol_orderId l)) ` set (lines_of t) = (\<lambda>l. (ol_id l, ol_orderId l)) ` set (lines_of s)"
    "(\<lambda>p. (pm_id p, pm_orderId p, pm_status p)) ` set (payments_of t) = (\<lambda>p. (pm_id p, pm_orderId p, pm_status p)) ` set (payments_of s)"
    using arg_cong[OF assms(5), of set] arg_cong[OF assms(6), of set] arg_cong[OF assms(7), of set] by simp_all
  have flat: "refund_keys u \<longleftrightarrow> distinct (map or_id (orders_of u)) \<and> distinct (map ol_id (lines_of u)) \<and>
     distinct (map pm_id (payments_of u)) \<and> distinct (map rf_id (sl_refunds u)) \<and>
     (\<forall>(i, o', p, a) \<in> ?K ` set (sl_refunds u). i < next_id u \<and> 0 < a \<and> o' \<in> or_id ` set (orders_of u) \<and>
       (p, Some o', PAY_CAPTURED) \<in> (\<lambda>p. (pm_id p, pm_orderId p, pm_status p)) ` set (payments_of u)) \<and>
     (\<forall>rl \<in> set (sl_refundLines u). 0 \<le> rl_quantity rl \<and> (\<exists>(i, o', p, a) \<in> ?K ` set (sl_refunds u).
       i = rl_refundId rl \<and> (rl_lineId rl, o') \<in> (\<lambda>l. (ol_id l, ol_orderId l)) ` set (lines_of u)))" for u
  proof -
    have flip: "i = or_id x \<longleftrightarrow> or_id x = i" "(i, j, k) = (pm_id p, pm_orderId p, pm_status p) \<longleftrightarrow> pm_id p = i \<and> pm_orderId p = j \<and> pm_status p = k"
      "(i, o') = (ol_id l, ol_orderId l) \<longleftrightarrow> ol_id l = i \<and> ol_orderId l = o'" for x i p j k l o' by auto
    show ?thesis unfolding refund_keys_def
      by (simp only: image_iff ball_simps bex_simps case_prod_conv ball_conj_distrib flip)
  qed
  show ?thesis using assms(1) unfolding flat assms(4,5,8) ids rfs sets .
qed

subsection \<open>A refund that fails\<close>

lemma set_refunds_rows [simp]:
  "sl_refunds (set_refunds sel f s) = update_rows sel f (sl_refunds s)" "sl_refundLines (set_refunds sel f s) = sl_refundLines s"
  "orders_of (set_refunds sel f s) = orders_of s" "lines_of (set_refunds sel f s) = lines_of s"
  "sl_shop (set_refunds sel f s) = sl_shop s" "next_id (set_refunds sel f s) = next_id s"
  by (simp_all add: set_refunds_def orders_of_def lines_of_def next_id_def)

lemma captured_payments_cong: "payments_of t = payments_of s \<Longrightarrow> captured_payments t = captured_payments s"
  by (simp add: captured_payments_def fun_eq_iff)

lemma unsettled_ok:
  assumes ok: "refunds_ok s" and r: "r \<in> set (sl_refunds s)" "rf_status r = RF_PENDING"
    and f: "\<And>q. same_refund q (f q)" "rf_status (f r) = RF_PENDING \<or> rf_status (f r) = RF_FAILED"
  shows "refunds_ok (set_refunds (\<lambda>q. rf_id q = rf_id r) f s)" (is "refunds_ok ?t")
proof -
  note keys = refunds_okD(1)[OF ok]
  note sums = status_sums[OF keys r(1) set_refunds_rows(1,2) f(1)]
  have a: "amount_in ?t RF_SUCCEEDED pid = amount_in s RF_SUCCEEDED pid" "amount_in ?t RF_PENDING pid \<le> amount_in s RF_PENDING pid" for pid
    using f(2) r refund_keysD(5)[OF keys r(1)] by (auto simp: sums(1))
  have b: "units_in ?t Q o' [RF_SUCCEEDED] k = units_in s Q o' [RF_SUCCEEDED] k"
    "units_in ?t Q o' [RF_PENDING] k \<le> units_in s Q o' [RF_PENDING] k"
    "units_in ?t Q o' [RF_PENDING, RF_SUCCEEDED] k \<le> units_in s Q o' [RF_PENDING, RF_SUCCEEDED] k" for Q o' k
    using f(2) r refund_sum_nonneg[OF keys, of Q "rf_id r" k] by (auto simp: sums(2))
  have "refund_keys ?t"
    by (rule refund_keys_status[OF keys f(1), where sel = "\<lambda>q. rf_id q = rf_id r"]) simp_all
  moreover have "payment_books ?t p" if "p \<in> set (payments_of ?t)" "pm_orderId p \<noteq> None" for p
    using refunds_okD(2)[OF ok, of p] that a[of "pm_id p"] by (simp add: payment_books_def pending_amount_in)
  moreover have "order_books ?t x" if "x \<in> set (orders_of ?t)" for x
    using refunds_okD(3)[OF ok, of x] that captured_payments_cong[of ?t s] by (simp add: order_books_def)
  moreover have "line_books ?t l" if "l \<in> set (lines_of ?t)" for l
    using refunds_okD(4)[OF ok, of l] that b(1)[of "\<lambda>_. True"] b(2)[of "\<lambda>_. True" "ol_orderId l" "ol_id l"]
      b(3)[of "\<lambda>rl. rl_restock rl \<noteq> None" "ol_orderId l" "ol_id l"]
    by (simp add: line_books_def refund_units_in restock_units_in)
  ultimately show ?thesis by (simp add: refunds_ok_def)
qed

subsection \<open>A refund that succeeds\<close>

lemma insertBy_map: "(\<And>a b. cmp (g a) (g b) = cmp a b) \<Longrightarrow> insertBy cmp (g x) (map g xs) = map g (insertBy cmp x xs)"
  by (induction xs) auto

lemma sortBy_map: "(\<And>a b. cmp (g a) (g b) = cmp a b) \<Longrightarrow> sortBy cmp (map g xs) = map g (sortBy cmp xs)"
  by (induction xs) (simp_all add: insertBy_map)

lemma captured_payments_map:
  assumes "payments_of t = map g (payments_of s)"
    "\<And>p. pm_id (g p) = pm_id p \<and> pm_capturedAt (g p) = pm_capturedAt p \<and> pm_orderId (g p) = pm_orderId p \<and> pm_status (g p) = pm_status p"
  shows "captured_payments t o' = map g (captured_payments s o')"
proof -
  have "byCapture (g a) (g b) = byCapture a b" for a b
    by (simp add: byCapture_def assms(2) split: option.split)
  then show ?thesis by (simp add: captured_payments_def assms filter_map comp_def sortBy_map)
qed

lemma count_refunded_Inr:
  assumes c: "count_refunded s x = Inr t" and d: "distinct (map ol_id (lines_of s))"
  shows "lines_of t = map (\<lambda>l. l\<lparr>ol_refunded := ol_refunded l + (if rl_lineId (fst x) = ol_id l then rl_quantity (fst x) else 0)\<rparr>) (lines_of s)"
    "orders_of t = orders_of s" "payments_of t = payments_of s" "sl_refunds t = sl_refunds s"
    "sl_refundLines t = sl_refundLines s" "next_id t = next_id s" "sh_stock (sl_shop t) = sh_stock (sl_shop s)"
proof -
  let ?sel = "\<lambda>ol. ol_id ol = rl_lineId (fst x) \<and> ol_refunded ol + rl_quantity (fst x) \<le> ol_quantity ol"
  have one: "length (filter ?sel (lines_of s)) = 1"
    and t: "t = set_lines ?sel (\<lambda>ol. ol\<lparr>ol_refunded := ol_refunded ol + rl_quantity (fst x)\<rparr>) s"
    using c by (auto simp: count_refunded_def Let_def split: if_splits)
  obtain l where "filter ?sel (lines_of s) = [l]" using one by (auto simp: length_Suc_conv)
  then have "l \<in> set (filter ?sel (lines_of s))" by simp
  then have "l \<in> set (lines_of s)" "?sel l" by auto
  then have all: "?sel m \<longleftrightarrow> ol_id m = rl_lineId (fst x)" if "m \<in> set (lines_of s)" for m
    using row_unique[OF d that, of l] by auto
  show "lines_of t = map (\<lambda>l. l\<lparr>ol_refunded := ol_refunded l + (if rl_lineId (fst x) = ol_id l then rl_quantity (fst x) else 0)\<rparr>) (lines_of s)"
    using all by (auto simp: t set_lines_def on_shop_def lines_of_def update_rows_def intro!: map_cong)
  show "orders_of t = orders_of s" "payments_of t = payments_of s" "sl_refunds t = sl_refunds s"
    "sl_refundLines t = sl_refundLines s" "next_id t = next_id s" "sh_stock (sl_shop t) = sh_stock (sl_shop s)"
    by (simp_all add: t set_lines_def on_shop_def orders_of_def next_id_def)
qed

lemma count_run:
  assumes "foldR count_refunded s items = Inr t" "distinct (map ol_id (lines_of s))"
  shows "lines_of t = map (\<lambda>l. l\<lparr>ol_refunded := ol_refunded l +
      sum_list (map (\<lambda>x. if rl_lineId (fst x) = ol_id l then rl_quantity (fst x) else 0) items)\<rparr>) (lines_of s) \<and>
    orders_of t = orders_of s \<and> payments_of t = payments_of s \<and> sl_refunds t = sl_refunds s \<and>
    sl_refundLines t = sl_refundLines s \<and> next_id t = next_id s"
  using assms
proof (induction items arbitrary: s)
  case (Cons x items)
  then obtain u where u: "count_refunded s x = Inr u" "foldR count_refunded u items = Inr t"
    by (auto simp: bindR_eq_Inr)
  note c = count_refunded_Inr[OF u(1) Cons.prems(2)]
  have "distinct (map ol_id (lines_of u))" using Cons.prems(2) by (simp add: c(1) comp_def)
  from Cons.IH[OF u(2) this] show ?case by (simp add: c comp_def add.assoc)
qed simp

lemma refund_items_fst:
  assumes "refund_keys s"
  shows "map fst (refund_items s i) = filter (\<lambda>rl. rl_refundId rl = i) (sl_refundLines s)"
proof -
  have "map fst (concat (map (\<lambda>rl. case find (\<lambda>l. ol_id l = rl_lineId rl) (lines_of s) of None \<Rightarrow> []
      | Some l \<Rightarrow> [(rl, f l)]) xs)) = xs" if "set xs \<subseteq> set (sl_refundLines s)" for xs and f :: "order_line_row \<Rightarrow> uuid option"
    using that
  proof (induction xs)
    case (Cons rl xs)
    then have "find (\<lambda>l. ol_id l = rl_lineId rl) (lines_of s) \<noteq> None"
      using refund_keysD(9)[OF assms, of rl] by (auto simp: find_None_iff)
    with Cons show ?case by auto
  qed simp
  from this[of "filter (\<lambda>rl. rl_refundId rl = i) (sl_refundLines s)"] show ?thesis by (simp add: refund_items_def)
qed

lemma refund_items_sum:
  assumes "refund_keys s"
  shows "sum_list (map (\<lambda>x. if rl_lineId (fst x) = k then rl_quantity (fst x) else 0) (refund_items s i)) =
    refund_sum s (\<lambda>_. True) i k"
proof -
  have "sum_list (map (\<lambda>x. if rl_lineId (fst x) = k then rl_quantity (fst x) else 0) (refund_items s i)) =
      sum_list (map (\<lambda>rl. if rl_lineId rl = k then rl_quantity rl else 0) (map fst (refund_items s i)))"
    by (simp add: comp_def)
  also have "\<dots> = refund_sum s (\<lambda>_. True) i k"
    unfolding refund_items_fst[OF assms] refund_sum_def sum_filter_if by (rule arg_cong[where f = sum_list]) auto
  finally show ?thesis .
qed

lemma settled_ok:
  assumes ok: "refunds_ok s" and r: "r \<in> set (sl_refunds s)" "rf_status r = RF_PENDING"
    and f: "\<And>q. same_refund q (f q)" "rf_status (f r) = RF_SUCCEEDED"
    and x: "x \<in> set (orders_of s)" "or_id x = rf_orderId r"
    and refunds: "sl_refunds t = update_rows (\<lambda>q. rf_id q = rf_id r) f (sl_refunds s)" "sl_refundLines t = sl_refundLines s"
    and payments: "payments_of t = update_rows (\<lambda>p. pm_id p = rf_paymentId r)
      (\<lambda>p. p\<lparr>pm_refunded := pm_refunded p + rf_amount r\<rparr>) (payments_of s)"
    and orders: "orders_of t = (if is_primary s (or_id x) (rf_paymentId r) then update_rows (\<lambda>y. or_id y = or_id x)
        (\<lambda>y. y\<lparr>or_refunded := or_refunded x + rf_amount r,
           or_paymentStatus := orderPaymentStatus (or_total x) (or_refunded x + rf_amount r)\<rparr>) (orders_of s)
      else orders_of s)"
    and lines: "lines_of t = map (\<lambda>l. l\<lparr>ol_refunded := ol_refunded l + refund_sum s (\<lambda>_. True) (rf_id r) (ol_id l)\<rparr>) (lines_of s)"
    and next_id: "next_id t = next_id s"
  shows "refunds_ok t"
proof -
  note keys = refunds_okD(1)[OF ok]
  note sums = status_sums[OF keys r(1) refunds f(1)]
  let ?g = "\<lambda>p. if pm_id p = rf_paymentId r then p\<lparr>pm_refunded := pm_refunded p + rf_amount r\<rparr> else p"
  have pays: "payments_of t = map ?g (payments_of s)" by (simp add: payments update_rows_def)
  have cap: "captured_payments t o' = map ?g (captured_payments s o')" for o'
    by (rule captured_payments_map[OF pays]) simp
  obtain p where p: "p \<in> set (payments_of s)" "pm_id p = rf_paymentId r" "pm_orderId p = Some (rf_orderId r)"
    using refund_keysD(7)[OF keys r(1)] by auto
  have a: "amount_in t RF_SUCCEEDED k = amount_in s RF_SUCCEEDED k + (if k = rf_paymentId r then rf_amount r else 0)"
    "amount_in t RF_PENDING k = amount_in s RF_PENDING k - (if k = rf_paymentId r then rf_amount r else 0)" for k
    using f(2) r by (auto simp: sums(1))
  have b: "units_in t Q o' [RF_SUCCEEDED] k = units_in s Q o' [RF_SUCCEEDED] k + (if rf_orderId r = o' then refund_sum s Q (rf_id r) k else 0)"
    "units_in t Q o' [RF_PENDING] k = units_in s Q o' [RF_PENDING] k - (if rf_orderId r = o' then refund_sum s Q (rf_id r) k else 0)"
    "units_in t Q o' [RF_PENDING, RF_SUCCEEDED] k = units_in s Q o' [RF_PENDING, RF_SUCCEEDED] k" for Q o' k
    using f(2) r by (auto simp: sums(2))
  have "refund_keys t"
    by (rule refund_keys_status[OF keys f(1) refunds])
      (auto simp: orders lines pays next_id update_rows_def intro!: map_cong)
  moreover have "payment_books t q'" if q': "q' \<in> set (payments_of t)" "pm_orderId q' \<noteq> None" for q'
  proof -
    obtain q where q: "q \<in> set (payments_of s)" "q' = ?g q" using q'(1) pays by auto
    with q' have "payment_books s q" using refunds_okD(2)[OF ok q(1)] by (auto split: if_splits)
    with q(2) show ?thesis by (auto simp: payment_books_def pending_amount_in a)
  qed
  moreover have "order_books t y'" if y': "y' \<in> set (orders_of t)" for y'
  proof -
    obtain y where y: "y \<in> set (orders_of s)" "or_id y = or_id y'"
      and same: "is_primary s (or_id x) (rf_paymentId r) \<longrightarrow> or_id y \<noteq> or_id x \<Longrightarrow> y' = y"
      and moved: "is_primary s (or_id x) (rf_paymentId r) \<Longrightarrow> or_id y = or_id x \<Longrightarrow>
        y' = y\<lparr>or_refunded := or_refunded x + rf_amount r,
           or_paymentStatus := orderPaymentStatus (or_total x) (or_refunded x + rf_amount r)\<rparr>"
    proof (cases "is_primary s (or_id x) (rf_paymentId r)")
      case True
      with y' obtain y where "y \<in> set (orders_of s)" "y' = (if or_id y = or_id x then y\<lparr>or_refunded := or_refunded x + rf_amount r,
           or_paymentStatus := orderPaymentStatus (or_total x) (or_refunded x + rf_amount r)\<rparr> else y)"
        by (auto simp: orders update_rows_def)
      with True show thesis by (intro that[of y]) (auto split: if_splits)
    qed (use y' in \<open>auto simp: orders intro: that\<close>)
    note bo = refunds_okD(3)[OF ok y(1)]
    have key: "y = x" if "or_id y = or_id x" by (rule row_unique[OF refund_keysD(1)[OF keys] y(1) x(1) that])
    show ?thesis
    proof (cases "captured_payments s (or_id y)")
      case Nil
      then have "is_primary s (or_id x) (rf_paymentId r) \<longrightarrow> or_id y \<noteq> or_id x" by (auto simp: is_primary_def)
      from same[OF this] bo Nil show ?thesis by (simp add: order_books_def cap)
    next
      case (Cons q qs)
      then have "q \<in> set (captured_payments s (or_id y))" by simp
      then have q: "q \<in> set (payments_of s)" "pm_orderId q = Some (or_id y)" by (simp_all add: captured_payments_in)
      have mine: "or_id y = or_id x" if "pm_id q = rf_paymentId r"
        using row_unique[OF refund_keysD(3)[OF keys] q(1) p(1)] that p(2,3) q(2) x(2) by simp
      show ?thesis
      proof (cases "pm_id q = rf_paymentId r")
        case True
        with mine Cons have prim: "is_primary s (or_id x) (rf_paymentId r)" by (simp add: is_primary_def)
        from moved[OF prim mine[OF True]] bo Cons True key[OF mine[OF True]] show ?thesis
          by (simp add: order_books_def cap)
      next
        case False
        then have "is_primary s (or_id x) (rf_paymentId r) \<longrightarrow> or_id y \<noteq> or_id x" using Cons by (auto simp: is_primary_def)
        from same[OF this] bo Cons False show ?thesis by (simp add: order_books_def cap)
      qed
    qed
  qed
  moreover have "line_books t l'" if l': "l' \<in> set (lines_of t)" for l'
  proof -
    obtain l where l: "l \<in> set (lines_of s)" "l' = l\<lparr>ol_refunded := ol_refunded l + refund_sum s (\<lambda>_. True) (rf_id r) (ol_id l)\<rparr>"
      using l' lines by auto
    show ?thesis
      using refunds_okD(4)[OF ok l(1)] refund_sum_order[OF keys r(1) l(1), of "\<lambda>_. True"] l(2)
      by (auto simp: line_books_def refund_units_in restock_units_in b)
  qed
  ultimately show ?thesis by (simp add: refunds_ok_def)
qed

lemma move_money_Inr:
  assumes m: "move_money i a s = Inr t" and d: "distinct (map pm_id (payments_of s))"
  shows "t = on_shop (set_payments (\<lambda>p. pm_id p = i) (\<lambda>p. p\<lparr>pm_refunded := pm_refunded p + a\<rparr>)) s"
proof -
  let ?sel = "\<lambda>p. pm_id p = i \<and> pm_refunded p + a \<le> pm_capturedAmount p"
  have one: "length (filter ?sel (payments_of s)) = 1"
    and t: "t = on_shop (set_payments ?sel (\<lambda>p. p\<lparr>pm_refunded := pm_refunded p + a\<rparr>)) s"
    using m by (auto simp: move_money_def Let_def split: if_splits)
  obtain p where "filter ?sel (payments_of s) = [p]" using one by (auto simp: length_Suc_conv)
  then have "p \<in> set (filter ?sel (payments_of s))" by simp
  then have "p \<in> set (payments_of s)" "?sel p" by auto
  then have "?sel q \<longleftrightarrow> pm_id q = i" if "q \<in> set (payments_of s)" for q
    using row_unique[OF d that, of p] by auto
  then show ?thesis by (auto simp: t on_shop_def set_payments_def update_rows_def intro!: map_cong)
qed

lemma move_money_rows:
  assumes "move_money i a s = Inr t" "distinct (map pm_id (payments_of s))"
  shows "payments_of t = update_rows (\<lambda>p. pm_id p = i) (\<lambda>p. p\<lparr>pm_refunded := pm_refunded p + a\<rparr>) (payments_of s)"
    "orders_of t = orders_of s" "lines_of t = lines_of s" "sl_refunds t = sl_refunds s"
    "sl_refundLines t = sl_refundLines s" "next_id t = next_id s"
  by (simp_all add: move_money_Inr[OF assms] on_shop_def set_payments_def orders_of_def lines_of_def next_id_def)

lemma order_refunded_rows:
  assumes "(if P then order_refunded x a s else Inr s) = Inr t"
  shows "orders_of t = (if P then update_rows (\<lambda>y. or_id y = or_id x) (\<lambda>y. y\<lparr>or_refunded := or_refunded x + a,
      or_paymentStatus := orderPaymentStatus (or_total x) (or_refunded x + a)\<rparr>) (orders_of s) else orders_of s)"
    "payments_of t = payments_of s" "lines_of t = lines_of s" "sl_refunds t = sl_refunds s"
    "sl_refundLines t = sl_refundLines s" "next_id t = next_id s"
  using assms
  by (auto simp: order_refunded_def Let_def set_orders_def on_shop_def orders_of_def lines_of_def next_id_def split: if_splits)

lemma refund_items_cong:
  "lines_of t = lines_of s \<Longrightarrow> sl_refundLines t = sl_refundLines s \<Longrightarrow> map fst (refund_items t i) = map fst (refund_items s i)"
proof -
  have "map fst (concat (map (\<lambda>rl. case g rl of None \<Rightarrow> [] | Some l \<Rightarrow> [(rl, f1 l)]) xs)) =
    map fst (concat (map (\<lambda>rl. case g rl of None \<Rightarrow> [] | Some l \<Rightarrow> [(rl, f2 l)]) xs))"
    for xs :: "refund_line_row list" and f1 f2 :: "order_line_row \<Rightarrow> uuid option" and g
    by (induction xs) (auto split: option.split)
  then show "lines_of t = lines_of s \<Longrightarrow> sl_refundLines t = sl_refundLines s \<Longrightarrow> ?thesis"
    by (simp add: refund_items_def)
qed

lemma settle_accepted_steps:
  assumes "settle_accepted env actor o' refund i s = Inr (t, out)"
  obtains x s1 s3 s4 s5 where "lockOrder o' s = Inr x" "move_money (rf_paymentId refund) (rf_amount refund) s = Inr s1"
    "(if is_primary s o' (rf_paymentId refund) then order_refunded x (rf_amount refund)
        (set_refunds (\<lambda>r. rf_id r = rf_id refund) (\<lambda>r. r\<lparr>rf_status := RF_SUCCEEDED, rf_providerRefundId := i, rf_failureMessage := None\<rparr>) s1)
      else Inr (set_refunds (\<lambda>r. rf_id r = rf_id refund) (\<lambda>r. r\<lparr>rf_status := RF_SUCCEEDED, rf_providerRefundId := i, rf_failureMessage := None\<rparr>) s1)) = Inr s3"
    "foldR count_refunded s3 (refund_items s3 (rf_id refund)) = Inr s4"
    "in_stock (restockStock o' (restock_moves (refund_items s3 (rf_id refund))) (Some actor)) s4 = Inr s5" "refund_frame s5 t"
    "out = \<lparr>ro_refundId = rf_id refund, ro_status = RF_SUCCEEDED, ro_message = None\<rparr>"
proof -
  have run: "refund_frame s5 (on_shop (queueNotification o' k dk em ref) (on_shop (orderEvent o' ty m d a) s5))" for s5 k dk em ref ty m d a
    by (rule refund_frame_writes(3)) simp
  from assms show thesis
    unfolding settle_accepted_def bindR_eq_Inr Let_def prod.inject sum.inject
    by (elim exE conjE) (rule that, assumption+, hypsubst, rule run, hypsubst, rule refl)
qed

lemma accepted_ok:
  assumes ok: "refunds_ok s" and refund: "refund \<in> set (sl_refunds s)" "rf_status refund = RF_PENDING" "rf_orderId refund = o'"
    and a: "settle_accepted env actor o' refund i s = Inr (t, out)"
  shows "refunds_ok t"
  using a
proof (rule settle_accepted_steps)
  fix x s1 s3 s4 s5
  let ?f = "\<lambda>r. r\<lparr>rf_status := RF_SUCCEEDED, rf_providerRefundId := i, rf_failureMessage := None\<rparr>"
  let ?s2 = "set_refunds (\<lambda>r. rf_id r = rf_id refund) ?f s1"
  assume l: "lockOrder o' s = Inr x" and m: "move_money (rf_paymentId refund) (rf_amount refund) s = Inr s1"
    and or: "(if is_primary s o' (rf_paymentId refund) then order_refunded x (rf_amount refund) ?s2 else Inr ?s2) = Inr s3"
    and c: "foldR count_refunded s3 (refund_items s3 (rf_id refund)) = Inr s4"
    and st: "in_stock (restockStock o' (restock_moves (refund_items s3 (rf_id refund))) (Some actor)) s4 = Inr s5"
    and fr: "refund_frame s5 t"
  note keys = refunds_okD(1)[OF ok]
  note m' = move_money_rows[OF m refund_keysD(3)[OF keys]] and or' = order_refunded_rows[OF or] and x = lockOrder_Inr[OF l]
  have "distinct (map ol_id (lines_of s3))" using refund_keysD(2)[OF keys] by (simp add: or' m')
  note c' = count_run[OF c this]
  have items: "sum_list (map (\<lambda>y. if rl_lineId (fst y) = k then rl_quantity (fst y) else 0) (refund_items s3 (rf_id refund))) =
      refund_sum s (\<lambda>_. True) (rf_id refund) k" for k
  proof -
    have "map (\<lambda>rl. if rl_lineId rl = k then rl_quantity rl else 0) (map fst (refund_items s3 (rf_id refund))) =
        map (\<lambda>rl. if rl_lineId rl = k then rl_quantity rl else 0) (map fst (refund_items s (rf_id refund)))"
      using refund_items_cong[of s3 s "rf_id refund"] by (simp only: or' m' set_refunds_rows)
    with refund_items_sum[OF keys, of k "rf_id refund"] show ?thesis by (simp add: comp_def)
  qed
  have "refunds_ok s4"
    by (rule settled_ok[OF ok refund(1,2), where f = ?f and x = x])
      (use x refund(3) in \<open>simp_all add: c' or' m' items same_refund_def\<close>)
  moreover have "refund_frame s4 t" using refund_frame_in_stock(3)[OF st] fr by (rule refund_frame_trans)
  ultimately show ?thesis by (blast intro: refunds_ok_frame)
qed

lemma settle_ok:
  assumes ok: "refunds_ok s" and st: "settleRefund env ctx o' i result why s = Inr (t, out)"
  shows "refunds_ok t"
proof -
  obtain r where r: "r \<in> set (sl_refunds s)" "rf_id r = i" "rf_orderId r = o'"
    and f: "find (\<lambda>r. rf_id r = i \<and> rf_orderId r = o') (sl_refunds s) = Some r"
    using st by (auto simp: settleRefund_def split: option.splits dest: find_Some_iff2)
  show ?thesis
  proof (cases "rf_status r = RF_PENDING")
    case False
    with st f ok show ?thesis by (simp add: settleRefund_def)
  next
    case True
    note unsettled = unsettled_ok[OF ok r(1) True, unfolded r(2)]
    show ?thesis
    proof (cases result)
      case None
      with st f True ok show ?thesis
        by (auto simp: settleRefund_def same_refund_def split: if_splits intro!: unsettled)
    next
      case (Some answer)
      show ?thesis
      proof (cases "rr_status answer = RC_FAILED")
        case failed: True
        with st f True Some ok show ?thesis
          by (auto simp: settleRefund_def same_refund_def Let_def intro!: refunds_ok_frame[OF refund_frame_event] unsettled)
      next
        case False
        with st f True Some have "settle_accepted env (oc_userId ctx) o' r (rr_providerRefundId answer) s = Inr (t, out)"
          by (simp add: settleRefund_def)
        with accepted_ok[OF ok r(1) True r(3)] show ?thesis by blast
      qed
    qed
  qed
qed

subsection \<open>A deleted demo order\<close>

lemma purge_rows:
  assumes "app_purge_demo_order o' s = Inr (t, True)"
  shows "sl_refunds t = filter (\<lambda>r. rf_orderId r \<noteq> o') (sl_refunds s)"
    "sl_refundLines t = filter (\<lambda>rl. \<forall>r \<in> set (sl_refunds s). rf_id r = rl_refundId rl \<longrightarrow> rf_orderId r \<noteq> o') (sl_refundLines s)"
    "orders_of t = filter (\<lambda>x. or_id x \<noteq> o') (orders_of s)" "lines_of t = filter (\<lambda>l. ol_orderId l \<noteq> o') (lines_of s)"
    "payments_of t = update_rows (\<lambda>p. pm_orderId p = Some o') (\<lambda>p. p\<lparr>pm_orderId := None\<rparr>) (payments_of s)"
    "next_id t = next_id s"
proof -
  let ?gone = "map rf_id (filter (\<lambda>r. rf_orderId r = o') (sl_refunds s))"
  have t: "sl_refundLines t = filter (\<lambda>rl. rl_refundId rl \<notin> set ?gone) (sl_refundLines s)"
      "sl_refunds t = filter (\<lambda>r. rf_orderId r \<noteq> o') (sl_refunds s)" "sl_shop t = purge_shop o' (sl_shop s)"
    using assms by (auto simp: app_purge_demo_order_def Let_def split: if_splits)
  have "rl_refundId rl \<notin> set ?gone \<longleftrightarrow> (\<forall>r \<in> set (sl_refunds s). rf_id r = rl_refundId rl \<longrightarrow> rf_orderId r \<noteq> o')" for rl
    by (force simp: image_iff)
  then show "sl_refundLines t = filter (\<lambda>rl. \<forall>r \<in> set (sl_refunds s). rf_id r = rl_refundId rl \<longrightarrow> rf_orderId r \<noteq> o') (sl_refundLines s)"
    unfolding t(1) by (rule filter_cong[OF refl])
  show "sl_refunds t = filter (\<lambda>r. rf_orderId r \<noteq> o') (sl_refunds s)" by (rule t(2))
  show "orders_of t = filter (\<lambda>x. or_id x \<noteq> o') (orders_of s)" "lines_of t = filter (\<lambda>l. ol_orderId l \<noteq> o') (lines_of s)"
    "payments_of t = update_rows (\<lambda>p. pm_orderId p = Some o') (\<lambda>p. p\<lparr>pm_orderId := None\<rparr>) (payments_of s)"
    "next_id t = next_id s"
    by (simp_all add: t purge_shop_def purge_tables_def orders_of_def lines_of_def next_id_def)
qed

lemma filter_update_rows:
  "(\<And>r. sel r \<Longrightarrow> \<not> P r \<and> \<not> P (f r)) \<Longrightarrow> filter P (update_rows sel f rows) = filter P rows"
  by (induction rows) (auto simp: update_rows_def)

lemma purge_ok:
  assumes ok: "refunds_ok s" and p: "app_purge_demo_order o' s = Inr (t, True)"
  shows "refunds_ok t"
proof -
  note keys = refunds_okD(1)[OF ok] and rows = purge_rows[OF p]
  have owner: "(\<forall>q \<in> set (sl_refunds s). rf_id q = rf_id r \<longrightarrow> rf_orderId q \<noteq> o') \<longleftrightarrow> rf_orderId r \<noteq> o'"
    if "r \<in> set (sl_refunds s)" for r
    using row_unique[OF refund_keysD(4)[OF keys] _ that] that by auto
  have pay: "q \<in> set (payments_of t) \<and> pm_orderId q \<noteq> None \<longleftrightarrow> q \<in> set (payments_of s) \<and> pm_orderId q \<noteq> None \<and> pm_orderId q \<noteq> Some o'" for q
    by (auto simp: rows update_rows_def)
  have cap: "captured_payments t k = captured_payments s k" if "k \<noteq> o'" for k
    unfolding captured_payments_def rows using that
    by (intro arg_cong[where f = "sortBy byCapture"] filter_update_rows) auto
  have inr: "in_refund t k states rl \<longleftrightarrow> in_refund s k states rl" if "k \<noteq> o'" for k states rl
    using that by (auto simp: in_refund_def rows list_ex_iff)
  have units: "units_in t Q k states i = units_in s Q k states i" if "k \<noteq> o'" for Q k states i
  proof -
    have gone: "in_refund s k states rl \<Longrightarrow> \<forall>r \<in> set (sl_refunds s). rf_id r = rl_refundId rl \<longrightarrow> rf_orderId r \<noteq> o'" for rl
      using that row_unique[OF refund_keysD(4)[OF keys]] by (force simp: in_refund_def list_ex_iff)
    show ?thesis
      unfolding units_in_def rows sum_filter_if inr[OF that]
      by (rule arg_cong[where f = sum_list], rule map_cong) (auto dest: gone)
  qed
  have amounts: "amount_in t st (pm_id q) = amount_in s st (pm_id q)"
    if q: "q \<in> set (payments_of s)" "pm_orderId q \<noteq> Some o'" for st q
  proof -
    have "rf_orderId r \<noteq> o'" if "r \<in> set (sl_refunds s)" "rf_paymentId r = pm_id q" for r
      using refund_keysD(7)[OF keys that(1)] row_unique[OF refund_keysD(3)[OF keys] _ q(1)] that(2) q(2) by auto
    then show ?thesis
      unfolding amount_in_def rows sum_filter_if by (intro arg_cong[where f = sum_list] map_cong) auto
  qed
  have "refund_keys t"
  proof -
    have "distinct (map pm_id (payments_of t))"
      using refund_keysD(3)[OF keys] by (simp add: rows update_rows_def comp_def if_distrib cong: if_cong)
    moreover have "\<exists>q \<in> set (payments_of t). pm_id q = rf_paymentId r \<and> pm_orderId q = Some (rf_orderId r) \<and> pm_status q = PAY_CAPTURED"
      if "r \<in> set (sl_refunds t)" for r
      using refund_keysD(7)[OF keys, of r] that pay by (force simp: rows(1))
    moreover have "\<exists>r \<in> set (sl_refunds t). rf_id r = rl_refundId rl \<and> (\<exists>l \<in> set (lines_of t). ol_id l = rl_lineId rl \<and> ol_orderId l = rf_orderId r)"
      if rl: "rl \<in> set (sl_refundLines t)" for rl
      using refund_keysD(9)[OF keys, of rl] rl by (force simp: rows(1,2,4))
    moreover have "\<exists>x \<in> set (orders_of t). or_id x = rf_orderId r" if "r \<in> set (sl_refunds t)" for r
      using refund_keysD(6)[OF keys, of r] that by (auto simp: rows(1,3))
    moreover have "rf_id r < next_id t \<and> 0 < rf_amount r" if "r \<in> set (sl_refunds t)" for r
      using refund_keysD(5)[OF keys, of r] that by (simp add: rows(1,6))
    moreover have "0 \<le> rl_quantity rl" if "rl \<in> set (sl_refundLines t)" for rl
      using refund_keysD(8)[OF keys, of rl] that by (simp add: rows(2))
    moreover have "distinct (map or_id (orders_of t))" "distinct (map ol_id (lines_of t))" "distinct (map rf_id (sl_refunds t))"
      using refund_keysD(1,2,4)[OF keys] by (auto simp: rows(1,3,4) intro: distinct_map_filter)
    ultimately show ?thesis unfolding refund_keys_def by blast
  qed
  moreover have "payment_books t q" if "q \<in> set (payments_of t)" "pm_orderId q \<noteq> None" for q
  proof -
    have q: "q \<in> set (payments_of s)" "pm_orderId q \<noteq> None" "pm_orderId q \<noteq> Some o'" using pay that by blast+
    from refunds_okD(2)[OF ok q(1,2)] show ?thesis by (simp add: payment_books_def pending_amount_in amounts[OF q(1,3)])
  qed
  moreover have "order_books t x" if "x \<in> set (orders_of t)" for x
    using refunds_okD(3)[OF ok, of x] that cap[of "or_id x"] by (simp add: order_books_def rows)
  moreover have "line_books t l" if "l \<in> set (lines_of t)" for l
    using refunds_okD(4)[OF ok, of l] that units[of "ol_orderId l"]
    by (simp add: line_books_def rows refund_units_in restock_units_in)
  ultimately show ?thesis by (simp add: refunds_ok_def)
qed

lemma delete_ok:
  assumes ok: "refunds_ok s" and d: "delete_demo_body ctx o' confirm s = Inr (t, x)"
  shows "refunds_ok t"
proof -
  obtain s1 and order :: order_row where "refund_frame s s1"
    and pg: "app_purge_demo_order o' (recordAudit ctx ''order.demo_deleted'' (''Order'', o')
         [(''orderNumber'', show_int (or_number order))] s1) = Inr (t, True)"
    using d unfolding delete_demo_body_def bindR_eq_Inr guard_Inr
    by (auto split: prod.splits if_splits dest!: refund_frame_in_stock(2) intro: that refund_frame_refl)
  have "refunds_ok s1" using \<open>refund_frame s s1\<close> ok by (rule refunds_ok_frame)
  then show ?thesis by (intro purge_ok[OF refunds_ok_frame[OF refund_frame_audit] pg])
qed

subsection \<open>Every step keeps the books\<close>

lemma order_step_ok:
  assumes "order_step s t" "refunds_ok s"
  shows "refunds_ok t"
  using assms
proof (cases rule: order_step.cases)
  case (fulfils env ctx orderId fulfilment r1)
  consider "t = s" | plan where "inStore ctx ORDER_MANAGE True (fulfil_body env ctx orderId plan) s = (t, r1)"
    using fulfils unfolding fulfilOrder_def by (auto split: sum.splits prod.splits if_splits)
  then show ?thesis
  proof cases
    case 2
    from inStore_keeps[OF this, where P = refunds_ok] assms(2) show ?thesis by (blast intro: refunds_ok_frame fulfil_frame)
  qed (use assms(2) in simp)
next
  case (cancels ctx env orderId reason r2)
  from inStore_keeps[OF cancels, where P = refunds_ok] assms(2) show ?thesis
    by (blast intro: refunds_ok_frame cancel_frame)
next
  case (requests env ctx orderId reason refund r3)
  from transaction_keeps[OF requests, where P = refunds_ok] assms(2) show ?thesis by (blast intro: request_ok)
next
  case (settles env ctx orderId refundId result why r4)
  from transaction_keeps[OF settles, where P = refunds_ok] assms(2) show ?thesis by (blast intro: settle_ok)
next
  case (resolves env ctx orderId refundId succeeded r4)
  have b: "refunds_ok u" if "resolve_body env ctx orderId refundId succeeded s = Inr (u, x)" for u x
    using that by (auto simp: resolve_body_def bindR_eq_Inr intro!: refunds_ok_frame[OF refund_frame_audit] dest: settle_ok[OF assms(2)])
  from inStore_keeps[OF resolves[unfolded resolvePendingRefund_def], where P = refunds_ok] assms(2) b show ?thesis by blast
next
  case (annotates ctx orderId given r5)
  consider "t = s" | n where "inStore ctx ORDER_MANAGE True (note_body ctx orderId n) s = (t, r5)"
    using annotates unfolding updateOrderNote_def by (auto split: sum.splits prod.splits if_splits)
  then show ?thesis
  proof cases
    case 2
    from inStore_keeps[OF this, where P = refunds_ok] assms(2) show ?thesis by (blast intro: refunds_ok_frame note_frame)
  qed (use assms(2) in simp)
next
  case (archives env ctx orderId archived r5)
  from inStore_keeps[OF archives[unfolded setOrderArchived_def], where P = refunds_ok] assms(2) show ?thesis
    by (blast intro: refunds_ok_frame archive_frame)
next
  case (relinks env ctx orderId r6)
  from inStore_keeps[OF relinks[unfolded resetCustomerOrderLink_def], where P = refunds_ok] assms(2) show ?thesis
    by (blast intro: refunds_ok_frame reset_link_frame)
next
  case (deletes stage ctx orderId confirm r5)
  consider "t = s" |  "inStore ctx ORDER_MANAGE True (delete_demo_body ctx orderId confirm) s = (t, r5)"
    using deletes unfolding deleteDemoOrder_def by (auto split: sum.splits prod.splits if_splits)
  then show ?thesis
  proof cases
    case 2
    from inStore_keeps[OF this, where P = refunds_ok] assms(2) show ?thesis by (blast intro: delete_ok)
  qed (use assms(2) in simp)
next
  case (updates env ctx orderId fulfilmentId change r5)
  consider "t = s" | company number url where "inStore ctx ORDER_MANAGE True (update_body env ctx orderId fulfilmentId change company number url) s = (t, r5)"
    using updates unfolding updateFulfilment_def by (auto split: sum.splits prod.splits if_splits)
  then show ?thesis
  proof cases
    case 2
    from inStore_keeps[OF this, where P = refunds_ok] assms(2) show ?thesis by (blast intro: refunds_ok_frame update_frame)
  qed (use assms(2) in simp)
next
  case (completes env ctx orderId override why r5)
  consider "t = s" | c where "inStore ctx ORDER_MANAGE True (complete_body env ctx orderId override c) s = (t, r5)"
    using completes unfolding completeOrder_def by (auto split: sum.splits prod.splits if_splits)
  then show ?thesis
  proof cases
    case 2
    from inStore_keeps[OF this, where P = refunds_ok] assms(2) show ?thesis by (blast intro: refunds_ok_frame complete_frame)
  qed (use assms(2) in simp)
qed

lemma order_steps_ok: "order_step\<^sup>*\<^sup>* s t \<Longrightarrow> refunds_ok s \<Longrightarrow> refunds_ok t"
  by (induction rule: rtranclp_induct) (auto intro: order_step_ok)

end
