(* ===== verification/Returns.thy ===== *)
theory Returns
  imports Settle Purchase
begin

section \<open>Properties of refunds\<close>

text \<open>
  What the refunds of a store promise: the books over any run, a pending refund that can always be
  settled, and an answer that may come late.
\<close>

subsection \<open>A store with one paid order\<close>

text \<open>One order of 6.00, two units of which one has left, and its captured payment.\<close>

definition paid_order :: order_row where
  "paid_order = \<lparr>or_id = 40, or_number = 12, or_checkoutId = 30, or_customerId = None, or_email = Some ''e'',
     or_phone = None, or_currency = ''USD'', or_pricesIncludeTax = False, or_subtotal = 600, or_discount = 0,
     or_shipping = 0, or_tax = 0, or_total = 600, or_refunded = 0, or_status = ORD_OPEN, or_paymentStatus = PAID,
     or_fulfilmentStatus = PARTIALLY_FULFILLED, or_stockShortage = False, or_testMode = True, or_note = None,
     or_cancelledAt = None, or_cancelReason = None, or_archivedAt = None, or_archivedBy = None,
     or_completedAt = None, or_completedBy = None, or_placedAt = 1\<rparr>"

definition paid_line :: order_line_row where
  "paid_line = \<lparr>ol_id = 41, ol_orderId = 40, ol_productId = 5, ol_variantId = 4, ol_productTitle = ''P'',
     ol_variantTitle = None, ol_sku = None, ol_unitPrice = 300, ol_quantity = 2, ol_discount = 0, ol_tax = 0,
     ol_total = 600, ol_requiresShipping = True, ol_taxable = True, ol_weightGrams = None, ol_fulfilled = 1,
     ol_refunded = 0\<rparr>"

definition paid_payment :: payment_row where
  "paid_payment = \<lparr>pm_id = 42, pm_connectionId = 11, pm_checkoutId = 30, pm_orderId = Some 40, pm_provider = ''p'',
     pm_providerPaymentId = Some ''q'', pm_providerChargeId = Some ''h'', pm_redirectUrl = None,
     pm_status = PAY_CAPTURED, pm_currency = ''USD'', pm_amount = 600, pm_capturedAmount = 600, pm_refunded = 0,
     pm_idempotencyKey = ''k'', pm_failureCode = None, pm_failureMessage = None, pm_expiresAt = 99,
     pm_capturedAt = Some 1\<rparr>"

definition paid_sales :: sales where
  "paid_sales = \<lparr>sl_shop = sample_shop\<lparr>sh_payments := [paid_payment],
       sh_orders := \<lparr>ot_orders = [paid_order], ot_lines = [paid_line], ot_taxes = [], ot_shipping = [],
         ot_discounts = [], ot_addresses = []\<rparr>, sh_stock := sample_shelf\<lparr>sd_next := 60\<rparr>\<rparr>,
     sl_refunds = [], sl_refundLines = [], sl_fulfilments = [], sl_fulfilmentLines = [], sl_audit = []\<rparr>"

definition owner_of_store :: store_context where
  "owner_of_store = \<lparr>oc_principal = \<lparr>pp_userId = 2, pp_email = ''o'', pp_emailVerified = True,
       pp_recentlyAuthenticated = True\<rparr>, oc_membershipId = 1, oc_role = ROLE_OWNER,
     oc_permissions = set (ROLE_GRANTS ROLE_OWNER), oc_allStores = True, sc_storeStatus = STORE_ACTIVE\<rparr>"

definition answer_with :: "refund_answer \<Rightarrow> order_env" where
  "answer_with answer = \<lparr>oe_checkout = sample_env, oe_format = (\<lambda>a c. show_int a @ c), oe_refund = (\<lambda>_ _. answer)\<rparr>"

definition one_unit_back :: refund_input where
  "one_unit_back = \<lparr>ri_amount = ''3.00'', ri_reason = None,
     ri_lines = [\<lparr>le_lineId = Some 41, le_quantity = Some 1, le_restock = True\<rparr>], ri_locationId = Some 7,
     ri_paymentId = OMITTED\<rparr>"

definition accepted_answer :: refund_answer where
  "accepted_answer = ANSWERED \<lparr>rr_providerRefundId = None, rr_status = RC_SUCCEEDED, rr_failureMessage = None\<rparr>"

lemma paid_sales_ok: "refunds_ok paid_sales"
  by code_simp

lemma one_unit_refunded:
  "snd (refundOrder (answer_with accepted_answer) owner_of_store 40 one_unit_back paid_sales) =
     Inr \<lparr>ro_refundId = 60, ro_status = RF_SUCCEEDED, ro_message = None\<rparr>"
  by code_simp

subsection \<open>The books over any run\<close>

text \<open>
  C5: refunds stay within what was captured and ordered. Over any sequence of the merchant's
  transactions on orders (fulfilments, cancellations, refunds requested, settled or resolved late,
  edits, completions, deletions of demo orders), the money a payment returned and what its pending
  refunds may still return never exceed what it captured; the units refunded or in a pending refund
  never exceed the units ordered, and those put back on sale never exceed those that left; and an
  order's payment status is the one its refunded amount stands for. \<open>refunds_ok\<close> adds that each
  counter is the sum of the refunds behind it and that an order shows what its first payment returned.
\<close>

theorem refunds_stay_within_captures:
  assumes "refunds_ok s" "order_step\<^sup>*\<^sup>* s t"
  shows "refunds_ok t \<and>
    (\<forall>p \<in> set (sh_payments (sl_shop t)). \<forall>i. pm_orderId p = Some i \<longrightarrow>
       pm_refunded p + pending_amount t (pm_id p) \<le> pm_capturedAmount p) \<and>
    (\<forall>l \<in> set (lines_of t). ol_refunded l + refund_units t (ol_orderId l) [RF_PENDING] (ol_id l) \<le> ol_quantity l \<and>
       restock_units t (ol_orderId l) (ol_id l) \<le> ol_fulfilled l) \<and>
    (\<forall>x \<in> set (orders_of t). or_paymentStatus x = orderPaymentStatus (or_total x) (or_refunded x))"
  using order_steps_ok[OF assms(2,1)]
  by (auto simp: refunds_ok_def payment_books_def line_books_def order_books_def)

theorem refunds_stay_within_captures_witness:
  "refunds_ok (fst (refundOrder (answer_with accepted_answer) owner_of_store 40 one_unit_back paid_sales)) \<and>
   map pm_refunded (sh_payments (sl_shop (fst (refundOrder (answer_with accepted_answer) owner_of_store 40 one_unit_back paid_sales)))) = [300]"
proof -
  obtain t r where t: "refundOrder (answer_with accepted_answer) owner_of_store 40 one_unit_back paid_sales = (t, r)"
    by (rule prod.exhaust)
  have "map pm_refunded (sh_payments (sl_shop (fst (refundOrder (answer_with accepted_answer) owner_of_store 40 one_unit_back paid_sales)))) = [300]"
    by code_simp
  with refunds_stay_within_captures[OF paid_sales_ok refundOrder_run[OF t]] t show ?thesis by simp
qed

subsection \<open>A pending refund can be settled\<close>

lemma amount_in_nonneg: "refund_keys s \<Longrightarrow> 0 \<le> amount_in s st i"
  unfolding amount_in_def by (rule sum_list_nonneg) (auto dest: refund_keysD(5) less_imp_le)

lemma pending_covers:
  assumes "r \<in> set (sl_refunds s)" "rf_status r = RF_PENDING" "refund_keys s"
  shows "rf_amount r \<le> pending_amount s (rf_paymentId r)"
proof -
  have "rf_amount r = (if rf_paymentId r = rf_paymentId r \<and> rf_status r = RF_PENDING then rf_amount r else 0)"
    using assms(2) by simp
  also have "\<dots> \<le> amount_in s RF_PENDING (rf_paymentId r)"
    unfolding amount_in_def using assms(1,3)
    by (intro member_le_sum_list) (auto dest: refund_keysD(5) less_imp_le)
  finally show ?thesis by (simp add: pending_amount_in)
qed

lemma refund_sum_le:
  assumes "r \<in> set (sl_refunds s)" "rf_status r = RF_PENDING" "refund_keys s"
  shows "refund_sum s Q (rf_id r) k \<le> units_in s Q (rf_orderId r) [RF_PENDING] k"
  unfolding refund_sum_def units_in_def
proof (rule sum_mono_int)
  fix rl assume rl: "rl \<in> set (sl_refundLines s)"
  have "in_refund s (rf_orderId r) [RF_PENDING] rl" if "rl_refundId rl = rf_id r"
    using assms(1,2) that by (auto simp: in_refund_def list_ex_iff)
  with refund_keysD(8)[OF assms(3) rl]
  show "(if rl_refundId rl = rf_id r \<and> rl_lineId rl = k \<and> Q rl then rl_quantity rl else 0) \<le>
      (if rl_lineId rl = k \<and> Q rl \<and> in_refund s (rf_orderId r) [RF_PENDING] rl then rl_quantity rl else 0)" by auto
qed

lemma one_row:
  assumes "distinct (map key rows)" "r \<in> set rows" "P r" "\<And>q. P q \<Longrightarrow> key q = key r"
  shows "length (filter P rows) = 1"
  using assms
proof (induction rows)
  case (Cons q rows)
  show ?case
  proof (cases "q = r")
    case True
    have "\<not> P x" if "x \<in> set rows" for x
    proof
      assume "P x"
      from Cons.prems(4)[OF this] that Cons.prems(1) True show False by (auto simp: image_iff)
    qed
    then have "filter P rows = []" by (simp add: filter_empty_conv)
    with True Cons.prems(3) show ?thesis by simp
  next
    case False
    then have r: "r \<in> set rows" using Cons.prems(2) by simp
    have "\<not> P q"
    proof
      assume "P q"
      from Cons.prems(4)[OF this] r Cons.prems(1) show False by (auto simp: image_iff)
    qed
    with Cons.IH[OF _ r Cons.prems(3,4)] Cons.prems(1) show ?thesis by simp
  qed
qed simp

definition items_fit :: "sales \<Rightarrow> (refund_line_row \<times> uuid option) list \<Rightarrow> bool" where
  "items_fit s items \<longleftrightarrow> distinct (map ol_id (lines_of s)) \<and>
     (\<forall>x \<in> set items. 0 \<le> rl_quantity (fst x) \<and> (\<exists>l \<in> set (lines_of s). ol_id l = rl_lineId (fst x))) \<and>
     (\<forall>l \<in> set (lines_of s). ol_refunded l + sum_list (map (\<lambda>x. if rl_lineId (fst x) = ol_id l then rl_quantity (fst x) else 0) items)
        \<le> ol_quantity l)"

lemma count_refunded_fits:
  assumes "items_fit s (x # items)"
  shows "\<exists>t. count_refunded s x = Inr t \<and> items_fit t items"
proof -
  obtain l where l: "l \<in> set (lines_of s)" "ol_id l = rl_lineId (fst x)" and d: "distinct (map ol_id (lines_of s))"
    using assms by (auto simp: items_fit_def)
  have "0 \<le> sum_list (map (\<lambda>x. if rl_lineId (fst x) = ol_id l then rl_quantity (fst x) else 0) items)"
    using assms by (intro sum_list_nonneg) (auto simp: items_fit_def)
  with assms l have "ol_refunded l + rl_quantity (fst x) \<le> ol_quantity l" by (fastforce simp: items_fit_def)
  then have "length (filter (\<lambda>ol. ol_id ol = rl_lineId (fst x) \<and> ol_refunded ol + rl_quantity (fst x) \<le> ol_quantity ol) (lines_of s)) = 1"
    using l by (intro one_row[OF d l(1)]) auto
  then obtain t where t: "count_refunded s x = Inr t" by (simp add: count_refunded_def Let_def)
  note c = count_refunded_Inr[OF t d]
  have "items_fit t items"
    using assms by (auto simp: items_fit_def c(1) comp_def image_iff)
  with t show ?thesis by blast
qed

lemma move_money_works:
  assumes ok: "refunds_ok s" and r: "r \<in> set (sl_refunds s)" "rf_status r = RF_PENDING"
  shows "\<exists>t. move_money (rf_paymentId r) (rf_amount r) s = Inr t"
proof -
  note keys = refunds_okD(1)[OF ok]
  obtain p where p: "p \<in> set (payments_of s)" "pm_id p = rf_paymentId r" "pm_orderId p = Some (rf_orderId r)"
    using refund_keysD(7)[OF keys r(1)] by auto
  have "pm_refunded p + rf_amount r \<le> pm_capturedAmount p"
    using refunds_okD(2)[OF ok p(1)] p(2,3) pending_covers[OF r keys] by (simp add: payment_books_def)
  then have "length (filter (\<lambda>q. pm_id q = rf_paymentId r \<and> pm_refunded q + rf_amount r \<le> pm_capturedAmount q) (payments_of s)) = 1"
    using p(2) by (intro one_row[OF refund_keysD(3)[OF keys] p(1)]) auto
  then show ?thesis by (simp add: move_money_def Let_def)
qed

lemma order_refunded_works:
  assumes ok: "refunds_ok s" and r: "r \<in> set (sl_refunds s)" "rf_status r = RF_PENDING"
    and x: "x \<in> set (orders_of s)" "or_id x = rf_orderId r" and prim: "is_primary s (rf_orderId r) (rf_paymentId r)"
  shows "\<exists>t. order_refunded x (rf_amount r) u = Inr t"
proof -
  note keys = refunds_okD(1)[OF ok]
  obtain p ps where c: "captured_payments s (rf_orderId r) = p # ps" and p: "pm_id p = rf_paymentId r"
    using prim by (auto simp: is_primary_def split: list.splits)
  then have "p \<in> set (captured_payments s (rf_orderId r))" by simp
  then have pin: "p \<in> set (payments_of s)" "pm_orderId p = Some (rf_orderId r)" by (auto simp: captured_payments_in)
  have b: "or_refunded x = pm_refunded p" "pm_capturedAmount p = or_total x"
    using refunds_okD(3)[OF ok x(1)] x(2) c by (auto simp: order_books_def)
  have pb: "payment_books s p" using refunds_okD(2)[OF ok pin(1)] pin(2) by simp
  have "0 \<le> pm_refunded p" "pm_refunded p + rf_amount r \<le> pm_capturedAmount p" "0 < rf_amount r"
    using pb amount_in_nonneg[OF keys] pending_covers[OF r keys] p refund_keysD(5)[OF keys r(1)] by (auto simp: payment_books_def)
  then show ?thesis using b by (simp add: order_refunded_def Let_def)
qed

lemma items_fit_pending:
  assumes ok: "refunds_ok s" and r: "r \<in> set (sl_refunds s)" "rf_status r = RF_PENDING"
    and u: "lines_of u = lines_of s" "sl_refundLines u = sl_refundLines s"
  shows "items_fit u (refund_items u (rf_id r))"
proof -
  note keys = refunds_okD(1)[OF ok]
  have fst: "map fst (refund_items u (rf_id r)) = filter (\<lambda>rl. rl_refundId rl = rf_id r) (sl_refundLines s)"
    using refund_items_cong[OF u] refund_items_fst[OF keys] by simp
  have sum: "sum_list (map (\<lambda>x. if rl_lineId (fst x) = k then rl_quantity (fst x) else 0) (refund_items u (rf_id r))) =
      refund_sum s (\<lambda>_. True) (rf_id r) k" for k
  proof -
    have "sum_list (map (\<lambda>rl. if rl_lineId rl = k then rl_quantity rl else 0) (map fst (refund_items u (rf_id r)))) =
        sum_list (map (\<lambda>rl. if rl_lineId rl = k then rl_quantity rl else 0) (map fst (refund_items s (rf_id r))))"
      by (simp only: refund_items_cong[OF u])
    with refund_items_sum[OF keys, of k "rf_id r"] show ?thesis by (simp add: comp_def)
  qed
  have "fst x \<in> set (sl_refundLines s)" if "x \<in> set (refund_items u (rf_id r))" for x
  proof -
    have "fst x \<in> set (map fst (refund_items u (rf_id r)))" using that by simp
    then show ?thesis unfolding fst by simp
  qed
  then have "0 \<le> rl_quantity (fst x) \<and> (\<exists>l \<in> set (lines_of s). ol_id l = rl_lineId (fst x))"
    if "x \<in> set (refund_items u (rf_id r))" for x
    using refund_keysD(8,9)[OF keys, of "fst x"] that by blast
  moreover have "ol_refunded l + refund_sum s (\<lambda>_. True) (rf_id r) (ol_id l) \<le> ol_quantity l" if l: "l \<in> set (lines_of s)" for l
  proof (cases "ol_orderId l = rf_orderId r")
    case True
    with refunds_okD(4)[OF ok l] refund_sum_le[OF r keys, of "\<lambda>_. True" "ol_id l"] show ?thesis
      by (simp add: line_books_def refund_units_in)
  next
    case False
    have "0 \<le> refund_units s (ol_orderId l) [RF_PENDING] (ol_id l)"
      unfolding refund_units_in units_in_def by (rule sum_list_nonneg) (auto dest: refund_keysD(8)[OF keys])
    with refunds_okD(4)[OF ok l] refund_sum_order[OF keys r(1) l False] show ?thesis by (simp add: line_books_def)
  qed
  ultimately show ?thesis using refund_keysD(2)[OF keys] by (simp add: items_fit_def u sum)
qed

lemma refund_items_same:
  assumes "lines_of t = lines_of s" "sl_refundLines t = sl_refundLines s" "sh_stock (sl_shop t) = sh_stock (sl_shop s)"
  shows "refund_items t = refund_items s"
  unfolding refund_items_def assms ..

lemma counted_stock: "count_refunded s x = Inr t \<Longrightarrow> sh_stock (sl_shop t) = sh_stock (sl_shop s)"
  by (auto simp: count_refunded_def Let_def set_lines_def on_shop_def split: if_splits)

lemma accepted_succeeds:
  assumes ok: "refunds_ok s" and r: "r \<in> set (sl_refunds s)" "rf_status r = RF_PENDING"
    and st: "restockStock (rf_orderId r) (restock_moves (refund_items s (rf_id r))) (Some actor) (sh_stock (sl_shop s)) = Inr db"
  shows "\<exists>t. settle_accepted env actor (rf_orderId r) r i s = Inr (t, \<lparr>ro_refundId = rf_id r, ro_status = RF_SUCCEEDED, ro_message = None\<rparr>)"
proof -
  note keys = refunds_okD(1)[OF ok]
  let ?set = "set_refunds (\<lambda>q. rf_id q = rf_id r) (\<lambda>q. q\<lparr>rf_status := RF_SUCCEEDED, rf_providerRefundId := i, rf_failureMessage := None\<rparr>)"
  obtain x where l: "lockOrder (rf_orderId r) s = Inr x"
    using refund_keysD(6)[OF keys r(1)] by (cases "find (\<lambda>x. or_id x = rf_orderId r) (orders_of s)")
      (auto simp: lockOrder_def fromSome_eq find_None_iff)
  note x = lockOrder_Inr[OF l]
  obtain s1 where m: "move_money (rf_paymentId r) (rf_amount r) s = Inr s1" using move_money_works[OF ok r] by blast
  note m' = move_money_rows[OF m refund_keysD(3)[OF keys]]
  obtain s3 where o3: "(if is_primary s (rf_orderId r) (rf_paymentId r) then order_refunded x (rf_amount r) (?set s1) else Inr (?set s1)) = Inr s3"
    using order_refunded_works[OF ok r] x by (cases "is_primary s (rf_orderId r) (rf_paymentId r)") auto
  note o3' = order_refunded_rows[OF o3]
  have stock3: "sh_stock (sl_shop s3) = sh_stock (sl_shop s)"
    using o3 by (auto simp: move_money_Inr[OF m refund_keysD(3)[OF keys]] order_refunded_def Let_def set_orders_def on_shop_def
        set_payments_def split: if_splits)
  have items: "refund_items s3 = refund_items s" using o3' m' stock3 by (intro refund_items_same) simp_all
  have "items_fit s3 (refund_items s3 (rf_id r))" using o3' m' by (intro items_fit_pending[OF ok r]) simp_all
  then obtain s4 where c: "foldR count_refunded s3 (refund_items s3 (rf_id r)) = Inr s4"
    using foldR_succeeds[where P = items_fit and f = count_refunded] count_refunded_fits by blast
  have stock4: "sh_stock (sl_shop s4) = sh_stock (sl_shop s)"
    using c by (rule foldR_invariant[where P = "\<lambda>v. sh_stock (sl_shop v) = sh_stock (sl_shop s)"]) (simp_all add: stock3 counted_stock)
  have "in_stock (restockStock (rf_orderId r) (restock_moves (refund_items s3 (rf_id r))) (Some actor)) s4 =
      Inr (on_shop (\<lambda>t. t\<lparr>sh_stock := db\<rparr>) s4)"
    using st by (simp add: in_stock_Inr items stock4)
  with l m o3 c show ?thesis by (simp add: settle_accepted_def Let_def bindR_eq_Inr)
qed

text \<open>
  C10: a pending refund can always be settled. Whatever happened since it was requested, the guarded
  updates of the settlement (the captured amount, the range of the order's refunded total, the units
  ordered) let a provider's success through, as long as the stock takes the units that come back.
\<close>

theorem pending_refund_settles:
  assumes "refunds_ok s" "r \<in> set (sl_refunds s)" "rf_status r = RF_PENDING" "rr_status answer \<noteq> RC_FAILED"
    "restockStock (rf_orderId r) (restock_moves (refund_items s (rf_id r))) (Some (oc_userId ctx)) (sh_stock (sl_shop s)) = Inr db"
  shows "\<exists>t. settleRefund env ctx (rf_orderId r) (rf_id r) (Some answer) why s =
      Inr (t, \<lparr>ro_refundId = rf_id r, ro_status = RF_SUCCEEDED, ro_message = None\<rparr>) \<and> refunds_ok t"
proof -
  have "find (\<lambda>q. rf_id q = rf_id r \<and> rf_orderId q = rf_orderId r) (sl_refunds s) = Some r"
  proof (cases "find (\<lambda>q. rf_id q = rf_id r \<and> rf_orderId q = rf_orderId r) (sl_refunds s)")
    case None
    with assms(2) show ?thesis by (auto simp: find_None_iff)
  next
    case (Some q)
    then have "q \<in> set (sl_refunds s)" "rf_id q = rf_id r" by (auto dest: find_Some_iff2 simp: find_Some_iff)
    with Some row_unique[OF refund_keysD(4)[OF refunds_okD(1)[OF assms(1)]] _ assms(2)] show ?thesis by simp
  qed
  moreover obtain t where "settle_accepted env (oc_userId ctx) (rf_orderId r) r (rr_providerRefundId answer) s =
      Inr (t, \<lparr>ro_refundId = rf_id r, ro_status = RF_SUCCEEDED, ro_message = None\<rparr>)"
    using accepted_succeeds[OF assms(1-3,5)] by blast
  ultimately have "settleRefund env ctx (rf_orderId r) (rf_id r) (Some answer) why s =
      Inr (t, \<lparr>ro_refundId = rf_id r, ro_status = RF_SUCCEEDED, ro_message = None\<rparr>)"
    using assms(3,4) by (simp add: settleRefund_def)
  with settle_ok[OF assms(1) this] show ?thesis by blast
qed

definition pending_sales :: sales where
  "pending_sales = fst (refundOrder (answer_with UNCONFIRMED) owner_of_store 40 one_unit_back paid_sales)"

lemma pending_sales_ok: "refunds_ok pending_sales"
  unfolding pending_sales_def
  by (rule order_steps_ok[OF _ paid_sales_ok]) (rule refundOrder_run[OF surjective_pairing])

lemma pending_sales_refund: "map (\<lambda>r. (rf_id r, rf_orderId r, rf_status r)) (sl_refunds pending_sales) = [(60, 40, RF_PENDING)]"
  by code_simp

theorem pending_refund_settles_witness:
  "\<exists>t. settleRefund (answer_with UNCONFIRMED) owner_of_store 40 60
     (Some \<lparr>rr_providerRefundId = None, rr_status = RC_SUCCEEDED, rr_failureMessage = None\<rparr>) None pending_sales =
      Inr (t, \<lparr>ro_refundId = 60, ro_status = RF_SUCCEEDED, ro_message = None\<rparr>) \<and> refunds_ok t"
proof -
  obtain r where r: "sl_refunds pending_sales = [r]" "rf_id r = 60" "rf_orderId r = 40" "rf_status r = RF_PENDING"
    using pending_sales_refund by auto
  have "case restockStock 40 (restock_moves (refund_items pending_sales 60)) (Some (oc_userId owner_of_store))
    (sh_stock (sl_shop pending_sales)) of Inl e \<Rightarrow> False | Inr db \<Rightarrow> True" by code_simp
  then obtain db where "restockStock (rf_orderId r) (restock_moves (refund_items pending_sales (rf_id r)))
      (Some (oc_userId owner_of_store)) (sh_stock (sl_shop pending_sales)) = Inr db"
    by (auto simp: r split: sum.splits)
  from pending_refund_settles[OF pending_sales_ok _ r(4) _ this] r show ?thesis by simp
qed

subsection \<open>A late answer\<close>

lemma on_shop_set_refunds: "on_shop f (set_refunds sel g s) = set_refunds sel g (on_shop f s)"
  by (simp add: on_shop_def set_refunds_def)

lemma update_rows_twice:
  assumes "\<And>r. sel (f r) \<longleftrightarrow> sel r" "\<And>r. g (f r) = g r"
  shows "update_rows sel g (update_rows sel f rows) = update_rows sel g rows"
  by (induction rows) (auto simp: update_rows_def assms)

lemma found_in_update:
  assumes "\<And>r. sel r \<Longrightarrow> P (f r) \<longleftrightarrow> P r" "find P rows = Some r"
  shows "find P (update_rows sel f rows) = Some (if sel r then f r else r)"
  using assms(2) by (induction rows) (auto simp: update_rows_def assms(1) split: if_splits)

lemma move_money_set_refunds:
  "move_money i a (set_refunds sel f s) = bindR (move_money i a s) (\<lambda>t. Inr (set_refunds sel f t))"
  by (simp add: move_money_def Let_def on_shop_set_refunds)

lemma settle_accepted_message:
  "settle_accepted env actor o' (r\<lparr>rf_failureMessage := n\<rparr>) i
     (set_refunds (\<lambda>q. rf_id q = rf_id r) (\<lambda>q. q\<lparr>rf_failureMessage := n\<rparr>) s) = settle_accepted env actor o' r i s"
proof -
  let ?m = "set_refunds (\<lambda>q. rf_id q = rf_id r) (\<lambda>q. q\<lparr>rf_failureMessage := n\<rparr>)"
  let ?g = "\<lambda>q. q\<lparr>rf_status := RF_SUCCEEDED, rf_providerRefundId := i, rf_failureMessage := None\<rparr>"
  have "set_refunds (\<lambda>q. rf_id q = rf_id r) ?g (?m t) = set_refunds (\<lambda>q. rf_id q = rf_id r) ?g t" for t
    by (simp add: set_refunds_def update_rows_twice)
  moreover have "lockOrder o' (?m s) = lockOrder o' s" "is_primary (?m s) = is_primary s"
    using captured_payments_cong[of "?m s" s] by (simp_all add: lockOrder_def is_primary_def fun_eq_iff)
  ultimately show ?thesis
    unfolding settle_accepted_def
    by (cases "move_money (rf_paymentId r) (rf_amount r) s") (simp_all add: move_money_set_refunds Let_def cong: if_cong)
qed

lemma provider_only:
  "request_body (env\<lparr>oe_refund := f\<rparr>) = request_body env" "settleRefund (env\<lparr>oe_refund := f\<rparr>) = settleRefund env"
proof -
  have fmt: "oe_format (env\<lparr>oe_refund := f\<rparr>) = oe_format env" by simp
  have checks: "refundable (env\<lparr>oe_refund := f\<rparr>) = refundable env" unfolding refundable_def fmt ..
  show "request_body (env\<lparr>oe_refund := f\<rparr>) = request_body env" unfolding request_body_def fmt checks ..
  have settles: "settle_accepted (env\<lparr>oe_refund := f\<rparr>) = settle_accepted env" unfolding settle_accepted_def fmt ..
  show "settleRefund (env\<lparr>oe_refund := f\<rparr>) = settleRefund env" unfolding settleRefund_def settles ..
qed

definition plain_success :: refund_result where
  "plain_success = \<lparr>rr_providerRefundId = None, rr_status = RC_SUCCEEDED, rr_failureMessage = None\<rparr>"

text \<open>What an unconfirmed call leaves: the pending refund, with a note for the staff.\<close>

lemma refund_call_answers:
  assumes "fst (refund_call_result (env\<lparr>oe_refund := \<lambda>_ _. UNCONFIRMED\<rparr>) c) = None"
  obtains why where "refund_call_result (env\<lparr>oe_refund := \<lambda>_ _. UNCONFIRMED\<rparr>) c = (None, Some why)" "why \<noteq> []"
    "refund_call_result (env\<lparr>oe_refund := \<lambda>_ _. ANSWERED a\<rparr>) c = (Some a, None)"
  using assms by (auto simp: refund_call_result_def split: option.splits if_splits intro: that)

lemma unconfirmed_refund:
  assumes run: "refundOrder (env\<lparr>oe_refund := \<lambda>_ _. UNCONFIRMED\<rparr>) ctx orderId input s = (u, Inr pending)"
    and pending: "ro_status pending = RF_PENDING"
  obtains s1 c f why where "bindR (requirePermission ctx ORDER_REFUND) (\<lambda>_. requireWritableStore ctx) = Inr ()"
    "refundOrder (env\<lparr>oe_refund := \<lambda>_ _. ANSWERED a\<rparr>) ctx orderId input s =
       transaction (settleRefund env ctx orderId (rf_id f) (Some a) None) s1"
    "f \<in> set (sl_refunds s1)" "rf_status f = RF_PENDING" "rf_orderId f = orderId" "rf_id f = ro_refundId pending"
    "find (\<lambda>q. rf_id q = rf_id f \<and> rf_orderId q = orderId) (sl_refunds s1) = Some f"
    "u = set_refunds (\<lambda>q. rf_id q = rf_id f) (\<lambda>q. q\<lparr>rf_failureMessage := Some why\<rparr>) s1"
proof -
  let ?U = "env\<lparr>oe_refund := \<lambda>_ _. UNCONFIRMED\<rparr>" and ?A = "env\<lparr>oe_refund := \<lambda>_ _. ANSWERED a\<rparr>"
  obtain reason where gates: "bindR (text_field (ri_reason input) 500 ''reason'') (\<lambda>reason.
           bindR (requirePermission ctx ORDER_REFUND) (\<lambda>_.
           bindR (requireRecentAuthentication ctx ''refunding a payment'') (\<lambda>_.
           bindR (requireWritableStore ctx) (\<lambda>_. Inr reason)))) = Inr reason"
    using run by (auto simp: refundOrder_def split: sum.splits)
  obtain s1 c where q: "transaction (request_body env ctx orderId reason input) s = (s1, Inr c)"
    and st: "case refund_call_result ?U c of (result, note) \<Rightarrow>
      transaction (settleRefund env ctx orderId (rq_refundId c) result note) s1 = (u, Inr pending)"
    using run unfolding refundOrder_def gates sum.case provider_only
    by (auto split: prod.splits sum.splits)
  have "fst (refund_call_result ?U c) = None \<or> (\<exists>m. fst (refund_call_result ?U c) = Some (failed_result m))"
    by (auto simp: refund_call_result_def split: option.splits)
  moreover have "fst (refund_call_result ?U c) \<noteq> Some (failed_result m)" for m
    using st pending
    by (auto simp: transaction_def settleRefund_def failed_result_def Let_def split: prod.splits sum.splits option.splits if_splits)
  ultimately have "fst (refund_call_result ?U c) = None" by blast
  then obtain why where U: "refund_call_result ?U c = (None, Some why)" "why \<noteq> []"
    and A: "refund_call_result ?A c = (Some a, None)" by (rule refund_call_answers)
  have "settleRefund env ctx orderId (rq_refundId c) None (Some why) s1 = Inr (u, pending)"
    using st U by (auto simp: transaction_def split: sum.splits)
  then obtain f where f: "find (\<lambda>q. rf_id q = rq_refundId c \<and> rf_orderId q = orderId) (sl_refunds s1) = Some f"
      "rf_status f = RF_PENDING" "ro_refundId pending = rq_refundId c"
      "u = set_refunds (\<lambda>q. rf_id q = rq_refundId c) (\<lambda>q. q\<lparr>rf_failureMessage := Some why\<rparr>) s1"
    using U(2) pending by (auto simp: settleRefund_def split: option.splits if_splits)
  then have fi: "f \<in> set (sl_refunds s1)" "rf_id f = rq_refundId c" "rf_orderId f = orderId" by (auto simp: find_Some_iff)
  have prompt: "refundOrder ?A ctx orderId input s = transaction (settleRefund env ctx orderId (rq_refundId c) (Some a) None) s1"
    unfolding refundOrder_def gates sum.case provider_only q prod.case A ..
  have "bindR (requirePermission ctx ORDER_REFUND) (\<lambda>_. requireWritableStore ctx) = Inr ()"
    using gates by (auto simp: bindR_eq_Inr)
  then show thesis
    by (rule that[where why = why]) (use f[folded fi(2)] fi(1,3) prompt[folded fi(2)] in \<open>simp_all only:\<close>)
qed

text \<open>The provider's identifier of a refund only goes into its row: nothing else of the settlement reads it.\<close>

definition forget_id :: "uuid \<Rightarrow> sales \<Rightarrow> sales" where
  "forget_id i = set_refunds (\<lambda>q. rf_id q = i) (\<lambda>q. q\<lparr>rf_providerRefundId := None\<rparr>)"

lemma forget_id_reads [simp]:
  "sl_shop (forget_id i s) = sl_shop s" "sl_refundLines (forget_id i s) = sl_refundLines s"
  "on_shop f (forget_id i s) = forget_id i (on_shop f s)" "lines_of (forget_id i s) = lines_of s"
  by (simp_all add: forget_id_def set_refunds_def on_shop_def lines_of_def)

lemma forget_id_items [simp]: "refund_items (forget_id i s) = refund_items s"
  unfolding refund_items_def forget_id_reads ..

lemma forget_id_commutes:
  "order_refunded order a (forget_id i s) = bindR (order_refunded order a s) (\<lambda>t. Inr (forget_id i t))"
  "count_refunded (forget_id i s) l = bindR (count_refunded s l) (\<lambda>t. Inr (forget_id i t))"
  "in_stock f (forget_id i s) = bindR (in_stock f s) (\<lambda>t. Inr (forget_id i t))"
  by (simp_all add: order_refunded_def count_refunded_def set_orders_def set_lines_def in_stock_def Let_def bindR_def
      split: sum.splits)

lemma forget_id_count: "foldR count_refunded (forget_id i s) ls = bindR (foldR count_refunded s ls) (\<lambda>t. Inr (forget_id i t))"
  by (induction ls arbitrary: s) (auto simp: forget_id_commutes bindR_def split: sum.splits)

lemma settle_accepted_forgets:
  "settle_accepted env actor o' r None s =
     bindR (settle_accepted env actor o' r i s) (\<lambda>(t, x). Inr (forget_id (rf_id r) t, x))"
proof -
  let ?g = "\<lambda>n. set_refunds (\<lambda>q. rf_id q = rf_id r) (\<lambda>q. q\<lparr>rf_status := RF_SUCCEEDED, rf_providerRefundId := n, rf_failureMessage := None\<rparr>)"
  have g: "?g None t = forget_id (rf_id r) (?g i t)" for t
    by (simp add: forget_id_def set_refunds_def update_rows_def)
  have start: "(if b then order_refunded ord a (forget_id k t) else Inr (forget_id k t)) =
      bindR (if b then order_refunded ord a t else Inr t) (\<lambda>u. Inr (forget_id k u))" for b ord a k t
    by (simp add: forget_id_commutes)
  show ?thesis
    unfolding settle_accepted_def Let_def g start
    by (cases "lockOrder o' s") (auto simp: bindR_def forget_id_count forget_id_commutes split: sum.splits)
qed

text \<open>
  C17: a late answer is the prompt answer. Take a refund whose provider call was not confirmed and that
  staff then mark as refunded, and the same refund when the provider answered the call at once with anything
  but a failure. The outcome is the same, and so is the state, but for two things: the refund's row does not
  have the identifier the provider's answer carried (\<open>forget_id\<close>), and the resolution has an audit entry.
  When the stock refuses the units, both fail with the same error.
\<close>

theorem late_answer_is_the_prompt_answer:
  assumes "refundOrder (env\<lparr>oe_refund := \<lambda>_ _. UNCONFIRMED\<rparr>) ctx orderId input s = (u, Inr pending)"
    "ro_status pending = RF_PENDING" "rr_status answer \<noteq> RC_FAILED"
    "refundOrder (env\<lparr>oe_refund := \<lambda>_ _. ANSWERED answer\<rparr>) ctx orderId input s = (t, r)"
    "resolvePendingRefund env ctx orderId (ro_refundId pending) True u = (t', r')"
  shows "r' = r \<and> (case r of Inl e \<Rightarrow> t' = u
    | Inr settled \<Rightarrow> t' = recordAudit ctx ''order.refund.resolved'' (''Refund'', ro_refundId pending)
        [(''status'', ''SUCCEEDED'')] (forget_id (ro_refundId pending) t))"
proof -
  obtain s1 c f why where gate: "bindR (requirePermission ctx ORDER_REFUND) (\<lambda>_. requireWritableStore ctx) = Inr ()"
    and p: "refundOrder (env\<lparr>oe_refund := \<lambda>_ _. ANSWERED answer\<rparr>) ctx orderId input s =
       transaction (settleRefund env ctx orderId (rf_id f) (Some answer) None) s1"
    and f: "f \<in> set (sl_refunds s1)" "rf_status f = RF_PENDING" "rf_orderId f = orderId" "rf_id f = ro_refundId pending"
      "find (\<lambda>q. rf_id q = rf_id f \<and> rf_orderId q = orderId) (sl_refunds s1) = Some f"
    and u: "u = set_refunds (\<lambda>q. rf_id q = rf_id f) (\<lambda>q. q\<lparr>rf_failureMessage := Some why\<rparr>) s1"
    by (rule unconfirmed_refund[OF assms(1,2)])
  let ?go = "settle_accepted env (oc_userId ctx) orderId f (rr_providerRefundId answer) s1"
  have "find (\<lambda>q. rf_id q = rf_id f \<and> rf_orderId q = orderId) (sl_refunds u) = Some (f\<lparr>rf_failureMessage := Some why\<rparr>)"
    unfolding u set_refunds_rows by (subst found_in_update[OF _ f(5)]) simp_all
  then have late: "settleRefund env ctx orderId (rf_id f) (Some plain_success) None u =
      bindR ?go (\<lambda>(t, x). Inr (forget_id (rf_id f) t, x))"
    using f(2) settle_accepted_message[where r = f and n = "Some why" and s = s1 and i = None]
      settle_accepted_forgets[where r = f and i = "rr_providerRefundId answer" and s = s1]
    by (simp add: settleRefund_def plain_success_def u)
  have t: "(t, r) = transaction (\<lambda>v. ?go) s1"
    using assms(3,4) p f by (simp add: settleRefund_def transaction_def)
  have t': "(t', r') = transaction (resolve_body env ctx orderId (rf_id f) True) u"
    using assms(5) gate f(4) by (simp add: resolvePendingRefund_def inStore_def)
  have body: "resolve_body env ctx orderId (rf_id f) True u =
      bindR (bindR ?go (\<lambda>(t, x). Inr (forget_id (rf_id f) t, x))) (\<lambda>(s1, settled).
        Inr (recordAudit ctx ''order.refund.resolved'' (''Refund'', rf_id f)
       [(''status'', case ro_status settled of RF_PENDING \<Rightarrow> ''PENDING'' | RF_SUCCEEDED \<Rightarrow> ''SUCCEEDED''
          | RF_FAILED \<Rightarrow> ''FAILED'')] s1, settled))"
    unfolding resolve_body_def plain_success_def[symmetric] if_True late ..
  show ?thesis
  proof (cases ?go)
    case (Inl e)
    with t t' body show ?thesis by (simp add: transaction_def)
  next
    case (Inr v)
    then have "ro_status (snd v) = RF_SUCCEEDED" by (cases v) (auto elim: settle_accepted_steps)
    with t t' body Inr f(4) show ?thesis by (cases v) (simp add: transaction_def)
  qed
qed

lemma answer_with_update: "(answer_with a)\<lparr>oe_refund := \<lambda>_ _. b\<rparr> = answer_with b"
  by (simp add: answer_with_def)

text \<open>The same refund, confirmed at once with an identifier of the provider.\<close>

definition confirmed_answer :: refund_result where
  "confirmed_answer = \<lparr>rr_providerRefundId = Some ''rfnd_1'', rr_status = RC_SUCCEEDED, rr_failureMessage = None\<rparr>"

theorem late_answer_is_the_prompt_answer_witness:
  "snd (resolvePendingRefund (answer_with UNCONFIRMED) owner_of_store 40 60 True pending_sales) =
     snd (refundOrder (answer_with (ANSWERED confirmed_answer)) owner_of_store 40 one_unit_back paid_sales)"
proof -
  have "map_sum id (\<lambda>x. (ro_refundId x, ro_status x))
      (snd (refundOrder (answer_with UNCONFIRMED) owner_of_store 40 one_unit_back paid_sales)) = Inr (60, RF_PENDING)"
    by code_simp
  then obtain pending where p: "snd (refundOrder (answer_with UNCONFIRMED) owner_of_store 40 one_unit_back paid_sales) = Inr pending"
      "ro_refundId pending = 60" "ro_status pending = RF_PENDING"
    by (cases "snd (refundOrder (answer_with UNCONFIRMED) owner_of_store 40 one_unit_back paid_sales)") auto
  have u: "refundOrder ((answer_with UNCONFIRMED)\<lparr>oe_refund := \<lambda>_ _. UNCONFIRMED\<rparr>) owner_of_store 40 one_unit_back paid_sales =
      (pending_sales, Inr pending)"
    unfolding answer_with_update by (rule prod_eqI) (simp_all add: p pending_sales_def)
  have a: "answer_with (ANSWERED confirmed_answer) = (answer_with UNCONFIRMED)\<lparr>oe_refund := \<lambda>_ _. ANSWERED confirmed_answer\<rparr>"
    unfolding answer_with_update ..
  have "rr_status confirmed_answer \<noteq> RC_FAILED" by (simp add: confirmed_answer_def)
  from late_answer_is_the_prompt_answer[OF u p(3) this surjective_pairing surjective_pairing, unfolded p(2)]
  show ?thesis unfolding a by blast
qed
end
