(* ===== verification/Parcels.thy ===== *)
theory Parcels
  imports Returns
begin

lemma if_Inl: "(if P then Inl e else x) = Inr y \<longleftrightarrow> \<not> P \<and> x = Inr y"
  by simp

section \<open>What a stored fulfilment looks like\<close>

text \<open>
  The rows fulfilments are stored as, against the constraints of their table
  (\<open>fulfilment_checks\<close>): what the service has checked by the time it writes.
\<close>

lemma sql_space_js: "sql_space c \<Longrightarrow> js_space c"
  by (auto simp: sql_space_def js_space_def)

lemma link_after_sql:
  assumes "link_after scheme g js_space u"
  shows "link_after scheme g sql_space u"
  using assms by (auto simp: link_after_def list_all_iff dest: sql_space_js)

text \<open>What holds of every row the service writes.\<close>

definition checked_tracking :: "string option \<Rightarrow> string option \<Rightarrow> string option \<Rightarrow> bool" where
  "checked_tracking company number url \<longleftrightarrow> opt_all (\<lambda>t. length t \<le> 100) company \<and> opt_all (\<lambda>t. length t \<le> 100) number \<and>
     opt_all (\<lambda>u. full_link u \<and> length u \<le> 500) url"

definition checked_dates :: "fulfilment_row \<Rightarrow> bool" where
  "checked_dates f \<longleftrightarrow> (fu_status f = DELIVERED) = (fu_deliveredAt f \<noteq> None) \<and>
     (fu_status f = READY \<or> fu_shippedAt f \<noteq> None) \<and>
     opt_all (\<lambda>d. opt_all (\<lambda>sh. d \<ge> sh) (fu_shippedAt f)) (fu_deliveredAt f)"

lemma stored_result:
  assumes "checked_tracking (fu_company f) (fu_number f) (fu_url f)" "checked_dates f" "allowedStatus (fu_method f) (fu_status f)"
  shows "fulfilment_stored f = (if opt_all lower_scheme (fu_url f) then Inr ()
     else Inl (FAULT (VIOLATES ''Fulfilment_tracking_lengths'')))"
proof -
  let ?lengths = "opt_all (\<lambda>t. length t \<le> 100) (fu_company f) \<and> opt_all (\<lambda>t. length t \<le> 100) (fu_number f) \<and>
    opt_all (\<lambda>u. length u \<le> 2048 \<and> lower_scheme u) (fu_url f)"
  have "?lengths \<longleftrightarrow> opt_all lower_scheme (fu_url f)"
    using assms(1) by (auto simp: checked_tracking_def opt_all_def split: option.splits)
  moreover have "fu_method f \<noteq> LOCAL_DELIVERY \<or> fu_status f \<in> {READY, OUT_FOR_DELIVERY, DELIVERED}"
    using assms(3) by (cases "fu_method f") (simp_all add: allowedStatus_def)
  moreover have "opt_all (\<lambda>u. (link_after ''http://'' lower_char sql_space u \<or>
        link_after ''https://'' lower_char sql_space u) \<and> length u \<le> 500) (fu_url f)"
    using assms(1) by (auto simp: checked_tracking_def opt_all_def full_link_def dest: link_after_sql split: option.splits)
  moreover have "opt_all (\<lambda>t. length t \<le> 100) (fu_company f)" "opt_all (\<lambda>t. length t \<le> 100) (fu_number f)"
    using assms(1) by (simp_all add: checked_tracking_def)
  ultimately show ?thesis
    using assms(2) by (simp add: fulfilment_stored_def fulfilment_checks_def checked_dates_def)
qed

definition typed_rows :: "sales \<Rightarrow> bool" where
  "typed_rows s \<longleftrightarrow> (\<forall>f \<in> set (sl_fulfilments s). fulfilment_stored f = Inr () \<and>
     checked_tracking (fu_company f) (fu_number f) (fu_url f) \<and> checked_dates f \<and> allowedStatus (fu_method f) (fu_status f))"

subsection \<open>New rows\<close>

lemma text_field_length: "text_field v n field = Inr (Some t) \<Longrightarrow> length t \<le> n"
  by (auto simp: text_field_def Let_def split: option.splits if_splits)

lemma plan_checked:
  assumes "fulfil_plan_of input = Inr plan"
  shows "checked_tracking (fp_company plan) (fp_number plan) (fp_url plan)" "allowedStatus (fp_method plan) (fp_initial plan)"
proof -
  obtain company number url where "text_field (fi_company input) 100 ''trackingCompany'' = Inr company"
    "text_field (fi_number input) 100 ''trackingNumber'' = Inr number" "text_field (fi_url input) 500 ''trackingUrl'' = Inr url"
    "\<not> (case url of None \<Rightarrow> False | Some u \<Rightarrow> \<not> full_link u)"
    "fp_company plan = company" "fp_number plan = number" "fp_url plan = url" "allowedStatus (fp_method plan) (fp_initial plan)"
    using assms unfolding fulfil_plan_of_def bindR_eq_Inr Let_def if_Inl not_not
    by (elim exE conjE) (drule sum.inject(2)[THEN iffD1], hypsubst, rule that, assumption+, simp_all only: fulfil_plan.select_convs)
  then show "checked_tracking (fp_company plan) (fp_number plan) (fp_url plan)" "allowedStatus (fp_method plan) (fp_initial plan)"
    using text_field_length by (auto simp: checked_tracking_def opt_all_def split: option.splits)
qed

lemma create_typed:
  assumes plan: "fulfil_plan_of input = Inr plan" and c: "create_fulfilment env actor plan o' (s, ids) parcel = Inr (t, js)"
    and ok: "typed_rows s"
  shows "typed_rows t"
proof -
  obtain s1 i where f: "fresh_id s = (s1, i)" by (cases "fresh_id s")
  obtain location entries where p: "parcel = (location, entries)" by (cases parcel)
  let ?row = "\<lparr>fu_id = i, fu_orderId = o', fu_locationId = location, fu_state = F_SUCCESS,
           fu_method = fp_method plan, fu_status = fp_initial plan, fu_company = fp_company plan,
           fu_number = fp_number plan, fu_url = fp_url plan,
           fu_shippedAt = (if isDispatched (fp_initial plan) then Some (oe_now env) else None),
           fu_deliveredAt = (if fp_initial plan = DELIVERED then Some (oe_now env) else None),
           fu_createdBy = actor\<rparr>"
  have "sl_fulfilments t = sl_fulfilments s1 @ [?row]" "fulfilment_stored ?row = Inr ()"
    using c by (auto simp: create_fulfilment_def f p Let_def bindR_eq_Inr)
  moreover have "sl_fulfilments s1 = sl_fulfilments s" using f by (auto simp: fresh_id_def split: prod.splits)
  moreover have "checked_dates ?row"
    by (auto simp: checked_dates_def isDispatched_def opt_all_def)
  ultimately show ?thesis using ok plan_checked[OF plan] by (auto simp: typed_rows_def)
qed

lemma on_shop_fulfilments [simp]: "sl_fulfilments (on_shop f s) = sl_fulfilments s"
  by (simp add: on_shop_def)

lemma keep_fulfilments:
  "count_fulfilled s x = Inr t \<Longrightarrow> sl_fulfilments t = sl_fulfilments s"
  "in_stock f s = Inr t \<Longrightarrow> sl_fulfilments t = sl_fulfilments s"
  "sl_fulfilments (set_orders sel g s) = sl_fulfilments s"
  "sl_fulfilments (recordAudit ctx a e m s) = sl_fulfilments s"
  by (auto simp: count_fulfilled_def Let_def set_lines_def in_stock_def bindR_eq_Inr set_orders_def recordAudit_def
      split: prod.splits if_splits)

lemma typed_rows_cong: "sl_fulfilments t = sl_fulfilments s \<Longrightarrow> typed_rows s \<Longrightarrow> typed_rows t"
  by (simp add: typed_rows_def)

lemma fulfil_typed:
  assumes plan: "fulfil_plan_of input = Inr plan" and ok: "typed_rows s" and b: "fulfil_body env ctx o' plan s = Inr (t, ids)"
  shows "typed_rows t"
proof -
  obtain groups s1 ids' requested s2 s3 moves where
    g: "foldR (create_fulfilment env (oc_userId ctx) plan o') (s, []) groups = Inr (s1, ids')"
    and c: "foldR count_fulfilled s1 requested = Inr s2"
    and st: "in_stock (fulfilStock o' moves (Some (oc_userId ctx))) s2 = Inr s3"
    and t: "sl_fulfilments t = sl_fulfilments s3"
    using b by (auto simp: fulfil_body_def bindR_eq_Inr Let_def keep_fulfilments split: if_splits)
  have "typed_rows (fst (s1, ids'))"
    using g by (rule foldR_invariant[where P = "\<lambda>v. typed_rows (fst v)"])
      (use ok create_typed[OF plan] in \<open>auto simp: prod.split_sel_asm\<close>)
  moreover have "sl_fulfilments s2 = sl_fulfilments s1"
    using c by (rule foldR_invariant[where P = "\<lambda>v. sl_fulfilments v = sl_fulfilments s1"]) (simp_all add: keep_fulfilments)
  ultimately show ?thesis using keep_fulfilments(2)[OF st] t by (auto intro: typed_rows_cong)
qed

subsection \<open>Edited rows\<close>

lemma optionalText_length: "optionalText v n field = Inr (Some (Some t)) \<Longrightarrow> length t \<le> n"
  by (auto simp: optionalText_def Let_def split: text_edit.splits if_splits)

lemma edited_steps:
  assumes "edited_fulfilment now order current input company number url = Inr f"
  obtains m st sh dl gs gd where
    "f = current\<lparr>fu_method := m, fu_status := st, fu_company := (case company of None \<Rightarrow> fu_company current | Some c \<Rightarrow> c),
       fu_number := (case number of None \<Rightarrow> fu_number current | Some n \<Rightarrow> n),
       fu_url := (case url of None \<Rightarrow> fu_url current | Some u \<Rightarrow> u), fu_shippedAt := sh, fu_deliveredAt := dl\<rparr>"
    "allowedStatus m st" "sh = (if isDispatched st then or_else gs (or_else (fu_shippedAt current) (Some now)) else None)"
    "dl = (if st = DELIVERED then or_else gd (or_else (fu_deliveredAt current) (Some now)) else None)"
    "\<not> (case (dl, sh) of (Some d, Some sh) \<Rightarrow> d < sh | _ \<Rightarrow> False)"
  using assms unfolding edited_fulfilment_def bindR_eq_Inr Let_def if_Inl not_not
  by (elim exE conjE) (drule sum.inject(2)[THEN iffD1], rule that, erule sym, assumption, rule refl, rule refl, assumption)

lemma edited_checked:
  assumes e: "edited_fulfilment now order current input company number url = Inr f"
    and row: "checked_tracking (fu_company current) (fu_number current) (fu_url current)"
    and given: "optionalText cv 100 f1 = Inr company" "optionalText nv 100 f2 = Inr number" "optionalText uv 500 f3 = Inr url"
    and link: "validTrackingUrl (Option.bind url id)"
  shows "checked_tracking (fu_company f) (fu_number f) (fu_url f)" "checked_dates f" "allowedStatus (fu_method f) (fu_status f)"
proof -
  have track: "checked_tracking (case company of None \<Rightarrow> fu_company current | Some c \<Rightarrow> c)
      (case number of None \<Rightarrow> fu_number current | Some n \<Rightarrow> n) (case url of None \<Rightarrow> fu_url current | Some u \<Rightarrow> u)"
    unfolding checked_tracking_def
  proof (intro conjI)
    show "opt_all (\<lambda>t. length t \<le> 100) (case company of None \<Rightarrow> fu_company current | Some c \<Rightarrow> c)"
      using row optionalText_length[of cv 100 f1] given(1) by (auto simp: checked_tracking_def opt_all_def split: option.splits)
    show "opt_all (\<lambda>t. length t \<le> 100) (case number of None \<Rightarrow> fu_number current | Some n \<Rightarrow> n)"
      using row optionalText_length[of nv 100 f2] given(2) by (auto simp: checked_tracking_def opt_all_def split: option.splits)
    show "opt_all (\<lambda>u. full_link u \<and> length u \<le> 500) (case url of None \<Rightarrow> fu_url current | Some u \<Rightarrow> u)"
      using row link by (auto simp: checked_tracking_def validTrackingUrl_def opt_all_def split: option.splits)
  qed
  have some: "or_else x (or_else y (Some now)) \<noteq> None" for x y by (simp add: or_else_def split: option.splits)
  from e show "checked_tracking (fu_company f) (fu_number f) (fu_url f)"
    by (rule edited_steps) (simp add: track)
  from e show "allowedStatus (fu_method f) (fu_status f)" by (rule edited_steps) simp
  from e show "checked_dates f"
  proof (rule edited_steps)
    fix m st sh dl gs gd
    assume f: "f = current\<lparr>fu_method := m, fu_status := st, fu_company := (case company of None \<Rightarrow> fu_company current | Some c \<Rightarrow> c),
       fu_number := (case number of None \<Rightarrow> fu_number current | Some n \<Rightarrow> n),
       fu_url := (case url of None \<Rightarrow> fu_url current | Some u \<Rightarrow> u), fu_shippedAt := sh, fu_deliveredAt := dl\<rparr>"
      and sh: "sh = (if isDispatched st then or_else gs (or_else (fu_shippedAt current) (Some now)) else None)"
      and dl: "dl = (if st = DELIVERED then or_else gd (or_else (fu_deliveredAt current) (Some now)) else None)"
      and ord: "\<not> (case (dl, sh) of (Some d, Some sh) \<Rightarrow> d < sh | _ \<Rightarrow> False)"
    have "opt_all (\<lambda>d. opt_all (\<lambda>s. s \<le> d) sh) dl" using ord by (auto simp: opt_all_def split: option.splits)
    moreover have "(st = DELIVERED) = (dl \<noteq> None)" "st = READY \<or> sh \<noteq> None" using some by (simp_all add: sh dl isDispatched_def)
    ultimately show "checked_dates f" by (simp add: f checked_dates_def)
  qed
qed

subsection \<open>Progress and preservation\<close>

lemma optionalDate_no_fault: "optionalDate now v field d \<noteq> Inl (FAULT e)"
  by (auto simp: optionalDate_def split: date_edit.splits)

lemma fault_if: "(if P then Inl d else x) = Inl (FAULT e) \<longleftrightarrow> P \<and> d = FAULT e \<or> \<not> P \<and> x = Inl (FAULT e)"
  by simp

lemma edited_no_fault: "edited_fulfilment now order current input company number url \<noteq> Inl (FAULT e)"
  unfolding edited_fulfilment_def Let_def fault_if bindR_eq_Inl step_error_def
  by (simp add: optionalDate_no_fault)

lemma lookups_no_fault: "lockOrder o' s \<noteq> Inl (FAULT e)" "lockFulfilment o' i s \<noteq> Inl (FAULT e)"
  by (simp_all add: lockOrder_def lockFulfilment_def fromSome_def split: option.splits)

lemma update_body_typed:
  assumes ok: "typed_rows s"
    and given: "optionalText cv 100 f1 = Inr company" "optionalText nv 100 f2 = Inr number" "optionalText uv 500 f3 = Inr url"
    and link: "validTrackingUrl (Option.bind url id)"
  shows "update_body env ctx o' i input company number url s = Inr (t, u) \<Longrightarrow> typed_rows t"
proof -
  have row: "checked_tracking (fu_company f) (fu_number f) (fu_url f)" if "f \<in> set (sl_fulfilments s)" for f
    using ok that by (simp add: typed_rows_def)
  have current: "current \<in> set (sl_fulfilments s)" if "lockFulfilment o' i s = Inr current" for current
    using that by (auto simp: lockFulfilment_def fromSome_eq dest: find_Some_iff2)
  note checked = edited_checked[OF _ row[OF current] given link]
  show "typed_rows t" if run: "update_body env ctx o' i input company number url s = Inr (t, u)"
  proof -
    obtain order cur f where c: "lockFulfilment o' i s = Inr cur" "edited_fulfilment (oe_now env) order cur input company number url = Inr f"
      "fulfilment_stored f = Inr ()" and t: "sl_fulfilments t = update_rows (\<lambda>r. fu_id r = i) (\<lambda>_. f) (sl_fulfilments s)"
      using run unfolding update_body_def bindR_eq_Inr if_Inl Let_def
      by (elim exE conjE) (rule that, auto simp: keep_fulfilments split: if_splits)
    show ?thesis using ok checked[OF c(2,1)] c(3) by (auto simp: typed_rows_def t update_rows_def)
  qed
qed

text \<open>
  The row an edit would write, and a row that every constraint accepts but for the scheme of its link: the
  texts are within their limits and the link is one the service accepts.
\<close>

definition edit_of :: "order_env \<Rightarrow> uuid \<Rightarrow> uuid \<Rightarrow> update_input \<Rightarrow> sales \<Rightarrow> fulfilment_row \<Rightarrow> bool" where
  "edit_of env orderId fulfilmentId input s f \<longleftrightarrow> (\<exists>order current company number url.
     lockOrder orderId s = Inr order \<and> lockFulfilment orderId fulfilmentId s = Inr current \<and>
     optionalText (ui_company input) 100 ''trackingCompany'' = Inr company \<and>
     optionalText (ui_number input) 100 ''trackingNumber'' = Inr number \<and>
     optionalText (ui_url input) 500 ''trackingUrl'' = Inr url \<and>
     edited_fulfilment (oe_now env) order current input company number url = Inr f)"

definition only_scheme_fails :: "update_input \<Rightarrow> fulfilment_row \<Rightarrow> bool" where
  "only_scheme_fails input f \<longleftrightarrow>
     list_all (\<lambda>(name, check). name \<noteq> ''Fulfilment_tracking_lengths'' \<longrightarrow> check f) fulfilment_checks \<and>
     opt_all (\<lambda>t. length t \<le> 100) (fu_company f) \<and> opt_all (\<lambda>t. length t \<le> 100) (fu_number f) \<and>
     (\<exists>u. fu_url f = Some u \<and> full_link u \<and> length u \<le> 500 \<and> \<not> lower_scheme u \<and>
        optionalText (ui_url input) 500 ''trackingUrl'' = Inr (Some (Some u)))"

lemma stored_but_scheme:
  assumes "checked_tracking (fu_company f) (fu_number f) (fu_url f)" "checked_dates f" "allowedStatus (fu_method f) (fu_status f)"
  shows "list_all (\<lambda>(name, check). name \<noteq> ''Fulfilment_tracking_lengths'' \<longrightarrow> check f) fulfilment_checks"
proof -
  have "fu_method f \<noteq> LOCAL_DELIVERY \<or> fu_status f \<in> {READY, OUT_FOR_DELIVERY, DELIVERED}"
    using assms(3) by (cases "fu_method f") (simp_all add: allowedStatus_def)
  moreover have "opt_all (\<lambda>u. (link_after ''http://'' lower_char sql_space u \<or>
        link_after ''https://'' lower_char sql_space u) \<and> length u \<le> 500) (fu_url f)"
    using assms(1) by (auto simp: checked_tracking_def opt_all_def full_link_def dest: link_after_sql split: option.splits)
  ultimately show ?thesis
    using assms(1,2) by (simp add: fulfilment_checks_def checked_dates_def checked_tracking_def)
qed

lemma edited_url:
  assumes "edited_fulfilment now order current input company number url = Inr f"
  shows "fu_url f = (case url of None \<Rightarrow> fu_url current | Some u \<Rightarrow> u)"
  using assms by (rule edited_steps) simp

lemma update_body_fault:
  assumes ok: "typed_rows s"
    and given: "optionalText (ui_company input) 100 ''trackingCompany'' = Inr company"
      "optionalText (ui_number input) 100 ''trackingNumber'' = Inr number" "optionalText (ui_url input) 500 ''trackingUrl'' = Inr url"
    and link: "validTrackingUrl (Option.bind url id)"
    and run: "update_body env ctx o' i input company number url s = Inl (FAULT e)"
  shows "e = VIOLATES ''Fulfilment_tracking_lengths'' \<and> (\<exists>f. edit_of env o' i input s f \<and> only_scheme_fails input f)"
proof -
  have rows: "checked_tracking (fu_company f) (fu_number f) (fu_url f)" "opt_all lower_scheme (fu_url f)"
    if "f \<in> set (sl_fulfilments s)" for f
  proof -
    have f: "fulfilment_stored f = Inr ()" "checked_tracking (fu_company f) (fu_number f) (fu_url f)" "checked_dates f"
      "allowedStatus (fu_method f) (fu_status f)" using ok that by (simp_all add: typed_rows_def)
    then show "checked_tracking (fu_company f) (fu_number f) (fu_url f)" "opt_all lower_scheme (fu_url f)"
      using stored_result[OF f(2-4)] by (simp_all split: if_splits)
  qed
  obtain order cur f where c: "lockOrder o' s = Inr order" "lockFulfilment o' i s = Inr cur"
    "edited_fulfilment (oe_now env) order cur input company number url = Inr f"
    "fulfilment_stored f = Inl (FAULT e)"
    using run unfolding update_body_def bindR_eq_Inl fault_if Let_def sum.distinct simp_thms
    by (elim exE conjE disjE) (rule that, assumption+ | simp add: edited_no_fault lookups_no_fault)+
  have cur: "cur \<in> set (sl_fulfilments s)"
    using c(2) by (auto simp: lockFulfilment_def fromSome_eq dest: find_Some_iff2)
  note ch = edited_checked[OF c(3) rows(1)[OF cur] given link]
  have e: "e = VIOLATES ''Fulfilment_tracking_lengths''" "\<not> opt_all lower_scheme (fu_url f)"
    using stored_result[OF ch] c(4) by (simp_all split: if_splits)
  then obtain u where u: "fu_url f = Some u" "\<not> lower_scheme u" by (auto simp: opt_all_def split: option.splits)
  then have "url = Some (Some u)" using edited_url[OF c(3)] rows(2)[OF cur] by (auto simp: opt_all_def split: option.splits)
  then have "only_scheme_fails input f"
    using ch(1) stored_but_scheme[OF ch] u given(3) by (simp add: only_scheme_fails_def checked_tracking_def opt_all_def)
  moreover have "edit_of env o' i input s f" using c(1-3) given unfolding edit_of_def by blast
  ultimately show ?thesis using e(1) by blast
qed

lemma updateFulfilment_runs:
  assumes u: "updateFulfilment env ctx orderId fulfilmentId input s = (t, r)"
  obtains (refused) e where "t = s" "r = Inl e" "\<forall>f. e \<noteq> FAULT f"
    | (ran) company number url where "optionalText (ui_company input) 100 ''trackingCompany'' = Inr company"
      "optionalText (ui_number input) 100 ''trackingNumber'' = Inr number" "optionalText (ui_url input) 500 ''trackingUrl'' = Inr url"
      "validTrackingUrl (Option.bind url id)"
      "inStore ctx ORDER_MANAGE True (update_body env ctx orderId fulfilmentId input company number url) s = (t, r)"
proof -
  have texts: "optionalText v n f \<noteq> Inl (FAULT e)" for v n f e
    by (auto simp: optionalText_def Let_def split: text_edit.splits)
  show thesis
  proof (cases "bindR (optionalText (ui_company input) 100 ''trackingCompany'') (\<lambda>company.
           bindR (optionalText (ui_number input) 100 ''trackingNumber'') (\<lambda>number.
           bindR (optionalText (ui_url input) 500 ''trackingUrl'') (\<lambda>url.
           if \<not> validTrackingUrl (Option.bind url id)
           then Inl (VALIDATION_FAILED ''trackingUrl'' ''Enter a full link starting with https://.'')
           else if ui_method input = UNKNOWN
           then Inl (VALIDATION_FAILED ''method'' ''Choose shipping or local delivery.'')
           else if ui_status input = UNKNOWN then Inl (VALIDATION_FAILED ''status'' ''Choose a status.'')
           else Inr (company, number, url))))")
    case (Inl e)
    moreover from this have "\<forall>f. e \<noteq> FAULT f" using texts by (auto simp: bindR_eq_Inl split: if_splits)
    ultimately show thesis using u by (intro refused) (simp_all add: updateFulfilment_def)
  next
    case (Inr v)
    with u show thesis
      by (cases v) (auto simp: updateFulfilment_def bindR_eq_Inr split: if_splits intro: ran)
  qed
qed

lemma updateFulfilment_typed:
  assumes ok: "typed_rows s" and u: "updateFulfilment env ctx orderId fulfilmentId input s = (t, r)"
  shows "typed_rows t" "r = Inl (FAULT e) \<Longrightarrow> e = VIOLATES ''Fulfilment_tracking_lengths'' \<and>
    (\<exists>f. edit_of env orderId fulfilmentId input s f \<and> only_scheme_fails input f)"
proof -
  have gates: "requirePermission ctx p \<noteq> Inl (FAULT e)" "requireWritableStore ctx \<noteq> Inl (FAULT e)" for p e
    by (simp_all add: requirePermission_def requireWritableStore_def ensure_def)
  from u show "typed_rows t"
  proof (cases rule: updateFulfilment_runs)
    case (ran company number url)
    from inStore_keeps[OF ran(5), where P = typed_rows] ok update_body_typed[OF ok ran(1-4)] show ?thesis by blast
  qed (use ok in simp)
  from u show "e = VIOLATES ''Fulfilment_tracking_lengths'' \<and>
    (\<exists>f. edit_of env orderId fulfilmentId input s f \<and> only_scheme_fails input f)" if "r = Inl (FAULT e)"
  proof (cases rule: updateFulfilment_runs)
    case (ran company number url)
    with that gates have "update_body env ctx orderId fulfilmentId input company number url s = Inl (FAULT e)"
      by (auto simp: inStore_def transaction_def bindR_eq_Inl split: sum.splits)
    from update_body_fault[OF ok ran(1-4) this] show ?thesis .
  qed (use that in auto)
qed

lemma fulfilOrder_typed:
  assumes ok: "typed_rows s" and f: "fulfilOrder env ctx orderId new s = (t, r)"
  shows "typed_rows t"
proof (cases "fulfil_plan_of new")
  case (Inr plan)
  with f have "inStore ctx ORDER_MANAGE True (fulfil_body env ctx orderId plan) s = (t, r)" by (simp add: fulfilOrder_def)
  from inStore_keeps[OF this, where P = typed_rows] ok fulfil_typed[OF Inr] show ?thesis by blast
qed (use ok f in \<open>simp add: fulfilOrder_def\<close>)

text \<open>
  C26: fulfilments are stored with the types of their table. Over rows that meet every constraint
  of the table, an edit of a fulfilment and a new fulfilment again leave only such rows: status and
  method agree, dates are there exactly when the status says so and in order, texts fit. What an
  edit has checked also never fails in the database, but for one reason: the row it would write passes every
  other constraint, its company and number have at most 100 characters and its link at most 500, and the
  link is one given in this edit that the service accepts although its scheme is not in lower case.
\<close>

theorem fulfilment_rows_are_typed:
  assumes "typed_rows s"
  shows "(case updateFulfilment env ctx orderId fulfilmentId input s of (t, r) \<Rightarrow>
      typed_rows t \<and> (case r of Inl (FAULT e) \<Rightarrow> e = VIOLATES ''Fulfilment_tracking_lengths'' \<and>
        (\<exists>f. edit_of env orderId fulfilmentId input s f \<and> only_scheme_fails input f) | _ \<Rightarrow> True)) \<and>
    typed_rows (fst (fulfilOrder env ctx orderId new s))"
proof -
  obtain t r where u: "updateFulfilment env ctx orderId fulfilmentId input s = (t, r)" by (rule prod.exhaust)
  have "typed_rows (fst (fulfilOrder env ctx orderId new s))" using fulfilOrder_typed[OF assms surjective_pairing] .
  with updateFulfilment_typed[OF assms u] u show ?thesis by (auto split: sum.split domain_error.split)
qed

text \<open>The unit that is left, sent; and an edit that gives it a link in capitals.\<close>

definition send_rest :: fulfil_input where
  "send_rest = \<lparr>fi_lines = [], fi_company = None, fi_number = None, fi_url = None, fi_method = OMITTED, fi_status = OMITTED\<rparr>"

definition sent_sales :: sales where
  "sent_sales = fst (fulfilOrder (answer_with UNCONFIRMED) owner_of_store 40 send_rest paid_sales)"

definition link_in_capitals :: update_input where
  "link_in_capitals = \<lparr>ui_method = OMITTED, ui_status = CHOSEN DELIVERED, ui_company = TEXT_LEFT, ui_number = TEXT_LEFT,
     ui_url = TEXT_GIVEN ''HTTPS://t'', ui_shippedAt = DATE_LEFT, ui_deliveredAt = DATE_LEFT\<rparr>"

theorem fulfilment_rows_are_typed_witness:
  "typed_rows sent_sales \<and> map fu_id (sl_fulfilments sent_sales) = [60] \<and>
   typed_rows (fst (updateFulfilment (answer_with UNCONFIRMED) owner_of_store 40 60 link_in_capitals sent_sales)) \<and>
   snd (updateFulfilment (answer_with UNCONFIRMED) owner_of_store 40 60 link_in_capitals sent_sales) =
     Inl (FAULT (VIOLATES ''Fulfilment_tracking_lengths'')) \<and>
   (\<exists>f. edit_of (answer_with UNCONFIRMED) 40 60 link_in_capitals sent_sales f \<and> only_scheme_fails link_in_capitals f)"
proof -
  have p: "typed_rows paid_sales" by code_simp
  have sent: "typed_rows sent_sales"
    using fulfilment_rows_are_typed[OF p, of "answer_with UNCONFIRMED" 40 60 link_in_capitals owner_of_store
        send_rest] by (simp add: sent_sales_def)
  have ids: "map fu_id (sl_fulfilments sent_sales) = [60]" by code_simp
  have refused: "snd (updateFulfilment (answer_with UNCONFIRMED) owner_of_store 40 60 link_in_capitals sent_sales) =
     Inl (FAULT (VIOLATES ''Fulfilment_tracking_lengths''))" by code_simp
  show ?thesis
    using fulfilment_rows_are_typed[OF sent, of "answer_with UNCONFIRMED" 40 60 link_in_capitals owner_of_store
        send_rest] sent ids refused
    by (simp add: case_prod_unfold)
qed

end
