(* ===== verification/Entitlements.thy ===== *)
theory Entitlements
  imports Orders
begin

section \<open>Entitlements of an organisation\<close>

text \<open>
  \<open>packages/entitlements/src/engine.ts\<close> and \<open>store.ts\<close>: which features an organisation's plan
  grants, and the counters that keep its use within them. The tables are those of one
  organisation (the scope every query filters by); the counts of live products and of media bytes,
  which the database sums over other tables, are columns of the model's state. A configuration is
  an object's texts or anything else.
\<close>

subsection \<open>Tables\<close>

datatype feature_type = F_BOOLEAN | F_LIMIT | F_CONFIGURATION

datatype config_json = CONFIG_OBJECT "(string \<times> string) list" | CONFIG_OTHER

record value_columns =
  vc_enabled :: bool
  vc_limit :: "int option"
  vc_unlimited :: bool
  vc_config :: config_json

record feature_row =
  ft_id :: uuid
  ft_key :: string
  ft_name :: string
  ft_type :: feature_type
  ft_sortOrder :: int
  ft_defaults :: value_columns

record override_row =
  ov_featureId :: uuid
  ov_value :: value_columns
  ov_expiresAt :: "date option"

datatype subscription_status = SUB_TRIAL | SUB_ACTIVE | SUB_PAST_DUE | SUB_CANCELLED | SUB_EXPIRED

record subscription_row =
  su_id :: uuid
  su_status :: subscription_status
  su_planId :: uuid
  su_trialEndsAt :: "date option"
  su_expiresAt :: "date option"
  su_graceEndsAt :: "date option"

record plan_feature_row =
  pf_planId :: uuid
  pf_featureId :: uuid
  pf_value :: value_columns

record usage_row =
  us_featureId :: uuid
  us_scopeKey :: string
  us_period :: string
  us_value :: int

datatype member_status = M_ACTIVE | M_SUSPENDED

record member_row =
  mb_id :: uuid
  mb_userId :: uuid
  mb_role :: member_role
  mb_status :: member_status
  mb_allStores :: bool

datatype business_type = ECOMMERCE | BUSINESS | PUBLISHING | PORTFOLIO

record store_row =
  so_id :: uuid
  so_slug :: string
  so_name :: string
  so_status :: store_status
  so_businessType :: business_type
  so_locale :: string
  so_timezone :: string
  so_contactEmail :: "string option"
  so_supportEmail :: "string option"
  so_archivedAt :: "date option"

text \<open>Part of an organisation's rows that entitlements read and write; \<open>Team\<close> adds the rest.\<close>

record entitlement_db =
  en_features :: "feature_row list"
  en_planFeatures :: "plan_feature_row list"
  en_overrides :: "override_row list"
  en_subscriptions :: "subscription_row list"
  en_usage :: "usage_row list"
  en_members :: "member_row list"
  en_stores :: "store_row list"
  en_liveProducts :: int
  en_mediaBytes :: int

subsection \<open>The engine\<close>

definition FEATURE_KEYS :: "string list" where
  "FEATURE_KEYS =
    [''store_count'', ''staff_accounts'', ''product_limit'', ''media_storage'', ''custom_domain'',
     ''visual_builder'', ''advanced_builder'', ''premium_themes'', ''analytics'', ''discounts'',
     ''abandoned_cart'', ''api_access'', ''webhooks'', ''custom_code'', ''advanced_permissions'',
     ''export'', ''priority_support'']"

definition isFeatureKey :: "string \<Rightarrow> bool" where
  "isFeatureKey value \<longleftrightarrow> value \<in> set FEATURE_KEYS"

definition GAUGE_FEATURES :: "string list" where
  "GAUGE_FEATURES = [''store_count'', ''staff_accounts'', ''product_limit'', ''media_storage'']"

datatype entitlement_value =
    V_BOOLEAN bool | V_LIMIT int | V_UNLIMITED | V_CONFIGURATION bool "(string \<times> string) list"

datatype entitlement_origin = FROM_OVERRIDE | FROM_PLAN | FROM_DEFAULT

record resolved_entitlement =
  re_key :: string
  re_name :: string
  re_type :: feature_type
  re_value :: entitlement_value
  re_origin :: entitlement_origin
  re_overrideExpiresAt :: "date option"

definition before_end :: "date \<Rightarrow> date option \<Rightarrow> bool" where
  "before_end now ending = (case ending of None \<Rightarrow> False | Some d \<Rightarrow> now < d)"

definition isEntitling :: "subscription_row option \<Rightarrow> date \<Rightarrow> bool" where
  "isEntitling sub now = (case sub of None \<Rightarrow> False
   | Some s \<Rightarrow> (case su_status s of
       SUB_TRIAL \<Rightarrow> before_end now (su_trialEndsAt s)
     | SUB_ACTIVE \<Rightarrow> su_expiresAt s = None \<or> before_end now (su_expiresAt s)
     | SUB_PAST_DUE \<Rightarrow> before_end now (su_graceEndsAt s)
     | SUB_CANCELLED \<Rightarrow> before_end now (su_expiresAt s)
     | SUB_EXPIRED \<Rightarrow> False))"

definition toValue :: "feature_type \<Rightarrow> value_columns \<Rightarrow> entitlement_value" where
  "toValue ty row = (case ty of
     F_BOOLEAN \<Rightarrow> V_BOOLEAN (vc_enabled row)
   | F_LIMIT \<Rightarrow>
       if \<not> vc_enabled row then V_LIMIT 0
       else if vc_unlimited row then V_UNLIMITED
       else V_LIMIT (case vc_limit row of None \<Rightarrow> 0 | Some n \<Rightarrow> if n > 0 then n else 0)
   | F_CONFIGURATION \<Rightarrow> (case vc_config row of
       CONFIG_OBJECT c \<Rightarrow> V_CONFIGURATION (vc_enabled row) c
     | CONFIG_OTHER \<Rightarrow> V_CONFIGURATION False []))"

definition isOverrideActive :: "override_row \<Rightarrow> date \<Rightarrow> bool" where
  "isOverrideActive override now \<longleftrightarrow> ov_expiresAt override = None \<or> before_end now (ov_expiresAt override)"

definition resolveFeature ::
  "feature_row \<Rightarrow> value_columns option \<Rightarrow> override_row option \<Rightarrow> date \<Rightarrow> resolved_entitlement" where
  "resolveFeature feature planValue override now =
     (let base = (\<lambda>v origin expires. \<lparr>re_key = ft_key feature, re_name = ft_name feature, re_type = ft_type feature,
            re_value = toValue (ft_type feature) v, re_origin = origin, re_overrideExpiresAt = expires\<rparr>);
          fallback = (case planValue of Some v \<Rightarrow> base v FROM_PLAN None
            | None \<Rightarrow> base (ft_defaults feature) FROM_DEFAULT None)
      in case override of
           Some ov \<Rightarrow> if isOverrideActive ov now then base (ov_value ov) FROM_OVERRIDE (ov_expiresAt ov) else fallback
         | None \<Rightarrow> fallback)"

definition isGranted :: "entitlement_value \<Rightarrow> bool" where
  "isGranted value = (case value of V_BOOLEAN e \<Rightarrow> e | V_CONFIGURATION e _ \<Rightarrow> e | V_LIMIT n \<Rightarrow> n > 0 | V_UNLIMITED \<Rightarrow> True)"

text \<open>A numeric limit, or \<open>unlimited\<close>.\<close>

datatype feature_limit = UP_TO int | NO_LIMIT

definition limitOf :: "entitlement_value \<Rightarrow> feature_limit" where
  "limitOf value = (case value of V_LIMIT n \<Rightarrow> UP_TO n | V_UNLIMITED \<Rightarrow> NO_LIMIT
     | _ \<Rightarrow> if isGranted value then NO_LIMIT else UP_TO 0)"

definition fitsLimit :: "feature_limit \<Rightarrow> int \<Rightarrow> int \<Rightarrow> bool" where
  "fitsLimit limit usage amount = (case limit of NO_LIMIT \<Rightarrow> True | UP_TO n \<Rightarrow> usage + amount \<le> n)"

definition isOverLimit :: "feature_limit \<Rightarrow> int \<Rightarrow> bool" where
  "isOverLimit limit usage = (case limit of NO_LIMIT \<Rightarrow> False | UP_TO n \<Rightarrow> usage > n)"

subsection \<open>Loading\<close>

definition toFeatureRow :: "feature_row \<Rightarrow> feature_row option" where
  "toFeatureRow row = (if isFeatureKey (ft_key row) then Some row else None)"

definition loadLiveSubscription :: "'a entitlement_db_scheme \<Rightarrow> date \<Rightarrow> (subscription_row \<times> bool) option" where
  "loadLiveSubscription db now =
     map_option (\<lambda>s. (s, isEntitling (Some s) now)) (find (\<lambda>s. su_status s \<noteq> SUB_EXPIRED) (en_subscriptions db))"

definition plan_value :: "'a entitlement_db_scheme \<Rightarrow> uuid option \<Rightarrow> uuid \<Rightarrow> value_columns option" where
  "plan_value db planId featureId = (case planId of None \<Rightarrow> None
     | Some p \<Rightarrow> map_option pf_value (find (\<lambda>r. pf_planId r = p \<and> pf_featureId r = featureId) (en_planFeatures db)))"

definition override_of :: "'a entitlement_db_scheme \<Rightarrow> uuid \<Rightarrow> override_row option" where
  "override_of db featureId = find (\<lambda>r. ov_featureId r = featureId) (en_overrides db)"

definition resolveAll :: "'a entitlement_db_scheme \<Rightarrow> uuid option \<Rightarrow> date \<Rightarrow> resolved_entitlement list" where
  "resolveAll db planId now = map (\<lambda>f. resolveFeature f (plan_value db planId (ft_id f)) (override_of db (ft_id f)) now)
     (filter (\<lambda>f. isFeatureKey (ft_key f)) (sortBy (byKey ft_sortOrder) (en_features db)))"

text \<open>The entitling plan of the live subscription.\<close>

definition entitling_plan :: "'a entitlement_db_scheme \<Rightarrow> date \<Rightarrow> uuid option" where
  "entitling_plan db now = (case loadLiveSubscription db now of
     Some (s, True) \<Rightarrow> Some (su_planId s) | _ \<Rightarrow> None)"

definition loadEntitlements :: "'a entitlement_db_scheme \<Rightarrow> date \<Rightarrow> resolved_entitlement list" where
  "loadEntitlements db now = resolveAll db (entitling_plan db now) now"

definition get_resolved :: "resolved_entitlement list \<Rightarrow> string \<Rightarrow> domain_error + resolved_entitlement" where
  "get_resolved entitlements key = fromSome (FAULT (THROWN (''feature '' @ key @ '' is missing from the database'')))
     (find (\<lambda>r. re_key r = key) (rev entitlements))"

definition resolveEntitlement :: "'a entitlement_db_scheme \<Rightarrow> string \<Rightarrow> date \<Rightarrow> domain_error + resolved_entitlement" where
  "resolveEntitlement db key now =
     bindR (fromSome (FAULT (THROWN (''feature '' @ key @ '' is missing from the database'')))
       (Option.bind (find (\<lambda>f. ft_key f = key) (en_features db)) toFeatureRow)) (\<lambda>feature.
     Inr (resolveFeature feature (plan_value db (entitling_plan db now) (ft_id feature))
       (override_of db (ft_id feature)) now))"

subsection \<open>Questions\<close>

definition entitlementRequired :: "string \<Rightarrow> domain_error" where
  "entitlementRequired name = ENTITLEMENT_REQUIRED (''Your plan doesn't include '' @ toLowerCase name @ ''.'')"

definition limitReached :: "string \<Rightarrow> int \<Rightarrow> domain_error" where
  "limitReached name limit = LIMIT_REACHED (''Your plan's limit for '' @ toLowerCase name @ '' ('' @ show_int limit
     @ '') has been reached.'')"

definition hasFeature :: "'a entitlement_db_scheme \<Rightarrow> string \<Rightarrow> date \<Rightarrow> domain_error + bool" where
  "hasFeature db key now = bindR (resolveEntitlement db key now) (\<lambda>r. Inr (isGranted (re_value r)))"

definition assertFeature :: "'a entitlement_db_scheme \<Rightarrow> string \<Rightarrow> date \<Rightarrow> domain_error + unit" where
  "assertFeature db key now = bindR (resolveEntitlement db key now) (\<lambda>r.
     ensure (isGranted (re_value r)) (entitlementRequired (re_name r)))"

definition getFeatureLimit :: "'a entitlement_db_scheme \<Rightarrow> string \<Rightarrow> date \<Rightarrow> domain_error + feature_limit" where
  "getFeatureLimit db key now = bindR (resolveEntitlement db key now) (\<lambda>r. Inr (limitOf (re_value r)))"

definition getFeatureValue :: "'a entitlement_db_scheme \<Rightarrow> string \<Rightarrow> date \<Rightarrow> domain_error + entitlement_value" where
  "getFeatureValue db key now = bindR (resolveEntitlement db key now) (\<lambda>r. Inr (re_value r))"

definition featureId :: "'a entitlement_db_scheme \<Rightarrow> string \<Rightarrow> domain_error + uuid" where
  "featureId db key = fromSome (FAULT (THROWN (''feature '' @ key @ '' is missing from the database'')))
     (map_option ft_id (find (\<lambda>f. ft_key f = key) (en_features db)))"

definition usage_at :: "uuid \<Rightarrow> string \<Rightarrow> string \<Rightarrow> usage_row \<Rightarrow> bool" where
  "usage_at i scopeKey period u \<longleftrightarrow> us_featureId u = i \<and> us_scopeKey u = scopeKey \<and> us_period u = period"

definition getUsage :: "'a entitlement_db_scheme \<Rightarrow> string \<Rightarrow> string \<Rightarrow> string \<Rightarrow> domain_error + int" where
  "getUsage db key scopeKey period = bindR (featureId db key) (\<lambda>i.
     Inr (case find (usage_at i scopeKey period) (en_usage db) of None \<Rightarrow> 0 | Some u \<Rightarrow> us_value u))"

definition canConsume :: "'a entitlement_db_scheme \<Rightarrow> string \<Rightarrow> string \<Rightarrow> string \<Rightarrow> int \<Rightarrow> date \<Rightarrow> domain_error + bool" where
  "canConsume db key scopeKey period amount now = bindR (resolveEntitlement db key now) (\<lambda>r.
     bindR (getUsage db key scopeKey period) (\<lambda>usage. Inr (fitsLimit (limitOf (re_value r)) usage amount)))"

subsection \<open>Enforcement\<close>

text \<open>How each gauge is counted from its source table.\<close>

definition countSource :: "'a entitlement_db_scheme \<Rightarrow> string \<Rightarrow> int" where
  "countSource db key =
     (if key = ''store_count'' then int (length (filter (\<lambda>s. so_status s \<noteq> STORE_ARCHIVED) (en_stores db)))
      else if key = ''staff_accounts'' then int (length (en_members db))
      else if key = ''product_limit'' then en_liveProducts db
      else en_mediaBytes db)"

definition lockCounter ::
  "string \<Rightarrow> uuid \<Rightarrow> string \<Rightarrow> string \<Rightarrow> 'a entitlement_db_scheme \<Rightarrow> 'a entitlement_db_scheme \<times> int" where
  "lockCounter key i scopeKey period db =
     (case find (usage_at i scopeKey period) (en_usage db) of
        Some u \<Rightarrow> (db, us_value u)
      | None \<Rightarrow>
          let initial = (if key \<in> set GAUGE_FEATURES \<and> scopeKey = [] \<and> period = ''all'' then countSource db key else 0)
          in (db\<lparr>en_usage := en_usage db @ [\<lparr>us_featureId = i, us_scopeKey = scopeKey, us_period = period,
               us_value = initial\<rparr>]\<rparr>, initial))"

definition set_usage ::
  "(usage_row \<Rightarrow> bool) \<Rightarrow> (int \<Rightarrow> int) \<Rightarrow> 'a entitlement_db_scheme \<Rightarrow> 'a entitlement_db_scheme" where
  "set_usage sel f db = db\<lparr>en_usage := update_rows sel (\<lambda>u. u\<lparr>us_value := f (us_value u)\<rparr>) (en_usage db)\<rparr>"

definition consumeUsage ::
  "date \<Rightarrow> string \<Rightarrow> string \<Rightarrow> string \<Rightarrow> int \<Rightarrow> 'a entitlement_db_scheme \<Rightarrow> domain_error + 'a entitlement_db_scheme" where
  "consumeUsage now key scopeKey period amount db =
     (if amount \<le> 0 then Inl (FAULT (THROWN ''consumeUsage: amount must be positive''))
      else
      bindR (featureId db key) (\<lambda>i.
      let (db1, usage) = lockCounter key i scopeKey period db in
      bindR (resolveEntitlement db1 key now) (\<lambda>resolved.
      let limit = limitOf (re_value resolved) in
      if \<not> fitsLimit limit usage amount
      then Inl (limitReached (re_name resolved) (case limit of NO_LIMIT \<Rightarrow> 0 | UP_TO n \<Rightarrow> n))
      else Inr (set_usage (usage_at i scopeKey period) (\<lambda>v. v + amount) db1))))"

definition releaseUsage ::
  "string \<Rightarrow> string \<Rightarrow> string \<Rightarrow> int \<Rightarrow> 'a entitlement_db_scheme \<Rightarrow> domain_error + 'a entitlement_db_scheme" where
  "releaseUsage key scopeKey period amount db = bindR (featureId db key) (\<lambda>i.
     Inr (set_usage (usage_at i scopeKey period) (\<lambda>v. if v - amount > 0 then v - amount else 0) db))"

text \<open>The defaults of \<open>UsageOptions\<close>: one unit, organisation-wide, all time.\<close>

abbreviation consume_one :: "date \<Rightarrow> string \<Rightarrow> 'a entitlement_db_scheme \<Rightarrow> domain_error + 'a entitlement_db_scheme" where
  "consume_one now key \<equiv> consumeUsage now key [] ''all'' 1"

abbreviation release_one :: "string \<Rightarrow> 'a entitlement_db_scheme \<Rightarrow> domain_error + 'a entitlement_db_scheme" where
  "release_one key \<equiv> releaseUsage key [] ''all'' 1"

subsection \<open>Usage summary and reconciliation\<close>

record usage_line =
  ul_key :: string
  ul_name :: string
  ul_usage :: int
  ul_limit :: feature_limit
  ul_overLimit :: bool

definition usage_line_of ::
  "'a entitlement_db_scheme \<Rightarrow> resolved_entitlement list \<Rightarrow> string \<Rightarrow> domain_error + usage_line" where
  "usage_line_of db entitlements key = bindR (get_resolved entitlements key) (\<lambda>resolved.
     bindR (getUsage db key [] ''all'') (\<lambda>usage.
     Inr \<lparr>ul_key = key, ul_name = re_name resolved, ul_usage = usage, ul_limit = limitOf (re_value resolved),
       ul_overLimit = isOverLimit (limitOf (re_value resolved)) usage\<rparr>))"

definition getUsageSummary ::
  "'a entitlement_db_scheme \<Rightarrow> resolved_entitlement list \<Rightarrow> domain_error + usage_line list" where
  "getUsageSummary db entitlements = mapR (usage_line_of db entitlements) GAUGE_FEATURES"

definition previewUsageForPlan ::
  "'a entitlement_db_scheme \<Rightarrow> uuid option \<Rightarrow> date \<Rightarrow> domain_error + usage_line list" where
  "previewUsageForPlan db planId now = getUsageSummary db (resolveAll db planId now)"

record drift =
  dr_key :: string
  dr_recorded :: int
  dr_actual :: int

definition reconcile_gauge ::
  "'a entitlement_db_scheme \<times> drift list \<Rightarrow> string \<Rightarrow> domain_error + ('a entitlement_db_scheme \<times> drift list)" where
  "reconcile_gauge acc key = (case acc of (db, drifts) \<Rightarrow>
     bindR (featureId db key) (\<lambda>i.
     let (db1, recorded) = lockCounter key i [] ''all'' db; actual = countSource db1 key
     in Inr (if recorded \<noteq> actual
         then (set_usage (usage_at i [] ''all'') (\<lambda>_. actual) db1,
           drifts @ [\<lparr>dr_key = key, dr_recorded = recorded, dr_actual = actual\<rparr>])
         else (db1, drifts))))"

definition reconcileUsage :: "'a entitlement_db_scheme \<Rightarrow> domain_error + ('a entitlement_db_scheme \<times> drift list)" where
  "reconcileUsage db = foldR reconcile_gauge (db, []) GAUGE_FEATURES"

end
