(* ===== verification/Team.thy ===== *)
theory Team
  imports Entitlements
begin

section \<open>The team and the stores of an organisation\<close>

text \<open>
  \<open>packages/tenancy/src/members.ts\<close>, \<open>invitations.ts\<close>, \<open>organisations.ts\<close>, \<open>stores.ts\<close>, \<open>lifecycle.ts\<close>
  and the resolver of \<open>context.ts\<close>, over the tables of one organisation. An operation is the check of
  the actor's context, then one transaction; the context may be older than the transaction, which
  is why the writes are guarded. Inputs come parsed by their schemas, identifiers as what
  \<open>parsePublicId\<close> makes of them (None: malformed). The rate limiter's answer, the generated token,
  its hash and the addresses other organisations use are in the environment; e-mails are left out.
\<close>

subsection \<open>Tables\<close>

datatype organisation_status = ORG_ACTIVE | ORG_SUSPENDED | ORG_PENDING_DELETION | ORG_DELETED

datatype invitation_status = INV_PENDING | INV_ACCEPTED | INV_REVOKED | INV_EXPIRED

record invitation_row =
  iv_id :: uuid
  iv_email :: string
  iv_role :: member_role
  iv_tokenHash :: string
  iv_status :: invitation_status
  iv_expiresAt :: date
  iv_invitedById :: uuid
  iv_acceptedById :: "uuid option"
  iv_acceptedAt :: "date option"

record user_row =
  ur_id :: uuid
  ur_email :: string
  ur_deleted :: bool

record store_access_row =
  sa_membershipId :: uuid
  sa_storeId :: uuid

record domain_row =
  dm_storeId :: uuid
  dm_hostname :: string
  dm_primary :: bool

record tenant_db = entitlement_db +
  td_status :: organisation_status
  td_deletionScheduledAt :: "date option"
  td_name :: string
  td_users :: "user_row list"
  td_invitations :: "invitation_row list"
  td_access :: "store_access_row list"
  td_domains :: "domain_row list"
  td_audit :: "audit_row list"
  td_next :: uuid

record tenant_env =
  tv_now :: date
  tv_hash :: "string \<Rightarrow> string"
  tv_token :: string
  tv_allowed :: bool
  tv_elsewhere :: "string \<Rightarrow> bool"

definition tenant_id :: "tenant_db \<Rightarrow> tenant_db \<times> uuid" where
  "tenant_id db = (db\<lparr>td_next := Suc (td_next db)\<rparr>, td_next db)"

definition auditTenant ::
  "'a organisation_context_scheme \<Rightarrow> string \<Rightarrow> string \<times> uuid \<Rightarrow> (string \<times> string) list \<Rightarrow> tenant_db \<Rightarrow> tenant_db" where
  "auditTenant ctx action entity metadata db = db\<lparr>td_audit := td_audit db @ [audit_entry ctx action entity metadata]\<rparr>"

text \<open>Writes of memberships, with the unique indexes of the table.\<close>

definition members_unique :: "tenant_db \<Rightarrow> domain_error + tenant_db" where
  "members_unique db =
     (if length (filter (\<lambda>m. mb_role m = ROLE_OWNER) (en_members db)) > 1
      then Inl (FAULT (VIOLATES ''Membership_one_owner_per_organisation''))
      else if \<not> distinct (map mb_userId (en_members db))
      then Inl (FAULT (VIOLATES ''Membership_organisationId_userId_key''))
      else Inr db)"

definition update_members ::
  "(member_row \<Rightarrow> bool) \<Rightarrow> (member_row \<Rightarrow> member_row) \<Rightarrow> tenant_db \<Rightarrow> domain_error + (tenant_db \<times> nat)" where
  "update_members sel f db = bindR (members_unique (db\<lparr>en_members := update_rows sel f (en_members db)\<rparr>))
     (\<lambda>db'. Inr (db', length (filter sel (en_members db))))"

definition insert_member :: "member_row \<Rightarrow> tenant_db \<Rightarrow> domain_error + tenant_db" where
  "insert_member m db = members_unique (db\<lparr>en_members := en_members db @ [m]\<rparr>)"

text \<open>A membership's access rows go with it.\<close>

definition delete_members :: "(member_row \<Rightarrow> bool) \<Rightarrow> tenant_db \<Rightarrow> tenant_db \<times> nat" where
  "delete_members sel db = (let gone = map mb_id (filter sel (en_members db)) in
     (db\<lparr>en_members := filter (\<lambda>m. \<not> sel m) (en_members db),
        td_access := filter (\<lambda>a. sa_membershipId a \<notin> set gone) (td_access db)\<rparr>, length gone))"

text \<open>
  \<open>withTenant\<close>: one transaction; at its commit the deferred constraint trigger looks at the
  organisation when memberships changed.
\<close>

definition active_owners :: "tenant_db \<Rightarrow> nat" where
  "active_owners db = length (filter (\<lambda>m. mb_role m = ROLE_OWNER \<and> mb_status m = M_ACTIVE) (en_members db))"

definition commit_tenant :: "(tenant_db \<Rightarrow> domain_error + (tenant_db \<times> 'b)) \<Rightarrow> tenant_db \<Rightarrow> domain_error + (tenant_db \<times> 'b)" where
  "commit_tenant body db = bindR (body db) (\<lambda>(db', x).
     if en_members db' \<noteq> en_members db \<and> td_status db' \<noteq> ORG_DELETED \<and> active_owners db' \<noteq> 1
     then Inl (FAULT (VIOLATES ''Membership_single_active_owner'')) else Inr (db', x))"

definition withTenant :: "(tenant_db \<Rightarrow> domain_error + (tenant_db \<times> 'b)) \<Rightarrow> tenant_db \<Rightarrow> tenant_db \<times> (domain_error + 'b)" where
  "withTenant body = transaction (commit_tenant body)"

text \<open>The checks before a transaction, then the transaction.\<close>

definition checked_first ::
  "domain_error + 'c \<Rightarrow> ('c \<Rightarrow> tenant_db \<Rightarrow> domain_error + (tenant_db \<times> 'b)) \<Rightarrow> tenant_db \<Rightarrow> tenant_db \<times> (domain_error + 'b)" where
  "checked_first check body db = (case check of Inl e \<Rightarrow> (db, Inl e) | Inr x \<Rightarrow> withTenant (body x) db)"

definition public_id :: "uuid option \<Rightarrow> domain_error + uuid" where
  "public_id i = fromSome NOT_FOUND i"

subsection \<open>Contexts\<close>

definition member_of :: "uuid \<Rightarrow> tenant_db \<Rightarrow> member_row option" where
  "member_of userId db = find (\<lambda>m. mb_userId m = userId \<and> mb_status m = M_ACTIVE \<and> td_status db = ORG_ACTIVE) (en_members db)"

definition requireOrganisationAccess :: "principal option \<Rightarrow> tenant_db \<Rightarrow> domain_error + organisation_context" where
  "requireOrganisationAccess user db =
     bindR (requireVerifiedPrincipal user) (\<lambda>p.
     bindR (fromSome NOT_FOUND (member_of (pp_userId p) db)) (\<lambda>m.
     Inr \<lparr>oc_principal = p, oc_membershipId = mb_id m, oc_role = mb_role m, oc_permissions = permissionsFor (mb_role m),
       oc_allStores = mb_allStores m\<rparr>))"

definition requireOrganisationPermission ::
  "principal option \<Rightarrow> permission \<Rightarrow> tenant_db \<Rightarrow> domain_error + organisation_context" where
  "requireOrganisationPermission user p db =
     bindR (requireOrganisationAccess user db) (\<lambda>ctx. bindR (requirePermission ctx p) (\<lambda>_. Inr ctx))"

text \<open>A store's context, for members of all stores or with an access row.\<close>

definition requireStoreAccess :: "principal option \<Rightarrow> uuid option \<Rightarrow> tenant_db \<Rightarrow> domain_error + store_context" where
  "requireStoreAccess user storeId db =
     bindR (requireVerifiedPrincipal user) (\<lambda>p.
     bindR (public_id storeId) (\<lambda>i.
     bindR (fromSome NOT_FOUND (find (\<lambda>s. so_id s = i) (en_stores db))) (\<lambda>store.
     bindR (fromSome NOT_FOUND (member_of (pp_userId p) db)) (\<lambda>m.
     if \<not> mb_allStores m \<and> \<not> list_ex (\<lambda>a. sa_membershipId a = mb_id m \<and> sa_storeId a = i) (td_access db) then Inl NOT_FOUND
     else Inr \<lparr>oc_principal = p, oc_membershipId = mb_id m, oc_role = mb_role m, oc_permissions = permissionsFor (mb_role m),
       oc_allStores = mb_allStores m, sc_storeStatus = so_status store\<rparr>))))"

definition requireStorePermission ::
  "principal option \<Rightarrow> uuid option \<Rightarrow> permission \<Rightarrow> tenant_db \<Rightarrow> domain_error + store_context" where
  "requireStorePermission user storeId p db =
     bindR (requireStoreAccess user storeId db) (\<lambda>ctx. bindR (requirePermission ctx p) (\<lambda>_. Inr ctx))"

subsection \<open>Members\<close>

definition loadManageableMember ::
  "organisation_context \<Rightarrow> uuid \<Rightarrow> tenant_db \<Rightarrow> domain_error + member_row" where
  "loadManageableMember ctx membershipId db =
     bindR (fromSome NOT_FOUND (find (\<lambda>m. mb_id m = membershipId) (en_members db))) (\<lambda>target.
     if mb_userId target = oc_userId ctx then Inl (FORBIDDEN ''You can't change your own membership here.'')
     else if mb_role target = ROLE_OWNER
     then Inl (FORBIDDEN ''The owner's membership can only change through an ownership transfer.'')
     else if \<not> canAssignRole (oc_role ctx) (mb_role target) then Inl (FORBIDDEN [])
     else Inr target)"

text \<open>The guard of a write: the row as it was read.\<close>

definition guard_of :: "member_row \<Rightarrow> member_row \<Rightarrow> bool" where
  "guard_of target m \<longleftrightarrow> mb_id m = mb_id target \<and> mb_role m = mb_role target \<and> mb_status m = mb_status target"

definition assertApplied :: "nat \<Rightarrow> domain_error + unit" where
  "assertApplied n = ensure (n = 1) (DOMAIN_CONFLICT ''This member changed in the meantime. Reload and try again.'')"

definition set_invitations :: "(invitation_row \<Rightarrow> bool) \<Rightarrow> (invitation_row \<Rightarrow> invitation_row) \<Rightarrow> tenant_db \<Rightarrow> tenant_db" where
  "set_invitations sel f db = db\<lparr>td_invitations := update_rows sel f (td_invitations db)\<rparr>"

definition revokeInvitationsFrom :: "uuid \<Rightarrow> tenant_db \<Rightarrow> tenant_db" where
  "revokeInvitationsFrom userId = set_invitations (\<lambda>i. iv_invitedById i = userId \<and> iv_status i = INV_PENDING)
     (\<lambda>i. i\<lparr>iv_status := INV_REVOKED\<rparr>)"

definition requireStepUpForRole :: "organisation_context \<Rightarrow> member_role \<Rightarrow> domain_error + unit" where
  "requireStepUpForRole ctx role = ensure (role \<noteq> ROLE_ADMIN \<or> pp_recentlyAuthenticated (oc_principal ctx))
     (REAUTHENTICATION_REQUIRED ''Confirm your password before granting the Admin role.'')"

text \<open>\<open>assignableRole\<close>: any role but the owner's.\<close>

definition assignable_role :: "member_role \<Rightarrow> domain_error + unit" where
  "assignable_role role = ensure (role \<noteq> ROLE_OWNER) (VALIDATION_FAILED ''role'' ''Choose a role.'')"

fun ROLE_CODES :: "member_role \<Rightarrow> string" where
  "ROLE_CODES ROLE_OWNER = ''OWNER''"
| "ROLE_CODES ROLE_ADMIN = ''ADMIN''"
| "ROLE_CODES ROLE_STORE_MANAGER = ''STORE_MANAGER''"
| "ROLE_CODES ROLE_DESIGNER = ''DESIGNER''"
| "ROLE_CODES ROLE_CATALOGUE_MANAGER = ''CATALOGUE_MANAGER''"
| "ROLE_CODES ROLE_ORDER_MANAGER = ''ORDER_MANAGER''"
| "ROLE_CODES ROLE_MARKETING = ''MARKETING''"
| "ROLE_CODES ROLE_SUPPORT = ''SUPPORT''"
| "ROLE_CODES ROLE_VIEWER = ''VIEWER''"
| "ROLE_CODES ROLE_INVENTORY_MANAGER = ''INVENTORY_MANAGER''"
| "ROLE_CODES ROLE_SITE_MANAGER = ''SITE_MANAGER''"
| "ROLE_CODES ROLE_CONTENT_MANAGER = ''CONTENT_MANAGER''"
| "ROLE_CODES ROLE_EDITOR = ''EDITOR''"
| "ROLE_CODES ROLE_AUTHOR = ''AUTHOR''"

definition change_role_body ::
  "organisation_context \<Rightarrow> uuid \<Rightarrow> member_role \<Rightarrow> tenant_db \<Rightarrow> domain_error + (tenant_db \<times> unit)" where
  "change_role_body ctx membershipId role db =
     bindR (loadManageableMember ctx membershipId db) (\<lambda>target.
     if mb_role target = role then Inr (db, ())
     else
     bindR (update_members (guard_of target) (\<lambda>m. m\<lparr>mb_role := role\<rparr>) db) (\<lambda>(db1, n).
     bindR (assertApplied n) (\<lambda>_.
     Inr (auditTenant ctx ''member.role_changed'' (''Membership'', mb_id target)
       [(''role'', ROLE_CODES role), (''previousRole'', ROLE_CODES (mb_role target)),
        (''targetUserId'', uuid_text (mb_userId target))] (revokeInvitationsFrom (mb_userId target) db1), ()))))"

definition changeMemberRole ::
  "organisation_context \<Rightarrow> uuid option \<Rightarrow> member_role \<Rightarrow> tenant_db \<Rightarrow> tenant_db \<times> (domain_error + unit)" where
  "changeMemberRole ctx membership role = checked_first
     (bindR (requirePermission ctx MEMBER_MANAGE) (\<lambda>_.
      bindR (assignable_role role) (\<lambda>_.
      bindR (public_id membership) (\<lambda>i.
      if \<not> canAssignRole (oc_role ctx) role then Inl (FORBIDDEN [])
      else bindR (requireStepUpForRole ctx role) (\<lambda>_. Inr i)))))
     (\<lambda>i. change_role_body ctx i role)"

fun MEMBER_STATUS_CODES :: "member_status \<Rightarrow> string" where
  "MEMBER_STATUS_CODES M_ACTIVE = ''ACTIVE''"
| "MEMBER_STATUS_CODES M_SUSPENDED = ''SUSPENDED''"

definition member_status_body ::
  "organisation_context \<Rightarrow> uuid \<Rightarrow> member_status \<Rightarrow> tenant_db \<Rightarrow> domain_error + (tenant_db \<times> unit)" where
  "member_status_body ctx membershipId status db =
     bindR (loadManageableMember ctx membershipId db) (\<lambda>target.
     if mb_status target = status then Inr (db, ())
     else
     bindR (update_members (guard_of target) (\<lambda>m. m\<lparr>mb_status := status\<rparr>) db) (\<lambda>(db1, n).
     bindR (assertApplied n) (\<lambda>_.
     let db2 = (if status = M_SUSPENDED then revokeInvitationsFrom (mb_userId target) db1 else db1)
     in Inr (auditTenant ctx (if status = M_SUSPENDED then ''member.suspended'' else ''member.reactivated'')
       (''Membership'', mb_id target) [(''status'', MEMBER_STATUS_CODES status),
        (''previousStatus'', MEMBER_STATUS_CODES (mb_status target)),
        (''targetUserId'', uuid_text (mb_userId target))] db2, ()))))"

definition setMemberStatus ::
  "organisation_context \<Rightarrow> uuid option \<Rightarrow> member_status \<Rightarrow> tenant_db \<Rightarrow> tenant_db \<times> (domain_error + unit)" where
  "setMemberStatus ctx membership status = checked_first
     (bindR (requirePermission ctx MEMBER_MANAGE) (\<lambda>_. public_id membership))
     (\<lambda>i. member_status_body ctx i status)"

definition remove_member_body ::
  "organisation_context \<Rightarrow> uuid \<Rightarrow> tenant_db \<Rightarrow> domain_error + (tenant_db \<times> unit)" where
  "remove_member_body ctx membershipId db =
     bindR (loadManageableMember ctx membershipId db) (\<lambda>target.
     let (db2, n) = delete_members (guard_of target) (revokeInvitationsFrom (mb_userId target) db) in
     bindR (assertApplied n) (\<lambda>_.
     bindR (release_one ''staff_accounts'' db2) (\<lambda>db3.
     Inr (auditTenant ctx ''member.removed'' (''Membership'', mb_id target)
       [(''role'', ROLE_CODES (mb_role target)), (''targetUserId'', uuid_text (mb_userId target))] db3, ()))))"

definition removeMember ::
  "organisation_context \<Rightarrow> uuid option \<Rightarrow> tenant_db \<Rightarrow> tenant_db \<times> (domain_error + unit)" where
  "removeMember ctx membership = checked_first
     (bindR (requirePermission ctx MEMBER_MANAGE) (\<lambda>_. public_id membership)) (remove_member_body ctx)"

text \<open>Which stores a member can open.\<close>

definition grantable_stores :: "organisation_context \<Rightarrow> date \<Rightarrow> uuid list \<Rightarrow> tenant_db \<Rightarrow> domain_error + unit" where
  "grantable_stores ctx now storeIds db =
     bindR (assertFeature db ''advanced_permissions'' now) (\<lambda>_.
     if length (filter (\<lambda>s. so_id s \<in> set storeIds) (en_stores db)) \<noteq> length storeIds then Inl NOT_FOUND
     else if \<not> oc_allStores ctx \<and> length (filter (\<lambda>a. sa_membershipId a = oc_membershipId ctx \<and> sa_storeId a \<in> set storeIds)
         (td_access db)) \<noteq> length storeIds
     then Inl NOT_FOUND
     else Inr ())"

definition store_access_body ::
  "organisation_context \<Rightarrow> date \<Rightarrow> uuid \<Rightarrow> bool \<Rightarrow> uuid list \<Rightarrow> tenant_db \<Rightarrow> domain_error + (tenant_db \<times> unit)" where
  "store_access_body ctx now membershipId allStores storeIds db =
     bindR (loadManageableMember ctx membershipId db) (\<lambda>target.
     bindR (if allStores then Inr () else grantable_stores ctx now storeIds db) (\<lambda>_.
     let kept = filter (\<lambda>a. sa_membershipId a \<noteq> mb_id target) (td_access db);
         db1 = db\<lparr>td_access := (if allStores then kept
           else kept @ map (\<lambda>i. \<lparr>sa_membershipId = mb_id target, sa_storeId = i\<rparr>) storeIds)\<rparr> in
     bindR (update_members (guard_of target) (\<lambda>m. m\<lparr>mb_allStores := allStores\<rparr>) db1) (\<lambda>(db2, n).
     bindR (assertApplied n) (\<lambda>_.
     Inr (auditTenant ctx ''member.store_access_changed'' (''Membership'', mb_id target)
       [(''allStores'', if allStores then ''true'' else ''false''), (''storeCount'', show_nat (length storeIds)),
        (''targetUserId'', uuid_text (mb_userId target))] db2, ())))))"

definition checked_access ::
  "organisation_context \<Rightarrow> uuid option \<Rightarrow> bool \<Rightarrow> uuid option list \<Rightarrow> domain_error + (uuid \<times> uuid list)" where
  "checked_access ctx membership allStores stores =
     bindR (requirePermission ctx MEMBER_MANAGE) (\<lambda>_.
     bindR (public_id membership) (\<lambda>i.
     bindR (mapR public_id stores) (\<lambda>ids.
     let storeIds = rev (remdups (rev ids)) in
     if \<not> allStores \<and> storeIds = [] then Inl (VALIDATION_FAILED ''storeIds'' ''Choose at least one store.'')
     else if allStores \<and> \<not> oc_allStores ctx then Inl (FORBIDDEN [])
     else Inr (i, storeIds))))"

definition setMemberStoreAccess ::
  "organisation_context \<Rightarrow> date \<Rightarrow> uuid option \<Rightarrow> bool \<Rightarrow> uuid option list \<Rightarrow> tenant_db \<Rightarrow> tenant_db \<times> (domain_error + unit)" where
  "setMemberStoreAccess ctx now membership allStores stores = checked_first (checked_access ctx membership allStores stores)
     (\<lambda>(i, storeIds). store_access_body ctx now i allStores storeIds)"

definition transfer_body :: "organisation_context \<Rightarrow> uuid \<Rightarrow> tenant_db \<Rightarrow> domain_error + (tenant_db \<times> unit)" where
  "transfer_body ctx membershipId db =
     bindR (fromSome NOT_FOUND (find (\<lambda>m. mb_id m = membershipId) (en_members db))) (\<lambda>target.
     if mb_id target = oc_membershipId ctx then Inl (DOMAIN_CONFLICT ''You already own this organisation.'')
     else if mb_role target \<noteq> ROLE_ADMIN \<or> mb_status target \<noteq> M_ACTIVE
     then Inl (DOMAIN_CONFLICT ''Ownership can only be transferred to an active admin.'')
     else
     bindR (update_members (\<lambda>m. mb_id m = oc_membershipId ctx \<and> mb_role m = ROLE_OWNER \<and> mb_status m = M_ACTIVE)
       (\<lambda>m. m\<lparr>mb_role := ROLE_ADMIN, mb_allStores := True\<rparr>) db) (\<lambda>(db1, demoted).
     bindR (assertApplied demoted) (\<lambda>_.
     bindR (update_members (\<lambda>m. mb_id m = mb_id target \<and> mb_role m = ROLE_ADMIN \<and> mb_status m = M_ACTIVE)
       (\<lambda>m. m\<lparr>mb_role := ROLE_OWNER, mb_allStores := True\<rparr>) db1) (\<lambda>(db2, promoted).
     bindR (assertApplied promoted) (\<lambda>_.
     Inr (auditTenant ctx ''organisation.ownership_transferred'' (''Membership'', mb_id target)
       [(''targetUserId'', uuid_text (mb_userId target)), (''previousRole'', ''ADMIN''), (''role'', ''OWNER'')]
       (db2\<lparr>td_access := filter (\<lambda>a. sa_membershipId a \<noteq> mb_id target) (td_access db2)\<rparr>), ()))))))"

definition transferOwnership ::
  "organisation_context \<Rightarrow> uuid option \<Rightarrow> tenant_db \<Rightarrow> tenant_db \<times> (domain_error + unit)" where
  "transferOwnership ctx membership = checked_first
     (bindR (requirePermission ctx OWNERSHIP_TRANSFER) (\<lambda>_.
      if \<not> pp_recentlyAuthenticated (oc_principal ctx)
      then Inl (REAUTHENTICATION_REQUIRED ''Confirm your password to transfer ownership.'')
      else public_id membership))
     (transfer_body ctx)"

definition leave_body :: "organisation_context \<Rightarrow> tenant_db \<Rightarrow> domain_error + (tenant_db \<times> unit)" where
  "leave_body ctx db =
     (let (db1, n) = delete_members (\<lambda>m. mb_id m = oc_membershipId ctx) db in
      if n = 0 then Inl (FAULT (THROWN ''P2025''))
      else bindR (release_one ''staff_accounts'' db1) (\<lambda>db2.
        Inr (auditTenant ctx ''member.left'' (''Membership'', oc_membershipId ctx) [] db2, ())))"

definition leaveOrganisation :: "organisation_context \<Rightarrow> tenant_db \<Rightarrow> tenant_db \<times> (domain_error + unit)" where
  "leaveOrganisation ctx = checked_first
     (ensure (oc_role ctx \<noteq> ROLE_OWNER) (DOMAIN_CONFLICT ''Transfer ownership before leaving this organisation.''))
     (\<lambda>_. leave_body ctx)"

subsection \<open>Invitations\<close>

definition INVITATION_TTL :: date where
  "INVITATION_TTL = 7 * 24 * 3600 * 1000"

text \<open>Addresses compare as the column's type does, in lower case.\<close>

definition same_address :: "string \<Rightarrow> string \<Rightarrow> bool" where
  "same_address a b \<longleftrightarrow> toLowerCase a = toLowerCase b"

definition member_address :: "tenant_db \<Rightarrow> string \<Rightarrow> member_row \<Rightarrow> bool" where
  "member_address db email m \<longleftrightarrow> list_ex (\<lambda>u. ur_id u = mb_userId m \<and> same_address (ur_email u) email) (td_users db)"

definition assertSeatAvailable :: "date \<Rightarrow> string \<Rightarrow> tenant_db \<Rightarrow> domain_error + unit" where
  "assertSeatAvailable now email db =
     bindR (getFeatureLimit db ''staff_accounts'' now) (\<lambda>limit.
     case limit of NO_LIMIT \<Rightarrow> Inr ()
     | UP_TO n \<Rightarrow>
         bindR (getUsage db ''staff_accounts'' [] ''all'') (\<lambda>members.
         let pending = int (length (filter (\<lambda>i. iv_status i = INV_PENDING \<and> iv_expiresAt i > now \<and>
               \<not> same_address (iv_email i) email) (td_invitations db)))
         in if members + pending + 1 > n
            then bindR (resolveEntitlement db ''staff_accounts'' now) (\<lambda>r. Inl (LIMIT_REACHED
              (''Your plan's limit for '' @ toLowerCase (re_name r) @ '' ('' @ show_int n
                @ '') has been reached. Pending invitations count towards the limit.'')))
            else Inr ()))"

definition insert_invitation :: "invitation_row \<Rightarrow> tenant_db \<Rightarrow> domain_error + tenant_db" where
  "insert_invitation i db =
     (if list_ex (\<lambda>j. iv_tokenHash j = iv_tokenHash i) (td_invitations db)
      then Inl (FAULT (VIOLATES ''Invitation_tokenHash_key''))
      else if iv_status i = INV_PENDING \<and>
        list_ex (\<lambda>j. iv_status j = INV_PENDING \<and> same_address (iv_email j) (iv_email i)) (td_invitations db)
      then Inl (FAULT (VIOLATES ''Invitation_one_pending_per_email''))
      else Inr (db\<lparr>td_invitations := td_invitations db @ [i]\<rparr>))"

definition invite_body ::
  "tenant_env \<Rightarrow> organisation_context \<Rightarrow> string \<Rightarrow> member_role \<Rightarrow> tenant_db \<Rightarrow> domain_error + (tenant_db \<times> uuid)" where
  "invite_body env ctx email role db =
     (if list_ex (member_address db email) (en_members db)
      then Inl (DOMAIN_CONFLICT ''That person is already a member.'')
      else
      bindR (assertSeatAvailable (tv_now env) email db) (\<lambda>_.
      let db1 = set_invitations (\<lambda>i. same_address (iv_email i) email \<and> iv_status i = INV_PENDING)
            (\<lambda>i. i\<lparr>iv_status := INV_REVOKED\<rparr>) db;
          (db2, n) = tenant_id db1 in
      bindR (insert_invitation \<lparr>iv_id = n, iv_email = email, iv_role = role, iv_tokenHash = tv_hash env (tv_token env),
          iv_status = INV_PENDING, iv_expiresAt = tv_now env + INVITATION_TTL, iv_invitedById = oc_userId ctx,
          iv_acceptedById = None, iv_acceptedAt = None\<rparr> db2) (\<lambda>db3.
      Inr (auditTenant ctx ''member.invited'' (''Invitation'', n) [(''email'', email), (''role'', ROLE_CODES role)] db3, n))))"

definition createInvitation ::
  "tenant_env \<Rightarrow> organisation_context \<Rightarrow> string \<Rightarrow> member_role \<Rightarrow> tenant_db \<Rightarrow> tenant_db \<times> (domain_error + uuid)" where
  "createInvitation env ctx email role = checked_first
     (bindR (requirePermission ctx MEMBER_MANAGE) (\<lambda>_.
      bindR (assignable_role role) (\<lambda>_.
      if \<not> canAssignRole (oc_role ctx) role then Inl (FORBIDDEN [])
      else if \<not> oc_allStores ctx
      then Inl (FORBIDDEN ''Only members with access to all stores can invite people.'')
      else bindR (requireStepUpForRole ctx role) (\<lambda>_.
      ensure (tv_allowed env) (RATE_LIMITED ''Too many invitations today. Please try again tomorrow.'')))))
     (\<lambda>_. invite_body env ctx email role)"

definition revoke_invitation_body :: "organisation_context \<Rightarrow> uuid \<Rightarrow> tenant_db \<Rightarrow> domain_error + (tenant_db \<times> unit)" where
  "revoke_invitation_body ctx i db =
     (let sel = (\<lambda>v. iv_id v = i \<and> iv_status v = INV_PENDING) in
      if filter sel (td_invitations db) = [] then Inl NOT_FOUND
      else Inr (auditTenant ctx ''member.invitation_revoked'' (''Invitation'', i) []
        (set_invitations sel (\<lambda>v. v\<lparr>iv_status := INV_REVOKED\<rparr>) db), ()))"

definition revokeInvitation ::
  "organisation_context \<Rightarrow> uuid option \<Rightarrow> tenant_db \<Rightarrow> tenant_db \<times> (domain_error + unit)" where
  "revokeInvitation ctx invitation = checked_first
     (bindR (requirePermission ctx MEMBER_MANAGE) (\<lambda>_. public_id invitation)) (revoke_invitation_body ctx)"

definition listInvitations :: "organisation_context \<Rightarrow> date \<Rightarrow> tenant_db \<Rightarrow> domain_error + invitation_row list" where
  "listInvitations ctx now db = bindR (requirePermission ctx MEMBER_READ) (\<lambda>_.
     Inr (take 200 (rev (filter (\<lambda>i. iv_status i = INV_PENDING \<and> iv_expiresAt i > now) (td_invitations db)))))"

definition findByToken :: "tenant_env \<Rightarrow> string \<Rightarrow> tenant_db \<Rightarrow> invitation_row option" where
  "findByToken env token db = (if length token < 20 \<or> length token > 200 then None
     else find (\<lambda>i. iv_tokenHash i = tv_hash env token) (td_invitations db))"

definition usable_invitation :: "tenant_env \<Rightarrow> tenant_db \<Rightarrow> invitation_row \<Rightarrow> bool" where
  "usable_invitation env db i \<longleftrightarrow> iv_status i = INV_PENDING \<and> iv_expiresAt i > tv_now env \<and> td_status db = ORG_ACTIVE"

record invitation_preview =
  ip_organisationName :: string
  ip_role :: member_role
  ip_email :: string
  ip_usable :: bool

definition previewInvitation :: "tenant_env \<Rightarrow> string \<Rightarrow> tenant_db \<Rightarrow> invitation_preview option" where
  "previewInvitation env token db = map_option (\<lambda>i. \<lparr>ip_organisationName = td_name db, ip_role = iv_role i,
     ip_email = iv_email i, ip_usable = usable_invitation env db i\<rparr>) (findByToken env token db)"

definition BAD_INVITATION :: domain_error where
  "BAD_INVITATION = NOT_FOUND"

text \<open>Whether whoever invited may still grant the role.\<close>

definition inviter_entitled :: "tenant_db \<Rightarrow> invitation_row \<Rightarrow> bool" where
  "inviter_entitled db i = (case find (\<lambda>m. mb_userId m = iv_invitedById i \<and> mb_status m = M_ACTIVE) (en_members db) of
     None \<Rightarrow> False
   | Some m \<Rightarrow> mb_allStores m \<and> MEMBER_MANAGE \<in> permissionsFor (mb_role m) \<and> canAssignRole (mb_role m) (iv_role i))"

text \<open>A full plan is reported in words of its own.\<close>

definition take_seat :: "date \<Rightarrow> tenant_db \<Rightarrow> domain_error + tenant_db" where
  "take_seat now db = (case consume_one now ''staff_accounts'' db of
     Inl (LIMIT_REACHED _) \<Rightarrow> Inl (LIMIT_REACHED (''This organisation has no free team seats on its plan. ''
       @ ''Ask the person who invited you to free a seat or change the plan.''))
   | r \<Rightarrow> r)"

definition joined_context :: "principal \<Rightarrow> member_row \<Rightarrow> organisation_context" where
  "joined_context p m = \<lparr>oc_principal = p, oc_membershipId = mb_id m, oc_role = mb_role m,
     oc_permissions = permissionsFor (mb_role m), oc_allStores = mb_allStores m\<rparr>"

definition accept_body :: "tenant_env \<Rightarrow> principal \<Rightarrow> invitation_row \<Rightarrow> tenant_db \<Rightarrow> domain_error + (tenant_db \<times> unit)" where
  "accept_body env p invitation db =
     (let sel = (\<lambda>i. iv_id i = iv_id invitation \<and> iv_status i = INV_PENDING \<and> iv_expiresAt i > tv_now env);
          db1 = set_invitations sel (\<lambda>i. i\<lparr>iv_status := INV_ACCEPTED, iv_acceptedById := Some (pp_userId p),
            iv_acceptedAt := Some (tv_now env)\<rparr>) db
      in if length (filter sel (td_invitations db)) \<noteq> 1 then Inl BAD_INVITATION
      else if \<not> inviter_entitled db1 invitation then Inl BAD_INVITATION
      else if list_ex (\<lambda>m. mb_userId m = pp_userId p) (en_members db1)
      then Inl (DOMAIN_CONFLICT ''You're already a member of this organisation.'')
      else
      bindR (take_seat (tv_now env) db1) (\<lambda>db2.
      let (db3, n) = tenant_id db2;
          m = \<lparr>mb_id = n, mb_userId = pp_userId p, mb_role = iv_role invitation, mb_status = M_ACTIVE, mb_allStores = True\<rparr> in
      bindR (insert_member m db3) (\<lambda>db4.
      Inr (auditTenant (joined_context p m) ''member.invitation_accepted'' (''Membership'', n)
        [(''role'', ROLE_CODES (iv_role invitation))] db4, ()))))"

definition acceptInvitation ::
  "tenant_env \<Rightarrow> principal option \<Rightarrow> string \<Rightarrow> tenant_db \<Rightarrow> tenant_db \<times> (domain_error + unit)" where
  "acceptInvitation env user token db = checked_first
     (bindR (requireVerifiedPrincipal user) (\<lambda>p.
      bindR (fromSome BAD_INVITATION (findByToken env token db)) (\<lambda>i.
      if \<not> usable_invitation env db i then Inl BAD_INVITATION
      else if \<not> same_address (iv_email i) (pp_email p)
      then Inl (FORBIDDEN ''This invitation was sent to a different email address.'')
      else Inr (p, i))))
     (\<lambda>(p, i). accept_body env p i) db"

subsection \<open>The organisation\<close>

text \<open>A new organisation: its tables are empty but for the platform's features and users.\<close>

definition empty_tenant :: "feature_row list \<Rightarrow> user_row list \<Rightarrow> string \<Rightarrow> tenant_db" where
  "empty_tenant features users name = \<lparr>en_features = features, en_planFeatures = [], en_overrides = [],
     en_subscriptions = [], en_usage = [], en_members = [], en_stores = [], en_liveProducts = 0, en_mediaBytes = 0,
     td_status = ORG_ACTIVE, td_deletionScheduledAt = None, td_name = name, td_users = users, td_invitations = [], td_access = [], td_domains = [],
     td_audit = [], td_next = 0\<rparr>"

definition create_organisation_body :: "tenant_env \<Rightarrow> principal \<Rightarrow> string \<Rightarrow> tenant_db \<Rightarrow> domain_error + (tenant_db \<times> uuid)" where
  "create_organisation_body env p name db =
     bindR (consume_one (tv_now env) ''staff_accounts'' db) (\<lambda>db1.
     let (db2, organisation) = tenant_id db1; (db3, n) = tenant_id db2;
         m = \<lparr>mb_id = n, mb_userId = pp_userId p, mb_role = ROLE_OWNER, mb_status = M_ACTIVE, mb_allStores = True\<rparr> in
     bindR (insert_member m db3) (\<lambda>db4.
     Inr (auditTenant (joined_context p m) ''organisation.created'' (''Organisation'', organisation) [(''name'', name)] db4,
       organisation)))"

definition createOrganisation ::
  "tenant_env \<Rightarrow> feature_row list \<Rightarrow> user_row list \<Rightarrow> principal option \<Rightarrow> string \<Rightarrow> tenant_db \<times> (domain_error + uuid)" where
  "createOrganisation env features users user name = checked_first
     (bindR (requireVerifiedPrincipal user) (\<lambda>p.
      bindR (ensure (tv_allowed env) (RATE_LIMITED ''You've created several organisations today. Please try again tomorrow.''))
        (\<lambda>_. Inr p)))
     (\<lambda>p. create_organisation_body env p name) (empty_tenant features users name)"

definition renameOrganisation :: "organisation_context \<Rightarrow> uuid \<Rightarrow> string \<Rightarrow> tenant_db \<Rightarrow> tenant_db \<times> (domain_error + unit)" where
  "renameOrganisation ctx organisation name = checked_first (requirePermission ctx ORGANISATION_UPDATE)
     (\<lambda>_ db. Inr (auditTenant ctx ''organisation.updated'' (''Organisation'', organisation) [(''fields'', ''name'')]
       (db\<lparr>td_name := name\<rparr>), ()))"

subsection \<open>The end of an organisation\<close>

text \<open>\<open>toISOString\<close> of a date: the proleptic Gregorian calendar, for the years 0 to 9999.\<close>

definition zero_padded :: "nat \<Rightarrow> int \<Rightarrow> string" where
  "zero_padded k n = (let s = show_int n in replicate (k - length s) (CHR ''0'') @ s)"

definition calendar_date :: "int \<Rightarrow> int \<times> int \<times> int" where
  "calendar_date days =
     (let z = days + 719468; era = z div 146097; doe = z mod 146097;
          yoe = (doe - doe div 1460 + doe div 36524 - doe div 146096) div 365;
          doy = doe - (365 * yoe + yoe div 4 - yoe div 100);
          mp = (5 * doy + 2) div 153;
          m = (if mp < 10 then mp + 3 else mp - 9)
      in (yoe + era * 400 + (if m \<le> 2 then 1 else 0), m, doy - (153 * mp + 2) div 5 + 1))"

definition toISOString :: "date \<Rightarrow> string" where
  "toISOString t =
     (let (y, m, d) = calendar_date (t div 86400000); ms = t mod 86400000
      in zero_padded 4 y @ ''-'' @ zero_padded 2 m @ ''-'' @ zero_padded 2 d @ ''T'' @ zero_padded 2 (ms div 3600000) @ '':''
        @ zero_padded 2 (ms div 60000 mod 60) @ '':'' @ zero_padded 2 (ms div 1000 mod 60) @ ''.'' @ zero_padded 3 (ms mod 1000) @ ''Z'')"

definition DELETION_COOLING_OFF_DAYS :: int where
  "DELETION_COOLING_OFF_DAYS = 30"

definition request_deletion_body ::
  "organisation_context \<Rightarrow> date \<Rightarrow> uuid \<Rightarrow> tenant_db \<Rightarrow> domain_error + (tenant_db \<times> date)" where
  "request_deletion_body ctx now organisation db =
     (if td_status db \<noteq> ORG_ACTIVE then Inl (DOMAIN_CONFLICT ''This organisation can't be deleted now.'')
      else let due = now + DELETION_COOLING_OFF_DAYS * 86400000 in
        Inr (auditTenant ctx ''organisation.deletion_requested'' (''Organisation'', organisation) [(''expiresAt'', toISOString due)]
          (db\<lparr>td_status := ORG_PENDING_DELETION, td_deletionScheduledAt := Some due\<rparr>), due))"

definition requestOrganisationDeletion ::
  "organisation_context \<Rightarrow> date \<Rightarrow> string \<Rightarrow> uuid \<Rightarrow> string option \<Rightarrow> tenant_db \<Rightarrow> tenant_db \<times> (domain_error + date)" where
  "requestOrganisationDeletion ctx now organisationName organisation confirmName = checked_first
     (bindR (requirePermission ctx ORGANISATION_DELETE) (\<lambda>_.
      bindR (requireRecentAuthentication ctx ''deleting the organisation'') (\<lambda>_.
      ensure ((case confirmName of None \<Rightarrow> [] | Some typed \<Rightarrow> trim typed) = trim organisationName)
        (VALIDATION_FAILED ''confirmName'' ''Type the organisation's name exactly as shown.''))))
     (\<lambda>_. request_deletion_body ctx now organisation)"

definition cancel_deletion_body ::
  "principal \<Rightarrow> date \<Rightarrow> uuid \<Rightarrow> tenant_db \<Rightarrow> domain_error + (tenant_db \<times> unit)" where
  "cancel_deletion_body p now organisation db =
     (if \<not> list_ex (\<lambda>m. mb_userId m = pp_userId p \<and> mb_status m = M_ACTIVE \<and> mb_role m = ROLE_OWNER) (en_members db)
        \<or> td_status db \<noteq> ORG_PENDING_DELETION
      then Inl NOT_FOUND
      else case td_deletionScheduledAt db of
        None \<Rightarrow> Inl (DOMAIN_CONFLICT ''The deletion has already started and can't be cancelled.'')
      | Some due \<Rightarrow>
          if due \<le> now then Inl (DOMAIN_CONFLICT ''The deletion has already started and can't be cancelled.'')
          else Inr (db\<lparr>td_status := ORG_ACTIVE, td_deletionScheduledAt := None, td_audit := td_audit db @
            [\<lparr>au_actor = Some (pp_userId p), au_action = ''organisation.deletion_cancelled'',
              au_entity = (''Organisation'', organisation), au_metadata = []\<rparr>]\<rparr>, ()))"

definition cancelOrganisationDeletion ::
  "principal option \<Rightarrow> date \<Rightarrow> uuid option \<Rightarrow> tenant_db \<Rightarrow> tenant_db \<times> (domain_error + unit)" where
  "cancelOrganisationDeletion user now organisation = checked_first
     (bindR (requireVerifiedPrincipal user) (\<lambda>p. bindR (public_id organisation) (\<lambda>i. Inr (p, i))))
     (\<lambda>(p, i). cancel_deletion_body p now i)"

text \<open>
  \<open>app_delete_organisation\<close>, called by the worker: None when it is not due. The orders' and
  customers' rows it erases are not among these tables.
\<close>

definition delete_organisation :: "date \<Rightarrow> uuid \<Rightarrow> tenant_db \<Rightarrow> tenant_db \<times> nat option" where
  "delete_organisation now organisation db =
     (if td_status db = ORG_PENDING_DELETION \<and> (case td_deletionScheduledAt db of None \<Rightarrow> False | Some due \<Rightarrow> due \<le> now)
      then (db\<lparr>en_members := [], td_access := [],
          td_invitations := update_rows (\<lambda>i. iv_status i = INV_PENDING) (\<lambda>i. i\<lparr>iv_status := INV_REVOKED\<rparr>) (td_invitations db),
          td_domains := [],
          en_stores := map (\<lambda>s. s\<lparr>so_status := STORE_ARCHIVED, so_supportEmail := None, so_contactEmail := None\<rparr>) (en_stores db),
          en_subscriptions := map (\<lambda>s. s\<lparr>su_status := SUB_EXPIRED\<rparr>) (en_subscriptions db),
          td_status := ORG_DELETED, td_deletionScheduledAt := None, td_name := ''Deleted organisation'',
          td_audit := td_audit db @ [\<lparr>au_actor = None, au_action = ''organisation.deleted'',
            au_entity = (''Organisation'', organisation), au_metadata = [(''count'', show_nat (length (en_members db)))]\<rparr>]\<rparr>,
        Some (length (en_members db)))
      else (db, None))"

text \<open>
  \<open>app_delete_user_account\<close>, called by the sign-in service: what the deletion of an account does
  to this organisation. Owning another live organisation and platform staff are arguments.
\<close>

datatype account_deletion = ACCOUNT_NOT_FOUND | OWNS_ORGANISATION | PLATFORM_STAFF | ACCOUNT_DELETED

definition delete_user_account ::
  "uuid \<Rightarrow> bool \<Rightarrow> bool \<Rightarrow> tenant_db \<Rightarrow> tenant_db \<times> account_deletion" where
  "delete_user_account user owns_another staff db =
     (case find (\<lambda>u. ur_id u = user \<and> \<not> ur_deleted u) (td_users db) of
        None \<Rightarrow> (db, ACCOUNT_NOT_FOUND)
      | Some u \<Rightarrow>
          if owns_another \<or> list_ex (\<lambda>m. mb_userId m = user \<and> mb_role m = ROLE_OWNER) (en_members db) \<and> td_status db \<noteq> ORG_DELETED
          then (db, OWNS_ORGANISATION)
          else if staff then (db, PLATFORM_STAFF)
          else (let (db1, n) = delete_members (\<lambda>m. mb_userId m = user) db in
            (db1\<lparr>td_audit := td_audit db1 @ map (\<lambda>m. \<lparr>au_actor = Some user, au_action = ''member.left'',
                 au_entity = (''Membership'', mb_id m), au_metadata = [(''reason'', ''Account deleted'')]\<rparr>)
                 (filter (\<lambda>m. mb_userId m = user) (en_members db)),
               td_invitations := update_rows (\<lambda>i. same_address (iv_email i) (ur_email u) \<and> iv_status i = INV_PENDING)
                 (\<lambda>i. i\<lparr>iv_status := INV_REVOKED\<rparr>) (td_invitations db1),
               td_users := update_rows (\<lambda>r. ur_id r = user)
                 (\<lambda>r. r\<lparr>ur_email := ''deleted-'' @ uuid_text user @ ''@deleted.invalid'', ur_deleted := True\<rparr>) (td_users db1)\<rparr>,
             ACCOUNT_DELETED)))"

subsection \<open>Stores\<close>

record store_input =
  si_businessType :: business_type
  si_name :: string
  si_slug :: string
  si_locale :: string
  si_timezone :: string

fun BUSINESS_CODES :: "business_type \<Rightarrow> string" where
  "BUSINESS_CODES ECOMMERCE = ''ECOMMERCE''"
| "BUSINESS_CODES BUSINESS = ''BUSINESS''"
| "BUSINESS_CODES PUBLISHING = ''PUBLISHING''"
| "BUSINESS_CODES PORTFOLIO = ''PORTFOLIO''"

definition create_store_body ::
  "tenant_env \<Rightarrow> (string \<Rightarrow> string) \<Rightarrow> organisation_context \<Rightarrow> store_input \<Rightarrow> tenant_db \<Rightarrow> domain_error + (tenant_db \<times> uuid)" where
  "create_store_body env hostname ctx input db =
     bindR (consume_one (tv_now env) ''store_count'' db) (\<lambda>db1.
     let (db2, n) = tenant_id db1 in
     if list_ex (\<lambda>s. so_slug s = si_slug input) (en_stores db2) \<or> tv_elsewhere env (si_slug input)
       \<or> list_ex (\<lambda>d. dm_hostname d = hostname (si_slug input)) (td_domains db2) \<or> tv_elsewhere env (hostname (si_slug input))
     then Inl (DOMAIN_CONFLICT ''That store address is already taken.'')
     else if \<not> oc_allStores ctx \<and> \<not> list_ex (\<lambda>m. mb_id m = oc_membershipId ctx) (en_members db2)
     then Inl (FAULT (VIOLATES ''MembershipStoreAccess_membershipId_organisationId_fkey''))
     else
       let db3 = db2\<lparr>en_stores := en_stores db2 @ [\<lparr>so_id = n, so_slug = si_slug input, so_name = si_name input,
              so_status = STORE_DRAFT, so_businessType = si_businessType input, so_locale = si_locale input,
              so_timezone = si_timezone input, so_contactEmail = None, so_supportEmail = None, so_archivedAt = None\<rparr>],
            td_domains := td_domains db2 @ [\<lparr>dm_storeId = n, dm_hostname = hostname (si_slug input), dm_primary = True\<rparr>],
            td_access := (if oc_allStores ctx then td_access db2
              else td_access db2 @ [\<lparr>sa_membershipId = oc_membershipId ctx, sa_storeId = n\<rparr>])\<rparr>
       in Inr (auditTenant ctx ''store.created'' (''Store'', n) [(''slug'', si_slug input), (''name'', si_name input),
            (''businessType'', BUSINESS_CODES (si_businessType input))] db3, n))"

definition createStore ::
  "tenant_env \<Rightarrow> (string \<Rightarrow> string) \<Rightarrow> organisation_context \<Rightarrow> store_input \<Rightarrow> tenant_db \<Rightarrow> tenant_db \<times> (domain_error + uuid)" where
  "createStore env hostname ctx input = checked_first (requirePermission ctx STORE_CREATE)
     (\<lambda>_. create_store_body env hostname ctx input)"

definition set_stores :: "(store_row \<Rightarrow> bool) \<Rightarrow> (store_row \<Rightarrow> store_row) \<Rightarrow> tenant_db \<Rightarrow> tenant_db" where
  "set_stores sel f db = db\<lparr>en_stores := update_rows sel f (en_stores db)\<rparr>"

definition archive_store_body ::
  "organisation_context \<Rightarrow> date \<Rightarrow> uuid \<Rightarrow> tenant_db \<Rightarrow> domain_error + (tenant_db \<times> unit)" where
  "archive_store_body ctx now storeId db =
     (let sel = (\<lambda>s. so_id s = storeId \<and> so_status s \<noteq> STORE_ARCHIVED) in
      if list_ex (\<lambda>s. sel s \<and> so_status s = STORE_SUSPENDED) (en_stores db)
      then Inl (FAULT (VIOLATES ''store suspension can only be changed by the platform''))
      else if filter sel (en_stores db) = [] then Inl (DOMAIN_CONFLICT ''This store is already archived.'')
      else bindR (release_one ''store_count''
          (set_stores sel (\<lambda>s. s\<lparr>so_status := STORE_ARCHIVED, so_archivedAt := Some now\<rparr>) db)) (\<lambda>db1.
        Inr (auditTenant ctx ''store.archived'' (''Store'', storeId) [] db1, ())))"

definition archiveStore ::
  "organisation_context \<Rightarrow> date \<Rightarrow> uuid \<Rightarrow> tenant_db \<Rightarrow> tenant_db \<times> (domain_error + unit)" where
  "archiveStore ctx now storeId = checked_first (requirePermission ctx STORE_ARCHIVE)
     (\<lambda>_. archive_store_body ctx now storeId)"

record store_update =
  sp_name :: string
  sp_locale :: string
  sp_timezone :: string
  sp_contactEmail :: "string option"
  sp_supportEmail :: "string option"

definition update_store_body ::
  "(string \<Rightarrow> bool) \<Rightarrow> organisation_context \<Rightarrow> uuid \<Rightarrow> store_update \<Rightarrow> tenant_db \<Rightarrow> domain_error + (tenant_db \<times> unit)" where
  "update_store_body supported ctx storeId data db =
     bindR (fromSome NOT_FOUND (find (\<lambda>s. so_id s = storeId) (en_stores db))) (\<lambda>current.
     if so_status current = STORE_ARCHIVED then Inl (DOMAIN_CONFLICT ''Archived stores can't be edited.'')
     else if sp_locale data \<noteq> so_locale current \<and> \<not> supported (sp_locale data)
     then Inl (VALIDATION_FAILED ''locale'' ''Choose one of the supported languages.'')
     else Inr (auditTenant ctx ''store.updated'' (''Store'', storeId)
         [(''fields'', ''name,locale,timezone,contactEmail,supportEmail'')]
         (set_stores (\<lambda>s. so_id s = storeId) (\<lambda>s. s\<lparr>so_name := sp_name data, so_locale := sp_locale data,
           so_timezone := sp_timezone data, so_contactEmail := sp_contactEmail data,
           so_supportEmail := sp_supportEmail data\<rparr>) db), ()))"

definition updateStore ::
  "(string \<Rightarrow> bool) \<Rightarrow> organisation_context \<Rightarrow> uuid \<Rightarrow> store_update \<Rightarrow> tenant_db \<Rightarrow> tenant_db \<times> (domain_error + unit)" where
  "updateStore supported ctx storeId data = checked_first (requirePermission ctx STORE_UPDATE)
     (\<lambda>_. update_store_body supported ctx storeId data)"

definition business_type_body ::
  "organisation_context \<Rightarrow> uuid \<Rightarrow> business_type \<Rightarrow> tenant_db \<Rightarrow> domain_error + (tenant_db \<times> unit)" where
  "business_type_body ctx storeId ty db =
     bindR (fromSome NOT_FOUND (find (\<lambda>s. so_id s = storeId) (en_stores db))) (\<lambda>current.
     if so_status current = STORE_ARCHIVED then Inl (DOMAIN_CONFLICT ''Archived stores can't be edited.'')
     else if so_businessType current = ty then Inr (db, ())
     else let sel = (\<lambda>s. so_id s = storeId \<and> so_businessType s = so_businessType current) in
       if filter sel (en_stores db) = []
       then Inl (DOMAIN_CONFLICT ''This store changed at the same time. Reload and try again.'')
       else Inr (auditTenant ctx ''store.business_type_changed'' (''Store'', storeId)
         [(''businessType'', BUSINESS_CODES ty), (''previousBusinessType'', BUSINESS_CODES (so_businessType current))]
         (set_stores sel (\<lambda>s. s\<lparr>so_businessType := ty\<rparr>) db), ()))"

definition changeStoreBusinessType ::
  "organisation_context \<Rightarrow> uuid \<Rightarrow> business_type \<Rightarrow> tenant_db \<Rightarrow> tenant_db \<times> (domain_error + unit)" where
  "changeStoreBusinessType ctx storeId ty = checked_first (requirePermission ctx STORE_UPDATE)
     (\<lambda>_. business_type_body ctx storeId ty)"

end
