(* ===== verification/Seats.thy ===== *)
theory Seats
  imports Team Journey
begin

section \<open>What the tenancy's transactions keep\<close>

text \<open>
  The counters of an organisation against the rows they count, and the uniqueness of its members,
  stores, invitations and access rows: a lemma for every transaction's body.
\<close>

subsection \<open>Counters\<close>

definition counter_at :: "'a entitlement_db_scheme \<Rightarrow> uuid \<Rightarrow> int option" where
  "counter_at db i = map_option us_value (find (usage_at i [] ''all'') (en_usage db))"

definition counter_of :: "'a entitlement_db_scheme \<Rightarrow> string \<Rightarrow> int option" where
  "counter_of db key = Option.bind (find (\<lambda>f. ft_key f = key) (en_features db)) (\<lambda>f. counter_at db (ft_id f))"

text \<open>What usage reads of a counter: nothing before its first row.\<close>

definition recorded :: "'a entitlement_db_scheme \<Rightarrow> string \<Rightarrow> int" where
  "recorded db key = (case counter_of db key of None \<Rightarrow> 0 | Some v \<Rightarrow> v)"

text \<open>What a counter stands for: its row, or the count it would start from.\<close>

definition counted :: "'a entitlement_db_scheme \<Rightarrow> string \<Rightarrow> int" where
  "counted db key = (case counter_of db key of None \<Rightarrow> if key \<in> set GAUGE_FEATURES then countSource db key else 0
     | Some v \<Rightarrow> v)"

definition features_ok :: "'a entitlement_db_scheme \<Rightarrow> bool" where
  "features_ok db \<longleftrightarrow> distinct (map ft_id (en_features db)) \<and> distinct (map ft_key (en_features db))"

lemma featureId_Inr: "featureId db key = Inr i \<longleftrightarrow> (\<exists>f. find (\<lambda>f. ft_key f = key) (en_features db) = Some f \<and> ft_id f = i)"
  by (auto simp: featureId_def fromSome_eq)

lemma find_usage_at: "find (usage_at i s p) us = Some u \<Longrightarrow> us_featureId u = i \<and> us_scopeKey u = s \<and> us_period u = p"
  by (auto dest!: find_Some_iff2 simp: usage_at_def)

lemma counter_at_set:
  "counter_at (set_usage (usage_at i [] ''all'') g db) j = (if j = i then map_option g (counter_at db j) else counter_at db j)"
proof -
  have "map_option us_value (find (usage_at j [] ''all'') (update_rows (usage_at i [] ''all'') (\<lambda>u. u\<lparr>us_value := g (us_value u)\<rparr>) us)) =
    (if j = i then map_option g (map_option us_value (find (usage_at j [] ''all'') us))
     else map_option us_value (find (usage_at j [] ''all'') us))" for us
    by (induction us) (auto simp: update_rows_def usage_at_def[abs_def])
  then show ?thesis by (simp add: counter_at_def set_usage_def)
qed

lemma other_ids:
  assumes "find (\<lambda>f. ft_key f = key) (en_features db) = Some f" "find (\<lambda>f. ft_key f = k) (en_features db) = Some h"
    and "features_ok db" "k \<noteq> key"
  shows "ft_id h \<noteq> ft_id f"
proof
  assume i: "ft_id h = ft_id f"
  have "h \<in> set (en_features db)" "ft_key h = k" "f \<in> set (en_features db)" "ft_key f = key"
    using assms(1,2) by (auto dest: find_Some_iff2)
  with i assms(3,4) show False by (auto simp: features_ok_def distinct_map dest: inj_onD)
qed

lemma counter_update:
  assumes f: "find (\<lambda>f. ft_key f = key) (en_features db) = Some f" and ok: "features_ok db"
  shows "counter_of (set_usage (usage_at (ft_id f) [] ''all'') g db) k =
    (if k = key then map_option g (counter_of db k) else counter_of db k)"
proof -
  have same: "en_features (set_usage (usage_at (ft_id f) [] ''all'') g db) = en_features db" by (simp add: set_usage_def)
  show ?thesis
  proof (cases "k = key")
    case True
    then show ?thesis using f by (simp add: counter_of_def counter_at_set same)
  next
    case False
    show ?thesis
      by (cases "find (\<lambda>f. ft_key f = k) (en_features db)")
        (use False other_ids[OF f _ ok False] in \<open>simp_all add: counter_of_def counter_at_set same\<close>)
  qed
qed

lemma release_Inr:
  assumes "release_one key db = Inr db'" "features_ok db"
  shows "\<exists>g. db' = db\<lparr>en_usage := g\<rparr>"
    "recorded db' k = (if k = key \<and> recorded db k > 0 then recorded db k - 1 else if k = key then 0 else recorded db k)"
proof -
  obtain f where f: "find (\<lambda>f. ft_key f = key) (en_features db) = Some f"
    and t: "db' = set_usage (usage_at (ft_id f) [] ''all'') (\<lambda>v. if v - 1 > 0 then v - 1 else 0) db"
    using assms(1) by (auto simp: releaseUsage_def bindR_eq_Inr featureId_Inr)
  show "\<exists>g. db' = db\<lparr>en_usage := g\<rparr>" by (auto simp: t set_usage_def)
  have "counter_of db' k = (if k = key then map_option (\<lambda>v. if v - 1 > 0 then v - 1 else 0) (counter_of db k) else counter_of db k)"
    by (simp only: t counter_update[OF f assms(2)])
  then show "recorded db' k = (if k = key \<and> recorded db k > 0 then recorded db k - 1 else if k = key then 0 else recorded db k)"
    by (auto simp: recorded_def split: option.splits)
qed

lemma lockCounter_counter:
  assumes l: "lockCounter key (ft_id f) [] ''all'' db = (db1, v)" and f: "find (\<lambda>f. ft_key f = key) (en_features db) = Some f"
    and ok: "features_ok db"
  shows "\<exists>g. db1 = db\<lparr>en_usage := g\<rparr>" "v = counted db key" "counter_of db1 k = (if k = key then Some v else counter_of db k)"
proof -
  show "\<exists>g. db1 = db\<lparr>en_usage := g\<rparr>"
    using l by (cases "find (usage_at (ft_id f) [] ''all'') (en_usage db)")
      (auto simp: lockCounter_def Let_def intro: exI[where x = "en_usage db"])
  show "v = counted db key"
    using l f by (auto simp: lockCounter_def Let_def counted_def counter_of_def counter_at_def split: option.splits)
  show "counter_of db1 k = (if k = key then Some v else counter_of db k)"
  proof (cases "k = key")
    case True
    then show ?thesis using l f
      by (auto simp: lockCounter_def Let_def counter_of_def counter_at_def usage_at_def find_append split: option.splits)
  next
    case False
    have "counter_at db1 j = counter_at db j" if "j \<noteq> ft_id f" for j
      using l that by (auto simp: lockCounter_def Let_def counter_at_def usage_at_def find_append split: option.splits)
    moreover have "en_features db1 = en_features db" using l by (auto simp: lockCounter_def Let_def split: option.splits)
    ultimately show ?thesis
      by (cases "find (\<lambda>f. ft_key f = k) (en_features db)")
        (use False other_ids[OF f _ ok False] in \<open>simp_all add: counter_of_def\<close>)
  qed
qed

text \<open>Whether an amount fits does not depend on the counters.\<close>

lemma resolve_usage: "resolveEntitlement (db\<lparr>en_usage := g\<rparr>) key now = resolveEntitlement db key now"
proof -
  have "plan_value (db\<lparr>en_usage := g\<rparr>) p i = plan_value db p i" for p i by (cases p) (simp_all add: plan_value_def)
  moreover have "entitling_plan (db\<lparr>en_usage := g\<rparr>) now = entitling_plan db now"
    by (simp add: entitling_plan_def loadLiveSubscription_def)
  ultimately show ?thesis by (simp add: resolveEntitlement_def override_of_def)
qed

lemma consume_Inr:
  assumes c: "consume_one now key db = Inr db'" and ok: "features_ok db"
  shows "\<exists>g. db' = db\<lparr>en_usage := g\<rparr>"
    "recorded db' k = (if k = key then counted db key + 1 else recorded db k)"
    "getFeatureLimit db key now = Inr (UP_TO n) \<Longrightarrow> counted db key + 1 \<le> n"
proof -
  obtain f where f: "find (\<lambda>f. ft_key f = key) (en_features db) = Some f"
    using c by (auto simp: consumeUsage_def bindR_eq_Inr featureId_Inr)
  then have i: "featureId db key = Inr (ft_id f)" by (simp add: featureId_def)
  obtain db1 v where l: "lockCounter key (ft_id f) [] ''all'' db = (db1, v)" by (cases "lockCounter key (ft_id f) [] ''all'' db")
  obtain r where r: "resolveEntitlement db1 key now = Inr r" "fitsLimit (limitOf (re_value r)) v 1"
    and t: "db' = set_usage (usage_at (ft_id f) [] ''all'') (\<lambda>v. v + 1) db1"
    using c by (auto simp: consumeUsage_def i l bindR_eq_Inr Let_def split: if_splits)
  obtain g where g: "db1 = db\<lparr>en_usage := g\<rparr>" using lockCounter_counter(1)[OF l f ok] by blast
  note counters = lockCounter_counter(2,3)[OF l f ok]
  have same: "resolveEntitlement db1 key now = resolveEntitlement db key now"
    by (simp add: g resolve_usage)
  show "\<exists>g. db' = db\<lparr>en_usage := g\<rparr>" by (auto simp: t g set_usage_def)
  have "find (\<lambda>f. ft_key f = key) (en_features db1) = Some f" "features_ok db1" using f ok by (simp_all add: g features_ok_def)
  from counter_update[OF this] show "recorded db' k = (if k = key then counted db key + 1 else recorded db k)"
    by (simp add: t counters recorded_def)
  show "counted db key + 1 \<le> n" if "getFeatureLimit db key now = Inr (UP_TO n)"
    using that r same counters(1) by (auto simp: getFeatureLimit_def bindR_eq_Inr fitsLimit_def)
qed

text \<open>Other features' counters, in whatever scope and period, leave a counter as it is.\<close>

lemma other_counters:
  assumes "\<And>j. j \<noteq> ft_id f \<Longrightarrow> counter_at u j = counter_at db j" "en_features u = en_features db"
    and f: "find (\<lambda>f. ft_key f = key) (en_features db) = Some f" "features_ok db" "k \<noteq> key"
  shows "recorded u k = recorded db k"
  using other_ids[OF f(1) _ f(2,3)] assms(1,2)
  by (cases "find (\<lambda>f. ft_key f = k) (en_features db)") (simp_all add: recorded_def counter_of_def)

lemma counter_at_other: "j \<noteq> i \<Longrightarrow> counter_at (set_usage (usage_at i sc pe) g db) j = counter_at db j"
proof -
  assume j: "j \<noteq> i"
  have "find (usage_at j [] ''all'') (update_rows (usage_at i sc pe) f us) = find (usage_at j [] ''all'') us"
    if "\<And>u. us_featureId (f u) = us_featureId u" for f us
    using j that by (induction us) (auto simp: update_rows_def usage_at_def[abs_def])
  then show ?thesis by (simp add: counter_at_def set_usage_def)
qed

lemma consume_other:
  assumes "consumeUsage now key sc pe n db = Inr u" "features_ok db"
  shows "\<exists>g. u = db\<lparr>en_usage := g\<rparr>" "k \<noteq> key \<Longrightarrow> recorded u k = recorded db k"
proof -
  obtain f where f: "find (\<lambda>f. ft_key f = key) (en_features db) = Some f"
    using assms(1) by (auto simp: consumeUsage_def bindR_eq_Inr featureId_Inr split: if_splits)
  then have i: "featureId db key = Inr (ft_id f)" by (simp add: featureId_def)
  obtain db1 v where l: "lockCounter key (ft_id f) sc pe db = (db1, v)" by (cases "lockCounter key (ft_id f) sc pe db")
  have u: "u = set_usage (usage_at (ft_id f) sc pe) (\<lambda>v. v + n) db1"
    using assms(1) by (auto simp: consumeUsage_def i l bindR_eq_Inr Let_def split: if_splits)
  have "\<exists>g. db1 = db\<lparr>en_usage := g\<rparr>"
    using l by (cases "find (usage_at (ft_id f) sc pe) (en_usage db)")
      (auto simp: lockCounter_def Let_def intro: exI[where x = "en_usage db"])
  then obtain g where g: "db1 = db\<lparr>en_usage := g\<rparr>" by blast
  have "counter_at db1 j = counter_at db j" if "j \<noteq> ft_id f" for j
    using l that by (auto simp: lockCounter_def Let_def counter_at_def usage_at_def find_append split: option.splits)
  then have "counter_at u j = counter_at db j" if "j \<noteq> ft_id f" for j using that by (simp add: u counter_at_other)
  moreover show "\<exists>g. u = db\<lparr>en_usage := g\<rparr>" by (auto simp: u g set_usage_def)
  ultimately show "recorded u k = recorded db k" if "k \<noteq> key" using other_counters[OF _ _ f assms(2) that, of u] by auto
qed

lemma release_other:
  assumes "releaseUsage key sc pe n db = Inr u" "features_ok db"
  shows "\<exists>g. u = db\<lparr>en_usage := g\<rparr>" "k \<noteq> key \<Longrightarrow> recorded u k = recorded db k"
proof -
  obtain f where f: "find (\<lambda>f. ft_key f = key) (en_features db) = Some f"
    and u: "u = set_usage (usage_at (ft_id f) sc pe) (\<lambda>v. if v - n > 0 then v - n else 0) db"
    using assms(1) by (auto simp: releaseUsage_def bindR_eq_Inr featureId_Inr)
  show "\<exists>g. u = db\<lparr>en_usage := g\<rparr>" by (auto simp: u set_usage_def)
  then show "recorded u k = recorded db k" if "k \<noteq> key"
    using other_counters[OF _ _ f assms(2) that, of u] by (auto simp: u counter_at_other)
qed

subsection \<open>A consistent team\<close>

definition members_ok :: "member_row list \<Rightarrow> uuid \<Rightarrow> bool" where
  "members_ok ms n \<longleftrightarrow> distinct (map mb_id ms) \<and> (\<forall>m \<in> set ms. mb_id m < n) \<and> distinct (map mb_userId ms)
     \<and> length (filter (\<lambda>m. mb_role m = ROLE_OWNER) ms) \<le> 1"

definition stores_ok :: "store_row list \<Rightarrow> uuid \<Rightarrow> bool" where
  "stores_ok ss n \<longleftrightarrow> distinct (map so_id ss) \<and> (\<forall>s \<in> set ss. so_id s < n) \<and> distinct (map so_slug ss)"

definition invitations_ok :: "invitation_row list \<Rightarrow> uuid \<Rightarrow> bool" where
  "invitations_ok vs n \<longleftrightarrow> distinct (map iv_id vs) \<and> (\<forall>v \<in> set vs. iv_id v < n) \<and> distinct (map iv_tokenHash vs)
     \<and> distinct (map (toLowerCase \<circ> iv_email) (filter (\<lambda>v. iv_status v = INV_PENDING) vs))"

text \<open>Access rows name memberships and stores that exist, each pair once.\<close>

definition access_ok :: "uuid list \<Rightarrow> uuid list \<Rightarrow> store_access_row list \<Rightarrow> bool" where
  "access_ok members stores rows \<longleftrightarrow> distinct rows \<and>
     (\<forall>a \<in> set rows. sa_membershipId a \<in> set members \<and> sa_storeId a \<in> set stores)"

definition team_gauges :: "string list" where
  "team_gauges = [''store_count'', ''staff_accounts'']"

text \<open>
  Usage is what it counts, or at least that much: the deletion of an account takes the member and
  leaves the seat counted until the next reconciliation.
\<close>

definition counts_as :: "bool \<Rightarrow> int \<Rightarrow> int \<Rightarrow> bool" where
  "counts_as exact usage actual \<longleftrightarrow> (if exact then usage = actual else actual \<le> usage)"

definition counters_ok :: "bool \<Rightarrow> tenant_db \<Rightarrow> bool" where
  "counters_ok exact db \<longleftrightarrow> (\<forall>key \<in> set team_gauges. counts_as exact (recorded db key) (countSource db key))"

definition team_core :: "bool \<Rightarrow> tenant_db \<Rightarrow> bool" where
  "team_core exact db \<longleftrightarrow> features_ok db \<and> members_ok (en_members db) (td_next db) \<and> stores_ok (en_stores db) (td_next db)
     \<and> invitations_ok (td_invitations db) (td_next db)
     \<and> access_ok (map mb_id (en_members db)) (map so_id (en_stores db)) (td_access db) \<and> counters_ok exact db"

definition one_owner :: "tenant_db \<Rightarrow> bool" where
  "one_owner db \<longleftrightarrow> td_status db = ORG_DELETED \<or> active_owners db = 1"

definition consistent_team :: "bool \<Rightarrow> tenant_db \<Rightarrow> bool" where
  "consistent_team exact db \<longleftrightarrow> team_core exact db \<and> one_owner db"

text \<open>No gauge of the team grows past the plan: what it counted before, or within the limit.\<close>

definition grows_within :: "date \<Rightarrow> tenant_db \<Rightarrow> tenant_db \<Rightarrow> bool" where
  "grows_within now db u \<longleftrightarrow> (\<forall>key \<in> set team_gauges. \<forall>n. getFeatureLimit db key now = Inr (UP_TO n) \<longrightarrow>
     countSource u key \<le> max n (countSource db key))"

text \<open>What a transaction's body keeps; the owner is the commit's business.\<close>

definition steady :: "bool \<Rightarrow> date \<Rightarrow> tenant_db \<Rightarrow> tenant_db \<Rightarrow> bool" where
  "steady exact now db u \<longleftrightarrow> team_core exact u \<and> (td_status db = ORG_DELETED \<longrightarrow> td_status u = ORG_DELETED) \<and> grows_within now db u"

lemma commit_consistent:
  assumes "commit_tenant body db = Inr (u, y)" "consistent_team before db" "body db = Inr (u, y) \<Longrightarrow> steady exact now db u"
  shows "consistent_team exact u \<and> grows_within now db u"
proof -
  have u: "body db = Inr (u, y)" "en_members u \<noteq> en_members db \<longrightarrow> td_status u = ORG_DELETED \<or> active_owners u = 1"
    using assms(1) by (auto simp: commit_tenant_def bindR_eq_Inr split: if_splits)
  have "one_owner u"
  proof (cases "en_members u = en_members db")
    case True
    then show ?thesis using assms(2) assms(3)[OF u(1)] by (auto simp: consistent_team_def one_owner_def active_owners_def steady_def)
  next
    case False
    then show ?thesis using u(2) by (simp add: one_owner_def)
  qed
  then show ?thesis using assms(3)[OF u(1)] by (simp add: consistent_team_def steady_def)
qed

lemma checked_consistent:
  assumes "checked_first check body db = (u, r)" "consistent_team exact db"
    and "\<And>x v y. check = Inr x \<Longrightarrow> body x db = Inr (v, y) \<Longrightarrow> steady exact now db v"
  shows "consistent_team exact u \<and> grows_within now db u"
proof (cases check)
  case (Inl e)
  then show ?thesis using assms(1,2) by (auto simp: checked_first_def grows_within_def)
next
  case (Inr x)
  then have "transaction (commit_tenant (body x)) db = (u, r)" using assms(1) by (simp add: checked_first_def withTenant_def)
  then show ?thesis
  proof (cases rule: transaction_cases)
    case (failed e)
    then show ?thesis using assms(2) by (auto simp: grows_within_def)
  next
    case (committed y)
    then show ?thesis by (intro commit_consistent[OF committed(1) assms(2)] assms(3)[OF Inr])
  qed
qed

subsection \<open>What keeps the parts\<close>

lemma countSource_gauges [simp]:
  "countSource db ''staff_accounts'' = int (length (en_members db))"
  "countSource db ''store_count'' = int (length (filter (\<lambda>s. so_status s \<noteq> STORE_ARCHIVED) (en_stores db)))"
  by (simp_all add: countSource_def)

lemma counters_two:
  "counters_ok exact db \<longleftrightarrow> counts_as exact (recorded db ''staff_accounts'') (int (length (en_members db))) \<and>
     counts_as exact (recorded db ''store_count'') (int (length (filter (\<lambda>s. so_status s \<noteq> STORE_ARCHIVED) (en_stores db))))"
  by (auto simp: counters_ok_def team_gauges_def)

text \<open>One row less or more on both sides.\<close>

lemma counted_down:
  "counts_as exact usage (n + 1) \<Longrightarrow> 0 \<le> n \<Longrightarrow>
     (usage > 0 \<longrightarrow> counts_as exact (usage - 1) n) \<and> (\<not> usage > 0 \<longrightarrow> counts_as exact 0 n)"
  by (auto simp: counts_as_def split: if_splits)

lemma counted_up: "counts_as exact usage n \<Longrightarrow> counts_as exact (usage + 1) (n + 1)"
  by (auto simp: counts_as_def split: if_splits)

text \<open>A change that leaves both gauges and their counters.\<close>

lemma steady_I:
  assumes core: "team_core exact db"
    and same: "en_features u = en_features db" "en_usage u = en_usage db" "td_status db = ORG_DELETED \<longrightarrow> td_status u = ORG_DELETED"
    and counts: "length (en_members u) = length (en_members db)"
      "length (filter (\<lambda>s. so_status s \<noteq> STORE_ARCHIVED) (en_stores u)) = length (filter (\<lambda>s. so_status s \<noteq> STORE_ARCHIVED) (en_stores db))"
    and parts: "members_ok (en_members u) (td_next u)" "stores_ok (en_stores u) (td_next u)"
      "invitations_ok (td_invitations u) (td_next u)"
      "access_ok (map mb_id (en_members u)) (map so_id (en_stores u)) (td_access u)"
  shows "steady exact now db u"
proof -
  have "recorded u k = recorded db k" for k by (simp add: recorded_def counter_of_def counter_at_def same)
  moreover have "features_ok u" using core by (simp add: team_core_def features_ok_def same)
  ultimately show ?thesis using core parts
    by (auto simp: steady_def team_core_def counters_ok_def team_gauges_def counts same grows_within_def)
qed

lemma members_ok_mono: "members_ok ms n \<Longrightarrow> n \<le> n' \<Longrightarrow> members_ok ms n'"
  by (auto simp: members_ok_def)

lemma stores_ok_mono: "stores_ok ss n \<Longrightarrow> n \<le> n' \<Longrightarrow> stores_ok ss n'"
  by (auto simp: stores_ok_def)

lemma invitations_ok_mono: "invitations_ok vs n \<Longrightarrow> n \<le> n' \<Longrightarrow> invitations_ok vs n'"
  by (auto simp: invitations_ok_def)

lemma update_members_Inr:
  assumes "update_members sel f db = Inr (u, k)" "members_ok (en_members db) (td_next db)" "\<And>m. mb_id (f m) = mb_id m"
  shows "u = db\<lparr>en_members := update_rows sel f (en_members db)\<rparr>" "k = length (filter sel (en_members db))"
    "members_ok (en_members u) (td_next u)" "map mb_id (en_members u) = map mb_id (en_members db)"
proof -
  have unique: "members_unique (db\<lparr>en_members := update_rows sel f (en_members db)\<rparr>) = Inr u"
    using assms(1) by (auto simp: update_members_def bindR_eq_Inr)
  then show u: "u = db\<lparr>en_members := update_rows sel f (en_members db)\<rparr>"
    by (auto simp: members_unique_def split: if_splits)
  show "k = length (filter sel (en_members db))" using assms(1) by (auto simp: update_members_def bindR_eq_Inr)
  show ids: "map mb_id (en_members u) = map mb_id (en_members db)" by (simp add: u map_key_update assms(3))
  have "\<forall>m \<in> set (en_members u). mb_id m < td_next db"
    using assms(2,3) by (auto simp: u in_update_rows members_ok_def)
  then show "members_ok (en_members u) (td_next u)"
    using unique assms(2) ids by (auto simp: members_ok_def members_unique_def u split: if_splits)
qed

lemma set_invitations_ok:
  assumes "invitations_ok vs n"
    and "\<And>v. iv_id (f v) = iv_id v \<and> iv_tokenHash (f v) = iv_tokenHash v \<and> iv_status (f v) \<noteq> INV_PENDING"
  shows "invitations_ok (update_rows sel f vs) n"
proof -
  have "filter (\<lambda>v. iv_status v = INV_PENDING) (update_rows sel f vs) = filter (\<lambda>v. \<not> sel v) (filter (\<lambda>v. iv_status v = INV_PENDING) vs)"
    using assms(2) by (induction vs) (auto simp: update_rows_def)
  moreover have "distinct (map (toLowerCase \<circ> iv_email) (filter (\<lambda>v. \<not> sel v) (filter (\<lambda>v. iv_status v = INV_PENDING) vs)))"
    by (rule distinct_map_filter) (use assms(1) in \<open>simp add: invitations_ok_def\<close>)
  ultimately have "distinct (map (toLowerCase \<circ> iv_email) (filter (\<lambda>v. iv_status v = INV_PENDING) (update_rows sel f vs)))"
    by metis
  then show ?thesis using assms
    by (auto simp: invitations_ok_def map_key_update in_update_rows)
qed

lemma team_coreD:
  assumes "team_core exact db"
  shows "features_ok db" "members_ok (en_members db) (td_next db)" "stores_ok (en_stores db) (td_next db)"
    "invitations_ok (td_invitations db) (td_next db)"
    "access_ok (map mb_id (en_members db)) (map so_id (en_stores db)) (td_access db)" "counters_ok exact db"
  using assms by (simp_all add: team_core_def)

lemma revoked_from: "invitations_ok (td_invitations db) n \<Longrightarrow> invitations_ok (td_invitations (revokeInvitationsFrom i db)) n"
  by (simp add: revokeInvitationsFrom_def set_invitations_def set_invitations_ok)

lemma revoke_frames [simp]:
  "en_features (revokeInvitationsFrom i db) = en_features db" "en_usage (revokeInvitationsFrom i db) = en_usage db"
  "td_status (revokeInvitationsFrom i db) = td_status db" "en_members (revokeInvitationsFrom i db) = en_members db"
  "en_stores (revokeInvitationsFrom i db) = en_stores db" "td_next (revokeInvitationsFrom i db) = td_next db"
  "td_access (revokeInvitationsFrom i db) = td_access db"
  by (simp_all add: revokeInvitationsFrom_def set_invitations_def)

lemma audit_frames [simp]:
  "en_features (auditTenant ctx a e md db) = en_features db" "en_usage (auditTenant ctx a e md db) = en_usage db"
  "td_status (auditTenant ctx a e md db) = td_status db" "en_members (auditTenant ctx a e md db) = en_members db"
  "en_stores (auditTenant ctx a e md db) = en_stores db" "td_next (auditTenant ctx a e md db) = td_next db"
  "td_access (auditTenant ctx a e md db) = td_access db" "td_invitations (auditTenant ctx a e md db) = td_invitations db"
  by (simp_all add: auditTenant_def)

lemma length_update_rows [simp]: "length (update_rows sel f rows) = length rows"
  by (simp add: update_rows_def)

lemma steady_refl: "team_core exact db \<Longrightarrow> steady exact now db db"
  by (simp add: steady_def grows_within_def)

lemma change_role_steady:
  assumes "change_role_body ctx i role db = Inr (u, y)" "team_core exact db"
  shows "steady exact now db u"
proof (cases "u = db")
  case True
  then show ?thesis using assms(2) by (simp add: steady_refl)
next
  case False
  obtain target db1 k a e md where m: "update_members (guard_of target) (\<lambda>m. m\<lparr>mb_role := role\<rparr>) db = Inr (db1, k)"
    and u: "u = auditTenant ctx a e md (revokeInvitationsFrom (mb_userId target) db1)"
    using assms(1) False by (auto simp: change_role_body_def bindR_eq_Inr split: if_splits)
  note d = team_coreD[OF assms(2)]
  note eff = update_members_Inr[OF m d(2)]
  show ?thesis
    by (rule steady_I[OF assms(2)]) (use eff d in \<open>simp_all add: u revoked_from\<close>)
qed

lemma member_status_steady:
  assumes "member_status_body ctx i status db = Inr (u, y)" "team_core exact db"
  shows "steady exact now db u"
proof (cases "u = db")
  case True
  then show ?thesis using assms(2) by (simp add: steady_refl)
next
  case False
  obtain target db1 k a e md where m: "update_members (guard_of target) (\<lambda>m. m\<lparr>mb_status := status\<rparr>) db = Inr (db1, k)"
    and u: "u = auditTenant ctx a e md (if status = M_SUSPENDED then revokeInvitationsFrom (mb_userId target) db1 else db1)"
    using assms(1) False by (auto simp: member_status_body_def Let_def bindR_eq_Inr split: if_splits)
  note d = team_coreD[OF assms(2)]
  note eff = update_members_Inr[OF m d(2)]
  show ?thesis
    by (rule steady_I[OF assms(2)]; cases "status = M_SUSPENDED") (use eff d in \<open>simp_all add: u revoked_from\<close>)
qed

text \<open>A change that grows no gauge.\<close>

lemma steady_shrink:
  assumes "team_core exact u" "td_status u = td_status db" "length (en_members u) \<le> length (en_members db)"
    "length (filter (\<lambda>s. so_status s \<noteq> STORE_ARCHIVED) (en_stores u)) \<le> length (filter (\<lambda>s. so_status s \<noteq> STORE_ARCHIVED) (en_stores db))"
  shows "steady exact now db u"
  using assms by (auto simp: steady_def grows_within_def team_gauges_def)

lemma members_ok_filter: "members_ok ms n \<Longrightarrow> members_ok (filter p ms) n"
proof -
  assume ok: "members_ok ms n"
  have "length (filter (\<lambda>m. mb_role m = ROLE_OWNER) (filter p ms)) \<le> length (filter (\<lambda>m. mb_role m = ROLE_OWNER) ms)"
    by (induction ms) auto
  moreover have "distinct (map mb_id (filter p ms))" "distinct (map mb_userId (filter p ms))"
    using ok by (auto simp: members_ok_def intro: distinct_map_filter)
  ultimately show ?thesis using ok by (auto simp: members_ok_def)
qed

text \<open>A member goes: the access rows go along, and the seat is given back.\<close>

lemma seat_freed:
  assumes core: "team_core exact db" and del: "delete_members sel db = (db1, 1)"
    and rel: "release_one ''staff_accounts'' db1 = Inr db2"
  shows "team_core exact db2 \<and> td_status db2 = td_status db \<and> en_stores db2 = en_stores db
    \<and> length (en_members db2) \<le> length (en_members db)"
proof -
  note d = team_coreD[OF core]
  define gone where "gone = map mb_id (filter sel (en_members db))"
  have db1: "db1 = db\<lparr>en_members := filter (\<lambda>m. \<not> sel m) (en_members db),
      td_access := filter (\<lambda>a. sa_membershipId a \<notin> set gone) (td_access db)\<rparr>" and one: "length (filter sel (en_members db)) = 1"
    using del by (auto simp: delete_members_def gone_def Let_def)
  have len: "length (filter (\<lambda>m. \<not> sel m) (en_members db)) + 1 = length (en_members db)"
    using sum_length_filter_compl[of sel "en_members db"] one by simp
  have "features_ok db1" using d(1) by (simp add: db1 features_ok_def)
  note rel' = release_Inr[OF rel this]
  obtain g where db2: "db2 = db1\<lparr>en_usage := g\<rparr>" using rel'(1) by blast
  have same: "recorded db1 k = recorded db k" for k by (simp add: db1 recorded_def counter_of_def counter_at_def)
  have "en_members db2 = filter (\<lambda>m. \<not> sel m) (en_members db)" "en_stores db2 = en_stores db" by (simp_all add: db2 db1)
  moreover have "int (length (en_members db)) = int (length (filter (\<lambda>m. \<not> sel m) (en_members db))) + 1" using len by simp
  ultimately have "counters_ok exact db2"
    using d(6) counted_down[of exact "recorded db ''staff_accounts''" "int (length (filter (\<lambda>m. \<not> sel m) (en_members db)))"]
    by (simp add: counters_two rel'(2) same)
  moreover have "access_ok (map mb_id (filter (\<lambda>m. \<not> sel m) (en_members db))) (map so_id (en_stores db))
      (filter (\<lambda>a. sa_membershipId a \<notin> set gone) (td_access db))"
    using d(5) by (fastforce simp: access_ok_def gone_def)
  moreover have "features_ok db2" using d(1) by (simp add: db2 db1 features_ok_def)
  ultimately have "team_core exact db2" using d by (simp add: team_core_def db2 db1 members_ok_filter)
  then show ?thesis using len by (simp add: db2 db1)
qed

lemma core_of_frames:
  assumes "team_core exact db" "en_features u = en_features db" "en_usage u = en_usage db" "en_members u = en_members db"
    "en_stores u = en_stores db" "td_next u = td_next db" "td_access u = td_access db"
    "invitations_ok (td_invitations u) (td_next u)"
  shows "team_core exact u"
proof -
  have "recorded u k = recorded db k" for k by (simp add: recorded_def counter_of_def counter_at_def assms)
  then show ?thesis using assms
    by (simp add: team_core_def features_ok_def counters_ok_def team_gauges_def)
qed

lemma audited_core [simp]: "team_core exact (auditTenant ctx a e md db) \<longleftrightarrow> team_core exact db"
  by (simp add: team_core_def features_ok_def counters_ok_def team_gauges_def recorded_def counter_of_def counter_at_def)

lemma remove_member_steady:
  assumes "remove_member_body ctx i db = Inr (u, y)" "team_core exact db"
  shows "steady exact now db u"
proof -
  obtain target where t: "loadManageableMember ctx i db = Inr target"
    using assms(1) by (auto simp: remove_member_body_def bindR_eq_Inr)
  obtain db1 n where del: "delete_members (guard_of target) (revokeInvitationsFrom (mb_userId target) db) = (db1, n)"
    by (cases "delete_members (guard_of target) (revokeInvitationsFrom (mb_userId target) db)")
  obtain db2 a e md where n: "n = 1" and rel: "release_one ''staff_accounts'' db1 = Inr db2" and u: "u = auditTenant ctx a e md db2"
    using assms(1) by (auto simp: remove_member_body_def t del bindR_eq_Inr assertApplied_def ensure_eq)
  have "team_core exact (revokeInvitationsFrom (mb_userId target) db)"
    by (rule core_of_frames[OF assms(2)]) (simp_all add: revoked_from team_coreD[OF assms(2)])
  from seat_freed[OF this del[unfolded n] rel] show ?thesis by (intro steady_shrink) (simp_all add: u)
qed

lemma leave_steady:
  assumes "leave_body ctx db = Inr (u, y)" "team_core exact db"
  shows "steady exact now db u"
proof -
  obtain db1 n where del: "delete_members (\<lambda>m. mb_id m = oc_membershipId ctx) db = (db1, n)"
    by (cases "delete_members (\<lambda>m. mb_id m = oc_membershipId ctx) db")
  obtain db2 a e md where n: "n \<noteq> 0" and rel: "release_one ''staff_accounts'' db1 = Inr db2" and u: "u = auditTenant ctx a e md db2"
    using assms(1) by (auto simp: leave_body_def del bindR_eq_Inr split: if_splits)
  have "length (filter (\<lambda>m. mb_id m = oc_membershipId ctx) ms) \<le> 1" if "distinct (map mb_id ms)" for ms
    using that by (induction ms) (auto simp: filter_empty_conv image_iff)
  moreover have "n = length (filter (\<lambda>m. mb_id m = oc_membershipId ctx) (en_members db))"
    using del by (auto simp: delete_members_def Let_def)
  moreover have "distinct (map mb_id (en_members db))" using team_coreD(2)[OF assms(2)] by (simp add: members_ok_def)
  ultimately have "n = 1" using n by (metis One_nat_def le_Suc_eq le_zero_eq)
  from seat_freed[OF assms(2) del[unfolded this] rel] show ?thesis by (intro steady_shrink) (simp_all add: u)
qed

lemma all_found:
  assumes "length (filter (\<lambda>s. so_id s \<in> set ids) ss) = length ids" "distinct ids" "distinct (map so_id ss)"
  shows "set ids \<subseteq> set (map so_id ss)"
proof -
  let ?found = "filter (\<lambda>s. so_id s \<in> set ids) ss"
  have "card (set (map so_id ?found)) = length ?found"
    using assms(3) distinct_card[OF distinct_map_filter, of so_id ss "\<lambda>s. so_id s \<in> set ids"] by simp
  moreover have "card (set ids) = length ids" using assms(2) by (rule distinct_card)
  moreover have "set (map so_id ?found) \<subseteq> set ids" by auto
  ultimately have "set (map so_id ?found) = set ids" using assms(1) by (metis List.finite_set card_subset_eq)
  then show ?thesis by auto
qed

lemma access_replaced:
  assumes "access_ok members stores rows" "m \<in> set members" "set ids \<subseteq> set stores" "distinct ids"
  shows "access_ok members stores (filter (\<lambda>a. sa_membershipId a \<noteq> m) rows @ map (\<lambda>i. \<lparr>sa_membershipId = m, sa_storeId = i\<rparr>) ids)"
  using assms by (auto simp: access_ok_def distinct_map inj_on_def)

lemma access_filtered: "access_ok members stores rows \<Longrightarrow> access_ok members stores (filter p rows)"
  by (auto simp: access_ok_def)

lemma loadManageable_Inr:
  "loadManageableMember ctx i db = Inr t \<longleftrightarrow> find (\<lambda>m. mb_id m = i) (en_members db) = Some t \<and> mb_userId t \<noteq> oc_userId ctx
     \<and> mb_role t \<noteq> ROLE_OWNER \<and> canAssignRole (oc_role ctx) (mb_role t)"
  by (auto simp: loadManageableMember_def bindR_eq_Inr fromSome_eq split: if_splits)

lemma grantable_Inr:
  "grantable_stores ctx now ids db = Inr x \<Longrightarrow> length (filter (\<lambda>s. so_id s \<in> set ids) (en_stores db)) = length ids \<and>
     (oc_allStores ctx \<or> length (filter (\<lambda>a. sa_membershipId a = oc_membershipId ctx \<and> sa_storeId a \<in> set ids) (td_access db)) = length ids)"
  by (auto simp: grantable_stores_def bindR_eq_Inr split: if_splits)

lemma store_access_steady:
  assumes "store_access_body ctx now' i allStores ids db = Inr (u, y)" "team_core exact db" "distinct ids"
  shows "steady exact now db u"
proof -
  define rows where "rows = (\<lambda>t :: member_row. if allStores then filter (\<lambda>a. sa_membershipId a \<noteq> mb_id t) (td_access db)
      else filter (\<lambda>a. sa_membershipId a \<noteq> mb_id t) (td_access db) @ map (\<lambda>i. \<lparr>sa_membershipId = mb_id t, sa_storeId = i\<rparr>) ids)"
  obtain t db1 k a e md where t: "loadManageableMember ctx i db = Inr t"
    and g: "\<not> allStores \<Longrightarrow> grantable_stores ctx now' ids db = Inr ()"
    and m: "update_members (guard_of t) (\<lambda>m. m\<lparr>mb_allStores := allStores\<rparr>) (db\<lparr>td_access := rows t\<rparr>) = Inr (db1, k)"
    and u: "u = auditTenant ctx a e md db1"
    using assms(1) unfolding store_access_body_def bindR_eq_Inr Let_def rows_def by (auto simp: bindR_eq_Inr split: if_splits)
  note d = team_coreD[OF assms(2)]
  have "mb_id t \<in> set (map mb_id (en_members db))" using t by (auto simp: loadManageable_Inr dest!: find_Some_iff2)
  moreover have "\<not> allStores \<Longrightarrow> set ids \<subseteq> set (map so_id (en_stores db))"
    using all_found[OF _ assms(3)] grantable_Inr[OF g] d(3) by (auto simp: stores_ok_def)
  ultimately have "access_ok (map mb_id (en_members db)) (map so_id (en_stores db)) (rows t)"
    unfolding rows_def using access_replaced[OF d(5) _ _ assms(3)] access_filtered[OF d(5)] by simp
  moreover note eff = update_members_Inr[OF m]
  ultimately show ?thesis
    by (intro steady_I[OF assms(2)]) (use eff d in \<open>simp_all add: u\<close>)
qed

lemma transfer_steady:
  assumes "transfer_body ctx i db = Inr (u, y)" "team_core exact db"
  shows "steady exact now db u"
proof -
  obtain t :: member_row and db1 db2 k1 k2 a e md where
    m1: "update_members (\<lambda>m. mb_id m = oc_membershipId ctx \<and> mb_role m = ROLE_OWNER \<and> mb_status m = M_ACTIVE)
       (\<lambda>m. m\<lparr>mb_role := ROLE_ADMIN, mb_allStores := True\<rparr>) db = Inr (db1, k1)"
    and m2: "update_members (\<lambda>m. mb_id m = mb_id t \<and> mb_role m = ROLE_ADMIN \<and> mb_status m = M_ACTIVE)
       (\<lambda>m. m\<lparr>mb_role := ROLE_OWNER, mb_allStores := True\<rparr>) db1 = Inr (db2, k2)"
    and u: "u = auditTenant ctx a e md (db2\<lparr>td_access := filter (\<lambda>a. sa_membershipId a \<noteq> mb_id t) (td_access db2)\<rparr>)"
    using assms(1) unfolding transfer_body_def bindR_eq_Inr
    by (auto simp: bindR_eq_Inr split: if_splits)
  note d = team_coreD[OF assms(2)]
  note eff1 = update_members_Inr[OF m1 d(2)]
  note eff2 = update_members_Inr[OF m2 eff1(3)]
  have db2: "en_features db2 = en_features db" "en_usage db2 = en_usage db" "td_status db2 = td_status db" "td_next db2 = td_next db"
    "en_stores db2 = en_stores db" "td_invitations db2 = td_invitations db" "td_access db2 = td_access db"
    "length (en_members db2) = length (en_members db)"
    using eff1(1) eff2(1) by simp_all
  have "map mb_id (en_members db2) = map mb_id (en_members db)" using eff1(4) eff2(4) by simp
  then show ?thesis
    by (intro steady_I[OF assms(2)]) (use eff2(3) d access_filtered[OF d(5)] in \<open>simp_all add: u db2\<close>)
qed

lemma invite_steady:
  assumes "invite_body env ctx email role db = Inr (u, y)" "team_core exact db"
  shows "steady exact now db u"
proof -
  define rows where "rows = update_rows (\<lambda>i. same_address (iv_email i) email \<and> iv_status i = INV_PENDING)
    (\<lambda>i. i\<lparr>iv_status := INV_REVOKED\<rparr>) (td_invitations db)"
  define new where "new = \<lparr>iv_id = td_next db, iv_email = email, iv_role = role, iv_tokenHash = tv_hash env (tv_token env),
      iv_status = INV_PENDING, iv_expiresAt = tv_now env + INVITATION_TTL, iv_invitedById = oc_userId ctx,
      iv_acceptedById = None, iv_acceptedAt = None\<rparr>"
  obtain db3 a e md where ins: "insert_invitation new (db\<lparr>td_invitations := rows, td_next := Suc (td_next db)\<rparr>) = Inr db3"
    and u: "u = auditTenant ctx a e md db3"
    using assms(1) by (auto simp: invite_body_def Let_def tenant_id_def set_invitations_def bindR_eq_Inr rows_def new_def split: if_splits)
  have db3: "db3 = db\<lparr>td_invitations := rows @ [new], td_next := Suc (td_next db)\<rparr>"
    and fresh: "\<not> list_ex (\<lambda>j. iv_tokenHash j = iv_tokenHash new) rows"
      "\<not> list_ex (\<lambda>j. iv_status j = INV_PENDING \<and> same_address (iv_email j) email) rows"
    using ins by (auto simp: insert_invitation_def new_def split: if_splits)
  note d = team_coreD[OF assms(2)]
  have rows: "invitations_ok rows (td_next db)" unfolding rows_def by (rule set_invitations_ok[OF d(4)]) simp
  then have "invitations_ok (rows @ [new]) (Suc (td_next db))"
    using fresh by (auto simp: invitations_ok_def new_def list_ex_iff same_address_def)
  then show ?thesis
    by (intro steady_I[OF assms(2)]) (use d in \<open>simp_all add: u db3 members_ok_mono stores_ok_mono\<close>)
qed

lemma revoke_invitation_steady:
  assumes "revoke_invitation_body ctx i db = Inr (u, y)" "team_core exact db"
  shows "steady exact now db u"
proof -
  note d = team_coreD[OF assms(2)]
  obtain a e md where u: "u = auditTenant ctx a e md (set_invitations (\<lambda>v. iv_id v = i \<and> iv_status v = INV_PENDING)
      (\<lambda>v. v\<lparr>iv_status := INV_REVOKED\<rparr>) db)"
    using assms(1) by (auto simp: revoke_invitation_body_def Let_def split: if_splits)
  show ?thesis
    by (intro steady_I[OF assms(2)]) (use d in \<open>simp_all add: u set_invitations_def set_invitations_ok\<close>)
qed

text \<open>What a feature resolves to does not depend on the team.\<close>

lemma resolve_same:
  assumes "en_features u = en_features db" "en_planFeatures u = en_planFeatures db" "en_overrides u = en_overrides db"
    "en_subscriptions u = en_subscriptions db"
  shows "resolveEntitlement u key now = resolveEntitlement db key now"
proof -
  have "plan_value u p i = plan_value db p i" for p i by (cases p) (simp_all add: plan_value_def assms)
  moreover have "entitling_plan u now = entitling_plan db now"
    by (simp add: entitling_plan_def loadLiveSubscription_def assms)
  ultimately show ?thesis by (simp add: resolveEntitlement_def override_of_def assms)
qed

text \<open>A gauge starts from what it has recorded, and never from less than its rows.\<close>

lemma counted_recorded: "counters_ok exact db \<Longrightarrow> key \<in> set team_gauges \<Longrightarrow> counted db key = recorded db key"
  by (auto simp: counters_ok_def counts_as_def counted_def recorded_def team_gauges_def GAUGE_FEATURES_def
      split: option.splits if_splits)

lemma recorded_counts: "counters_ok exact db \<Longrightarrow> key \<in> set team_gauges \<Longrightarrow> countSource db key \<le> recorded db key"
  by (auto simp: counters_ok_def counts_as_def split: if_splits)

lemma members_ok_new:
  assumes "insert_member m db = Inr u" "members_ok (en_members db) n" "mb_id m = n"
  shows "u = db\<lparr>en_members := en_members db @ [m]\<rparr>" "members_ok (en_members u) (Suc n)"
proof -
  show u: "u = db\<lparr>en_members := en_members db @ [m]\<rparr>"
    using assms(1) by (auto simp: insert_member_def members_unique_def split: if_splits)
  show "members_ok (en_members u) (Suc n)"
    using assms by (auto simp: insert_member_def members_unique_def members_ok_def u split: if_splits)
qed

lemma take_seat_Inr: "take_seat now db = Inr u \<longleftrightarrow> consume_one now ''staff_accounts'' db = Inr u"
  by (auto simp: take_seat_def split: sum.splits domain_error.splits)

text \<open>A member joins: a seat is taken for the new row.\<close>

lemma seat_taken:
  assumes core: "team_core exact db" and con: "consume_one now ''staff_accounts'' db = Inr db1"
    and ins: "insert_member m (db1\<lparr>td_next := k\<rparr>) = Inr u" and k: "k = Suc (mb_id m)" "td_next db \<le> mb_id m"
  shows "steady exact now db u" "en_members u = en_members db @ [m]" "td_invitations u = td_invitations db"
proof -
  note d = team_coreD[OF core]
  note c = consume_Inr[OF con d(1)]
  obtain g where db1: "db1 = db\<lparr>en_usage := g\<rparr>" using c(1) by blast
  have "members_ok (en_members (db1\<lparr>td_next := k\<rparr>)) (mb_id m)" using members_ok_mono[OF d(2) k(2)] by (simp add: db1)
  note new = members_ok_new[OF ins this refl]
  show ms: "en_members u = en_members db @ [m]" "td_invitations u = td_invitations db" by (simp_all add: new(1) db1)
  have counts: "recorded u j = recorded db1 j" for j by (simp add: new(1) recorded_def counter_of_def counter_at_def)
  have staff: "counted db ''staff_accounts'' = recorded db ''staff_accounts''" "int (length (en_members db)) \<le> recorded db ''staff_accounts''"
    using counted_recorded[OF d(6), of "''staff_accounts''"] recorded_counts[OF d(6), of "''staff_accounts''"] by (simp_all add: team_gauges_def)
  have "recorded u ''store_count'' = recorded db ''store_count''" "recorded u ''staff_accounts'' = recorded db ''staff_accounts'' + 1"
    by (simp_all add: counts c(2) staff)
  moreover have "en_stores u = en_stores db" "int (length (en_members u)) = int (length (en_members db)) + 1"
    by (simp_all add: new(1) db1)
  ultimately have "counters_ok exact u" using d(6) counted_up by (simp add: counters_two)
  moreover have "members_ok (en_members u) k" using new(2) k(1) by simp
  ultimately have "team_core exact u"
    using d(1,3,4,5) k by (auto simp: team_core_def new(1) db1 features_ok_def access_ok_def intro: stores_ok_mono invitations_ok_mono)
  moreover have "countSource u ''staff_accounts'' \<le> n" if "getFeatureLimit db ''staff_accounts'' now = Inr (UP_TO n)" for n
    using c(3)[OF that] staff by (simp add: ms)
  ultimately show "steady exact now db u"
    by (auto simp: steady_def grows_within_def team_gauges_def new(1) db1 max_def)
qed

lemma accept_steady:
  assumes "accept_body env p v db = Inr (u, y)" "team_core exact db"
  shows "steady exact (tv_now env) db u"
    "\<exists>m. en_members u = en_members db @ [m] \<and> mb_role m = iv_role v \<and> mb_userId m = pp_userId p \<and> inviter_entitled db v"
    "td_invitations u = update_rows (\<lambda>i. iv_id i = iv_id v \<and> iv_status i = INV_PENDING \<and> iv_expiresAt i > tv_now env)
      (\<lambda>i. i\<lparr>iv_status := INV_ACCEPTED, iv_acceptedById := Some (pp_userId p), iv_acceptedAt := Some (tv_now env)\<rparr>) (td_invitations db)"
proof -
  define db1 where "db1 = set_invitations (\<lambda>i. iv_id i = iv_id v \<and> iv_status i = INV_PENDING \<and> iv_expiresAt i > tv_now env)
    (\<lambda>i. i\<lparr>iv_status := INV_ACCEPTED, iv_acceptedById := Some (pp_userId p), iv_acceptedAt := Some (tv_now env)\<rparr>) db"
  have same: "en_features db1 = en_features db" "en_planFeatures db1 = en_planFeatures db" "en_overrides db1 = en_overrides db"
    "en_subscriptions db1 = en_subscriptions db" "en_members db1 = en_members db" "en_stores db1 = en_stores db"
    "td_status db1 = td_status db" "td_next db1 = td_next db" "en_usage db1 = en_usage db" "td_access db1 = td_access db"
    by (simp_all add: db1_def set_invitations_def)
  define m where "m = \<lparr>mb_id = td_next db1, mb_userId = pp_userId p, mb_role = iv_role v, mb_status = M_ACTIVE, mb_allStores = True\<rparr>"
  have core: "team_core exact db1"
    by (rule core_of_frames[OF assms(2)])
      (use team_coreD[OF assms(2)] in \<open>simp_all add: same\<close>, simp add: db1_def set_invitations_def set_invitations_ok)
  obtain db2 where i: "inviter_entitled db1 v" and take: "take_seat (tv_now env) db1 = Inr db2"
    and rest: "bindR (insert_member (m\<lparr>mb_id := td_next db2\<rparr>) (db2\<lparr>td_next := Suc (td_next db2)\<rparr>)) (\<lambda>db4.
      Inr (auditTenant (joined_context p (m\<lparr>mb_id := td_next db2\<rparr>)) ''member.invitation_accepted'' (''Membership'', td_next db2)
        [(''role'', ROLE_CODES (iv_role v))] db4, ())) = Inr (u, y)"
    using assms(1) by (auto simp: accept_body_def Let_def bindR_eq_Inr tenant_id_def db1_def[symmetric] m_def split: if_splits)
  have con: "consume_one (tv_now env) ''staff_accounts'' db1 = Inr db2" using take by (simp add: take_seat_Inr)
  then have "td_next db2 = td_next db1" using consume_Inr(1)[OF con team_coreD(1)[OF core]] by auto
  then obtain db4 a e md where ins: "insert_member m (db2\<lparr>td_next := Suc (td_next db1)\<rparr>) = Inr db4"
    and u: "u = auditTenant (joined_context p m) a e md db4"
    using rest by (auto simp: bindR_eq_Inr m_def)
  have "Suc (td_next db1) = Suc (mb_id m)" "td_next db1 \<le> mb_id m" by (simp_all add: m_def)
  note seat = seat_taken[OF core con ins this]
  have "steady exact (tv_now env) db1 u" using seat(1) by (simp add: u steady_def grows_within_def team_gauges_def)
  then show "steady exact (tv_now env) db u"
    by (simp add: steady_def grows_within_def team_gauges_def same getFeatureLimit_def resolve_same[OF same(1-4)])
  show "td_invitations u = update_rows (\<lambda>i. iv_id i = iv_id v \<and> iv_status i = INV_PENDING \<and> iv_expiresAt i > tv_now env)
      (\<lambda>i. i\<lparr>iv_status := INV_ACCEPTED, iv_acceptedById := Some (pp_userId p), iv_acceptedAt := Some (tv_now env)\<rparr>) (td_invitations db)"
    using seat(3) by (simp add: u db1_def set_invitations_def)
  have "en_members u = en_members db @ [m]" using seat(2) by (simp add: u same)
  moreover have "inviter_entitled db v" using i by (simp add: inviter_entitled_def same)
  ultimately show "\<exists>m. en_members u = en_members db @ [m] \<and> mb_role m = iv_role v \<and> mb_userId m = pp_userId p \<and> inviter_entitled db v"
    by (auto simp: m_def)
qed

lemma live_archived:
  assumes "distinct (map so_id ss)" "s \<in> set ss" "so_id s = i" "so_status s \<noteq> STORE_ARCHIVED"
    and "\<And>s. so_status (f s) = STORE_ARCHIVED"
  shows "Suc (length (filter (\<lambda>s. so_status s \<noteq> STORE_ARCHIVED) (update_rows (\<lambda>s. so_id s = i \<and> so_status s \<noteq> STORE_ARCHIVED) f ss)))
    = length (filter (\<lambda>s. so_status s \<noteq> STORE_ARCHIVED) ss)"
proof -
  have rest: "update_rows (\<lambda>s. so_id s = i \<and> so_status s \<noteq> STORE_ARCHIVED) f xs = xs" if "i \<notin> so_id ` set xs" for xs
    using that by (induction xs) (auto simp: update_rows_def)
  show ?thesis using assms
  proof (induction ss)
    case Nil
    then show ?case by simp
  next
    case (Cons t ss)
    show ?case
    proof (cases "t = s")
      case True
      then show ?thesis using Cons.prems rest[of ss] by (simp add: update_rows_def)
    next
      case False
      then have "so_id t \<noteq> i" using Cons.prems by auto
      then show ?thesis using Cons False by (auto simp: update_rows_def)
    qed
  qed
qed

lemma archive_steady:
  assumes "archive_store_body ctx now' i db = Inr (u, y)" "team_core exact db"
  shows "steady exact now db u"
proof -
  let ?sel = "\<lambda>s. so_id s = i \<and> so_status s \<noteq> STORE_ARCHIVED" and ?f = "\<lambda>s. s\<lparr>so_status := STORE_ARCHIVED, so_archivedAt := Some now'\<rparr>"
  define ss where "ss = update_rows ?sel ?f (en_stores db)"
  define db0 where "db0 = db\<lparr>en_stores := ss\<rparr>"
  obtain db1 a e md where some: "filter ?sel (en_stores db) \<noteq> []"
    and rel: "release_one ''store_count'' db0 = Inr db1" and u: "u = auditTenant ctx a e md db1"
    using assms(1) by (auto simp: archive_store_body_def Let_def bindR_eq_Inr set_stores_def db0_def ss_def split: if_splits)
  note d = team_coreD[OF assms(2)]
  have "features_ok db0" using d(1) by (simp add: features_ok_def db0_def)
  note r = release_Inr[OF rel this]
  obtain g where db1: "db1 = db0\<lparr>en_usage := g\<rparr>" using r(1) by blast
  obtain s where "s \<in> set (en_stores db)" "?sel s" using some by (auto simp: filter_empty_conv)
  then have live: "Suc (length (filter (\<lambda>s. so_status s \<noteq> STORE_ARCHIVED) ss))
      = length (filter (\<lambda>s. so_status s \<noteq> STORE_ARCHIVED) (en_stores db))"
    using d(3) unfolding ss_def by (intro live_archived[of _ s]) (auto simp: stores_ok_def)
  have same: "recorded db0 k = recorded db k" for k by (simp add: db0_def recorded_def counter_of_def counter_at_def)
  let ?live = "int (length (filter (\<lambda>s. so_status s \<noteq> STORE_ARCHIVED) ss))"
  have less: "int (length (filter (\<lambda>s. so_status s \<noteq> STORE_ARCHIVED) (en_stores db))) = ?live + 1" using live[symmetric] by simp
  have "counts_as exact (recorded db1 ''store_count'') ?live"
    using d(6) counted_down[of exact "recorded db ''store_count''" ?live] by (simp add: counters_two less r(2) same)
  moreover have "recorded db1 ''staff_accounts'' = recorded db ''staff_accounts''"
    using r(2)[of "''staff_accounts''"] by (simp add: same)
  moreover have parts: "en_members db1 = en_members db" "en_stores db1 = ss" "td_next db1 = td_next db"
    "td_invitations db1 = td_invitations db" "td_access db1 = td_access db" "en_features db1 = en_features db" "td_status db1 = td_status db"
    by (simp_all add: db1 db0_def)
  ultimately have "counters_ok exact db1" using d(6) by (simp add: counters_two)
  moreover have "stores_ok ss (td_next db)" "map so_id ss = map so_id (en_stores db)"
    using d(3) by (auto simp: stores_ok_def ss_def map_key_update in_update_rows)
  ultimately have "team_core exact db1" using d by (simp add: team_core_def features_ok_def parts)
  then show ?thesis using live by (intro steady_shrink) (simp_all add: u parts)
qed

lemma create_store_steady:
  assumes "create_store_body env hostname ctx input db = Inr (u, y)" "team_core exact db"
  shows "steady exact (tv_now env) db u"
proof -
  obtain db1 where con: "consume_one (tv_now env) ''store_count'' db = Inr db1"
    using assms(1) by (auto simp: create_store_body_def bindR_eq_Inr)
  note d = team_coreD[OF assms(2)]
  note c = consume_Inr[OF con d(1)]
  obtain g where db1: "db1 = db\<lparr>en_usage := g\<rparr>" using c(1) by blast
  define s where "s = \<lparr>so_id = td_next db, so_slug = si_slug input, so_name = si_name input,
    so_status = STORE_DRAFT, so_businessType = si_businessType input, so_locale = si_locale input,
    so_timezone = si_timezone input, so_contactEmail = None, so_supportEmail = None, so_archivedAt = None\<rparr>"
  define rows where "rows = (if oc_allStores ctx then td_access db
    else td_access db @ [\<lparr>sa_membershipId = oc_membershipId ctx, sa_storeId = td_next db\<rparr>])"
  obtain ds a e md where slug: "\<not> list_ex (\<lambda>s. so_slug s = si_slug input) (en_stores db)"
    and member: "oc_allStores ctx \<or> list_ex (\<lambda>m. mb_id m = oc_membershipId ctx) (en_members db)"
    and u: "u = auditTenant ctx a e md (db\<lparr>en_usage := g, td_next := Suc (td_next db), en_stores := en_stores db @ [s],
      td_domains := ds, td_access := rows\<rparr>)"
    using assms(1) by (auto simp: create_store_body_def con Let_def tenant_id_def db1 rows_def s_def split: if_splits)
  have parts: "en_features u = en_features db" "en_members u = en_members db" "en_stores u = en_stores db @ [s]"
    "td_next u = Suc (td_next db)" "td_invitations u = td_invitations db" "td_access u = rows" "td_status u = td_status db"
    by (simp_all add: u)
  have counts: "recorded u j = recorded db1 j" for j by (simp add: u db1 recorded_def counter_of_def counter_at_def)
  let ?live = "int (length (filter (\<lambda>s. so_status s \<noteq> STORE_ARCHIVED) (en_stores db)))"
  have source: "counted db ''store_count'' = recorded db ''store_count''" "?live \<le> recorded db ''store_count''"
    using counted_recorded[OF d(6), of "''store_count''"] recorded_counts[OF d(6), of "''store_count''"] by (simp_all add: team_gauges_def)
  have live: "countSource u ''store_count'' = ?live + 1" by (simp add: parts s_def)
  have "recorded u ''store_count'' = recorded db ''store_count'' + 1" "recorded u ''staff_accounts'' = recorded db ''staff_accounts''"
    by (simp_all add: counts c(2) source)
  moreover have "int (length (filter (\<lambda>s. so_status s \<noteq> STORE_ARCHIVED) (en_stores u))) = ?live + 1" by (simp add: parts s_def)
  ultimately have "counters_ok exact u" using d(6) counted_up by (simp add: counters_two parts(2))
  moreover have "stores_ok (en_stores db @ [s]) (Suc (td_next db))"
    using d(3) slug by (auto simp: stores_ok_def s_def list_ex_iff)
  moreover have "td_next db \<notin> set (map so_id (en_stores db))" using d(3) by (auto simp: stores_ok_def)
  then have "access_ok (map mb_id (en_members db)) (map so_id (en_stores db @ [s])) rows"
    using d(5) member by (auto simp: access_ok_def rows_def s_def list_ex_iff intro: rev_image_eqI)
  ultimately have "team_core exact u" using d
    by (simp add: team_core_def features_ok_def parts members_ok_mono invitations_ok_mono)
  moreover have "countSource u ''store_count'' \<le> n" if "getFeatureLimit db ''store_count'' (tv_now env) = Inr (UP_TO n)" for n
    using c(3)[OF that] source by (simp only: live)
  ultimately show ?thesis
    by (auto simp: steady_def grows_within_def team_gauges_def parts max_def)
qed

lemma set_stores_steady:
  assumes "team_core exact db" "u = set_stores sel f db"
    and "\<And>s. so_id (f s) = so_id s \<and> so_slug (f s) = so_slug s \<and> (so_status (f s) = STORE_ARCHIVED \<longleftrightarrow> so_status s = STORE_ARCHIVED)"
  shows "steady exact now db u"
proof -
  have "length (filter (\<lambda>s. so_status s \<noteq> STORE_ARCHIVED) (update_rows sel f ss)) = length (filter (\<lambda>s. so_status s \<noteq> STORE_ARCHIVED) ss)" for ss
    using assms(3) by (induction ss) (auto simp: update_rows_def)
  moreover have "map so_id (update_rows sel f ss) = map so_id ss" "map so_slug (update_rows sel f ss) = map so_slug ss" for ss
    using assms(3) by (simp_all add: map_key_update)
  moreover have "stores_ok (update_rows sel f (en_stores db)) (td_next db)"
    using team_coreD(3)[OF assms(1)] assms(3) calculation by (auto simp: stores_ok_def in_update_rows)
  ultimately show ?thesis
    by (intro steady_I[OF assms(1)]) (use team_coreD[OF assms(1)] in \<open>simp_all add: assms(2) set_stores_def\<close>)
qed

lemma stores_steady:
  assumes "team_core exact db" "u = auditTenant ctx a e md (set_stores sel f db)"
    and "\<And>s. so_id (f s) = so_id s \<and> so_slug (f s) = so_slug s \<and> (so_status (f s) = STORE_ARCHIVED \<longleftrightarrow> so_status s = STORE_ARCHIVED)"
  shows "steady exact now db u"
  using set_stores_steady[OF assms(1) refl assms(3)] by (simp add: assms(2) steady_def grows_within_def team_gauges_def)

lemma update_store_steady:
  assumes "update_store_body supported ctx i data db = Inr (u, y)" "team_core exact db"
  shows "steady exact now db u"
proof -
  obtain a e md where "u = auditTenant ctx a e md (set_stores (\<lambda>s. so_id s = i) (\<lambda>s. s\<lparr>so_name := sp_name data,
      so_locale := sp_locale data, so_timezone := sp_timezone data, so_contactEmail := sp_contactEmail data,
      so_supportEmail := sp_supportEmail data\<rparr>) db)"
    using assms(1) by (auto simp: update_store_body_def bindR_eq_Inr split: if_splits)
  from stores_steady[OF assms(2) this] show ?thesis by simp
qed

lemma business_type_steady:
  assumes "business_type_body ctx i ty db = Inr (u, y)" "team_core exact db"
  shows "steady exact now db u"
proof (cases "u = db")
  case True
  then show ?thesis using assms(2) by (simp add: steady_refl)
next
  case False
  obtain a e md sel where "u = auditTenant ctx a e md (set_stores sel (\<lambda>s. s\<lparr>so_businessType := ty\<rparr>) db)"
    using assms(1) False by (auto simp: business_type_body_def Let_def bindR_eq_Inr split: if_splits)
  from stores_steady[OF assms(2) this] show ?thesis by simp
qed

text \<open>Reconciliation sets every counter to its count.\<close>

lemma reconcile_gauge_keeps:
  assumes "reconcile_gauge (db, ds) key = Inr (db', ds')" "features_ok db"
  shows "\<exists>g. db' = db\<lparr>en_usage := g\<rparr>" "recorded db' k = (if k = key then countSource db key else recorded db k)"
proof -
  obtain f where f: "find (\<lambda>f. ft_key f = key) (en_features db) = Some f" and i: "featureId db key = Inr (ft_id f)"
    using assms(1) by (auto simp: reconcile_gauge_def bindR_eq_Inr featureId_Inr)
  obtain db1 v where l: "lockCounter key (ft_id f) [] ''all'' db = (db1, v)" by (cases "lockCounter key (ft_id f) [] ''all'' db")
  note lock = lockCounter_counter[OF l f assms(2)]
  obtain g where g: "db1 = db\<lparr>en_usage := g\<rparr>" using lock(1) by blast
  have same: "countSource db1 key = countSource db key" by (simp add: g countSource_def)
  have db': "db' = (if v \<noteq> countSource db key then set_usage (usage_at (ft_id f) [] ''all'') (\<lambda>_. countSource db key) db1 else db1)"
    using assms(1) by (auto simp: reconcile_gauge_def i l Let_def same split: if_splits)
  show "\<exists>g. db' = db\<lparr>en_usage := g\<rparr>" by (auto simp: db' g set_usage_def)
  have "find (\<lambda>f. ft_key f = key) (en_features db1) = Some f" "features_ok db1" using f assms(2) by (simp_all add: g features_ok_def)
  note up = counter_update[OF this]
  show "recorded db' k = (if k = key then countSource db key else recorded db k)"
    by (simp add: db' up lock(3) recorded_def)
qed

lemma reconcile_all:
  assumes "foldR reconcile_gauge (db, ds) keys = Inr (u, ds')" "features_ok db"
  shows "(\<exists>g. u = db\<lparr>en_usage := g\<rparr>) \<and> (\<forall>k. recorded u k = (if k \<in> set keys then countSource db k else recorded db k))"
  using assms
proof (induction keys arbitrary: db ds)
  case Nil
  then show ?case by (auto intro: exI[of _ "en_usage db"])
next
  case (Cons key keys)
  obtain db1 ds1 where step: "reconcile_gauge (db, ds) key = Inr (db1, ds1)"
    and rest: "foldR reconcile_gauge (db1, ds1) keys = Inr (u, ds')"
    using Cons.prems(1) by (auto simp: bindR_eq_Inr)
  note r = reconcile_gauge_keeps[OF step Cons.prems(2)]
  obtain g where g: "db1 = db\<lparr>en_usage := g\<rparr>" using r(1) by blast
  have "features_ok db1" using Cons.prems(2) by (simp add: g features_ok_def)
  note ih = Cons.IH[OF rest this]
  have "countSource db1 k = countSource db k" for k by (simp add: g countSource_def)
  then have "recorded u k = (if k \<in> set (key # keys) then countSource db k else recorded db k)" for k
    using ih by (simp add: r(2))
  moreover have "\<exists>g. u = db\<lparr>en_usage := g\<rparr>" using ih by (auto simp: g)
  ultimately show ?case by simp
qed

lemma reconcile_steady:
  assumes "reconcileUsage db = Inr (u, ds)" "team_core exact db"
  shows "steady True now db u" "en_members u = en_members db" "td_status u = td_status db"
proof -
  have u: "(\<exists>g. u = db\<lparr>en_usage := g\<rparr>) \<and> (\<forall>k. recorded u k = (if k \<in> set GAUGE_FEATURES then countSource db k else recorded db k))"
    using reconcile_all[OF _ team_coreD(1)[OF assms(2)]] assms(1) by (simp add: reconcileUsage_def)
  then obtain g where g: "u = db\<lparr>en_usage := g\<rparr>" by blast
  show "en_members u = en_members db" "td_status u = td_status db" by (simp_all add: g)
  have "counters_ok True u" using u by (simp add: counters_two counts_as_def GAUGE_FEATURES_def) (simp add: g)
  then have "team_core True u" using assms(2) by (simp add: team_core_def features_ok_def g)
  then show "steady True now db u" by (intro steady_shrink) (simp_all add: g)
qed

lemma usage_steady:
  assumes "team_core exact db" "u = db\<lparr>en_usage := g\<rparr>" "\<And>k. k \<in> set team_gauges \<Longrightarrow> recorded u k = recorded db k"
  shows "steady exact now db u"
proof -
  have "counters_ok exact u" using assms team_coreD(6)[OF assms(1)] by (simp add: counters_ok_def team_gauges_def)
  then show ?thesis using assms(1,2) by (intro steady_shrink) (auto simp: team_core_def features_ok_def)
qed


text \<open>Deletions.\<close>

lemma request_deletion_steady:
  assumes "request_deletion_body ctx now' i db = Inr (u, y)" "team_core exact db"
  shows "steady exact now db u"
  using assms(1) team_coreD[OF assms(2)]
  by (intro steady_I[OF assms(2)]) (auto simp: request_deletion_body_def Let_def split: if_splits)

lemma cancel_deletion_steady:
  assumes "cancel_deletion_body p now' i db = Inr (u, y)" "team_core exact db"
  shows "steady exact now db u"
  using assms(1) team_coreD[OF assms(2)]
  by (intro steady_I[OF assms(2)]) (auto simp: cancel_deletion_body_def split: if_splits option.splits)

lemma counts_weaken: "counts_as exact usage n \<Longrightarrow> n' \<le> n \<Longrightarrow> counts_as False usage n'"
  by (auto simp: counts_as_def split: if_splits)

lemma consistent_weaken: "consistent_team exact db \<Longrightarrow> consistent_team False db"
  by (auto simp: consistent_team_def team_core_def counters_two intro: counts_weaken)

lemma delete_organisation_consistent:
  assumes "delete_organisation now i db = (u, r)" "consistent_team exact db"
  shows "consistent_team False u"
proof (cases r)
  case None
  then show ?thesis using assms consistent_weaken by (auto simp: delete_organisation_def split: if_splits)
next
  case (Some n)
  have core: "team_core exact db" using assms(2) by (simp add: consistent_team_def)
  note d = team_coreD[OF core]
  have u: "en_members u = []" "td_access u = []" "td_status u = ORG_DELETED" "en_features u = en_features db" "td_next u = td_next db"
    "en_stores u = map (\<lambda>s. s\<lparr>so_status := STORE_ARCHIVED, so_supportEmail := None, so_contactEmail := None\<rparr>) (en_stores db)"
    "td_invitations u = update_rows (\<lambda>i. iv_status i = INV_PENDING) (\<lambda>i. i\<lparr>iv_status := INV_REVOKED\<rparr>) (td_invitations db)"
    "en_usage u = en_usage db"
    using assms(1) Some by (auto simp: delete_organisation_def split: if_splits)
  have "recorded u k = recorded db k" for k by (simp add: recorded_def counter_of_def counter_at_def u)
  then have "counters_ok False u"
    using d(6) by (auto simp: counters_two u filter_map comp_def intro: counts_weaken)
  moreover have "stores_ok (en_stores u) (td_next u)" using d(3) by (auto simp: stores_ok_def u comp_def)
  moreover have "invitations_ok (td_invitations u) (td_next u)" using d(4) by (simp add: u set_invitations_ok)
  ultimately have "team_core False u"
    using d(1) by (simp add: team_core_def u features_ok_def members_ok_def access_ok_def)
  then show ?thesis by (simp add: consistent_team_def one_owner_def u)
qed

lemma delete_account_effect:
  assumes "delete_user_account user owns staff db = (u, ACCOUNT_DELETED)"
  shows "en_members u = filter (\<lambda>m. mb_userId m \<noteq> user) (en_members db)"
    "td_access u = filter (\<lambda>a. sa_membershipId a \<notin> set (map mb_id (filter (\<lambda>m. mb_userId m = user) (en_members db)))) (td_access db)"
    "\<exists>sel. td_invitations u = update_rows sel (\<lambda>i. i\<lparr>iv_status := INV_REVOKED\<rparr>) (td_invitations db)"
    "en_features u = en_features db" "td_next u = td_next db" "en_stores u = en_stores db" "en_usage u = en_usage db"
    "td_status u = td_status db"
    "td_status db = ORG_DELETED \<or> (\<forall>m \<in> set (en_members db). mb_userId m = user \<longrightarrow> mb_role m \<noteq> ROLE_OWNER)"
  using assms
  by (auto simp: delete_user_account_def delete_members_def Let_def list_ex_iff split: option.splits if_splits)

lemma delete_account_consistent:
  assumes "delete_user_account user owns staff db = (u, r)" "consistent_team exact db"
  shows "consistent_team False u"
proof (cases "r = ACCOUNT_DELETED")
  case False
  then show ?thesis using assms consistent_weaken
    by (auto simp: delete_user_account_def Let_def split: option.splits if_splits prod.splits)
next
  case True
  note u = delete_account_effect[OF assms(1)[unfolded True]]
  have core: "team_core exact db" using assms(2) by (simp add: consistent_team_def)
  note d = team_coreD[OF core]
  have "recorded u k = recorded db k" for k by (simp add: recorded_def counter_of_def counter_at_def u)
  then have "counters_ok False u"
    using d(6) by (auto simp: counters_two u intro: counts_weaken)
  moreover have "invitations_ok (td_invitations u) (td_next u)" using d(4) u(3) by (auto simp: u(5) set_invitations_ok)
  moreover have "access_ok (map mb_id (en_members u)) (map so_id (en_stores u)) (td_access u)"
    using d(5) by (fastforce simp: access_ok_def u)
  ultimately have "team_core False u"
    using d(1-3) by (simp add: team_core_def features_ok_def u members_ok_filter)
  moreover have "active_owners u = active_owners db" if "td_status db \<noteq> ORG_DELETED"
    using u(9) that by (auto simp: active_owners_def u(1) intro!: arg_cong[where f = length] filter_cong)
  ultimately show ?thesis using assms(2)
    by (cases "td_status db = ORG_DELETED") (simp_all add: consistent_team_def one_owner_def u)
qed

end
