(* ===== verification/Tenancy.thy ===== *)
theory Tenancy
  imports Seats
begin

section \<open>Properties of organisations\<close>

text \<open>
  One owner and true counters over any sequence of the tenancy's transactions and of what the
  platform changes beside them; who may change whose membership; who joins; growth within the plan.
\<close>

subsection \<open>Runs\<close>

text \<open>
  A step is any transaction of the package at a time, whatever context its caller holds (it may be
  older than the transaction), another service's use of a feature, or a change the platform makes
  beside it: to plans, subscriptions, overrides, users, a store's suspension and the organisation's
  status, which is never set to or from deleted this way. An invitation is accepted through the row
  its reader found, which may be stale as well.

  A run has exact usage until an account or the organisation is deleted, and again from the next
  reconciliation.
\<close>

inductive team_step :: "date \<Rightarrow> tenant_db \<Rightarrow> tenant_db \<Rightarrow> bool" for now where
  role_changed: "changeMemberRole ctx i role db = (db', r) \<Longrightarrow> team_step now db db'"
| status_changed: "setMemberStatus ctx i status db = (db', r) \<Longrightarrow> team_step now db db'"
| member_removed: "removeMember ctx i db = (db', r) \<Longrightarrow> team_step now db db'"
| access_changed: "setMemberStoreAccess ctx now i allStores stores db = (db', r) \<Longrightarrow> team_step now db db'"
| owner_changed: "transferOwnership ctx i db = (db', r) \<Longrightarrow> team_step now db db'"
| member_left: "leaveOrganisation ctx db = (db', r) \<Longrightarrow> team_step now db db'"
| invited: "createInvitation env ctx email role db = (db', r') \<Longrightarrow> tv_now env = now \<Longrightarrow> team_step now db db'"
| invitation_revoked: "revokeInvitation ctx i db = (db', r) \<Longrightarrow> team_step now db db'"
| joined: "withTenant (accept_body env p v) db = (db', r) \<Longrightarrow> tv_now env = now \<Longrightarrow> team_step now db db'"
| renamed: "renameOrganisation ctx organisation name db = (db', r) \<Longrightarrow> team_step now db db'"
| store_created: "createStore env hostname ctx input db = (db', r') \<Longrightarrow> tv_now env = now \<Longrightarrow> team_step now db db'"
| store_archived: "archiveStore ctx now i' db = (db', r) \<Longrightarrow> team_step now db db'"
| store_updated: "updateStore supported ctx i' data db = (db', r) \<Longrightarrow> team_step now db db'"
| business_changed: "changeStoreBusinessType ctx i' ty db = (db', r) \<Longrightarrow> team_step now db db'"
| deletion_requested: "requestOrganisationDeletion ctx now name i' confirm db = (db', r'') \<Longrightarrow> team_step now db db'"
| deletion_cancelled: "cancelOrganisationDeletion user now i db = (db', r) \<Longrightarrow> team_step now db db'"
| moderated: "db' = set_stores sel (\<lambda>s. if so_status s = STORE_ARCHIVED \<or> status' = STORE_ARCHIVED then s else s\<lparr>so_status := status'\<rparr>) db \<Longrightarrow>
    team_step now db db'"
| used: "consumeUsage now key sc period n db = Inr db' \<Longrightarrow> key \<notin> set team_gauges \<Longrightarrow> team_step now db db'"
| freed: "releaseUsage key sc period n db = Inr db' \<Longrightarrow> key \<notin> set team_gauges \<Longrightarrow> team_step now db db'"
| platform: "db' = db\<lparr>en_planFeatures := plans, en_overrides := overrides, en_subscriptions := subscriptions,
      en_liveProducts := products, en_mediaBytes := bytes, td_status := status, td_users := users\<rparr> \<Longrightarrow>
    td_status db = ORG_DELETED \<longleftrightarrow> status = ORG_DELETED \<Longrightarrow> team_step now db db'"

inductive team_run :: "bool \<Rightarrow> tenant_db \<Rightarrow> bool" where
  created: "createOrganisation env features users user name = (db, Inr i) \<Longrightarrow> distinct (map ft_id features) \<Longrightarrow>
    distinct (map ft_key features) \<Longrightarrow> team_run True db"
| stepped: "team_run exact db \<Longrightarrow> team_step now db db' \<Longrightarrow> team_run exact db'"
| account_deleted: "team_run exact db \<Longrightarrow> delete_user_account user owns staff db = (db', outcome) \<Longrightarrow> team_run False db'"
| organisation_deleted: "team_run exact db \<Longrightarrow> delete_organisation now i' db = (db', n) \<Longrightarrow> team_run False db'"
| reconciled: "team_run exact db \<Longrightarrow> reconcileUsage db = Inr (db', drifts) \<Longrightarrow> team_run True db'"

lemma checked_access_Inr:
  assumes "checked_access ctx m allStores stores = Inr (j, ids)"
  shows "distinct ids" "allStores \<Longrightarrow> oc_allStores ctx" "MEMBER_MANAGE \<in> oc_permissions ctx"
  using assms by (auto simp: checked_access_def bindR_eq_Inr Let_def requirePermission_def ensure_eq split: if_splits)

lemma consistent_core: "consistent_team exact db \<Longrightarrow> team_core exact db"
  by (simp add: consistent_team_def)

lemma team_step_consistent:
  assumes "team_step now db db'" "consistent_team exact db"
  shows "consistent_team exact db' \<and> grows_within now db db'"
proof -
  have core: "team_core exact db" using assms(2) by (rule consistent_core)
  note parts = team_coreD[OF core]
  note step = checked_consistent[OF _ assms(2)]
  from assms(1) show ?thesis
  proof cases
    case (role_changed ctx i role r)
    from role_changed show ?thesis unfolding changeMemberRole_def by (rule step) (rule change_role_steady[OF _ core])
  next
    case (status_changed ctx i status r)
    from status_changed show ?thesis unfolding setMemberStatus_def by (rule step) (rule member_status_steady[OF _ core])
  next
    case (member_removed ctx i r)
    from member_removed show ?thesis unfolding removeMember_def by (rule step) (rule remove_member_steady[OF _ core])
  next
    case (access_changed ctx i allStores stores r)
    then show ?thesis unfolding setMemberStoreAccess_def
      by (rule step) (auto intro: store_access_steady[OF _ core checked_access_Inr(1)])
  next
    case (owner_changed ctx i r)
    from owner_changed show ?thesis unfolding transferOwnership_def by (rule step) (rule transfer_steady[OF _ core])
  next
    case (member_left ctx r)
    from member_left show ?thesis unfolding leaveOrganisation_def by (rule step) (rule leave_steady[OF _ core])
  next
    case (invited env ctx email role r)
    from invited(1) show ?thesis unfolding createInvitation_def by (rule step) (rule invite_steady[OF _ core])
  next
    case (invitation_revoked ctx i r)
    from invitation_revoked show ?thesis unfolding revokeInvitation_def by (rule step) (rule revoke_invitation_steady[OF _ core])
  next
    case (joined env p v r)
    then have "checked_first (Inr ()) (\<lambda>_. accept_body env p v) db = (db', r)" by (simp add: checked_first_def)
    then show ?thesis by (rule step) (use accept_steady(1)[OF _ core] joined(2) in auto)
  next
    case (renamed ctx organisation name r)
    then show ?thesis unfolding renameOrganisation_def by (rule step) (use parts in \<open>auto intro!: steady_I[OF core]\<close>)
  next
    case (store_created env hostname ctx input r)
    from store_created(1) show ?thesis unfolding createStore_def
      by (rule step) (use create_store_steady[OF _ core] store_created(2) in auto)
  next
    case (store_archived ctx i r)
    from store_archived show ?thesis unfolding archiveStore_def by (rule step) (rule archive_steady[OF _ core])
  next
    case (store_updated supported ctx i data r)
    from store_updated show ?thesis unfolding updateStore_def by (rule step) (rule update_store_steady[OF _ core])
  next
    case (business_changed ctx i ty r)
    from business_changed show ?thesis unfolding changeStoreBusinessType_def by (rule step) (rule business_type_steady[OF _ core])
  next
    case (deletion_requested ctx name i confirm r)
    from deletion_requested show ?thesis unfolding requestOrganisationDeletion_def by (rule step) (rule request_deletion_steady[OF _ core])
  next
    case (deletion_cancelled user i r)
    from deletion_cancelled show ?thesis unfolding cancelOrganisationDeletion_def
      by (rule step) (auto intro: cancel_deletion_steady[OF _ core])
  next
    case (moderated sel status)
    have "steady exact now db db'" by (rule set_stores_steady[OF core moderated]) simp
    then show ?thesis using assms(2) moderated
      by (simp add: steady_def consistent_team_def one_owner_def active_owners_def set_stores_def)
  next
    case (used key sc period n)
    obtain g where "db' = db\<lparr>en_usage := g\<rparr>" using consume_other(1)[OF used(1) parts(1)] by auto
    then have "steady exact now db db'"
      by (rule usage_steady[OF core]) (use consume_other(2)[OF used(1) parts(1)] used(2) in metis)
    then show ?thesis using assms(2) \<open>db' = _\<close>
      by (simp add: steady_def consistent_team_def one_owner_def active_owners_def)
  next
    case (freed key sc period n)
    obtain g where "db' = db\<lparr>en_usage := g\<rparr>" using release_other(1)[OF freed(1) parts(1)] by auto
    then have "steady exact now db db'"
      by (rule usage_steady[OF core]) (use release_other(2)[OF freed(1) parts(1)] freed(2) in metis)
    then show ?thesis using assms(2) \<open>db' = _\<close>
      by (simp add: steady_def consistent_team_def one_owner_def active_owners_def)
  next
    case (platform plans overrides subscriptions products bytes status users)
    have "steady exact now db (db'\<lparr>td_status := td_status db\<rparr>)" by (rule steady_I[OF core]) (use parts in \<open>simp_all add: platform(1)\<close>)
    then have "team_core exact db'" by (simp add: steady_def team_core_def counters_ok_def recorded_def counter_of_def counter_at_def
        features_ok_def team_gauges_def)
    moreover have "one_owner db'"
      using assms(2) platform by (auto simp: consistent_team_def one_owner_def active_owners_def)
    ultimately show ?thesis by (simp add: consistent_team_def platform(1) grows_within_def team_gauges_def)
  qed
qed

lemma created_consistent:
  assumes "createOrganisation env features users user name = (db, Inr i)" "distinct (map ft_id features)" "distinct (map ft_key features)"
  shows "consistent_team True db"
proof -
  define db0 where "db0 = empty_tenant features users name"
  have core: "team_core True db0"
    using assms(2,3) by (simp add: team_core_def db0_def empty_tenant_def features_ok_def members_ok_def stores_ok_def
        invitations_ok_def access_ok_def counters_two counts_as_def recorded_def counter_of_def counter_at_def split: bind_splits)
  obtain p where run: "transaction (commit_tenant (create_organisation_body env p name)) db0 = (db, Inr i)"
    using assms(1) by (auto simp: createOrganisation_def checked_first_def withTenant_def db0_def split: sum.splits)
  have commit: "commit_tenant (create_organisation_body env p name) db0 = Inr (db, i)"
    using run by (auto elim!: transaction_cases)
  then have body: "create_organisation_body env p name db0 = Inr (db, i)"
    and trigger: "en_members db = en_members db0 \<or> one_owner db"
    by (auto simp: commit_tenant_def bindR_eq_Inr one_owner_def split: if_splits)
  obtain db1 where con: "consume_one (tv_now env) ''staff_accounts'' db0 = Inr db1"
    using body by (auto simp: create_organisation_body_def bindR_eq_Inr)
  define m where "m = \<lparr>mb_id = Suc (td_next db1), mb_userId = pp_userId p, mb_role = ROLE_OWNER, mb_status = M_ACTIVE, mb_allStores = True\<rparr>"
  obtain db4 a e md where ins: "insert_member m (db1\<lparr>td_next := Suc (Suc (td_next db1))\<rparr>) = Inr db4"
    and db: "db = auditTenant (joined_context p m) a e md db4"
    using body by (auto simp: create_organisation_body_def con bindR_eq_Inr tenant_id_def Let_def m_def)
  have "td_next db1 = td_next db0" using consume_Inr(1)[OF con team_coreD(1)[OF core]] by auto
  then have "Suc (Suc (td_next db1)) = Suc (mb_id m)" "td_next db0 \<le> mb_id m" by (simp_all add: m_def)
  note seat = seat_taken[OF core con ins this]
  have "one_owner db" using trigger seat(2) by (simp add: db)
  then show ?thesis using seat(1) by (simp add: consistent_team_def steady_def db)
qed

lemma reconciled_consistent:
  assumes "reconcileUsage db = Inr (db', drifts)" "consistent_team exact db"
  shows "consistent_team True db'"
  using reconcile_steady[OF assms(1) consistent_core[OF assms(2)]] assms(2)
  by (simp add: steady_def consistent_team_def one_owner_def active_owners_def)

lemma team_run_consistent: "team_run exact db \<Longrightarrow> consistent_team exact db"
  by (induction rule: team_run.induct)
    (auto intro: created_consistent delete_account_consistent delete_organisation_consistent reconciled_consistent
      dest: team_step_consistent)

subsection \<open>Authority\<close>

text \<open>Members an actor may change: others below the owner, within the actor's own permissions.\<close>

definition manageable :: "organisation_context \<Rightarrow> member_row \<Rightarrow> bool" where
  "manageable ctx m \<longleftrightarrow> mb_userId m \<noteq> oc_userId ctx \<and> mb_role m \<noteq> ROLE_OWNER \<and>
     permissionsFor (mb_role m) \<subseteq> permissionsFor (oc_role ctx)"

text \<open>What changed between two states is within the actor's reach, and grants no more than the actor has.\<close>

definition within_reach :: "organisation_context \<Rightarrow> tenant_db \<Rightarrow> tenant_db \<Rightarrow> bool" where
  "within_reach ctx db u \<longleftrightarrow>
     (\<forall>m \<in> set (en_members db). m \<in> set (en_members u) \<or> manageable ctx m) \<and>
     (\<forall>m' \<in> set (en_members u). m' \<in> set (en_members db) \<or>
       (\<exists>m \<in> set (en_members db). mb_id m = mb_id m' \<and> mb_userId m = mb_userId m' \<and> manageable ctx m \<and> manageable ctx m'
         \<and> (mb_allStores m' \<longrightarrow> mb_allStores m \<or> oc_allStores ctx))) \<and>
     (\<forall>a \<in> set (td_access u). a \<in> set (td_access db) \<or> oc_allStores ctx \<or>
       (\<exists>b \<in> set (td_access db). sa_membershipId b = oc_membershipId ctx \<and> sa_storeId b = sa_storeId a))"

lemma within_reach_refl: "within_reach ctx db db"
  by (simp add: within_reach_def)

lemma manageable_target: "loadManageableMember ctx i db = Inr t \<Longrightarrow> t \<in> set (en_members db) \<and> manageable ctx t"
  by (auto simp: loadManageable_Inr manageable_def dest: canAssignRole_subset dest!: find_Some_iff2)

text \<open>The guard of a write selects the row that was read.\<close>

lemma guard_selects:
  assumes "team_core exact db" "t \<in> set (en_members db)" "m \<in> set (en_members db)" "guard_of t m"
  shows "m = t"
  using assms team_coreD(2)[OF assms(1)] by (auto simp: guard_of_def members_ok_def distinct_map inj_on_def)

lemma updated_within_reach:
  assumes core: "team_core exact db" and t: "loadManageableMember ctx i db = Inr t"
    and ms: "en_members u = update_rows (guard_of t) f (en_members db)"
    and f: "mb_id (f t) = mb_id t" "mb_userId (f t) = mb_userId t" "manageable ctx (f t)"
      "mb_allStores (f t) \<Longrightarrow> mb_allStores t \<or> oc_allStores ctx"
    and access: "\<forall>a \<in> set (td_access u). a \<in> set (td_access db) \<or> oc_allStores ctx \<or>
       (\<exists>b \<in> set (td_access db). sa_membershipId b = oc_membershipId ctx \<and> sa_storeId b = sa_storeId a)"
  shows "within_reach ctx db u"
proof -
  note target = manageable_target[OF t]
  have sel: "m = t" if "m \<in> set (en_members db)" "guard_of t m" for m
    using guard_selects[OF core _ that] target by blast
  have "m \<in> set (en_members u) \<or> manageable ctx m" if "m \<in> set (en_members db)" for m
    using that sel[OF that] target by (force simp: ms in_update_rows)
  moreover have "m' \<in> set (en_members db) \<or>
       (\<exists>m \<in> set (en_members db). mb_id m = mb_id m' \<and> mb_userId m = mb_userId m' \<and> manageable ctx m \<and> manageable ctx m'
         \<and> (mb_allStores m' \<longrightarrow> mb_allStores m \<or> oc_allStores ctx))" if m': "m' \<in> set (en_members u)" for m'
  proof -
    obtain q where q: "q \<in> set (en_members db)" "m' = (if guard_of t q then f q else q)"
      using m' by (auto simp: ms in_update_rows)
    show ?thesis using q sel[OF q(1)] target f by (cases "guard_of t q") auto
  qed
  ultimately show ?thesis using access unfolding within_reach_def by blast
qed

lemma change_role_reach:
  assumes "change_role_body ctx i role db = Inr (u, y)" "team_core exact db" "canAssignRole (oc_role ctx) role"
  shows "within_reach ctx db u"
proof (cases "u = db")
  case True
  then show ?thesis by (simp add: within_reach_refl)
next
  case False
  obtain t db1 k a e md where t: "loadManageableMember ctx i db = Inr t"
    and m: "update_members (guard_of t) (\<lambda>m. m\<lparr>mb_role := role\<rparr>) db = Inr (db1, k)"
    and u: "u = auditTenant ctx a e md (revokeInvitationsFrom (mb_userId t) db1)"
    using assms(1) False by (auto simp: change_role_body_def bindR_eq_Inr split: if_splits)
  note eff = update_members_Inr[OF m team_coreD(2)[OF assms(2)]]
  have "manageable ctx (t\<lparr>mb_role := role\<rparr>)"
    using manageable_target[OF t] canAssignRole_subset[OF assms(3)] by (simp add: manageable_def)
  then show ?thesis
    by (intro updated_within_reach[OF assms(2) t, where f = "\<lambda>m. m\<lparr>mb_role := role\<rparr>"]) (use eff in \<open>simp_all add: u\<close>)
qed

lemma member_status_reach:
  assumes "member_status_body ctx i status db = Inr (u, y)" "team_core exact db"
  shows "within_reach ctx db u"
proof (cases "u = db")
  case True
  then show ?thesis by (simp add: within_reach_refl)
next
  case False
  obtain t db1 k a e md where t: "loadManageableMember ctx i db = Inr t"
    and m: "update_members (guard_of t) (\<lambda>m. m\<lparr>mb_status := status\<rparr>) db = Inr (db1, k)"
    and u: "u = auditTenant ctx a e md (if status = M_SUSPENDED then revokeInvitationsFrom (mb_userId t) db1 else db1)"
    using assms(1) False by (auto simp: member_status_body_def Let_def bindR_eq_Inr split: if_splits)
  note eff = update_members_Inr[OF m team_coreD(2)[OF assms(2)]]
  have "manageable ctx (t\<lparr>mb_status := status\<rparr>)" using manageable_target[OF t] by (simp add: manageable_def)
  then show ?thesis
    by (intro updated_within_reach[OF assms(2) t, where f = "\<lambda>m. m\<lparr>mb_status := status\<rparr>"]; cases "status = M_SUSPENDED")
      (use eff in \<open>simp_all add: u\<close>)
qed

lemma remove_member_reach:
  assumes "remove_member_body ctx i db = Inr (u, y)" "team_core exact db"
  shows "within_reach ctx db u"
proof -
  obtain t where t: "loadManageableMember ctx i db = Inr t"
    using assms(1) by (auto simp: remove_member_body_def bindR_eq_Inr)
  obtain db1 n where del: "delete_members (guard_of t) (revokeInvitationsFrom (mb_userId t) db) = (db1, n)"
    by (cases "delete_members (guard_of t) (revokeInvitationsFrom (mb_userId t) db)")
  obtain db2 a e md where rel: "release_one ''staff_accounts'' db1 = Inr db2" and u: "u = auditTenant ctx a e md db2"
    using assms(1) by (auto simp: remove_member_body_def t del bindR_eq_Inr assertApplied_def ensure_eq)
  have "features_ok db1" using del team_coreD(1)[OF assms(2)] by (auto simp: delete_members_def Let_def features_ok_def)
  then obtain g where "db2 = db1\<lparr>en_usage := g\<rparr>" using release_Inr(1)[OF rel] by blast
  then have "en_members u = filter (\<lambda>m. \<not> guard_of t m) (en_members db)" "set (td_access u) \<subseteq> set (td_access db)"
    using del by (auto simp: u delete_members_def Let_def)
  moreover have "manageable ctx m" if "m \<in> set (en_members db)" "guard_of t m" for m
    using guard_selects[OF assms(2) _ that] manageable_target[OF t] by blast
  ultimately show ?thesis by (auto simp: within_reach_def)
qed

lemma all_granted:
  fixes rows :: "store_access_row list"
  assumes "length (filter (\<lambda>a. sa_membershipId a = m \<and> sa_storeId a \<in> set ids) rows) = length ids" "distinct ids" "distinct rows" "i \<in> set ids"
  shows "\<exists>b \<in> set rows. sa_membershipId b = m \<and> sa_storeId b = i"
proof -
  let ?found = "filter (\<lambda>a. sa_membershipId a = m \<and> sa_storeId a \<in> set ids) rows"
  have "distinct (map sa_storeId ?found)" using assms(3)
    by (auto simp: distinct_map inj_on_def intro!: store_access_row.equality)
  then have "card (set (map sa_storeId ?found)) = length ?found" using distinct_card by fastforce
  moreover have "card (set ids) = length ids" using assms(2) by (rule distinct_card)
  moreover have "set (map sa_storeId ?found) \<subseteq> set ids" by auto
  ultimately have "set (map sa_storeId ?found) = set ids" using assms(1) by (metis List.finite_set card_subset_eq)
  then have "i \<in> sa_storeId ` set ?found" using assms(4) by auto
  then show ?thesis by auto
qed

lemma store_access_reach:
  assumes "store_access_body ctx now i allStores ids db = Inr (u, y)" "team_core exact db" "distinct ids" "allStores \<Longrightarrow> oc_allStores ctx"
  shows "within_reach ctx db u"
proof -
  define rows where "rows = (\<lambda>t :: member_row. if allStores then filter (\<lambda>a. sa_membershipId a \<noteq> mb_id t) (td_access db)
      else filter (\<lambda>a. sa_membershipId a \<noteq> mb_id t) (td_access db) @ map (\<lambda>i. \<lparr>sa_membershipId = mb_id t, sa_storeId = i\<rparr>) ids)"
  obtain t db1 k a e md where t: "loadManageableMember ctx i db = Inr t"
    and g: "\<not> allStores \<Longrightarrow> grantable_stores ctx now ids db = Inr ()"
    and m: "update_members (guard_of t) (\<lambda>m. m\<lparr>mb_allStores := allStores\<rparr>) (db\<lparr>td_access := rows t\<rparr>) = Inr (db1, k)"
    and u: "u = auditTenant ctx a e md db1"
    using assms(1) unfolding store_access_body_def bindR_eq_Inr Let_def rows_def by (auto simp: bindR_eq_Inr split: if_splits)
  note d = team_coreD[OF assms(2)]
  have eff: "en_members u = update_rows (guard_of t) (\<lambda>m. m\<lparr>mb_allStores := allStores\<rparr>) (en_members db)" "td_access u = rows t"
    using update_members_Inr(1)[OF m] d(2) by (simp_all add: u)
  have own: "\<exists>b \<in> set (td_access db). sa_membershipId b = oc_membershipId ctx \<and> sa_storeId b = j"
    if "\<not> allStores" "\<not> oc_allStores ctx" "j \<in> set ids" for j
    using all_granted[OF _ assms(3) _ that(3)] grantable_Inr[OF g[OF that(1)]] that(2) d(5) by (auto simp: access_ok_def)
  have "\<forall>a \<in> set (td_access u). a \<in> set (td_access db) \<or> oc_allStores ctx \<or>
       (\<exists>b \<in> set (td_access db). sa_membershipId b = oc_membershipId ctx \<and> sa_storeId b = sa_storeId a)"
  proof (cases "oc_allStores ctx \<or> allStores")
    case True
    then show ?thesis by (auto simp: eff(2) rows_def)
  next
    case False
    then show ?thesis using own by (auto simp: eff(2) rows_def)
  qed
  moreover have "manageable ctx (t\<lparr>mb_allStores := allStores\<rparr>)" using manageable_target[OF t] by (simp add: manageable_def)
  ultimately show ?thesis
    by (intro updated_within_reach[OF assms(2) t, where f = "\<lambda>m. m\<lparr>mb_allStores := allStores\<rparr>"]) (use eff assms(4) in simp_all)
qed

text \<open>The operations on another member.\<close>

inductive member_change :: "organisation_context \<Rightarrow> date \<Rightarrow> tenant_db \<Rightarrow> tenant_db \<Rightarrow> bool" for ctx now where
  role: "changeMemberRole ctx i role db = (db', r) \<Longrightarrow> member_change ctx now db db'"
| status: "setMemberStatus ctx i status db = (db', r) \<Longrightarrow> member_change ctx now db db'"
| removal: "removeMember ctx i db = (db', r) \<Longrightarrow> member_change ctx now db db'"
| access: "setMemberStoreAccess ctx now i allStores stores db = (db', r) \<Longrightarrow> member_change ctx now db db'"

lemma checked_reach:
  assumes "checked_first check body db = (u, r)"
    and "\<And>x v y. check = Inr x \<Longrightarrow> body x db = Inr (v, y) \<Longrightarrow> within_reach ctx db v \<and> MEMBER_MANAGE \<in> oc_permissions ctx"
  shows "within_reach ctx db u \<and> (u = db \<or> MEMBER_MANAGE \<in> oc_permissions ctx)"
proof (cases check)
  case (Inl e)
  then show ?thesis using assms(1) by (simp add: checked_first_def within_reach_refl)
next
  case (Inr x)
  then have "transaction (commit_tenant (body x)) db = (u, r)" using assms(1) by (simp add: checked_first_def withTenant_def)
  then show ?thesis
    by (rule transaction_cases)
      (auto simp: within_reach_refl commit_tenant_def bindR_eq_Inr dest!: assms(2)[OF Inr] split: if_splits)
qed

lemma member_change_reach:
  assumes "member_change ctx now db db'" "team_core exact db"
  shows "within_reach ctx db db' \<and> (db' = db \<or> MEMBER_MANAGE \<in> oc_permissions ctx)"
  using assms(1)
proof cases
  case (role i role r)
  then show ?thesis unfolding changeMemberRole_def
    by (rule checked_reach)
      (auto simp: bindR_eq_Inr requirePermission_def ensure_eq split: if_splits intro: change_role_reach[OF _ assms(2)])
next
  case (status i status r)
  then show ?thesis unfolding setMemberStatus_def
    by (rule checked_reach)
      (auto simp: bindR_eq_Inr requirePermission_def ensure_eq intro: member_status_reach[OF _ assms(2)])
next
  case (removal i r)
  then show ?thesis unfolding removeMember_def
    by (rule checked_reach)
      (auto simp: bindR_eq_Inr requirePermission_def ensure_eq intro: remove_member_reach[OF _ assms(2)])
next
  case (access i allStores stores r)
  then show ?thesis unfolding setMemberStoreAccess_def
    by (rule checked_reach) (auto dest: checked_access_Inr intro: store_access_reach[OF _ assms(2)])
qed

subsection \<open>Properties\<close>

definition seat_feature :: feature_row where
  "seat_feature = \<lparr>ft_id = 1, ft_key = ''staff_accounts'', ft_name = ''Staff accounts'', ft_type = F_LIMIT, ft_sortOrder = 1,
     ft_defaults = \<lparr>vc_enabled = True, vc_limit = Some 2, vc_unlimited = False, vc_config = CONFIG_OTHER\<rparr>\<rparr>"

definition store_feature :: feature_row where
  "store_feature = seat_feature\<lparr>ft_id := 2, ft_key := ''store_count'', ft_name := ''Stores''\<rparr>"

definition founder :: principal where
  "founder = \<lparr>pp_userId = 7, pp_email = ''a@x.in'', pp_emailVerified = True, pp_recentlyAuthenticated = True\<rparr>"

definition invitee :: principal where
  "invitee = \<lparr>pp_userId = 8, pp_email = ''b@x.in'', pp_emailVerified = True, pp_recentlyAuthenticated = True\<rparr>"

definition team_env :: tenant_env where
  "team_env = \<lparr>tv_now = 1000, tv_hash = (\<lambda>t. t), tv_token = ''abcdefghijklmnopqrstuvwxyz'', tv_allowed = True,
     tv_elsewhere = (\<lambda>_. False)\<rparr>"

definition founded :: tenant_db where
  "founded = fst (createOrganisation team_env [seat_feature, store_feature] [] (Some founder) ''Shop'')"

definition founder_context :: organisation_context where
  "founder_context = \<lparr>oc_principal = founder, oc_membershipId = 1, oc_role = ROLE_OWNER, oc_permissions = permissionsFor ROLE_OWNER,
     oc_allStores = True\<rparr>"

definition open_invitation :: tenant_db where
  "open_invitation = fst (createInvitation team_env founder_context ''b@x.in'' ROLE_ADMIN founded)"

definition pair_team :: tenant_db where
  "pair_team = fst (acceptInvitation team_env (Some invitee) ''abcdefghijklmnopqrstuvwxyz'' open_invitation)"

lemma founded_ok: "snd (createOrganisation team_env [seat_feature, store_feature] [] (Some founder) ''Shop'') = Inr 0"
  by code_simp

lemma founded_run: "team_run True founded"
proof (rule team_run.created)
  show "createOrganisation team_env [seat_feature, store_feature] [] (Some founder) ''Shop'' = (founded, Inr 0)"
    using founded_ok by (simp add: founded_def prod_eq_iff)
qed (simp_all add: seat_feature_def store_feature_def)

lemma open_invitation_run: "team_run True open_invitation"
proof (rule team_run.stepped[OF founded_run, of "tv_now team_env"])
  show "team_step (tv_now team_env) founded open_invitation"
    by (rule team_step.invited[OF _ refl]) (auto simp: open_invitation_def prod_eq_iff)
qed

lemma accept_is_step:
  assumes "acceptInvitation env user token db = (db', r)"
  shows "team_step (tv_now env) db db' \<or> db' = db"
  using assms by (auto simp: acceptInvitation_def checked_first_def split: sum.splits intro: team_step.joined)

lemma pair_team_run: "team_run True pair_team"
  using accept_is_step[of team_env "Some invitee" "''abcdefghijklmnopqrstuvwxyz''" open_invitation]
    team_run.stepped[OF open_invitation_run] open_invitation_run
  by (metis pair_team_def prod.collapse)

lemma getUsage_recorded: "getUsage db key [] ''all'' = bindR (featureId db key) (\<lambda>_. Inr (recorded db key))"
  by (auto simp: getUsage_def featureId_def recorded_def counter_of_def counter_at_def split: option.splits bind_splits)

lemma accepted_cases:
  assumes "acceptInvitation env user token db = (db', Inr y)"
  shows "\<exists>p v. user = Some p \<and> pp_emailVerified p \<and> findByToken env token db = Some v \<and> usable_invitation env db v \<and>
    same_address (iv_email v) (pp_email p) \<and> commit_tenant (accept_body env p v) db = Inr (db', y)"
  using assms
  by (auto simp: acceptInvitation_def checked_first_def withTenant_def bindR_eq_Inr fromSome_eq requireVerifiedPrincipal_def
      split: sum.splits if_splits option.splits elim!: transaction_cases)

lemma token_used:
  assumes token: "findByToken env token db = Some v"
    and rows: "td_invitations db' = update_rows (\<lambda>i. iv_id i = iv_id v \<and> iv_status i = INV_PENDING \<and> iv_expiresAt i > tv_now env)
      (\<lambda>i. i\<lparr>iv_status := INV_ACCEPTED, iv_acceptedById := Some who, iv_acceptedAt := Some (tv_now env)\<rparr>) (td_invitations db)"
    and pending: "iv_status v = INV_PENDING \<and> iv_expiresAt v > tv_now env"
  shows "findByToken env token db' = Some (v\<lparr>iv_status := INV_ACCEPTED, iv_acceptedById := Some who, iv_acceptedAt := Some (tv_now env)\<rparr>)"
proof -
  have "find P (update_rows sel f xs) = map_option (\<lambda>x. if sel x then f x else x) (find P xs)"
    if "\<And>x. P (f x) = P x" for P sel f and xs :: "invitation_row list"
    using that by (induction xs) (auto simp: update_rows_def)
  then show ?thesis using token pending by (auto simp: findByToken_def rows split: if_splits)
qed

text \<open>
  C14: whatever sequence of transactions, deletions and platform changes an organisation has been
  through, it has exactly one active owner until it is deleted, its memberships, stores and
  invitations are each unique (one membership per user, one pending invitation per address), access
  is recorded only between members and stores that exist, and the usage of seats and stores that
  plans are enforced on is the number of rows it stands for; after the deletion of an account it
  may be more, until the next reconciliation, and is never less.
\<close>

theorem team_stays_consistent:
  assumes "team_run exact db"
  shows "(td_status db = ORG_DELETED \<or> active_owners db = 1) \<and>
    members_ok (en_members db) (td_next db) \<and> stores_ok (en_stores db) (td_next db) \<and>
    invitations_ok (td_invitations db) (td_next db) \<and>
    access_ok (map mb_id (en_members db)) (map so_id (en_stores db)) (td_access db) \<and>
    (\<exists>seats stores. counts_as exact seats (int (length (en_members db))) \<and>
      counts_as exact stores (int (length (filter (\<lambda>s. so_status s \<noteq> STORE_ARCHIVED) (en_stores db)))) \<and>
      getUsage db ''staff_accounts'' [] ''all'' = bindR (featureId db ''staff_accounts'') (\<lambda>_. Inr seats) \<and>
      getUsage db ''store_count'' [] ''all'' = bindR (featureId db ''store_count'') (\<lambda>_. Inr stores))"
  using team_run_consistent[OF assms]
  by (auto simp: consistent_team_def team_core_def one_owner_def getUsage_recorded counters_two)

lemma team_stays_consistent_witness:
  "getUsage pair_team ''staff_accounts'' [] ''all'' = Inr 2 \<and> active_owners pair_team = 1"
proof -
  have "featureId pair_team ''staff_accounts'' = Inr 1" "length (en_members pair_team) = 2" "td_status pair_team = ORG_ACTIVE"
    by code_simp+
  then show ?thesis using team_stays_consistent[OF pair_team_run] by (auto simp: counts_as_def)
qed

text \<open>
  The deletion of an account that is a member of somebody else's organisation leaves its seat
  counted: nothing in \<open>app_delete_user_account\<close> or its caller releases it.
\<close>

lemma account_deletion_keeps_the_seat:
  assumes "delete_user_account user owns staff db = (u, ACCOUNT_DELETED)"
  shows "getUsage u key scope period = getUsage db key scope period \<and>
    en_members u = filter (\<lambda>m. mb_userId m \<noteq> user) (en_members db)"
  using delete_account_effect[OF assms] by (simp add: getUsage_def featureId_def)

text \<open>
  C15: no operation on a member lets its actor reach further than they do. Whatever context the
  actor holds and whatever they ask for, only other members below the owner whose permissions the
  actor has all of are changed or removed, a member ends with permissions the actor has, access to
  all stores comes only from actors who have it, and a store's access only from an actor who can
  open that store; without the permission to manage members nothing changes.
\<close>

theorem member_changes_within_reach:
  assumes "team_run exact db" "member_change ctx now db db'"
  shows "within_reach ctx db db' \<and> (db' = db \<or> MEMBER_MANAGE \<in> oc_permissions ctx)"
  by (rule member_change_reach[OF assms(2) consistent_core[OF team_run_consistent[OF assms(1)]]])

lemma member_changes_within_reach_witness:
  "within_reach founder_context pair_team (fst (changeMemberRole founder_context (Some 3) ROLE_VIEWER pair_team)) \<and>
   map mb_role (en_members (fst (changeMemberRole founder_context (Some 3) ROLE_VIEWER pair_team))) = [ROLE_OWNER, ROLE_VIEWER]"
proof -
  obtain db' r where c: "changeMemberRole founder_context (Some 3) ROLE_VIEWER pair_team = (db', r)"
    by (cases "changeMemberRole founder_context (Some 3) ROLE_VIEWER pair_team")
  have "map mb_role (en_members (fst (changeMemberRole founder_context (Some 3) ROLE_VIEWER pair_team))) = [ROLE_OWNER, ROLE_VIEWER]"
    by code_simp
  then show ?thesis
    using member_changes_within_reach[OF pair_team_run member_change.role[OF c, of 0]] by (simp add: c)
qed

text \<open>
  C29: whoever joins was invited. An accepted token is that of a pending, unexpired invitation to
  the caller's verified address, from somebody who is at that moment an active member allowed to
  manage members and who holds every permission of the role given; exactly one membership is added,
  the caller's with that role, never the owner's, and the invitation cannot be used again.
\<close>

theorem joins_are_invited:
  assumes "team_run exact db" "acceptInvitation env user token db = (db', Inr y)"
  shows "\<exists>p v m a. user = Some p \<and> pp_emailVerified p \<and>
    v \<in> set (td_invitations db) \<and> iv_tokenHash v = tv_hash env token \<and> iv_status v = INV_PENDING \<and>
    tv_now env < iv_expiresAt v \<and> same_address (iv_email v) (pp_email p) \<and>
    a \<in> set (en_members db) \<and> mb_userId a = iv_invitedById v \<and> mb_status a = M_ACTIVE \<and>
    MEMBER_MANAGE \<in> permissionsFor (mb_role a) \<and> permissionsFor (mb_role m) \<subseteq> permissionsFor (mb_role a) \<and>
    en_members db' = en_members db @ [m] \<and> mb_userId m = pp_userId p \<and> mb_role m = iv_role v \<and> mb_role m \<noteq> ROLE_OWNER \<and>
    findByToken env token db' = Some (v\<lparr>iv_status := INV_ACCEPTED, iv_acceptedById := Some (pp_userId p),
      iv_acceptedAt := Some (tv_now env)\<rparr>)"
proof -
  obtain p v where up: "user = Some p" "pp_emailVerified p" and token: "findByToken env token db = Some v"
    and use: "usable_invitation env db v" "same_address (iv_email v) (pp_email p)"
    and commit: "commit_tenant (accept_body env p v) db = Inr (db', y)"
    using accepted_cases[OF assms(2)] by blast
  have core: "team_core exact db" by (rule consistent_core[OF team_run_consistent[OF assms(1)]])
  have body: "accept_body env p v db = Inr (db', y)" using commit by (auto simp: commit_tenant_def bindR_eq_Inr split: if_splits)
  obtain m where m: "en_members db' = en_members db @ [m]" "mb_role m = iv_role v" "mb_userId m = pp_userId p"
    and inviter: "inviter_entitled db v"
    using accept_steady(2)[OF body core] by blast
  have v: "v \<in> set (td_invitations db)" "iv_tokenHash v = tv_hash env token"
    using token by (auto simp: findByToken_def dest!: find_Some_iff2 split: if_splits)
  obtain a where a: "a \<in> set (en_members db)" "mb_userId a = iv_invitedById v" "mb_status a = M_ACTIVE"
    "MEMBER_MANAGE \<in> permissionsFor (mb_role a)" "canAssignRole (mb_role a) (iv_role v)"
    using inviter by (auto simp: inviter_entitled_def dest!: find_Some_iff2 split: option.splits)
  have "findByToken env token db' = Some (v\<lparr>iv_status := INV_ACCEPTED, iv_acceptedById := Some (pp_userId p),
      iv_acceptedAt := Some (tv_now env)\<rparr>)"
    by (rule token_used[OF token accept_steady(3)[OF body core]]) (use use(1) in \<open>simp add: usable_invitation_def\<close>)
  then show ?thesis
    using up v use m a canAssignRole_subset[OF a(5)] unfolding usable_invitation_def
    by (intro exI[of _ p] exI[of _ v] exI[of _ m] exI[of _ a]) simp
qed

lemma joins_are_invited_witness:
  "acceptInvitation team_env (Some invitee) ''abcdefghijklmnopqrstuvwxyz'' open_invitation = (pair_team, Inr ()) \<and>
   (\<exists>m. en_members pair_team = en_members open_invitation @ [m] \<and> mb_userId m = 8)"
proof -
  have "snd (acceptInvitation team_env (Some invitee) ''abcdefghijklmnopqrstuvwxyz'' open_invitation) = Inr ()" by code_simp
  then have run: "acceptInvitation team_env (Some invitee) ''abcdefghijklmnopqrstuvwxyz'' open_invitation = (pair_team, Inr ())"
    by (simp add: pair_team_def prod_eq_iff)
  obtain p m where "Some invitee = Some p" "en_members pair_team = en_members open_invitation @ [m]" "mb_userId m = pp_userId p"
    using joins_are_invited[OF open_invitation_run run] by blast
  then show ?thesis using run by (auto simp: invitee_def)
qed

text \<open>
  C30: no step takes an organisation past its plan. Whatever the step, the number of members and of
  live stores after it is at most what it was or the plan's limit at that time.
\<close>

theorem teams_grow_within_plan:
  assumes "team_run exact db" "team_step now db db'" "getFeatureLimit db ''staff_accounts'' now = Inr (UP_TO seats)"
    and "getFeatureLimit db ''store_count'' now = Inr (UP_TO stores)"
  shows "int (length (en_members db')) \<le> max seats (int (length (en_members db))) \<and>
    int (length (filter (\<lambda>s. so_status s \<noteq> STORE_ARCHIVED) (en_stores db')))
      \<le> max stores (int (length (filter (\<lambda>s. so_status s \<noteq> STORE_ARCHIVED) (en_stores db))))"
  using team_step_consistent[OF assms(2) team_run_consistent[OF assms(1)]] assms(3,4)
  by (simp add: grows_within_def team_gauges_def)


lemma teams_grow_within_plan_witness:
  "getFeatureLimit open_invitation ''staff_accounts'' 1000 = Inr (UP_TO 2) \<and> length (en_members open_invitation) = 1 \<and>
   int (length (en_members pair_team)) \<le> 2"
proof -
  have limits: "getFeatureLimit open_invitation ''staff_accounts'' 1000 = Inr (UP_TO 2)"
    "getFeatureLimit open_invitation ''store_count'' 1000 = Inr (UP_TO 2)" by code_simp+
  have members: "length (en_members open_invitation) = 1" by code_simp
  have "team_step 1000 open_invitation pair_team \<or> pair_team = open_invitation"
    using accept_is_step[of team_env "Some invitee" "''abcdefghijklmnopqrstuvwxyz''" open_invitation]
    by (auto simp: pair_team_def team_env_def prod_eq_iff)
  then show ?thesis
    using teams_grow_within_plan[OF open_invitation_run _ limits] limits members by auto
qed

end
