(* ===== verification/Billing.thy ===== *)
theory Billing
  imports Team
begin

section \<open>The subscriptions of organisations\<close>

text \<open>
  \<open>packages/billing/src/state-machine.ts\<close> and \<open>subscriptions.ts\<close>: the subscription that decides
  which plan an organisation has, its state machine, and \<open>applySubscriptionChange\<close>, the only code
  that writes subscriptions. The tables are those of the platform's connection, which sees every
  organisation; what entitlements read of one organisation (\<open>Entitlements\<close>) is a view of them.
  Of a request only its identifier is kept; a null in an audit entry is the text \<open>null\<close>.
\<close>

subsection \<open>Tables\<close>

datatype billing_source = SOURCE_MANUAL | SOURCE_MOCK | SOURCE_PAYMENT_PROVIDER

datatype billing_provider_key = PROVIDER_MOCK | PROVIDER_RAZORPAY | PROVIDER_STRIPE

datatype billing_interval = PER_MONTH | PER_YEAR

datatype plan_status = PLAN_ACTIVE | PLAN_LEGACY | PLAN_ARCHIVED

datatype webhook_status = WH_RECEIVED | WH_PROCESSING | WH_PROCESSED | WH_FAILED | WH_IGNORED

datatype actor_type = ACTOR_PLATFORM_STAFF | ACTOR_SYSTEM

record subscription_state =
  bs_planId :: uuid
  bs_status :: subscription_status
  bs_billingInterval :: "billing_interval option"
  bs_startedAt :: date
  bs_trialStartsAt :: "date option"
  bs_trialEndsAt :: "date option"
  bs_currentPeriodStart :: "date option"
  bs_currentPeriodEnd :: "date option"
  bs_expiresAt :: "date option"
  bs_cancelledAt :: "date option"
  bs_pastDueSince :: "date option"
  bs_graceEndsAt :: "date option"
  bs_endedAt :: "date option"

record stored_subscription = subscription_state +
  bs_id :: uuid
  bs_organisationId :: uuid
  bs_source :: billing_source
  bs_provider :: "billing_provider_key option"
  bs_providerSubscriptionId :: "string option"
  bs_providerSyncedAt :: "date option"
  bs_updatedAt :: date

record subscription_event_row =
  se_subscriptionId :: uuid
  se_organisationId :: uuid
  se_type :: string
  se_source :: billing_source
  se_fromStatus :: "subscription_status option"
  se_toStatus :: subscription_status
  se_fromPlanId :: "uuid option"
  se_toPlanId :: uuid
  se_actorType :: actor_type
  se_actorId :: "uuid option"
  se_reason :: "string option"
  se_note :: "string option"
  se_providerEventId :: "string option"
  se_requestId :: "string option"
  se_occurredAt :: date

record plan_row =
  pl_id :: uuid
  pl_key :: string
  pl_status :: plan_status
  pl_trialDays :: int

record organisation_row =
  og_id :: uuid
  og_status :: organisation_status

record billing_customer_row =
  bc_organisationId :: uuid
  bc_provider :: billing_provider_key
  bc_providerCustomerId :: string

record stored_override = override_row +
  ov_id :: uuid
  ov_organisationId :: uuid
  ov_reason :: string
  ov_createdById :: "uuid option"
  ov_updatedById :: "uuid option"

text \<open>\<open>provider.ts\<close>: an event in Storevia's vocabulary, with the provider's snapshot.\<close>

record provider_snapshot =
  sn_subscriptionRef :: string
  sn_customerRef :: string
  sn_planKey :: string
  sn_interval :: "billing_interval option"
  sn_status :: subscription_status
  sn_startedAt :: date
  sn_trialStartsAt :: "date option"
  sn_trialEndsAt :: "date option"
  sn_currentPeriodStart :: "date option"
  sn_currentPeriodEnd :: "date option"
  sn_accessEndsAt :: "date option"
  sn_cancelledAt :: "date option"
  sn_pastDueSince :: "date option"
  sn_graceEndsAt :: "date option"
  sn_endedAt :: "date option"

datatype billing_event_type =
    EV_CREATED | EV_ACTIVATED | EV_RENEWED | EV_UPGRADED | EV_DOWNGRADED | EV_PAST_DUE
  | EV_PAYMENT_RECOVERED | EV_CANCELLED | EV_REACTIVATED | EV_EXPIRED

record billing_event =
  be_provider :: billing_provider_key
  be_eventId :: string
  be_type :: billing_event_type
  be_occurredAt :: date
  be_snapshot :: provider_snapshot
  be_snapshotVersion :: date

record webhook_row =
  wh_provider :: billing_provider_key
  wh_eventId :: string
  wh_type :: billing_event_type
  wh_status :: webhook_status
  wh_organisationId :: "uuid option"
  wh_attempts :: int
  wh_outcome :: "string option"
  wh_payload :: billing_event
  wh_processedAt :: "date option"

record actor_audit_row = audit_row +
  aa_organisationId :: uuid
  aa_actorType :: actor_type
  aa_requestId :: "string option"

text \<open>
  \<open>bd_tenants\<close> holds, per organisation, the rows only that organisation writes (its usage counters
  and what they count).
\<close>

record billing_db =
  bd_organisations :: "organisation_row list"
  bd_plans :: "plan_row list"
  bd_features :: "feature_row list"
  bd_planFeatures :: "plan_feature_row list"
  bd_overrides :: "stored_override list"
  bd_customers :: "billing_customer_row list"
  bd_subscriptions :: "stored_subscription list"
  bd_events :: "subscription_event_row list"
  bd_webhooks :: "webhook_row list"
  bd_audit :: "actor_audit_row list"
  bd_tenants :: "uuid \<Rightarrow> entitlement_db"
  bd_next :: uuid

definition billing_id :: "billing_db \<Rightarrow> billing_db \<times> uuid" where
  "billing_id db = (db\<lparr>bd_next := Suc (bd_next db)\<rparr>, bd_next db)"

text \<open>What entitlements see of a subscription and of an organisation.\<close>

definition as_entitled :: "stored_subscription \<Rightarrow> subscription_row" where
  "as_entitled s = \<lparr>su_id = bs_id s, su_status = bs_status s, su_planId = bs_planId s, su_trialEndsAt = bs_trialEndsAt s,
     su_expiresAt = bs_expiresAt s, su_graceEndsAt = bs_graceEndsAt s\<rparr>"

definition entitles :: "stored_subscription \<Rightarrow> date \<Rightarrow> bool" where
  "entitles s now = isEntitling (Some (as_entitled s)) now"

definition tenant_view :: "uuid \<Rightarrow> billing_db \<Rightarrow> entitlement_db" where
  "tenant_view organisationId db = (bd_tenants db organisationId)
     \<lparr>en_features := bd_features db, en_planFeatures := bd_planFeatures db,
      en_overrides := map override_row.truncate (filter (\<lambda>r. ov_organisationId r = organisationId) (bd_overrides db)),
      en_subscriptions := map as_entitled (filter (\<lambda>s. bs_organisationId s = organisationId) (bd_subscriptions db))\<rparr>"

text \<open>Rows are read with \<open>findUniqueOrThrow\<close> or \<open>update\<close>, which throw when there is none.\<close>

definition row_missing :: domain_error where
  "row_missing = FAULT (THROWN ''P2025'')"

subsection \<open>The state machine\<close>

fun SUBSCRIPTION_TRANSITIONS :: "subscription_status option \<Rightarrow> subscription_status list" where
  "SUBSCRIPTION_TRANSITIONS None = [SUB_TRIAL, SUB_ACTIVE]"
| "SUBSCRIPTION_TRANSITIONS (Some SUB_TRIAL) = [SUB_TRIAL, SUB_ACTIVE, SUB_PAST_DUE, SUB_CANCELLED, SUB_EXPIRED]"
| "SUBSCRIPTION_TRANSITIONS (Some SUB_ACTIVE) = [SUB_ACTIVE, SUB_PAST_DUE, SUB_CANCELLED, SUB_EXPIRED]"
| "SUBSCRIPTION_TRANSITIONS (Some SUB_PAST_DUE) = [SUB_PAST_DUE, SUB_ACTIVE, SUB_CANCELLED, SUB_EXPIRED]"
| "SUBSCRIPTION_TRANSITIONS (Some SUB_CANCELLED) = [SUB_CANCELLED, SUB_ACTIVE, SUB_EXPIRED]"
| "SUBSCRIPTION_TRANSITIONS (Some SUB_EXPIRED) = []"

definition canTransition :: "subscription_status option \<Rightarrow> subscription_status \<Rightarrow> bool" where
  "canTransition from_status to_status \<longleftrightarrow> to_status \<in> set (SUBSCRIPTION_TRANSITIONS from_status)"

definition transitionAllowed :: "stored_subscription option \<Rightarrow> subscription_status \<Rightarrow> date \<Rightarrow> bool \<Rightarrow> bool" where
  "transitionAllowed current next_status at mirror = (case current of
     None \<Rightarrow> mirror \<or> canTransition None next_status
   | Some c \<Rightarrow>
       if \<not> canTransition (Some (bs_status c)) next_status then False
       else if bs_status c = SUB_CANCELLED \<and> next_status = SUB_ACTIVE \<and> \<not> entitles c at then False
       else True)"

fun SUBSCRIPTION_CODES :: "subscription_status \<Rightarrow> string" where
  "SUBSCRIPTION_CODES SUB_TRIAL = ''TRIAL''"
| "SUBSCRIPTION_CODES SUB_ACTIVE = ''ACTIVE''"
| "SUBSCRIPTION_CODES SUB_PAST_DUE = ''PAST_DUE''"
| "SUBSCRIPTION_CODES SUB_CANCELLED = ''CANCELLED''"
| "SUBSCRIPTION_CODES SUB_EXPIRED = ''EXPIRED''"

definition IllegalTransitionError :: "subscription_status option \<Rightarrow> subscription_status \<Rightarrow> domain_error" where
  "IllegalTransitionError from_status to_status = DOMAIN_CONFLICT (''A subscription can't move from ''
     @ (case from_status of None \<Rightarrow> ''nothing'' | Some s \<Rightarrow> SUBSCRIPTION_CODES s) @ '' to ''
     @ SUBSCRIPTION_CODES to_status @ ''.'')"

subsection \<open>Reading\<close>

datatype subscription_key = BY_ID uuid | BY_REF billing_provider_key string

definition lockSubscription :: "billing_db \<Rightarrow> subscription_key \<Rightarrow> stored_subscription option" where
  "lockSubscription db key = (case key of
     BY_ID i \<Rightarrow> find (\<lambda>s. bs_id s = i) (bd_subscriptions db)
   | BY_REF p r \<Rightarrow> find (\<lambda>s. bs_provider s = Some p \<and> bs_providerSubscriptionId s = Some r) (bd_subscriptions db))"

definition lockLiveSubscription :: "billing_db \<Rightarrow> uuid \<Rightarrow> stored_subscription option" where
  "lockLiveSubscription db organisationId =
     (case find (\<lambda>s. bs_organisationId s = organisationId \<and> bs_status s \<noteq> SUB_EXPIRED) (bd_subscriptions db) of
        None \<Rightarrow> None | Some row \<Rightarrow> lockSubscription db (BY_ID (bs_id row)))"

definition stateOf :: "stored_subscription \<Rightarrow> subscription_state" where
  "stateOf sub = \<lparr>bs_planId = bs_planId sub, bs_status = bs_status sub, bs_billingInterval = bs_billingInterval sub,
     bs_startedAt = bs_startedAt sub, bs_trialStartsAt = bs_trialStartsAt sub, bs_trialEndsAt = bs_trialEndsAt sub,
     bs_currentPeriodStart = bs_currentPeriodStart sub, bs_currentPeriodEnd = bs_currentPeriodEnd sub,
     bs_expiresAt = bs_expiresAt sub, bs_cancelledAt = bs_cancelledAt sub, bs_pastDueSince = bs_pastDueSince sub,
     bs_graceEndsAt = bs_graceEndsAt sub, bs_endedAt = bs_endedAt sub\<rparr>"

subsection \<open>Checks of a state\<close>

definition not_before :: "date option \<Rightarrow> date option \<Rightarrow> bool" where
  "not_before first second = (case (first, second) of (Some a, Some b) \<Rightarrow> a \<ge> b | _ \<Rightarrow> False)"

definition assertStateInvariants :: "subscription_state \<Rightarrow> domain_error + unit" where
  "assertStateInvariants state =
     (if bs_status state = SUB_TRIAL \<and> bs_trialEndsAt state = None
      then Inl (VALIDATION_FAILED [] ''A trial needs an end date.'')
      else if not_before (bs_trialStartsAt state) (bs_trialEndsAt state)
      then Inl (VALIDATION_FAILED [] ''The trial must end after it starts.'')
      else if bs_status state = SUB_PAST_DUE \<and> (bs_pastDueSince state = None \<or> bs_graceEndsAt state = None)
      then Inl (VALIDATION_FAILED [] ''A past-due subscription needs a grace period.'')
      else if bs_status state = SUB_CANCELLED \<and> (bs_cancelledAt state = None \<or> bs_expiresAt state = None)
      then Inl (VALIDATION_FAILED [] ''A cancelled subscription needs an access end date.'')
      else if bs_status state = SUB_EXPIRED \<and> bs_endedAt state = None
      then Inl (VALIDATION_FAILED [] ''An expired subscription needs an end date.'')
      else if not_before (bs_currentPeriodStart state) (bs_currentPeriodEnd state)
      then Inl (VALIDATION_FAILED [] ''The billing period must end after it starts.'')
      else Inr ())"

text \<open>The CHECK constraints of the table.\<close>

definition source_provider_check :: "stored_subscription \<Rightarrow> bool" where
  "source_provider_check s \<longleftrightarrow>
     bs_source s = SOURCE_MANUAL \<and> bs_provider s = None \<and> bs_providerSubscriptionId s = None
   \<or> bs_source s = SOURCE_MOCK \<and> bs_provider s = Some PROVIDER_MOCK \<and> bs_providerSubscriptionId s \<noteq> None
   \<or> bs_source s = SOURCE_PAYMENT_PROVIDER \<and> bs_provider s \<in> {Some PROVIDER_RAZORPAY, Some PROVIDER_STRIPE}
       \<and> bs_providerSubscriptionId s \<noteq> None"

definition status_date_checks :: "'a subscription_state_scheme \<Rightarrow> bool" where
  "status_date_checks s \<longleftrightarrow>
     (bs_status s \<noteq> SUB_TRIAL \<or> bs_trialEndsAt s \<noteq> None)
   \<and> \<not> not_before (bs_trialStartsAt s) (bs_trialEndsAt s)
   \<and> (bs_status s \<noteq> SUB_PAST_DUE \<or> bs_pastDueSince s \<noteq> None \<and> bs_graceEndsAt s \<noteq> None)
   \<and> (bs_status s \<noteq> SUB_CANCELLED \<or> bs_cancelledAt s \<noteq> None \<and> bs_expiresAt s \<noteq> None)
   \<and> (bs_status s \<noteq> SUB_EXPIRED \<or> bs_endedAt s \<noteq> None)
   \<and> \<not> not_before (bs_currentPeriodStart s) (bs_currentPeriodEnd s)"

text \<open>What the database checks when it writes a row: the constraints, unique indexes and references.\<close>

definition live_of :: "uuid \<Rightarrow> stored_subscription \<Rightarrow> bool" where
  "live_of organisationId s \<longleftrightarrow> bs_organisationId s = organisationId \<and> bs_status s \<noteq> SUB_EXPIRED"

definition same_reference :: "stored_subscription \<Rightarrow> stored_subscription \<Rightarrow> bool" where
  "same_reference row s \<longleftrightarrow> bs_provider s = bs_provider row \<and> bs_providerSubscriptionId s = bs_providerSubscriptionId row"

definition checked_row :: "stored_subscription \<Rightarrow> billing_db \<Rightarrow> domain_error + billing_db" where
  "checked_row row db =
     (if \<not> source_provider_check row then Inl (FAULT (VIOLATES ''Subscription_source_provider''))
      else if \<not> status_date_checks row then Inl (FAULT (VIOLATES ''Subscription_dates''))
      else if length (filter (live_of (bs_organisationId row)) (bd_subscriptions db)) > 1
      then Inl (FAULT (VIOLATES ''Subscription_one_live_per_organisation''))
      else if bs_provider row \<noteq> None \<and> bs_providerSubscriptionId row \<noteq> None
        \<and> length (filter (same_reference row) (bd_subscriptions db)) > 1
      then Inl (FAULT (VIOLATES ''Subscription_provider_providerSubscriptionId_key''))
      else if bs_planId row \<notin> set (map pl_id (bd_plans db)) then Inl (FAULT (VIOLATES ''Subscription_planId_fkey''))
      else if bs_organisationId row \<notin> set (map og_id (bd_organisations db))
      then Inl (FAULT (VIOLATES ''Subscription_organisationId_fkey''))
      else Inr db)"

text \<open>The columns an update writes; \<open>updatedAt\<close> is Prisma's.\<close>

definition written :: "date \<Rightarrow> subscription_state \<Rightarrow> date option \<Rightarrow> stored_subscription \<Rightarrow> stored_subscription" where
  "written now state syncedAt row = row\<lparr>bs_planId := bs_planId state, bs_status := bs_status state,
     bs_billingInterval := bs_billingInterval state, bs_startedAt := bs_startedAt state,
     bs_trialStartsAt := bs_trialStartsAt state, bs_trialEndsAt := bs_trialEndsAt state,
     bs_currentPeriodStart := bs_currentPeriodStart state, bs_currentPeriodEnd := bs_currentPeriodEnd state,
     bs_expiresAt := bs_expiresAt state, bs_cancelledAt := bs_cancelledAt state,
     bs_pastDueSince := bs_pastDueSince state, bs_graceEndsAt := bs_graceEndsAt state, bs_endedAt := bs_endedAt state,
     bs_providerSyncedAt := (case syncedAt of None \<Rightarrow> bs_providerSyncedAt row | Some v \<Rightarrow> Some v),
     bs_updatedAt := now\<rparr>"

definition updateSubscription ::
  "date \<Rightarrow> uuid \<Rightarrow> subscription_state \<Rightarrow> date option \<Rightarrow> billing_db \<Rightarrow> domain_error + billing_db" where
  "updateSubscription now i state syncedAt db =
     (case lockSubscription db (BY_ID i) of
        None \<Rightarrow> Inl row_missing
      | Some row \<Rightarrow> checked_row (written now state syncedAt row)
          (db\<lparr>bd_subscriptions := update_rows (\<lambda>s. bs_id s = i) (written now state syncedAt) (bd_subscriptions db)\<rparr>))"

record subscription_origin =
  or_source :: billing_source
  or_provider :: "billing_provider_key option"
  or_providerSubscriptionId :: "string option"

definition new_subscription ::
  "date \<Rightarrow> uuid \<Rightarrow> uuid \<Rightarrow> subscription_origin \<Rightarrow> subscription_state \<Rightarrow> date option \<Rightarrow> stored_subscription" where
  "new_subscription now i organisationId origin state syncedAt =
     \<lparr>bs_planId = bs_planId state, bs_status = bs_status state, bs_billingInterval = bs_billingInterval state,
      bs_startedAt = bs_startedAt state, bs_trialStartsAt = bs_trialStartsAt state, bs_trialEndsAt = bs_trialEndsAt state,
      bs_currentPeriodStart = bs_currentPeriodStart state, bs_currentPeriodEnd = bs_currentPeriodEnd state,
      bs_expiresAt = bs_expiresAt state, bs_cancelledAt = bs_cancelledAt state, bs_pastDueSince = bs_pastDueSince state,
      bs_graceEndsAt = bs_graceEndsAt state, bs_endedAt = bs_endedAt state, bs_id = i,
      bs_organisationId = organisationId, bs_source = or_source origin, bs_provider = or_provider origin,
      bs_providerSubscriptionId = or_providerSubscriptionId origin, bs_providerSyncedAt = syncedAt, bs_updatedAt = now\<rparr>"

definition createSubscription ::
  "date \<Rightarrow> uuid \<Rightarrow> subscription_origin \<Rightarrow> subscription_state \<Rightarrow> date option \<Rightarrow> billing_db
   \<Rightarrow> domain_error + (billing_db \<times> uuid)" where
  "createSubscription now organisationId origin state syncedAt db =
     (let (db1, i) = billing_id db; row = new_subscription now i organisationId origin state syncedAt
      in bindR (checked_row row (db1\<lparr>bd_subscriptions := bd_subscriptions db1 @ [row]\<rparr>)) (\<lambda>db2. Inr (db2, i)))"

subsection \<open>One change\<close>

datatype change_actor = BY_STAFF uuid "string option" | BY_SYSTEM "string option"

fun actor_columns :: "change_actor \<Rightarrow> actor_type \<times> uuid option \<times> string option" where
  "actor_columns (BY_STAFF userId request) = (ACTOR_PLATFORM_STAFF, Some userId, request)"
| "actor_columns (BY_SYSTEM request) = (ACTOR_SYSTEM, None, request)"

record subscription_change =
  sg_organisationId :: uuid
  sg_current :: "stored_subscription option"
  sg_origin :: "subscription_origin option"
  sg_next :: subscription_state
  sg_providerSyncedAt :: "date option"
  sg_mirror :: bool
  sg_eventType :: string
  sg_auditAction :: string
  sg_actor :: change_actor
  sg_reason :: "string option"
  sg_note :: "string option"
  sg_providerEventId :: "string option"
  sg_occurredAt :: date
  sg_planBefore :: "string option"
  sg_planAfter :: string
  sg_extraAudit :: "(string \<times> string) list"

text \<open>Texts of an audit entry; later entries of an object spread replace earlier ones in place.\<close>

fun SOURCE_CODES :: "billing_source \<Rightarrow> string" where
  "SOURCE_CODES SOURCE_MANUAL = ''MANUAL''"
| "SOURCE_CODES SOURCE_MOCK = ''MOCK''"
| "SOURCE_CODES SOURCE_PAYMENT_PROVIDER = ''PAYMENT_PROVIDER''"

fun INTERVAL_CODES :: "billing_interval \<Rightarrow> string" where
  "INTERVAL_CODES PER_MONTH = ''MONTH''"
| "INTERVAL_CODES PER_YEAR = ''YEAR''"

definition nullable :: "('a \<Rightarrow> string) \<Rightarrow> 'a option \<Rightarrow> string" where
  "nullable code v = (case v of None \<Rightarrow> ''null'' | Some x \<Rightarrow> code x)"

definition spread :: "(string \<times> string) list \<Rightarrow> (string \<times> string) list \<Rightarrow> (string \<times> string) list" where
  "spread base extra = foldl (\<lambda>m (key, value). AList.update key value m) base extra"

definition given :: "string \<Rightarrow> string option \<Rightarrow> (string \<times> string) list" where
  "given key v = (case v of None \<Rightarrow> [] | Some t \<Rightarrow> if t = [] then [] else [(key, t)])"

definition change_metadata :: "billing_source \<Rightarrow> subscription_change \<Rightarrow> (string \<times> string) list" where
  "change_metadata source change = (let current = sg_current change; state = sg_next change in
     spread
       ([(''source'', SOURCE_CODES source), (''eventType'', sg_eventType change), (''plan'', sg_planAfter change),
         (''previousPlan'', nullable id (sg_planBefore change)), (''status'', SUBSCRIPTION_CODES (bs_status state)),
         (''previousStatus'', nullable (SUBSCRIPTION_CODES \<circ> bs_status) current),
         (''interval'', nullable INTERVAL_CODES (bs_billingInterval state)),
         (''previousInterval'', nullable INTERVAL_CODES (Option.bind current bs_billingInterval)),
         (''expiresAt'', nullable toISOString (bs_expiresAt state)),
         (''previousExpiresAt'', nullable toISOString (Option.bind current bs_expiresAt)),
         (''trialEndsAt'', nullable toISOString (bs_trialEndsAt state))]
        @ given ''reason'' (sg_reason change) @ given ''providerEventId'' (sg_providerEventId change))
       (sg_extraAudit change))"

definition recordActorAudit ::
  "uuid \<Rightarrow> change_actor \<Rightarrow> string \<Rightarrow> string \<times> uuid \<Rightarrow> (string \<times> string) list \<Rightarrow> billing_db \<Rightarrow> billing_db" where
  "recordActorAudit organisationId actor action entity metadata db =
     (let (ty, actorId, requestId) = actor_columns actor in
      db\<lparr>bd_audit := bd_audit db @ [\<lparr>au_actor = actorId, au_action = action, au_entity = entity,
        au_metadata = sanitiseMetadata metadata, aa_organisationId = organisationId, aa_actorType = ty,
        aa_requestId = requestId\<rparr>]\<rparr>)"

text \<open>History rows, with the limits of their texts.\<close>

definition event_of :: "uuid \<Rightarrow> billing_source \<Rightarrow> subscription_change \<Rightarrow> subscription_event_row" where
  "event_of i source change = (let (ty, actorId, requestId) = actor_columns (sg_actor change) in
     \<lparr>se_subscriptionId = i, se_organisationId = sg_organisationId change, se_type = sg_eventType change,
      se_source = source, se_fromStatus = map_option bs_status (sg_current change),
      se_toStatus = bs_status (sg_next change), se_fromPlanId = map_option bs_planId (sg_current change),
      se_toPlanId = bs_planId (sg_next change), se_actorType = ty, se_actorId = actorId,
      se_reason = sg_reason change, se_note = sg_note change, se_providerEventId = sg_providerEventId change,
      se_requestId = requestId, se_occurredAt = sg_occurredAt change\<rparr>)"

definition at_most :: "nat \<Rightarrow> string option \<Rightarrow> bool" where
  "at_most n v = (case v of None \<Rightarrow> True | Some t \<Rightarrow> length t \<le> n)"

definition insert_event :: "subscription_event_row \<Rightarrow> billing_db \<Rightarrow> domain_error + billing_db" where
  "insert_event e db =
     (if \<not> at_most 500 (se_reason e) then Inl (FAULT (VIOLATES ''SubscriptionEvent_reason_length''))
      else if \<not> at_most 2000 (se_note e) then Inl (FAULT (VIOLATES ''SubscriptionEvent_note_length''))
      else Inr (db\<lparr>bd_events := bd_events db @ [e]\<rparr>))"

text \<open>The row is written before its history and its audit entry; a create needs an origin.\<close>

definition write_change :: "date \<Rightarrow> subscription_change \<Rightarrow> billing_db \<Rightarrow> domain_error + (billing_db \<times> uuid \<times> billing_source)" where
  "write_change now change db = (case sg_current change of
     Some c \<Rightarrow> bindR (updateSubscription now (bs_id c) (sg_next change) (sg_providerSyncedAt change) db)
       (\<lambda>db1. Inr (db1, bs_id c, bs_source c))
   | None \<Rightarrow>
       bindR (fromSome (FAULT (THROWN ''origin is required to create a subscription'')) (sg_origin change)) (\<lambda>origin.
       bindR (createSubscription now (sg_organisationId change) origin (sg_next change) (sg_providerSyncedAt change) db)
       (\<lambda>(db1, i). Inr (db1, i, or_source origin))))"

definition mirrors :: "subscription_change \<Rightarrow> bool" where
  "mirrors change \<longleftrightarrow> sg_mirror change \<and> sg_current change = None
     \<and> map_option or_source (sg_origin change) \<noteq> Some SOURCE_MANUAL"

record applied_change =
  ac_subscriptionId :: uuid
  ac_before :: "stored_subscription option"
  ac_after :: subscription_state

definition applySubscriptionChange ::
  "date \<Rightarrow> subscription_change \<Rightarrow> billing_db \<Rightarrow> domain_error + (billing_db \<times> applied_change)" where
  "applySubscriptionChange now change db =
     (if sg_current change \<noteq> None \<and> map_option bs_organisationId (sg_current change) \<noteq> Some (sg_organisationId change)
      then Inl (FAULT (THROWN ''subscription belongs to another organisation''))
      else if \<not> transitionAllowed (sg_current change) (bs_status (sg_next change)) (sg_occurredAt change) (mirrors change)
      then Inl (IllegalTransitionError (map_option bs_status (sg_current change)) (bs_status (sg_next change)))
      else
      bindR (assertStateInvariants (sg_next change)) (\<lambda>_.
      bindR (write_change now change db) (\<lambda>(db1, i, source).
      bindR (insert_event (event_of i source change) db1) (\<lambda>db2.
      Inr (recordActorAudit (sg_organisationId change) (sg_actor change) (sg_auditAction change) (''Subscription'', i)
             (change_metadata source change) db2,
        \<lparr>ac_subscriptionId = i, ac_before = sg_current change, ac_after = sg_next change\<rparr>)))))"

end
