(* ===== verification/Webhooks.thy ===== *)
theory Webhooks
  imports Billing
begin

section \<open>Billing events of a provider, and expiry\<close>

text \<open>
  \<open>packages/billing/src/webhooks.ts\<close>, \<open>sweep.ts\<close> and \<open>registry.ts\<close>. A delivery is verified and parsed
  by its provider (cryptography and JSON: arguments), recorded in the ledger of events, and applied
  in one transaction of its own. The diagnostic column \<open>lastError\<close>, logs and metrics are left out;
  listeners of entitlement changes run after the commit and change no row.
\<close>

subsection \<open>Results\<close>

datatype ingest_outcome = IN_PROCESSED | IN_DUPLICATE | IN_IGNORED | IN_REJECTED | IN_FAILED | IN_NOT_FOUND

record ingest_result =
  ir_status :: int
  ir_outcome :: ingest_outcome
  ir_detail :: "string option"
  ir_eventId :: "string option"
  ir_organisationId :: "uuid option"

record processed_event =
  pr_outcome :: ingest_outcome
  pr_detail :: "string option"
  pr_organisationId :: "uuid option"

fun HTTP :: "ingest_outcome \<Rightarrow> int" where
  "HTTP IN_PROCESSED = 200"
| "HTTP IN_DUPLICATE = 200"
| "HTTP IN_IGNORED = 200"
| "HTTP IN_REJECTED = 400"
| "HTTP IN_FAILED = 500"
| "HTTP IN_NOT_FOUND = 404"

definition ingest_answer :: "ingest_outcome \<Rightarrow> string option \<Rightarrow> string option \<Rightarrow> uuid option \<Rightarrow> ingest_result" where
  "ingest_answer outcome detail eventId organisationId = \<lparr>ir_status = HTTP outcome, ir_outcome = outcome, ir_detail = detail,
     ir_eventId = eventId, ir_organisationId = organisationId\<rparr>"

fun EVENT_CODES :: "billing_event_type \<Rightarrow> string" where
  "EVENT_CODES EV_CREATED = ''created''"
| "EVENT_CODES EV_ACTIVATED = ''activated''"
| "EVENT_CODES EV_RENEWED = ''renewed''"
| "EVENT_CODES EV_UPGRADED = ''upgraded''"
| "EVENT_CODES EV_DOWNGRADED = ''downgraded''"
| "EVENT_CODES EV_PAST_DUE = ''past_due''"
| "EVENT_CODES EV_PAYMENT_RECOVERED = ''payment_recovered''"
| "EVENT_CODES EV_CANCELLED = ''cancelled''"
| "EVENT_CODES EV_REACTIVATED = ''reactivated''"
| "EVENT_CODES EV_EXPIRED = ''expired''"

fun PROVIDER_CODES :: "billing_provider_key \<Rightarrow> string" where
  "PROVIDER_CODES PROVIDER_MOCK = ''MOCK''"
| "PROVIDER_CODES PROVIDER_RAZORPAY = ''RAZORPAY''"
| "PROVIDER_CODES PROVIDER_STRIPE = ''STRIPE''"

subsection \<open>A snapshot as columns\<close>

definition or_given :: "'a option \<Rightarrow> 'a \<Rightarrow> 'a option" where
  "or_given v instead = Some (case v of None \<Rightarrow> instead | Some x \<Rightarrow> x)"

definition stateFromSnapshot :: "billing_event \<Rightarrow> uuid \<Rightarrow> subscription_state" where
  "stateFromSnapshot event planId = (let s = be_snapshot event in
     \<lparr>bs_planId = planId, bs_status = sn_status s, bs_billingInterval = sn_interval s, bs_startedAt = sn_startedAt s,
      bs_trialStartsAt = sn_trialStartsAt s, bs_trialEndsAt = sn_trialEndsAt s,
      bs_currentPeriodStart = sn_currentPeriodStart s, bs_currentPeriodEnd = sn_currentPeriodEnd s,
      bs_expiresAt = (if sn_status s = SUB_CANCELLED then sn_accessEndsAt s else None),
      bs_cancelledAt = (if sn_status s = SUB_CANCELLED then or_given (sn_cancelledAt s) (be_occurredAt event) else None),
      bs_pastDueSince = (if sn_status s = SUB_PAST_DUE then or_given (sn_pastDueSince s) (be_occurredAt event) else None),
      bs_graceEndsAt = (if sn_status s = SUB_PAST_DUE then sn_graceEndsAt s else None),
      bs_endedAt = (if sn_status s = SUB_EXPIRED then or_given (sn_endedAt s) (be_occurredAt event) else None)\<rparr>)"

definition sourceOf :: "billing_provider_key \<Rightarrow> billing_source" where
  "sourceOf provider = (if provider = PROVIDER_MOCK then SOURCE_MOCK else SOURCE_PAYMENT_PROVIDER)"

subsection \<open>The ledger of events\<close>

definition ledger_row :: "billing_event \<Rightarrow> webhook_row \<Rightarrow> bool" where
  "ledger_row event w \<longleftrightarrow> wh_provider w = be_provider event \<and> wh_eventId w = be_eventId event"

text \<open>\<open>createMany\<close> with \<open>skipDuplicates\<close>.\<close>

definition record_delivery :: "billing_event \<Rightarrow> billing_db \<Rightarrow> billing_db" where
  "record_delivery event db =
     (if list_ex (ledger_row event) (bd_webhooks db) then db
      else db\<lparr>bd_webhooks := bd_webhooks db @ [\<lparr>wh_provider = be_provider event, wh_eventId = be_eventId event,
        wh_type = be_type event, wh_status = WH_RECEIVED, wh_organisationId = None, wh_attempts = 0, wh_outcome = None,
        wh_payload = event, wh_processedAt = None\<rparr>]\<rparr>)"

definition finish ::
  "date \<Rightarrow> billing_event \<Rightarrow> webhook_status \<Rightarrow> string option \<Rightarrow> uuid option \<Rightarrow> billing_db \<Rightarrow> domain_error + billing_db" where
  "finish now event status outcome organisationId db =
     (if \<not> list_ex (ledger_row event) (bd_webhooks db) then Inl row_missing
      else Inr (db\<lparr>bd_webhooks := update_rows (ledger_row event) (\<lambda>w. w\<lparr>wh_status := status, wh_organisationId := organisationId,
        wh_attempts := wh_attempts w + 1, wh_outcome := outcome, wh_processedAt := Some now\<rparr>) (bd_webhooks db)\<rparr>))"

definition ignore_event ::
  "date \<Rightarrow> billing_event \<Rightarrow> string \<Rightarrow> uuid option \<Rightarrow> billing_db \<Rightarrow> domain_error + (billing_db \<times> processed_event)" where
  "ignore_event now event detail organisationId db =
     bindR (finish now event WH_IGNORED (Some detail) organisationId db) (\<lambda>db1.
     Inr (db1, \<lparr>pr_outcome = IN_IGNORED, pr_detail = Some detail, pr_organisationId = organisationId\<rparr>))"

subsection \<open>Applying an event\<close>

text \<open>The reads and checks before any write: why an event is ignored, or what it applies to.\<close>

datatype verdict =
    IGNORE string "uuid option"
  | ADMIT uuid "stored_subscription option" plan_row

definition judge :: "billing_db \<Rightarrow> billing_event \<Rightarrow> verdict" where
  "judge db event =
     (case find (\<lambda>c. bc_provider c = be_provider event \<and> bc_providerCustomerId c = sn_customerRef (be_snapshot event))
         (bd_customers db) of
        None \<Rightarrow> IGNORE ''unknown_subscription'' None
      | Some customer \<Rightarrow>
          let organisationId = bc_organisationId customer;
              existing = lockSubscription db (BY_REF (be_provider event) (sn_subscriptionRef (be_snapshot event))) in
          if (case existing of None \<Rightarrow> False | Some e \<Rightarrow> bs_organisationId e \<noteq> organisationId)
          then IGNORE ''customer_mismatch'' (Some organisationId)
          else if (case Option.bind existing bs_providerSyncedAt of None \<Rightarrow> False | Some v \<Rightarrow> be_snapshotVersion event < v)
          then IGNORE ''stale'' (Some organisationId)
          else case find (\<lambda>p. pl_key p = sn_planKey (be_snapshot event)) (bd_plans db) of
            None \<Rightarrow> IGNORE ''unknown_plan'' (Some organisationId)
          | Some plan \<Rightarrow>
              if pl_status plan = PLAN_ARCHIVED then IGNORE ''archived_plan'' (Some organisationId)
              else case assertStateInvariants (stateFromSnapshot event (pl_id plan)) of
                Inl e \<Rightarrow> IGNORE ''invalid_state'' (Some organisationId)
              | Inr _ \<Rightarrow> ADMIT organisationId existing plan)"

text \<open>What every change of an event has in common.\<close>

definition event_change ::
  "billing_event \<Rightarrow> string option \<Rightarrow> uuid \<Rightarrow> plan_row \<Rightarrow> stored_subscription option \<Rightarrow> string option \<Rightarrow> subscription_change" where
  "event_change event requestId organisationId plan current planBefore =
     \<lparr>sg_organisationId = organisationId, sg_current = current,
      sg_origin = (case current of Some _ \<Rightarrow> None
        | None \<Rightarrow> Some \<lparr>or_source = sourceOf (be_provider event), or_provider = Some (be_provider event),
            or_providerSubscriptionId = Some (sn_subscriptionRef (be_snapshot event))\<rparr>),
      sg_next = stateFromSnapshot event (pl_id plan), sg_providerSyncedAt = Some (be_snapshotVersion event),
      sg_mirror = (current = None), sg_eventType = EVENT_CODES (be_type event),
      sg_auditAction = ''billing.subscription.synced'', sg_actor = BY_SYSTEM requestId,
      sg_reason = Some (toLowerCase (PROVIDER_CODES (be_provider event)) @ '' event '' @ EVENT_CODES (be_type event)),
      sg_note = None, sg_providerEventId = Some (be_eventId event), sg_occurredAt = be_occurredAt event,
      sg_planBefore = planBefore, sg_planAfter = pl_key plan, sg_extraAudit = []\<rparr>"

definition plan_key_of :: "billing_db \<Rightarrow> uuid \<Rightarrow> domain_error + string" where
  "plan_key_of db planId = fromSome row_missing (map_option pl_key (find (\<lambda>p. pl_id p = planId) (bd_plans db)))"

text \<open>The end of a subscription, at a date: what supersession, the sweep and staff write.\<close>

definition ended_state :: "stored_subscription \<Rightarrow> date \<Rightarrow> subscription_state" where
  "ended_state sub at = (stateOf sub)\<lparr>bs_status := SUB_EXPIRED, bs_endedAt := Some at\<rparr>"

definition superseding :: "billing_event \<Rightarrow> string option \<Rightarrow> uuid \<Rightarrow> stored_subscription \<Rightarrow> string \<Rightarrow> subscription_change" where
  "superseding event requestId organisationId live key =
     \<lparr>sg_organisationId = organisationId, sg_current = Some live, sg_origin = None,
      sg_next = ended_state live (be_occurredAt event), sg_providerSyncedAt = None, sg_mirror = False,
      sg_eventType = ''superseded'', sg_auditAction = ''billing.subscription.superseded'', sg_actor = BY_SYSTEM requestId,
      sg_reason = Some (''Replaced by a '' @ toLowerCase (PROVIDER_CODES (be_provider event)) @ '' subscription''),
      sg_note = None, sg_providerEventId = Some (be_eventId event), sg_occurredAt = be_occurredAt event,
      sg_planBefore = Some key, sg_planAfter = key, sg_extraAudit = []\<rparr>"

definition supersede_live ::
  "date \<Rightarrow> billing_event \<Rightarrow> string option \<Rightarrow> uuid \<Rightarrow> stored_subscription \<Rightarrow> billing_db \<Rightarrow> domain_error + billing_db" where
  "supersede_live now event requestId organisationId live db =
     bindR (plan_key_of db (bs_planId live)) (\<lambda>key.
     bindR (applySubscriptionChange now (superseding event requestId organisationId live key) db) (\<lambda>(db1, _). Inr db1))"

definition finish_processed ::
  "date \<Rightarrow> billing_event \<Rightarrow> uuid \<Rightarrow> billing_db \<Rightarrow> domain_error + (billing_db \<times> processed_event)" where
  "finish_processed now event organisationId db =
     bindR (finish now event WH_PROCESSED None (Some organisationId) db) (\<lambda>db1.
     Inr (db1, \<lparr>pr_outcome = IN_PROCESSED, pr_detail = None, pr_organisationId = Some organisationId\<rparr>))"

definition live_version :: "stored_subscription \<Rightarrow> date" where
  "live_version live = (case bs_providerSyncedAt live of None \<Rightarrow> bs_updatedAt live | Some v \<Rightarrow> v)"

text \<open>The first event seen of a provider's subscription is mirrored; it replaces an older live one.\<close>

definition first_observation ::
  "date \<Rightarrow> billing_event \<Rightarrow> string option \<Rightarrow> uuid \<Rightarrow> plan_row \<Rightarrow> billing_db \<Rightarrow> domain_error + (billing_db \<times> processed_event)" where
  "first_observation now event requestId organisationId plan db =
     (let live = (if sn_status (be_snapshot event) \<noteq> SUB_EXPIRED then lockLiveSubscription db organisationId else None) in
      if (case live of None \<Rightarrow> False | Some l \<Rightarrow> be_snapshotVersion event \<le> live_version l)
      then ignore_event now event ''stale'' (Some organisationId) db
      else
      bindR (case live of None \<Rightarrow> Inr db | Some l \<Rightarrow> supersede_live now event requestId organisationId l db) (\<lambda>db1.
      bindR (applySubscriptionChange now (event_change event requestId organisationId plan None None) db1) (\<lambda>(db2, _).
      finish_processed now event organisationId db2)))"

definition later_observation ::
  "date \<Rightarrow> billing_event \<Rightarrow> string option \<Rightarrow> uuid \<Rightarrow> plan_row \<Rightarrow> stored_subscription \<Rightarrow> billing_db
   \<Rightarrow> domain_error + (billing_db \<times> processed_event)" where
  "later_observation now event requestId organisationId plan existing db =
     (if \<not> transitionAllowed (Some existing) (sn_status (be_snapshot event)) (be_occurredAt event) False
      then ignore_event now event ''illegal_transition'' (Some organisationId) db
      else
      bindR (plan_key_of db (bs_planId existing)) (\<lambda>key.
      bindR (applySubscriptionChange now (event_change event requestId organisationId plan (Some existing) (Some key)) db)
      (\<lambda>(db1, _). finish_processed now event organisationId db1)))"

definition apply_event ::
  "date \<Rightarrow> billing_event \<Rightarrow> string option \<Rightarrow> billing_db \<Rightarrow> domain_error + (billing_db \<times> processed_event)" where
  "apply_event now event requestId db =
     (if (case find (ledger_row event) (bd_webhooks db) of None \<Rightarrow> False | Some w \<Rightarrow> wh_status w \<in> {WH_PROCESSED, WH_IGNORED})
      then Inr (db, \<lparr>pr_outcome = IN_DUPLICATE, pr_detail = None, pr_organisationId = None\<rparr>)
      else case judge db event of
        IGNORE detail organisationId \<Rightarrow> ignore_event now event detail organisationId db
      | ADMIT organisationId existing plan \<Rightarrow> (case existing of
          None \<Rightarrow> first_observation now event requestId organisationId plan db
        | Some e \<Rightarrow> later_observation now event requestId organisationId plan e db))"

subsection \<open>A delivery\<close>

datatype verification_failure = MISSING_SIGNATURE | INVALID_SIGNATURE | STALE_SIGNATURE

fun VERIFICATION_CODES :: "verification_failure \<Rightarrow> string" where
  "VERIFICATION_CODES MISSING_SIGNATURE = ''missing_signature''"
| "VERIFICATION_CODES INVALID_SIGNATURE = ''invalid_signature''"
| "VERIFICATION_CODES STALE_SIGNATURE = ''stale_signature''"

record 'd billing_provider =
  bp_key :: billing_provider_key
  bp_verify :: "'d \<Rightarrow> date \<Rightarrow> verification_failure option"
  bp_parse :: "'d \<Rightarrow> billing_event option"

definition isMockBillingEnabled :: "(string \<Rightarrow> string option) \<Rightarrow> bool" where
  "isMockBillingEnabled env =
     (let stage = env ''STOREVIA_ENV''; flag = (env ''BILLING_MOCK_ENABLED'' = Some ''true'') in
      if stage = Some ''staging'' then flag
      else if stage = Some ''development'' \<or> stage = Some ''test''
      then (if env ''NODE_ENV'' = Some ''production'' then flag else True)
      else False)"

text \<open>The registry: the mock provider is the only one; its secret must be long enough.\<close>

definition getBillingProvider ::
  "(string \<Rightarrow> string option) \<Rightarrow> (string \<Rightarrow> 'd billing_provider) \<Rightarrow> string \<Rightarrow> domain_error + 'd billing_provider option" where
  "getBillingProvider env mock key =
     (if toLowerCase key = ''mock'' \<and> isMockBillingEnabled env
      then (case env ''MOCK_BILLING_WEBHOOK_SECRET'' of
          None \<Rightarrow> Inl (FAULT (THROWN ''MOCK_BILLING_WEBHOOK_SECRET must be set (32+ characters) to enable mock billing''))
        | Some secret \<Rightarrow>
            if length secret < 32
            then Inl (FAULT (THROWN ''MOCK_BILLING_WEBHOOK_SECRET must be set (32+ characters) to enable mock billing''))
            else Inr (Some (mock secret)))
      else Inr None)"

definition fail_event :: "billing_event \<Rightarrow> billing_db \<Rightarrow> billing_db" where
  "fail_event event db = db\<lparr>bd_webhooks := update_rows (ledger_row event)
     (\<lambda>w. w\<lparr>wh_status := WH_FAILED, wh_attempts := wh_attempts w + 1\<rparr>) (bd_webhooks db)\<rparr>"

text \<open>A parsed event: the ledger, the transaction, and what the provider is told.\<close>

definition ingest_event :: "date \<Rightarrow> billing_event \<Rightarrow> string option \<Rightarrow> billing_db \<Rightarrow> billing_db \<times> ingest_result" where
  "ingest_event now event requestId db =
     (case transaction (apply_event now event requestId) (record_delivery event db) of
        (db1, Inr p) \<Rightarrow> (db1, ingest_answer (pr_outcome p) (pr_detail p) (Some (be_eventId event)) (pr_organisationId p))
      | (db1, Inl e) \<Rightarrow> (fail_event event db1,
          ingest_answer IN_FAILED (Some ''processing_error'') (Some (be_eventId event)) None))"

definition ingestBillingWebhook ::
  "'d billing_provider option \<Rightarrow> 'd \<Rightarrow> date \<Rightarrow> string option \<Rightarrow> billing_db \<Rightarrow> billing_db \<times> ingest_result" where
  "ingestBillingWebhook provider delivery now requestId db = (case provider of
     None \<Rightarrow> (db, ingest_answer IN_NOT_FOUND None None None)
   | Some p \<Rightarrow> (case bp_verify p delivery now of
       Some failure \<Rightarrow> (db, ingest_answer IN_REJECTED (Some (VERIFICATION_CODES failure)) None None)
     | None \<Rightarrow> (case bp_parse p delivery of
         None \<Rightarrow> (db, ingest_answer IN_REJECTED (Some ''invalid_payload'') None None)
       | Some event \<Rightarrow> ingest_event now event requestId db)))"

subsection \<open>The expiry sweep\<close>

definition reached :: "date option \<Rightarrow> date \<Rightarrow> bool" where
  "reached ending now = (case ending of None \<Rightarrow> False | Some d \<Rightarrow> d \<le> now)"

definition due_for_expiry :: "date \<Rightarrow> stored_subscription \<Rightarrow> bool" where
  "due_for_expiry now s \<longleftrightarrow> bs_source s = SOURCE_MANUAL \<and>
     (bs_status s = SUB_TRIAL \<and> reached (bs_trialEndsAt s) now
    \<or> bs_status s = SUB_ACTIVE \<and> reached (bs_expiresAt s) now
    \<or> bs_status s = SUB_PAST_DUE \<and> reached (bs_graceEndsAt s) now
    \<or> bs_status s = SUB_CANCELLED \<and> reached (bs_expiresAt s) now)"

definition expiring :: "uuid \<Rightarrow> stored_subscription \<Rightarrow> date \<Rightarrow> string \<Rightarrow> subscription_change" where
  "expiring organisationId current now key =
     \<lparr>sg_organisationId = organisationId, sg_current = Some current, sg_origin = None,
      sg_next = ended_state current now, sg_providerSyncedAt = None, sg_mirror = False, sg_eventType = ''expired'',
      sg_auditAction = ''billing.subscription.expired'', sg_actor = BY_SYSTEM None, sg_reason = Some ''Scheduled expiry'',
      sg_note = None, sg_providerEventId = None, sg_occurredAt = now, sg_planBefore = Some key, sg_planAfter = key,
      sg_extraAudit = []\<rparr>"

definition expire_due :: "date \<Rightarrow> uuid \<times> uuid \<Rightarrow> billing_db \<Rightarrow> domain_error + (billing_db \<times> bool)" where
  "expire_due now candidate db = (case candidate of (i, organisationId) \<Rightarrow>
     (case lockSubscription db (BY_ID i) of
        None \<Rightarrow> Inr (db, False)
      | Some current \<Rightarrow>
          if bs_status current = SUB_EXPIRED \<or> entitles current now then Inr (db, False)
          else
          bindR (plan_key_of db (bs_planId current)) (\<lambda>key.
          bindR (applySubscriptionChange now (expiring organisationId current now key) db) (\<lambda>(db1, _). Inr (db1, True)))))"

text \<open>One transaction per candidate; an error stops the loop after what was committed.\<close>

fun sweep_each :: "date \<Rightarrow> (uuid \<times> uuid) list \<Rightarrow> int \<Rightarrow> billing_db \<Rightarrow> billing_db \<times> (domain_error + int)" where
  "sweep_each now [] n db = (db, Inr n)"
| "sweep_each now (c # cs) n db = (case transaction (expire_due now c) db of
     (db1, Inl e) \<Rightarrow> (db1, Inl e)
   | (db1, Inr changed) \<Rightarrow> sweep_each now cs (if changed then n + 1 else n) db1)"

definition sweepSubscriptionExpiry :: "date \<Rightarrow> billing_db \<Rightarrow> billing_db \<times> (domain_error + int)" where
  "sweepSubscriptionExpiry now db =
     sweep_each now (take 500 (map (\<lambda>s. (bs_id s, bs_organisationId s)) (filter (due_for_expiry now) (bd_subscriptions db)))) 0 db"

subsection \<open>The end of an organisation\<close>

text \<open>
  What \<open>app_delete_organisation\<close> does to the rows of this state. It writes the table itself, so
  there is no history and no audit entry of the subscription.
\<close>

definition end_organisation :: "date \<Rightarrow> uuid \<Rightarrow> billing_db \<Rightarrow> billing_db" where
  "end_organisation now target db = db
     \<lparr>bd_organisations := update_rows (\<lambda>r. og_id r = target) (\<lambda>r. r\<lparr>og_status := ORG_DELETED\<rparr>) (bd_organisations db),
      bd_subscriptions := update_rows (live_of target) (\<lambda>s. s\<lparr>bs_status := SUB_EXPIRED,
        bs_endedAt := (case bs_endedAt s of None \<Rightarrow> Some now | Some d \<Rightarrow> Some d), bs_updatedAt := now\<rparr>) (bd_subscriptions db)\<rparr>"

end
