(* ===== verification/Manual.thy ===== *)
theory Manual
  imports Webhooks
begin

section \<open>Subscriptions managed by staff\<close>

text \<open>
  \<open>packages/billing/src/manual.ts\<close> and the checks of \<open>packages/tenancy/src/platform.ts\<close>: an operation is
  the check of the staff member's permission and recent password, the input's checks, then one
  transaction that writes the change, its history and its audit entry. Inputs come parsed by their
  schemas, identifiers as what \<open>parsePublicId\<close> makes of them (None: malformed); a configuration as
  what \<open>JSON.parse\<close> makes of its text (None: not JSON). An error's field messages repeat its message
  and are left out where it is not a validation error.
\<close>

subsection \<open>Staff\<close>

record staff_row =
  pt_userId :: uuid
  pt_role :: platform_role
  pt_active :: bool
  pt_userActive :: bool

record platform_context =
  px_principal :: principal
  px_role :: platform_role
  px_permissions :: "platform_permission set"
  px_requestId :: "string option"

definition requirePlatformStaff ::
  "staff_row list \<Rightarrow> principal option \<Rightarrow> string option \<Rightarrow> domain_error + platform_context" where
  "requirePlatformStaff staff_table user request = (case user of
     None \<Rightarrow> Inl UNAUTHENTICATED
   | Some p \<Rightarrow>
       if \<not> pp_emailVerified p then Inl (FORBIDDEN [])
       else case find (\<lambda>r. pt_userId r = pp_userId p) staff_table of
         None \<Rightarrow> Inl (FORBIDDEN [])
       | Some staff \<Rightarrow>
           if \<not> pt_active staff \<or> \<not> pt_userActive staff then Inl (FORBIDDEN [])
           else Inr \<lparr>px_principal = p, px_role = pt_role staff, px_permissions = platformPermissionsFor (pt_role staff),
             px_requestId = request\<rparr>)"

definition hasPlatformPermission :: "platform_context \<Rightarrow> platform_permission \<Rightarrow> bool" where
  "hasPlatformPermission ctx p \<longleftrightarrow> p \<in> px_permissions ctx"

definition requirePlatformPermission :: "platform_context \<Rightarrow> platform_permission \<Rightarrow> domain_error + unit" where
  "requirePlatformPermission ctx p = ensure (p \<in> px_permissions ctx) (FORBIDDEN [])"

definition requirePlatformStepUp :: "platform_context \<Rightarrow> domain_error + unit" where
  "requirePlatformStepUp ctx = ensure (pp_recentlyAuthenticated (px_principal ctx))
     (REAUTHENTICATION_REQUIRED ''Confirm your password to make billing changes.'')"

definition authorise :: "platform_context \<Rightarrow> platform_permission \<Rightarrow> domain_error + unit" where
  "authorise ctx p = bindR (requirePlatformPermission ctx p) (\<lambda>_. requirePlatformStepUp ctx)"

definition px_userId :: "platform_context \<Rightarrow> uuid" where
  "px_userId ctx = pp_userId (px_principal ctx)"

definition actorOf :: "platform_context \<Rightarrow> change_actor" where
  "actorOf ctx = BY_STAFF (px_userId ctx) (px_requestId ctx)"

subsection \<open>Transactions\<close>

text \<open>\<open>inTransaction\<close>: a violated unique index is reported as a conflict.\<close>

definition unique_indexes :: "string list" where
  "unique_indexes = [''Subscription_one_live_per_organisation'', ''Subscription_provider_providerSubscriptionId_key'',
     ''OrganisationFeatureOverride_organisationId_featureId_key'']"

definition conflicted :: "domain_error \<Rightarrow> domain_error" where
  "conflicted e = (case e of
     FAULT (VIOLATES c) \<Rightarrow> if c \<in> set unique_indexes
       then DOMAIN_CONFLICT ''This organisation's subscription changed at the same time. Reload and try again.'' else e
   | _ \<Rightarrow> e)"

definition inTransaction ::
  "(billing_db \<Rightarrow> domain_error + (billing_db \<times> 'b)) \<Rightarrow> billing_db \<Rightarrow> billing_db \<times> (domain_error + 'b)" where
  "inTransaction body db = (case transaction body db of (db1, r) \<Rightarrow> (db1, liftE conflicted r))"

definition after_checks ::
  "domain_error + 'c \<Rightarrow> ('c \<Rightarrow> billing_db \<Rightarrow> domain_error + (billing_db \<times> 'b)) \<Rightarrow> billing_db
   \<Rightarrow> billing_db \<times> (domain_error + 'b)" where
  "after_checks check body db = (case check of Inl e \<Rightarrow> (db, Inl e) | Inr x \<Rightarrow> inTransaction (body x) db)"

definition loadOrganisation :: "billing_db \<Rightarrow> uuid option \<Rightarrow> domain_error + uuid" where
  "loadOrganisation db publicId = bindR (public_id publicId) (\<lambda>i.
     case find (\<lambda>r. og_id r = i) (bd_organisations db) of
       None \<Rightarrow> Inl NOT_FOUND
     | Some org \<Rightarrow> if og_status org = ORG_DELETED then Inl NOT_FOUND else Inr i)"

definition fieldError :: "string \<Rightarrow> string \<Rightarrow> domain_error" where
  "fieldError field message = VALIDATION_FAILED field message"

definition assignablePlan :: "billing_db \<Rightarrow> string \<Rightarrow> domain_error + plan_row" where
  "assignablePlan db key = (case find (\<lambda>p. pl_key p = key) (bd_plans db) of
     None \<Rightarrow> Inl (fieldError ''planKey'' ''Choose an available plan.'')
   | Some plan \<Rightarrow> if pl_status plan \<noteq> PLAN_ACTIVE then Inl (fieldError ''planKey'' ''Choose an available plan.'') else Inr plan)"

text \<open>The live subscription the form was showing.\<close>

definition lockManual :: "date \<Rightarrow> billing_db \<Rightarrow> uuid \<Rightarrow> uuid option \<Rightarrow> bool \<Rightarrow> domain_error + stored_subscription" where
  "lockManual now db organisationId subscription allowEnded =
     bindR (public_id subscription) (\<lambda>subscriptionId.
     case lockLiveSubscription db organisationId of
       None \<Rightarrow> Inl (DOMAIN_CONFLICT ''This subscription has changed. Reload the page and try again.'')
     | Some live \<Rightarrow>
         if bs_id live \<noteq> subscriptionId
         then Inl (DOMAIN_CONFLICT ''This subscription has changed. Reload the page and try again.'')
         else if bs_source live \<noteq> SOURCE_MANUAL \<and> \<not> (allowEnded \<and> \<not> entitles live now)
         then Inl (DOMAIN_CONFLICT ''This subscription is managed by a billing provider. Change it through the provider.'')
         else Inr live)"

subsection \<open>Limits after a change\<close>

definition limit_text :: "feature_limit \<Rightarrow> string" where
  "limit_text l = (case l of UP_TO n \<Rightarrow> show_int n | NO_LIMIT \<Rightarrow> ''unlimited'')"

definition describeOverLimit :: "usage_line list \<Rightarrow> string" where
  "describeOverLimit lines = joinWith '', '' (map (\<lambda>l. toLowerCase (ul_name l) @ '' ('' @ show_int (ul_usage l) @ '' of ''
     @ limit_text (ul_limit l) @ '')'') lines)"

definition over_limit_error :: "usage_line list \<Rightarrow> domain_error" where
  "over_limit_error lines = DOMAIN_CONFLICT (''After this change the organisation is over its limit for ''
     @ describeOverLimit lines @ ''. Nothing is deleted: existing resources keep working and new ones are blocked. Confirm to continue.'')"

definition overLimitNow :: "date \<Rightarrow> billing_db \<Rightarrow> uuid \<Rightarrow> uuid option \<Rightarrow> domain_error + usage_line list" where
  "overLimitNow now db organisationId planId =
     bindR (previewUsageForPlan (tenant_view organisationId db) planId now) (\<lambda>lines. Inr (filter ul_overLimit lines))"

definition precheck :: "date \<Rightarrow> billing_db \<Rightarrow> uuid \<Rightarrow> uuid option \<Rightarrow> bool \<Rightarrow> domain_error + usage_line list" where
  "precheck now db organisationId planId acknowledged =
     bindR (overLimitNow now db organisationId planId) (\<lambda>over.
     if over \<noteq> [] \<and> \<not> acknowledged then Inl (over_limit_error over) else Inr over)"

definition entitlingPlanId :: "date \<Rightarrow> billing_db \<Rightarrow> uuid \<Rightarrow> uuid option" where
  "entitlingPlanId now db organisationId = entitling_plan (tenant_view organisationId db) now"

definition acknowledgeNewOverLimit ::
  "date \<Rightarrow> billing_db \<Rightarrow> uuid \<Rightarrow> usage_line list \<Rightarrow> bool \<Rightarrow> domain_error + usage_line list" where
  "acknowledgeNewOverLimit now db organisationId before acknowledged =
     bindR (overLimitNow now db organisationId (entitlingPlanId now db organisationId)) (\<lambda>after.
     let newly = filter (\<lambda>l. \<not> list_ex (\<lambda>b. ul_key b = ul_key l) before) after in
     if newly \<noteq> [] \<and> \<not> acknowledged then Inl (over_limit_error newly) else Inr after)"

definition DAY :: int where
  "DAY = 24 * 3600 * 1000"

definition FUTURE_SKEW_MS :: int where
  "FUTURE_SKEW_MS = 5 * 60 * 1000"

definition MAX_GRACE_EXTENSION_DAYS :: int where
  "MAX_GRACE_EXTENSION_DAYS = 60"

definition assertFuture :: "date \<Rightarrow> string \<Rightarrow> date option \<Rightarrow> string \<Rightarrow> domain_error + unit" where
  "assertFuture now field d message = ensure (\<not> reached d now) (fieldError field message)"

definition over_limit_audit :: "usage_line list \<Rightarrow> (string \<times> string) list" where
  "over_limit_audit over = [(''overLimit'', if over = [] then ''null'' else joinWith '','' (map ul_key over))]"

subsection \<open>Inputs\<close>

record manual_input =
  mn_organisation :: "uuid option"
  mn_reason :: string
  mn_note :: "string option"

record assign_input = manual_input +
  ai_planKey :: string
  ai_trial :: bool
  ai_billingInterval :: "billing_interval option"
  ai_startedAt :: "date option"
  ai_trialStartsAt :: "date option"
  ai_trialEndsAt :: "date option"
  ai_expiresAt :: "date option"

record subscription_input = manual_input +
  ui_subscription :: "uuid option"

record change_input = subscription_input +
  ci_planKey :: string
  ci_billingInterval :: "billing_interval option"
  ci_trialEndsAt :: "date option"
  ci_expiresAt :: "date option"
  ci_acknowledged :: bool

record manual_result =
  mr_subscriptionId :: "uuid option"
  mr_overLimit :: "usage_line list"

text \<open>What every staff change of a subscription has in common.\<close>

definition staff_change ::
  "platform_context \<Rightarrow> date \<Rightarrow> 'a manual_input_scheme \<Rightarrow> uuid \<Rightarrow> stored_subscription option \<Rightarrow> subscription_state
   \<Rightarrow> string \<Rightarrow> string \<Rightarrow> string option \<Rightarrow> string \<Rightarrow> (string \<times> string) list \<Rightarrow> subscription_change" where
  "staff_change ctx now data organisationId current state eventType auditAction planBefore planAfter extra =
     \<lparr>sg_organisationId = organisationId, sg_current = current,
      sg_origin = (case current of Some _ \<Rightarrow> None
        | None \<Rightarrow> Some \<lparr>or_source = SOURCE_MANUAL, or_provider = None, or_providerSubscriptionId = None\<rparr>),
      sg_next = state, sg_providerSyncedAt = None, sg_mirror = False, sg_eventType = eventType,
      sg_auditAction = auditAction, sg_actor = actorOf ctx, sg_reason = Some (mn_reason data), sg_note = mn_note data,
      sg_providerEventId = None, sg_occurredAt = now, sg_planBefore = planBefore, sg_planAfter = planAfter,
      sg_extraAudit = extra\<rparr>"

subsection \<open>Operations on a subscription\<close>

definition or_date :: "date option \<Rightarrow> date option \<Rightarrow> date option" where
  "or_date v instead = (case v of None \<Rightarrow> instead | Some d \<Rightarrow> Some d)"

definition started_at :: "date \<Rightarrow> assign_input \<Rightarrow> date" where
  "started_at now data = (case ai_startedAt data of None \<Rightarrow> now | Some d \<Rightarrow> d)"

text \<open>The trial's dates of a new subscription: its defaults and checks.\<close>

definition trial_dates :: "date \<Rightarrow> assign_input \<Rightarrow> plan_row \<Rightarrow> domain_error + (date option \<times> date option)" where
  "trial_dates now data plan =
     (if \<not> ai_trial data then Inr (None, None)
      else
      let starts = (case ai_trialStartsAt data of None \<Rightarrow> started_at now data | Some d \<Rightarrow> d);
          ends = (case ai_trialEndsAt data of Some d \<Rightarrow> d
            | None \<Rightarrow> starts + (if pl_trialDays plan > 1 then pl_trialDays plan else 1) * DAY) in
      bindR (assertFuture now ''trialEndsAt'' (Some ends) ''The trial must end in the future.'') (\<lambda>_.
      if ends \<le> starts then Inl (fieldError ''trialEndsAt'' ''The trial must end after it starts.'')
      else Inr (Some starts, Some ends)))"

definition assign_body ::
  "platform_context \<Rightarrow> date \<Rightarrow> assign_input \<Rightarrow> billing_db \<Rightarrow> domain_error + (billing_db \<times> manual_result)" where
  "assign_body ctx now data db =
     bindR (loadOrganisation db (mn_organisation data)) (\<lambda>organisationId.
     bindR (assignablePlan db (ai_planKey data)) (\<lambda>plan.
     if lockLiveSubscription db organisationId \<noteq> None
     then Inl (DOMAIN_CONFLICT ''This organisation already has a live subscription. Change it, or expire it first.'')
     else
     bindR (trial_dates now data plan) (\<lambda>(trialStartsAt, trialEndsAt).
     let state = \<lparr>bs_planId = pl_id plan, bs_status = (if ai_trial data then SUB_TRIAL else SUB_ACTIVE),
           bs_billingInterval = ai_billingInterval data, bs_startedAt = started_at now data,
           bs_trialStartsAt = trialStartsAt, bs_trialEndsAt = trialEndsAt, bs_currentPeriodStart = None,
           bs_currentPeriodEnd = None, bs_expiresAt = ai_expiresAt data, bs_cancelledAt = None, bs_pastDueSince = None,
           bs_graceEndsAt = None, bs_endedAt = None\<rparr> in
     bindR (applySubscriptionChange now (staff_change ctx now data organisationId None state
         (if ai_trial data then ''trial_started'' else ''assigned'')
         (if ai_trial data then ''billing.subscription.trial_started'' else ''billing.subscription.assigned'')
         None (pl_key plan) []) db) (\<lambda>(db1, applied).
     bindR (overLimitNow now db1 organisationId (Some (pl_id plan))) (\<lambda>over.
     Inr (db1, \<lparr>mr_subscriptionId = Some (ac_subscriptionId applied), mr_overLimit = over\<rparr>))))))"

definition assignPlan ::
  "platform_context \<Rightarrow> date \<Rightarrow> assign_input \<Rightarrow> billing_db \<Rightarrow> billing_db \<times> (domain_error + manual_result)" where
  "assignPlan ctx now data = after_checks
     (bindR (authorise ctx PLATFORM_SUBSCRIPTION_MANAGE) (\<lambda>_.
      if started_at now data > now + FUTURE_SKEW_MS
      then Inl (fieldError ''startedAt'' ''The start date can't be in the future.'')
      else assertFuture now ''expiresAt'' (ai_expiresAt data) ''The expiry must be in the future.''))
     (\<lambda>_. assign_body ctx now data)"

text \<open>The plan a change keeps (even a legacy one) or newly assigns.\<close>

definition chosen_plan :: "billing_db \<Rightarrow> stored_subscription \<Rightarrow> string \<Rightarrow> domain_error + plan_row" where
  "chosen_plan db current planKey = bindR (plan_key_of db (bs_planId current)) (\<lambda>key.
     if planKey = key then fromSome row_missing (find (\<lambda>p. pl_id p = bs_planId current) (bd_plans db))
     else assignablePlan db planKey)"

definition changed_state :: "stored_subscription \<Rightarrow> plan_row \<Rightarrow> change_input \<Rightarrow> subscription_state" where
  "changed_state current plan data = (stateOf current)\<lparr>bs_planId := pl_id plan, bs_billingInterval := ci_billingInterval data,
     bs_trialEndsAt := (if bs_status current = SUB_TRIAL then or_date (ci_trialEndsAt data) (bs_trialEndsAt current)
       else bs_trialEndsAt current),
     bs_expiresAt := ci_expiresAt data\<rparr>"

definition change_checks :: "date \<Rightarrow> stored_subscription \<Rightarrow> plan_row \<Rightarrow> change_input \<Rightarrow> domain_error + unit" where
  "change_checks now current plan data = (let state = changed_state current plan data in
     bindR (if bs_status current = SUB_TRIAL \<and> ci_trialEndsAt data \<noteq> None \<and> ci_trialEndsAt data \<noteq> bs_trialEndsAt current
       then assertFuture now ''trialEndsAt'' (ci_trialEndsAt data) ''The trial must end in the future.'' else Inr ()) (\<lambda>_.
     if bs_status current = SUB_CANCELLED \<and> bs_expiresAt state = None
     then Inl (fieldError ''expiresAt'' ''A cancelled subscription needs an access end date.'')
     else
     bindR (if bs_expiresAt state \<noteq> bs_expiresAt current
       then assertFuture now ''expiresAt'' (bs_expiresAt state) ''The expiry must be in the future.'' else Inr ()) (\<lambda>_.
     if pl_id plan = bs_planId current \<and> bs_billingInterval state = bs_billingInterval current
       \<and> bs_trialEndsAt state = bs_trialEndsAt current \<and> bs_expiresAt state = bs_expiresAt current
     then Inl (DOMAIN_CONFLICT ''Nothing to change.'')
     else Inr ())))"

definition change_body ::
  "platform_context \<Rightarrow> date \<Rightarrow> change_input \<Rightarrow> billing_db \<Rightarrow> domain_error + (billing_db \<times> manual_result)" where
  "change_body ctx now data db =
     bindR (loadOrganisation db (mn_organisation data)) (\<lambda>organisationId.
     bindR (lockManual now db organisationId (ui_subscription data) False) (\<lambda>current.
     bindR (chosen_plan db current (ci_planKey data)) (\<lambda>plan.
     bindR (change_checks now current plan data) (\<lambda>_.
     let planChanged = (pl_id plan \<noteq> bs_planId current) in
     bindR (if planChanged then precheck now db organisationId (Some (pl_id plan)) (ci_acknowledged data)
       else overLimitNow now db organisationId (Some (pl_id plan))) (\<lambda>over.
     bindR (plan_key_of db (bs_planId current)) (\<lambda>key.
     bindR (applySubscriptionChange now (staff_change ctx now data organisationId (Some current)
         (changed_state current plan data) (if planChanged then ''plan_changed'' else ''updated'')
         ''billing.subscription.changed'' (Some key) (pl_key plan) (over_limit_audit over)) db) (\<lambda>(db1, applied).
     Inr (db1, \<lparr>mr_subscriptionId = Some (ac_subscriptionId applied), mr_overLimit = over\<rparr>))))))))"

definition changeSubscription ::
  "platform_context \<Rightarrow> date \<Rightarrow> change_input \<Rightarrow> billing_db \<Rightarrow> billing_db \<times> (domain_error + manual_result)" where
  "changeSubscription ctx now data = after_checks (authorise ctx PLATFORM_SUBSCRIPTION_MANAGE) (\<lambda>_. change_body ctx now data)"

text \<open>A change that keeps the plan: apply it and answer.\<close>

definition same_plan_change ::
  "platform_context \<Rightarrow> date \<Rightarrow> 'a manual_input_scheme \<Rightarrow> uuid \<Rightarrow> stored_subscription \<Rightarrow> subscription_state \<Rightarrow> string \<Rightarrow> string
   \<Rightarrow> (string \<times> string) list \<Rightarrow> billing_db \<Rightarrow> domain_error + (billing_db \<times> uuid)" where
  "same_plan_change ctx now data organisationId current state eventType auditAction extra db =
     bindR (plan_key_of db (bs_planId current)) (\<lambda>key.
     bindR (applySubscriptionChange now (staff_change ctx now data organisationId (Some current) state eventType auditAction
       (Some key) key extra) db) (\<lambda>(db1, applied). Inr (db1, ac_subscriptionId applied)))"

definition activated_state :: "stored_subscription \<Rightarrow> date option \<Rightarrow> subscription_state" where
  "activated_state current expiresAt = (stateOf current)\<lparr>bs_status := SUB_ACTIVE,
     bs_expiresAt := (if bs_status current = SUB_CANCELLED then expiresAt else or_date expiresAt (bs_expiresAt current)),
     bs_cancelledAt := None, bs_pastDueSince := None, bs_graceEndsAt := None\<rparr>"

definition activate_body ::
  "platform_context \<Rightarrow> date \<Rightarrow> subscription_input \<Rightarrow> date option \<Rightarrow> billing_db \<Rightarrow> domain_error + (billing_db \<times> manual_result)" where
  "activate_body ctx now data expiresAt db =
     bindR (loadOrganisation db (mn_organisation data)) (\<lambda>organisationId.
     bindR (lockManual now db organisationId (ui_subscription data) False) (\<lambda>current.
     if bs_status current = SUB_ACTIVE then Inl (DOMAIN_CONFLICT ''This subscription is already active.'')
     else if bs_status current = SUB_CANCELLED \<and> \<not> entitles current now
     then Inl (DOMAIN_CONFLICT ''Access under this cancelled subscription has already ended. Expire it and assign a new plan instead.'')
     else
     bindR (same_plan_change ctx now data organisationId current (activated_state current expiresAt)
       (if bs_status current = SUB_CANCELLED then ''reactivated'' else ''activated'')
       ''billing.subscription.activated'' [] db) (\<lambda>(db1, i).
     bindR (overLimitNow now db1 organisationId (Some (bs_planId current))) (\<lambda>over.
     Inr (db1, \<lparr>mr_subscriptionId = Some i, mr_overLimit = over\<rparr>)))))"

definition activateSubscription ::
  "platform_context \<Rightarrow> date \<Rightarrow> subscription_input \<Rightarrow> date option \<Rightarrow> billing_db \<Rightarrow> billing_db \<times> (domain_error + manual_result)" where
  "activateSubscription ctx now data expiresAt = after_checks
     (bindR (authorise ctx PLATFORM_SUBSCRIPTION_MANAGE) (\<lambda>_.
      assertFuture now ''expiresAt'' expiresAt ''The expiry must be in the future.''))
     (\<lambda>_. activate_body ctx now data expiresAt)"

definition extend_grace_body ::
  "platform_context \<Rightarrow> date \<Rightarrow> subscription_input \<Rightarrow> date \<Rightarrow> billing_db \<Rightarrow> domain_error + (billing_db \<times> manual_result)" where
  "extend_grace_body ctx now data graceEndsAt db =
     bindR (loadOrganisation db (mn_organisation data)) (\<lambda>organisationId.
     bindR (lockManual now db organisationId (ui_subscription data) False) (\<lambda>current.
     if bs_status current \<noteq> SUB_PAST_DUE then Inl (DOMAIN_CONFLICT ''Only a past-due subscription has a grace period.'')
     else if (case bs_graceEndsAt current of None \<Rightarrow> False | Some g \<Rightarrow> graceEndsAt \<le> g)
     then Inl (fieldError ''graceEndsAt'' ''Choose a date after the current grace end.'')
     else
     bindR (same_plan_change ctx now data organisationId current ((stateOf current)\<lparr>bs_graceEndsAt := Some graceEndsAt\<rparr>)
       ''grace_extended'' ''billing.subscription.grace_extended'' [(''expiresAt'', toISOString graceEndsAt)] db) (\<lambda>(db1, i).
     Inr (db1, \<lparr>mr_subscriptionId = Some i, mr_overLimit = []\<rparr>))))"

definition extendGrace ::
  "platform_context \<Rightarrow> date \<Rightarrow> subscription_input \<Rightarrow> date option \<Rightarrow> billing_db \<Rightarrow> billing_db \<times> (domain_error + manual_result)" where
  "extendGrace ctx now data graceEndsAt = after_checks
     (bindR (authorise ctx PLATFORM_SUBSCRIPTION_MANAGE) (\<lambda>_.
      bindR (fromSome (fieldError ''graceEndsAt'' ''Choose the new grace end.'') graceEndsAt) (\<lambda>g.
      bindR (assertFuture now ''graceEndsAt'' (Some g) ''The grace period must end in the future.'') (\<lambda>_.
      if g > now + MAX_GRACE_EXTENSION_DAYS * DAY
      then Inl (fieldError ''graceEndsAt'' (''Extend by at most '' @ show_int MAX_GRACE_EXTENSION_DAYS @ '' days at a time.''))
      else Inr g))))
     (extend_grace_body ctx now data)"

definition access_end :: "stored_subscription \<Rightarrow> date option \<Rightarrow> date option" where
  "access_end current chosen = or_date chosen (if bs_status current = SUB_TRIAL then bs_trialEndsAt current
     else or_date (bs_expiresAt current) (bs_currentPeriodEnd current))"

definition cancel_subscription_body ::
  "platform_context \<Rightarrow> date \<Rightarrow> subscription_input \<Rightarrow> date option \<Rightarrow> billing_db \<Rightarrow> domain_error + (billing_db \<times> manual_result)" where
  "cancel_subscription_body ctx now data chosen db =
     bindR (loadOrganisation db (mn_organisation data)) (\<lambda>organisationId.
     bindR (lockManual now db organisationId (ui_subscription data) False) (\<lambda>current.
     if bs_status current = SUB_CANCELLED then Inl (DOMAIN_CONFLICT ''This subscription is already cancelled.'')
     else
     bindR (fromSome (fieldError ''accessEndsAt'' ''Choose when access ends.'') (access_end current chosen)) (\<lambda>accessEndsAt.
     bindR (assertFuture now ''accessEndsAt'' (Some accessEndsAt)
       ''Access must end in the future. To end access now, expire the subscription instead.'') (\<lambda>_.
     bindR (same_plan_change ctx now data organisationId current
       ((stateOf current)\<lparr>bs_status := SUB_CANCELLED, bs_cancelledAt := Some now, bs_expiresAt := Some accessEndsAt\<rparr>)
       ''cancelled'' ''billing.subscription.cancelled'' [] db) (\<lambda>(db1, i).
     Inr (db1, \<lparr>mr_subscriptionId = Some i, mr_overLimit = []\<rparr>))))))"

definition cancelSubscription ::
  "platform_context \<Rightarrow> date \<Rightarrow> subscription_input \<Rightarrow> date option \<Rightarrow> billing_db \<Rightarrow> billing_db \<times> (domain_error + manual_result)" where
  "cancelSubscription ctx now data chosen = after_checks (authorise ctx PLATFORM_SUBSCRIPTION_MANAGE)
     (\<lambda>_. cancel_subscription_body ctx now data chosen)"

definition expire_body ::
  "platform_context \<Rightarrow> date \<Rightarrow> subscription_input \<Rightarrow> bool \<Rightarrow> billing_db \<Rightarrow> domain_error + (billing_db \<times> manual_result)" where
  "expire_body ctx now data acknowledged db =
     bindR (loadOrganisation db (mn_organisation data)) (\<lambda>organisationId.
     bindR (lockManual now db organisationId (ui_subscription data) True) (\<lambda>current.
     bindR (precheck now db organisationId None acknowledged) (\<lambda>over.
     bindR (same_plan_change ctx now data organisationId current (ended_state current now)
       ''expired'' ''billing.subscription.expired'' (over_limit_audit over) db) (\<lambda>(db1, i).
     Inr (db1, \<lparr>mr_subscriptionId = Some i, mr_overLimit = over\<rparr>)))))"

definition expireSubscription ::
  "platform_context \<Rightarrow> date \<Rightarrow> subscription_input \<Rightarrow> bool \<Rightarrow> billing_db \<Rightarrow> billing_db \<times> (domain_error + manual_result)" where
  "expireSubscription ctx now data acknowledged = after_checks (authorise ctx PLATFORM_SUBSCRIPTION_MANAGE)
     (\<lambda>_. expire_body ctx now data acknowledged)"

subsection \<open>Overrides of entitlements\<close>

datatype override_mode = MODE_ENABLED | MODE_DISABLED | MODE_LIMIT | MODE_UNLIMITED | MODE_CONFIG

record override_input = manual_input +
  vi_featureKey :: string
  vi_mode :: override_mode
  vi_limit :: "int option"
  vi_config :: "config_json option"
  vi_expiresAt :: "date option"
  vi_acknowledged :: bool

text \<open>\<open>JSON.stringify\<close> of a configuration is an argument.\<close>

definition describeValue :: "((string \<times> string) list \<Rightarrow> string) \<Rightarrow> value_columns \<Rightarrow> string" where
  "describeValue stringify value =
     (if \<not> vc_enabled value then ''disabled''
      else if vc_unlimited value then ''unlimited''
      else case vc_limit value of Some n \<Rightarrow> ''limit:'' @ show_int n
      | None \<Rightarrow> (case vc_config value of CONFIG_OBJECT c \<Rightarrow> take 200 (''config:'' @ stringify c) | CONFIG_OTHER \<Rightarrow> ''enabled''))"

definition allowed_modes :: "feature_type \<Rightarrow> override_mode list" where
  "allowed_modes ty = (case ty of
     F_BOOLEAN \<Rightarrow> [MODE_ENABLED, MODE_DISABLED]
   | F_LIMIT \<Rightarrow> [MODE_LIMIT, MODE_UNLIMITED, MODE_DISABLED]
   | F_CONFIGURATION \<Rightarrow> [MODE_CONFIG, MODE_DISABLED])"

text \<open>A stored null configuration is no object.\<close>

definition off_value :: value_columns where
  "off_value = \<lparr>vc_enabled = False, vc_limit = None, vc_unlimited = False, vc_config = CONFIG_OTHER\<rparr>"

definition overrideValue :: "feature_type \<Rightarrow> override_input \<Rightarrow> domain_error + value_columns" where
  "overrideValue ty data =
     (if vi_mode data \<notin> set (allowed_modes ty)
      then Inl (fieldError ''mode'' ''That kind of value doesn't fit this feature.'')
      else case vi_mode data of
        MODE_DISABLED \<Rightarrow> Inr off_value
      | MODE_ENABLED \<Rightarrow> Inr (off_value\<lparr>vc_enabled := True\<rparr>)
      | MODE_UNLIMITED \<Rightarrow> Inr (off_value\<lparr>vc_enabled := True, vc_unlimited := True\<rparr>)
      | MODE_LIMIT \<Rightarrow> (case vi_limit data of
          None \<Rightarrow> Inl (fieldError ''limit'' ''Enter a limit.'')
        | Some n \<Rightarrow> Inr (off_value\<lparr>vc_enabled := True, vc_limit := Some n\<rparr>))
      | MODE_CONFIG \<Rightarrow> (case vi_config data of
          Some (CONFIG_OBJECT c) \<Rightarrow> Inr (off_value\<lparr>vc_enabled := True, vc_config := CONFIG_OBJECT c\<rparr>)
        | _ \<Rightarrow> Inl (fieldError ''config'' ''Enter a JSON object.'')))"

text \<open>The trigger \<open>app_check_entitlement_value\<close>, on a value as it is stored.\<close>

definition entitlement_value_check :: "feature_type \<Rightarrow> value_columns \<Rightarrow> bool" where
  "entitlement_value_check ty v \<longleftrightarrow> (case vc_limit v of None \<Rightarrow> True | Some n \<Rightarrow> 0 \<le> n) \<and>
     (case ty of
        F_BOOLEAN \<Rightarrow> vc_limit v = None \<and> \<not> vc_unlimited v \<and> vc_config v = CONFIG_OTHER
      | F_LIMIT \<Rightarrow> vc_config v = CONFIG_OTHER \<and>
          (if vc_enabled v then (vc_limit v \<noteq> None) \<noteq> vc_unlimited v else vc_limit v = None \<and> \<not> vc_unlimited v)
      | F_CONFIGURATION \<Rightarrow> vc_limit v = None \<and> \<not> vc_unlimited v \<and> (\<not> vc_enabled v \<or> vc_config v \<noteq> CONFIG_OTHER))"

definition override_at :: "uuid \<Rightarrow> uuid \<Rightarrow> stored_override \<Rightarrow> bool" where
  "override_at organisationId i r \<longleftrightarrow> ov_organisationId r = organisationId \<and> ov_featureId r = i"

definition checked_override :: "feature_row \<Rightarrow> stored_override \<Rightarrow> billing_db \<Rightarrow> domain_error + billing_db" where
  "checked_override feature r db =
     (if \<not> entitlement_value_check (ft_type feature) (ov_value r) then Inl (FAULT (VIOLATES ''app_check_entitlement_value''))
      else if length (trim (ov_reason r)) < 3 \<or> length (trim (ov_reason r)) > 500
      then Inl (FAULT (VIOLATES ''OrganisationFeatureOverride_reason_length''))
      else if length (filter (override_at (ov_organisationId r) (ov_featureId r)) (bd_overrides db)) > 1
      then Inl (FAULT (VIOLATES ''OrganisationFeatureOverride_organisationId_featureId_key''))
      else Inr db)"

text \<open>Update the override of the feature, or create it.\<close>

definition save_override ::
  "platform_context \<Rightarrow> uuid \<Rightarrow> feature_row \<Rightarrow> value_columns \<Rightarrow> override_input \<Rightarrow> stored_override option \<Rightarrow> billing_db
   \<Rightarrow> domain_error + (billing_db \<times> uuid)" where
  "save_override ctx organisationId feature value data existing db = (case existing of
     Some e \<Rightarrow>
       let change = (\<lambda>r :: stored_override. r\<lparr>ov_value := value, ov_expiresAt := vi_expiresAt data,
             ov_reason := mn_reason data, ov_updatedById := Some (px_userId ctx)\<rparr>)
       in bindR (checked_override feature (change e)
            (db\<lparr>bd_overrides := update_rows (\<lambda>r. ov_id r = ov_id e) change (bd_overrides db)\<rparr>)) (\<lambda>db1. Inr (db1, ov_id e))
   | None \<Rightarrow>
       let (db1, i) = billing_id db;
           r = \<lparr>ov_featureId = ft_id feature, ov_value = value, ov_expiresAt = vi_expiresAt data, ov_id = i,
             ov_organisationId = organisationId, ov_reason = mn_reason data, ov_createdById = Some (px_userId ctx),
             ov_updatedById = None\<rparr>
       in bindR (checked_override feature r (db1\<lparr>bd_overrides := bd_overrides db1 @ [r]\<rparr>)) (\<lambda>db2. Inr (db2, i)))"

definition set_override_body ::
  "platform_context \<Rightarrow> ((string \<times> string) list \<Rightarrow> string) \<Rightarrow> date \<Rightarrow> override_input \<Rightarrow> billing_db
   \<Rightarrow> domain_error + (billing_db \<times> manual_result)" where
  "set_override_body ctx stringify now data db =
     bindR (loadOrganisation db (mn_organisation data)) (\<lambda>organisationId.
     bindR (fromSome (fieldError ''featureKey'' ''Choose a feature.'')
       (find (\<lambda>f. ft_key f = vi_featureKey data) (bd_features db))) (\<lambda>feature.
     bindR (overrideValue (ft_type feature) data) (\<lambda>value.
     bindR (overLimitNow now db organisationId (entitlingPlanId now db organisationId)) (\<lambda>overBefore.
     let existing = find (override_at organisationId (ft_id feature)) (bd_overrides db) in
     bindR (save_override ctx organisationId feature value data existing db) (\<lambda>(db1, saved).
     let db2 = recordActorAudit organisationId (actorOf ctx)
           (if existing \<noteq> None then ''billing.override.updated'' else ''billing.override.created'')
           (''OrganisationFeatureOverride'', saved)
           [(''feature'', ft_key feature), (''value'', describeValue stringify value),
            (''previousValue'', nullable (describeValue stringify \<circ> ov_value) existing),
            (''expiresAt'', nullable toISOString (vi_expiresAt data)),
            (''previousExpiresAt'', nullable toISOString (Option.bind existing ov_expiresAt)),
            (''reason'', mn_reason data)] db1 in
     bindR (acknowledgeNewOverLimit now db2 organisationId overBefore (vi_acknowledged data)) (\<lambda>over.
     Inr (db2, \<lparr>mr_subscriptionId = None, mr_overLimit = over\<rparr>)))))))"

text \<open>The schema's check of the key comes with the input's other checks.\<close>

definition setEntitlementOverride ::
  "platform_context \<Rightarrow> ((string \<times> string) list \<Rightarrow> string) \<Rightarrow> date \<Rightarrow> override_input \<Rightarrow> billing_db
   \<Rightarrow> billing_db \<times> (domain_error + manual_result)" where
  "setEntitlementOverride ctx stringify now data = after_checks
     (bindR (authorise ctx PLATFORM_ENTITLEMENT_OVERRIDE_MANAGE) (\<lambda>_.
      if \<not> isFeatureKey (vi_featureKey data) then Inl (fieldError ''featureKey'' ''Choose a feature.'')
      else assertFuture now ''expiresAt'' (vi_expiresAt data) ''The expiry must be in the future.''))
     (\<lambda>_. set_override_body ctx stringify now data)"

definition remove_override_body ::
  "platform_context \<Rightarrow> ((string \<times> string) list \<Rightarrow> string) \<Rightarrow> date \<Rightarrow> manual_input \<Rightarrow> string \<Rightarrow> bool \<Rightarrow> billing_db
   \<Rightarrow> domain_error + (billing_db \<times> manual_result)" where
  "remove_override_body ctx stringify now data featureKey acknowledged db =
     bindR (loadOrganisation db (mn_organisation data)) (\<lambda>organisationId.
     bindR (fromSome NOT_FOUND (find (\<lambda>f. ft_key f = featureKey) (bd_features db))) (\<lambda>feature.
     bindR (fromSome NOT_FOUND (find (override_at organisationId (ft_id feature)) (bd_overrides db))) (\<lambda>existing.
     bindR (overLimitNow now db organisationId (entitlingPlanId now db organisationId)) (\<lambda>overBefore.
     let db1 = db\<lparr>bd_overrides := filter (\<lambda>r. ov_id r \<noteq> ov_id existing) (bd_overrides db)\<rparr>;
         db2 = recordActorAudit organisationId (actorOf ctx) ''billing.override.removed''
           (''OrganisationFeatureOverride'', ov_id existing)
           [(''feature'', ft_key feature), (''previousValue'', describeValue stringify (ov_value existing)),
            (''previousExpiresAt'', nullable toISOString (ov_expiresAt existing)), (''reason'', mn_reason data)] db1 in
     bindR (acknowledgeNewOverLimit now db2 organisationId overBefore acknowledged) (\<lambda>over.
     Inr (db2, \<lparr>mr_subscriptionId = None, mr_overLimit = over\<rparr>))))))"

definition removeEntitlementOverride ::
  "platform_context \<Rightarrow> ((string \<times> string) list \<Rightarrow> string) \<Rightarrow> date \<Rightarrow> manual_input \<Rightarrow> string \<Rightarrow> bool \<Rightarrow> billing_db
   \<Rightarrow> billing_db \<times> (domain_error + manual_result)" where
  "removeEntitlementOverride ctx stringify now data featureKey acknowledged = after_checks
     (authorise ctx PLATFORM_ENTITLEMENT_OVERRIDE_MANAGE)
     (\<lambda>_. remove_override_body ctx stringify now data featureKey acknowledged)"

subsection \<open>Reconciliation of usage\<close>

definition drift_text :: "drift list \<Rightarrow> string" where
  "drift_text ds = (if ds = [] then ''null''
     else joinWith '','' (map (\<lambda>d. dr_key d @ '':'' @ show_int (dr_recorded d) @ ''->'' @ show_int (dr_actual d)) ds))"

definition reconcile_body ::
  "platform_context \<Rightarrow> manual_input \<Rightarrow> billing_db \<Rightarrow> domain_error + (billing_db \<times> int)" where
  "reconcile_body ctx data db =
     bindR (loadOrganisation db (mn_organisation data)) (\<lambda>organisationId.
     bindR (reconcileUsage (tenant_view organisationId db)) (\<lambda>(view, ds).
     Inr (recordActorAudit organisationId (actorOf ctx) ''billing.usage.reconciled'' (''Organisation'', organisationId)
         [(''drift'', drift_text ds), (''reason'', mn_reason data)]
         (db\<lparr>bd_tenants := (bd_tenants db)(organisationId := view)\<rparr>), int (length ds))))"

definition reconcileOrganisationUsage ::
  "platform_context \<Rightarrow> manual_input \<Rightarrow> billing_db \<Rightarrow> billing_db \<times> (domain_error + int)" where
  "reconcileOrganisationUsage ctx data = after_checks (authorise ctx PLATFORM_SUBSCRIPTION_MANAGE)
     (\<lambda>_. reconcile_body ctx data)"

end
