(* ===== verification/Histories.thy ===== *)
theory Histories
  imports Manual
begin

section \<open>The history of every subscription\<close>

text \<open>
  What any change of the Subscription Service keeps: rows that meet their constraints, one live
  subscription per organisation, and a history that tells every row, step by legal step. An
  abstract step (\<open>billing_move\<close>) is one change of the service, the end of an organisation, or a change
  of other tables; the theory \<open>Renewals\<close> shows that every operation is a sequence of such steps.
\<close>

subsection \<open>Histories\<close>

definition history :: "uuid \<Rightarrow> subscription_event_row list \<Rightarrow> subscription_event_row list" where
  "history i es = filter (\<lambda>e. se_subscriptionId e = i) es"

text \<open>Status and plan, before and after an event.\<close>

type_synonym standing = "(subscription_status \<times> uuid) option"

definition event_before :: "subscription_event_row \<Rightarrow> subscription_status option \<times> uuid option" where
  "event_before e = (se_fromStatus e, se_fromPlanId e)"

definition event_after :: "subscription_event_row \<Rightarrow> standing" where
  "event_after e = Some (se_toStatus e, se_toPlanId e)"

definition legal_event :: "standing \<Rightarrow> subscription_event_row \<Rightarrow> bool" where
  "legal_event from_standing e \<longleftrightarrow> event_before e = (map_option fst from_standing, map_option snd from_standing) \<and>
     (canTransition (se_fromStatus e) (se_toStatus e) \<or> from_standing = None \<and> se_source e \<noteq> SOURCE_MANUAL)"

fun chain :: "standing \<Rightarrow> subscription_event_row list \<Rightarrow> bool" where
  "chain from_standing [] \<longleftrightarrow> True"
| "chain from_standing (e # es) \<longleftrightarrow> legal_event from_standing e \<and> chain (event_after e) es"

fun standing_after :: "standing \<Rightarrow> subscription_event_row list \<Rightarrow> standing" where
  "standing_after from_standing [] = from_standing"
| "standing_after from_standing (e # es) = standing_after (event_after e) es"

lemma chain_snoc [simp]: "chain b (es @ [e]) \<longleftrightarrow> chain b es \<and> legal_event (standing_after b es) e"
  by (induction es arbitrary: b) auto

lemma standing_after_snoc [simp]: "standing_after b (es @ [e]) = event_after e"
  by (induction es arbitrary: b) auto

definition org_deleted :: "billing_db \<Rightarrow> uuid \<Rightarrow> bool" where
  "org_deleted db i \<longleftrightarrow> (\<exists>r \<in> set (bd_organisations db). og_id r = i \<and> og_status r = ORG_DELETED)"

text \<open>
  A row's history is legal and ends at the row; only the deletion of an organisation ends a
  subscription beside it.
\<close>

definition told :: "billing_db \<Rightarrow> stored_subscription \<Rightarrow> bool" where
  "told db s \<longleftrightarrow> (let es = history (bs_id s) (bd_events db) in
     chain None es \<and> (\<forall>e \<in> set es. se_source e = bs_source s \<and> se_organisationId e = bs_organisationId s) \<and>
     (\<exists>st. standing_after None es = Some (st, bs_planId s) \<and>
        (st = bs_status s \<or> bs_status s = SUB_EXPIRED \<and> org_deleted db (bs_organisationId s))))"

text \<open>Rows of the tables against their constraints.\<close>

definition rows_sound :: "billing_db \<Rightarrow> bool" where
  "rows_sound db \<longleftrightarrow> distinct (map bs_id (bd_subscriptions db)) \<and>
     (\<forall>s \<in> set (bd_subscriptions db). bs_id s < bd_next db \<and> source_provider_check s \<and> status_date_checks s
        \<and> bs_planId s \<in> pl_id ` set (bd_plans db) \<and> bs_organisationId s \<in> og_id ` set (bd_organisations db) \<and> (bs_providerSyncedAt s = None \<longleftrightarrow> bs_source s = SOURCE_MANUAL))"

definition one_live :: "billing_db \<Rightarrow> bool" where
  "one_live db \<longleftrightarrow> (\<forall>i. length (filter (live_of i) (bd_subscriptions db)) \<le> 1)"

definition references_unique :: "billing_db \<Rightarrow> bool" where
  "references_unique db \<longleftrightarrow> (\<forall>s \<in> set (bd_subscriptions db). bs_provider s \<noteq> None \<and> bs_providerSubscriptionId s \<noteq> None
     \<longrightarrow> length (filter (same_reference s) (bd_subscriptions db)) \<le> 1)"

definition history_sound :: "billing_db \<Rightarrow> bool" where
  "history_sound db \<longleftrightarrow> (\<forall>s \<in> set (bd_subscriptions db). told db s) \<and>
     (\<forall>e \<in> set (bd_events db). se_subscriptionId e \<in> bs_id ` set (bd_subscriptions db))"

text \<open>The audit log has one entry for each event, by the same actor.\<close>

definition accounted :: "subscription_event_row \<Rightarrow> actor_audit_row \<Rightarrow> bool" where
  "accounted e a \<longleftrightarrow> au_entity a = (''Subscription'', se_subscriptionId e) \<and> au_actor a = se_actorId e
     \<and> aa_organisationId a = se_organisationId e \<and> aa_actorType a = se_actorType e"

definition subscription_audit :: "billing_db \<Rightarrow> actor_audit_row list" where
  "subscription_audit db = filter (\<lambda>a. fst (au_entity a) = ''Subscription'') (bd_audit db)"

definition audit_sound :: "billing_db \<Rightarrow> bool" where
  "audit_sound db \<longleftrightarrow> list_all2 accounted (bd_events db) (subscription_audit db)"

definition billing_sound :: "billing_db \<Rightarrow> bool" where
  "billing_sound db \<longleftrightarrow> rows_sound db \<and> one_live db \<and> references_unique db \<and> history_sound db \<and> audit_sound db"

subsection \<open>One change of the service\<close>

text \<open>What a caller of \<open>applySubscriptionChange\<close> hands it: a row it locked, and no older version.\<close>

definition admissible :: "billing_db \<Rightarrow> subscription_change \<Rightarrow> bool" where
  "admissible db g \<longleftrightarrow> (case sg_current g of
     Some c \<Rightarrow> c \<in> set (bd_subscriptions db) \<and> (case sg_providerSyncedAt g of None \<Rightarrow> True
       | Some v \<Rightarrow> (\<exists>w. bs_providerSyncedAt c = Some w \<and> w \<le> v))
   | None \<Rightarrow> (\<forall>r. sg_origin g = Some r \<longrightarrow> (sg_providerSyncedAt g = None \<longleftrightarrow> or_source r = SOURCE_MANUAL)))"

lemma lockSubscription_ID: "distinct (map bs_id (bd_subscriptions db)) \<Longrightarrow> c \<in> set (bd_subscriptions db) \<Longrightarrow>
    lockSubscription db (BY_ID (bs_id c)) = Some c"
proof -
  have "distinct (map bs_id xs) \<Longrightarrow> c \<in> set xs \<Longrightarrow> find (\<lambda>s. bs_id s = bs_id c) xs = Some c" for xs
    by (induction xs) (auto simp: image_iff)
  then show "distinct (map bs_id (bd_subscriptions db)) \<Longrightarrow> c \<in> set (bd_subscriptions db) \<Longrightarrow> ?thesis"
    by (simp add: lockSubscription_def)
qed

lemma checked_row_Inr: "checked_row row db = Inr db' \<longleftrightarrow> db' = db \<and> source_provider_check row \<and> status_date_checks row
    \<and> length (filter (live_of (bs_organisationId row)) (bd_subscriptions db)) \<le> 1
    \<and> (bs_provider row \<noteq> None \<and> bs_providerSubscriptionId row \<noteq> None \<longrightarrow>
         length (filter (same_reference row) (bd_subscriptions db)) \<le> 1)
    \<and> bs_planId row \<in> set (map pl_id (bd_plans db)) \<and> bs_organisationId row \<in> set (map og_id (bd_organisations db))"
  unfolding checked_row_def by (auto split: if_splits)

lemma checked_row_same: "checked_row row db = Inr db' \<Longrightarrow> db' = db"
  by (simp add: checked_row_Inr)

text \<open>The row a change leaves: the columns of the new state, and its own.\<close>

lemma written_simps [simp]:
  "bs_id (written now st v s) = bs_id s" "bs_organisationId (written now st v s) = bs_organisationId s"
  "bs_source (written now st v s) = bs_source s" "bs_provider (written now st v s) = bs_provider s"
  "bs_providerSubscriptionId (written now st v s) = bs_providerSubscriptionId s"
  "bs_status (written now st v s) = bs_status st" "bs_planId (written now st v s) = bs_planId st"
  "bs_providerSyncedAt (written now st v s) = (case v of None \<Rightarrow> bs_providerSyncedAt s | Some x \<Rightarrow> Some x)"
  by (simp_all add: written_def)

lemma new_subscription_simps [simp]:
  "bs_id (new_subscription now i org r st v) = i" "bs_organisationId (new_subscription now i org r st v) = org"
  "bs_source (new_subscription now i org r st v) = or_source r" "bs_provider (new_subscription now i org r st v) = or_provider r"
  "bs_providerSubscriptionId (new_subscription now i org r st v) = or_providerSubscriptionId r"
  "bs_status (new_subscription now i org r st v) = bs_status st" "bs_planId (new_subscription now i org r st v) = bs_planId st"
  "bs_providerSyncedAt (new_subscription now i org r st v) = v"
  by (simp_all add: new_subscription_def)

text \<open>What an applied change did: the row it updated or created, its event and its audit entry.\<close>

definition audit_of :: "uuid \<Rightarrow> billing_source \<Rightarrow> subscription_change \<Rightarrow> actor_audit_row" where
  "audit_of i source g = (case actor_columns (sg_actor g) of (ty, actorId, requestId) \<Rightarrow>
     \<lparr>au_actor = actorId, au_action = sg_auditAction g, au_entity = (''Subscription'', i),
      au_metadata = sanitiseMetadata (change_metadata source g), aa_organisationId = sg_organisationId g,
      aa_actorType = ty, aa_requestId = requestId\<rparr>)"

definition recorded_change :: "uuid \<Rightarrow> billing_source \<Rightarrow> subscription_change \<Rightarrow> billing_db \<Rightarrow> billing_db" where
  "recorded_change i source g db = db\<lparr>bd_events := bd_events db @ [event_of i source g],
     bd_audit := bd_audit db @ [audit_of i source g]\<rparr>"

definition row_updated :: "date \<Rightarrow> uuid \<Rightarrow> subscription_change \<Rightarrow> billing_db \<Rightarrow> billing_db" where
  "row_updated now i g db = db\<lparr>bd_subscriptions :=
     update_rows (\<lambda>s. bs_id s = i) (written now (sg_next g) (sg_providerSyncedAt g)) (bd_subscriptions db)\<rparr>"

definition row_of :: "date \<Rightarrow> subscription_origin \<Rightarrow> subscription_change \<Rightarrow> billing_db \<Rightarrow> stored_subscription" where
  "row_of now r g db = new_subscription now (bd_next db) (sg_organisationId g) r (sg_next g) (sg_providerSyncedAt g)"

definition row_created :: "date \<Rightarrow> subscription_origin \<Rightarrow> subscription_change \<Rightarrow> billing_db \<Rightarrow> billing_db" where
  "row_created now r g db = db\<lparr>bd_next := Suc (bd_next db), bd_subscriptions := bd_subscriptions db @ [row_of now r g db]\<rparr>"

lemma applied_parts:
  assumes "applySubscriptionChange now g db = Inr (db', a)"
  obtains i source db1 where "write_change now g db = Inr (db1, i, source)" "db' = recorded_change i source g db1"
    "ac_subscriptionId a = i" "sg_current g = None \<or> map_option bs_organisationId (sg_current g) = Some (sg_organisationId g)"
    "transitionAllowed (sg_current g) (bs_status (sg_next g)) (sg_occurredAt g) (mirrors g)"
proof -
  from assms obtain db1 i source db2 where ok: "sg_current g = None \<or> map_option bs_organisationId (sg_current g) = Some (sg_organisationId g)"
      "transitionAllowed (sg_current g) (bs_status (sg_next g)) (sg_occurredAt g) (mirrors g)"
    and w: "write_change now g db = Inr (db1, i, source)" and e: "insert_event (event_of i source g) db1 = Inr db2"
    and r: "db' = recordActorAudit (sg_organisationId g) (sg_actor g) (sg_auditAction g) (''Subscription'', i)
             (change_metadata source g) db2" "ac_subscriptionId a = i"
    unfolding applySubscriptionChange_def bindR_eq_Inr by (auto simp: bindR_eq_Inr split: if_splits)
  obtain ty actorId req where ac: "actor_columns (sg_actor g) = (ty, actorId, req)" by (cases "actor_columns (sg_actor g)")
  have "db' = recorded_change i source g db1"
    using e r by (auto simp: insert_event_def recordActorAudit_def recorded_change_def audit_of_def ac split: if_splits)
  with w r(2) ok that show thesis by blast
qed

lemma updated_case:
  assumes "write_change now g db = Inr (db1, i, source)" "sg_current g = Some c"
  shows "\<exists>row. lockSubscription db (BY_ID (bs_id c)) = Some row \<and> i = bs_id c \<and> source = bs_source c
    \<and> db1 = row_updated now i g db \<and> checked_row (written now (sg_next g) (sg_providerSyncedAt g) row) db1 = Inr db1"
  using assms unfolding write_change_def updateSubscription_def bindR_eq_Inr
  by (auto simp: bindR_eq_Inr checked_row_Inr row_updated_def split: option.splits)

lemma created_case:
  assumes "write_change now g db = Inr (db1, i, source)" "sg_current g = None"
  shows "\<exists>r. sg_origin g = Some r \<and> i = bd_next db \<and> source = or_source r \<and> db1 = row_created now r g db
    \<and> checked_row (row_of now r g db) db1 = Inr db1"
proof -
  from assms obtain r db2 where r: "sg_origin g = Some r" "i = bd_next db" "source = or_source r" "db2 = db1"
      "checked_row (row_of now r g db) (row_created now r g db) = Inr db2"
    unfolding write_change_def createSubscription_def row_of_def row_created_def billing_id_def
    by (simp add: bindR_eq_Inr fromSome_eq Let_def split_def) blast
  with checked_row_same [OF r(5)] show ?thesis by auto
qed

text \<open>Counting rows that an update does not tell apart.\<close>

lemma filter_kept_rows:
  "(\<And>s. s \<in> set xs \<Longrightarrow> sel s \<Longrightarrow> P (f s) = P s) \<Longrightarrow>
   length (filter P (update_rows sel f xs)) = length (filter P xs)"
  by (induction xs) (auto simp: update_rows_def)

lemma set_update_rows_id:
  "distinct (map bs_id xs) \<Longrightarrow> c \<in> set xs \<Longrightarrow>
   s \<in> set (update_rows (\<lambda>s. bs_id s = bs_id c) f xs) \<longleftrightarrow> s = f c \<or> s \<in> set xs \<and> bs_id s \<noteq> bs_id c"
  by (induction xs) (auto simp: update_rows_def image_iff inj_on_def)

lemma map_update_rows: "(\<And>s. g (f s) = g s) \<Longrightarrow> map g (update_rows sel f xs) = map g xs"
  by (induction xs) (auto simp: update_rows_def)

subsection \<open>A change keeps the tables sound\<close>

lemma same_id: "distinct (map bs_id xs) \<Longrightarrow> s \<in> set xs \<Longrightarrow> c \<in> set xs \<Longrightarrow> bs_id s = bs_id c \<Longrightarrow> s = c"
  by (auto simp: distinct_map inj_on_def)

text \<open>Fields that recording a change leaves alone.\<close>

lemma recorded_simps [simp]:
  "bd_subscriptions (recorded_change i source g db) = bd_subscriptions db" "bd_plans (recorded_change i source g db) = bd_plans db"
  "bd_next (recorded_change i source g db) = bd_next db" "bd_organisations (recorded_change i source g db) = bd_organisations db"
  "bd_events (recorded_change i source g db) = bd_events db @ [event_of i source g]"
  "bd_audit (recorded_change i source g db) = bd_audit db @ [audit_of i source g]"
  "org_deleted (recorded_change i source g db) = org_deleted db"
  by (simp_all add: recorded_change_def org_deleted_def[abs_def])

lemma row_updated_simps [simp]:
  "bd_plans (row_updated now i g db) = bd_plans db" "bd_next (row_updated now i g db) = bd_next db"
  "bd_organisations (row_updated now i g db) = bd_organisations db" "bd_events (row_updated now i g db) = bd_events db"
  "bd_audit (row_updated now i g db) = bd_audit db" "org_deleted (row_updated now i g db) = org_deleted db"
  "map bs_id (bd_subscriptions (row_updated now i g db)) = map bs_id (bd_subscriptions db)"
  by (simp_all add: row_updated_def org_deleted_def[abs_def] map_update_rows)

lemma row_created_simps [simp]:
  "bd_plans (row_created now r g db) = bd_plans db" "bd_next (row_created now r g db) = Suc (bd_next db)"
  "bd_organisations (row_created now r g db) = bd_organisations db" "bd_events (row_created now r g db) = bd_events db"
  "bd_audit (row_created now r g db) = bd_audit db" "org_deleted (row_created now r g db) = org_deleted db"
  "bd_subscriptions (row_created now r g db) = bd_subscriptions db @ [row_of now r g db]"
  by (simp_all add: row_created_def org_deleted_def[abs_def])

lemma event_of_simps [simp]:
  "se_subscriptionId (event_of i source g) = i" "se_source (event_of i source g) = source"
  "se_organisationId (event_of i source g) = sg_organisationId g"
  "event_before (event_of i source g) = (map_option bs_status (sg_current g), map_option bs_planId (sg_current g))"
  "event_after (event_of i source g) = Some (bs_status (sg_next g), bs_planId (sg_next g))"
  "se_fromStatus (event_of i source g) = map_option bs_status (sg_current g)"
  "se_toStatus (event_of i source g) = bs_status (sg_next g)"
  by (simp_all add: event_of_def split_def Let_def event_before_def event_after_def)

lemma accounted_change: "accounted (event_of i source g) (audit_of i source g)"
  by (simp add: accounted_def event_of_def audit_of_def split_def Let_def)

lemma recorded_audit_sound: "audit_sound db \<Longrightarrow> audit_sound (recorded_change i source g db)"
  by (auto simp: audit_sound_def subscription_audit_def accounted_change audit_of_def split_def intro!: list_all2_appendI)
    (simp add: accounted_def event_of_def split_def Let_def)

lemma history_snoc [simp]: "history i (es @ [e]) = history i es @ (if se_subscriptionId e = i then [e] else [])"
  by (simp add: history_def)

text \<open>A subscription that changes is not one a deleted organisation ended.\<close>

lemma told_before_change:
  assumes "told db c" "canTransition (Some (bs_status c)) st"
  shows "standing_after None (history (bs_id c) (bd_events db)) = Some (bs_status c, bs_planId c)"
  using assms by (auto simp: told_def Let_def canTransition_def)

lemma told_changed:
  assumes "told db c" "canTransition (Some (bs_status c)) (bs_status (sg_next g))" "sg_current g = Some c"
    and "bs_organisationId c = sg_organisationId g"
    and "bd_events db' = bd_events db @ [event_of (bs_id c) (bs_source c) g]"
  shows "told db' (written now (sg_next g) v c)"
  using assms(1,3,4) told_before_change [OF assms(1,2)] assms(2)
  by (auto simp: told_def Let_def assms(5) legal_event_def)

lemma told_other:
  assumes "told db s" "bs_id s \<noteq> i" "bd_events db' = bd_events db @ [event_of i source g]" "org_deleted db' = org_deleted db"
  shows "told db' s"
  using assms by (auto simp: told_def Let_def)

lemma updated_sound:
  assumes sound: "billing_sound db" and c: "c \<in> set (bd_subscriptions db)" "sg_current g = Some c"
    and row: "checked_row (written now (sg_next g) (sg_providerSyncedAt g) c) (row_updated now (bs_id c) g db) = Inr db1"
    and synced: "sg_providerSyncedAt g \<noteq> None \<Longrightarrow> bs_providerSyncedAt c \<noteq> None"
    and legal: "canTransition (Some (bs_status c)) (bs_status (sg_next g))" "bs_organisationId c = sg_organisationId g"
  shows "billing_sound (recorded_change (bs_id c) (bs_source c) g (row_updated now (bs_id c) g db))" (is "billing_sound ?t")
proof -
  let ?f = "written now (sg_next g) (sg_providerSyncedAt g)" and ?u = "row_updated now (bs_id c) g db"
  let ?subs = "bd_subscriptions db"
  have d: "distinct (map bs_id ?subs)" using sound by (simp add: billing_sound_def rows_sound_def)
  have subs: "bd_subscriptions ?u = update_rows (\<lambda>s. bs_id s = bs_id c) ?f ?subs" by (simp add: row_updated_def)
  have mem: "s \<in> set (bd_subscriptions ?u) \<longleftrightarrow> s = ?f c \<or> s \<in> set ?subs \<and> bs_id s \<noteq> bs_id c" for s
    unfolding subs by (rule set_update_rows_id [OF d c(1)])
  note checks = row [unfolded checked_row_Inr]
  have rows: "\<And>s. s \<in> set ?subs \<Longrightarrow> bs_id s < bd_next db \<and> source_provider_check s \<and> status_date_checks s
        \<and> bs_planId s \<in> pl_id ` set (bd_plans db) \<and> bs_organisationId s \<in> og_id ` set (bd_organisations db) \<and> (bs_providerSyncedAt s = None \<longleftrightarrow> bs_source s = SOURCE_MANUAL)"
    using sound by (simp add: billing_sound_def rows_sound_def)
  have "bs_providerSyncedAt (?f c) = None \<longleftrightarrow> bs_source (?f c) = SOURCE_MANUAL"
    using rows [OF c(1)] synced by (auto split: option.splits)
  then have ok: "bs_id (?f c) < bd_next db \<and> source_provider_check (?f c) \<and> status_date_checks (?f c)
        \<and> bs_planId (?f c) \<in> pl_id ` set (bd_plans db) \<and> bs_organisationId (?f c) \<in> og_id ` set (bd_organisations db)
        \<and> (bs_providerSyncedAt (?f c) = None \<longleftrightarrow> bs_source (?f c) = SOURCE_MANUAL)"
    using checks rows [OF c(1)] by (simp del: written_simps(8))
  have "rows_sound ?t"
    unfolding rows_sound_def recorded_simps row_updated_simps
  proof (intro conjI ballI)
    fix s assume "s \<in> set (bd_subscriptions ?u)"
    then have "s = ?f c \<or> s \<in> set ?subs" by (auto simp: mem)
    then have "bs_id s < bd_next db \<and> source_provider_check s \<and> status_date_checks s
        \<and> bs_planId s \<in> pl_id ` set (bd_plans db) \<and> bs_organisationId s \<in> og_id ` set (bd_organisations db) \<and> (bs_providerSyncedAt s = None \<longleftrightarrow> bs_source s = SOURCE_MANUAL)"
      using ok rows [of s] by (elim disjE) (simp only:)+
    then show "bs_id s < bd_next db" "source_provider_check s" "status_date_checks s"
      "bs_planId s \<in> pl_id ` set (bd_plans db)"
      "bs_organisationId s \<in> og_id ` set (bd_organisations db)" "bs_providerSyncedAt s = None \<longleftrightarrow> bs_source s = SOURCE_MANUAL" by blast+
  qed (rule d)
  moreover have "one_live ?t"
    unfolding one_live_def
  proof
    fix i
    show "length (filter (live_of i) (bd_subscriptions ?t)) \<le> 1"
    proof (cases "i = bs_organisationId c")
      case True with checks show ?thesis by simp
    next
      case False
      then have "length (filter (live_of i) (bd_subscriptions ?u)) = length (filter (live_of i) ?subs)"
        unfolding subs by (intro filter_kept_rows) (auto simp: live_of_def dest: same_id [OF d _ c(1)])
      then show ?thesis using sound by (simp add: billing_sound_def one_live_def)
    qed
  qed
  moreover have "references_unique ?t"
  proof -
    have "length (filter (same_reference s) (bd_subscriptions ?u)) = length (filter (same_reference s) ?subs)" for s
      unfolding subs by (intro filter_kept_rows) (simp add: same_reference_def)
    moreover have "same_reference (?f c) = same_reference c" by (simp add: same_reference_def[abs_def])
    ultimately show ?thesis using sound c(1) by (auto simp: references_unique_def billing_sound_def mem)
  qed
  moreover have "history_sound ?t"
  proof -
    have tolds: "\<And>s. s \<in> set ?subs \<Longrightarrow> told db s" and evs: "\<forall>e \<in> set (bd_events db). se_subscriptionId e \<in> bs_id ` set ?subs"
      using sound by (simp_all add: billing_sound_def history_sound_def)
    have "told ?t (?f c)" by (rule told_changed [OF tolds [OF c(1)] legal(1) c(2) legal(2)]) simp
    moreover have "told ?t s" if "s \<in> set ?subs" "bs_id s \<noteq> bs_id c" for s
      by (rule told_other [OF tolds [OF that(1)] that(2)]) simp_all
    moreover have "bs_id ` set (bd_subscriptions ?t) = bs_id ` set ?subs"
      by (simp only: set_map [symmetric] recorded_simps row_updated_simps)
    ultimately show ?thesis using evs c(1) by (auto simp: history_sound_def mem)
  qed
  moreover have "audit_sound ?t"
    by (rule recorded_audit_sound) (use sound in \<open>simp add: billing_sound_def audit_sound_def subscription_audit_def\<close>)
  ultimately show ?thesis by (simp add: billing_sound_def)
qed

lemma history_fresh: "billing_sound db \<Longrightarrow> history (bd_next db) (bd_events db) = []"
  unfolding billing_sound_def history_sound_def rows_sound_def history_def
  by (fastforce simp: filter_empty_conv)

lemma same_reference_trans: "same_reference a b \<Longrightarrow> same_reference a = same_reference b"
  by (auto simp: same_reference_def[abs_def])

lemma created_sound:
  assumes sound: "billing_sound db" and g: "sg_current g = None" "sg_origin g = Some r"
    and row: "checked_row (row_of now r g db) (row_created now r g db) = Inr db1"
    and synced: "sg_providerSyncedAt g = None \<longleftrightarrow> or_source r = SOURCE_MANUAL"
    and legal: "canTransition None (bs_status (sg_next g)) \<or> or_source r \<noteq> SOURCE_MANUAL"
  shows "billing_sound (recorded_change (bd_next db) (or_source r) g (row_created now r g db))" (is "billing_sound ?t")
proof -
  let ?row = "row_of now r g db" and ?subs = "bd_subscriptions db"
  have subs: "bd_subscriptions ?t = ?subs @ [?row]" by simp
  have i: "bs_id ?row = bd_next db" "bs_organisationId ?row = sg_organisationId g" "bs_source ?row = or_source r"
    "bs_status ?row = bs_status (sg_next g)" "bs_planId ?row = bs_planId (sg_next g)" "bs_providerSyncedAt ?row = sg_providerSyncedAt g"
    by (simp_all add: row_of_def)
  note checks = row [unfolded checked_row_Inr]
  have old: "\<And>s. s \<in> set ?subs \<Longrightarrow> bs_id s < bd_next db" and d: "distinct (map bs_id ?subs)"
    using sound by (simp_all add: billing_sound_def rows_sound_def)
  have fresh: "bd_next db \<notin> bs_id ` set ?subs" using old by force
  have rows: "\<And>s. s \<in> set ?subs \<Longrightarrow> bs_id s < bd_next db \<and> source_provider_check s \<and> status_date_checks s
        \<and> bs_planId s \<in> pl_id ` set (bd_plans db) \<and> bs_organisationId s \<in> og_id ` set (bd_organisations db) \<and> (bs_providerSyncedAt s = None \<longleftrightarrow> bs_source s = SOURCE_MANUAL)"
    using sound by (simp add: billing_sound_def rows_sound_def)
  have "source_provider_check ?row" "status_date_checks ?row" "bs_planId ?row \<in> pl_id ` set (bd_plans db)"
    "bs_organisationId ?row \<in> og_id ` set (bd_organisations db)" using checks by simp_all
  with rows d fresh synced have "rows_sound ?t"
    unfolding rows_sound_def by (auto simp: i less_Suc_eq)
  moreover have "one_live ?t"
    unfolding one_live_def
  proof
    fix k
    show "length (filter (live_of k) (bd_subscriptions ?t)) \<le> 1"
    proof (cases "k = sg_organisationId g")
      case True with checks show ?thesis by (simp add: i)
    next
      case False
      then have "\<not> live_of k ?row" by (simp add: live_of_def i)
      then show ?thesis using sound by (simp add: billing_sound_def one_live_def)
    qed
  qed
  moreover have "references_unique ?t"
    unfolding references_unique_def
  proof (intro ballI impI)
    fix s assume s: "s \<in> set (bd_subscriptions ?t)" "bs_provider s \<noteq> None \<and> bs_providerSubscriptionId s \<noteq> None"
    show "length (filter (same_reference s) (bd_subscriptions ?t)) \<le> 1"
    proof (cases "same_reference s ?row")
      case True
      with s(2) have "bs_provider ?row \<noteq> None \<and> bs_providerSubscriptionId ?row \<noteq> None" by (simp add: same_reference_def)
      with checks same_reference_trans [OF True] show ?thesis by simp
    next
      case False
      then have "s \<noteq> ?row" by (auto simp: same_reference_def)
      with s sound False show ?thesis by (auto simp: references_unique_def billing_sound_def)
    qed
  qed
  moreover have "history_sound ?t"
  proof -
    have tolds: "\<And>s. s \<in> set ?subs \<Longrightarrow> told db s" and evs: "\<forall>e \<in> set (bd_events db). se_subscriptionId e \<in> bs_id ` set ?subs"
      using sound by (simp_all add: billing_sound_def history_sound_def)
    have "told ?t ?row"
      using history_fresh [OF sound] legal g by (auto simp: told_def Let_def i legal_event_def)
    moreover have "told ?t s" if "s \<in> set ?subs" for s
      by (rule told_other [OF tolds [OF that], of "bd_next db"]) (use old [OF that] in simp_all)
    ultimately show ?thesis using evs by (auto simp: history_sound_def i)
  qed
  moreover have "audit_sound ?t"
    by (rule recorded_audit_sound) (use sound in \<open>simp add: billing_sound_def audit_sound_def subscription_audit_def\<close>)
  ultimately show ?thesis by (simp add: billing_sound_def)
qed

text \<open>Every applied change of a caller that locked its row.\<close>

lemma applied_sound:
  assumes sound: "billing_sound db" and ok: "admissible db g" and run: "applySubscriptionChange now g db = Inr (db', a)"
  shows "billing_sound db'"
proof -
  from run obtain i source db1 where w: "write_change now g db = Inr (db1, i, source)" and db': "db' = recorded_change i source g db1"
      and org: "sg_current g = None \<or> map_option bs_organisationId (sg_current g) = Some (sg_organisationId g)"
      and allowed: "transitionAllowed (sg_current g) (bs_status (sg_next g)) (sg_occurredAt g) (mirrors g)"
    by (rule applied_parts)
  show ?thesis
  proof (cases "sg_current g")
    case None
    from created_case [OF w None] obtain r where r: "sg_origin g = Some r" "i = bd_next db" "source = or_source r"
        "db1 = row_created now r g db" "checked_row (row_of now r g db) db1 = Inr db1" by blast
    with None ok have "sg_providerSyncedAt g = None \<longleftrightarrow> or_source r = SOURCE_MANUAL" by (simp add: admissible_def)
    moreover have "canTransition None (bs_status (sg_next g)) \<or> or_source r \<noteq> SOURCE_MANUAL"
      using allowed None r by (auto simp: transitionAllowed_def mirrors_def)
    ultimately show ?thesis unfolding db' r(2-4) using created_sound [OF sound None r(1)] r(4,5) by simp
  next
    case (Some c)
    with ok have c: "c \<in> set (bd_subscriptions db)" and v: "sg_providerSyncedAt g \<noteq> None \<Longrightarrow> bs_providerSyncedAt c \<noteq> None"
      by (auto simp: admissible_def split: option.splits)
    have "lockSubscription db (BY_ID (bs_id c)) = Some c"
      by (rule lockSubscription_ID [OF _ c]) (use sound in \<open>simp add: billing_sound_def rows_sound_def\<close>)
    with updated_case [OF w Some] have u: "i = bs_id c" "source = bs_source c" "db1 = row_updated now i g db"
        "checked_row (written now (sg_next g) (sg_providerSyncedAt g) c) db1 = Inr db1" by auto
    have "canTransition (Some (bs_status c)) (bs_status (sg_next g))" "bs_organisationId c = sg_organisationId g"
      using allowed org Some by (auto simp: transitionAllowed_def split: if_splits)
    then show ?thesis unfolding db' using updated_sound [OF sound c Some _ v] u by simp
  qed
qed

subsection \<open>Steps\<close>

text \<open>A step that touches no subscription and no history.\<close>

definition quiet :: "billing_db \<Rightarrow> billing_db \<Rightarrow> bool" where
  "quiet db db' \<longleftrightarrow> bd_subscriptions db' = bd_subscriptions db \<and> bd_events db' = bd_events db
     \<and> subscription_audit db' = subscription_audit db \<and> bd_next db \<le> bd_next db'
     \<and> pl_id ` set (bd_plans db) \<subseteq> pl_id ` set (bd_plans db')
     \<and> og_id ` set (bd_organisations db) \<subseteq> og_id ` set (bd_organisations db') \<and> (\<forall>i. org_deleted db i \<longrightarrow> org_deleted db' i)"

inductive billing_move :: "billing_db \<Rightarrow> billing_db \<Rightarrow> bool" where
  changes: "applySubscriptionChange now g db = Inr (db', a) \<Longrightarrow> admissible db g \<Longrightarrow> billing_move db db'"
| elsewhere: "quiet db db' \<Longrightarrow> billing_move db db'"
| ends: "target \<in> og_id ` set (bd_organisations db) \<Longrightarrow> billing_move db (end_organisation now target db)"

lemma quiet_sound: "billing_sound db \<Longrightarrow> quiet db db' \<Longrightarrow> billing_sound db'"
  unfolding billing_sound_def quiet_def rows_sound_def one_live_def references_unique_def history_sound_def audit_sound_def
    told_def Let_def
  by (auto; fastforce)

definition expired_row :: "date \<Rightarrow> stored_subscription \<Rightarrow> stored_subscription" where
  "expired_row now s = s\<lparr>bs_status := SUB_EXPIRED, bs_endedAt := (case bs_endedAt s of None \<Rightarrow> Some now | Some d \<Rightarrow> Some d),
     bs_updatedAt := now\<rparr>"

lemma expired_row_simps [simp]:
  "bs_id (expired_row now s) = bs_id s" "bs_organisationId (expired_row now s) = bs_organisationId s"
  "bs_source (expired_row now s) = bs_source s" "bs_provider (expired_row now s) = bs_provider s"
  "bs_providerSubscriptionId (expired_row now s) = bs_providerSubscriptionId s" "bs_status (expired_row now s) = SUB_EXPIRED"
  "bs_planId (expired_row now s) = bs_planId s" "bs_providerSyncedAt (expired_row now s) = bs_providerSyncedAt s"
  "source_provider_check (expired_row now s) = source_provider_check s"
  by (simp_all add: expired_row_def source_provider_check_def)

lemma expired_row_dates: "status_date_checks s \<Longrightarrow> status_date_checks (expired_row now s)"
  by (auto simp: status_date_checks_def expired_row_def split: option.splits)

lemma end_organisation_subs:
  "bd_subscriptions (end_organisation now target db) = update_rows (live_of target) (expired_row now) (bd_subscriptions db)"
  by (simp add: end_organisation_def expired_row_def[abs_def])

lemma ended_rows:
  "s \<in> set (bd_subscriptions (end_organisation now target db)) \<Longrightarrow>
     s \<in> set (bd_subscriptions db) \<and> \<not> live_of target s \<or>
     (\<exists>r \<in> set (bd_subscriptions db). live_of target r \<and> s = expired_row now r)"
  by (auto simp: end_organisation_subs update_rows_def split: if_splits)

lemma ended_rows_deleted:
  "(\<exists>r \<in> set (update_rows (\<lambda>r. og_id r = target) (\<lambda>r. r\<lparr>og_status := ORG_DELETED\<rparr>) xs). og_id r = i \<and> og_status r = ORG_DELETED)
   \<longleftrightarrow> (\<exists>r \<in> set xs. og_id r = i \<and> (og_id r = target \<or> og_status r = ORG_DELETED))"
  by (induction xs) (auto simp: update_rows_def)

lemma ended_org_deleted:
  "target \<in> og_id ` set (bd_organisations db) \<Longrightarrow> org_deleted (end_organisation now target db) i \<longleftrightarrow> org_deleted db i \<or> i = target"
proof -
  assume target: "target \<in> og_id ` set (bd_organisations db)"
  have "org_deleted (end_organisation now target db) i \<longleftrightarrow>
      (\<exists>r \<in> set (bd_organisations db). og_id r = i \<and> (og_id r = target \<or> og_status r = ORG_DELETED))"
    by (simp add: org_deleted_def end_organisation_def ended_rows_deleted)
  then show ?thesis using target by (auto simp: org_deleted_def)
qed

lemma ended_sound:
  assumes sound: "billing_sound db" and target: "target \<in> og_id ` set (bd_organisations db)"
  shows "billing_sound (end_organisation now target db)" (is "billing_sound ?t")
proof -
  let ?subs = "bd_subscriptions db"
  have same: "bd_next ?t = bd_next db" "bd_plans ?t = bd_plans db" "bd_events ?t = bd_events db" "bd_audit ?t = bd_audit db"
    by (simp_all add: end_organisation_def)
  have ids: "map bs_id (bd_subscriptions ?t) = map bs_id ?subs" by (simp add: end_organisation_subs map_update_rows)
  have orgs: "og_id ` set (bd_organisations ?t) = og_id ` set (bd_organisations db)"
    by (simp only: end_organisation_def billing_db.simps set_map [symmetric]) (simp add: map_update_rows)
  have "rows_sound ?t"
    using sound ids expired_row_dates unfolding billing_sound_def rows_sound_def same orgs
    by (auto dest!: ended_rows)
  moreover have "one_live ?t"
  proof -
    have "length (filter (live_of i) (update_rows (live_of target) (expired_row now) xs)) \<le> length (filter (live_of i) xs)" for i xs
      by (induction xs) (auto simp: live_of_def update_rows_def)
    then have "length (filter (live_of i) (bd_subscriptions ?t)) \<le> length (filter (live_of i) ?subs)" for i
      by (simp add: end_organisation_subs)
    then show ?thesis using sound unfolding billing_sound_def one_live_def by (meson order_trans)
  qed
  moreover have "references_unique ?t"
  proof -
    have "length (filter (same_reference s) (bd_subscriptions ?t)) = length (filter (same_reference s) ?subs)" for s
      unfolding end_organisation_subs by (intro filter_kept_rows) (simp add: same_reference_def)
    moreover have "same_reference (expired_row now r) = same_reference r" for r by (simp add: same_reference_def[abs_def])
    ultimately show ?thesis using sound by (auto simp: references_unique_def billing_sound_def dest!: ended_rows)
  qed
  moreover have "history_sound ?t"
  proof -
    have tolds: "\<And>s. s \<in> set ?subs \<Longrightarrow> told db s" using sound by (simp add: billing_sound_def history_sound_def)
    have "told ?t s" if "s \<in> set (bd_subscriptions ?t)" for s
      using ended_rows [OF that] by (auto dest!: tolds simp: told_def Let_def same ended_org_deleted [OF target] live_of_def)
    moreover have "bs_id ` set (bd_subscriptions ?t) = bs_id ` set ?subs" by (simp only: set_map [symmetric] ids)
    ultimately show ?thesis using sound by (simp add: history_sound_def billing_sound_def same)
  qed
  moreover have "audit_sound ?t" using sound by (simp add: billing_sound_def audit_sound_def subscription_audit_def same)
  ultimately show ?thesis by (simp add: billing_sound_def)
qed

lemma move_sound: "billing_move db db' \<Longrightarrow> billing_sound db \<Longrightarrow> billing_sound db'"
  by (induction rule: billing_move.induct) (auto intro: applied_sound quiet_sound ended_sound)

lemma moves_sound: "billing_move\<^sup>*\<^sup>* db db' \<Longrightarrow> billing_sound db \<Longrightarrow> billing_sound db'"
  by (induction rule: rtranclp_induct) (auto intro: move_sound)

subsection \<open>What no step takes back\<close>

definition successor :: "stored_subscription \<Rightarrow> stored_subscription \<Rightarrow> bool" where
  "successor s t \<longleftrightarrow> bs_id t = bs_id s \<and> bs_organisationId t = bs_organisationId s \<and> bs_source t = bs_source s
     \<and> bs_provider t = bs_provider s \<and> bs_providerSubscriptionId t = bs_providerSubscriptionId s
     \<and> (bs_status s = SUB_EXPIRED \<longrightarrow> t = s)
     \<and> (case bs_providerSyncedAt s of None \<Rightarrow> True | Some v \<Rightarrow> (\<exists>w. bs_providerSyncedAt t = Some w \<and> v \<le> w))"

definition later_than :: "billing_db \<Rightarrow> billing_db \<Rightarrow> bool" where
  "later_than db db' \<longleftrightarrow> (\<forall>s \<in> set (bd_subscriptions db). \<exists>t \<in> set (bd_subscriptions db'). successor s t)
     \<and> (\<exists>more. bd_events db' = bd_events db @ more)"

lemma successor_refl: "successor s s"
  by (simp add: successor_def split: option.splits)

lemma successor_trans: "successor r s \<Longrightarrow> successor s t \<Longrightarrow> successor r t"
  unfolding successor_def by (cases "bs_providerSyncedAt r") (auto intro: order_trans)

lemma later_refl: "later_than db db"
  by (auto simp: later_than_def intro: successor_refl)

lemma later_trans: "later_than a b \<Longrightarrow> later_than b c \<Longrightarrow> later_than a c"
  unfolding later_than_def by (auto; meson successor_trans)

lemma applied_later:
  assumes sound: "billing_sound db" and ok: "admissible db g" and run: "applySubscriptionChange now g db = Inr (db', a)"
  shows "later_than db db'"
proof -
  from run obtain i source db1 where w: "write_change now g db = Inr (db1, i, source)" and db': "db' = recorded_change i source g db1"
      and allowed: "transitionAllowed (sg_current g) (bs_status (sg_next g)) (sg_occurredAt g) (mirrors g)"
    by (rule applied_parts)
  show ?thesis
  proof (cases "sg_current g")
    case None
    from created_case [OF w None] db' show ?thesis by (auto simp: later_than_def intro: successor_refl)
  next
    case (Some c)
    let ?f = "written now (sg_next g) (sg_providerSyncedAt g)"
    from Some ok have c: "c \<in> set (bd_subscriptions db)" by (simp add: admissible_def)
    have d: "distinct (map bs_id (bd_subscriptions db))" using sound by (simp add: billing_sound_def rows_sound_def)
    from updated_case [OF w Some] have u: "db1 = row_updated now (bs_id c) g db" "i = bs_id c" by auto
    have mem: "s \<in> set (bd_subscriptions db') \<longleftrightarrow> s = ?f c \<or> s \<in> set (bd_subscriptions db) \<and> bs_id s \<noteq> bs_id c" for s
      unfolding db' u recorded_simps row_updated_def by (simp add: set_update_rows_id [OF d c])
    have "bs_status c \<noteq> SUB_EXPIRED" using allowed Some by (auto simp: transitionAllowed_def canTransition_def split: if_splits)
    then have "successor c (?f c)"
      using ok Some by (auto simp: successor_def admissible_def split: option.splits)
    moreover have "s = c" if "s \<in> set (bd_subscriptions db)" "bs_id s = bs_id c" for s using same_id [OF d that(1) c that(2)] .
    ultimately have "\<exists>t \<in> set (bd_subscriptions db'). successor s t" if "s \<in> set (bd_subscriptions db)" for s
      using that mem successor_refl by (cases "bs_id s = bs_id c") auto
    then show ?thesis by (auto simp: later_than_def db' u)
  qed
qed

lemma ended_later: "later_than db (end_organisation now target db)"
proof -
  have "\<exists>t \<in> set (bd_subscriptions (end_organisation now target db)). successor s t" if "s \<in> set (bd_subscriptions db)" for s
  proof
    let ?t = "if live_of target s then expired_row now s else s"
    show "?t \<in> set (bd_subscriptions (end_organisation now target db))"
      using that by (auto simp: end_organisation_subs update_rows_def)
    show "successor s ?t"
      using successor_refl by (auto simp: successor_def live_of_def split: option.splits)
  qed
  then show ?thesis by (simp add: later_than_def end_organisation_def)
qed

lemma quiet_later: "quiet db db' \<Longrightarrow> later_than db db'"
  by (auto simp: quiet_def later_than_def intro: successor_refl)

lemma move_later: "billing_move db db' \<Longrightarrow> billing_sound db \<Longrightarrow> later_than db db'"
  by (induction rule: billing_move.induct) (blast intro: applied_later quiet_later ended_later)+

lemma moves_later: "billing_move\<^sup>*\<^sup>* db db' \<Longrightarrow> billing_sound db \<Longrightarrow> later_than db db'"
  by (induction rule: rtranclp_induct) (auto intro: later_refl later_trans move_later moves_sound)

end
