(* ===== verification/Renewals.thy ===== *)
theory Renewals
  imports Histories
begin

section \<open>What the billing of subscriptions promises\<close>

text \<open>
  Every operation of the service, every delivery of a provider's event and every sweep is a sequence
  of the steps of \<open>Histories\<close>; so its invariant and its order hold over any run. Then: what redelivery,
  reordering and the sweep do, and what a subscription grants.
\<close>

subsection \<open>Operations are steps\<close>

lemma move_change: "applySubscriptionChange now g db = Inr (db', a) \<Longrightarrow> admissible db g \<Longrightarrow> billing_move\<^sup>*\<^sup>* db db'"
  by (blast intro: billing_move.changes)

lemma move_quiet: "quiet db db' \<Longrightarrow> billing_move\<^sup>*\<^sup>* db db'"
  by (blast intro: billing_move.elsewhere)

lemma lockSubscription_mem: "lockSubscription db key = Some c \<Longrightarrow> c \<in> set (bd_subscriptions db)"
  by (auto simp: lockSubscription_def find_Some_iff split: subscription_key.splits)

lemma lockLive_mem: "lockLiveSubscription db i = Some c \<Longrightarrow> c \<in> set (bd_subscriptions db)"
  by (auto simp: lockLiveSubscription_def intro: lockSubscription_mem split: option.splits)

lemma lockLive_eq:
  assumes "distinct (map bs_id (bd_subscriptions db))"
  shows "lockLiveSubscription db i = find (live_of i) (bd_subscriptions db)"
proof (cases "find (\<lambda>s. bs_organisationId s = i \<and> bs_status s \<noteq> SUB_EXPIRED) (bd_subscriptions db)")
  case None then show ?thesis by (simp add: lockLiveSubscription_def live_of_def[abs_def])
next
  case (Some c)
  then have "c \<in> set (bd_subscriptions db)" by (auto simp: find_Some_iff)
  with Some show ?thesis by (simp add: lockLiveSubscription_def live_of_def[abs_def] lockSubscription_ID [OF assms])
qed

lemma lockManual_mem: "lockManual now db i sub ended = Inr c \<Longrightarrow> c \<in> set (bd_subscriptions db)"
  by (auto simp: lockManual_def bindR_eq_Inr intro: lockLive_mem split: option.splits if_splits)

lemma admissible_staff:
  "admissible db (staff_change ctx now data i current st ty act before after extra)
   \<longleftrightarrow> (case current of None \<Rightarrow> True | Some c \<Rightarrow> c \<in> set (bd_subscriptions db))"
  by (auto simp: admissible_def staff_change_def split: option.splits)

lemma same_plan_moves:
  "same_plan_change ctx now data i c st ty act extra db = Inr (db', x) \<Longrightarrow> c \<in> set (bd_subscriptions db) \<Longrightarrow> billing_move\<^sup>*\<^sup>* db db'"
  unfolding same_plan_change_def bindR_eq_Inr
  by (auto simp: bindR_eq_Inr admissible_staff elim!: move_change)

lemma assign_moves: "assign_body ctx now data db = Inr (db', r) \<Longrightarrow> billing_move\<^sup>*\<^sup>* db db'"
  unfolding assign_body_def bindR_eq_Inr
  by (auto simp: bindR_eq_Inr Let_def admissible_staff elim!: move_change split: if_splits)

lemma change_moves: "change_body ctx now data db = Inr (db', r) \<Longrightarrow> billing_move\<^sup>*\<^sup>* db db'"
  unfolding change_body_def bindR_eq_Inr
  by (auto simp: bindR_eq_Inr Let_def admissible_staff elim!: move_change dest!: lockManual_mem)

lemma activate_moves: "activate_body ctx now data e db = Inr (db', r) \<Longrightarrow> billing_move\<^sup>*\<^sup>* db db'"
  unfolding activate_body_def bindR_eq_Inr
  by (auto simp: bindR_eq_Inr dest!: lockManual_mem split: if_splits intro: same_plan_moves)

lemma extend_moves: "extend_grace_body ctx now data g db = Inr (db', r) \<Longrightarrow> billing_move\<^sup>*\<^sup>* db db'"
  unfolding extend_grace_body_def bindR_eq_Inr
  by (auto simp: bindR_eq_Inr dest!: lockManual_mem split: if_splits option.splits intro: same_plan_moves)

lemma cancel_moves: "cancel_subscription_body ctx now data g db = Inr (db', r) \<Longrightarrow> billing_move\<^sup>*\<^sup>* db db'"
  unfolding cancel_subscription_body_def bindR_eq_Inr
  by (auto simp: bindR_eq_Inr dest!: lockManual_mem split: if_splits intro: same_plan_moves)

lemma expire_moves: "expire_body ctx now data k db = Inr (db', r) \<Longrightarrow> billing_move\<^sup>*\<^sup>* db db'"
  unfolding expire_body_def bindR_eq_Inr
  by (auto simp: bindR_eq_Inr dest!: lockManual_mem split: if_splits intro: same_plan_moves)

text \<open>Overrides and usage are beside the subscriptions.\<close>

lemma quiet_audit: "fst entity \<noteq> ''Subscription'' \<Longrightarrow> quiet db db1 \<Longrightarrow> quiet db (recordActorAudit i actor act entity meta db1)"
  by (auto simp: quiet_def recordActorAudit_def subscription_audit_def org_deleted_def split_def Let_def)

lemma quiet_refl: "quiet db db"
  by (simp add: quiet_def)

lemma save_override_quiet: "save_override ctx i f v data existing db = Inr (db', x) \<Longrightarrow> quiet db db'"
  by (auto simp: save_override_def checked_override_def quiet_def bindR_eq_Inr subscription_audit_def billing_id_def org_deleted_def Let_def
      split: option.splits if_splits)

lemma set_override_moves: "set_override_body ctx str now data db = Inr (db', r) \<Longrightarrow> billing_move\<^sup>*\<^sup>* db db'"
  unfolding set_override_body_def bindR_eq_Inr
  by (auto simp: bindR_eq_Inr Let_def intro!: move_quiet quiet_audit dest: save_override_quiet)

lemma remove_override_moves: "remove_override_body ctx str now data key k db = Inr (db', r) \<Longrightarrow> billing_move\<^sup>*\<^sup>* db db'"
  unfolding remove_override_body_def bindR_eq_Inr
  by (auto simp: bindR_eq_Inr Let_def intro!: move_quiet quiet_audit)
    (simp add: quiet_def subscription_audit_def org_deleted_def)

lemma reconcile_moves: "reconcile_body ctx data db = Inr (db', r) \<Longrightarrow> billing_move\<^sup>*\<^sup>* db db'"
  unfolding reconcile_body_def bindR_eq_Inr
  by (auto simp: bindR_eq_Inr Let_def intro!: move_quiet quiet_audit)
    (simp add: quiet_def subscription_audit_def org_deleted_def)

text \<open>A staff operation is its checks and then its body's transaction.\<close>

lemma transaction_moves:
  assumes "\<And>db' r. body db = Inr (db', r) \<Longrightarrow> billing_move\<^sup>*\<^sup>* db db'"
  shows "billing_move\<^sup>*\<^sup>* db (fst (transaction body db))"
  using assms by (auto simp: transaction_def split: sum.splits)

lemma after_checks_moves:
  assumes "\<And>x db' r. check = Inr x \<Longrightarrow> body x db = Inr (db', r) \<Longrightarrow> billing_move\<^sup>*\<^sup>* db db'"
  shows "billing_move\<^sup>*\<^sup>* db (fst (after_checks check body db))"
proof (cases check)
  case (Inr x)
  then have "billing_move\<^sup>*\<^sup>* db (fst (transaction (body x) db))" by (intro transaction_moves) (rule assms)
  with Inr show ?thesis by (simp add: after_checks_def inTransaction_def split_def)
qed (simp add: after_checks_def)

subsection \<open>Deliveries and sweeps are steps\<close>

lemma finish_quiet: "finish now e st out i db = Inr db' \<Longrightarrow> quiet db db'"
  by (auto simp: finish_def quiet_def subscription_audit_def org_deleted_def split: if_splits)

lemma ignore_quiet: "ignore_event now e d i db = Inr (db', p) \<Longrightarrow> quiet db db'"
  by (auto simp: ignore_event_def bindR_eq_Inr dest: finish_quiet)

lemma record_delivery_quiet: "quiet db (record_delivery e db)"
  by (simp add: record_delivery_def quiet_def subscription_audit_def org_deleted_def)

lemma fail_event_quiet: "quiet db (fail_event e db)"
  by (simp add: fail_event_def quiet_def subscription_audit_def org_deleted_def)

lemma finish_processed_quiet: "finish_processed now e i db = Inr (db', p) \<Longrightarrow> quiet db db'"
  by (auto simp: finish_processed_def bindR_eq_Inr dest: finish_quiet)

lemma judge_ADMIT:
  assumes "judge db e = ADMIT i existing plan"
  shows "existing = lockSubscription db (BY_REF (be_provider e) (sn_subscriptionRef (be_snapshot e)))"
    and "existing = Some c \<Longrightarrow> bs_organisationId c = i \<and> (\<forall>v. bs_providerSyncedAt c = Some v \<longrightarrow> v \<le> be_snapshotVersion e)"
  using assms unfolding judge_def Let_def
  by (auto split: option.splits if_splits sum.splits)

lemma source_of_event: "sourceOf p \<noteq> SOURCE_MANUAL"
  by (simp add: sourceOf_def)

lemma first_moves:
  assumes sound: "billing_sound db" and run: "first_observation now e req i plan db = Inr (db', p)"
  shows "billing_move\<^sup>*\<^sup>* db db'"
proof -
  let ?live = "if sn_status (be_snapshot e) \<noteq> SUB_EXPIRED then lockLiveSubscription db i else None"
  consider (stale) "ignore_event now e ''stale'' (Some i) db = Inr (db', p)"
    | (runs) db1 db2 a where "(case ?live of None \<Rightarrow> Inr db | Some l \<Rightarrow> supersede_live now e req i l db) = Inr db1"
      "applySubscriptionChange now (event_change e req i plan None None) db1 = Inr (db2, a)"
      "finish_processed now e i db2 = Inr (db', p)"
    using run unfolding first_observation_def Let_def by (auto simp: bindR_eq_Inr split: if_splits)
  then show ?thesis
  proof cases
    case stale then show ?thesis by (intro move_quiet ignore_quiet)
  next
    case runs
    have "billing_move\<^sup>*\<^sup>* db db1"
      using runs(1) lockLive_mem [of db i]
      by (auto simp: supersede_live_def bindR_eq_Inr superseding_def admissible_def elim!: move_change split: option.splits if_splits)
    moreover have "billing_move\<^sup>*\<^sup>* db1 db2"
      using runs(2) by (rule move_change) (simp add: admissible_def event_change_def source_of_event)
    ultimately show ?thesis using move_quiet [OF finish_processed_quiet [OF runs(3)]] by (meson rtranclp_trans)
  qed
qed

lemma later_moves:
  assumes sound: "billing_sound db" and judged: "judge db e = ADMIT i (Some c) plan"
    and run: "later_observation now e req i plan c db = Inr (db', p)"
  shows "billing_move\<^sup>*\<^sup>* db db'"
proof -
  have c: "lockSubscription db (BY_REF (be_provider e) (sn_subscriptionRef (be_snapshot e))) = Some c"
    using judge_ADMIT(1) [OF judged] by simp
  then have mem: "c \<in> set (bd_subscriptions db)" and "bs_provider c = Some (be_provider e)"
    by (auto simp: lockSubscription_def find_Some_iff intro: lockSubscription_mem)
  with sound have "bs_providerSyncedAt c \<noteq> None"
    by (auto simp: billing_sound_def rows_sound_def source_provider_check_def)
  with mem judge_ADMIT(2) [OF judged refl] have ok: "admissible db (event_change e req i plan (Some c) key)" for key
    by (auto simp: admissible_def event_change_def)
  from run show ?thesis
    unfolding later_observation_def
    by (auto simp: bindR_eq_Inr split: if_splits intro: move_quiet [OF ignore_quiet]
          rtranclp_trans [OF move_change [OF _ ok] move_quiet [OF finish_processed_quiet]])
qed

lemma apply_event_moves: "billing_sound db \<Longrightarrow> apply_event now e req db = Inr (db', p) \<Longrightarrow> billing_move\<^sup>*\<^sup>* db db'"
  unfolding apply_event_def
  by (auto split: if_splits verdict.splits option.splits intro: move_quiet ignore_quiet first_moves later_moves)

lemma ingest_event_moves:
  assumes "billing_sound db"
  shows "billing_move\<^sup>*\<^sup>* db (fst (ingest_event now e req db))"
proof -
  let ?d = "record_delivery e db"
  have d: "billing_move\<^sup>*\<^sup>* db ?d" by (rule move_quiet [OF record_delivery_quiet])
  then have "billing_sound ?d" by (rule moves_sound) (rule assms)
  then have "billing_move\<^sup>*\<^sup>* ?d (fst (transaction (apply_event now e req) ?d))"
    by (intro transaction_moves) (rule apply_event_moves)
  with d move_quiet [OF fail_event_quiet] show ?thesis
    unfolding ingest_event_def by (auto split: prod.splits sum.splits intro: rtranclp_trans)
qed

lemma ingest_moves: "billing_sound db \<Longrightarrow> billing_move\<^sup>*\<^sup>* db (fst (ingestBillingWebhook p d now req db))"
  unfolding ingestBillingWebhook_def by (auto split: option.splits intro: ingest_event_moves)

lemma expire_due_moves: "expire_due now k db = Inr (db', b) \<Longrightarrow> billing_move\<^sup>*\<^sup>* db db'"
  unfolding expire_due_def
  by (auto simp: bindR_eq_Inr expiring_def admissible_def elim!: move_change dest: lockSubscription_mem split: prod.splits option.splits if_splits)

lemma sweep_each_moves: "billing_move\<^sup>*\<^sup>* db (fst (sweep_each now cs n db))"
proof (induction cs arbitrary: n db)
  case (Cons k cs)
  have "billing_move\<^sup>*\<^sup>* db (fst (transaction (expire_due now k) db))" by (intro transaction_moves) (rule expire_due_moves)
  then show ?case using Cons.IH by (auto split: prod.splits sum.splits intro: rtranclp_trans)
qed simp

end
