(* ===== verification/Deliveries.thy ===== *)
theory Deliveries
  imports Renewals
begin

section \<open>Deliveries in any order, and the sweep\<close>

text \<open>
  When a change of the Subscription Service succeeds, and what follows for events that a provider
  delivers late, twice or out of order, and for the subscriptions whose time is over.
\<close>

subsection \<open>Changes that succeed\<close>

lemma assertStateInvariants_iff: "assertStateInvariants st = Inr () \<longleftrightarrow> status_date_checks st"
  unfolding assertStateInvariants_def status_date_checks_def by auto

lemma status_dates_written [simp]: "status_date_checks (written now st v s) = status_date_checks st"
  by (simp add: status_date_checks_def written_def)

lemma status_dates_new [simp]: "status_date_checks (new_subscription now i org r st v) = status_date_checks st"
  by (simp add: status_date_checks_def new_subscription_def)

definition short_texts :: "subscription_change \<Rightarrow> bool" where
  "short_texts g \<longleftrightarrow> at_most 500 (sg_reason g) \<and> at_most 2000 (sg_note g)"

lemma insert_event_of: "short_texts g \<Longrightarrow>
    insert_event (event_of i source g) db = Inr (db\<lparr>bd_events := bd_events db @ [event_of i source g]\<rparr>)"
  by (simp add: insert_event_def short_texts_def event_of_def split_def Let_def)

lemma applied_when_written:
  assumes "sg_current g = None \<or> map_option bs_organisationId (sg_current g) = Some (sg_organisationId g)"
    and "transitionAllowed (sg_current g) (bs_status (sg_next g)) (sg_occurredAt g) (mirrors g)"
    and "status_date_checks (sg_next g)" "short_texts g" "write_change now g db = Inr (db1, i, source)"
  shows "\<exists>a. applySubscriptionChange now g db = Inr (recorded_change i source g db1, a)"
proof -
  have "assertStateInvariants (sg_next g) = Inr ()" using assms(3) by (simp add: assertStateInvariants_iff)
  with assms show ?thesis unfolding applySubscriptionChange_def
    by (auto simp: insert_event_of recordActorAudit_def recorded_change_def audit_of_def split_def Let_def)
qed

lemma filter_map_le: "(\<And>x. x \<in> set xs \<Longrightarrow> P (f x) \<Longrightarrow> P x) \<Longrightarrow> length (filter P (map f xs)) \<le> length (filter P xs)"
  by (induction xs) auto

lemma live_count_update:
  assumes "distinct (map bs_id xs)" "c \<in> set xs" "live_of (bs_organisationId c) c"
  shows "length (filter (live_of (bs_organisationId c)) (update_rows (\<lambda>s. bs_id s = bs_id c) (written now st v) xs))
    \<le> length (filter (live_of (bs_organisationId c)) xs)"
proof -
  let ?P = "live_of (bs_organisationId c)" and ?f = "\<lambda>s. if bs_id s = bs_id c then written now st v s else s"
  have "?P s" if "s \<in> set xs" "?P (?f s)" for s
    using that assms same_id [OF assms(1) that(1) assms(2)] by (auto split: if_splits)
  then have "length (filter ?P (map ?f xs)) \<le> length (filter ?P xs)" by (rule filter_map_le)
  then show ?thesis by (simp add: update_rows_def)
qed

lemma update_succeeds:
  assumes sound: "billing_sound db" and c: "c \<in> set (bd_subscriptions db)" "sg_current g = Some c" "bs_organisationId c = sg_organisationId g"
    and allowed: "transitionAllowed (Some c) (bs_status (sg_next g)) (sg_occurredAt g) False"
    and st: "status_date_checks (sg_next g)" "bs_planId (sg_next g) \<in> pl_id ` set (bd_plans db)" and texts: "short_texts g"
  shows "\<exists>a. applySubscriptionChange now g db = Inr (recorded_change (bs_id c) (bs_source c) g (row_updated now (bs_id c) g db), a)"
proof -
  let ?u = "row_updated now (bs_id c) g db"
  have d: "distinct (map bs_id (bd_subscriptions db))" and "source_provider_check c"
    and org: "bs_organisationId c \<in> og_id ` set (bd_organisations db)"
    using sound c(1) by (auto simp: billing_sound_def rows_sound_def)
  then have check: "source_provider_check (written now (sg_next g) (sg_providerSyncedAt g) c)" by (simp add: source_provider_check_def)
  have live: "live_of (bs_organisationId c) c"
    using allowed by (auto simp: live_of_def transitionAllowed_def canTransition_def split: if_splits)
  have "length (filter (live_of (bs_organisationId c)) (bd_subscriptions db)) \<le> 1"
    using sound by (simp add: billing_sound_def one_live_def)
  with live_count_update [OF d c(1) live, of now "sg_next g" "sg_providerSyncedAt g"]
  have one: "length (filter (live_of (bs_organisationId c)) (bd_subscriptions ?u)) \<le> 1" by (simp add: row_updated_def)
  have "same_reference (written now (sg_next g) (sg_providerSyncedAt g) c) = same_reference c" by (simp add: same_reference_def[abs_def])
  moreover have "length (filter (same_reference c) (bd_subscriptions ?u)) = length (filter (same_reference c) (bd_subscriptions db))"
    unfolding row_updated_def by (simp, intro filter_kept_rows) (simp add: same_reference_def)
  moreover have "bs_provider c \<noteq> None \<and> bs_providerSubscriptionId c \<noteq> None \<longrightarrow>
      length (filter (same_reference c) (bd_subscriptions db)) \<le> 1"
    using sound c(1) by (auto simp: billing_sound_def references_unique_def)
  ultimately have "checked_row (written now (sg_next g) (sg_providerSyncedAt g) c) ?u = Inr ?u"
    using check st one org unfolding checked_row_Inr by simp
  then have "write_change now g db = Inr (?u, bs_id c, bs_source c)"
    by (simp add: write_change_def c(2) updateSubscription_def lockSubscription_ID [OF d c(1)] row_updated_def)
  moreover have "\<not> mirrors g" using c(2) by (simp add: mirrors_def)
  ultimately show ?thesis using allowed st texts c by (intro applied_when_written) simp_all
qed

lemma create_succeeds:
  assumes sound: "billing_sound db" and g: "sg_current g = None" "sg_origin g = Some r" "mirrors g \<or> canTransition None (bs_status (sg_next g))"
    and st: "status_date_checks (sg_next g)" "bs_planId (sg_next g) \<in> pl_id ` set (bd_plans db)"
      "sg_organisationId g \<in> og_id ` set (bd_organisations db)"
    and texts: "short_texts g" and check: "source_provider_check (row_of now r g db)"
    and none: "\<And>s. s \<in> set (bd_subscriptions db) \<Longrightarrow> bs_status (sg_next g) \<noteq> SUB_EXPIRED \<Longrightarrow> \<not> live_of (sg_organisationId g) s"
      "\<And>s. s \<in> set (bd_subscriptions db) \<Longrightarrow> or_provider r \<noteq> None \<Longrightarrow> \<not> same_reference (row_of now r g db) s"
  shows "\<exists>a. applySubscriptionChange now g db = Inr (recorded_change (bd_next db) (or_source r) g (row_created now r g db), a)"
proof -
  let ?row = "row_of now r g db" and ?subs = "bd_subscriptions db"
  have "length (filter (live_of (sg_organisationId g)) (?subs @ [?row])) \<le> 1"
  proof (cases "bs_status (sg_next g) = SUB_EXPIRED")
    case True
    then have "\<not> live_of (sg_organisationId g) ?row" by (simp add: live_of_def row_of_def)
    then show ?thesis using sound by (simp add: billing_sound_def one_live_def)
  next
    case False
    then have "filter (live_of (sg_organisationId g)) ?subs = []" using none(1) by (simp add: filter_empty_conv)
    then show ?thesis by simp
  qed
  moreover have "length (filter (same_reference ?row) (?subs @ [?row])) \<le> 1" if "bs_provider ?row \<noteq> None"
  proof -
    have "filter (same_reference ?row) ?subs = []" using none(2) that by (simp add: filter_empty_conv row_of_def)
    then show ?thesis by simp
  qed
  ultimately have "checked_row ?row (row_created now r g db) = Inr (row_created now r g db)"
    using check st unfolding checked_row_Inr by (simp add: row_of_def)
  then have "write_change now g db = Inr (row_created now r g db, bd_next db, or_source r)"
    by (simp add: write_change_def g createSubscription_def billing_id_def row_created_def row_of_def)
  then show ?thesis using g st texts by (intro applied_when_written) (auto simp: transitionAllowed_def)
qed

subsection \<open>What a subscription grants\<close>

lemma find_unique: "length (filter P xs) \<le> 1 \<Longrightarrow> find P xs = Some x \<longleftrightarrow> x \<in> set xs \<and> P x"
  by (induction xs) (auto simp: filter_empty_conv split: if_splits)

lemma find_map_filter: "find Q (map f (filter P xs)) = map_option f (find (\<lambda>x. P x \<and> Q (f x)) xs)"
  by (induction xs) auto

lemma loadLive_view:
  assumes "billing_sound db"
  shows "loadLiveSubscription (tenant_view i db) now = map_option (\<lambda>s. (as_entitled s, entitles s now)) (find (live_of i) (bd_subscriptions db))"
  by (simp add: loadLiveSubscription_def tenant_view_def find_map_filter live_of_def[abs_def] entitles_def as_entitled_def option.map_comp comp_def)

text \<open>A plan is granted exactly by an entitling subscription, wherever it came from.\<close>

lemma plan_granted:
  assumes "billing_sound db"
  shows "entitlingPlanId now db i = Some p \<longleftrightarrow>
    (\<exists>s \<in> set (bd_subscriptions db). bs_organisationId s = i \<and> entitles s now \<and> bs_planId s = p)"
proof -
  have one: "length (filter (live_of i) (bd_subscriptions db)) \<le> 1" using assms by (simp add: billing_sound_def one_live_def)
  have "entitles s now \<Longrightarrow> bs_status s \<noteq> SUB_EXPIRED" for s by (auto simp: entitles_def isEntitling_def as_entitled_def)
  moreover have "entitlingPlanId now db i = Some p \<longleftrightarrow>
      (\<exists>s. find (live_of i) (bd_subscriptions db) = Some s \<and> entitles s now \<and> bs_planId s = p)"
    by (auto simp: entitlingPlanId_def entitling_plan_def loadLive_view [OF assms] as_entitled_def split: option.splits bool.splits)
  ultimately show ?thesis by (auto simp: find_unique [OF one] live_of_def)
qed

subsection \<open>The sweep\<close>

lemma reached_iff: "reached v now \<longleftrightarrow> v \<noteq> None \<and> \<not> before_end now v"
  by (auto simp: reached_def before_end_def split: option.splits)

text \<open>The query's conditions are those of the entitlement rule, given the table's constraints.\<close>

lemma due_iff:
  assumes "status_date_checks s"
  shows "due_for_expiry now s \<longleftrightarrow> bs_source s = SOURCE_MANUAL \<and> bs_status s \<noteq> SUB_EXPIRED \<and> \<not> entitles s now"
  using assms unfolding due_for_expiry_def entitles_def isEntitling_def as_entitled_def status_date_checks_def reached_iff
  by (cases "bs_status s") auto

lemma entitles_until: "entitles s d \<Longrightarrow> now \<le> d \<Longrightarrow> entitles s now"
  unfolding entitles_def isEntitling_def before_end_def
  by (auto split: option.splits subscription_status.splits)

definition lapsed :: "date \<Rightarrow> stored_subscription \<Rightarrow> stored_subscription" where
  "lapsed now s = written now (ended_state s now) None s"

lemma lapsed_simps [simp]:
  "bs_id (lapsed now s) = bs_id s" "bs_organisationId (lapsed now s) = bs_organisationId s"
  "bs_status (lapsed now s) = SUB_EXPIRED" "bs_source (lapsed now s) = bs_source s"
  by (simp_all add: lapsed_def ended_state_def)

lemma ended_dates: "status_date_checks s \<Longrightarrow> status_date_checks (ended_state s now)"
  by (simp add: status_date_checks_def ended_state_def stateOf_def)

lemma ended_state_simps [simp]: "bs_planId (ended_state s now) = bs_planId s" "bs_status (ended_state s now) = SUB_EXPIRED"
  by (simp_all add: ended_state_def stateOf_def)

lemma can_expire: "bs_status c \<noteq> SUB_EXPIRED \<Longrightarrow> transitionAllowed (Some c) SUB_EXPIRED at False"
  by (cases "bs_status c") (auto simp: transitionAllowed_def canTransition_def)

lemma plan_key_found: "p \<in> pl_id ` set (bd_plans db) \<Longrightarrow> \<exists>key. plan_key_of db p = Inr key"
  by (cases "find (\<lambda>r. pl_id r = p) (bd_plans db)") (auto simp: plan_key_of_def find_None_iff)

lemma expire_due_runs:
  assumes sound: "billing_sound db" and s: "s \<in> set (bd_subscriptions db)" "due_for_expiry now s"
  shows "\<exists>t. expire_due now (bs_id s, bs_organisationId s) db = Inr (t, True) \<and> billing_sound t
    \<and> bd_subscriptions t = map (\<lambda>x. if x = s then lapsed now x else x) (bd_subscriptions db)"
proof -
  have d: "distinct (map bs_id (bd_subscriptions db))" and ok: "status_date_checks s" "bs_planId s \<in> pl_id ` set (bd_plans db)"
    using sound s(1) by (auto simp: billing_sound_def rows_sound_def)
  have due: "bs_status s \<noteq> SUB_EXPIRED" "\<not> entitles s now" using s(2) due_iff [OF ok(1)] by auto
  obtain key where key: "plan_key_of db (bs_planId s) = Inr key" using plan_key_found [OF ok(2)] by blast
  let ?g = "expiring (bs_organisationId s) s now key"
  have g: "sg_current ?g = Some s" "sg_organisationId ?g = bs_organisationId s" "sg_next ?g = ended_state s now"
    "sg_occurredAt ?g = now" "sg_providerSyncedAt ?g = None" "short_texts ?g"
    by (simp_all add: expiring_def short_texts_def at_most_def)
  have "\<exists>a. applySubscriptionChange now ?g db = Inr (recorded_change (bs_id s) (bs_source s) ?g (row_updated now (bs_id s) ?g db), a)"
    by (rule update_succeeds [OF sound s(1) g(1)]) (simp_all add: g can_expire due(1) ended_dates ok)
  then obtain a where a: "applySubscriptionChange now ?g db = Inr (recorded_change (bs_id s) (bs_source s) ?g (row_updated now (bs_id s) ?g db), a)" ..
  let ?t = "recorded_change (bs_id s) (bs_source s) ?g (row_updated now (bs_id s) ?g db)"
  have "expire_due now (bs_id s, bs_organisationId s) db = Inr (?t, True)"
    by (simp add: expire_due_def lockSubscription_ID [OF d s(1)] due key a)
  moreover have "billing_sound ?t" by (rule applied_sound [OF sound _ a]) (simp add: admissible_def g s(1))
  moreover have "bd_subscriptions ?t = map (\<lambda>x. if x = s then lapsed now x else x) (bd_subscriptions db)"
    by (auto simp: row_updated_def update_rows_def g lapsed_def dest: same_id [OF d _ s(1)])
  ultimately show ?thesis by blast
qed

lemma sweep_each_runs:
  assumes "billing_sound db" "distinct (map bs_id ss)" "\<And>s. s \<in> set ss \<Longrightarrow> s \<in> set (bd_subscriptions db) \<and> due_for_expiry now s"
  shows "\<exists>t. sweep_each now (map (\<lambda>s. (bs_id s, bs_organisationId s)) ss) n db = (t, Inr (n + int (length ss))) \<and> billing_sound t
    \<and> bd_subscriptions t = map (\<lambda>x. if x \<in> set ss then lapsed now x else x) (bd_subscriptions db)"
  using assms
proof (induction ss arbitrary: db n)
  case (Cons s ss)
  have s: "s \<in> set (bd_subscriptions db)" "due_for_expiry now s" using Cons.prems(3) [of s] by simp_all
  from expire_due_runs [OF Cons.prems(1) s] obtain t where t: "expire_due now (bs_id s, bs_organisationId s) db = Inr (t, True)" "billing_sound t"
      "bd_subscriptions t = map (\<lambda>x. if x = s then lapsed now x else x) (bd_subscriptions db)"
    by blast
  have other: "x \<noteq> s \<and> x \<noteq> lapsed now s" if "x \<in> set ss" for x
  proof -
    from that Cons.prems(2) have "bs_id x \<noteq> bs_id s" by (auto simp: image_iff)
    then show ?thesis by auto
  qed
  have "x \<in> set (bd_subscriptions t) \<and> due_for_expiry now x" if "x \<in> set ss" for x
    using Cons.prems(3) [of x] that other [OF that] by (auto simp: t(3))
  with Cons.IH [OF t(2), of "n + 1"] Cons.prems(2) obtain u where
    u: "sweep_each now (map (\<lambda>s. (bs_id s, bs_organisationId s)) ss) (n + 1) t = (u, Inr (n + 1 + int (length ss)))" "billing_sound u"
      "bd_subscriptions u = map (\<lambda>x. if x \<in> set ss then lapsed now x else x) (bd_subscriptions t)" by auto
  have "bd_subscriptions u = map (\<lambda>x. if x \<in> set (s # ss) then lapsed now x else x) (bd_subscriptions db)"
    using other by (auto simp: u(3) t(3))
  then show ?case using u t(1) by (simp add: transaction_def)
qed simp

lemma sweep_runs:
  assumes sound: "billing_sound db" and few: "length (filter (due_for_expiry now) (bd_subscriptions db)) \<le> 500"
  shows "\<exists>t. sweepSubscriptionExpiry now db = (t, Inr (int (length (filter (due_for_expiry now) (bd_subscriptions db)))))
    \<and> billing_sound t \<and> bd_subscriptions t = map (\<lambda>x. if due_for_expiry now x then lapsed now x else x) (bd_subscriptions db)"
proof -
  let ?ss = "filter (due_for_expiry now) (bd_subscriptions db)"
  have "distinct (map bs_id ?ss)"
    using sound by (auto simp: billing_sound_def rows_sound_def distinct_map intro: inj_on_subset)
  then obtain t where
    t: "sweep_each now (map (\<lambda>s. (bs_id s, bs_organisationId s)) ?ss) 0 db = (t, Inr (0 + int (length ?ss)))" "billing_sound t"
      "bd_subscriptions t = map (\<lambda>x. if x \<in> set ?ss then lapsed now x else x) (bd_subscriptions db)"
    using sweep_each_runs [OF sound, of ?ss now 0] by (simp only: set_filter mem_Collect_eq) blast
  have "bd_subscriptions t = map (\<lambda>x. if due_for_expiry now x then lapsed now x else x) (bd_subscriptions db)"
    unfolding t(3) by (rule map_cong) simp_all
  moreover have "sweepSubscriptionExpiry now db = (t, Inr (int (length ?ss)))"
    unfolding sweepSubscriptionExpiry_def using t(1) few by simp
  ultimately show ?thesis using t(2) by blast
qed

subsection \<open>Redelivery\<close>

text \<open>An event the ledger has settled.\<close>

definition settled :: "billing_event \<Rightarrow> billing_db \<Rightarrow> bool" where
  "settled e db \<longleftrightarrow> (\<exists>w. find (ledger_row e) (bd_webhooks db) = Some w \<and> wh_status w \<in> {WH_PROCESSED, WH_IGNORED})"

lemma find_updated:
  "list_ex P ws \<Longrightarrow> (\<And>w. P w \<Longrightarrow> P (f w) \<and> Q (f w)) \<Longrightarrow> \<exists>w. find P (update_rows P f ws) = Some w \<and> Q w"
  by (induction ws) (auto simp: update_rows_def)

lemma finish_settles:
  assumes "finish now e st out i db = Inr db'" "st \<in> {WH_PROCESSED, WH_IGNORED}"
  shows "settled e db'"
proof -
  let ?f = "\<lambda>w. w\<lparr>wh_status := st, wh_organisationId := i, wh_attempts := wh_attempts w + 1, wh_outcome := out, wh_processedAt := Some now\<rparr>"
  have "\<exists>w. find (ledger_row e) (update_rows (ledger_row e) ?f (bd_webhooks db)) = Some w \<and> wh_status w \<in> {WH_PROCESSED, WH_IGNORED}"
    by (rule find_updated) (use assms in \<open>auto simp: finish_def ledger_row_def split: if_splits\<close>)
  with assms show ?thesis by (auto simp: finish_def settled_def split: if_splits)
qed

lemma ignore_settles: "ignore_event now e d i db = Inr (db', p) \<Longrightarrow> settled e db'"
  by (auto simp: ignore_event_def bindR_eq_Inr intro: finish_settles)

lemma finish_processed_settles: "finish_processed now e i db = Inr (db', p) \<Longrightarrow> settled e db'"
  by (auto simp: finish_processed_def bindR_eq_Inr intro: finish_settles)

lemma first_settles: "first_observation now e req i plan db = Inr (db', p) \<Longrightarrow> settled e db'"
  unfolding first_observation_def Let_def
  by (auto simp: bindR_eq_Inr dest: ignore_settles finish_processed_settles split: if_splits)

lemma later_settles: "later_observation now e req i plan c db = Inr (db', p) \<Longrightarrow> settled e db'"
  unfolding later_observation_def
  by (auto simp: bindR_eq_Inr dest: ignore_settles finish_processed_settles split: if_splits)

lemma apply_event_settles:
  assumes "apply_event now e req db = Inr (db', p)"
  shows "settled e db'"
proof (cases "settled e db")
  case True
  then have "apply_event now e req db = Inr (db, \<lparr>pr_outcome = IN_DUPLICATE, pr_detail = None, pr_organisationId = None\<rparr>)"
    by (auto simp: apply_event_def settled_def)
  with True assms show ?thesis by simp
next
  case False
  then have "\<not> (case find (ledger_row e) (bd_webhooks db) of None \<Rightarrow> False | Some w \<Rightarrow> wh_status w \<in> {WH_PROCESSED, WH_IGNORED})"
    by (auto simp: settled_def split: option.splits)
  with assms show ?thesis
    by (auto simp: apply_event_def dest: ignore_settles first_settles later_settles split: verdict.splits option.splits)
qed

lemma settled_duplicate:
  assumes "settled e db"
  shows "ingest_event now e req db = (db, ingest_answer IN_DUPLICATE None (Some (be_eventId e)) None)"
proof -
  have "list_ex (ledger_row e) (bd_webhooks db)" using assms by (auto simp: settled_def find_Some_iff list_ex_iff)
  moreover from assms have "apply_event now e req db =
      Inr (db, \<lparr>pr_outcome = IN_DUPLICATE, pr_detail = None, pr_organisationId = None\<rparr>)"
    by (auto simp: apply_event_def settled_def)
  ultimately show ?thesis by (simp add: ingest_event_def record_delivery_def transaction_def)
qed

subsection \<open>One delivery of a known subscription\<close>

definition customer_of :: "billing_db \<Rightarrow> billing_event \<Rightarrow> uuid option" where
  "customer_of db e = map_option bc_organisationId
     (find (\<lambda>c. bc_provider c = be_provider e \<and> bc_providerCustomerId c = sn_customerRef (be_snapshot e)) (bd_customers db))"

definition plan_of :: "billing_db \<Rightarrow> billing_event \<Rightarrow> plan_row option" where
  "plan_of db e = find (\<lambda>p. pl_key p = sn_planKey (be_snapshot e)) (bd_plans db)"

text \<open>The columns an event's snapshot stands for, and an event that can be applied.\<close>

definition event_state :: "billing_db \<Rightarrow> billing_event \<Rightarrow> subscription_state option" where
  "event_state db e = map_option (\<lambda>plan. stateFromSnapshot e (pl_id plan)) (plan_of db e)"

definition understood :: "billing_db \<Rightarrow> uuid \<Rightarrow> billing_event \<Rightarrow> bool" where
  "understood db i e \<longleftrightarrow> customer_of db e = Some i \<and> (case plan_of db e of None \<Rightarrow> False
     | Some plan \<Rightarrow> pl_status plan \<noteq> PLAN_ARCHIVED \<and> status_date_checks (stateFromSnapshot e (pl_id plan)))"

definition row_of_event :: "billing_db \<Rightarrow> billing_event \<Rightarrow> stored_subscription option" where
  "row_of_event db e = lockSubscription db (BY_REF (be_provider e) (sn_subscriptionRef (be_snapshot e)))"

definition outdated :: "billing_event \<Rightarrow> stored_subscription \<Rightarrow> bool" where
  "outdated e s \<longleftrightarrow> (case bs_providerSyncedAt s of None \<Rightarrow> False | Some v \<Rightarrow> be_snapshotVersion e < v)"

lemma judge_understood:
  assumes "understood db i e" "case row_of_event db e of None \<Rightarrow> True | Some s \<Rightarrow> bs_organisationId s = i"
  obtains plan where "plan_of db e = Some plan" "status_date_checks (stateFromSnapshot e (pl_id plan))"
    "judge db e = (case row_of_event db e of
       Some s \<Rightarrow> if outdated e s then IGNORE ''stale'' (Some i) else ADMIT i (Some s) plan | None \<Rightarrow> ADMIT i None plan)"
proof -
  obtain c plan where c: "find (\<lambda>c. bc_provider c = be_provider e \<and> bc_providerCustomerId c = sn_customerRef (be_snapshot e)) (bd_customers db) = Some c"
      "bc_organisationId c = i" and plan: "find (\<lambda>p. pl_key p = sn_planKey (be_snapshot e)) (bd_plans db) = Some plan"
      "pl_status plan \<noteq> PLAN_ARCHIVED" "status_date_checks (stateFromSnapshot e (pl_id plan))"
    using assms(1) by (auto simp: understood_def customer_of_def plan_of_def split: option.splits)
  have ok: "assertStateInvariants (stateFromSnapshot e (pl_id plan)) = Inr ()" using plan(3) by (simp add: assertStateInvariants_iff)
  have "judge db e = (case row_of_event db e of
       Some s \<Rightarrow> if outdated e s then IGNORE ''stale'' (Some i) else ADMIT i (Some s) plan | None \<Rightarrow> ADMIT i None plan)"
    unfolding judge_def Let_def c(1) option.case row_of_event_def [symmetric] plan(1)
    using assms(2) plan(2) ok by (cases "row_of_event db e") (auto simp: c(2) outdated_def)
  then show thesis using that plan by (simp add: plan_of_def)
qed

text \<open>The ledger's entries of other events are left alone.\<close>

lemma find_update_other: "(\<And>w. sel w \<Longrightarrow> \<not> P w \<and> \<not> P (f w)) \<Longrightarrow> find P (update_rows sel f ws) = find P ws"
  by (induction ws) (auto simp: update_rows_def)

lemma find_update_same: "(\<And>w. P (f w) = P w) \<Longrightarrow> find P (update_rows sel f ws) = map_option (\<lambda>w. if sel w then f w else w) (find P ws)"
  by (induction ws) (auto simp: update_rows_def)

lemma find_snoc: "find P (xs @ [x]) = (case find P xs of None \<Rightarrow> if P x then Some x else None | Some y \<Rightarrow> Some y)"
  by (induction xs) auto

definition finished_db :: "date \<Rightarrow> billing_event \<Rightarrow> webhook_status \<Rightarrow> string option \<Rightarrow> uuid option \<Rightarrow> billing_db \<Rightarrow> billing_db" where
  "finished_db now e st out i db = db\<lparr>bd_webhooks := update_rows (ledger_row e) (\<lambda>w. w\<lparr>wh_status := st, wh_organisationId := i,
        wh_attempts := wh_attempts w + 1, wh_outcome := out, wh_processedAt := Some now\<rparr>) (bd_webhooks db)\<rparr>"

lemma finished: "list_ex (ledger_row e) (bd_webhooks db) \<Longrightarrow> finish now e st out i db = Inr (finished_db now e st out i db)"
  by (simp add: finish_def finished_db_def)

lemma finished_simps [simp]:
  "bd_subscriptions (finished_db now e st out i db) = bd_subscriptions db" "bd_plans (finished_db now e st out i db) = bd_plans db"
  "bd_customers (finished_db now e st out i db) = bd_customers db" "bd_organisations (finished_db now e st out i db) = bd_organisations db"
  by (simp_all add: finished_db_def)

lemma delivery_simps [simp]:
  "bd_subscriptions (record_delivery e db) = bd_subscriptions db" "bd_plans (record_delivery e db) = bd_plans db"
  "bd_customers (record_delivery e db) = bd_customers db" "bd_organisations (record_delivery e db) = bd_organisations db"
  "list_ex (ledger_row e) (bd_webhooks (record_delivery e db))"
  by (simp_all add: record_delivery_def ledger_row_def)

lemma settled_elsewhere:
  assumes "be_eventId x \<noteq> be_eventId e" "bd_webhooks db1 = bd_webhooks (record_delivery e db)"
  shows "settled x (finished_db now e st out i db1) \<longleftrightarrow> settled x db"
proof -
  have "find (ledger_row x) (bd_webhooks (finished_db now e st out i db1)) = find (ledger_row x) (bd_webhooks db1)"
    unfolding finished_db_def by (simp, rule find_update_other) (use assms(1) in \<open>auto simp: ledger_row_def\<close>)
  also have "\<dots> = find (ledger_row x) (bd_webhooks db)"
    using assms by (auto simp: record_delivery_def find_snoc ledger_row_def split: option.splits)
  finally show ?thesis by (simp add: settled_def)
qed

lemma settled_finished:
  assumes "bd_webhooks db1 = bd_webhooks (record_delivery e db)" "st \<in> {WH_PROCESSED, WH_IGNORED}"
  shows "settled e (finished_db now e st out i db1)"
proof -
  have "list_ex (ledger_row e) (bd_webhooks db1)" unfolding assms(1) by (rule delivery_simps)
  from finish_settles [OF finished [OF this] assms(2)] show ?thesis .
qed

text \<open>What a delivery leaves as it was; its own event is settled.\<close>

definition same_world :: "billing_event \<Rightarrow> billing_db \<Rightarrow> billing_db \<Rightarrow> bool" where
  "same_world e db t \<longleftrightarrow> bd_plans t = bd_plans db \<and> bd_customers t = bd_customers db \<and> bd_organisations t = bd_organisations db
     \<and> (\<forall>x. be_eventId x \<noteq> be_eventId e \<longrightarrow> settled x t = settled x db) \<and> settled e t"

lemma lock_recorded [simp]: "lockSubscription (record_delivery e db) key = lockSubscription db key"
  by (cases key) (simp_all add: lockSubscription_def)

lemma judge_recorded [simp]: "judge (record_delivery e db) x = judge db x"
  unfolding judge_def lock_recorded delivery_simps ..

lemma row_recorded [simp]: "row_of_event (record_delivery e db) x = row_of_event db x"
  by (simp add: row_of_event_def)

lemma not_settled_recorded: "\<not> settled e db \<Longrightarrow> \<not> settled e (record_delivery e db)"
  by (auto simp: settled_def record_delivery_def find_snoc ledger_row_def split: option.splits if_splits)

lemma ingest_runs:
  assumes "\<not> settled e db" "(case judge db e of IGNORE d i \<Rightarrow> ignore_event now e d i (record_delivery e db)
      | ADMIT i existing plan \<Rightarrow> (case existing of None \<Rightarrow> first_observation now e req i plan (record_delivery e db)
        | Some s \<Rightarrow> later_observation now e req i plan s (record_delivery e db))) = Inr (t, pr)"
  shows "fst (ingest_event now e req db) = t"
proof -
  have "\<not> (case find (ledger_row e) (bd_webhooks (record_delivery e db)) of None \<Rightarrow> False | Some w \<Rightarrow> wh_status w \<in> {WH_PROCESSED, WH_IGNORED})"
    using not_settled_recorded [OF assms(1)] by (auto simp: settled_def split: option.splits)
  with assms(2) have "apply_event now e req (record_delivery e db) = Inr (t, pr)" by (simp only: apply_event_def judge_recorded) simp
  then show ?thesis by (simp add: ingest_event_def transaction_def)
qed

lemma delivery_ignored:
  assumes "\<not> settled e db" "judge db e = IGNORE d i \<or> judge db e = ADMIT k (Some s) plan \<and> i = Some k \<and> d = ''illegal_transition''
      \<and> \<not> transitionAllowed (Some s) (sn_status (be_snapshot e)) (be_occurredAt e) False"
  shows "fst (ingest_event now e req db) = finished_db now e WH_IGNORED (Some d) i (record_delivery e db)"
  by (rule ingest_runs [OF assms(1)]) (use assms(2) in \<open>auto simp: ignore_event_def later_observation_def finished\<close>)

lemma event_texts: "short_texts (event_change e req i plan c key)"
proof -
  have "length (PROVIDER_CODES (be_provider e)) \<le> 8" by (cases "be_provider e") simp_all
  moreover have "length (EVENT_CODES (be_type e)) \<le> 17" by (cases "be_type e") simp_all
  ultimately have "length (PROVIDER_CODES (be_provider e)) + length (EVENT_CODES (be_type e)) \<le> 25" by linarith
  then show ?thesis by (simp add: short_texts_def event_change_def at_most_def toLowerCase_def)
qed

lemma event_change_simps [simp]:
  "sg_current (event_change e req i plan c key) = c" "sg_organisationId (event_change e req i plan c key) = i"
  "sg_next (event_change e req i plan c key) = stateFromSnapshot e (pl_id plan)"
  "sg_occurredAt (event_change e req i plan c key) = be_occurredAt e"
  "sg_providerSyncedAt (event_change e req i plan c key) = Some (be_snapshotVersion e)"
  by (simp_all add: event_change_def)

lemma snapshot_simps [simp]:
  "bs_status (stateFromSnapshot e p) = sn_status (be_snapshot e)" "bs_planId (stateFromSnapshot e p) = p"
  by (simp_all add: stateFromSnapshot_def Let_def)

lemma plan_of_mem: "plan_of db e = Some plan \<Longrightarrow> pl_id plan \<in> pl_id ` set (bd_plans db)"
  by (auto simp: plan_of_def find_Some_iff)

lemma stateOf_written [simp]: "stateOf (written now st v s) = st"
  by (simp add: stateOf_def written_def)

lemma stateOf_new [simp]: "stateOf (new_subscription now i org r st v) = st"
  by (simp add: stateOf_def new_subscription_def)

text \<open>A row that holds what an event said.\<close>

definition holds_event :: "billing_db \<Rightarrow> uuid \<Rightarrow> billing_event \<Rightarrow> stored_subscription \<Rightarrow> bool" where
  "holds_event db i e s \<longleftrightarrow> bs_organisationId s = i \<and> Some (stateOf s) = event_state db e
     \<and> bs_providerSyncedAt s = Some (be_snapshotVersion e)"

lemma first_delivery:
  assumes sound: "billing_sound db" and org: "i \<in> og_id ` set (bd_organisations db)" and e: "understood db i e" "\<not> settled e db"
    and none: "row_of_event db e = None" "\<And>s. s \<in> set (bd_subscriptions db) \<Longrightarrow> \<not> live_of i s"
  shows "same_world e db (fst (ingest_event now e req db))"
    "\<exists>s. row_of_event (fst (ingest_event now e req db)) e = Some s \<and> holds_event db i e s"
proof -
  let ?d = "record_delivery e db"
  have d_sound: "billing_sound ?d" using quiet_sound [OF sound record_delivery_quiet] .
  obtain plan where plan: "plan_of db e = Some plan" "status_date_checks (stateFromSnapshot e (pl_id plan))" "judge db e = ADMIT i None plan"
    by (rule judge_understood [OF e(1)]) (simp_all add: none)
  let ?g = "event_change e req i plan None None"
  let ?r = "\<lparr>or_source = sourceOf (be_provider e), or_provider = Some (be_provider e),
     or_providerSubscriptionId = Some (sn_subscriptionRef (be_snapshot e))\<rparr>"
  have r: "sg_origin ?g = Some ?r" "mirrors ?g" by (simp_all add: event_change_def mirrors_def source_of_event)
  have unique: "\<not> same_reference (row_of now ?r ?g ?d) s" if "s \<in> set (bd_subscriptions ?d)" for s
    using none(1) that by (auto simp: row_of_event_def lockSubscription_def find_None_iff same_reference_def row_of_def)
  have "\<exists>a. applySubscriptionChange now ?g ?d = Inr (recorded_change (bd_next ?d) (or_source ?r) ?g (row_created now ?r ?g ?d), a)"
  proof (rule create_succeeds [OF d_sound _ r(1)])
    show "source_provider_check (row_of now ?r ?g ?d)"
      by (cases "be_provider e") (simp_all add: source_provider_check_def row_of_def sourceOf_def)
  qed (use plan plan_of_mem [OF plan(1)] org none(2) unique r(2) in \<open>simp_all add: event_texts\<close>)
  then obtain a where a: "applySubscriptionChange now ?g ?d = Inr (recorded_change (bd_next ?d) (or_source ?r) ?g (row_created now ?r ?g ?d), a)" ..
  let ?c = "recorded_change (bd_next ?d) (or_source ?r) ?g (row_created now ?r ?g ?d)"
  have w: "bd_webhooks ?c = bd_webhooks ?d" by (simp add: recorded_change_def row_created_def)
  have fin: "finish now e WH_PROCESSED None (Some i) ?c = Inr (finished_db now e WH_PROCESSED None (Some i) ?c)"
    by (rule finished) (simp only: w delivery_simps)
  have "lockLiveSubscription ?d i = None"
    using none(2) lockLive_mem [of ?d i] d_sound
    by (auto simp: lockLive_eq billing_sound_def rows_sound_def find_None_iff)
  then have "first_observation now e req i plan ?d =
      Inr (finished_db now e WH_PROCESSED None (Some i) ?c, \<lparr>pr_outcome = IN_PROCESSED, pr_detail = None, pr_organisationId = Some i\<rparr>)"
    by (simp add: first_observation_def a finish_processed_def fin [simplified])
  then have t: "fst (ingest_event now e req db) = finished_db now e WH_PROCESSED None (Some i) ?c"
    by (intro ingest_runs [OF e(2)]) (simp add: plan(3))
  show "same_world e db (fst (ingest_event now e req db))"
    unfolding t same_world_def using settled_elsewhere [OF _ w] settled_finished [OF w] by (simp add: recorded_change_def row_created_def)
  have "row_of_event (fst (ingest_event now e req db)) e = Some (row_of now ?r ?g ?d)"
    using none(1) unfolding t row_of_event_def by (auto simp: lockSubscription_def find_snoc row_of_def split: option.splits)
  then show "\<exists>s. row_of_event (fst (ingest_event now e req db)) e = Some s \<and> holds_event db i e s"
    by (simp add: holds_event_def row_of_def event_state_def plan(1))
qed

lemma later_delivery:
  assumes sound: "billing_sound db" and e: "understood db i e" "\<not> settled e db"
    and s: "row_of_event db e = Some s" "bs_organisationId s = i"
  shows "same_world e db (fst (ingest_event now e req db))"
    "outdated e s \<or> \<not> transitionAllowed (Some s) (sn_status (be_snapshot e)) (be_occurredAt e) False
       \<Longrightarrow> row_of_event (fst (ingest_event now e req db)) e = Some s"
    "\<not> outdated e s \<Longrightarrow> transitionAllowed (Some s) (sn_status (be_snapshot e)) (be_occurredAt e) False
       \<Longrightarrow> \<exists>t. row_of_event (fst (ingest_event now e req db)) e = Some t \<and> holds_event db i e t"
proof -
  let ?d = "record_delivery e db"
  have d_sound: "billing_sound ?d" using quiet_sound [OF sound record_delivery_quiet] .
  obtain plan where plan: "plan_of db e = Some plan" "status_date_checks (stateFromSnapshot e (pl_id plan))"
      "judge db e = (if outdated e s then IGNORE ''stale'' (Some i) else ADMIT i (Some s) plan)"
    by (rule judge_understood [OF e(1)]) (simp_all add: s)
  let ?allowed = "transitionAllowed (Some s) (sn_status (be_snapshot e)) (be_occurredAt e) False"
  have kept: "same_world e db (finished_db now e WH_IGNORED out k ?d)" "row_of_event (finished_db now e st out k ?d) e = row_of_event db e" for st out k
    using settled_elsewhere [of _ e ?d db] settled_finished [of ?d e db] by (simp_all add: same_world_def row_of_event_def lockSubscription_def)
  have ignored: "\<exists>d. fst (ingest_event now e req db) = finished_db now e WH_IGNORED (Some d) (Some i) ?d" if "outdated e s \<or> \<not> ?allowed"
    using delivery_ignored [OF e(2), of "''stale''" "Some i"] delivery_ignored [OF e(2), of "''illegal_transition''" "Some i" i s plan] that plan(3)
    by (auto split: if_splits)
  have mem: "s \<in> set (bd_subscriptions db)" using s(1) by (auto simp: row_of_event_def intro: lockSubscription_mem)
  have applied: "\<exists>c. fst (ingest_event now e req db) = finished_db now e WH_PROCESSED None (Some i) c \<and> bd_webhooks c = bd_webhooks ?d
      \<and> bd_plans c = bd_plans db \<and> bd_customers c = bd_customers db \<and> bd_organisations c = bd_organisations db
      \<and> bd_subscriptions c = update_rows (\<lambda>x. bs_id x = bs_id s)
          (written now (stateFromSnapshot e (pl_id plan)) (Some (be_snapshotVersion e))) (bd_subscriptions db)"
    if ok: "\<not> outdated e s" "?allowed"
  proof -
    obtain key where key: "plan_key_of ?d (bs_planId s) = Inr key"
      using plan_key_found [of "bs_planId s" ?d] d_sound mem by (auto simp: billing_sound_def rows_sound_def)
    let ?g = "event_change e req i plan (Some s) (Some key)"
    have "\<exists>a. applySubscriptionChange now ?g ?d = Inr (recorded_change (bs_id s) (bs_source s) ?g (row_updated now (bs_id s) ?g ?d), a)"
      by (rule update_succeeds [OF d_sound]) (use mem s ok plan plan_of_mem [OF plan(1)] in \<open>simp_all add: event_texts\<close>)
    then obtain a where a: "applySubscriptionChange now ?g ?d = Inr (recorded_change (bs_id s) (bs_source s) ?g (row_updated now (bs_id s) ?g ?d), a)" ..
    let ?c = "recorded_change (bs_id s) (bs_source s) ?g (row_updated now (bs_id s) ?g ?d)"
    have w: "bd_webhooks ?c = bd_webhooks ?d" by (simp add: recorded_change_def row_updated_def)
    have fin: "finish now e WH_PROCESSED None (Some i) ?c = Inr (finished_db now e WH_PROCESSED None (Some i) ?c)"
      by (rule finished) (simp only: w delivery_simps)
    have "later_observation now e req i plan s ?d =
        Inr (finished_db now e WH_PROCESSED None (Some i) ?c, \<lparr>pr_outcome = IN_PROCESSED, pr_detail = None, pr_organisationId = Some i\<rparr>)"
      by (simp add: later_observation_def ok(2) key a finish_processed_def fin [simplified])
    then have "fst (ingest_event now e req db) = finished_db now e WH_PROCESSED None (Some i) ?c"
      by (intro ingest_runs [OF e(2)]) (simp add: plan(3) ok(1))
    with w show ?thesis by (intro exI [of _ ?c]) (simp add: recorded_change_def row_updated_def)
  qed
  show "same_world e db (fst (ingest_event now e req db))"
    using ignored applied kept(1) settled_elsewhere [of _ e _ db] settled_finished [of _ e db] by (cases "outdated e s \<or> \<not> ?allowed") (auto simp: same_world_def)
  show "row_of_event (fst (ingest_event now e req db)) e = Some s" if "outdated e s \<or> \<not> ?allowed"
    using ignored [OF that] kept(2) s(1) by auto
  show "\<exists>t. row_of_event (fst (ingest_event now e req db)) e = Some t \<and> holds_event db i e t" if ok: "\<not> outdated e s" "?allowed"
  proof -
    from applied [OF ok] have "row_of_event (fst (ingest_event now e req db)) e =
        Some (written now (stateFromSnapshot e (pl_id plan)) (Some (be_snapshotVersion e)) s)"
      using s(1) by (auto simp: row_of_event_def lockSubscription_def find_update_same)
    then show ?thesis by (simp add: holds_event_def s event_state_def plan(1))
  qed
qed

end
