(* ===== verification/Lifecycle.thy ===== *)
theory Lifecycle
  imports Deliveries
begin

section \<open>Properties of the billing of subscriptions\<close>

text \<open>
  Runs of everything that changes the tables of billing: staff, deliveries of a provider, the sweep,
  the end of an organisation, and the rest of the platform; with a small platform for the witnesses.
\<close>

subsection \<open>Runs\<close>

inductive staff_step :: "platform_context \<Rightarrow> billing_db \<Rightarrow> billing_db \<Rightarrow> bool" for ctx where
  assigns: "staff_step ctx db (fst (assignPlan ctx now assign db))"
| changes: "staff_step ctx db (fst (changeSubscription ctx now change db))"
| activates: "staff_step ctx db (fst (activateSubscription ctx now data until db))"
| extends: "staff_step ctx db (fst (extendGrace ctx now data until db))"
| cancels: "staff_step ctx db (fst (cancelSubscription ctx now data until db))"
| expires: "staff_step ctx db (fst (expireSubscription ctx now data k db))"
| overrides: "staff_step ctx db (fst (setEntitlementOverride ctx json now override db))"
| clears: "staff_step ctx db (fst (removeEntitlementOverride ctx json now input key k db))"
| reconciles: "staff_step ctx db (fst (reconcileOrganisationUsage ctx input db))"

text \<open>
  What the rest of the platform does to these tables: new plans, features, customers and
  organisations, changed statuses of them, and the rows of the organisations. Nothing it keeps a
  reference to goes, and a deleted organisation stays deleted.
\<close>

definition platform_change :: "billing_db \<Rightarrow> billing_db \<Rightarrow> bool" where
  "platform_change db db' \<longleftrightarrow> (\<exists>orgs plans features planFeatures customers tenants.
     db' = db\<lparr>bd_organisations := orgs, bd_plans := plans, bd_features := features, bd_planFeatures := planFeatures,
       bd_customers := customers, bd_tenants := tenants\<rparr>
     \<and> pl_id ` set (bd_plans db) \<subseteq> pl_id ` set plans \<and> og_id ` set (bd_organisations db) \<subseteq> og_id ` set orgs
     \<and> (\<forall>i. org_deleted db i \<longrightarrow> org_deleted db' i))"

type_synonym webhook_delivery = "string \<times> (string \<times> string) list"

inductive billing_step :: "billing_db \<Rightarrow> billing_db \<Rightarrow> bool" where
  by_staff: "staff_step ctx db db' \<Longrightarrow> billing_step db db'"
| by_provider: "billing_step db (fst (ingestBillingWebhook (p :: webhook_delivery billing_provider option) d now req db))"
| by_sweep: "billing_step db (fst (sweepSubscriptionExpiry now db))"
| by_deletion: "target \<in> og_id ` set (bd_organisations db) \<Longrightarrow> billing_step db (end_organisation now target db)"
| by_platform: "platform_change db db' \<Longrightarrow> billing_step db db'"

inductive_cases staff_stepE: "staff_step ctx db db'"

lemma staff_moves: "staff_step ctx db db' \<Longrightarrow> billing_move\<^sup>*\<^sup>* db db'"
  by (induction rule: staff_step.induct)
    (unfold assignPlan_def changeSubscription_def activateSubscription_def extendGrace_def cancelSubscription_def expireSubscription_def
      setEntitlementOverride_def removeEntitlementOverride_def reconcileOrganisationUsage_def,
     auto intro!: after_checks_moves elim: assign_moves change_moves activate_moves extend_moves cancel_moves expire_moves
       set_override_moves remove_override_moves reconcile_moves)

lemma platform_quiet: "platform_change db db' \<Longrightarrow> quiet db db'"
  unfolding platform_change_def quiet_def by (auto simp: subscription_audit_def)

lemma step_moves: "billing_step db db' \<Longrightarrow> billing_sound db \<Longrightarrow> billing_move\<^sup>*\<^sup>* db db'"
  by (induction rule: billing_step.induct)
    (auto simp: sweepSubscriptionExpiry_def intro: staff_moves ingest_moves sweep_each_moves billing_move.ends move_quiet platform_quiet)

lemma run_moves: "billing_step\<^sup>*\<^sup>* db db' \<Longrightarrow> billing_sound db \<Longrightarrow> billing_move\<^sup>*\<^sup>* db db'"
proof (induction rule: rtranclp_induct)
  case (step s t)
  then have "billing_move\<^sup>*\<^sup>* db s" by blast
  then show ?case using step_moves [OF step.hyps(2)] moves_sound [OF _ step.prems] by (meson rtranclp_trans)
qed simp

subsection \<open>Audit of staff\<close>

text \<open>A staff body adds one audit entry, in the name of its actor.\<close>

definition audited :: "platform_context \<Rightarrow> billing_db \<Rightarrow> billing_db \<Rightarrow> bool" where
  "audited ctx db db' \<longleftrightarrow> (\<exists>a. bd_audit db' = bd_audit db @ [a] \<and> au_actor a = Some (px_userId ctx)
     \<and> aa_actorType a = ACTOR_PLATFORM_STAFF \<and> (\<exists>r \<in> set (bd_organisations db). aa_organisationId a = og_id r \<and> og_status r \<noteq> ORG_DELETED))"

lemma loaded_organisation: "loadOrganisation db p = Inr i \<Longrightarrow>
    \<exists>r \<in> set (bd_organisations db). i = og_id r \<and> og_status r \<noteq> ORG_DELETED"
proof -
  assume "loadOrganisation db p = Inr i"
  then obtain r where "find (\<lambda>r. og_id r = i) (bd_organisations db) = Some r" "og_status r \<noteq> ORG_DELETED"
    by (auto simp: loadOrganisation_def bindR_eq_Inr split: option.splits if_splits)
  then show ?thesis by (auto simp: find_Some_iff intro!: bexI [of _ r])
qed

lemma recorded_audited:
  "loadOrganisation db p = Inr i \<Longrightarrow> bd_audit db1 = bd_audit db \<Longrightarrow>
   audited ctx db (recordActorAudit i (actorOf ctx) act entity meta db1)"
  by (auto simp: audited_def recordActorAudit_def actorOf_def dest: loaded_organisation)

lemma applied_audited:
  assumes "applySubscriptionChange now (staff_change ctx now2 data i c st ty act before after extra) db = Inr (db', a)"
    and "loadOrganisation db p = Inr i"
  shows "audited ctx db db'"
proof -
  from assms(1) obtain k source db1 where w: "write_change now (staff_change ctx now2 data i c st ty act before after extra) db = Inr (db1, k, source)"
    and db': "db' = recorded_change k source (staff_change ctx now2 data i c st ty act before after extra) db1"
    by (rule applied_parts)
  have "bd_audit db1 = bd_audit db"
    using updated_case [OF w] created_case [OF w] by (cases c) (auto simp: staff_change_def)
  then show ?thesis using loaded_organisation [OF assms(2)]
    by (auto simp: audited_def db' audit_of_def staff_change_def actorOf_def)
qed

lemma same_plan_audited: "same_plan_change ctx now data i c st ty act extra db = Inr (db', x) \<Longrightarrow> loadOrganisation db p = Inr i \<Longrightarrow> audited ctx db db'"
  unfolding same_plan_change_def by (auto simp: bindR_eq_Inr dest: applied_audited)

lemma assign_audited: "assign_body ctx now data db = Inr (db', r) \<Longrightarrow> audited ctx db db'"
  unfolding assign_body_def bindR_eq_Inr
  by (auto simp: bindR_eq_Inr Let_def dest: applied_audited split: if_splits)

lemma change_audited: "change_body ctx now data db = Inr (db', r) \<Longrightarrow> audited ctx db db'"
  unfolding change_body_def bindR_eq_Inr
  by (auto simp: bindR_eq_Inr Let_def dest: applied_audited)

lemma activate_audited: "activate_body ctx now data e db = Inr (db', r) \<Longrightarrow> audited ctx db db'"
  unfolding activate_body_def bindR_eq_Inr by (auto simp: bindR_eq_Inr dest: same_plan_audited split: if_splits)

lemma extend_audited: "extend_grace_body ctx now data g db = Inr (db', r) \<Longrightarrow> audited ctx db db'"
  unfolding extend_grace_body_def bindR_eq_Inr by (auto simp: bindR_eq_Inr dest: same_plan_audited split: if_splits option.splits)

lemma cancel_audited: "cancel_subscription_body ctx now data g db = Inr (db', r) \<Longrightarrow> audited ctx db db'"
  unfolding cancel_subscription_body_def bindR_eq_Inr by (auto simp: bindR_eq_Inr dest: same_plan_audited split: if_splits)

lemma expire_audited: "expire_body ctx now data k db = Inr (db', r) \<Longrightarrow> audited ctx db db'"
  unfolding expire_body_def bindR_eq_Inr by (auto simp: bindR_eq_Inr dest: same_plan_audited split: if_splits)

lemma save_override_audit: "save_override ctx i f v data existing db = Inr (db', x) \<Longrightarrow> bd_audit db' = bd_audit db"
  by (auto simp: save_override_def checked_override_def bindR_eq_Inr billing_id_def Let_def split: option.splits if_splits)

lemma set_override_audited: "set_override_body ctx str now data db = Inr (db', r) \<Longrightarrow> audited ctx db db'"
  unfolding set_override_body_def bindR_eq_Inr
  by (auto simp: bindR_eq_Inr Let_def intro: recorded_audited dest: save_override_audit)

lemma remove_override_audited: "remove_override_body ctx str now data key k db = Inr (db', r) \<Longrightarrow> audited ctx db db'"
  unfolding remove_override_body_def bindR_eq_Inr
  by (auto simp: bindR_eq_Inr Let_def intro: recorded_audited)

lemma reconcile_audited: "reconcile_body ctx data db = Inr (db', r) \<Longrightarrow> audited ctx db db'"
  unfolding reconcile_body_def bindR_eq_Inr
  by (auto simp: bindR_eq_Inr Let_def intro: recorded_audited)

text \<open>A staff operation changed nothing, or its check passed and its body ran.\<close>

lemma after_checks_ran:
  assumes "fst (after_checks check body db) \<noteq> db"
  obtains x r where "check = Inr x" "body x db = Inr (fst (after_checks check body db), r)"
  using assms by (auto simp: after_checks_def inTransaction_def transaction_def split: sum.splits)

lemma authorise_iff: "authorise ctx p = Inr u \<longleftrightarrow> p \<in> px_permissions ctx \<and> pp_recentlyAuthenticated (px_principal ctx)"
  by (auto simp: authorise_def requirePlatformPermission_def requirePlatformStepUp_def bindR_eq_Inr ensure_eq)

lemma checked_then_audited:
  assumes "fst (after_checks (bindR (authorise ctx p) f) body db) \<noteq> db"
    and "\<And>x db' r. body x db = Inr (db', r) \<Longrightarrow> audited ctx db db'"
  shows "p \<in> px_permissions ctx \<and> pp_recentlyAuthenticated (px_principal ctx)
    \<and> audited ctx db (fst (after_checks (bindR (authorise ctx p) f) body db))"
  using assms(1)
proof (rule after_checks_ran)
  fix x r assume "bindR (authorise ctx p) f = Inr x" "body x db = Inr (fst (after_checks (bindR (authorise ctx p) f) body db), r)"
  then show ?thesis using assms(2) by (auto simp: bindR_eq_Inr authorise_iff)
qed

lemma authorised_then_audited:
  assumes "fst (after_checks (authorise ctx p) body db) \<noteq> db" "\<And>x db' r. body x db = Inr (db', r) \<Longrightarrow> audited ctx db db'"
  shows "p \<in> px_permissions ctx \<and> pp_recentlyAuthenticated (px_principal ctx)
    \<and> audited ctx db (fst (after_checks (authorise ctx p) body db))"
proof -
  have bind: "authorise ctx p = bindR (authorise ctx p) Inr" by (simp add: bindR_def split: sum.splits)
  from checked_then_audited [of ctx p Inr body db] assms show ?thesis unfolding bind [symmetric] by blast
qed

text \<open>What a platform operation may have done with a permission: nothing, or a recorded change.\<close>

definition recorded_with :: "platform_permission \<Rightarrow> platform_context \<Rightarrow> billing_db \<Rightarrow> billing_db \<Rightarrow> bool" where
  "recorded_with p ctx db db' \<longleftrightarrow> db' = db \<or>
     p \<in> px_permissions ctx \<and> pp_recentlyAuthenticated (px_principal ctx) \<and> audited ctx db db'"

lemma recorded_checked:
  "(\<And>x db' r. body x db = Inr (db', r) \<Longrightarrow> audited ctx db db') \<Longrightarrow>
   recorded_with p ctx db (fst (after_checks (bindR (authorise ctx p) f) body db))"
  using checked_then_audited [of ctx p f body db] unfolding recorded_with_def by blast

lemma recorded_authorised:
  "(\<And>x db' r. body x db = Inr (db', r) \<Longrightarrow> audited ctx db db') \<Longrightarrow>
   recorded_with p ctx db (fst (after_checks (authorise ctx p) body db))"
  using authorised_then_audited [of ctx p body db] unfolding recorded_with_def by blast

subsection \<open>Deliveries in any order\<close>

fun deliver_all :: "(date \<times> billing_event) list \<Rightarrow> billing_db \<Rightarrow> billing_db" where
  "deliver_all [] db = db"
| "deliver_all ((now, e) # ds) db = deliver_all ds (fst (ingest_event now e None db))"

lemma deliver_all_snoc: "deliver_all (ds @ [(now, e)]) db = fst (ingest_event now e None (deliver_all ds db))"
  by (induction ds arbitrary: db) auto

text \<open>An event gives way to a newer one whose status it may move to, at the newer event's time.\<close>

definition gives_way :: "billing_event \<Rightarrow> billing_event \<Rightarrow> bool" where
  "gives_way e n \<longleftrightarrow> be_snapshotVersion e < be_snapshotVersion n
     \<and> canTransition (Some (sn_status (be_snapshot e))) (sn_status (be_snapshot n))
     \<and> (sn_status (be_snapshot e) = SUB_CANCELLED \<and> sn_status (be_snapshot n) = SUB_ACTIVE
          \<longrightarrow> before_end (be_occurredAt n) (sn_accessEndsAt (be_snapshot e)))"

definition same_subscription :: "billing_event \<Rightarrow> billing_event \<Rightarrow> bool" where
  "same_subscription e n \<longleftrightarrow> be_provider e = be_provider n \<and> sn_subscriptionRef (be_snapshot e) = sn_subscriptionRef (be_snapshot n)"

lemma gives_way_applies:
  assumes "holds_event db i e s" "gives_way e n"
  shows "\<not> outdated n s" "transitionAllowed (Some s) (sn_status (be_snapshot n)) (be_occurredAt n) False"
proof -
  have "Some (stateOf s) = map_option (\<lambda>plan. stateFromSnapshot e (pl_id plan)) (plan_of db e)"
    using assms(1) by (simp add: holds_event_def event_state_def)
  then have "\<exists>plan :: plan_row. stateOf s = stateFromSnapshot e (pl_id plan)" by (cases "plan_of db e") auto
  then obtain plan :: plan_row where st: "stateOf s = stateFromSnapshot e (pl_id plan)" ..
  have "bs_status (stateOf s) = bs_status s" "bs_expiresAt (stateOf s) = bs_expiresAt s" by (simp_all add: stateOf_def)
  with st have "bs_status s = sn_status (be_snapshot e)"
    "sn_status (be_snapshot e) = SUB_CANCELLED \<Longrightarrow> bs_expiresAt s = sn_accessEndsAt (be_snapshot e)"
    by (simp_all add: stateFromSnapshot_def Let_def)
  with assms show "\<not> outdated n s" "transitionAllowed (Some s) (sn_status (be_snapshot n)) (be_occurredAt n) False"
    by (auto simp: outdated_def holds_event_def gives_way_def transitionAllowed_def entitles_def isEntitling_def as_entitled_def)
qed

lemma same_row: "same_subscription e n \<Longrightarrow> row_of_event db e = row_of_event db n"
  by (simp add: same_subscription_def row_of_event_def)

text \<open>The tables events are matched against, and which events are settled.\<close>

definition after_deliveries :: "(date \<times> billing_event) list \<Rightarrow> billing_db \<Rightarrow> billing_db \<Rightarrow> bool" where
  "after_deliveries ds db t \<longleftrightarrow> billing_sound t \<and> bd_plans t = bd_plans db \<and> bd_customers t = bd_customers db
     \<and> bd_organisations t = bd_organisations db
     \<and> (\<forall>x. be_eventId x \<notin> set (map (be_eventId \<circ> snd) ds) \<longrightarrow> settled x t = settled x db)
     \<and> (\<forall>d \<in> set ds. settled (snd d) t)"

lemma after_delivery:
  assumes "after_deliveries ds db t" "same_world e t (fst (ingest_event now e None t))"
    and "be_eventId e \<notin> set (map (be_eventId \<circ> snd) ds)"
  shows "after_deliveries (ds @ [(now, e)]) db (fst (ingest_event now e None t))"
proof -
  have "be_eventId (snd d) \<noteq> be_eventId e" if "d \<in> set ds" for d using that assms(3) by force
  then show ?thesis using assms(1,2) moves_sound [OF ingest_event_moves] by (auto simp: after_deliveries_def same_world_def)
qed

text \<open>An event that was delivered before changes nothing.\<close>

lemma after_redelivery:
  assumes "after_deliveries ds db t" "e \<in> snd ` set ds"
  shows "fst (ingest_event now e None t) = t" "after_deliveries (ds @ [(now, e)]) db t"
proof -
  have e: "settled e t" using assms by (auto simp: after_deliveries_def)
  then show "fst (ingest_event now e None t) = t" by (simp add: settled_duplicate)
  show "after_deliveries (ds @ [(now, e)]) db t" using assms(1) e by (auto simp: after_deliveries_def)
qed

lemma understood_after: "after_deliveries ds db t \<Longrightarrow> understood t i e = understood db i e"
  by (simp add: after_deliveries_def understood_def customer_of_def plan_of_def)

lemma holds_after: "after_deliveries ds db t \<Longrightarrow> holds_event t i e = holds_event db i e"
  by (simp add: after_deliveries_def holds_event_def[abs_def] event_state_def plan_of_def)

text \<open>After some deliveries the row holds one of their events, the newest once it has arrived.\<close>

lemma delivered_row:
  assumes sound: "billing_sound db" and org: "i \<in> og_id ` set (bd_organisations db)"
    and free: "\<And>s. s \<in> set (bd_subscriptions db) \<Longrightarrow> \<not> live_of i s" "row_of_event db n = None"
    and events: "\<And>d. d \<in> set ds \<Longrightarrow> understood db i (snd d) \<and> same_subscription (snd d) n \<and> \<not> settled (snd d) db"
    and way: "\<And>d. d \<in> set ds \<Longrightarrow> snd d = n \<or> gives_way (snd d) n" and ids: "inj_on be_eventId (snd ` set ds)"
  shows "after_deliveries ds db (deliver_all ds db) \<and> (if ds = [] then deliver_all ds db = db
    else \<exists>e s. e \<in> snd ` set ds \<and> row_of_event (deliver_all ds db) n = Some s \<and> holds_event db i e s \<and> (n \<in> snd ` set ds \<longrightarrow> e = n))"
  using events way ids
proof (induction ds rule: rev_induct)
  case Nil
  then show ?case using sound by (simp add: after_deliveries_def)
next
  case (snoc d ds)
  obtain now x where d: "d = (now, x)" by (cases d)
  let ?t = "deliver_all ds db" and ?u = "fst (ingest_event now x None (deliver_all ds db))"
  have "inj_on be_eventId (snd ` set ds)" using snoc.prems(3) by (rule inj_on_subset) auto
  then have IH: "after_deliveries ds db ?t" "if ds = [] then ?t = db
      else \<exists>e s. e \<in> snd ` set ds \<and> row_of_event ?t n = Some s \<and> holds_event db i e s \<and> (n \<in> snd ` set ds \<longrightarrow> e = n)"
    using snoc.IH snoc.prems(1,2) by auto
  have x: "understood db i x" "same_subscription x n" "\<not> settled x db" "x = n \<or> gives_way x n"
    using snoc.prems(1,2) [of d] d by auto
  have row: "row_of_event u x = row_of_event u n" for u by (rule same_row [OF x(2)])
  have "after_deliveries (ds @ [d]) db ?u \<and> (\<exists>e s. e \<in> insert x (snd ` set ds) \<and> row_of_event ?u n = Some s \<and> holds_event db i e s
      \<and> (n \<in> insert x (snd ` set ds) \<longrightarrow> e = n))"
  proof (cases "x \<in> snd ` set ds")
    case True
    note again = after_redelivery [OF IH(1) True, of now]
    have "ds \<noteq> []" using True by auto
    with IH(2) again show ?thesis unfolding d again(1) insert_absorb [OF True] by simp
  next
    case False
    have "be_eventId x \<noteq> be_eventId e" if "e \<in> snd ` set ds" for e
      using snoc.prems(3) False that unfolding d by (auto simp: inj_on_def)
    then have new: "be_eventId x \<notin> set (map (be_eventId \<circ> snd) ds)" by auto
    have fresh: "e \<noteq> x" if "e \<in> snd ` set ds" for e using that False by blast
    have x_t: "understood ?t i x" "\<not> settled x ?t" using IH(1) x new by (auto simp: understood_after after_deliveries_def)
    have t_sound: "billing_sound ?t" using IH(1) by (simp add: after_deliveries_def)
    show ?thesis
    proof (cases "ds = []")
      case True
      then have t: "?t = db" using IH(2) by simp
      have "row_of_event db x = None" using free(2) row by simp
      from first_delivery [OF sound org x(1,3) this free(1), of now None] show ?thesis
        using after_delivery [OF IH(1) _ new] True unfolding t d row by auto
    next
      case False
      with IH(2) obtain e s where e: "e \<in> snd ` set ds" "row_of_event ?t n = Some s" "holds_event db i e s" "n \<in> snd ` set ds \<longrightarrow> e = n"
        by auto
      have s: "row_of_event ?t x = Some s" "bs_organisationId s = i" using e row by (simp_all add: holds_event_def)
      note later = later_delivery [OF t_sound x_t s, of now None]
      have world: "after_deliveries (ds @ [d]) db ?u" using after_delivery [OF IH(1) later(1) new] d by simp
      have e_n: "e = n \<or> gives_way e n" using snoc.prems(2) e(1) by auto
      have stale: "outdated x s" if "e = n"
        using that x(4) fresh [OF e(1)] e(3) by (auto simp: outdated_def holds_event_def gives_way_def)
      have wins: "\<not> outdated x s \<and> transitionAllowed (Some s) (sn_status (be_snapshot x)) (be_occurredAt x) False" if "x = n"
        using gives_way_applies [OF e(3)] that e_n fresh [OF e(1)] by auto
      show ?thesis
      proof (cases "outdated x s \<or> \<not> transitionAllowed (Some s) (sn_status (be_snapshot x)) (be_occurredAt x) False")
        case True
        with wins have "x \<noteq> n" by blast
        with later(2) [OF True] world e show ?thesis unfolding row by auto
      next
        case False
        with stale e(4) have "n \<notin> snd ` set ds" by blast
        with False later(3) world show ?thesis unfolding row holds_after [OF IH(1)] by auto
      qed
    qed
  qed
  then show ?case by (simp add: d deliver_all_snoc)
qed

subsection \<open>A small platform\<close>

definition gauge_row :: "uuid \<Rightarrow> string \<Rightarrow> feature_row" where
  "gauge_row i key = \<lparr>ft_id = i, ft_key = key, ft_name = key, ft_type = F_LIMIT, ft_sortOrder = int i,
     ft_defaults = \<lparr>vc_enabled = True, vc_limit = Some 5, vc_unlimited = False, vc_config = CONFIG_OTHER\<rparr>\<rparr>"

definition quiet_tenant :: entitlement_db where
  "quiet_tenant = \<lparr>en_features = [], en_planFeatures = [], en_overrides = [], en_subscriptions = [], en_usage = [],
     en_members = [], en_stores = [], en_liveProducts = 0, en_mediaBytes = 0\<rparr>"

definition sample_platform :: billing_db where
  "sample_platform = \<lparr>bd_organisations = [\<lparr>og_id = 1, og_status = ORG_ACTIVE\<rparr>],
     bd_plans = [\<lparr>pl_id = 11, pl_key = ''growth'', pl_status = PLAN_ACTIVE, pl_trialDays = 14\<rparr>,
       \<lparr>pl_id = 12, pl_key = ''classic'', pl_status = PLAN_LEGACY, pl_trialDays = 0\<rparr>],
     bd_features = [gauge_row 21 ''store_count'', gauge_row 22 ''staff_accounts'', gauge_row 23 ''product_limit'',
       gauge_row 24 ''media_storage''],
     bd_planFeatures = [], bd_overrides = [],
     bd_customers = [\<lparr>bc_organisationId = 1, bc_provider = PROVIDER_MOCK, bc_providerCustomerId = ''cus_1''\<rparr>],
     bd_subscriptions = [], bd_events = [], bd_webhooks = [], bd_audit = [], bd_tenants = (\<lambda>_. quiet_tenant), bd_next = 100\<rparr>"

definition sample_staff :: platform_context where
  "sample_staff = \<lparr>px_principal = \<lparr>pp_userId = 7, pp_email = ''b@storevia'', pp_emailVerified = True,
     pp_recentlyAuthenticated = True\<rparr>, px_role = STAFF_BILLING, px_permissions = platformPermissionsFor STAFF_BILLING,
     px_requestId = None\<rparr>"

definition sample_assign :: assign_input where
  "sample_assign = \<lparr>mn_organisation = Some 1, mn_reason = ''pilot'', mn_note = None, ai_planKey = ''growth'', ai_trial = True,
     ai_billingInterval = None, ai_startedAt = None, ai_trialStartsAt = None, ai_trialEndsAt = None, ai_expiresAt = None\<rparr>"

definition sample_trial :: billing_db where
  "sample_trial = fst (assignPlan sample_staff 1000 sample_assign sample_platform)"

definition sample_event :: "string \<Rightarrow> billing_event_type \<Rightarrow> subscription_status \<Rightarrow> date \<Rightarrow> billing_event" where
  "sample_event i ty st at = \<lparr>be_provider = PROVIDER_MOCK, be_eventId = i, be_type = ty, be_occurredAt = at,
     be_snapshot = \<lparr>sn_subscriptionRef = ''sub_1'', sn_customerRef = ''cus_1'', sn_planKey = ''classic'',
       sn_interval = Some PER_MONTH, sn_status = st, sn_startedAt = 0, sn_trialStartsAt = None, sn_trialEndsAt = None,
       sn_currentPeriodStart = None, sn_currentPeriodEnd = None, sn_accessEndsAt = Some 9000, sn_cancelledAt = None,
       sn_pastDueSince = None, sn_graceEndsAt = Some 8000, sn_endedAt = None\<rparr>, be_snapshotVersion = at\<rparr>"

definition sample_provider :: "billing_event \<Rightarrow> webhook_delivery billing_provider option" where
  "sample_provider e = Some \<lparr>bp_key = PROVIDER_MOCK, bp_verify = (\<lambda>_ _. None), bp_parse = (\<lambda>_. Some e)\<rparr>"

abbreviation active_event :: billing_event where
  "active_event \<equiv> sample_event ''evt_a'' EV_CREATED SUB_ACTIVE 2000"

abbreviation cancelled_event :: billing_event where
  "cancelled_event \<equiv> sample_event ''evt_c'' EV_CANCELLED SUB_CANCELLED 3000"

abbreviation reactivated_event :: billing_event where
  "reactivated_event \<equiv> sample_event ''evt_r'' EV_REACTIVATED SUB_ACTIVE 4000"

abbreviation past_due_event :: billing_event where
  "past_due_event \<equiv> sample_event ''evt_p'' EV_PAST_DUE SUB_PAST_DUE 5000"

definition sample_subscribed :: billing_db where
  "sample_subscribed = fst (ingestBillingWebhook (sample_provider active_event) (''body'', []) 2100 None sample_trial)"

lemma sample_sound: "billing_sound sample_platform"
  by (simp add: billing_sound_def rows_sound_def one_live_def references_unique_def history_sound_def audit_sound_def
      subscription_audit_def sample_platform_def)

lemma sample_trial_step: "billing_step sample_platform sample_trial"
  unfolding sample_trial_def by (rule by_staff) (rule staff_step.assigns)

lemma sample_subscribed_step: "billing_step sample_trial sample_subscribed"
  unfolding sample_subscribed_def by (rule by_provider)


lemma sample_trial_sound: "billing_sound sample_trial"
  using moves_sound [OF run_moves [OF r_into_rtranclp [of billing_step, OF sample_trial_step] sample_sound] sample_sound] .

text \<open>
  The provider contract promises that deliveries out of order converge. They need not: a payment
  that becomes overdue after a reactivation is refused when it arrives before it, and the ledger
  then takes every redelivery for a duplicate, so the subscription stays active.
\<close>

definition status_after :: "(date \<times> billing_event) list \<Rightarrow> billing_db \<Rightarrow> subscription_status option" where
  "status_after ds db = map_option bs_status (row_of_event (deliver_all ds db) past_due_event)"

lemma reordered_deliveries_differ:
  "(let db = deliver_all [(1, cancelled_event)] sample_platform in
     (status_after [(2, reactivated_event), (3, past_due_event)] db,
      status_after [(2, past_due_event), (3, reactivated_event), (4, past_due_event)] db)) = (Some SUB_PAST_DUE, Some SUB_ACTIVE)"
  by code_simp

text \<open>What the trial and the subscription that replaces it look like, computed once.\<close>

lemma trial_facts:
  "(map bs_status (bd_subscriptions sample_trial), length (bd_events sample_trial),
     map (\<lambda>s. bs_source s = SOURCE_MANUAL \<and> \<not> entitles s 9999999999) (bd_subscriptions sample_trial)) = ([SUB_TRIAL], 1, [True])"
  by code_simp

lemma subscribed_facts:
  "(case ingest_event 2100 active_event None sample_trial of (db, res) \<Rightarrow> (ir_outcome res, length (bd_events db),
     map (\<lambda>s. (bs_id s, bs_status s, bs_planId s)) (bd_subscriptions db))) =
   (IN_PROCESSED, 3, [(100, SUB_EXPIRED, 11), (101, SUB_ACTIVE, 12)])"
  by code_simp

lemma subscribed_by: "sample_subscribed = fst (ingest_event 2100 active_event None sample_trial)"
  by (simp add: sample_subscribed_def ingestBillingWebhook_def sample_provider_def)

section \<open>The properties\<close>



text \<open>
  C19: No run takes back what was recorded: every subscription stays, of the same organisation,
  source and provider reference; an expired one never changes again; the version of the
  provider's snapshot a row holds never goes back; and the history only grows at its end.
\<close>

theorem records_are_kept:
  assumes "billing_step\<^sup>*\<^sup>* db db'" "billing_sound db"
  shows "later_than db db'"
  using moves_later [OF run_moves] assms by blast

theorem records_are_kept_witness:
  "later_than sample_trial sample_subscribed \<and> length (bd_events sample_trial) = 1 \<and> length (bd_events sample_subscribed) = 3"
proof (intro conjI)
  show "later_than sample_trial sample_subscribed"
    by (rule records_are_kept [OF r_into_rtranclp [of billing_step, OF sample_subscribed_step] sample_trial_sound])
qed (use trial_facts subscribed_facts in \<open>simp_all add: subscribed_by split: prod.splits\<close>)

text \<open>
  C13: A provider may deliver the events of a subscription late, in any order and each as often as it likes
  (\<open>inj_on\<close>: deliveries with one identifier carry one event). Take an organisation without a live
  subscription, a subscription of the provider that was not recorded before and events of it that are not
  settled yet and all understood (the organisation's customer, a known plan that is not archived, and dates
  the row may hold). If the newest one is among them, and every
  other one has an older snapshot that gives way to it (its status may move to the newest one's directly, and
  from cancelled back to active only when the reactivation occurred before the cancelled access ends), then the
  subscription ends with exactly the columns of the newest snapshot.
\<close>

theorem newest_snapshot_prevails:
  assumes "billing_sound db" "i \<in> og_id ` set (bd_organisations db)"
    and "\<And>s. s \<in> set (bd_subscriptions db) \<Longrightarrow> \<not> live_of i s" "row_of_event db n = None"
    and "\<And>d. d \<in> set ds \<Longrightarrow> understood db i (snd d) \<and> same_subscription (snd d) n \<and> \<not> settled (snd d) db"
    and "\<And>d. d \<in> set ds \<Longrightarrow> snd d = n \<or> gives_way (snd d) n"
    and "inj_on be_eventId (snd ` set ds)" "n \<in> snd ` set ds"
  shows "\<exists>s. row_of_event (deliver_all ds db) n = Some s \<and> bs_organisationId s = i \<and> Some (stateOf s) = event_state db n
    \<and> bs_providerSyncedAt s = Some (be_snapshotVersion n)"
proof -
  have "ds \<noteq> []" using assms(8) by auto
  with delivered_row [OF assms(1-7)] assms(8) show ?thesis by (auto simp: holds_event_def)
qed

lemma sample_events_understood:
  "at < 9000 \<Longrightarrow> understood sample_platform 1 (sample_event i ty st at)" if "st = SUB_ACTIVE \<or> st = SUB_CANCELLED"
  using that by (auto simp: understood_def customer_of_def plan_of_def sample_platform_def sample_event_def status_date_checks_def
    stateFromSnapshot_def Let_def not_before_def or_given_def before_end_def)

lemma sample_events_fresh: "same_subscription (sample_event i ty st at) (sample_event i' ty' st' at')"
  "\<not> settled (sample_event i ty st at) sample_platform"
  by (simp_all add: same_subscription_def settled_def sample_platform_def sample_event_def)

lemma sample_events_give_way: "gives_way cancelled_event reactivated_event" "gives_way active_event reactivated_event"
  by (simp_all add: gives_way_def canTransition_def sample_event_def before_end_def)

theorem newest_snapshot_prevails_witness:
  "\<exists>s. row_of_event (deliver_all [(1, cancelled_event), (2, reactivated_event), (3, cancelled_event), (4, active_event), (5, reactivated_event)] sample_platform) reactivated_event = Some s
    \<and> bs_organisationId s = 1 \<and> Some (stateOf s) = event_state sample_platform reactivated_event \<and> bs_providerSyncedAt s = Some (be_snapshotVersion reactivated_event)"
proof (rule newest_snapshot_prevails [OF sample_sound])
  show "1 \<in> og_id ` set (bd_organisations sample_platform)" by (simp add: sample_platform_def)
  show "\<not> live_of 1 s" if "s \<in> set (bd_subscriptions sample_platform)" for s using that by (simp add: sample_platform_def)
  show "row_of_event sample_platform reactivated_event = None" by (simp add: sample_platform_def row_of_event_def lockSubscription_def)
  show "understood sample_platform 1 (snd d) \<and> same_subscription (snd d) reactivated_event \<and> \<not> settled (snd d) sample_platform"
    if "d \<in> set [(1, cancelled_event), (2, reactivated_event), (3, cancelled_event), (4, active_event), (5, reactivated_event)]" for d
    using that by (auto simp: sample_events_understood sample_events_fresh simp del: One_nat_def)
  show "snd d = reactivated_event \<or> gives_way (snd d) reactivated_event"
    if "d \<in> set [(1, cancelled_event), (2, reactivated_event), (3, cancelled_event), (4, active_event), (5, reactivated_event)]" for d
    using that sample_events_give_way by auto
  show "inj_on be_eventId (snd ` set [(1, cancelled_event), (2, reactivated_event), (3, cancelled_event), (4, active_event), (5, reactivated_event)])"
    by (simp add: inj_on_def sample_event_def)
qed simp

lemma apply_event_outcome: "apply_event now e req db = Inr (db', p) \<Longrightarrow> pr_outcome p \<noteq> IN_FAILED"
  unfolding apply_event_def first_observation_def later_observation_def ignore_event_def finish_processed_def Let_def
  by (auto simp: bindR_eq_Inr split: if_splits verdict.splits option.splits)

text \<open>
  C12: A delivery takes effect once: unless it failed, delivering the event again, at any time and
  with any content, answers that it is a duplicate and changes nothing; a delivery that failed
  asks the provider to retry (500), leaves every table but the ledger as it was, and the ledger
  open for the retry.
\<close>

theorem delivery_takes_effect_once:
  assumes "ingest_event now e req db = (db', res)"
    and "be_provider e2 = be_provider e" "be_eventId e2 = be_eventId e"
  shows "if ir_outcome res = IN_FAILED
    then ir_status res = 500 \<and> db' = fail_event e (record_delivery e db) \<and> \<not> settled e2 db'
    else ingest_event now2 e2 req2 db' = (db', ingest_answer IN_DUPLICATE None (Some (be_eventId e2)) None)"
proof -
  let ?d = "record_delivery e db"
  have same: "ledger_row e2 = ledger_row e" using assms(2,3) by (simp add: ledger_row_def[abs_def])
  show ?thesis
  proof (cases "apply_event now e req ?d")
    case (Inl err)
    have "\<exists>w. find (ledger_row e) (update_rows (ledger_row e) (\<lambda>w. w\<lparr>wh_status := WH_FAILED, wh_attempts := wh_attempts w + 1\<rparr>)
        (bd_webhooks ?d)) = Some w \<and> wh_status w = WH_FAILED"
      by (rule find_updated) (simp_all add: ledger_row_def del: delivery_simps(1-4))
    then have "\<not> settled e2 (fail_event e ?d)" by (auto simp: settled_def same fail_event_def)
    with Inl assms(1) show ?thesis by (auto simp: ingest_event_def transaction_def ingest_answer_def)
  next
    case (Inr p)
    then have "settled e (fst p)" using apply_event_settles by (cases p) auto
    then have "settled e2 (fst p)" by (simp add: settled_def same)
    moreover have "db' = fst p" "ir_outcome res = pr_outcome (snd p)" using Inr assms(1)
      by (auto simp: ingest_event_def transaction_def ingest_answer_def split: prod.splits)
    moreover have "pr_outcome (snd p) \<noteq> IN_FAILED" using Inr apply_event_outcome [of now e req ?d "fst p" "snd p"] by simp
    ultimately show ?thesis using settled_duplicate by simp
  qed
qed


theorem delivery_takes_effect_once_witness:
  "fst (ingest_event 9 active_event None sample_subscribed) = sample_subscribed \<and>
   ir_outcome (snd (ingest_event 9 active_event None sample_subscribed)) = IN_DUPLICATE"
proof -
  obtain db res where r: "ingest_event 2100 active_event None sample_trial = (db, res)" by fastforce
  then have "db = sample_subscribed" "ir_outcome res = IN_PROCESSED" using subscribed_facts by (simp_all add: subscribed_by)
  then show ?thesis using delivery_takes_effect_once [OF r refl refl, of 9 None] by (simp add: ingest_answer_def)
qed

text \<open>
  C20: The sweep ends exactly the manual subscriptions that grant nothing any more: with at most 500
  due it answers their number, each becomes expired and every other row stays as it was, and at no
  later moment does any organisation hold a different plan because of it.
\<close>

theorem sweep_is_exact:
  fixes db :: billing_db
  defines "gone \<equiv> (\<lambda>now s. bs_source s = SOURCE_MANUAL \<and> bs_status s \<noteq> SUB_EXPIRED \<and> \<not> entitles s now)"
  assumes "billing_sound db" "length (filter (gone now) (bd_subscriptions db)) \<le> 500"
  shows "\<exists>t. sweepSubscriptionExpiry now db = (t, Inr (int (length (filter (gone now) (bd_subscriptions db)))))
    \<and> bd_subscriptions t = map (\<lambda>s. if gone now s then lapsed now s else s) (bd_subscriptions db)
    \<and> (\<forall>i d. d \<ge> now \<longrightarrow> entitlingPlanId d t i = entitlingPlanId d db i)"
proof -
  let ?ss = "bd_subscriptions db"
  have due: "due_for_expiry now s = gone now s" if "s \<in> set ?ss" for s
    using that assms(2) due_iff by (auto simp: gone_def billing_sound_def rows_sound_def checked_row_def)
  have same: "filter (due_for_expiry now) ?ss = filter (gone now) ?ss" by (rule filter_cong) (simp_all add: due)
  then obtain t where t: "sweepSubscriptionExpiry now db = (t, Inr (int (length (filter (gone now) ?ss))))" "billing_sound t"
      "bd_subscriptions t = map (\<lambda>s. if due_for_expiry now s then lapsed now s else s) ?ss"
    using sweep_runs [OF assms(2), of now] assms(3) by auto
  have rows: "bd_subscriptions t = map (\<lambda>s. if gone now s then lapsed now s else s) ?ss"
    unfolding t(3) by (rule map_cong) (simp_all add: due)
  have "entitlingPlanId d t i = entitlingPlanId d db i" if "now \<le> d" for i d
  proof -
    have "\<not> entitles (lapsed now s) d" for s by (simp add: entitles_def isEntitling_def as_entitled_def)
    moreover have "\<not> gone now s" if "entitles s d" for s using entitles_until [OF that \<open>now \<le> d\<close>] by (simp add: gone_def)
    ultimately have "entitlingPlanId d t i = Some p \<longleftrightarrow> entitlingPlanId d db i = Some p" for p
      unfolding plan_granted [OF t(2)] plan_granted [OF assms(2)] rows by (auto split: if_splits)
    then show ?thesis by (metis not_Some_eq)
  qed
  with t(1) rows show ?thesis by blast
qed

theorem sweep_is_exact_witness:
  "\<exists>t. sweepSubscriptionExpiry 9999999999 sample_trial = (t, Inr 1) \<and> map bs_status (bd_subscriptions t) = [SUB_EXPIRED]"
proof -
  let ?gone = "\<lambda>s. bs_source s = SOURCE_MANUAL \<and> bs_status s \<noteq> SUB_EXPIRED \<and> \<not> entitles s 9999999999"
  obtain s where s: "bd_subscriptions sample_trial = [s]" "bs_status s = SUB_TRIAL" "?gone s"
    using trial_facts by auto
  then show ?thesis using sweep_is_exact [OF sample_trial_sound, of 9999999999] by auto
qed

text \<open>
  C21: No staff member changes a subscription, an override or a counter unrecorded. Each operation of the
  platform either leaves everything as it was, or was done by one who holds the permission of that operation
  (\<open>platform.entitlement_override.manage\<close> to set or remove an override, \<open>platform.subscription.manage\<close> for
  every other) and signed in recently, on an organisation that is not deleted, and wrote exactly one audit
  entry in their name for it.
\<close>

theorem staff_changes_are_audited:
  "recorded_with PLATFORM_SUBSCRIPTION_MANAGE ctx db (fst (assignPlan ctx now assign db)) \<and>
   recorded_with PLATFORM_SUBSCRIPTION_MANAGE ctx db (fst (changeSubscription ctx now change db)) \<and>
   recorded_with PLATFORM_SUBSCRIPTION_MANAGE ctx db (fst (activateSubscription ctx now data until db)) \<and>
   recorded_with PLATFORM_SUBSCRIPTION_MANAGE ctx db (fst (extendGrace ctx now data ends db)) \<and>
   recorded_with PLATFORM_SUBSCRIPTION_MANAGE ctx db (fst (cancelSubscription ctx now data chosen db)) \<and>
   recorded_with PLATFORM_SUBSCRIPTION_MANAGE ctx db (fst (expireSubscription ctx now data acknowledged db)) \<and>
   recorded_with PLATFORM_ENTITLEMENT_OVERRIDE_MANAGE ctx db (fst (setEntitlementOverride ctx json now override db)) \<and>
   recorded_with PLATFORM_ENTITLEMENT_OVERRIDE_MANAGE ctx db (fst (removeEntitlementOverride ctx json now input key k db)) \<and>
   recorded_with PLATFORM_SUBSCRIPTION_MANAGE ctx db (fst (reconcileOrganisationUsage ctx input db))"
  unfolding assignPlan_def changeSubscription_def activateSubscription_def extendGrace_def cancelSubscription_def
    expireSubscription_def setEntitlementOverride_def removeEntitlementOverride_def reconcileOrganisationUsage_def
  by (intro conjI recorded_checked recorded_authorised)
    (erule assign_audited change_audited activate_audited extend_audited cancel_audited expire_audited
      set_override_audited remove_override_audited reconcile_audited)+

theorem staff_changes_are_audited_witness:
  "audited sample_staff sample_platform sample_trial \<and> PLATFORM_SUBSCRIPTION_MANAGE \<in> px_permissions sample_staff"
proof -
  have "length (bd_events sample_trial) = 1" "bd_events sample_platform = []" using trial_facts by (simp_all add: sample_platform_def)
  then have "sample_trial \<noteq> sample_platform" by auto
  then show ?thesis using staff_changes_are_audited [of sample_staff sample_platform] unfolding sample_trial_def recorded_with_def by blast
qed
end
