(* ===== verification/Spec2Isabelle.thy ===== *)
theory Spec2Isabelle
  imports Money Transitions Pricing Ledger Stock Inventory Purchase Upkeep Parcels Tenancy Lifecycle
begin

text \<open>
  A verification development for Storevia, a multi-tenant commerce platform (TypeScript, a monorepo
  of \<open>packages/\<close> and \<open>apps/\<close>, PostgreSQL behind Prisma). It models the part of the platform where a
  mistake costs money or crosses a boundary: prices, stock, checkouts and payments, orders and
  refunds, the team of an organisation and its plan's limits, and the subscription that grants
  the plan.

  \<^bold>\<open>The program and its parts.\<close> A request reaches a service of a package with a context (who acts,
  with which permissions, in which store). The service checks the context and its input, opens one
  database transaction, reads rows, checks them, writes rows and an audit entry, and commits, or
  throws and leaves nothing. Some operations (a payment, a refund) call a payment provider between
  two transactions. Sweeps of the worker finish what a lost answer left open. The parts interact
  through the tables only: the checkout reserves stock the inventory keeps, a captured payment turns
  the checkout's quote into an order, refunds are bounded by what the payment captured, and the
  counters of a team are bounded by what its plan grants.

  \<^bold>\<open>How a definition corresponds to the code.\<close> A table is the list of its rows, one record per model of
  \<open>packages/database/prisma/schema.prisma\<close> with the columns the modelled code reads or writes; an
  \<open>update\<close> maps over the rows it selects, a \<open>create\<close> appends, a constraint of the schema or of a
  migration is an error. Fresh identifiers come from a counter in the state, as \<open>uuidv7()\<close> does. An
  error is a value: \<open>Inl\<close> of \<open>shop_error\<close> or \<open>domain_error\<close> (the \<open>DomainError\<close> codes with their
  messages; \<open>FAULT\<close> for what the database or a helper throws). A body is a function from the tables
  to an error or new tables and an answer; \<open>transaction\<close> keeps the old tables when it fails. The
  clock, a provider's answer, a hash and what else the platform gives are arguments, in an
  environment record when there are several. An operation has the name of its function in the
  source; \<open>..._body\<close> is the callback it passes to the transaction. Money is an unbounded integer of
  minor units as in the source (bigint), and the ranges of the database's columns (\<open>sql_int4\<close>,
  \<open>sql_int8\<close>) are checks where a write can leave them.

  \<^bold>\<open>The theories, from the source's bottom to its top.\<close>
  \<^item> \<open>Prelude\<close>: results that may be errors, loops that may throw, JavaScript's stable sort as
    a \<open>locale\<close> for comparators, decimal digits; the development's \<open>named_theorems\<close>.
  \<^item> \<open>Money\<close> (\<open>commerce/src/money.ts\<close>): rounding, allocation, decimal texts. Lemmas: half-even
    rounding is exact, shares add up, parsing and printing are inverse.
  \<^item> \<open>Transitions\<close> (\<open>checkout/state.ts\<close>, \<open>orders/lifecycle.ts\<close>): the status tables as instances of
    the locales \<open>guarded_table\<close> and \<open>terminal_table\<close>, and the statuses derived from lines.
  \<^item> \<open>Pricing\<close> (\<open>checkout/pricing.ts\<close>): the quote as a function of a snapshot. Lemmas: it
    is total on valid snapshots, adds up, discounts are sound and tax is rounded half to even.
  \<^item> \<open>Ledger\<close>, \<open>Stock\<close>, \<open>Inventory\<close> (\<open>checkout/stock.ts\<close>, \<open>inventory.ts\<close>, \<open>locations.ts\<close>): levels,
    movements and reservations. The locale \<open>stock_operation\<close> is the contract of an operation with a
    known effect, on the quantities and on the movements that explain them alike; it
    is interpreted for moving, fulfilling and cancelling stock, and carried to any run. Further lemmas
    say what reserving adds (one reservation per item, at one location, of all that was asked), what a
    merchant's change records, and that fulfilling and cancelling keep reserved stock what is claimed.
  \<^item> \<open>Shop\<close>, \<open>Load\<close>, \<open>Confirm\<close>, \<open>Payments\<close> (\<open>checkout/load.ts\<close>, \<open>confirm.ts\<close>, \<open>service.ts\<close>, \<open>sweep.ts\<close>):
    the tables of a checkout, the snapshot read from them, the provider's outcome, the order, and
    the operations of the service. \<open>Journey\<close> and \<open>Service\<close> state an abstract protocol (which
    statuses, attempts and orders may follow which) and prove every transaction a step of it;
    \<open>Placing\<close> shows that a priced quote passes the constraints of the order's tables, exactly when
    writing the order succeeds (\<open>order_fits\<close>), and what it then writes; \<open>Purchase\<close> holds the properties
    of the whole service.
  \<^item> \<open>Rbac\<close>, \<open>Orders\<close>, \<open>Refunds\<close>, \<open>Upkeep\<close> (\<open>tenancy/src/rbac.ts\<close>, \<open>context.ts\<close>, \<open>audit.ts\<close>,
    \<open>orders/manage.ts\<close>, \<open>orders/operations.ts\<close>): permissions and the merchant's side of an order.
    \<open>Books\<close>, \<open>Settle\<close>, \<open>Returns\<close> prove what refunds add up to over any run; \<open>Parcels\<close> the constraints
    of fulfilment rows.
  \<^item> \<open>Entitlements\<close>, \<open>Team\<close> (\<open>entitlements/src\<close>, \<open>tenancy/src/members.ts\<close>, \<open>invitations.ts\<close>,
    \<open>organisations.ts\<close>, \<open>stores.ts\<close>, \<open>lifecycle.ts\<close>): the plan's features with their counters, and the
    tables of one organisation. \<open>Seats\<close> has a lemma per body about counters and uniqueness;
    \<open>Tenancy\<close> carries them to runs.
  \<^item> \<open>Billing\<close>, \<open>Webhooks\<close>, \<open>Manual\<close> (\<open>billing/src/state-machine.ts\<close>, \<open>subscriptions.ts\<close>, \<open>webhooks.ts\<close>,
    \<open>registry.ts\<close>, \<open>sweep.ts\<close>, \<open>manual.ts\<close>, \<open>tenancy/src/platform.ts\<close>): the platform's tables of
    subscriptions (\<open>billing_db\<close>), the one function that writes them, and who calls it: a provider's
    deliveries with their ledger, the sweep, and staff. \<open>Histories\<close> has the invariant (\<open>billing_sound\<close>)
    and the few moves every write is made of; \<open>Renewals\<close> shows that each operation is a sequence of
    moves; \<open>Deliveries\<close> when writes succeed and what a delivery leaves; \<open>Lifecycle\<close> runs of all of
    them and the properties, among them which deliveries may arrive in any order, and an example of
    those that may not.

  \<^bold>\<open>What the properties show.\<close> They are numbered by importance. The invariants
  quantify over runs: lists of any operations, in any order, with any inputs and any answers of the
  provider, from any state that satisfies the invariant (the witnesses exhibit one and run it).
  The liveness properties say that a definite operation succeeds from a described state, not only
  that nothing bad happens. The refinement properties relate the service's tables to the abstract
  protocol of \<open>Journey\<close> by \<open>abs_shop\<close>; safety (one attempt in flight, one order for a completed
  checkout) is proved once for the protocol and carried over.

  \<^bold>\<open>Loops and bounds.\<close> Loops over rows are recursion on lists (\<open>foldR\<close>, \<open>mapR\<close>) and always end.
  Rounding and digits have termination proofs. The search for a free location code (\<open>free_code\<close>) is
  the one loop with fuel: one round more than there are taken codes, since every round refutes a
  different one; the property on \<open>ensureDefaultLocation\<close> shows that the search always ends.

  \<^bold>\<open>Assumptions.\<close> One transaction runs at a time (the source takes row locks and advisory locks for
  that purpose; two transactions of one checkout, one order or one subscription are serialised by
  them). Row-level security confines a transaction to its store or organisation, so the tables are
  those of one store or one organisation. Texts are 8-bit strings. Hashes are arguments; where a
  property needs a stored quote's hash to tell its quote from others, \<open>collision_free\<close> says so of the
  two quotes compared. Inputs are modelled after their schema's parsing.

  \<^bold>\<open>Not modelled\<close>, with the reasons: read-only queries, lists with cursors, exports and pages (they
  change no state); formatting by \<open>Intl\<close>; e-mails, logs and metrics; HTTP clients of providers,
  signatures, sessions and passwords (cryptography and external services, which are parameters
  here); zod schemas beyond the limits the model needs (a third-party package); React components and
  the applications under \<open>apps/\<close>, which call the services; the editor's documents and the rendering
  of sites; catalogue editing, whose rows the checkout takes as they are.
\<close>

end
